(* ===== verification/Prelude.thy ===== *)
theory Prelude
  imports Complex_Main "HOL-Library.AList" "HOL-Library.Multiset"
begin

text \<open>
  Shared vocabulary of the development: JavaScript's insertion-ordered \<open>Map\<close> as an
  association list, the \<open>Array\<close> operations the sources use (\<open>find\<close>, in-place mutation of the
  first matching element, the stable \<open>sort\<close>), results that may throw, and the lemma collections
  the component theories feed.

  Timestamps. The sources keep every point in time as the string \<open>new Date(ms).toISOString()\<close>
  and either parse it back with \<open>Date.parse\<close> or compare two such strings. Both agree with the
  millisecond count for the years 0 to 9999 (\<open>Date.parse\<close> inverts \<open>toISOString\<close>, and the fixed
  format makes string order the numeric order), so a timestamp is its millisecond count here.
\<close>

named_theorems js_map_simps \<open>lookup, update and deletion on JavaScript maps\<close>
named_theorems store_defs \<open>definitions of the store operations, for case analysis on a call\<close>
named_theorems policy_defs \<open>numeric policy constants\<close>

type_synonym timestamp = int

subsection \<open>JavaScript maps\<close>

type_synonym ('k, 'v) js_map = "('k \<times> 'v) list"

text \<open>
  \<open>Map.set\<close> keeps the position of a key that is present and appends a new one, which is what
  \<^const>\<open>AList.update\<close> does; iteration is in insertion order.
\<close>

definition js_get :: "('k, 'v) js_map \<Rightarrow> 'k \<Rightarrow> 'v option" where
  "js_get m k = map_of m k"

definition js_has :: "('k, 'v) js_map \<Rightarrow> 'k \<Rightarrow> bool" where
  "js_has m k \<longleftrightarrow> js_get m k \<noteq> None"

definition js_set :: "('k, 'v) js_map \<Rightarrow> 'k \<Rightarrow> 'v \<Rightarrow> ('k, 'v) js_map" where
  "js_set m k v = AList.update k v m"

definition js_delete :: "('k, 'v) js_map \<Rightarrow> 'k \<Rightarrow> ('k, 'v) js_map" where
  "js_delete m k = AList.delete k m"

definition js_values :: "('k, 'v) js_map \<Rightarrow> 'v list" where
  "js_values m = map snd m"

definition js_keys :: "('k, 'v) js_map \<Rightarrow> 'k list" where
  "js_keys m = map fst m"

text \<open>The map \<open>new Map(entries)\<close> builds from a list of entries: later entries win.\<close>

definition js_of_entries :: "('k \<times> 'v) list \<Rightarrow> ('k, 'v) js_map" where
  "js_of_entries es = foldl (\<lambda>m (k, v). js_set m k v) [] es"

text \<open>A map whose keys are distinct, as every \<open>Map\<close> object is.\<close>

definition js_wf :: "('k, 'v) js_map \<Rightarrow> bool" where
  "js_wf m \<longleftrightarrow> distinct (map fst m)"

lemma js_get_Nil [simp, js_map_simps]: "js_get [] k = None"
  by (simp add: js_get_def)

lemma js_get_Cons [js_map_simps]: "js_get ((k', v) # m) k = (if k' = k then Some v else js_get m k)"
  by (simp add: js_get_def)

lemma js_get_set [simp, js_map_simps]:
  "js_get (js_set m k v) k' = (if k' = k then Some v else js_get m k')"
  by (simp add: js_get_def js_set_def update_conv')

lemma js_get_delete [simp, js_map_simps]:
  "js_get (js_delete m k) k' = (if k' = k then None else js_get m k')"
  by (simp add: js_get_def js_delete_def delete_conv' AList.restrict_eq map_of_eq_None_iff)

lemma js_has_set [simp, js_map_simps]: "js_has (js_set m k v) k' \<longleftrightarrow> k' = k \<or> js_has m k'"
  by (simp add: js_has_def)

lemma js_wf_Nil [simp]: "js_wf []"
  by (simp add: js_wf_def)

lemma js_wf_set [simp]: "js_wf m \<Longrightarrow> js_wf (js_set m k v)"
  by (simp add: js_wf_def js_set_def distinct_update)

lemma js_wf_delete [simp]: "js_wf m \<Longrightarrow> js_wf (js_delete m k)"
  by (simp add: js_wf_def js_delete_def distinct_delete)

lemma js_get_mem: "js_get m k = Some v \<Longrightarrow> (k, v) \<in> set m"
  by (simp add: js_get_def map_of_SomeD)

lemma js_mem_get: "js_wf m \<Longrightarrow> (k, v) \<in> set m \<longleftrightarrow> js_get m k = Some v"
  by (simp add: js_wf_def js_get_def)

lemma js_values_get: "js_wf m \<Longrightarrow> v \<in> set (js_values m) \<longleftrightarrow> (\<exists>k. js_get m k = Some v)"
  by (force simp: js_values_def js_mem_get [symmetric])

lemma js_keys_set: "set (js_keys (js_set m k v)) = insert k (set (js_keys m))"
  by (induction m) (auto simp: js_keys_def js_set_def)

lemma js_set_append_new: "\<not> js_has m k \<Longrightarrow> js_set m k v = m @ [(k, v)]"
  by (induction m) (auto simp: js_set_def js_has_def js_get_def split: if_splits)

lemma js_set_in_place:
  "js_wf m \<Longrightarrow> js_has m k \<Longrightarrow> js_set m k v = map (\<lambda>(k', v'). if k' = k then (k', v) else (k', v')) m"
proof (induction m)
  case Nil
  then show ?case by (simp add: js_has_def)
next
  case (Cons e m)
  obtain k0 v0 where e: "e = (k0, v0)" by fastforce
  show ?case
  proof (cases "k0 = k")
    case True
    with Cons.prems(1) e have "k \<notin> fst ` set m" by (simp add: js_wf_def)
    then have "map (\<lambda>(k', v'). if k' = k then (k', v) else (k', v')) m = m"
      by (intro map_idI) force
    with True e show ?thesis by (simp add: js_set_def)
  next
    case False
    with Cons e show ?thesis by (simp add: js_set_def js_wf_def js_has_def js_get_def)
  qed
qed

text \<open>
  The interface of a keyed container, with the laws the stores rely on; the association lists
  above implement it.
\<close>

locale keyed_container =
  fixes get :: "'m \<Rightarrow> 'k \<Rightarrow> 'v option"
    and put :: "'m \<Rightarrow> 'k \<Rightarrow> 'v \<Rightarrow> 'm"
    and del :: "'m \<Rightarrow> 'k \<Rightarrow> 'm"
    and wf :: "'m \<Rightarrow> bool"
  assumes get_put: "get (put m k v) k' = (if k' = k then Some v else get m k')"
    and get_del: "get (del m k) k' = (if k' = k then None else get m k')"
    and wf_put: "wf m \<Longrightarrow> wf (put m k v)"
    and wf_del: "wf m \<Longrightarrow> wf (del m k)"
begin

lemma put_then_del: "get (del (put m k v) k) = (get m)(k := None)"
  by (rule ext) (simp add: get_put get_del)

lemma put_commute: "k \<noteq> l \<Longrightarrow> get (put (put m k v) l w) = get (put (put m l w) k v)"
  by (rule ext) (simp add: get_put)

lemma put_all_preserves:
  assumes "\<And>k v. get m k = Some v \<Longrightarrow> P k v" and "P k w"
  shows "get (put m k w) l = Some v \<Longrightarrow> P l v"
  using assms by (auto simp: get_put split: if_splits)

end

interpretation js: keyed_container js_get js_set js_delete js_wf
  by unfold_locales simp_all

subsection \<open>Arrays\<close>

text \<open>Mutating the first element that satisfies a condition (\<open>const x = xs.find(p); x.f = v\<close>).\<close>

fun update_first :: "('a \<Rightarrow> bool) \<Rightarrow> ('a \<Rightarrow> 'a) \<Rightarrow> 'a list \<Rightarrow> 'a list" where
  "update_first p f [] = []"
| "update_first p f (x # xs) = (if p x then f x # xs else x # update_first p f xs)"

lemma set_update_first: "x \<in> set (update_first p f xs) \<Longrightarrow> x \<in> set xs \<or> (\<exists>y \<in> set xs. p y \<and> x = f y)"
  by (induction xs) (auto split: if_splits)

lemma update_first_map_eq: "(\<And>x. g (f x) = g x) \<Longrightarrow> map g (update_first p f xs) = map g xs"
  by (induction xs) auto

lemma update_first_length [simp]: "length (update_first p f xs) = length xs"
  by (induction xs) auto

text \<open>
  \<open>Array.prototype.sort\<close> with a comparator. The standard requires a stable sort, so for a
  comparator that is a total preorder the result is determined; this is that result.
\<close>

type_synonym 'a comparator = "'a \<Rightarrow> 'a \<Rightarrow> int"

fun js_insort :: "'a comparator \<Rightarrow> 'a \<Rightarrow> 'a list \<Rightarrow> 'a list" where
  "js_insort c x [] = [x]"
| "js_insort c x (y # ys) = (if c x y \<le> 0 then x # y # ys else y # js_insort c x ys)"

fun js_sort :: "'a comparator \<Rightarrow> 'a list \<Rightarrow> 'a list" where
  "js_sort c [] = []"
| "js_sort c (x # xs) = js_insort c x (js_sort c xs)"

text \<open>\<open>a || b\<close> on comparator results: the second decides where the first ties.\<close>

definition then_by :: "int \<Rightarrow> int \<Rightarrow> int" where
  "then_by a b = (if a = 0 then b else a)"

lemma mset_js_insort [simp]: "mset (js_insort c x xs) = add_mset x (mset xs)"
  by (induction xs) auto

lemma mset_js_sort [simp]: "mset (js_sort c xs) = mset xs"
  by (induction xs) auto

lemma set_js_sort [simp]: "set (js_sort c xs) = set xs"
  by (metis mset_js_sort set_mset_mset)

lemma length_js_sort [simp]: "length (js_sort c xs) = length xs"
  by (metis mset_js_sort size_mset)

lemma js_sort_Nil_iff [simp]: "js_sort c xs = [] \<longleftrightarrow> xs = []"
  by (metis length_0_conv length_js_sort)

lemma distinct_js_sort [simp]: "distinct (js_sort c xs) = distinct xs"
  by (metis mset_js_sort mset_eq_imp_distinct_iff)

text \<open>What \<open>sort\<close> asks of a comparator.\<close>

locale total_preorder_comparator =
  fixes cmp :: "'a comparator"
  assumes cmp_total: "0 < cmp x y \<Longrightarrow> cmp y x \<le> 0"
    and cmp_trans: "cmp x y \<le> 0 \<Longrightarrow> cmp y z \<le> 0 \<Longrightarrow> cmp x z \<le> 0"
begin

lemma cmp_refl: "cmp x x \<le> 0"
  using cmp_total [of x x] by linarith

lemma set_js_insort: "set (js_insort cmp x xs) = insert x (set xs)"
  by (metis mset_js_insort set_mset_add_mset_insert set_mset_mset)

lemma sorted_js_insort:
  "sorted_wrt (\<lambda>x y. cmp x y \<le> 0) xs \<Longrightarrow> sorted_wrt (\<lambda>x y. cmp x y \<le> 0) (js_insort cmp x xs)"
proof (induction xs)
  case Nil
  then show ?case by simp
next
  case (Cons y ys)
  then show ?case
    by (auto simp: set_js_insort intro: cmp_trans cmp_total)
qed

lemma sorted_js_sort: "sorted_wrt (\<lambda>x y. cmp x y \<le> 0) (js_sort cmp xs)"
  by (induction xs) (auto intro: sorted_js_insort)

lemma js_sort_hd_least:
  assumes "js_sort cmp xs = y # ys" and "x \<in> set xs"
  shows "cmp y x \<le> 0"
proof -
  from assms have "x = y \<or> x \<in> set ys" by (metis set_ConsD set_js_sort)
  with sorted_js_sort [of xs] assms(1) show ?thesis by (auto intro: cmp_refl)
qed

end

text \<open>Sorting by an integer key.\<close>

definition by_key :: "('a \<Rightarrow> int) \<Rightarrow> 'a comparator" where
  "by_key f x y = f x - f y"

interpretation by_key: total_preorder_comparator "by_key f" for f :: "'a \<Rightarrow> int"
  by unfold_locales (auto simp: by_key_def)

text \<open>
  \<open>String.prototype.localeCompare\<close> orders strings by the collation of the host's locale, which the
  sources do not fix. Operations that sort by it take the comparator as an argument; this is what
  they rely on, and comparison by code unit, the order of a host without locale data, provides it.
\<close>

locale collation = total_preorder_comparator lc for lc :: "string comparator" +
  assumes lc_eq: "lc x y = 0 \<longleftrightarrow> x = y"

fun lex_compare :: "int list comparator" where
  "lex_compare [] [] = 0"
| "lex_compare [] (d # ds) = -1"
| "lex_compare (c # cs) [] = 1"
| "lex_compare (c # cs) (d # ds) = (if c < d then -1 else if d < c then 1 else lex_compare cs ds)"

definition code_unit_compare :: "string comparator" where
  "code_unit_compare x y = lex_compare (map of_char x) (map of_char y)"

lemma lex_compare_total: "0 < lex_compare x y \<Longrightarrow> lex_compare y x \<le> 0"
  by (induction x y rule: lex_compare.induct) (auto split: if_splits)

lemma lex_compare_eq: "lex_compare x y = 0 \<longleftrightarrow> x = y"
  by (induction x y rule: lex_compare.induct) auto

lemma lex_compare_trans: "lex_compare x y \<le> 0 \<Longrightarrow> lex_compare y z \<le> 0 \<Longrightarrow> lex_compare x z \<le> 0"
proof (induction x y arbitrary: z rule: lex_compare.induct)
  case (2 d ds)
  then show ?case by (cases z) auto
next
  case (4 c cs d ds)
  show ?case
  proof (cases z)
    case Nil
    with "4.prems" show ?thesis by simp
  next
    case (Cons e es)
    show ?thesis
    proof (cases "c = d \<and> d = e")
      case True
      with "4.prems" Cons have le: "lex_compare cs ds \<le> 0" "lex_compare ds es \<le> 0" by simp_all
      from True have "\<not> c < d" "\<not> d < c" by simp_all
      from "4.IH" [OF this le] have "lex_compare cs es \<le> 0" .
      with True Cons show ?thesis by simp
    next
      case False
      from "4.prems"(1) have "c \<le> d"
        by (metis lex_compare.simps(4) linorder_not_le not_one_le_zero order.asym)
      moreover from "4.prems"(2) Cons have "d \<le> e"
        by (metis lex_compare.simps(4) linorder_not_le not_one_le_zero order.asym)
      ultimately have "c < e" using False by linarith
      with Cons show ?thesis by simp
    qed
  qed
qed auto

lemma code_unit_compare_eq: "code_unit_compare x y = 0 \<longleftrightarrow> x = y"
  by (simp add: code_unit_compare_def lex_compare_eq inj_map_eq_map inj_def)

interpretation code_unit: collation code_unit_compare
proof unfold_locales
  fix x y z :: string
  show "0 < code_unit_compare x y \<Longrightarrow> code_unit_compare y x \<le> 0"
    unfolding code_unit_compare_def by (rule lex_compare_total)
  show "code_unit_compare x y \<le> 0 \<Longrightarrow> code_unit_compare y z \<le> 0 \<Longrightarrow> code_unit_compare x z \<le> 0"
    unfolding code_unit_compare_def by (rule lex_compare_trans)
  show "code_unit_compare x y = 0 \<longleftrightarrow> x = y"
    by (rule code_unit_compare_eq)
qed

subsection \<open>State and failure\<close>

text \<open>
  An operation on a state that may throw: an exception leaves the state as it was when it was
  thrown, and \<open>await\<close> sequences two operations.
\<close>

type_synonym ('e, 's, 'a) op = "'s \<Rightarrow> ('e + 'a) \<times> 's"

definition return_op :: "'a \<Rightarrow> ('e, 's, 'a) op" where
  "return_op a s = (Inr a, s)"

definition throw_op :: "'e \<Rightarrow> ('e, 's, 'a) op" where
  "throw_op e s = (Inl e, s)"

definition bind_op :: "('e, 's, 'a) op \<Rightarrow> ('a \<Rightarrow> ('e, 's, 'b) op) \<Rightarrow> ('e, 's, 'b) op" where
  "bind_op m f s = (case m s of (Inl e, s') \<Rightarrow> (Inl e, s') | (Inr a, s') \<Rightarrow> f a s')"

fun for_each_op :: "('a \<Rightarrow> ('e, 's, unit) op) \<Rightarrow> 'a list \<Rightarrow> ('e, 's, unit) op" where
  "for_each_op f [] s = (Inr (), s)"
| "for_each_op f (x # xs) s = bind_op (f x) (\<lambda>_. for_each_op f xs) s"

lemma return_op_simp [simp]: "return_op a s = (Inr a, s)"
  by (simp add: return_op_def)

lemma throw_op_simp [simp]: "throw_op e s = (Inl e, s)"
  by (simp add: throw_op_def)

lemma bind_op_Inr [simp]: "m s = (Inr a, s') \<Longrightarrow> bind_op m f s = f a s'"
  by (simp add: bind_op_def)

lemma bind_op_Inl [simp]: "m s = (Inl e, s') \<Longrightarrow> bind_op m f s = (Inl e, s')"
  by (simp add: bind_op_def)

lemma bind_op_InrE:
  assumes "bind_op m f s = (Inr b, s'')"
  obtains a s' where "m s = (Inr a, s')" and "f a s' = (Inr b, s'')"
  using assms by (auto simp: bind_op_def split: prod.splits sum.splits)

lemma bind_op_preserves:
  assumes "\<And>s. P s \<Longrightarrow> P (snd (m s))" and "\<And>a s. P s \<Longrightarrow> P (snd (f a s))" and "P s"
  shows "P (snd (bind_op m f s))"
proof (cases "m s")
  case (Pair r s')
  with assms(1) [OF assms(3)] have "P s'" by simp
  with Pair assms(2) show ?thesis by (cases r) (simp_all add: bind_op_def)
qed

text \<open>Started where \<open>P\<close> holds, an operation ends where \<open>Q\<close> holds of its result, or \<open>E\<close> of its error.\<close>

definition triple :: "('s \<Rightarrow> bool) \<Rightarrow> ('e, 's, 'a) op \<Rightarrow> ('a \<Rightarrow> 's \<Rightarrow> bool) \<Rightarrow> ('e \<Rightarrow> 's \<Rightarrow> bool) \<Rightarrow> bool" where
  "triple P m Q E \<longleftrightarrow> (\<forall>x r y. P x \<and> m x = (r, y) \<longrightarrow> (case r of Inl e \<Rightarrow> E e y | Inr a \<Rightarrow> Q a y))"

lemma triple_bind: "triple P m Q E \<Longrightarrow> (\<And>a. triple (Q a) (f a) R E) \<Longrightarrow> triple P (bind_op m f) R E"
  unfolding triple_def bind_op_def by (fastforce split: prod.splits sum.splits)

lemma triple_run: "triple P m Q E \<Longrightarrow> P x \<Longrightarrow> m x = (r, y) \<Longrightarrow> case r of Inl e \<Rightarrow> E e y | Inr a \<Rightarrow> Q a y"
  unfolding triple_def by blast

lemma triple_conseq:
  "triple P' m Q' E \<Longrightarrow> (\<And>x. P x \<Longrightarrow> P' x) \<Longrightarrow> (\<And>a x. Q' a x \<Longrightarrow> Q a x) \<Longrightarrow> triple P m Q E"
  unfolding triple_def by (fastforce split: sum.splits)

lemma triple_cases:
  "triple P m Q E \<longleftrightarrow> (\<forall>x. P x \<longrightarrow> (case m x of (Inr a, y) \<Rightarrow> Q a y | (Inl e, y) \<Rightarrow> E e y))"
  unfolding triple_def by (auto split: prod.splits sum.splits)

lemma for_each_op_preserves:
  assumes "\<And>x s. x \<in> set xs \<Longrightarrow> P s \<Longrightarrow> P (snd (f x s))" and "P s"
  shows "P (snd (for_each_op f xs s))"
  using assms
proof (induction xs arbitrary: s)
  case Nil
  then show ?case by simp
next
  case (Cons x xs)
  have "P (snd (bind_op (f x) (\<lambda>_. for_each_op f xs) s))"
    by (rule bind_op_preserves [where P = P]) (use Cons in auto)
  then show ?case by simp
qed

subsection \<open>Lists of optional values\<close>

lemma map_filter_id_set: "set (List.map_filter id xs) = {x. Some x \<in> set xs}"
  by (induction xs) (auto split: option.splits)

lemma find_SomeD: "List.find p xs = Some x \<Longrightarrow> p x \<and> x \<in> set xs"
  by (induction xs) (auto split: if_splits)

lemma find_Some_iff_ex: "(\<exists>x. List.find p xs = Some x) \<longleftrightarrow> (\<exists>x \<in> set xs. p x)"
  by (induction xs) auto

lemma find_None_append: "List.find p xs = None \<Longrightarrow> List.find p (xs @ ys) = List.find p ys"
  by (induction xs) (auto split: if_splits)

lemma find_Some_append: "List.find p xs = Some x \<Longrightarrow> List.find p (xs @ ys) = Some x"
  by (induction xs) (auto split: if_splits)

end
