(* ===== verification/Routing_Domain.thy ===== *)
theory Routing_Domain
  imports Prelude
begin

text \<open>
  The data model of \<open>src/domain/routing.ts\<close>: enumerations as datatypes, interfaces as records in
  the order of the source, \<open>extends\<close> as record extension, optional properties as \<open>option\<close>.
  Integer quantities are \<open>int\<close>, scores and prices \<open>real\<close>.
\<close>

type_synonym ProviderId = string

datatype ProviderClass = Residential | DeviceBacked

datatype DataPlaneProtocol = Http | Https | Socks5

datatype UpstreamProxyProtocol = UpHttp | UpSocks5

datatype DnsResolutionBehavior = ProviderConfigurable | ProviderRemote | DnsUnverified

datatype ExactCitySupport = CityProviderGuaranteed | CityVerifiable | CityUnsupported

definition ACTIVE_CONNECTION_TTL_MS :: int where
  [policy_defs]: "ACTIVE_CONNECTION_TTL_MS = 2 * 60000"

record ProxyTarget =
  pt_host :: string
  pt_port :: int

record Targeting =
  country :: "string option"
  region :: "string option"
  city :: "string option"
  postalCode :: "string option"
  asn :: "int option"
  carrier :: "string option"

text \<open>The keys of \<open>Targeting\<close>, as \<open>keyof Targeting\<close> uses them.\<close>

datatype TargetingKey = KCountry | KRegion | KCity | KPostalCode | KAsn | KCarrier

fun targeting_defines :: "Targeting \<Rightarrow> TargetingKey \<Rightarrow> bool" where
  "targeting_defines t KCountry = (country t \<noteq> None)"
| "targeting_defines t KRegion = (region t \<noteq> None)"
| "targeting_defines t KCity = (city t \<noteq> None)"
| "targeting_defines t KPostalCode = (postalCode t \<noteq> None)"
| "targeting_defines t KAsn = (asn t \<noteq> None)"
| "targeting_defines t KCarrier = (carrier t \<noteq> None)"

datatype RotationPolicy = PerRequest | Interval int | Manual

datatype RotationMode = RotPerRequest | RotInterval | RotManual

record RetryPolicy =
  maxAttempts :: nat

datatype SessionMode = Managed | Stateless

record Geography =
  countryCode :: "string option"
  regionCode :: "string option"
  geo_city :: "string option"

record RouteProfile =
  rp_name :: string
  customerId :: string
  geography :: "Geography option"
  rp_carrier :: "string option"
  providerOverride :: "ProviderId option"
  allowConnectionRetry :: bool
  userId :: string
  allowedProtocols :: "DataPlaneProtocol list"
  targeting :: Targeting
  rotation :: RotationPolicy
  shouldRetry :: bool
  retryPolicy :: RetryPolicy

datatype RouteStatus = RouteReady | RouteRevoked

record StoredRoute = RouteProfile +
  route_id :: string
  route_status :: RouteStatus
  route_terminateActive :: bool
  route_createdAt :: timestamp
  route_updatedAt :: timestamp

datatype AccessGrantStatus = GrantReady | GrantRevoked

datatype StoredCredentialStatus = CredActive | CredOverlap | CredRevoked

datatype PublicCredentialStatus = PubActive | PubOverlap | PubRevoked | PubExpired

record StoredAccessGrantCredential =
  cred_id :: string
  cred_sessionMode :: SessionMode
  cred_sessionId :: "string option"
  tokenSalt :: string
  tokenHash :: string
  cred_status :: StoredCredentialStatus
  cred_createdAt :: timestamp
  renewalDueAt :: timestamp
  expiresAt :: timestamp
  revokeAt :: "timestamp option"
  cred_lastUsedAt :: "timestamp option"

record PublicAccessGrantCredential =
  pub_credentialId :: string
  pub_username :: string
  pub_managed :: bool
  pub_sessionId :: "string option"
  pub_status :: PublicCredentialStatus
  pub_createdAt :: timestamp
  pub_renewalDueAt :: timestamp
  pub_renewalDue :: bool
  pub_expiresAt :: timestamp
  pub_revokeAt :: "timestamp option"
  pub_lastUsedAt :: "timestamp option"

record StoredAccessGrant =
  grant_id :: string
  grant_routeId :: string
  principalId :: string
  grant_jobId :: "string option"
  credentials :: "StoredAccessGrantCredential list"
  grant_status :: AccessGrantStatus
  grant_terminateActive :: bool
  grant_createdAt :: timestamp
  grant_updatedAt :: timestamp

record AuthenticatedAccessGrant =
  auth_grant :: StoredAccessGrant
  auth_credential :: StoredAccessGrantCredential
  auth_route :: StoredRoute

record PublicAccessGrant =
  pg_grantId :: string
  pg_profileId :: string
  pg_jobId :: "string option"
  pg_status :: AccessGrantStatus
  pg_credentials :: "PublicAccessGrantCredential list"
  pg_createdAt :: timestamp
  pg_updatedAt :: timestamp

datatype LogicalSessionStatus = SessionOpen | SessionClosed

record SessionAffinity =
  aff_provider :: ProviderId
  aff_providerClass :: ProviderClass
  aff_candidateId :: string
  affinityHandle :: string
  profileFingerprint :: string
  aff_desiredProviderClass :: ProviderClass
  aff_currentProviderClass :: ProviderClass
  aff_degradedFallback :: bool
  boundAt :: timestamp
  aff_lastUsedAt :: timestamp

record StoredLogicalSession =
  session_id :: string
  session_grantId :: string
  session_routeId :: string
  session_status :: LogicalSessionStatus
  session_terminateActive :: bool
  bindingVersion :: int
  affinity :: "SessionAffinity option"
  preferredClassHealthySince :: "timestamp option"
  lastDisconnectedAt :: "timestamp option"
  closedAt :: "timestamp option"
  session_createdAt :: timestamp
  session_updatedAt :: timestamp

record PublicLogicalSession =
  ps_sessionId :: string
  ps_grantId :: string
  ps_profileId :: string
  ps_status :: LogicalSessionStatus
  ps_createdAt :: timestamp
  ps_updatedAt :: timestamp
  ps_lastUsedAt :: "timestamp option"
  ps_closedAt :: "timestamp option"

record AuthenticatedRoute = StoredRoute +
  ar_accessGrantId :: string
  ar_credentialId :: string
  ar_jobId :: "string option"
  ar_sessionMode :: SessionMode
  ar_sessionId :: "string option"

record PublicRoute =
  pr_profileId :: string
  pr_customerId :: string
  pr_geography :: "Geography option"
  pr_carrier :: "string option"
  pr_providerOverride :: "ProviderId option"
  pr_allowConnectionRetry :: bool
  pr_status :: RouteStatus
  pr_createdAt :: timestamp
  pr_updatedAt :: timestamp

record ProviderInventorySlot =
  slot_proxySlotId :: string
  slot_deviceId :: "string option"
  slot_country :: "string option"
  slot_region :: "string option"
  slot_city :: "string option"
  slot_carrier :: "string option"
  slot_healthy :: bool
  slot_egressIp :: "string option"

record ProviderInventorySnapshot =
  inv_provider :: ProviderId
  providerAccountId :: string
  monthlyPricePerSlotUsd :: "real option"
  slots :: "ProviderInventorySlot list"
  capturedAt :: timestamp

datatype AssignmentMode = AssignProviderGuaranteed | AssignServiceVerified | AssignUnverified

datatype CandidateChangeReason =
  ReasonSelection | ReasonRetry | ReasonFailover | ReasonRotation | ReasonProviderInitiated

datatype CapacityCircuitStatus = CircuitClosed | CircuitOpen | CircuitHalfOpen

datatype CapacityCircuitReason = ProviderHardLimit | CapacityFailure | EstablishmentFailure | CircuitTimeout

record CapacityCircuitState =
  circ_provider :: ProviderId
  circ_candidateKey :: string
  circ_status :: CapacityCircuitStatus
  consecutiveFailures :: int
  openCount :: int
  circ_reason :: "CapacityCircuitReason option"
  cooldownUntil :: "timestamp option"
  probeExpiresAt :: "timestamp option"
  circ_updatedAt :: timestamp
  circ_expiresAt :: timestamp

record AssignmentEvidence =
  asg_candidateId :: string
  asg_proxySlotId :: "string option"
  assignmentMode :: AssignmentMode
  providerManagedReassignmentDisabled :: bool
  changeReason :: CandidateChangeReason
  asg_previousCandidateId :: "string option"
  providerSessionId :: "string option"
  peerId :: "string option"
  deviceId :: "string option"
  egressIp :: "string option"
  opaqueIpId :: "string option"
  expectedCity :: "string option"
  observedCity :: "string option"
  verificationSource :: "string option"

record RoutingScoreComponents =
  reliability :: real
  headroom :: real
  performance :: real
  costEfficiency :: real
  stability :: real

record UpstreamEndpoint =
  ep_provider :: ProviderId
  ep_endpointId :: string
  ep_protocol :: UpstreamProxyProtocol
  ep_host :: string
  ep_port :: int
  ep_username :: string
  ep_password :: string
  ep_proxySlotId :: "string option"
  upstreamConnectionId :: "string option"
  upstreamConnectionStartedAt :: "timestamp option"
  selectedSlotLoad :: "int option"
  ep_capacityPressure :: "bool option"
  ep_capacityPressureProvider :: "ProviderId option"
  ep_capacityPolicyVersion :: "string option"
  activeLoadClaimId :: "string option"
  capacityCircuitKey :: "string option"
  capacityCircuitState :: "CapacityCircuitStatus option"
  capacityCircuitReason :: "CapacityCircuitReason option"
  capacityCircuitCooldownUntil :: "timestamp option"
  ep_routingPolicyVersion :: "string option"
  ep_routingScore :: "real option"
  ep_routingScoreComponents :: "RoutingScoreComponents option"
  assignment :: AssignmentEvidence

record ActiveTunnel =
  tun_id :: string
  deploymentId :: string
  tun_routeId :: string
  tun_accessGrantId :: string
  tun_sessionId :: "string option"
  tun_protocol :: DataPlaneProtocol
  tun_provider :: ProviderId
  tun_endpointId :: "string option"
  tun_routingPolicyVersion :: "string option"
  tun_routingScore :: "real option"
  startedAt :: timestamp
  lastHeartbeatAt :: timestamp
  tun_expiresAt :: timestamp

record DeploymentDrainState =
  drain_deploymentId :: string
  drain_startedAt :: timestamp
  terminateRemaining :: bool
  lastNotificationAt :: "timestamp option"
  extensionUntil :: "timestamp option"
  drain_updatedAt :: timestamp

datatype ReassignmentControl = ReassignDisabled | ReassignObservable | ReassignUncontrolled

datatype RotationControl = RotationDisabled | RotationUncontrolled

datatype TargetPorts = AnyPublic | OnlyPorts "int list"

datatype SafetyMode = SafetyVerified | SafetyProviderTrusted

datatype NetworkScope = ExternalPublicOnly | PrivilegedOrUnknown

datatype HealthSource = HealthProviderApiOrProbe | HealthProviderInventory

datatype CapacityObservation = ObserveProviderApiOrEvidence | ObserveProviderInventory

datatype Provisioning = ProvisionUnsupported | ProvisionOperatorOnly | ProvisionAdapterOptional

record ProviderCapabilities =
  clientProtocols :: "DataPlaneProtocol list"
  upstreamProtocols :: "UpstreamProxyProtocol list"
  cap_geography :: "TargetingKey list"
  countries :: "string list option"
  sessions :: bool
  exactCity :: ExactCitySupport
  providerManagedReassignment :: ReassignmentControl
  providerManagedRotation :: RotationControl
  cap_rotation :: "RotationMode list"
  targetPorts :: TargetPorts
  dns_http :: DnsResolutionBehavior
  dns_socks5 :: DnsResolutionBehavior
  safety_http :: SafetyMode
  safety_socks5 :: SafetyMode
  providerNetworkScope :: NetworkScope
  health_source :: HealthSource
  capacity_observation :: CapacityObservation
  provisioning :: Provisioning

datatype PricingModel = PerGib | PerDeviceMonth

record ProviderDescriptor =
  desc_id :: ProviderId
  providerClass :: ProviderClass
  capabilities :: ProviderCapabilities
  pricing_version :: string
  pricing_model :: PricingModel
  amountUsd :: real
  costRank :: int

text \<open>
  JavaScript sets over an enumeration are lists in the records; membership is \<open>Set.has\<close>.
\<close>

abbreviation has :: "'a list \<Rightarrow> 'a \<Rightarrow> bool" where
  "has xs x \<equiv> x \<in> set xs"

end
