(* ===== verification/Service_Policies.thy ===== *)
theory Service_Policies
  imports Routing_Domain
begin

text \<open>
  The numeric policies of \<open>src/service-policies.ts\<close>, \<open>src/routing-policy.ts\<close> (the record and its
  defaults), \<open>src/capacity-policy.ts\<close> and the drain intervals of \<open>src/release-policy.ts\<close>.
\<close>

record V0Policy =
  v0_version :: string
  v0_definedAt :: string
  lifetimeMs :: int
  renewalWindowMs :: int
  overlapMs :: int
  candidatesPerProvider :: int
  providersPerOperation :: nat
  attemptTimeoutMs :: int
  operationTimeoutMs :: int

definition V0_POLICY :: V0Policy where
  [policy_defs]: "V0_POLICY =
     \<lparr>v0_version = ''proxy-v0-policy-2026-07-18'', v0_definedAt = ''2026-07-18'',
      lifetimeMs = 30 * 24 * 60 * 60000, renewalWindowMs = 7 * 24 * 60 * 60000,
      overlapMs = 72 * 60 * 60000, candidatesPerProvider = 2, providersPerOperation = 3,
      attemptTimeoutMs = 10000, operationTimeoutMs = 30000\<rparr>"

record AccountingPolicy =
  varianceAbsoluteFloorUsd :: real
  varianceWarningRelative :: real
  varianceErrorRelative :: real

definition ACCOUNTING_POLICY :: AccountingPolicy where
  [policy_defs]: "ACCOUNTING_POLICY =
     \<lparr>varianceAbsoluteFloorUsd = 1, varianceWarningRelative = 5 / 100, varianceErrorRelative = 15 / 100\<rparr>"

record HealthPolicy =
  syntheticCooldownMs :: int
  geoIpRefreshIntervalMs :: int
  degradedPersistenceMs :: int

definition HEALTH_POLICY :: HealthPolicy where
  [policy_defs]: "HEALTH_POLICY =
     \<lparr>syntheticCooldownMs = 5 * 60000, geoIpRefreshIntervalMs = (7 * 24 * 60 * 60000) div 2,
      degradedPersistenceMs = 5 * 60000\<rparr>"

record TransportPolicy =
  streamBufferBytes :: int
  maxHeaderBytes :: int
  allowedTargetPorts :: "int list"
  blockedTargetHostnames :: "string list"
  targetActiveConnectionsPerTask :: nat
  maxActiveConnectionsPerTask :: nat

definition TRANSPORT_POLICY :: TransportPolicy where
  [policy_defs]: "TRANSPORT_POLICY =
     \<lparr>streamBufferBytes = 64 * 1024, maxHeaderBytes = 32 * 1024, allowedTargetPorts = [80, 443],
      blockedTargetHostnames = [], targetActiveConnectionsPerTask = 500,
      maxActiveConnectionsPerTask = 750\<rparr>"

record RoutingPolicy =
  policy_version :: string
  policy_definedAt :: string
  weight_reliability :: real
  weight_headroom :: real
  weight_performance :: real
  weight_costEfficiency :: real
  weight_stability :: real
  topBandPoints :: real
  selectionExponent :: nat
  evidenceWindowMs :: int
  evidenceHalfLifeMs :: int
  evidenceFreshnessMs :: int
  performanceReferenceMs :: int
  referenceCostUsd :: real
  unknownSignalScore :: real
  capacityCircuitFailureThreshold :: int
  capacityCircuitBaseCooldownMs :: int
  capacityCircuitMaxCooldownMs :: int
  capacityCircuitHalfOpenLeaseMs :: int
  preferredClassStabilizationMs :: int
  sessionQuiescenceMs :: int

definition ROUTING_POLICY :: RoutingPolicy where
  [policy_defs]: "ROUTING_POLICY =
     \<lparr>policy_version = ''experimental-routing-defaults-2026-07-18'', policy_definedAt = ''2026-07-18'',
      weight_reliability = 3 / 10, weight_headroom = 3 / 10, weight_performance = 2 / 10,
      weight_costEfficiency = 15 / 100, weight_stability = 5 / 100,
      topBandPoints = 5, selectionExponent = 2,
      evidenceWindowMs = 24 * 60 * 60000, evidenceHalfLifeMs = 6 * 60 * 60000,
      evidenceFreshnessMs = 15 * 60000, performanceReferenceMs = 10000, referenceCostUsd = 1 / 100,
      unknownSignalScore = 1 / 2, capacityCircuitFailureThreshold = 3,
      capacityCircuitBaseCooldownMs = 60000, capacityCircuitMaxCooldownMs = 15 * 60000,
      capacityCircuitHalfOpenLeaseMs = 30000, preferredClassStabilizationMs = 5 * 60000,
      sessionQuiescenceMs = 30000\<rparr>"

record CapacityPolicy =
  capacity_version :: string
  headroomPercent :: real
  plannedMbpsPerSlot :: real
  assumedMbpsPerActiveConnection :: real
  softConnectionsPerSlot :: int
  prioritizedGbPerSlotPerBillingPeriod :: real

definition CAPACITY_POLICY :: CapacityPolicy where
  [policy_defs]: "CAPACITY_POLICY =
     \<lparr>capacity_version = ''experimental-proxidize-capacity-defaults-2026-07-18'', headroomPercent = 20,
      plannedMbpsPerSlot = 8, assumedMbpsPerActiveConnection = 5 / 10, softConnectionsPerSlot = 16,
      prioritizedGbPerSlotPerBillingPeriod = 50\<rparr>"

definition DEPLOYMENT_POLL_INTERVAL_MS :: int where
  [policy_defs]: "DEPLOYMENT_POLL_INTERVAL_MS = 15 * 60000"

definition DEPLOYMENT_NOTIFY_AFTER_MS :: int where
  [policy_defs]: "DEPLOYMENT_NOTIFY_AFTER_MS = 60 * 60000"

definition DEPLOYMENT_ESCALATE_AFTER_MS :: int where
  [policy_defs]: "DEPLOYMENT_ESCALATE_AFTER_MS = 3 * 60 * 60000"

definition DEPLOYMENT_TERMINATE_AFTER_MS :: int where
  [policy_defs]: "DEPLOYMENT_TERMINATE_AFTER_MS = 6 * 60 * 60000"

end
