(* ===== verification/Credentials.thy ===== *)
theory Credentials
  imports Service_Policies
begin

text \<open>
  The functions of \<open>src/store.ts\<close>: the life cycle of a stored credential and the redacted views
  the control API returns, and \<open>credentialUsable\<close> of \<open>src/in-memory-route-store.ts\<close>. The salted
  digest of a token is Node's SHA-256, an argument \<open>hash\<close> (of the token and the salt, as
  hexadecimal text); the random salt is an argument too.
\<close>

type_synonym token_hash = "string \<Rightarrow> string \<Rightarrow> string"

definition ACCESS_GRANT_CREDENTIAL_LIFETIME_MS :: int where
  "ACCESS_GRANT_CREDENTIAL_LIFETIME_MS = lifetimeMs V0_POLICY"

definition ACCESS_GRANT_CREDENTIAL_RENEWAL_WINDOW_MS :: int where
  "ACCESS_GRANT_CREDENTIAL_RENEWAL_WINDOW_MS = renewalWindowMs V0_POLICY"

definition ACCESS_GRANT_CREDENTIAL_OVERLAP_MS :: int where
  "ACCESS_GRANT_CREDENTIAL_OVERLAP_MS = overlapMs V0_POLICY"

lemmas credential_policy =
  ACCESS_GRANT_CREDENTIAL_LIFETIME_MS_def ACCESS_GRANT_CREDENTIAL_RENEWAL_WINDOW_MS_def
  ACCESS_GRANT_CREDENTIAL_OVERLAP_MS_def V0_POLICY_def

text \<open>\<open>(renewalDueAt, expiresAt)\<close>\<close>

definition credentialDates :: "timestamp \<Rightarrow> timestamp \<times> timestamp" where
  "credentialDates created =
     (created + ACCESS_GRANT_CREDENTIAL_LIFETIME_MS - ACCESS_GRANT_CREDENTIAL_RENEWAL_WINDOW_MS,
      created + ACCESS_GRANT_CREDENTIAL_LIFETIME_MS)"

definition createStoredCredential ::
  "token_hash \<Rightarrow> string \<Rightarrow> string \<Rightarrow> string \<Rightarrow> SessionMode \<Rightarrow> timestamp \<Rightarrow> string option \<Rightarrow>
   StoredAccessGrantCredential" where
  "createStoredCredential hash salt cid token mode created sid =
     \<lparr>cred_id = cid, cred_sessionMode = mode, cred_sessionId = sid, tokenSalt = salt,
      tokenHash = hash token salt, cred_status = CredActive, cred_createdAt = created,
      renewalDueAt = fst (credentialDates created), expiresAt = snd (credentialDates created),
      revokeAt = None, cred_lastUsedAt = None\<rparr>"

definition credentialUsername :: "string \<Rightarrow> string" where
  "credentialUsername cid = ''pxy_'' @ cid"

definition credentialUsable :: "StoredAccessGrantCredential \<Rightarrow> timestamp \<Rightarrow> bool" where
  "credentialUsable c now \<longleftrightarrow>
     cred_status c \<noteq> CredRevoked \<and> now < expiresAt c
     \<and> (case revokeAt c of None \<Rightarrow> True | Some r \<Rightarrow> now < r)"

fun publicStatus :: "StoredCredentialStatus \<Rightarrow> PublicCredentialStatus" where
  "publicStatus CredActive = PubActive"
| "publicStatus CredOverlap = PubOverlap"
| "publicStatus CredRevoked = PubRevoked"

definition toPublicCredential ::
  "AccessGrantStatus \<Rightarrow> StoredAccessGrantCredential \<Rightarrow> timestamp \<Rightarrow> PublicAccessGrantCredential" where
  "toPublicCredential gstatus c now =
     \<lparr>pub_credentialId = cred_id c, pub_username = credentialUsername (cred_id c),
      pub_managed = (cred_sessionMode c = Managed), pub_sessionId = cred_sessionId c,
      pub_status =
        (if gstatus = GrantRevoked \<or> cred_status c = CredRevoked
            \<or> (case revokeAt c of None \<Rightarrow> False | Some r \<Rightarrow> r \<le> now)
         then PubRevoked
         else if expiresAt c \<le> now then PubExpired
         else publicStatus (cred_status c)),
      pub_createdAt = cred_createdAt c, pub_renewalDueAt = renewalDueAt c,
      pub_renewalDue = (renewalDueAt c \<le> now \<and> now < expiresAt c),
      pub_expiresAt = expiresAt c, pub_revokeAt = revokeAt c, pub_lastUsedAt = cred_lastUsedAt c\<rparr>"

definition toPublicAccessGrant :: "StoredAccessGrant \<Rightarrow> timestamp \<Rightarrow> PublicAccessGrant" where
  "toPublicAccessGrant g now =
     \<lparr>pg_grantId = grant_id g, pg_profileId = grant_routeId g, pg_jobId = grant_jobId g,
      pg_status = grant_status g,
      pg_credentials = map (\<lambda>c. toPublicCredential (grant_status g) c now) (credentials g),
      pg_createdAt = grant_createdAt g, pg_updatedAt = grant_updatedAt g\<rparr>"

definition toPublicLogicalSession :: "StoredLogicalSession \<Rightarrow> PublicLogicalSession" where
  "toPublicLogicalSession s =
     \<lparr>ps_sessionId = session_id s, ps_grantId = session_grantId s, ps_profileId = session_routeId s,
      ps_status = session_status s, ps_createdAt = session_createdAt s,
      ps_updatedAt = session_updatedAt s,
      ps_lastUsedAt = map_option aff_lastUsedAt (affinity s), ps_closedAt = closedAt s\<rparr>"

definition toPublicRoute :: "StoredRoute \<Rightarrow> PublicRoute" where
  "toPublicRoute r =
     \<lparr>pr_profileId = route_id r, pr_customerId = customerId r, pr_geography = geography r,
      pr_carrier = rp_carrier r, pr_providerOverride = providerOverride r,
      pr_allowConnectionRetry = allowConnectionRetry r, pr_status = route_status r,
      pr_createdAt = route_createdAt r, pr_updatedAt = route_updatedAt r\<rparr>"

subsection \<open>Facts about credentials\<close>

text \<open>
  The dates every stored credential keeps: renewal falls due inside the lifetime, and a scheduled
  revocation of a credential in overlap never outlives it.
\<close>

definition credential_wf :: "StoredAccessGrantCredential \<Rightarrow> bool" where
  "credential_wf c \<longleftrightarrow>
     cred_createdAt c \<le> renewalDueAt c \<and> renewalDueAt c < expiresAt c
     \<and> expiresAt c = cred_createdAt c + ACCESS_GRANT_CREDENTIAL_LIFETIME_MS
     \<and> (cred_status c = CredActive \<longleftrightarrow> revokeAt c = None)
     \<and> (cred_status c = CredOverlap \<longrightarrow> (\<exists>r. revokeAt c = Some r \<and> r \<le> expiresAt c))"

lemma new_credential_wf: "credential_wf (createStoredCredential hash salt cid token mode created sid)"
  by (simp add: credential_wf_def createStoredCredential_def credentialDates_def credential_policy)

lemma new_credential_usable:
  "credentialUsable (createStoredCredential hash salt cid token mode created sid) now \<longleftrightarrow>
   now < created + ACCESS_GRANT_CREDENTIAL_LIFETIME_MS"
  by (simp add: credentialUsable_def createStoredCredential_def credentialDates_def)

lemma credentialUsable_antimono: "credentialUsable c t \<Longrightarrow> t' \<le> t \<Longrightarrow> credentialUsable c t'"
  by (auto simp: credentialUsable_def split: option.splits)

lemma credentialUsername_inj [simp]: "credentialUsername a = credentialUsername b \<longleftrightarrow> a = b"
  by (simp add: credentialUsername_def)

text \<open>
  What the control API shows of a credential is what the data plane honours: its public status
  is active or in overlap exactly when the grant is not revoked and the credential can still
  authenticate, and renewal is announced only for a credential that has not expired.
\<close>

theorem public_status_honest:
  "(pub_status (toPublicCredential gstatus c now) \<in> {PubActive, PubOverlap}
      \<longleftrightarrow> gstatus \<noteq> GrantRevoked \<and> credentialUsable c now)
   \<and> (pub_status (toPublicCredential gstatus c now) = PubExpired \<longrightarrow> expiresAt c \<le> now)
   \<and> (pub_renewalDue (toPublicCredential gstatus c now) \<longrightarrow> now < pub_expiresAt (toPublicCredential gstatus c now))"
  by (cases "cred_status c")
     (auto simp: toPublicCredential_def credentialUsable_def split: option.splits)

theorem public_status_honest_witness:
  "pub_status (toPublicCredential GrantReady
     (createStoredCredential (\<lambda>t s. t @ s) ''salt'' ''c1'' ''tok'' Stateless 0 None) 1000) \<in> {PubActive, PubOverlap}"
  using public_status_honest [of GrantReady
     "createStoredCredential (\<lambda>t s. t @ s) ''salt'' ''c1'' ''tok'' Stateless 0 None" 1000]
  by (simp add: new_credential_usable credential_policy)

end
