(* ===== verification/Capacity_Circuit.thy ===== *)
theory Capacity_Circuit
  imports Service_Policies
begin

text \<open>
  \<open>src/capacity-circuit.ts\<close>: the circuit breaker a candidate carries. Its three functions are
  followed by the life of one circuit as a step relation (a probe is claimed, a failure is
  recorded, a success resets, retention drops the record), the invariant of the reachable states
  and what admission gives.
\<close>

definition CIRCUIT_RETENTION_MS :: int where
  [policy_defs]: "CIRCUIT_RETENTION_MS = 24 * 60 * 60000"

definition capacityCircuitAllowsCandidate :: "CapacityCircuitState option \<Rightarrow> timestamp \<Rightarrow> bool" where
  "capacityCircuitAllowsCandidate st now =
     (case st of
        None \<Rightarrow> True
      | Some s \<Rightarrow>
          (case circ_status s of
             CircuitClosed \<Rightarrow> True
           | CircuitOpen \<Rightarrow> (case cooldownUntil s of None \<Rightarrow> False | Some c \<Rightarrow> c \<le> now)
           | CircuitHalfOpen \<Rightarrow> (case probeExpiresAt s of None \<Rightarrow> False | Some p \<Rightarrow> p \<le> now)))"

definition claimCapacityCircuitProbe ::
  "CapacityCircuitState option \<Rightarrow> timestamp \<Rightarrow> RoutingPolicy \<Rightarrow> bool \<times> CapacityCircuitState option" where
  "claimCapacityCircuitProbe st now policy =
     (case st of
        None \<Rightarrow> (True, None)
      | Some s \<Rightarrow>
          if circ_status s = CircuitClosed then (True, Some s)
          else if \<not> capacityCircuitAllowsCandidate st now then (False, Some s)
          else (True, Some (s\<lparr>circ_status := CircuitHalfOpen,
                             probeExpiresAt := Some (now + capacityCircuitHalfOpenLeaseMs policy),
                             circ_updatedAt := now,
                             circ_expiresAt := now + CIRCUIT_RETENTION_MS\<rparr>)))"

text \<open>
  The exponent is not bounded; where \<open>2 ** n\<close> leaves the range of a double it is \<open>Infinity\<close> and
  the minimum is the policy's maximum, as it is here.
\<close>

definition circuitCooldownMs :: "RoutingPolicy \<Rightarrow> int \<Rightarrow> int" where
  "circuitCooldownMs policy opens =
     min (capacityCircuitMaxCooldownMs policy)
         (capacityCircuitBaseCooldownMs policy * 2 ^ nat (max 0 (opens - 1)))"

definition recordCapacityCircuitFailure ::
  "CapacityCircuitState option \<Rightarrow> ProviderId \<Rightarrow> string \<Rightarrow> CapacityCircuitReason \<Rightarrow> timestamp \<Rightarrow>
   RoutingPolicy \<Rightarrow> CapacityCircuitState" where
  "recordCapacityCircuitFailure previous provider candidateKey reason now policy =
     (let failures = (case previous of None \<Rightarrow> 0 | Some s \<Rightarrow> consecutiveFailures s) + 1;
          shouldOpen = (reason = ProviderHardLimit
                        \<or> (case previous of None \<Rightarrow> False | Some s \<Rightarrow> circ_status s = CircuitHalfOpen)
                        \<or> failures \<ge> capacityCircuitFailureThreshold policy);
          opens = (case previous of None \<Rightarrow> 0 | Some s \<Rightarrow> openCount s) + (if shouldOpen then 1 else 0);
          cooldownMs = circuitCooldownMs policy opens
      in \<lparr>circ_provider = provider, circ_candidateKey = candidateKey,
          circ_status = (if shouldOpen then CircuitOpen else CircuitClosed),
          consecutiveFailures = failures, openCount = opens, circ_reason = Some reason,
          cooldownUntil = (if shouldOpen then Some (now + cooldownMs) else None),
          probeExpiresAt = None, circ_updatedAt = now,
          circ_expiresAt = now + max CIRCUIT_RETENTION_MS cooldownMs\<rparr>)"

subsection \<open>What a policy must satisfy\<close>

locale circuit_policy =
  fixes policy :: RoutingPolicy
  assumes threshold_pos: "1 \<le> capacityCircuitFailureThreshold policy"
    and base_pos: "0 < capacityCircuitBaseCooldownMs policy"
    and base_le_max: "capacityCircuitBaseCooldownMs policy \<le> capacityCircuitMaxCooldownMs policy"
    and max_retained: "capacityCircuitMaxCooldownMs policy \<le> CIRCUIT_RETENTION_MS"
    and lease_pos: "0 < capacityCircuitHalfOpenLeaseMs policy"
    and lease_le_max: "capacityCircuitHalfOpenLeaseMs policy \<le> capacityCircuitMaxCooldownMs policy"
begin

lemma cooldown_bounds:
  "capacityCircuitBaseCooldownMs policy \<le> circuitCooldownMs policy n
   \<and> circuitCooldownMs policy n \<le> capacityCircuitMaxCooldownMs policy"
proof -
  have "capacityCircuitBaseCooldownMs policy * 1 \<le> capacityCircuitBaseCooldownMs policy * 2 ^ nat (max 0 (n - 1))"
    by (rule mult_left_mono) (use base_pos in auto)
  with base_le_max show ?thesis by (simp add: circuitCooldownMs_def)
qed

lemma cooldown_doubles:
  assumes "1 \<le> n"
  shows "circuitCooldownMs policy (n + 1) = min (capacityCircuitMaxCooldownMs policy) (2 * circuitCooldownMs policy n)"
proof -
  have "nat n = Suc (nat (n - 1))" using assms by linarith
  then have "(2::int) ^ nat n = 2 * 2 ^ nat (n - 1)" by simp
  then show ?thesis using base_pos base_le_max assms
    by (auto simp: circuitCooldownMs_def min_def max_def algebra_simps)
qed

text \<open>A claim that is granted on a tripped circuit takes the probe lease.\<close>

lemma claim_takes_lease:
  assumes "claimCapacityCircuitProbe (Some s) now policy = (True, Some s')" and "circ_status s \<noteq> CircuitClosed"
  shows "circ_status s' = CircuitHalfOpen \<and> probeExpiresAt s' = Some (now + capacityCircuitHalfOpenLeaseMs policy)"
  using assms by (auto simp: claimCapacityCircuitProbe_def split: if_splits)

lemma lease_excludes:
  assumes "circ_status s = CircuitHalfOpen" and "probeExpiresAt s = Some p" and "now < p"
  shows "claimCapacityCircuitProbe (Some s) now policy = (False, Some s)"
  using assms by (simp add: claimCapacityCircuitProbe_def capacityCircuitAllowsCandidate_def)

end

interpretation routing_circuit: circuit_policy ROUTING_POLICY
  by unfold_locales (simp_all add: policy_defs)

subsection \<open>The life of one circuit\<close>

text \<open>
  The state is the stored record, if any, and the time of the last event. A success deletes the
  record; reading a record past its retention deletes it too.
\<close>

type_synonym circuit_config = "CapacityCircuitState option \<times> timestamp"

inductive circuit_step :: "ProviderId \<Rightarrow> string \<Rightarrow> circuit_config \<Rightarrow> circuit_config \<Rightarrow> bool"
  for provider candidateKey where
  claim: "t \<le> now \<Longrightarrow> claimCapacityCircuitProbe st now ROUTING_POLICY = (allowed, st') \<Longrightarrow>
     circuit_step provider candidateKey (st, t) (st', now)"
| failure: "t \<le> now \<Longrightarrow>
     circuit_step provider candidateKey (st, t)
       (Some (recordCapacityCircuitFailure st provider candidateKey reason now ROUTING_POLICY), now)"
| success: "t \<le> now \<Longrightarrow> circuit_step provider candidateKey (st, t) (None, now)"
| expiry: "t \<le> now \<Longrightarrow> circ_expiresAt s \<le> now \<Longrightarrow> circuit_step provider candidateKey (Some s, t) (None, now)"

inductive circuit_reachable :: "ProviderId \<Rightarrow> string \<Rightarrow> circuit_config \<Rightarrow> bool"
  for provider candidateKey where
  fresh: "circuit_reachable provider candidateKey (None, t)"
| step: "circuit_reachable provider candidateKey c \<Longrightarrow> circuit_step provider candidateKey c c' \<Longrightarrow>
     circuit_reachable provider candidateKey c'"

inductive_cases circuit_stepE: "circuit_step provider candidateKey (st, t) c"

definition circuit_inv :: "circuit_config \<Rightarrow> bool" where
  "circuit_inv c =
     (case fst c of
        None \<Rightarrow> True
      | Some s \<Rightarrow>
          circ_updatedAt s \<le> snd c \<and> 1 \<le> consecutiveFailures s \<and> 0 \<le> openCount s
          \<and> openCount s \<le> consecutiveFailures s
          \<and> circ_updatedAt s < circ_expiresAt s
          \<and> (case circ_status s of
               CircuitClosed \<Rightarrow> cooldownUntil s = None
                 \<and> consecutiveFailures s < capacityCircuitFailureThreshold ROUTING_POLICY
             | CircuitOpen \<Rightarrow> 1 \<le> openCount s
                 \<and> cooldownUntil s = Some (circ_updatedAt s + circuitCooldownMs ROUTING_POLICY (openCount s))
             | CircuitHalfOpen \<Rightarrow> 1 \<le> openCount s
                 \<and> probeExpiresAt s = Some (circ_updatedAt s + capacityCircuitHalfOpenLeaseMs ROUTING_POLICY)))"

lemma claim_preserves_inv:
  assumes "circuit_inv (st, t)" and "t \<le> now"
    and "claimCapacityCircuitProbe st now ROUTING_POLICY = (allowed, st')"
  shows "circuit_inv (st', now)"
proof (cases st)
  case None
  with assms show ?thesis by (auto simp: claimCapacityCircuitProbe_def circuit_inv_def)
next
  case (Some s)
  with assms show ?thesis
    by (cases "circ_status s")
       (auto simp: claimCapacityCircuitProbe_def circuit_inv_def CIRCUIT_RETENTION_MS_def split: if_splits)
qed

lemma failure_preserves_inv:
  assumes "circuit_inv (st, t)" and "t \<le> now"
  shows "circuit_inv (Some (recordCapacityCircuitFailure st provider candidateKey reason now ROUTING_POLICY), now)"
proof (cases st)
  case None
  then show ?thesis
    by (auto simp: recordCapacityCircuitFailure_def circuit_inv_def Let_def policy_defs)
next
  case (Some s)
  with assms show ?thesis
    by (cases "circ_status s")
       (auto simp: recordCapacityCircuitFailure_def circuit_inv_def Let_def CIRCUIT_RETENTION_MS_def)
qed

lemma circuit_step_inv: "circuit_step provider candidateKey c c' \<Longrightarrow> circuit_inv c \<Longrightarrow> circuit_inv c'"
proof (induction rule: circuit_step.induct)
  case (claim t now st allowed st')
  then show ?case by (blast intro: claim_preserves_inv)
next
  case (failure t now st reason)
  then show ?case by (blast intro: failure_preserves_inv)
qed (auto simp: circuit_inv_def)

lemma circuit_reachable_inv: "circuit_reachable provider candidateKey c \<Longrightarrow> circuit_inv c"
proof (induction rule: circuit_reachable.induct)
  case (fresh t)
  show ?case by (simp add: circuit_inv_def)
next
  case (step c c')
  then show ?case by (blast intro: circuit_step_inv)
qed

subsection \<open>Admission\<close>

lemma admission_after_max_cooldown:
  assumes "circuit_inv (st, t)" and "t + capacityCircuitMaxCooldownMs ROUTING_POLICY \<le> now"
  shows "capacityCircuitAllowsCandidate st now"
proof (cases st)
  case None
  then show ?thesis by (simp add: capacityCircuitAllowsCandidate_def)
next
  case (Some s)
  have "circuitCooldownMs ROUTING_POLICY (openCount s) \<le> capacityCircuitMaxCooldownMs ROUTING_POLICY"
    using routing_circuit.cooldown_bounds by blast
  with assms Some routing_circuit.lease_le_max show ?thesis
    by (cases "circ_status s") (auto simp: circuit_inv_def capacityCircuitAllowsCandidate_def)
qed



text \<open>
  A tripped circuit lets one probe through at a time: once a claim on an open or half-open
  circuit is granted, every further claim before the lease runs out is refused and leaves the
  record as it was.
\<close>

theorem probe_is_exclusive:
  assumes "claimCapacityCircuitProbe (Some s) now ROUTING_POLICY = (True, st')"
    and "circ_status s \<noteq> CircuitClosed"
    and "later < now + capacityCircuitHalfOpenLeaseMs ROUTING_POLICY"
  shows "claimCapacityCircuitProbe st' later ROUTING_POLICY = (False, st')"
proof -
  obtain s' where s': "st' = Some s'"
    using assms(1,2) by (auto simp: claimCapacityCircuitProbe_def split: if_splits)
  with assms(1,2) have "circ_status s' = CircuitHalfOpen \<and>
      probeExpiresAt s' = Some (now + capacityCircuitHalfOpenLeaseMs ROUTING_POLICY)"
    by (intro routing_circuit.claim_takes_lease) simp_all
  with s' assms(3) show ?thesis by (auto intro: routing_circuit.lease_excludes)
qed

theorem probe_is_exclusive_witness:
  "let s = recordCapacityCircuitFailure None ''proxidize'' ''slot-1'' ProviderHardLimit 0 ROUTING_POLICY;
       st' = snd (claimCapacityCircuitProbe (Some s) 60000 ROUTING_POLICY)
   in claimCapacityCircuitProbe st' 89999 ROUTING_POLICY = (False, st')"
proof -
  let ?s = "recordCapacityCircuitFailure None ''proxidize'' ''slot-1'' ProviderHardLimit 0 ROUTING_POLICY"
  have "claimCapacityCircuitProbe (Some ?s) 60000 ROUTING_POLICY =
      (True, snd (claimCapacityCircuitProbe (Some ?s) 60000 ROUTING_POLICY))"
    by (simp add: claimCapacityCircuitProbe_def capacityCircuitAllowsCandidate_def
        recordCapacityCircuitFailure_def circuitCooldownMs_def policy_defs)
  moreover have "circ_status ?s \<noteq> CircuitClosed"
    by (simp add: recordCapacityCircuitFailure_def Let_def)
  moreover have "(89999 :: int) < 60000 + capacityCircuitHalfOpenLeaseMs ROUTING_POLICY"
    by (simp add: policy_defs)
  ultimately show ?thesis
    unfolding Let_def by (rule probe_is_exclusive)
qed

text \<open>
  A recorded failure opens the circuit exactly for a provider hard limit, a failed probe or a
  run of failures that reaches the threshold; an opened circuit then refuses every candidate until
  a cooldown of at least the base and at most the maximum has passed, which is the base doubled for
  each earlier opening, and a circuit left closed refuses nobody.
\<close>

theorem failure_opens_circuit:
  fixes st provider candidateKey reason now
  defines "s' \<equiv> recordCapacityCircuitFailure st provider candidateKey reason now ROUTING_POLICY"
  defines "trips \<equiv> reason = ProviderHardLimit \<or> (\<exists>s. st = Some s \<and> circ_status s = CircuitHalfOpen)
             \<or> (case st of None \<Rightarrow> 0 | Some s \<Rightarrow> consecutiveFailures s) + 1
                 \<ge> capacityCircuitFailureThreshold ROUTING_POLICY"
  shows "(trips \<longrightarrow> (\<exists>cool. 60000 \<le> cool \<and> cool \<le> 900000
             \<and> cool = min 900000 (60000 * 2 ^ nat (max 0 (openCount s' - 1)))
             \<and> (\<forall>t. capacityCircuitAllowsCandidate (Some s') t \<longleftrightarrow> now + cool \<le> t)))
         \<and> (\<not> trips \<longrightarrow> (\<forall>t. capacityCircuitAllowsCandidate (Some s') t))"
proof (cases trips)
  case True
  then have "circ_status s' = CircuitOpen"
    and "cooldownUntil s' = Some (now + circuitCooldownMs ROUTING_POLICY (openCount s'))"
    by (auto simp: trips_def s'_def recordCapacityCircuitFailure_def Let_def split: option.splits)
  then have "\<forall>t. capacityCircuitAllowsCandidate (Some s') t \<longleftrightarrow>
      now + circuitCooldownMs ROUTING_POLICY (openCount s') \<le> t"
    by (simp add: capacityCircuitAllowsCandidate_def)
  moreover have "circuitCooldownMs ROUTING_POLICY (openCount s') =
      min 900000 (60000 * 2 ^ nat (max 0 (openCount s' - 1)))"
    by (simp add: circuitCooldownMs_def policy_defs)
  moreover have "60000 \<le> circuitCooldownMs ROUTING_POLICY (openCount s') \<and>
      circuitCooldownMs ROUTING_POLICY (openCount s') \<le> 900000"
    using routing_circuit.cooldown_bounds [of "openCount s'"] by (simp add: policy_defs)
  ultimately show ?thesis using True by metis
next
  case False
  then have "circ_status s' = CircuitClosed"
    by (auto simp: trips_def s'_def recordCapacityCircuitFailure_def Let_def split: option.splits)
  then show ?thesis using False by (simp add: capacityCircuitAllowsCandidate_def)
qed

theorem failure_opens_circuit_witness:
  "capacityCircuitAllowsCandidate
     (Some (recordCapacityCircuitFailure None ''bright_data'' ''bright_data'' CircuitTimeout 0 ROUTING_POLICY)) 5"
  using failure_opens_circuit
      [of CircuitTimeout None "''bright_data''" "''bright_data''" 0]
  by (simp add: policy_defs)

end
