(* ===== verification/Health_Usage_Domain.thy ===== *)
theory Health_Usage_Domain
  imports Routing_Domain
begin

text \<open>
  The data model of \<open>src/domain/health.ts\<close> and \<open>src/domain/usage.ts\<close>, in the sources' order.
\<close>

subsection \<open>Health\<close>

datatype HealthState = Healthy | Degraded | Unhealthy

record ProviderHealth =
  ph_provider :: ProviderId
  ph_state :: HealthState
  ph_checkedAt :: timestamp
  ph_message :: "string option"

datatype CapabilityName = AllTraffic | ManagedSessions | StatelessTraffic | HealthVerification

datatype CapabilityStatus = Operational | CapDegraded | Unavailable

record CapabilityHealth =
  ch_capability :: CapabilityName
  ch_status :: CapabilityStatus
  providerStatusAt :: "timestamp option"
  endToEndValidatedAt :: "timestamp option"
  ch_message :: "string option"

datatype GeographySource = SourcePassive | SourceSynthetic

record GeographyHealth =
  gh_country :: string
  gh_city :: "string option"
  gh_status :: CapabilityStatus
  validatedAt :: timestamp
  gh_source :: GeographySource

record CapabilityHealthSnapshot =
  snap_id :: string
  generatedAt :: timestamp
  snap_capabilities :: "CapabilityHealth list"
  snap_providers :: "ProviderHealth list"
  geographies :: "GeographyHealth list"

datatype HealthAlertKind = Alert | Recovery

datatype HealthAlertSeverity = SevCritical | SevWarning | SevInfo

datatype HealthAlertDeliveryStatus = DeliveryPending | DeliveryDelivered | DeliveryFailed

record HealthAlertEvent =
  alert_id :: string
  dedupeKey :: string
  alert_kind :: HealthAlertKind
  alert_capability :: CapabilityName
  alert_status :: CapabilityStatus
  previousStatus :: "CapabilityStatus option"
  alert_severity :: HealthAlertSeverity
  alert_createdAt :: timestamp
  snapshotId :: string
  configurationVersion :: string
  alert_geographies :: "GeographyHealth list"

record HealthAlertState =
  as_capability :: CapabilityName
  observedStatus :: CapabilityStatus
  observedSince :: timestamp
  alertedStatus :: "CapabilityStatus option"
  alertedAt :: "timestamp option"
  as_updatedAt :: timestamp

record HealthAlertDelivery =
  alertId :: string
  destinationId :: string
  delivery_status :: HealthAlertDeliveryStatus
  attemptCount :: int
  nextAttemptAt :: timestamp
  lastAttemptAt :: "timestamp option"
  deliveredAt :: "timestamp option"
  responseStatus :: "int option"
  delivery_error :: "string option"
  delivery_event :: HealthAlertEvent

datatype SignalOutcome = SignalSuccess | SignalFailure

record PassiveHealthSignal =
  sig_provider :: ProviderId
  sig_capability :: CapabilityName
  sig_outcome :: SignalOutcome
  observedAt :: timestamp
  sig_country :: "string option"
  sig_city :: "string option"

datatype SyntheticValidationOutcome = SynSuccess | SynProxyFailure | SynInconclusive

datatype GeoIpStatus = GeoAvailable | GeoUnverifiable | GeoUnavailable

datatype GeographyVerification = GeoMatch | GeoMismatch | GeoVerUnverifiable

record SyntheticValidationResult =
  testId :: string
  syn_outcome :: SyntheticValidationOutcome
  syn_checkedAt :: timestamp
  observedIp :: "string option"
  expectedCountry :: "string option"
  syn_expectedCity :: "string option"
  syn_country :: "string option"
  syn_city :: "string option"
  geoStatus :: "GeoIpStatus option"
  geographyVerification :: "GeographyVerification option"
  syn_message :: "string option"

subsection \<open>Usage\<close>

datatype UsageOutcome = OutcomeSuccess | OutcomeHttpError | OutcomeRetry | OutcomeFailure

datatype UsageCostStatus = CostEstimated | CostReconciled

datatype UsageInterval = IntervalHour | IntervalDay | IntervalWeek | IntervalMonth

datatype UsageGroupBy =
    ByProvider | ByCustomer | ByUser | ByRoute | ByJob | BySessionMode | ByDestinationDomain
  | ByDestinationHost | ByDestinationPathTemplate | ByCountry | ByCity | ByOutcome

datatype UsageKind = Attempt | Capacity

datatype CapacityConstraint =
  SlotExhaustion | GeographyConstraint | CarrierConstraint | HardLimit | CapacityCircuitConstraint

datatype FailbackOutcome = FailbackNotAttempted | FailbackSuccess | FailbackFailure

datatype CapacitySlotState = HealthyIdle | UnhealthySlot

record UsageRecord =
  ur_kind :: UsageKind
  ur_id :: string
  logicalOperationId :: string
  ur_jobId :: "string option"
  ur_accessGrantId :: string
  ur_sessionMode :: "SessionMode option"
  ur_sessionId :: "string option"
  ur_routeId :: string
  ur_userId :: string
  ur_customerId :: string
  ur_provider :: ProviderId
  ur_protocol :: DataPlaneProtocol
  ur_outcome :: UsageOutcome
  retryIndex :: int
  failover :: bool
  bytesSent :: int
  bytesReceived :: int
  latencyMs :: "int option"
  destinationDomain :: "string option"
  destinationHost :: "string option"
  destinationPort :: "int option"
  destinationPathTemplate :: "string option"
  ur_country :: "string option"
  ur_city :: "string option"
  ur_endpointId :: "string option"
  ur_proxySlotId :: "string option"
  ur_deviceId :: "string option"
  ur_upstreamConnectionId :: "string option"
  connectionStartedAt :: "timestamp option"
  connectionEndedAt :: "timestamp option"
  ur_selectedSlotLoad :: "int option"
  ur_capacityPressure :: "bool option"
  ur_capacityPressureProvider :: "ProviderId option"
  ur_capacityConstraint :: "CapacityConstraint option"
  ur_establishmentWaitMs :: "int option"
  ur_capacityPolicyVersion :: "string option"
  ur_providerOverride :: "ProviderId option"
  ur_capacityCircuitState :: "CapacityCircuitStatus option"
  ur_capacityCircuitReason :: "CapacityCircuitReason option"
  ur_capacityCircuitCooldownUntil :: "timestamp option"
  ur_routingPolicyVersion :: "string option"
  ur_routingScore :: "real option"
  ur_routingScoreComponents :: "RoutingScoreComponents option"
  ur_sessionAffinityHit :: "bool option"
  ur_sessionRebindCause :: "string option"
  ur_desiredProviderClass :: "ProviderClass option"
  ur_currentProviderClass :: "ProviderClass option"
  ur_degradedFallback :: "bool option"
  ur_failbackOutcome :: "FailbackOutcome option"
  pricingVersion :: "string option"
  pricingModel :: "PricingModel option"
  priceUsd :: "real option"
  capacityState :: "CapacitySlotState option"
  ur_startedAt :: timestamp
  completedAt :: timestamp

record UsageRollup =
  ro_id :: string
  ro_interval :: UsageInterval
  ro_periodStartedAt :: timestamp
  ro_periodEndsAt :: timestamp
  ro_group :: "(UsageGroupBy \<times> string) option"
  operationCount :: nat
  successCount :: nat
  retryCount :: nat
  failoverCount :: nat
  ro_bytesSent :: int
  ro_bytesReceived :: int
  averageLatencyMs :: real
  p95LatencyMs :: int
  activeConnectionMs :: int
  provisionedSlotMs :: int
  healthyIdleSlotMs :: int
  unhealthySlotMs :: int
  slotOccupancy :: real
  currentSlotOccupancy :: real
  provisionedSlots :: int
  activeConnections :: nat
  peakConcurrentConnections :: int
  p95ConcurrentConnections :: int
  concurrencyUtilization :: real
  throughputUtilization :: real
  prioritizedGbUsed :: real
  prioritizedGbForecast :: real
  capacityDrivenFallbackCount :: nat
  capacityFailureCount :: nat
  capacityWaitMs :: int
  ro_capacityConstraint :: "CapacityConstraint option"
  ro_capacityPolicyVersion :: string
  providerSpendUsd :: real
  attributedCostUsd :: real
  estimatedCostUsd :: real
  costStatus :: UsageCostStatus
  pricingVersions :: "string list"
  ro_updatedAt :: timestamp

datatype ReconciliationSeverity = RecNormal | RecWarning | RecError

record UsageReconciliation =
  rec_id :: string
  rec_provider :: ProviderId
  rec_periodStartedAt :: timestamp
  rec_periodEndsAt :: timestamp
  estimatedTotalUsd :: real
  reportedTotalUsd :: real
  adjustmentUsd :: real
  relativeVariance :: real
  rec_severity :: ReconciliationSeverity
  sourceVersion :: string
  rec_createdAt :: timestamp

datatype UsageAlertKind = CapacityRecommendationAlert | ReconciliationVarianceAlert

datatype UsageAlertSeverity = UsageWarning | UsageError

record UsageAlertEvent =
  ua_id :: string
  ua_kind :: UsageAlertKind
  ua_severity :: UsageAlertSeverity
  ua_provider :: ProviderId
  ua_periodStartedAt :: timestamp
  ua_periodEndsAt :: timestamp
  relatedRecordId :: string
  ua_capacityPolicyVersion :: "string option"
  ua_capacityConstraint :: "CapacityConstraint option"
  ua_capacityDrivenFallbackCount :: "nat option"
  ua_capacityFailureCount :: "nat option"
  ua_capacityWaitMs :: "int option"
  varianceUsd :: "real option"
  ua_relativeVariance :: "real option"
  ua_createdAt :: timestamp

record CapacityPressureEvidence =
  cpe_id :: string
  cpe_provider :: ProviderId
  cpe_periodStartedAt :: timestamp
  cpe_periodEndsAt :: timestamp
  relatedRollupId :: string
  cpe_capacityPolicyVersion :: string
  cpe_capacityConstraint :: "CapacityConstraint option"
  cpe_capacityDrivenFallbackCount :: nat
  cpe_capacityFailureCount :: nat
  cpe_capacityWaitMs :: int
  cpe_concurrencyUtilization :: real
  cpe_throughputUtilization :: real
  cpe_observedAt :: timestamp

end
