(* ===== verification/Errors.thy ===== *)
theory Errors
  imports Routing_Domain
begin

text \<open>
  \<open>src/errors.ts\<close>: the error classes, the values a handler can catch, the normalisation at the
  control-plane boundary and the retry classification. A thrown JavaScript value is a
  \<open>thrown\<close>; the two weak maps that attribute a provider and an assignment to an error object are
  the fields beside it in \<open>exn\<close>.
\<close>

datatype AppErrorKind =
    KApplication | KValidation | KAuthentication | KNotFound | KProviderAuthentication
  | KProviderRateLimit | KProviderUnavailable | KProviderProtocol | KProviderCapacityLimit
  | KProviderOverrideUnsatisfied | KUpstream | KInternal

datatype AppErrorCode =
    CallerCancelled | CodeInternalError | InvalidSocks5 | InvalidTarget | CodeNotFound | PayloadTooLarge
  | ProtocolNotAllowed | ProviderAuthenticationFailed | CodeProviderCapacityLimit
  | CodeProviderOverrideUnsatisfied | ProviderProtocolErrorCode | ProviderRateLimited
  | ProviderTargetForbidden | CodeProviderUnavailable | ProxyAuthenticationRequired | ProxyError
  | RequestTooLarge | ResponseTooLarge | RotationNotSupported | RouteEmergencyRevoked | TargetForbidden
  | TargetPortForbidden | UnsupportedSocks5Address | UnsupportedSocks5Command
  | UpstreamAuthenticationFailed | CodeUpstreamError | CodeValidationError

datatype UnavailableReason = ReasonTimeout | ReasonUnavailable

text \<open>
  \<open>AppError\<close> and its subclasses: the class tag decides \<open>instanceof\<close>. Four subclasses share a
  kind with no other class, \<open>RequestTooLargeError\<close> has the validation kind without being a
  \<open>ValidationError\<close>, so the class is kept apart from the kind.
\<close>

datatype ErrorClass =
    ClsAppError | ClsValidation | ClsAuthentication | ClsNotFound | ClsProviderUnavailable
  | ClsRequestTooLarge | ClsProviderAuthentication | ClsProviderRateLimit | ClsProviderProtocol
  | ClsProviderCapacityLimit | ClsProviderOverrideUnsatisfied | ClsUpstream | ClsInternal

record AppError =
  err_class :: ErrorClass
  err_kind :: AppErrorKind
  err_message :: string
  err_code :: AppErrorCode
  statusCode :: int
  retryable :: bool
  retryAfterMs :: "int option"
  unavailable_reason :: "UnavailableReason option"

text \<open>\<open>new AppError(message, code, statusCode)\<close>: retryable exactly for the 5xx statuses.\<close>

definition mk_error ::
  "ErrorClass \<Rightarrow> AppErrorKind \<Rightarrow> string \<Rightarrow> AppErrorCode \<Rightarrow> int \<Rightarrow> bool \<Rightarrow> AppError" where
  "mk_error cls knd msg cd st rt =
     \<lparr>err_class = cls, err_kind = knd, err_message = msg, err_code = cd, statusCode = st,
      retryable = rt, retryAfterMs = None, unavailable_reason = None\<rparr>"

definition appError :: "string \<Rightarrow> AppErrorCode \<Rightarrow> int \<Rightarrow> AppError" where
  "appError msg cd st = mk_error ClsAppError KApplication msg cd st (st \<ge> 500)"

definition validationError :: "string \<Rightarrow> AppError" where
  "validationError msg = mk_error ClsValidation KValidation msg CodeValidationError 400 (400 \<ge> (500::int))"

definition authenticationError :: "string \<Rightarrow> AppError" where
  "authenticationError msg =
     mk_error ClsAuthentication KAuthentication msg ProxyAuthenticationRequired 407 (407 \<ge> (500::int))"

definition notFoundError :: AppError where
  "notFoundError = mk_error ClsNotFound KNotFound ''Route not found'' CodeNotFound 404 (404 \<ge> (500::int))"

definition providerUnavailableError :: "string \<Rightarrow> UnavailableReason \<Rightarrow> AppError" where
  "providerUnavailableError msg why =
     (mk_error ClsProviderUnavailable KProviderUnavailable msg CodeProviderUnavailable 503 (503 \<ge> (500::int)))
       \<lparr>unavailable_reason := Some why\<rparr>"

definition requestTooLargeError :: "string \<Rightarrow> AppError" where
  "requestTooLargeError msg = mk_error ClsRequestTooLarge KValidation msg RequestTooLarge 413 False"

definition providerAuthenticationError :: "string \<Rightarrow> AppError" where
  "providerAuthenticationError msg =
     mk_error ClsProviderAuthentication KProviderAuthentication msg ProviderAuthenticationFailed 502 False"

definition providerRateLimitError :: "string \<Rightarrow> int option \<Rightarrow> AppError" where
  "providerRateLimitError msg after =
     (mk_error ClsProviderRateLimit KProviderRateLimit msg ProviderRateLimited 503 True)\<lparr>retryAfterMs := after\<rparr>"

definition providerProtocolError :: "string \<Rightarrow> AppError" where
  "providerProtocolError msg =
     mk_error ClsProviderProtocol KProviderProtocol msg ProviderProtocolErrorCode 502 False"

definition providerCapacityLimitError :: "string \<Rightarrow> AppError" where
  "providerCapacityLimitError msg =
     mk_error ClsProviderCapacityLimit KProviderCapacityLimit msg CodeProviderCapacityLimit 503 (503 \<ge> (500::int))"

definition providerOverrideUnsatisfiedError :: AppError where
  "providerOverrideUnsatisfiedError =
     mk_error ClsProviderOverrideUnsatisfied KProviderOverrideUnsatisfied
       ''The requested provider override cannot satisfy this profile''
       CodeProviderOverrideUnsatisfied 503 (503 \<ge> (500::int))"

definition upstreamError :: "string \<Rightarrow> int \<Rightarrow> AppError" where
  "upstreamError msg st = mk_error ClsUpstream KUpstream msg CodeUpstreamError st (st \<ge> 500)"

definition internalServiceError :: AppError where
  "internalServiceError = mk_error ClsInternal KInternal ''Unexpected internal error'' CodeInternalError 500 True"

lemmas error_class_defs =
  mk_error_def appError_def validationError_def authenticationError_def notFoundError_def
  providerUnavailableError_def requestTooLargeError_def providerAuthenticationError_def
  providerRateLimitError_def providerProtocolError_def providerCapacityLimitError_def
  providerOverrideUnsatisfiedError_def upstreamError_def internalServiceError_def

text \<open>
  What a \<open>catch\<close> can receive: an \<open>AppError\<close>, another \<open>Error\<close> with its message and, for Node's
  system errors, its string \<open>code\<close>, or a value that is no \<open>Error\<close>.
\<close>

datatype thrown = AppErr AppError | JsError string "string option" | NonError

record exn =
  exn_value :: thrown
  exn_provider :: "ProviderId option"
  exn_assignment :: "AssignmentEvidence option"

definition throw :: "AppError \<Rightarrow> exn" where
  "throw e = \<lparr>exn_value = AppErr e, exn_provider = None, exn_assignment = None\<rparr>"

definition throw_error :: "string \<Rightarrow> exn" where
  "throw_error msg = \<lparr>exn_value = JsError msg None, exn_provider = None, exn_assignment = None\<rparr>"

type_synonym 'a result = "exn + 'a"

fun toRouteServiceError :: "thrown \<Rightarrow> AppError" where
  "toRouteServiceError (AppErr e) =
     (if err_class e \<in> {ClsValidation, ClsAuthentication, ClsNotFound, ClsProviderAuthentication,
          ClsProviderRateLimit, ClsProviderUnavailable, ClsProviderProtocol, ClsProviderCapacityLimit,
          ClsProviderOverrideUnsatisfied, ClsUpstream, ClsInternal}
      then e else internalServiceError)"
| "toRouteServiceError (JsError m c) = internalServiceError"
| "toRouteServiceError NonError = internalServiceError"

fun errorMessage :: "thrown \<Rightarrow> string" where
  "errorMessage (AppErr e) = err_message e"
| "errorMessage (JsError m c) = m"
| "errorMessage NonError = ''Unknown error''"

fun safeErrorMessage :: "thrown \<Rightarrow> string" where
  "safeErrorMessage (AppErr e) = err_message e"
| "safeErrorMessage (JsError m c) = ''Unexpected internal error''"
| "safeErrorMessage NonError = ''Unexpected internal error''"

text \<open>
  A thrown object keeps its identity and gains the attribution. \<open>NonError\<close> stands for a thrown
  primitive, the only value no adapter of the sources throws as an object: it is replaced.
\<close>

definition attributeProvider :: "exn \<Rightarrow> ProviderId \<Rightarrow> exn" where
  "attributeProvider e p =
     (case exn_value e of
        NonError \<Rightarrow>
          (throw (providerUnavailableError ''Upstream provider is unavailable'' ReasonUnavailable))
            \<lparr>exn_provider := Some p\<rparr>
      | _ \<Rightarrow> e\<lparr>exn_provider := Some p\<rparr>)"

definition providerIdFromError :: "exn \<Rightarrow> ProviderId option" where
  "providerIdFromError e = (case exn_value e of NonError \<Rightarrow> None | _ \<Rightarrow> exn_provider e)"

definition attributeAssignment :: "exn \<Rightarrow> AssignmentEvidence \<Rightarrow> exn" where
  "attributeAssignment e a =
     (case exn_value e of
        NonError \<Rightarrow>
          (throw (providerUnavailableError ''Upstream provider is unavailable'' ReasonUnavailable))
            \<lparr>exn_assignment := Some a\<rparr>
      | _ \<Rightarrow> e\<lparr>exn_assignment := Some a\<rparr>)"

definition assignmentFromError :: "exn \<Rightarrow> AssignmentEvidence option" where
  "assignmentFromError e = (case exn_value e of NonError \<Rightarrow> None | _ \<Rightarrow> exn_assignment e)"

definition retryable_codes :: "string list" where
  "retryable_codes =
     [''ECONNREFUSED'', ''ECONNRESET'', ''ETIMEDOUT'', ''EPIPE'', ''ENETDOWN'', ''ENETUNREACH'',
      ''EHOSTDOWN'', ''EHOSTUNREACH'']"

text \<open>
  An \<open>AppError\<close> outside the five provider classes reaches the last test with its own \<open>code\<close>,
  which is none of the eight system codes.
\<close>

fun isRetryableUpstreamFailure :: "thrown \<Rightarrow> bool" where
  "isRetryableUpstreamFailure (AppErr e) =
     (if err_class e \<in> {ClsProviderAuthentication, ClsProviderRateLimit, ClsProviderUnavailable,
          ClsProviderProtocol, ClsProviderCapacityLimit}
      then retryable e else False)"
| "isRetryableUpstreamFailure (JsError m c) = (case c of None \<Rightarrow> False | Some cd \<Rightarrow> cd \<in> set retryable_codes)"
| "isRetryableUpstreamFailure NonError = False"

text \<open>
  A failed attempt is retried only for the failures of the provider side: a retryable error
  is never the caller's authentication, validation or not-found error, an unsatisfied override,
  an unexpected internal error, or a provider authentication or protocol failure; and an error the
  router raises for a timed-out or unavailable provider, a rate limit or a capacity limit is.
\<close>

theorem retry_classification:
  "isRetryableUpstreamFailure (AppErr (providerUnavailableError m why))
   \<and> isRetryableUpstreamFailure (AppErr (providerRateLimitError m after))
   \<and> isRetryableUpstreamFailure (AppErr (providerCapacityLimitError m))
   \<and> \<not> isRetryableUpstreamFailure (AppErr (authenticationError m))
   \<and> \<not> isRetryableUpstreamFailure (AppErr (validationError m))
   \<and> \<not> isRetryableUpstreamFailure (AppErr notFoundError)
   \<and> \<not> isRetryableUpstreamFailure (AppErr (providerAuthenticationError m))
   \<and> \<not> isRetryableUpstreamFailure (AppErr (providerProtocolError m))
   \<and> \<not> isRetryableUpstreamFailure (AppErr providerOverrideUnsatisfiedError)
   \<and> \<not> isRetryableUpstreamFailure (AppErr (upstreamError m st))
   \<and> \<not> isRetryableUpstreamFailure (AppErr internalServiceError)
   \<and> \<not> isRetryableUpstreamFailure (AppErr (appError m cd st))"
  by (simp add: error_class_defs)

lemma attributeProvider_id: "providerIdFromError (attributeProvider e p) = Some p"
  by (cases "exn_value e") (auto simp: attributeProvider_def providerIdFromError_def throw_def)

lemma toRouteServiceError_idem: "toRouteServiceError (AppErr (toRouteServiceError t)) = toRouteServiceError t"
  by (cases t) (auto simp: internalServiceError_def mk_error_def)

lemma toRouteServiceError_class: "err_class (toRouteServiceError t) \<notin> {ClsAppError, ClsRequestTooLarge}"
  by (cases t) (auto simp: internalServiceError_def mk_error_def)

end
