(* ===== verification/Route_Store.thy ===== *)
theory Route_Store
  imports Credentials Capacity_Circuit Health_Usage_Domain Errors
begin

text \<open>
  \<open>src/in-memory-route-store.ts\<close>: the state of the store and its operations on routes, access
  grants, logical sessions, active tunnels, capacity circuits and deployment drains (the health and
  usage operations are in \<open>Health_Store\<close>). \<open>structuredClone\<close> copies are values here. An operation
  runs without interleaving and reads the clock once; \<open>now\<close> is that reading. A command returns its
  result or exception and the state it leaves; a query is a function of the state.
\<close>

record StoreState =
  st_routes :: "(string, StoredRoute) js_map"
  st_grants :: "(string, StoredAccessGrant) js_map"
  st_sessions :: "(string, StoredLogicalSession) js_map"
  st_tunnels :: "(string, ActiveTunnel) js_map"
  st_circuits :: "(string, CapacityCircuitState) js_map"
  st_drains :: "(string, DeploymentDrainState) js_map"
  st_health :: "(ProviderId, ProviderHealth) js_map"
  st_inventory :: "(ProviderId, ProviderInventorySnapshot) js_map"
  st_capabilityHealth :: "(string, CapabilityHealthSnapshot) js_map"
  st_healthAlertStates :: "(CapabilityName, HealthAlertState) js_map"
  st_healthAlertEvents :: "(string, HealthAlertEvent) js_map"
  st_healthAlertEventIdsByDedupeKey :: "(string, string) js_map"
  st_healthAlertDeliveries :: "(string, HealthAlertDelivery) js_map"
  st_usageRecords :: "(string, UsageRecord) js_map"
  st_usageRollups :: "(string, UsageRollup) js_map"
  st_usageReconciliations :: "(string, UsageReconciliation) js_map"
  st_usageAlertEvents :: "(string, UsageAlertEvent) js_map"
  st_capacityPressureEvidence :: "(string, CapacityPressureEvidence) js_map"
  authorizationEpoch :: int

definition empty_store :: StoreState where
  "empty_store =
     \<lparr>st_routes = [], st_grants = [], st_sessions = [], st_tunnels = [], st_circuits = [],
      st_drains = [], st_health = [], st_inventory = [], st_capabilityHealth = [],
      st_healthAlertStates = [], st_healthAlertEvents = [], st_healthAlertEventIdsByDedupeKey = [],
      st_healthAlertDeliveries = [], st_usageRecords = [], st_usageRollups = [],
      st_usageReconciliations = [], st_usageAlertEvents = [], st_capacityPressureEvidence = [],
      authorizationEpoch = 0\<rparr>"

type_synonym 'a store_op = "(exn, StoreState, 'a) op"

definition circuitKey :: "ProviderId \<Rightarrow> string \<Rightarrow> string" where
  "circuitKey provider candidateKey = provider @ '':'' @ candidateKey"

definition bumpAuthorizationEpoch :: "StoreState \<Rightarrow> StoreState" where
  "bumpAuthorizationEpoch s = s\<lparr>authorizationEpoch := authorizationEpoch s + 1\<rparr>"

subsection \<open>Routes\<close>

definition route_create :: "timestamp \<Rightarrow> string \<Rightarrow> RouteProfile \<Rightarrow> StoredRoute store_op" where
  "route_create now rid profile s =
     (if js_has (st_routes s) rid then (Inl (throw_error ''duplicate_route''), s)
      else let route = RouteProfile.extend profile (StoredRoute.fields rid RouteReady False now now)
           in (Inr route, bumpAuthorizationEpoch (s\<lparr>st_routes := js_set (st_routes s) rid route\<rparr>)))"

definition route_get :: "string \<Rightarrow> bool \<Rightarrow> StoreState \<Rightarrow> StoredRoute result" where
  "route_get rid includeRevoked s =
     (case js_get (st_routes s) rid of
        None \<Rightarrow> Inl (throw notFoundError)
      | Some r \<Rightarrow> if \<not> includeRevoked \<and> route_status r = RouteRevoked then Inl (throw notFoundError) else Inr r)"

text \<open>
  \<open>{ ...previous, ...profile }\<close>: an optional property the profile does not have keeps the value of
  the previous route.
\<close>

definition spread_profile :: "StoredRoute \<Rightarrow> RouteProfile \<Rightarrow> StoredRoute" where
  "spread_profile previous profile =
     previous\<lparr>rp_name := rp_name profile, customerId := customerId profile,
       geography := (case geography profile of None \<Rightarrow> geography previous | Some g \<Rightarrow> Some g),
       rp_carrier := (case rp_carrier profile of None \<Rightarrow> rp_carrier previous | Some c \<Rightarrow> Some c),
       providerOverride := (case providerOverride profile of None \<Rightarrow> providerOverride previous | Some p \<Rightarrow> Some p),
       allowConnectionRetry := allowConnectionRetry profile, userId := userId profile,
       allowedProtocols := allowedProtocols profile, targeting := targeting profile,
       rotation := rotation profile, shouldRetry := shouldRetry profile, retryPolicy := retryPolicy profile\<rparr>"

definition route_update :: "timestamp \<Rightarrow> string \<Rightarrow> RouteProfile \<Rightarrow> StoredRoute store_op" where
  "route_update now rid profile s =
     (case route_get rid False s of
        Inl e \<Rightarrow> (Inl e, s)
      | Inr previous \<Rightarrow>
          let route = (spread_profile previous profile)\<lparr>route_status := RouteReady, route_updatedAt := now\<rparr>
          in (Inr route, bumpAuthorizationEpoch (s\<lparr>st_routes := js_set (st_routes s) rid route\<rparr>)))"

definition route_list :: "string option \<Rightarrow> StoreState \<Rightarrow> StoredRoute list" where
  "route_list uid s =
     js_sort (by_key route_createdAt)
       (filter (\<lambda>r. route_status r \<noteq> RouteRevoked \<and> (case uid of None \<Rightarrow> True | Some u \<Rightarrow> userId r = u))
          (js_values (st_routes s)))"

definition route_revoke :: "timestamp \<Rightarrow> string \<Rightarrow> bool \<Rightarrow> unit store_op" where
  "route_revoke now rid terminateActive s =
     (case js_get (st_routes s) rid of
        None \<Rightarrow> (Inl (throw notFoundError), s)
      | Some r \<Rightarrow>
          if route_status r = RouteRevoked \<and> \<not> terminateActive then (Inl (throw notFoundError), s)
          else (Inr (), bumpAuthorizationEpoch
                  (s\<lparr>st_routes := js_set (st_routes s) rid
                       (r\<lparr>route_status := RouteRevoked,
                          route_terminateActive := (terminateActive \<or> route_terminateActive r),
                          route_updatedAt := now\<rparr>)\<rparr>)))"

subsection \<open>Access grants\<close>

definition createAccessGrant ::
  "token_hash \<Rightarrow> string \<Rightarrow> timestamp \<Rightarrow> string \<Rightarrow> string \<Rightarrow> string \<Rightarrow> string \<Rightarrow> string \<Rightarrow> SessionMode \<Rightarrow>
   string option \<Rightarrow> string option \<Rightarrow> StoredAccessGrant store_op" where
  "createAccessGrant hash salt now gid rid owner cid token mode sid jid s =
     (case route_get rid False s of
        Inl e \<Rightarrow> (Inl e, s)
      | Inr _ \<Rightarrow>
          if js_has (st_grants s) gid then (Inl (throw_error ''duplicate_access_grant''), s)
          else let grant = \<lparr>grant_id = gid, grant_routeId = rid, principalId = owner, grant_jobId = jid,
                            credentials = [createStoredCredential hash salt cid token mode now sid],
                            grant_status = GrantReady, grant_terminateActive = False,
                            grant_createdAt = now, grant_updatedAt = now\<rparr>
               in (Inr grant, s\<lparr>st_grants := js_set (st_grants s) gid grant\<rparr>))"

definition getAccessGrant :: "string \<Rightarrow> bool \<Rightarrow> StoreState \<Rightarrow> StoredAccessGrant result" where
  "getAccessGrant gid includeRevoked s =
     (case js_get (st_grants s) gid of
        None \<Rightarrow> Inl (throw notFoundError)
      | Some g \<Rightarrow> if \<not> includeRevoked \<and> grant_status g = GrantRevoked then Inl (throw notFoundError) else Inr g)"

definition addAccessGrantCredential ::
  "token_hash \<Rightarrow> string \<Rightarrow> timestamp \<Rightarrow> string \<Rightarrow> string \<Rightarrow> string \<Rightarrow> SessionMode \<Rightarrow> string option \<Rightarrow>
   StoredAccessGrant store_op" where
  "addAccessGrantCredential hash salt now gid cid token mode sid s =
     (case getAccessGrant gid False s of
        Inl e \<Rightarrow> (Inl e, s)
      | Inr g \<Rightarrow>
          let g' = g\<lparr>credentials := credentials g @ [createStoredCredential hash salt cid token mode now sid],
                     grant_updatedAt := now\<rparr>
          in (Inr g', bumpAuthorizationEpoch (s\<lparr>st_grants := js_set (st_grants s) gid g'\<rparr>)))"

definition listAccessGrants :: "string \<Rightarrow> string option \<Rightarrow> StoreState \<Rightarrow> StoredAccessGrant list result" where
  "listAccessGrants rid owner s =
     (case route_get rid False s of
        Inl e \<Rightarrow> Inl e
      | Inr _ \<Rightarrow> Inr (js_sort (by_key grant_createdAt)
          (filter (\<lambda>g. grant_routeId g = rid \<and> (case owner of None \<Rightarrow> True | Some p \<Rightarrow> principalId g = p))
             (js_values (st_grants s)))))"

definition credential_matches ::
  "token_hash \<Rightarrow> string \<Rightarrow> string \<Rightarrow> timestamp \<Rightarrow> StoredAccessGrantCredential \<Rightarrow> bool" where
  "credential_matches hash username token now c \<longleftrightarrow>
     credentialUsername (cred_id c) = username \<and> credentialUsable c now \<and> hash token (tokenSalt c) = tokenHash c"

definition grant_offers :: "string \<Rightarrow> StoredAccessGrant \<Rightarrow> bool" where
  "grant_offers username g \<longleftrightarrow>
     grant_status g \<noteq> GrantRevoked \<and> list_ex (\<lambda>c. credentialUsername (cred_id c) = username) (credentials g)"

definition authenticateAccessGrant ::
  "token_hash \<Rightarrow> timestamp \<Rightarrow> string \<Rightarrow> string \<Rightarrow> AuthenticatedAccessGrant option store_op" where
  "authenticateAccessGrant hash now username token s =
     (case List.find (\<lambda>(k, g). grant_offers username g) (st_grants s) of
        None \<Rightarrow> (Inr None, s)
      | Some (k, g) \<Rightarrow>
          (case js_get (st_routes s) (grant_routeId g) of
             None \<Rightarrow> (Inr None, s)
           | Some r \<Rightarrow>
               if route_status r = RouteRevoked then (Inr None, s)
               else (case List.find (credential_matches hash username token now) (credentials g) of
                  None \<Rightarrow> (Inr None, s)
                | Some c \<Rightarrow>
                    let touch = (\<lambda>c. c\<lparr>cred_lastUsedAt := Some now\<rparr>);
                        g' = g\<lparr>credentials :=
                                 update_first (credential_matches hash username token now) touch (credentials g),
                               grant_updatedAt := now\<rparr>
                    in (Inr (Some \<lparr>auth_grant = g', auth_credential = touch c, auth_route = r\<rparr>),
                        s\<lparr>st_grants := js_set (st_grants s) k g'\<rparr>))))"

definition rotate_credential ::
  "timestamp \<Rightarrow> string \<Rightarrow> bool \<Rightarrow> StoredAccessGrantCredential \<Rightarrow> StoredAccessGrantCredential" where
  "rotate_credential now previousId compromised c =
     (if cred_id c \<noteq> previousId \<or> \<not> credentialUsable c now then c
      else if compromised then c\<lparr>cred_status := CredRevoked, revokeAt := Some now\<rparr>
      else c\<lparr>cred_status := CredOverlap,
             revokeAt := Some (min (expiresAt c) (now + ACCESS_GRANT_CREDENTIAL_OVERLAP_MS))\<rparr>)"

definition rotateAccessGrantCredential ::
  "token_hash \<Rightarrow> string \<Rightarrow> timestamp \<Rightarrow> string \<Rightarrow> string \<Rightarrow> string \<Rightarrow> string \<Rightarrow> bool \<Rightarrow>
   StoredAccessGrant store_op" where
  "rotateAccessGrantCredential hash salt now gid previousId cid token compromised s =
     (case js_get (st_grants s) gid of
        None \<Rightarrow> (Inl (throw notFoundError), s)
      | Some g \<Rightarrow>
          if grant_status g = GrantRevoked then (Inl (throw notFoundError), s)
          else (case List.find (\<lambda>c. cred_id c = previousId) (credentials g) of
             None \<Rightarrow> (Inl (throw notFoundError), s)
           | Some previous \<Rightarrow>
               if \<not> credentialUsable previous now then (Inl (throw notFoundError), s)
               else let g' = g\<lparr>credentials := map (rotate_credential now previousId compromised) (credentials g)
                                 @ [createStoredCredential hash salt cid token (cred_sessionMode previous) now
                                      (cred_sessionId previous)],
                               grant_updatedAt := now\<rparr>
                    in (Inr g', bumpAuthorizationEpoch (s\<lparr>st_grants := js_set (st_grants s) gid g'\<rparr>))))"

definition revokeAccessGrantCredential :: "timestamp \<Rightarrow> string \<Rightarrow> string \<Rightarrow> unit store_op" where
  "revokeAccessGrantCredential now gid cid s =
     (case js_get (st_grants s) gid of
        None \<Rightarrow> (Inl (throw notFoundError), s)
      | Some g \<Rightarrow>
          (case List.find (\<lambda>c. cred_id c = cid) (credentials g) of
             None \<Rightarrow> (Inl (throw notFoundError), s)
           | Some c \<Rightarrow>
               if cred_status c = CredRevoked then (Inr (), s)
               else (Inr (), bumpAuthorizationEpoch (s\<lparr>st_grants := js_set (st_grants s) gid
                       (g\<lparr>credentials := update_first (\<lambda>c. cred_id c = cid)
                              (\<lambda>c. c\<lparr>cred_status := CredRevoked, revokeAt := Some now\<rparr>) (credentials g),
                          grant_updatedAt := now\<rparr>)\<rparr>))))"

subsection \<open>Logical sessions\<close>

definition createLogicalSession :: "StoredLogicalSession \<Rightarrow> unit store_op" where
  "createLogicalSession session s =
     (if js_has (st_sessions s) (session_id session) then (Inl (throw_error ''duplicate_logical_session''), s)
      else (Inr (), s\<lparr>st_sessions := js_set (st_sessions s) (session_id session) session\<rparr>))"

definition getLogicalSession :: "string \<Rightarrow> bool \<Rightarrow> StoreState \<Rightarrow> StoredLogicalSession result" where
  "getLogicalSession sid includeClosed s =
     (case js_get (st_sessions s) sid of
        None \<Rightarrow> Inl (throw notFoundError)
      | Some x \<Rightarrow> if \<not> includeClosed \<and> session_status x = SessionClosed then Inl (throw notFoundError) else Inr x)"

definition listLogicalSessions :: "string \<Rightarrow> StoreState \<Rightarrow> StoredLogicalSession list" where
  "listLogicalSessions gid s =
     js_sort (by_key session_createdAt) (filter (\<lambda>x. session_grantId x = gid) (js_values (st_sessions s)))"

definition saveLogicalSession :: "StoredLogicalSession \<Rightarrow> int \<Rightarrow> StoreState \<Rightarrow> bool \<times> StoreState" where
  "saveLogicalSession session expectedBindingVersion s =
     (case js_get (st_sessions s) (session_id session) of
        None \<Rightarrow> (False, s)
      | Some current \<Rightarrow>
          if bindingVersion current \<noteq> expectedBindingVersion \<or> session_status current = SessionClosed
          then (False, s)
          else (True, s\<lparr>st_sessions := js_set (st_sessions s) (session_id session) session\<rparr>))"

definition closeLogicalSession :: "timestamp \<Rightarrow> bool \<Rightarrow> string \<Rightarrow> unit store_op" where
  "closeLogicalSession now terminateActive sid s =
     (case getLogicalSession sid True s of
        Inl e \<Rightarrow> (Inl e, s)
      | Inr x \<Rightarrow>
          if session_status x = SessionClosed then (Inr (), s)
          else (Inr (), bumpAuthorizationEpoch (s\<lparr>st_sessions := js_set (st_sessions s) sid
                  (x\<lparr>session_status := SessionClosed, session_terminateActive := terminateActive,
                     closedAt := Some now, session_updatedAt := now,
                     bindingVersion := bindingVersion x + 1\<rparr>)\<rparr>)))"

definition closeLogicalSessions :: "timestamp \<Rightarrow> bool \<Rightarrow> string \<Rightarrow> unit store_op" where
  "closeLogicalSessions now terminateActive gid s =
     for_each_op (\<lambda>x. closeLogicalSession now terminateActive (session_id x)) (listLogicalSessions gid s) s"

definition revokeAccessGrant :: "timestamp \<Rightarrow> string \<Rightarrow> bool \<Rightarrow> unit store_op" where
  "revokeAccessGrant now gid terminateActive s =
     (case js_get (st_grants s) gid of
        None \<Rightarrow> (Inl (throw notFoundError), s)
      | Some g \<Rightarrow>
          let g' = g\<lparr>grant_status := GrantRevoked,
                     grant_terminateActive := (terminateActive \<or> grant_terminateActive g),
                     grant_updatedAt := now\<rparr>;
              s' = s\<lparr>st_grants := js_set (st_grants s) gid g'\<rparr>
          in bind_op (closeLogicalSessions now terminateActive gid)
               (\<lambda>_ s. (Inr (), bumpAuthorizationEpoch s)) s')"

definition shouldTerminateActive :: "string \<Rightarrow> string option \<Rightarrow> string option \<Rightarrow> StoreState \<Rightarrow> bool" where
  "shouldTerminateActive rid gid sid s =
     ((case js_get (st_routes s) rid of None \<Rightarrow> False | Some r \<Rightarrow> route_terminateActive r)
      \<or> (case gid of None \<Rightarrow> False | Some g \<Rightarrow>
            (case js_get (st_grants s) g of None \<Rightarrow> False | Some x \<Rightarrow> grant_terminateActive x))
      \<or> (case sid of None \<Rightarrow> False | Some i \<Rightarrow>
            (case js_get (st_sessions s) i of None \<Rightarrow> False | Some x \<Rightarrow> session_terminateActive x)))"

subsection \<open>Active tunnels\<close>

definition registerActiveTunnel :: "ActiveTunnel \<Rightarrow> unit store_op" where
  "registerActiveTunnel t s =
     (if js_has (st_tunnels s) (tun_id t) then (Inl (throw_error ''duplicate_active_tunnel''), s)
      else (Inr (), s\<lparr>st_tunnels := js_set (st_tunnels s) (tun_id t) t\<rparr>))"

definition increment :: "('k, nat) js_map \<Rightarrow> 'k \<Rightarrow> ('k, nat) js_map" where
  "increment m k = js_set m k (case js_get m k of None \<Rightarrow> 1 | Some n \<Rightarrow> n + 1)"

text \<open>The loads the selector sees: live tunnels of the provider on the candidate endpoints.\<close>

definition slot_load_counts :: "timestamp \<Rightarrow> ProviderId \<Rightarrow> string list \<Rightarrow> ActiveTunnel list \<Rightarrow> (string, nat) js_map" where
  "slot_load_counts now provider candidates ts =
     foldl (\<lambda>loads t.
         case tun_endpointId t of
           None \<Rightarrow> loads
         | Some e \<Rightarrow>
             if tun_expiresAt t \<le> now \<or> tun_provider t \<noteq> provider \<or> \<not> has candidates e then loads
             else increment loads e)
       [] ts"

definition claimActiveTunnelSlot ::
  "timestamp \<Rightarrow> ProviderId \<Rightarrow> string list \<Rightarrow> ((string, nat) js_map \<Rightarrow> string result) \<Rightarrow>
   (string \<Rightarrow> ActiveTunnel) \<Rightarrow> (ActiveTunnel \<times> nat) store_op" where
  "claimActiveTunnelSlot now provider candidates selectEndpoint createTunnel s =
     (if candidates = [] then (Inl (throw_error ''no_slot_candidates''), s)
      else let loads = slot_load_counts now provider candidates (js_values (st_tunnels s))
           in case selectEndpoint loads of
                Inl e \<Rightarrow> (Inl e, s)
              | Inr endpointId \<Rightarrow>
                  if \<not> has candidates endpointId then (Inl (throw_error ''invalid_slot_selection''), s)
                  else let t = createTunnel endpointId
                       in bind_op (registerActiveTunnel t)
                            (\<lambda>_ s. (Inr (t, (case js_get loads endpointId of None \<Rightarrow> 0 | Some n \<Rightarrow> n) + 1), s)) s)"

definition heartbeatActiveTunnel :: "string \<Rightarrow> timestamp \<Rightarrow> timestamp \<Rightarrow> StoreState \<Rightarrow> StoreState" where
  "heartbeatActiveTunnel tid beat expires s =
     (case js_get (st_tunnels s) tid of
        None \<Rightarrow> s
      | Some t \<Rightarrow> s\<lparr>st_tunnels := js_set (st_tunnels s) tid (t\<lparr>lastHeartbeatAt := beat, tun_expiresAt := expires\<rparr>)\<rparr>)"

definition removeActiveTunnel :: "string \<Rightarrow> StoreState \<Rightarrow> StoreState" where
  "removeActiveTunnel tid s = s\<lparr>st_tunnels := js_delete (st_tunnels s) tid\<rparr>"

definition listAllActiveTunnels :: "string comparator \<Rightarrow> timestamp \<Rightarrow> StoreState \<Rightarrow> ActiveTunnel list" where
  "listAllActiveTunnels lc now s =
     js_sort (\<lambda>a b. lc (tun_id a) (tun_id b)) (filter (\<lambda>t. now < tun_expiresAt t) (js_values (st_tunnels s)))"

definition listActiveTunnels ::
  "string comparator \<Rightarrow> string \<Rightarrow> timestamp \<Rightarrow> StoreState \<Rightarrow> ActiveTunnel list" where
  "listActiveTunnels lc did now s = filter (\<lambda>t. deploymentId t = did) (listAllActiveTunnels lc now s)"

definition count_if_present :: "('k, nat) js_map \<Rightarrow> 'k \<Rightarrow> ('k, nat) js_map" where
  "count_if_present m k = (if js_has m k then increment m k else m)"

definition zero_counts :: "'k list \<Rightarrow> ('k, nat) js_map" where
  "zero_counts ks = js_of_entries (map (\<lambda>k. (k, 0)) ks)"

definition getActiveConnectionCounts ::
  "string comparator \<Rightarrow> timestamp \<Rightarrow> ProviderId list \<Rightarrow> string list \<Rightarrow> string list \<Rightarrow> StoreState \<Rightarrow>
   (ProviderId, nat) js_map \<times> (string, nat) js_map \<times> (string, nat) js_map" where
  "getActiveConnectionCounts lc now providers endpointIds sessionIds s =
     foldl (\<lambda>(pc, ec, sc) t.
        (count_if_present pc (tun_provider t),
         (case tun_endpointId t of
            None \<Rightarrow> ec
          | Some e \<Rightarrow> if length providers \<noteq> 1 \<or> tun_provider t = hd providers then count_if_present ec e else ec),
         (case tun_sessionId t of None \<Rightarrow> sc | Some i \<Rightarrow> count_if_present sc i)))
       (zero_counts providers, zero_counts endpointIds, zero_counts sessionIds)
       (listAllActiveTunnels lc now s)"

subsection \<open>Capacity circuits\<close>

definition getCapacityCircuit ::
  "ProviderId \<Rightarrow> string \<Rightarrow> timestamp \<Rightarrow> StoreState \<Rightarrow> CapacityCircuitState option \<times> StoreState" where
  "getCapacityCircuit provider key now s =
     (case js_get (st_circuits s) (circuitKey provider key) of
        None \<Rightarrow> (None, s)
      | Some c \<Rightarrow>
          if circ_expiresAt c \<le> now
          then (None, s\<lparr>st_circuits := js_delete (st_circuits s) (circuitKey provider key)\<rparr>)
          else (Some c, s))"

definition claimCapacityCircuit ::
  "ProviderId \<Rightarrow> string \<Rightarrow> timestamp \<Rightarrow> StoreState \<Rightarrow> (bool \<times> CapacityCircuitState option) \<times> StoreState" where
  "claimCapacityCircuit provider key now s =
     (let (previous, s') = getCapacityCircuit provider key now s;
          claim = claimCapacityCircuitProbe previous now ROUTING_POLICY
      in (claim,
          (case snd claim of
             None \<Rightarrow> s'
           | Some c \<Rightarrow>
               if Some c \<noteq> previous
               then s'\<lparr>st_circuits := js_set (st_circuits s') (circuitKey provider key) c\<rparr> else s')))"

definition store_recordCapacityCircuitFailure ::
  "ProviderId \<Rightarrow> string \<Rightarrow> CapacityCircuitReason \<Rightarrow> timestamp \<Rightarrow> StoreState \<Rightarrow>
   CapacityCircuitState \<times> StoreState" where
  "store_recordCapacityCircuitFailure provider key reason now s =
     (let c = recordCapacityCircuitFailure (js_get (st_circuits s) (circuitKey provider key))
                provider key reason now ROUTING_POLICY
      in (c, s\<lparr>st_circuits := js_set (st_circuits s) (circuitKey provider key) c\<rparr>))"

definition resetCapacityCircuit :: "ProviderId \<Rightarrow> string \<Rightarrow> StoreState \<Rightarrow> StoreState" where
  "resetCapacityCircuit provider key s =
     s\<lparr>st_circuits := js_delete (st_circuits s) (circuitKey provider key)\<rparr>"

definition listCapacityCircuits ::
  "string comparator \<Rightarrow> timestamp \<Rightarrow> StoreState \<Rightarrow> CapacityCircuitState list \<times> StoreState" where
  "listCapacityCircuits lc now s =
     (let kept = filter (\<lambda>(k, c). now < circ_expiresAt c) (st_circuits s)
      in (js_sort (\<lambda>a b. then_by (lc (circ_provider a) (circ_provider b))
                           (lc (circ_candidateKey a) (circ_candidateKey b))) (js_values kept),
          s\<lparr>st_circuits := kept\<rparr>))"

subsection \<open>Deployment drains\<close>

definition getDeploymentDrain :: "string \<Rightarrow> StoreState \<Rightarrow> DeploymentDrainState option" where
  "getDeploymentDrain did s = js_get (st_drains s) did"

definition saveDeploymentDrain :: "DeploymentDrainState \<Rightarrow> StoreState \<Rightarrow> StoreState" where
  "saveDeploymentDrain d s = s\<lparr>st_drains := js_set (st_drains s) (drain_deploymentId d) d\<rparr>"

definition shouldTerminateDeployment :: "string \<Rightarrow> StoreState \<Rightarrow> bool" where
  "shouldTerminateDeployment did s =
     (case js_get (st_drains s) did of None \<Rightarrow> False | Some d \<Rightarrow> terminateRemaining d)"

end
