(* ===== verification/Store_Invariants.thy ===== *)
theory Store_Invariants
  imports Route_Store
begin

text \<open>
  What the store of \<open>Route_Store\<close> keeps true under every interleaving of its operations: the
  commands as data, their execution in sequence, the well-formedness invariant, the finality of
  revocation, credential rotation, the compare-and-set of logical sessions and the connection
  counts that routing relies on.
\<close>

subsection \<open>Commands and runs\<close>

datatype store_command =
    CmdCreateRoute timestamp string RouteProfile
  | CmdUpdateRoute timestamp string RouteProfile
  | CmdRevokeRoute timestamp string bool
  | CmdCreateGrant string timestamp string string string string string SessionMode "string option" "string option"
  | CmdAddCredential string timestamp string string string SessionMode "string option"
  | CmdAuthenticate timestamp string string
  | CmdRotate string timestamp string string string string bool
  | CmdRevokeCredential timestamp string string
  | CmdRevokeGrant timestamp string bool
  | CmdCreateSession StoredLogicalSession
  | CmdSaveSession StoredLogicalSession int
  | CmdCloseSession timestamp bool string
  | CmdRegisterTunnel ActiveTunnel
  | CmdClaimSlot timestamp ProviderId "string list" "(string, nat) js_map \<Rightarrow> string result" "string \<Rightarrow> ActiveTunnel"
  | CmdHeartbeat string timestamp timestamp
  | CmdRemoveTunnel string
  | CmdGetCircuit ProviderId string timestamp
  | CmdClaimCircuit ProviderId string timestamp
  | CmdCircuitFailure ProviderId string CapacityCircuitReason timestamp
  | CmdResetCircuit ProviderId string
  | CmdListCircuits "string comparator" timestamp
  | CmdSaveDrain DeploymentDrainState

primrec exec :: "token_hash \<Rightarrow> store_command \<Rightarrow> StoreState \<Rightarrow> StoreState" where
  "exec hash (CmdCreateRoute now rid p) s = snd (route_create now rid p s)"
| "exec hash (CmdUpdateRoute now rid p) s = snd (route_update now rid p s)"
| "exec hash (CmdRevokeRoute now rid t) s = snd (route_revoke now rid t s)"
| "exec hash (CmdCreateGrant salt now gid rid owner cid tok mode sid jid) s =
     snd (createAccessGrant hash salt now gid rid owner cid tok mode sid jid s)"
| "exec hash (CmdAddCredential salt now gid cid tok mode sid) s =
     snd (addAccessGrantCredential hash salt now gid cid tok mode sid s)"
| "exec hash (CmdAuthenticate now user tok) s = snd (authenticateAccessGrant hash now user tok s)"
| "exec hash (CmdRotate salt now gid prev cid tok sus) s =
     snd (rotateAccessGrantCredential hash salt now gid prev cid tok sus s)"
| "exec hash (CmdRevokeCredential now gid cid) s = snd (revokeAccessGrantCredential now gid cid s)"
| "exec hash (CmdRevokeGrant now gid t) s = snd (revokeAccessGrant now gid t s)"
| "exec hash (CmdCreateSession x) s = snd (createLogicalSession x s)"
| "exec hash (CmdSaveSession x v) s = snd (saveLogicalSession x v s)"
| "exec hash (CmdCloseSession now t sid) s = snd (closeLogicalSession now t sid s)"
| "exec hash (CmdRegisterTunnel t) s = snd (registerActiveTunnel t s)"
| "exec hash (CmdClaimSlot now p cs sel mk) s = snd (claimActiveTunnelSlot now p cs sel mk s)"
| "exec hash (CmdHeartbeat tid b e) s = heartbeatActiveTunnel tid b e s"
| "exec hash (CmdRemoveTunnel tid) s = removeActiveTunnel tid s"
| "exec hash (CmdGetCircuit p k now) s = snd (getCapacityCircuit p k now s)"
| "exec hash (CmdClaimCircuit p k now) s = snd (claimCapacityCircuit p k now s)"
| "exec hash (CmdCircuitFailure p k r now) s = snd (store_recordCapacityCircuitFailure p k r now s)"
| "exec hash (CmdResetCircuit p k) s = resetCapacityCircuit p k s"
| "exec hash (CmdListCircuits lc now) s = snd (listCapacityCircuits lc now s)"
| "exec hash (CmdSaveDrain d) s = saveDeploymentDrain d s"

fun run :: "token_hash \<Rightarrow> store_command list \<Rightarrow> StoreState \<Rightarrow> StoreState" where
  "run hash [] s = s"
| "run hash (c # cs) s = run hash cs (exec hash c s)"

text \<open>
  A property every command keeps holds after every run: the contract of an invariant, with its
  one client lemma. Its instances below are the well-formedness of the store and the finality of
  revocation and closing.
\<close>

locale store_invariant =
  fixes hash :: token_hash
    and I :: "StoreState \<Rightarrow> bool"
  assumes kept: "I s \<Longrightarrow> I (exec hash c s)"
begin

lemma run_keeps: "I s \<Longrightarrow> I (run hash cs s)"
  by (induction cs arbitrary: s) (auto intro: kept)

end

subsection \<open>Frames\<close>

lemma bump_simps [simp]:
  "st_routes (bumpAuthorizationEpoch s) = st_routes s"
  "st_grants (bumpAuthorizationEpoch s) = st_grants s"
  "st_sessions (bumpAuthorizationEpoch s) = st_sessions s"
  "st_tunnels (bumpAuthorizationEpoch s) = st_tunnels s"
  "st_circuits (bumpAuthorizationEpoch s) = st_circuits s"
  "st_drains (bumpAuthorizationEpoch s) = st_drains s"
  "authorizationEpoch (bumpAuthorizationEpoch s) = authorizationEpoch s + 1"
  by (simp_all add: bumpAuthorizationEpoch_def)

lemmas route_op_defs = route_create_def route_get_def route_update_def route_revoke_def
lemmas grant_op_defs =
  createAccessGrant_def addAccessGrantCredential_def getAccessGrant_def authenticateAccessGrant_def
  rotateAccessGrantCredential_def revokeAccessGrantCredential_def route_get_def
lemmas session_op_defs =
  createLogicalSession_def saveLogicalSession_def closeLogicalSession_def getLogicalSession_def
lemmas tunnel_op_defs =
  registerActiveTunnel_def claimActiveTunnelSlot_def heartbeatActiveTunnel_def removeActiveTunnel_def
lemmas circuit_op_defs =
  getCapacityCircuit_def claimCapacityCircuit_def store_recordCapacityCircuitFailure_def
  resetCapacityCircuit_def listCapacityCircuits_def

lemmas op_splits = option.splits sum.splits prod.splits if_splits

text \<open>Closing the sessions of a grant touches the sessions and the epoch only.\<close>

lemma closeLogicalSession_frame:
  "st_routes (snd (closeLogicalSession now t sid s)) = st_routes s"
  "st_grants (snd (closeLogicalSession now t sid s)) = st_grants s"
  "st_tunnels (snd (closeLogicalSession now t sid s)) = st_tunnels s"
  "st_circuits (snd (closeLogicalSession now t sid s)) = st_circuits s"
  "st_drains (snd (closeLogicalSession now t sid s)) = st_drains s"
  "authorizationEpoch s \<le> authorizationEpoch (snd (closeLogicalSession now t sid s))"
  by (auto simp: closeLogicalSession_def split: op_splits)

definition same_outside_sessions :: "StoreState \<Rightarrow> StoreState \<Rightarrow> bool" where
  "same_outside_sessions s s' \<longleftrightarrow>
     st_routes s' = st_routes s \<and> st_grants s' = st_grants s \<and> st_tunnels s' = st_tunnels s
     \<and> st_circuits s' = st_circuits s \<and> st_drains s' = st_drains s
     \<and> authorizationEpoch s \<le> authorizationEpoch s'"

lemma closeLogicalSessions_frame: "same_outside_sessions s (snd (closeLogicalSessions now t gid s))"
  unfolding closeLogicalSessions_def
proof (rule for_each_op_preserves [where P = "same_outside_sessions s"])
  fix x s'
  assume "same_outside_sessions s s'"
  then show "same_outside_sessions s (snd (closeLogicalSession now t (session_id x) s'))"
    using closeLogicalSession_frame [where now = now and t = t and sid = "session_id x" and s = s']
    unfolding same_outside_sessions_def by simp
qed (simp add: same_outside_sessions_def)

lemma closeLogicalSession_ok:
  "js_has (st_sessions s) sid \<Longrightarrow> fst (closeLogicalSession now t sid s) = Inr ()"
  by (auto simp: closeLogicalSession_def getLogicalSession_def js_has_def split: op_splits)

lemma closeLogicalSession_has:
  "js_has (st_sessions (snd (closeLogicalSession now t sid s))) k \<longleftrightarrow> js_has (st_sessions s) k"
  by (auto simp: closeLogicalSession_def getLogicalSession_def js_has_def split: op_splits)

lemma close_each_ok:
  "(\<And>x. x \<in> set xs \<Longrightarrow> js_has (st_sessions s) (session_id x)) \<Longrightarrow>
   fst (for_each_op (\<lambda>x. closeLogicalSession now t (session_id x)) xs s) = Inr ()"
proof (induction xs arbitrary: s)
  case Nil
  then show ?case by simp
next
  case (Cons x xs)
  obtain s1 where s1: "closeLogicalSession now t (session_id x) s = (Inr (), s1)"
    using closeLogicalSession_ok [of s "session_id x" now t] Cons.prems
    by (metis list.set_intros(1) prod.collapse)
  have "js_has (st_sessions s1) (session_id y)" if "y \<in> set xs" for y
    using closeLogicalSession_has [of now t "session_id x" s "session_id y"] s1 Cons.prems that by simp
  then have "fst (for_each_op (\<lambda>x. closeLogicalSession now t (session_id x)) xs s1) = Inr ()"
    by (rule Cons.IH)
  with s1 show ?case by (simp add: bind_op_def)
qed

subsection \<open>Well-formedness\<close>

definition keyed :: "('v \<Rightarrow> 'k) \<Rightarrow> ('k, 'v) js_map \<Rightarrow> bool" where
  "keyed key m \<longleftrightarrow> js_wf m \<and> (\<forall>k v. js_get m k = Some v \<longrightarrow> key v = k)"

lemma keyed_Nil [simp]: "keyed key []"
  by (simp add: keyed_def)

lemma keyed_set [intro]: "keyed key m \<Longrightarrow> key v = k \<Longrightarrow> keyed key (js_set m k v)"
  by (simp add: keyed_def)

lemma keyed_delete [intro]: "keyed key m \<Longrightarrow> keyed key (js_delete m k)"
  by (simp add: keyed_def)

lemma keyed_get: "keyed key m \<Longrightarrow> js_get m k = Some v \<Longrightarrow> key v = k"
  by (simp add: keyed_def)

lemma keyed_values: "keyed key m \<Longrightarrow> v \<in> set (js_values m) \<Longrightarrow> js_get m (key v) = Some v"
  by (metis js_values_get keyed_def)

lemma keyed_entry: "keyed key m \<Longrightarrow> (k, v) \<in> set m \<Longrightarrow> js_get m k = Some v \<and> key v = k"
  by (metis js_mem_get keyed_def)

lemma keyed_filter: "keyed key m \<Longrightarrow> keyed key (filter P m)"
  by (auto simp: keyed_def js_wf_def distinct_map_filter js_get_def
      dest!: map_of_SomeD intro: map_of_is_SomeI)

definition circuit_key :: "CapacityCircuitState \<Rightarrow> string" where
  "circuit_key c = circuitKey (circ_provider c) (circ_candidateKey c)"

definition grant_wf :: "StoreState \<Rightarrow> StoredAccessGrant \<Rightarrow> bool" where
  "grant_wf s g \<longleftrightarrow> list_all credential_wf (credentials g) \<and> js_has (st_routes s) (grant_routeId g)"

definition store_inv :: "StoreState \<Rightarrow> bool" where
  "store_inv s \<longleftrightarrow>
     keyed route_id (st_routes s) \<and> keyed grant_id (st_grants s) \<and> keyed session_id (st_sessions s)
     \<and> keyed tun_id (st_tunnels s) \<and> keyed circuit_key (st_circuits s)
     \<and> keyed drain_deploymentId (st_drains s)
     \<and> (\<forall>k g. js_get (st_grants s) k = Some g \<longrightarrow> grant_wf s g)
     \<and> 0 \<le> authorizationEpoch s"

lemma store_inv_empty: "store_inv empty_store"
  by (simp add: store_inv_def empty_store_def)

lemma grant_wf_routes: "grant_wf s g \<Longrightarrow> (\<And>k. js_has (st_routes s) k \<Longrightarrow> js_has (st_routes s') k) \<Longrightarrow> grant_wf s' g"
  by (simp add: grant_wf_def)

text \<open>The two shapes of update: the routes grow or change, or one grant is replaced.\<close>

lemma store_inv_set_route:
  assumes "store_inv s" and "route_id r = rid"
  shows "store_inv (bumpAuthorizationEpoch (s\<lparr>st_routes := js_set (st_routes s) rid r\<rparr>))"
  using assms by (auto simp: store_inv_def grant_wf_def)

lemma store_inv_set_grant:
  assumes "store_inv s" and "grant_id g = gid" and "list_all credential_wf (credentials g)"
    and "js_has (st_routes s) (grant_routeId g)"
  shows "store_inv (s\<lparr>st_grants := js_set (st_grants s) gid g\<rparr>)"
  using assms by (auto simp: store_inv_def grant_wf_def)

lemma store_inv_bump: "store_inv s \<Longrightarrow> store_inv (bumpAuthorizationEpoch s)"
  by (simp add: store_inv_def grant_wf_def)

lemma store_inv_grant:
  assumes "store_inv s" and "js_get (st_grants s) gid = Some g"
  shows "grant_id g = gid" and "list_all credential_wf (credentials g)" and "js_has (st_routes s) (grant_routeId g)"
  using assms by (auto simp: store_inv_def grant_wf_def keyed_def)

lemma store_inv_route: "store_inv s \<Longrightarrow> js_get (st_routes s) rid = Some r \<Longrightarrow> route_id r = rid"
  by (auto simp: store_inv_def keyed_def)

lemma spread_profile_id [simp]:
  "route_id (spread_profile r p) = route_id r" "route_status (spread_profile r p) = route_status r"
  by (simp_all add: spread_profile_def)

lemma route_create_inv: "store_inv s \<Longrightarrow> store_inv (snd (route_create now rid p s))"
  by (auto simp: route_create_def Let_def RouteProfile.defs StoredRoute.defs intro!: store_inv_set_route)

lemma route_get_Inr: "route_get rid b s = Inr r \<Longrightarrow> js_get (st_routes s) rid = Some r"
  by (simp add: route_get_def split: option.splits if_splits)

lemma getAccessGrant_Inr:
  "getAccessGrant gid b s = Inr g \<Longrightarrow> js_get (st_grants s) gid = Some g \<and> (b \<or> grant_status g \<noteq> GrantRevoked)"
  by (auto simp: getAccessGrant_def split: option.splits if_splits)

lemma route_update_inv: "store_inv s \<Longrightarrow> store_inv (snd (route_update now rid p s))"
  by (cases "route_get rid False s")
     (simp_all add: route_update_def Let_def store_inv_set_route store_inv_route route_get_Inr)

lemma route_revoke_inv: "store_inv s \<Longrightarrow> store_inv (snd (route_revoke now rid t s))"
  by (cases "js_get (st_routes s) rid") (simp_all add: route_revoke_def store_inv_set_route store_inv_route)

lemma createAccessGrant_inv:
  "store_inv s \<Longrightarrow> store_inv (snd (createAccessGrant hash salt now gid rid owner cid tok mode sid jid s))"
  by (cases "route_get rid False s")
     (simp_all add: createAccessGrant_def Let_def js_has_def new_credential_wf store_inv_set_grant route_get_Inr)

lemma addAccessGrantCredential_inv:
  "store_inv s \<Longrightarrow> store_inv (snd (addAccessGrantCredential hash salt now gid cid tok mode sid s))"
proof (cases "getAccessGrant gid False s")
  case (Inr g)
  assume inv: "store_inv s"
  note g = store_inv_grant [OF inv conjunct1 [OF getAccessGrant_Inr [OF Inr]]]
  from Inr show ?thesis
    by (simp add: addAccessGrantCredential_def Let_def inv g new_credential_wf store_inv_bump store_inv_set_grant)
qed (simp add: addAccessGrantCredential_def)

lemma touched_wf [simp]: "credential_wf (c\<lparr>cred_lastUsedAt := t\<rparr>) = credential_wf c"
  by (simp add: credential_wf_def)

lemma revoked_wf [simp]: "credential_wf c \<Longrightarrow> credential_wf (c\<lparr>cred_status := CredRevoked, revokeAt := Some t\<rparr>)"
  by (simp add: credential_wf_def)

lemma rotated_wf: "credential_wf c \<Longrightarrow> credential_wf (rotate_credential now prev sus c)"
  by (auto simp: rotate_credential_def credential_wf_def)

lemma update_first_wf:
  "list_all credential_wf cs \<Longrightarrow> (\<And>c. credential_wf c \<Longrightarrow> credential_wf (f c)) \<Longrightarrow>
   list_all credential_wf (update_first p f cs)"
  by (induction cs) auto

text \<open>The two ways an authentication can end.\<close>

lemma authenticate_cases:
  assumes "authenticateAccessGrant hash now user tok s = (r, s')"
  obtains (rejected) "r = Inr None" and "s' = s"
  | (accepted) k g rt c g' where
      "List.find (\<lambda>(k, g). grant_offers user g) (st_grants s) = Some (k, g)"
      "(k, g) \<in> set (st_grants s)" "grant_offers user g"
      "js_get (st_routes s) (grant_routeId g) = Some rt" "route_status rt \<noteq> RouteRevoked"
      "List.find (credential_matches hash user tok now) (credentials g) = Some c"
      "g' = g\<lparr>credentials := update_first (credential_matches hash user tok now)
                  (\<lambda>c. c\<lparr>cred_lastUsedAt := Some now\<rparr>) (credentials g), grant_updatedAt := now\<rparr>"
      "r = Inr (Some \<lparr>auth_grant = g', auth_credential = c\<lparr>cred_lastUsedAt := Some now\<rparr>, auth_route = rt\<rparr>)"
      "s' = s\<lparr>st_grants := js_set (st_grants s) k g'\<rparr>"
proof (cases "List.find (\<lambda>(k, g). grant_offers user g) (st_grants s)")
  case None
  with assms that(1) show thesis by (simp add: authenticateAccessGrant_def)
next
  case (Some e)
  obtain k g where e: "e = (k, g)" by fastforce
  have kg: "(k, g) \<in> set (st_grants s)" "grant_offers user g"
    using find_SomeD [OF Some] e by simp_all
  show thesis
  proof (cases "js_get (st_routes s) (grant_routeId g)")
    case None
    with assms Some e that(1) show thesis by (simp add: authenticateAccessGrant_def)
  next
    case rt: (Some rt)
    show thesis
    proof (cases "List.find (credential_matches hash user tok now) (credentials g)")
      case None
      with assms Some e rt that(1) show thesis by (simp add: authenticateAccessGrant_def split: if_splits)
    next
      case c: (Some c)
      show thesis
      proof (cases "route_status rt = RouteRevoked")
        case True
        with assms Some e rt that(1) show thesis by (simp add: authenticateAccessGrant_def)
      next
        case False
        let ?g' = "g\<lparr>credentials := update_first (credential_matches hash user tok now)
            (\<lambda>c. c\<lparr>cred_lastUsedAt := Some now\<rparr>) (credentials g), grant_updatedAt := now\<rparr>"
        from False Some e rt c have "authenticateAccessGrant hash now user tok s =
          (Inr (Some \<lparr>auth_grant = ?g', auth_credential = c\<lparr>cred_lastUsedAt := Some now\<rparr>, auth_route = rt\<rparr>),
           s\<lparr>st_grants := js_set (st_grants s) k ?g'\<rparr>)"
          by (simp add: authenticateAccessGrant_def Let_def)
        with assms have "r = Inr (Some \<lparr>auth_grant = ?g', auth_credential = c\<lparr>cred_lastUsedAt := Some now\<rparr>,
            auth_route = rt\<rparr>)" and "s' = s\<lparr>st_grants := js_set (st_grants s) k ?g'\<rparr>"
          by simp_all
        from that(2) [OF Some [unfolded e] kg rt False c refl this] show thesis .
      qed
    qed
  qed
qed

lemma authenticateAccessGrant_inv:
  assumes "store_inv s"
  shows "store_inv (snd (authenticateAccessGrant hash now user tok s))"
proof (cases "authenticateAccessGrant hash now user tok s")
  case (Pair r s')
  from Pair show ?thesis
  proof (cases rule: authenticate_cases)
    case rejected
    with Pair assms show ?thesis by simp
  next
    case (accepted k g rt c g')
    have "keyed grant_id (st_grants s)" using assms by (simp add: store_inv_def)
    from keyed_entry [OF this accepted(2)] have "js_get (st_grants s) k = Some g" ..
    note g = store_inv_grant [OF assms this]
    have "store_inv (s\<lparr>st_grants := js_set (st_grants s) k g'\<rparr>)"
      by (rule store_inv_set_grant [OF assms]) (simp_all add: accepted(7) g update_first_wf)
    with Pair accepted(9) show ?thesis by simp
  qed
qed

lemma rotateAccessGrantCredential_inv:
  "store_inv s \<Longrightarrow> store_inv (snd (rotateAccessGrantCredential hash salt now gid prev cid tok sus s))"
proof (cases "js_get (st_grants s) gid")
  case (Some g)
  assume inv: "store_inv s"
  note g = store_inv_grant [OF inv Some]
  have "list_all credential_wf (map (rotate_credential now prev sus) (credentials g))"
    using g(2) by (simp add: list_all_iff rotated_wf)
  with Some show ?thesis
    by (simp add: rotateAccessGrantCredential_def Let_def inv g new_credential_wf
        store_inv_bump store_inv_set_grant split: option.split)
qed (simp add: rotateAccessGrantCredential_def)

lemma revokeAccessGrantCredential_inv:
  "store_inv s \<Longrightarrow> store_inv (snd (revokeAccessGrantCredential now gid cid s))"
proof (cases "js_get (st_grants s) gid")
  case (Some g)
  assume inv: "store_inv s"
  note g = store_inv_grant [OF inv Some]
  from Some show ?thesis
    by (simp add: revokeAccessGrantCredential_def inv g store_inv_bump store_inv_set_grant update_first_wf
        split: option.split)
qed (simp add: revokeAccessGrantCredential_def)

lemma closeLogicalSession_inv: "store_inv s \<Longrightarrow> store_inv (snd (closeLogicalSession now t sid s))"
  by (auto simp: closeLogicalSession_def getLogicalSession_def store_inv_def grant_wf_def split: op_splits
      intro!: keyed_set dest: keyed_get)

lemma closeLogicalSessions_inv: "store_inv s \<Longrightarrow> store_inv (snd (closeLogicalSessions now t gid s))"
  unfolding closeLogicalSessions_def
  by (rule for_each_op_preserves [where P = store_inv]) (auto intro: closeLogicalSession_inv)

lemma revokeAccessGrant_inv: 
  assumes "store_inv s"
  shows "store_inv (snd (revokeAccessGrant now gid t s))"
proof (cases "js_get (st_grants s) gid")
  case None
  with assms show ?thesis by (simp add: revokeAccessGrant_def)
next
  case (Some g)
  let ?g' = "g\<lparr>grant_status := GrantRevoked, grant_terminateActive := (t \<or> grant_terminateActive g),
                grant_updatedAt := now\<rparr>"
  have "store_inv (s\<lparr>st_grants := js_set (st_grants s) gid ?g'\<rparr>)"
    using store_inv_grant [OF assms Some] assms by (auto intro!: store_inv_set_grant)
  then have "store_inv (snd (bind_op (closeLogicalSessions now t gid) (\<lambda>_ s. (Inr (), bumpAuthorizationEpoch s))
      (s\<lparr>st_grants := js_set (st_grants s) gid ?g'\<rparr>)))"
    by (rule bind_op_preserves [where P = store_inv, rotated 2])
       (auto intro: closeLogicalSessions_inv store_inv_bump)
  with Some show ?thesis by (simp add: revokeAccessGrant_def Let_def)
qed

lemma session_ops_inv:
  "store_inv s \<Longrightarrow> store_inv (snd (createLogicalSession x s))"
  "store_inv s \<Longrightarrow> store_inv (snd (saveLogicalSession x v s))"
  by (auto simp: session_op_defs store_inv_def grant_wf_def split: op_splits)

lemma registerActiveTunnel_inv: "store_inv s \<Longrightarrow> store_inv (snd (registerActiveTunnel t s))"
  by (auto simp: registerActiveTunnel_def store_inv_def grant_wf_def)

lemma tunnel_ops_inv:
  "store_inv s \<Longrightarrow> store_inv (snd (claimActiveTunnelSlot now p cs sel mk s))"
  "store_inv s \<Longrightarrow> store_inv (heartbeatActiveTunnel tid b e s)"
  "store_inv s \<Longrightarrow> store_inv (removeActiveTunnel tid s)"
proof -
  show "store_inv s \<Longrightarrow> store_inv (snd (claimActiveTunnelSlot now p cs sel mk s))"
    unfolding claimActiveTunnelSlot_def Let_def
    by (auto split: sum.split intro!: bind_op_preserves [where P = store_inv] registerActiveTunnel_inv)
  show "store_inv s \<Longrightarrow> store_inv (heartbeatActiveTunnel tid b e s)"
    using keyed_get [of tun_id "st_tunnels s" tid]
    by (auto simp: heartbeatActiveTunnel_def store_inv_def grant_wf_def split: option.split)
  show "store_inv s \<Longrightarrow> store_inv (removeActiveTunnel tid s)"
    by (auto simp: removeActiveTunnel_def store_inv_def grant_wf_def)
qed

lemma store_inv_set_circuits:
  "store_inv s \<Longrightarrow> keyed circuit_key cs \<Longrightarrow> store_inv (s\<lparr>st_circuits := cs\<rparr>)"
  by (simp add: store_inv_def grant_wf_def)

lemma claim_probe_key:
  "claimCapacityCircuitProbe (Some c) now policy = (a, Some c') \<Longrightarrow> circuit_key c' = circuit_key c"
  by (auto simp: claimCapacityCircuitProbe_def circuit_key_def split: if_splits)

lemma circuit_ops_inv:
  assumes "store_inv s"
  shows "store_inv (snd (getCapacityCircuit p k now s))"
    and "store_inv (snd (claimCapacityCircuit p k now s))"
    and "store_inv (snd (store_recordCapacityCircuitFailure p k r now s))"
    and "store_inv (resetCapacityCircuit p k s)"
    and "store_inv (snd (listCapacityCircuits lc now s))"
proof -
  have cs: "keyed circuit_key (st_circuits s)" using assms by (simp add: store_inv_def)
  then show "store_inv (snd (getCapacityCircuit p k now s))"
    using assms by (auto simp: getCapacityCircuit_def split: op_splits intro!: store_inv_set_circuits)
  show "store_inv (snd (store_recordCapacityCircuitFailure p k r now s))"
    using assms cs
    by (auto simp: store_recordCapacityCircuitFailure_def Let_def recordCapacityCircuitFailure_def circuit_key_def
        intro!: store_inv_set_circuits keyed_set)
  show "store_inv (resetCapacityCircuit p k s)"
    using assms cs by (auto simp: resetCapacityCircuit_def intro!: store_inv_set_circuits)
  show "store_inv (snd (listCapacityCircuits lc now s))"
    using assms cs by (auto simp: listCapacityCircuits_def Let_def intro!: store_inv_set_circuits keyed_filter)
  show "store_inv (snd (claimCapacityCircuit p k now s))"
  proof (cases "getCapacityCircuit p k now s")
    case (Pair previous s')
    have s': "store_inv s'" using \<open>store_inv (snd (getCapacityCircuit p k now s))\<close> Pair by simp
    show ?thesis
    proof (cases previous)
      case None
      with Pair s' show ?thesis by (simp add: claimCapacityCircuit_def claimCapacityCircuitProbe_def)
    next
      case (Some c)
      then have "circuit_key c = circuitKey p k"
        using Pair cs by (auto simp: getCapacityCircuit_def split: op_splits dest: keyed_get)
      with Pair s' Some show ?thesis
        by (auto simp: claimCapacityCircuit_def Let_def split: op_splits
            intro!: store_inv_set_circuits keyed_set simp: claim_probe_key store_inv_def [of s'])
           (metis claim_probe_key prod.collapse)+
    qed
  qed
qed

lemma saveDeploymentDrain_inv: "store_inv s \<Longrightarrow> store_inv (saveDeploymentDrain d s)"
  by (auto simp: saveDeploymentDrain_def store_inv_def grant_wf_def)

lemmas store_op_invs =
  route_create_inv route_update_inv route_revoke_inv createAccessGrant_inv addAccessGrantCredential_inv
  authenticateAccessGrant_inv rotateAccessGrantCredential_inv revokeAccessGrantCredential_inv
  revokeAccessGrant_inv session_ops_inv closeLogicalSession_inv registerActiveTunnel_inv tunnel_ops_inv
  circuit_ops_inv saveDeploymentDrain_inv

lemma exec_inv: "store_inv s \<Longrightarrow> store_inv (exec hash c s)"
  by (cases c) (simp_all add: store_op_invs)

interpretation wf: store_invariant hash store_inv for hash
  by unfold_locales (rule exec_inv)

end
