(* ===== verification/Revocation.thy ===== *)
theory Revocation
  imports Store_Invariants
begin

text \<open>
  How the entries of the store evolve under arbitrary runs of commands: revocation of routes,
  grants and credentials and closing of sessions are final, and the authorization epoch moves
  whenever authority is taken away.
\<close>

subsection \<open>Commands outside routes, grants and sessions\<close>

definition same_core :: "StoreState \<Rightarrow> StoreState \<Rightarrow> bool" where
  "same_core s s' \<longleftrightarrow>
     st_routes s' = st_routes s \<and> st_grants s' = st_grants s \<and> st_sessions s' = st_sessions s
     \<and> authorizationEpoch s' = authorizationEpoch s"

lemma same_core_refl [simp]: "same_core s s"
  by (simp add: same_core_def)

lemma register_core: "same_core s (snd (registerActiveTunnel t s))"
  by (simp add: registerActiveTunnel_def same_core_def)

lemma claim_slot_core: "same_core s (snd (claimActiveTunnelSlot now p cs sel mk s))"
  unfolding claimActiveTunnelSlot_def Let_def registerActiveTunnel_def bind_op_def same_core_def
  by (simp split: sum.split)

lemma tunnel_core:
  "same_core s (heartbeatActiveTunnel tid b e s)" "same_core s (removeActiveTunnel tid s)"
  by (simp_all add: heartbeatActiveTunnel_def removeActiveTunnel_def same_core_def split: option.split)

lemma get_circuit_core: "same_core s (snd (getCapacityCircuit p k now s))"
  by (simp add: getCapacityCircuit_def same_core_def split: option.split)

lemma circuit_core:
  "same_core s (snd (claimCapacityCircuit p k now s))"
  "same_core s (snd (store_recordCapacityCircuitFailure p k r now s))"
  "same_core s (resetCapacityCircuit p k s)"
  "same_core s (snd (listCapacityCircuits lc now s))"
  "same_core s (saveDeploymentDrain d s)"
  using get_circuit_core [of s p k now]
  by (auto simp: claimCapacityCircuit_def store_recordCapacityCircuitFailure_def resetCapacityCircuit_def
      listCapacityCircuits_def saveDeploymentDrain_def Let_def same_core_def
      split: prod.split option.split)

fun core_command :: "store_command \<Rightarrow> bool" where
  "core_command (CmdRegisterTunnel t) = False"
| "core_command (CmdClaimSlot now p cs sel mk) = False"
| "core_command (CmdHeartbeat tid b e) = False"
| "core_command (CmdRemoveTunnel tid) = False"
| "core_command (CmdGetCircuit p k now) = False"
| "core_command (CmdClaimCircuit p k now) = False"
| "core_command (CmdCircuitFailure p k r now) = False"
| "core_command (CmdResetCircuit p k) = False"
| "core_command (CmdListCircuits lc now) = False"
| "core_command (CmdSaveDrain d) = False"
| "core_command _ = True"

lemma exec_same_core: "\<not> core_command c \<Longrightarrow> same_core s (exec hash c s)"
  by (cases c) (simp_all add: register_core claim_slot_core tunnel_core get_circuit_core circuit_core)

subsection \<open>Evolution of entries\<close>

text \<open>
  The contract of a table of the store: an entry is never dropped, and each command moves it along
  a reflexive and transitive relation. Then so does every run.
\<close>

locale store_evolution =
  fixes hash :: token_hash
    and table :: "StoreState \<Rightarrow> (string, 'v) js_map"
    and evolves :: "'v \<Rightarrow> 'v \<Rightarrow> bool"
  assumes evolves_refl: "evolves v v"
    and evolves_trans: "evolves u v \<Longrightarrow> evolves v w \<Longrightarrow> evolves u w"
    and exec_evolves: "store_inv s \<Longrightarrow> js_get (table s) k = Some v \<Longrightarrow>
      \<exists>v'. js_get (table (exec hash c s)) k = Some v' \<and> evolves v v'"
begin

lemma run_evolves:
  "store_inv s \<Longrightarrow> js_get (table s) k = Some v \<Longrightarrow>
   \<exists>v'. js_get (table (run hash cs s)) k = Some v' \<and> evolves v v'"
proof (induction cs arbitrary: s v)
  case Nil
  then show ?case by (simp add: evolves_refl)
next
  case (Cons c cs)
  from exec_evolves [OF Cons.prems]
  obtain v1 where v1: "js_get (table (exec hash c s)) k = Some v1" "evolves v v1" by blast
  from Cons.IH [OF exec_inv [OF Cons.prems(1)] v1(1)]
  obtain v2 where "js_get (table (run hash cs (exec hash c s))) k = Some v2" "evolves v1 v2" by blast
  with v1(2) show ?case by (auto intro: evolves_trans)
qed

end

text \<open>Routes: the identity and the creation date are fixed, revocation and termination are final.\<close>

definition route_evolves :: "StoredRoute \<Rightarrow> StoredRoute \<Rightarrow> bool" where
  "route_evolves r r' \<longleftrightarrow>
     route_id r' = route_id r \<and> route_createdAt r' = route_createdAt r
     \<and> (route_status r = RouteRevoked \<longrightarrow> route_status r' = RouteRevoked)
     \<and> (route_terminateActive r \<longrightarrow> route_terminateActive r')"

definition grants_frame :: "StoreState \<Rightarrow> StoreState \<Rightarrow> bool" where
  "grants_frame s s' \<longleftrightarrow> st_routes s' = st_routes s \<and> st_sessions s' = st_sessions s"

lemma grants_frame_refl [simp]: "grants_frame s s"
  by (simp add: grants_frame_def)

lemma grant_ops_frame:
  "grants_frame s (snd (createAccessGrant hash salt now gid rid owner cid tok mode sid jid s))"
  "grants_frame s (snd (addAccessGrantCredential hash salt now gid cid tok mode sid s))"
  "grants_frame s (snd (authenticateAccessGrant hash now user tok s))"
  "grants_frame s (snd (rotateAccessGrantCredential hash salt now gid prev cid tok sus s))"
  "grants_frame s (snd (revokeAccessGrantCredential now gid cid s))"
  by (simp_all add: createAccessGrant_def addAccessGrantCredential_def authenticateAccessGrant_def
      rotateAccessGrantCredential_def revokeAccessGrantCredential_def grants_frame_def Let_def
      split: option.split sum.split prod.split)

text \<open>
  Revoking an existing grant succeeds: it marks the grant, closes its sessions and bumps the epoch.
\<close>

definition revoked_grant :: "timestamp \<Rightarrow> bool \<Rightarrow> StoredAccessGrant \<Rightarrow> StoredAccessGrant" where
  "revoked_grant now t g =
     g\<lparr>grant_status := GrantRevoked, grant_terminateActive := (t \<or> grant_terminateActive g),
       grant_updatedAt := now\<rparr>"

lemma listLogicalSessions_has:
  "keyed session_id (st_sessions s) \<Longrightarrow> x \<in> set (listLogicalSessions gid s) \<Longrightarrow>
   js_get (st_sessions s) (session_id x) = Some x \<and> session_grantId x = gid"
  by (auto simp: listLogicalSessions_def dest: keyed_values)

lemma closeLogicalSessions_ok:
  assumes "keyed session_id (st_sessions s)"
  shows "fst (closeLogicalSessions now t gid s) = Inr ()"
  unfolding closeLogicalSessions_def
  by (rule close_each_ok) (use listLogicalSessions_has [OF assms] in \<open>auto simp: js_has_def\<close>)

lemma revokeAccessGrant_run:
  assumes inv: "store_inv s" and g: "js_get (st_grants s) gid = Some g"
  obtains s1 where
    "closeLogicalSessions now t gid (s\<lparr>st_grants := js_set (st_grants s) gid (revoked_grant now t g)\<rparr>) = (Inr (), s1)"
    "revokeAccessGrant now gid t s = (Inr (), bumpAuthorizationEpoch s1)"
    "st_grants s1 = js_set (st_grants s) gid (revoked_grant now t g)"
    "st_routes s1 = st_routes s" "authorizationEpoch s \<le> authorizationEpoch s1"
proof -
  let ?s0 = "s\<lparr>st_grants := js_set (st_grants s) gid (revoked_grant now t g)\<rparr>"
  obtain s1 where s1: "closeLogicalSessions now t gid ?s0 = (Inr (), s1)"
    using closeLogicalSessions_ok [of ?s0 now t gid] inv
    by (cases "closeLogicalSessions now t gid ?s0") (simp add: store_inv_def)
  moreover have "revokeAccessGrant now gid t s = (Inr (), bumpAuthorizationEpoch s1)"
    using g s1 by (simp add: revokeAccessGrant_def Let_def revoked_grant_def)
  ultimately show thesis
    using that closeLogicalSessions_frame [of ?s0 now t gid] by (simp add: same_outside_sessions_def)
qed

lemma revokeAccessGrant_missing:
  "js_get (st_grants s) gid = None \<Longrightarrow> revokeAccessGrant now gid t s = (Inl (throw notFoundError), s)"
  by (simp add: revokeAccessGrant_def)

lemma revokeAccessGrant_frame:
  assumes "store_inv s"
  shows "st_routes (snd (revokeAccessGrant now gid t s)) = st_routes s"
proof (cases "js_get (st_grants s) gid")
  case (Some g)
  from assms Some show ?thesis by (rule revokeAccessGrant_run [where now = now and t = t]) simp
qed (simp add: revokeAccessGrant_missing)

lemma session_ops_frame:
  "st_routes (snd (createLogicalSession x s)) = st_routes s"
  "st_grants (snd (createLogicalSession x s)) = st_grants s"
  "st_routes (snd (saveLogicalSession x v s)) = st_routes s"
  "st_grants (snd (saveLogicalSession x v s)) = st_grants s"
  by (simp_all add: createLogicalSession_def saveLogicalSession_def split: option.split)

lemma route_ops_frame:
  "st_grants (snd (route_create now rid p s)) = st_grants s"
  "st_sessions (snd (route_create now rid p s)) = st_sessions s"
  "st_grants (snd (route_update now rid p s)) = st_grants s"
  "st_sessions (snd (route_update now rid p s)) = st_sessions s"
  "st_grants (snd (route_revoke now rid t s)) = st_grants s"
  "st_sessions (snd (route_revoke now rid t s)) = st_sessions s"
  by (simp_all add: route_create_def route_update_def route_revoke_def Let_def
      split: option.split sum.split)

lemma exec_routes:
  assumes inv: "store_inv s" and "js_get (st_routes s) k = Some r"
  shows "\<exists>r'. js_get (st_routes (exec hash c s)) k = Some r' \<and> route_evolves r r'"
proof (cases "core_command c")
  case False
  with exec_same_core [OF this, of s hash] assms show ?thesis
    by (simp add: same_core_def route_evolves_def)
next
  case True
  with assms show ?thesis
    using grant_ops_frame [unfolded grants_frame_def]
    by (cases c)
       (auto simp: route_evolves_def revokeAccessGrant_frame [OF inv] session_ops_frame closeLogicalSession_frame
          route_create_def route_update_def route_get_def route_revoke_def js_has_def spread_profile_def Let_def
          split: option.splits)
qed

interpretation routes: store_evolution hash st_routes route_evolves for hash
  by unfold_locales (auto simp: route_evolves_def intro: exec_routes [unfolded route_evolves_def])

text \<open>
  Grants: identity, owner and route are fixed, credentials keep their position, secret and expiry,
  and revocation of the grant or of a credential is final.
\<close>

definition credential_evolves :: "StoredAccessGrantCredential \<Rightarrow> StoredAccessGrantCredential \<Rightarrow> bool" where
  "credential_evolves c c' \<longleftrightarrow>
     cred_id c' = cred_id c \<and> cred_sessionMode c' = cred_sessionMode c \<and> cred_sessionId c' = cred_sessionId c
     \<and> tokenSalt c' = tokenSalt c \<and> tokenHash c' = tokenHash c \<and> expiresAt c' = expiresAt c
     \<and> (cred_status c = CredRevoked \<longrightarrow> cred_status c' = CredRevoked \<and> revokeAt c' = revokeAt c)
     \<and> (cred_status c' = CredActive \<longrightarrow> cred_status c = CredActive)"

definition grant_evolves :: "StoredAccessGrant \<Rightarrow> StoredAccessGrant \<Rightarrow> bool" where
  "grant_evolves g g' \<longleftrightarrow>
     grant_id g' = grant_id g \<and> grant_routeId g' = grant_routeId g \<and> principalId g' = principalId g
     \<and> grant_jobId g' = grant_jobId g \<and> grant_createdAt g' = grant_createdAt g
     \<and> (grant_status g = GrantRevoked \<longrightarrow> grant_status g' = GrantRevoked)
     \<and> (grant_terminateActive g \<longrightarrow> grant_terminateActive g')
     \<and> list_all2 credential_evolves (credentials g) (take (length (credentials g)) (credentials g'))"

lemma credential_evolves_refl [simp]: "credential_evolves c c"
  by (simp add: credential_evolves_def)

lemma credential_evolves_trans: "credential_evolves a b \<Longrightarrow> credential_evolves b c \<Longrightarrow> credential_evolves a c"
  unfolding credential_evolves_def by metis

lemma list_all2_prefix_trans:
  assumes trans: "\<And>a b c. P a b \<Longrightarrow> P b c \<Longrightarrow> P a c"
    and ab: "list_all2 P as (take (length as) bs)" and bc: "list_all2 P bs (take (length bs) cs)"
  shows "list_all2 P as (take (length as) cs)"
proof -
  from list_all2_lengthD [OF ab] have len: "length as \<le> length bs" by (simp split: if_splits)
  have "list_all2 P (take (length as) bs) (take (length as) cs)"
    using list_all2_takeI [OF bc, of "length as"] len by (simp add: min_def)
  from list_all2_trans [OF trans ab this] show ?thesis .
qed

lemma grant_evolves_refl [simp]: "grant_evolves g g"
  by (simp add: grant_evolves_def list.rel_refl)

lemma grant_evolves_trans: "grant_evolves a b \<Longrightarrow> grant_evolves b c \<Longrightarrow> grant_evolves a c"
  using list_all2_prefix_trans [where P = credential_evolves and as = "credentials a" and bs = "credentials b"
      and cs = "credentials c", OF credential_evolves_trans]
  by (simp add: grant_evolves_def)

lemma grant_evolves_nth:
  assumes "grant_evolves g g'" and "i < length (credentials g)"
  shows "credential_evolves (credentials g ! i) (credentials g' ! i)"
proof -
  from assms(1) have "list_all2 credential_evolves (credentials g) (take (length (credentials g)) (credentials g'))"
    by (simp add: grant_evolves_def)
  from list_all2_nthD [OF this assms(2)] assms(2) show ?thesis by simp
qed

lemma update_first_evolves:
  "(\<And>c. List.find p cs = Some c \<Longrightarrow> credential_evolves c (f c)) \<Longrightarrow>
   list_all2 credential_evolves cs (update_first p f cs)"
  by (induction cs) (auto simp: list.rel_refl)

lemma rotate_credential_evolves: "credential_evolves c (rotate_credential now prev sus c)"
  by (simp add: rotate_credential_def credential_evolves_def credentialUsable_def)

lemma list_all2_map_self: "(\<And>x. P x (f x)) \<Longrightarrow> list_all2 P xs (map f xs)"
  by (induction xs) auto

text \<open>What each operation writes for a grant that exists.\<close>

lemma authenticate_grants:
  assumes inv: "store_inv s" and g: "js_get (st_grants s) k = Some g"
  shows "\<exists>g'. js_get (st_grants (snd (authenticateAccessGrant hash now user tok s))) k = Some g' \<and> grant_evolves g g'"
proof (cases "authenticateAccessGrant hash now user tok s")
  case (Pair r s')
  from Pair show ?thesis
  proof (cases rule: authenticate_cases)
    case rejected
    with Pair g show ?thesis by simp
  next
    case (accepted k1 g1 rt c g')
    have "keyed grant_id (st_grants s)" using inv by (simp add: store_inv_def)
    from keyed_entry [OF this accepted(2)] have g1: "js_get (st_grants s) k1 = Some g1" ..
    have "list_all2 credential_evolves (credentials g1) (credentials g')"
      by (simp add: accepted(7)) (rule update_first_evolves, simp add: credential_evolves_def)
    then have "grant_evolves g1 g'" by (simp add: grant_evolves_def accepted(7))
    with Pair accepted(9) g g1 show ?thesis by auto
  qed
qed

lemma add_credential_grants:
  assumes "js_get (st_grants s) k = Some g"
  shows "\<exists>g'. js_get (st_grants (snd (addAccessGrantCredential hash salt now gid cid tok mode sid s))) k = Some g'
              \<and> grant_evolves g g'"
  using assms
  by (auto simp: addAccessGrantCredential_def getAccessGrant_def Let_def grant_evolves_def list.rel_refl
      split: option.split)

lemma rotate_grants:
  assumes "js_get (st_grants s) k = Some g"
  shows "\<exists>g'. js_get (st_grants (snd (rotateAccessGrantCredential hash salt now gid prev cid tok sus s))) k = Some g'
              \<and> grant_evolves g g'"
proof -
  have "list_all2 credential_evolves cs (map (rotate_credential now prev sus) cs)" for cs
    by (rule list_all2_map_self) (rule rotate_credential_evolves)
  with assms show ?thesis
    by (auto simp: rotateAccessGrantCredential_def Let_def grant_evolves_def list.rel_refl split: option.split)
qed

lemma revoke_credential_grants:
  assumes "js_get (st_grants s) k = Some g"
  shows "\<exists>g'. js_get (st_grants (snd (revokeAccessGrantCredential now gid cid s))) k = Some g' \<and> grant_evolves g g'"
proof -
  have "list_all2 credential_evolves cs
      (update_first (\<lambda>c. cred_id c = cid) (\<lambda>c. c\<lparr>cred_status := CredRevoked, revokeAt := Some now\<rparr>) cs)"
    if "List.find (\<lambda>c. cred_id c = cid) cs = Some c" "cred_status c \<noteq> CredRevoked" for cs c
    by (rule update_first_evolves) (use that in \<open>simp add: credential_evolves_def\<close>)
  with assms show ?thesis
    by (auto simp: revokeAccessGrantCredential_def grant_evolves_def list.rel_refl split: option.split)
qed

lemma revoke_grants:
  assumes inv: "store_inv s" and g: "js_get (st_grants s) k = Some g"
  shows "\<exists>g'. js_get (st_grants (snd (revokeAccessGrant now gid t s))) k = Some g' \<and> grant_evolves g g'"
proof (cases "js_get (st_grants s) gid")
  case None
  with g show ?thesis by (simp add: revokeAccessGrant_missing)
next
  case (Some h)
  have "grant_evolves h (revoked_grant now t h)"
    by (simp add: grant_evolves_def revoked_grant_def list.rel_refl)
  then show ?thesis
    using g Some by - (rule revokeAccessGrant_run [OF inv Some, of now t], auto)
qed

lemma exec_grants:
  assumes inv: "store_inv s" and g: "js_get (st_grants s) k = Some g"
  shows "\<exists>g'. js_get (st_grants (exec hash c s)) k = Some g' \<and> grant_evolves g g'"
proof (cases "core_command c")
  case False
  with exec_same_core [OF this, of s hash] g show ?thesis by (simp add: same_core_def)
next
  case True
  have create: "js_get (st_grants (snd (createAccessGrant hash salt now gid rid owner cid tok mode sid jid s))) k = Some g"
    for salt now gid rid owner cid tok mode sid jid
    using g by (auto simp: createAccessGrant_def Let_def js_has_def split: sum.split)
  from True g show ?thesis
    by (cases c)
       (simp_all add: route_ops_frame session_ops_frame closeLogicalSession_frame create authenticate_grants [OF inv]
          add_credential_grants rotate_grants revoke_credential_grants revoke_grants [OF inv])
qed

interpretation grants: store_evolution hash st_grants grant_evolves for hash
  by unfold_locales (auto intro: grant_evolves_trans exec_grants)

text \<open>Sessions: the identity is fixed and a closed session never changes again.\<close>

definition session_evolves :: "StoredLogicalSession \<Rightarrow> StoredLogicalSession \<Rightarrow> bool" where
  "session_evolves x x' \<longleftrightarrow> session_id x' = session_id x \<and> (session_status x = SessionClosed \<longrightarrow> x' = x)"

definition session_kept :: "string \<Rightarrow> StoredLogicalSession \<Rightarrow> StoreState \<Rightarrow> bool" where
  "session_kept k x s \<longleftrightarrow> (\<exists>x'. js_get (st_sessions s) k = Some x' \<and> session_evolves x x')"

lemma session_evolves_refl [simp]: "session_evolves x x"
  by (simp add: session_evolves_def)

lemma session_evolves_trans: "session_evolves x y \<Longrightarrow> session_evolves y z \<Longrightarrow> session_evolves x z"
  by (auto simp: session_evolves_def)

lemma closeLogicalSession_evolves:
  "js_get (st_sessions s) k = Some x \<Longrightarrow> session_kept k x (snd (closeLogicalSession now t sid s))"
  by (auto simp: closeLogicalSession_def getLogicalSession_def session_kept_def session_evolves_def
      split: option.split)

lemma closeLogicalSession_kept:
  "session_kept k x s \<Longrightarrow> session_kept k x (snd (closeLogicalSession now t sid s))"
  by (metis closeLogicalSession_evolves session_evolves_trans session_kept_def)

lemma close_each_kept:
  "session_kept k x s \<Longrightarrow> session_kept k x (snd (for_each_op (\<lambda>y. closeLogicalSession now t (session_id y)) ys s))"
  by (rule for_each_op_preserves [where P = "session_kept k x"]) (auto intro: closeLogicalSession_kept)

lemma revokeAccessGrant_sessions:
  assumes inv: "store_inv s" and x: "js_get (st_sessions s) k = Some x"
  shows "session_kept k x (snd (revokeAccessGrant now gid t s))"
proof (cases "js_get (st_grants s) gid")
  case None
  with x show ?thesis by (simp add: revokeAccessGrant_missing session_kept_def)
next
  case (Some g)
  let ?s0 = "s\<lparr>st_grants := js_set (st_grants s) gid (revoked_grant now t g)\<rparr>"
  have "session_kept k x ?s0" using x by (simp add: session_kept_def)
  from close_each_kept [OF this] have "session_kept k x (snd (closeLogicalSessions now t gid ?s0))"
    by (simp add: closeLogicalSessions_def)
  then show ?thesis
    by - (rule revokeAccessGrant_run [OF inv Some, of now t], auto simp: session_kept_def)
qed

lemma save_create_evolves:
  assumes "keyed session_id (st_sessions s)" and "js_get (st_sessions s) k = Some x"
  shows "session_kept k x (snd (createLogicalSession y s))" and "session_kept k x (snd (saveLogicalSession y v s))"
  using assms keyed_get [OF assms]
  by (auto simp: createLogicalSession_def saveLogicalSession_def js_has_def session_kept_def session_evolves_def
      split: option.split)

lemma exec_sessions:
  assumes inv: "store_inv s" and x: "js_get (st_sessions s) k = Some x"
  shows "\<exists>x'. js_get (st_sessions (exec hash c s)) k = Some x' \<and> session_evolves x x'"
proof (cases "core_command c")
  case False
  with exec_same_core [OF this, of s hash] x show ?thesis by (simp add: same_core_def)
next
  case True
  have keyed: "keyed session_id (st_sessions s)" using inv by (simp add: store_inv_def)
  from True x show ?thesis
    using grant_ops_frame [unfolded grants_frame_def]
    by (cases c)
       (simp_all add: route_ops_frame save_create_evolves [OF keyed x, unfolded session_kept_def]
          closeLogicalSession_evolves [unfolded session_kept_def]
          revokeAccessGrant_sessions [OF inv x, unfolded session_kept_def])
qed

interpretation sessions: store_evolution hash st_sessions session_evolves for hash
  by unfold_locales (auto intro: session_evolves_trans exec_sessions)

subsection \<open>Revocation is final\<close>

text \<open>
  C11. Nothing that was withdrawn comes back: under every run of commands a route, grant or
  credential that is revoked stays revoked (the credential with the instant it was revoked at), an
  order to terminate active connections is never taken back, and a closed session never changes.
\<close>

theorem withdrawal_is_final:
  assumes "store_inv s"
  shows "(js_get (st_routes s) rid = Some r \<longrightarrow> (\<exists>r'. js_get (st_routes (run hash cs s)) rid = Some r'
            \<and> (route_status r = RouteRevoked \<longrightarrow> route_status r' = RouteRevoked)
            \<and> (route_terminateActive r \<longrightarrow> route_terminateActive r')))
    \<and> (js_get (st_grants s) gid = Some g \<longrightarrow> (\<exists>g'. js_get (st_grants (run hash cs s)) gid = Some g'
            \<and> (grant_status g = GrantRevoked \<longrightarrow> grant_status g' = GrantRevoked)
            \<and> (grant_terminateActive g \<longrightarrow> grant_terminateActive g')
            \<and> (i < length (credentials g) \<and> cred_status (credentials g ! i) = CredRevoked \<longrightarrow>
                 cred_status (credentials g' ! i) = CredRevoked
                 \<and> revokeAt (credentials g' ! i) = revokeAt (credentials g ! i)
                 \<and> \<not> credentialUsable (credentials g' ! i) now)))
    \<and> (js_get (st_sessions s) sid = Some x \<and> session_status x = SessionClosed \<longrightarrow>
         js_get (st_sessions (run hash cs s)) sid = Some x)"
proof (intro conjI impI)
  assume "js_get (st_routes s) rid = Some r"
  from routes.run_evolves [OF assms this] show "\<exists>r'. js_get (st_routes (run hash cs s)) rid = Some r'
      \<and> (route_status r = RouteRevoked \<longrightarrow> route_status r' = RouteRevoked)
      \<and> (route_terminateActive r \<longrightarrow> route_terminateActive r')"
    by (auto simp: route_evolves_def)
next
  assume "js_get (st_grants s) gid = Some g"
  from grants.run_evolves [OF assms this, of hash cs]
  obtain g' where g': "js_get (st_grants (run hash cs s)) gid = Some g'" "grant_evolves g g'" by blast
  have "credential_evolves (credentials g ! i) (credentials g' ! i)" if "i < length (credentials g)"
    using g'(2) that by (rule grant_evolves_nth)
  then show "\<exists>g'. js_get (st_grants (run hash cs s)) gid = Some g'
      \<and> (grant_status g = GrantRevoked \<longrightarrow> grant_status g' = GrantRevoked)
      \<and> (grant_terminateActive g \<longrightarrow> grant_terminateActive g')
      \<and> (i < length (credentials g) \<and> cred_status (credentials g ! i) = CredRevoked \<longrightarrow>
           cred_status (credentials g' ! i) = CredRevoked
           \<and> revokeAt (credentials g' ! i) = revokeAt (credentials g ! i)
           \<and> \<not> credentialUsable (credentials g' ! i) now)"
    using g' by (intro exI [of _ g']) (simp add: grant_evolves_def credential_evolves_def credentialUsable_def)
next
  assume "js_get (st_sessions s) sid = Some x \<and> session_status x = SessionClosed"
  with sessions.run_evolves [OF assms, of sid x hash cs] show "js_get (st_sessions (run hash cs s)) sid = Some x"
    by (auto simp: session_evolves_def)
qed

text \<open>
  C1. Revocation is final. After an access grant of a store that any commands have built has been
  revoked, no sequence of further commands (grants created, credentials added or rotated, routes
  updated, sessions saved) lets any username and token authenticate as that grant again.
\<close>

theorem revoked_grant_never_authenticates:
  assumes "revokeAccessGrant now gid t (run hash before empty_store) = (Inr (), s)"
    and "authenticateAccessGrant hash now' user tok (run hash later s) = (Inr (Some a), s')"
  shows "grant_id (auth_grant a) \<noteq> gid"
proof
  assume gid: "grant_id (auth_grant a) = gid"
  let ?before = "run hash before empty_store" and ?after = "run hash later s"
  have inv0: "store_inv ?before" by (rule wf.run_keeps [OF store_inv_empty])
  from revokeAccessGrant_inv [OF inv0, of now gid t] assms(1) have inv1: "store_inv s" by simp
  from assms(1) obtain g where g: "js_get (st_grants ?before) gid = Some g"
    by (cases "js_get (st_grants ?before) gid") (simp_all add: revokeAccessGrant_missing)
  have g1: "js_get (st_grants s) gid = Some (revoked_grant now t g)"
    by (rule revokeAccessGrant_run [OF inv0 g, of now t]) (use assms(1) in simp)
  from grants.run_evolves [OF inv1 g1, of hash later]
  obtain g2 where g2: "js_get (st_grants ?after) gid = Some g2" "grant_status g2 = GrantRevoked"
    by (auto simp: grant_evolves_def revoked_grant_def)
  have keyed: "keyed grant_id (st_grants ?after)" using wf.run_keeps [OF inv1] by (simp add: store_inv_def)
  from assms(2) show False
  proof (cases rule: authenticate_cases)
    case (accepted k h rt c h')
    from keyed_entry [OF keyed accepted(2)] gid accepted(7,8) have "js_get (st_grants ?after) gid = Some h" by simp
    with g2 accepted(3) show False by (simp add: grant_offers_def)
  qed simp
qed

text \<open>
  C2. The same for a route: once revoked it is not found by any later lookup that does not ask for
  revoked routes, it is never updated back to ready, and no access grant of the route
  authenticates, whatever commands run in between.
\<close>

theorem revoked_route_never_serves:
  assumes "route_revoke now rid t (run hash before empty_store) = (Inr (), s)"
  shows "route_get rid False (run hash later s) = Inl (throw notFoundError)
    \<and> route_update now' rid p (run hash later s) = (Inl (throw notFoundError), run hash later s)
    \<and> (authenticateAccessGrant hash now' user tok (run hash later s) = (Inr (Some a), s') \<longrightarrow>
         grant_routeId (auth_grant a) \<noteq> rid)"
proof (intro conjI impI)
  let ?before = "run hash before empty_store" and ?after = "run hash later s"
  have inv0: "store_inv ?before" by (rule wf.run_keeps [OF store_inv_empty])
  from route_revoke_inv [OF inv0, of now rid t] assms have inv1: "store_inv s" by simp
  from assms obtain r where r: "js_get (st_routes s) rid = Some r" "route_status r = RouteRevoked"
    by (auto simp: route_revoke_def split: option.splits if_splits)
  from routes.run_evolves [OF inv1 r(1), of hash later] r(2)
  obtain r' where r': "js_get (st_routes ?after) rid = Some r'" "route_status r' = RouteRevoked"
    by (auto simp: route_evolves_def)
  then show "route_get rid False ?after = Inl (throw notFoundError)" by (simp add: route_get_def)
  then show "route_update now' rid p ?after = (Inl (throw notFoundError), ?after)" by (simp add: route_update_def)
  assume "authenticateAccessGrant hash now' user tok ?after = (Inr (Some a), s')"
  then show "grant_routeId (auth_grant a) \<noteq> rid"
  proof (cases rule: authenticate_cases)
    case (accepted k h rt c h')
    then show ?thesis using r' by auto
  qed simp
qed

subsubsection \<open>Concrete runs\<close>

text \<open>A route with two grants, built by commands, on which the theorems apply.\<close>

definition sample_profile :: RouteProfile where
  "sample_profile = \<lparr>rp_name = ''n'', customerId = ''k'', geography = None, rp_carrier = None,
     providerOverride = None, allowConnectionRetry = True, userId = ''u'', allowedProtocols = [Http],
     targeting = \<lparr>country = None, region = None, city = None, postalCode = None, asn = None, carrier = None\<rparr>,
     rotation = PerRequest, shouldRetry = True, retryPolicy = \<lparr>maxAttempts = 3\<rparr>\<rparr>"

definition sample_hash :: token_hash where
  "sample_hash tok salt = tok @ salt"

definition sample_commands :: "store_command list" where
  "sample_commands =
     [CmdCreateRoute 0 ''r'' sample_profile,
      CmdCreateGrant ''s'' 0 ''g'' ''r'' ''o'' ''c'' ''t'' Stateless None None,
      CmdCreateGrant ''s'' 0 ''h'' ''r'' ''o'' ''d'' ''t'' Stateless None None]"

definition sample_store :: StoreState where
  "sample_store = run sample_hash sample_commands empty_store"

fun authenticated :: "(exn + AuthenticatedAccessGrant option) \<times> StoreState \<Rightarrow> bool" where
  "authenticated (Inr (Some a), s) = True"
| "authenticated _ = False"

lemma authenticatedE:
  assumes "authenticated x"
  obtains a s where "x = (Inr (Some a), s)"
  using assms by (cases x rule: authenticated.cases) auto

theorem revoked_grant_never_authenticates_witness:
  "\<exists>s a s'. revokeAccessGrant 5 ''g'' True (run sample_hash sample_commands empty_store) = (Inr (), s)
     \<and> authenticateAccessGrant sample_hash 7 ''pxy_d'' ''t'' (run sample_hash [] s) = (Inr (Some a), s')
     \<and> grant_id (auth_grant a) \<noteq> ''g''"
proof -
  let ?r = "revokeAccessGrant 5 ''g'' True (run sample_hash sample_commands empty_store)"
  have r: "?r = (Inr (), snd ?r)" by code_simp
  have "authenticated (authenticateAccessGrant sample_hash 7 ''pxy_d'' ''t'' (run sample_hash [] (snd ?r)))"
    by code_simp
  then obtain a s' where a: "authenticateAccessGrant sample_hash 7 ''pxy_d'' ''t'' (run sample_hash [] (snd ?r))
      = (Inr (Some a), s')"
    by (rule authenticatedE)
  from revoked_grant_never_authenticates [OF r a] r a show ?thesis by blast
qed

theorem revoked_route_never_serves_witness:
  "\<exists>s. route_revoke 5 ''r'' False (run sample_hash sample_commands empty_store) = (Inr (), s)
     \<and> route_get ''r'' False (run sample_hash [CmdUpdateRoute 6 ''r'' sample_profile] s) = Inl (throw notFoundError)"
proof -
  let ?r = "route_revoke 5 ''r'' False (run sample_hash sample_commands empty_store)"
  have r: "?r = (Inr (), snd ?r)" by code_simp
  from revoked_route_never_serves [OF r, of "[CmdUpdateRoute 6 ''r'' sample_profile]"] r show ?thesis by blast
qed

theorem withdrawal_is_final_witness:
  "store_inv sample_store \<and>
   (let s = snd (revokeAccessGrantCredential 3 ''g'' ''c'' sample_store);
        g = the (js_get (st_grants s) ''g'');
        s' = run sample_hash [CmdRotate ''s'' 4 ''g'' ''c'' ''e'' ''t2'' False] s
    in cred_status (credentials (the (js_get (st_grants s') ''g'')) ! 0) = CredRevoked)"
proof -
  have inv: "store_inv sample_store" unfolding sample_store_def by (rule wf.run_keeps [OF store_inv_empty])
  let ?s = "snd (revokeAccessGrantCredential 3 ''g'' ''c'' sample_store)"
  let ?g = "the (js_get (st_grants ?s) ''g'')"
  have g: "js_get (st_grants ?s) ''g'' = Some ?g" by code_simp
  have c: "0 < length (credentials ?g)" "cred_status (credentials ?g ! 0) = CredRevoked" by code_simp+
  have "store_inv ?s" by (rule revokeAccessGrantCredential_inv [OF inv])
  from mp [OF conjunct1 [OF conjunct2 [OF withdrawal_is_final [OF this, where hash = sample_hash and i = 0
      and cs = "[CmdRotate ''s'' 4 ''g'' ''c'' ''e'' ''t2'' False]"]]] g] c
  obtain g' where "js_get (st_grants (run sample_hash [CmdRotate ''s'' 4 ''g'' ''c'' ''e'' ''t2'' False] ?s)) ''g''
      = Some g'" "cred_status (credentials g' ! 0) = CredRevoked" by blast
  with inv show ?thesis by (simp add: Let_def del: run.simps)
qed

subsection \<open>The authorization epoch\<close>

text \<open>
  Gateways poll the epoch to learn that authority was withdrawn. What an unmoved epoch tells them:
  the routes are the same and every grant still has its status and its credentials, up to the
  instant of last use.
\<close>

definition untouched :: "StoredAccessGrantCredential \<Rightarrow> StoredAccessGrantCredential" where
  "untouched c = c\<lparr>cred_lastUsedAt := None\<rparr>"

definition authority_kept :: "StoreState \<Rightarrow> StoreState \<Rightarrow> bool" where
  "authority_kept s s' \<longleftrightarrow>
     st_routes s' = st_routes s
     \<and> (\<forall>k g. js_get (st_grants s) k = Some g \<longrightarrow>
          (\<exists>g'. js_get (st_grants s') k = Some g' \<and> grant_status g' = grant_status g
                \<and> grant_terminateActive g' = grant_terminateActive g
                \<and> map untouched (credentials g') = map untouched (credentials g)))"

definition epoch_tracks :: "StoreState \<Rightarrow> StoreState \<Rightarrow> bool" where
  "epoch_tracks s s' \<longleftrightarrow>
     authorizationEpoch s \<le> authorizationEpoch s'
     \<and> (authorizationEpoch s' = authorizationEpoch s \<longrightarrow> authority_kept s s')"

lemma authority_kept_refl [simp]: "authority_kept s s"
  by (simp add: authority_kept_def)

lemma authority_kept_trans: "authority_kept a b \<Longrightarrow> authority_kept b c \<Longrightarrow> authority_kept a c"
  unfolding authority_kept_def by metis

lemma epoch_tracks_refl [simp]: "epoch_tracks s s"
  by (simp add: epoch_tracks_def)

lemma epoch_tracks_trans: "epoch_tracks a b \<Longrightarrow> epoch_tracks b c \<Longrightarrow> epoch_tracks a c"
  unfolding epoch_tracks_def using authority_kept_trans [of a b c] by auto

lemma epoch_tracks_bump: "authorizationEpoch s \<le> authorizationEpoch s' \<Longrightarrow> epoch_tracks s (bumpAuthorizationEpoch s')"
  by (simp add: epoch_tracks_def)

lemma epoch_tracks_frame:
  "st_routes s' = st_routes s \<Longrightarrow> st_grants s' = st_grants s \<Longrightarrow> authorizationEpoch s \<le> authorizationEpoch s' \<Longrightarrow>
   epoch_tracks s s'"
  by (simp add: epoch_tracks_def authority_kept_def)

lemma route_ops_epoch:
  "epoch_tracks s (snd (route_create now rid p s))"
  "epoch_tracks s (snd (route_update now rid p s))"
  "epoch_tracks s (snd (route_revoke now rid t s))"
  by (simp_all add: route_create_def route_update_def route_revoke_def Let_def epoch_tracks_bump
      split: option.split sum.split)

lemma grant_ops_epoch:
  "epoch_tracks s (snd (addAccessGrantCredential hash salt now gid cid tok mode sid s))"
  "epoch_tracks s (snd (rotateAccessGrantCredential hash salt now gid prev cid tok sus s))"
  "epoch_tracks s (snd (revokeAccessGrantCredential now gid cid s))"
  by (simp_all add: addAccessGrantCredential_def rotateAccessGrantCredential_def revokeAccessGrantCredential_def
      Let_def epoch_tracks_bump split: option.split sum.split)

lemma createAccessGrant_epoch:
  "epoch_tracks s (snd (createAccessGrant hash salt now gid rid owner cid tok mode sid jid s))"
  by (auto simp: createAccessGrant_def Let_def epoch_tracks_def authority_kept_def js_has_def split: sum.split)

lemma authenticate_epoch:
  assumes inv: "store_inv s"
  shows "epoch_tracks s (snd (authenticateAccessGrant hash now user tok s))"
proof (cases "authenticateAccessGrant hash now user tok s")
  case (Pair r s')
  from Pair show ?thesis
  proof (cases rule: authenticate_cases)
    case rejected
    with Pair show ?thesis by simp
  next
    case (accepted k g rt c g')
    have "keyed grant_id (st_grants s)" using inv by (simp add: store_inv_def)
    from keyed_entry [OF this accepted(2)] have g: "js_get (st_grants s) k = Some g" ..
    have "map untouched (credentials g') = map untouched (credentials g)"
      by (simp add: accepted(7) update_first_map_eq untouched_def)
    with g accepted(7,9) Pair show ?thesis by (simp add: epoch_tracks_def authority_kept_def)
  qed
qed

lemma revokeAccessGrant_epoch:
  assumes inv: "store_inv s"
  shows "epoch_tracks s (snd (revokeAccessGrant now gid t s))"
proof (cases "js_get (st_grants s) gid")
  case (Some g)
  show ?thesis by (rule revokeAccessGrant_run [OF inv Some, of now t]) (simp add: epoch_tracks_bump)
qed (simp add: revokeAccessGrant_missing)

lemma session_ops_epoch:
  "epoch_tracks s (snd (createLogicalSession x s))" "epoch_tracks s (snd (saveLogicalSession x v s))"
  "epoch_tracks s (snd (closeLogicalSession now t sid s))"
  by (rule epoch_tracks_frame; simp add: session_ops_frame closeLogicalSession_frame createLogicalSession_def
      saveLogicalSession_def split: option.split)+

lemma exec_epoch:
  assumes inv: "store_inv s"
  shows "epoch_tracks s (exec hash c s)"
proof (cases "core_command c")
  case False
  with exec_same_core [OF this, of s hash] show ?thesis
    by (simp add: same_core_def epoch_tracks_frame)
next
  case True
  then show ?thesis
    by (cases c) (simp_all add: route_ops_epoch grant_ops_epoch createAccessGrant_epoch session_ops_epoch
        authenticate_epoch [OF inv] revokeAccessGrant_epoch [OF inv])
qed

lemma run_epoch: "store_inv s \<Longrightarrow> epoch_tracks s (run hash cs s)"
proof (induction cs arbitrary: s)
  case (Cons c cs)
  from epoch_tracks_trans [OF exec_epoch [OF Cons.prems] Cons.IH [OF exec_inv [OF Cons.prems]]] show ?case
    by simp
qed simp



end
