(* ===== verification/Store_Contracts.thy ===== *)
theory Store_Contracts
  imports Revocation
begin

text \<open>
  Contracts of single operations of the store: issuing and rotating credentials, revoking a grant,
  the compare-and-set of logical sessions, and the connection counts that routing reads.
\<close>

subsection \<open>Credentials\<close>

text \<open>
  C29. A grant that was created authenticates with its own credential: while no other grant offers
  the username, the token is accepted from its creation until the credential expires and not
  afterwards, it yields this grant and its route, and a token with another digest is refused.
\<close>

theorem created_grant_authenticates:
  assumes created: "createAccessGrant hash salt now gid rid owner cid tok mode sid jid s = (Inr g, s')"
    and unused: "list_all (\<lambda>g. \<not> grant_offers (credentialUsername cid) g) (js_values (st_grants s))"
  shows "(case fst (authenticateAccessGrant hash t (credentialUsername cid) tok' s') of
            Inr (Some a) \<Rightarrow>
              t < now + ACCESS_GRANT_CREDENTIAL_LIFETIME_MS \<and> hash tok' salt = hash tok salt
              \<and> grant_id (auth_grant a) = gid \<and> principalId (auth_grant a) = owner
              \<and> js_get (st_routes s) rid = Some (auth_route a) \<and> cred_id (auth_credential a) = cid
          | Inr None \<Rightarrow> \<not> (t < now + ACCESS_GRANT_CREDENTIAL_LIFETIME_MS \<and> hash tok' salt = hash tok salt)
          | Inl e \<Rightarrow> False)"
proof -
  from created obtain r where r: "route_get rid False s = Inr r" and new: "\<not> js_has (st_grants s) gid"
    and g: "g = \<lparr>grant_id = gid, grant_routeId = rid, principalId = owner, grant_jobId = jid,
         credentials = [createStoredCredential hash salt cid tok mode now sid],
         grant_status = GrantReady, grant_terminateActive = False, grant_createdAt = now, grant_updatedAt = now\<rparr>"
    and s': "s' = s\<lparr>st_grants := js_set (st_grants s) gid g\<rparr>"
    by (auto simp: createAccessGrant_def Let_def split: sum.splits if_splits)
  have rt: "js_get (st_routes s) rid = Some r" "route_status r \<noteq> RouteRevoked"
    using r by (auto simp: route_get_def split: option.splits if_splits)
  have "List.find (\<lambda>(k, g). grant_offers (credentialUsername cid) g) (st_grants s) = None"
    using unused by (auto simp: find_None_iff list_all_iff js_values_def)
  then have "List.find (\<lambda>(k, g). grant_offers (credentialUsername cid) g) (st_grants s') = Some (gid, g)"
    by (simp add: s' js_set_append_new [OF new] find_None_append)
       (simp add: g grant_offers_def createStoredCredential_def)
  then show ?thesis
    using rt new_credential_usable [of hash salt cid tok mode now sid t]
    by (simp add: authenticateAccessGrant_def s' g Let_def credential_matches_def)
       (auto simp: createStoredCredential_def)
qed

theorem created_grant_authenticates_witness:
  "\<exists>g s'. createAccessGrant sample_hash ''s'' 9 ''k'' ''r'' ''o'' ''x'' ''t'' Stateless None None sample_store = (Inr g, s')
     \<and> fst (authenticateAccessGrant sample_hash 10 ''pxy_x'' ''t'' s') \<noteq> Inr None"
proof -
  let ?r = "createAccessGrant sample_hash ''s'' 9 ''k'' ''r'' ''o'' ''x'' ''t'' Stateless None None sample_store"
  have "\<exists>g. fst ?r = Inr g" unfolding sample_store_def by (simp add: sample_commands_def empty_store_def
      route_create_def createAccessGrant_def route_get_def Let_def js_has_def RouteProfile.defs StoredRoute.defs)
  then obtain g s' where r: "?r = (Inr g, s')" by (metis prod.collapse)
  have u: "list_all (\<lambda>g. \<not> grant_offers (credentialUsername ''x'') g) (js_values (st_grants sample_store))"
    by code_simp
  from created_grant_authenticates [OF r u, where t = 10 and tok' = "''t''"] r show ?thesis
    by (auto simp: credentialUsername_def credential_policy split: sum.splits option.splits)
qed

text \<open>
  Rotating a credential: the grant keeps its credentials in place and gains one at the end,
  which is usable for a full lifetime and inherits the session of the one it replaces. The
  replaced credential stays usable for the overlap at most and never past its own expiry, or not at
  all when it was compromised; every other credential is as usable as before. The epoch moves.
\<close>

theorem rotation_overlap:
  assumes "rotateAccessGrantCredential hash salt now gid prev cid tok sus s = (Inr g', s')"
    and "js_get (st_grants s) gid = Some g"
  shows "length (credentials g') = Suc (length (credentials g))
    \<and> (i < length (credentials g) \<longrightarrow>
        (credentialUsable (credentials g' ! i) t \<longleftrightarrow>
          (if cred_id (credentials g ! i) = prev \<and> credentialUsable (credentials g ! i) now
           then \<not> sus \<and> t < expiresAt (credentials g ! i) \<and> t < now + ACCESS_GRANT_CREDENTIAL_OVERLAP_MS
           else credentialUsable (credentials g ! i) t)))
    \<and> (credentialUsable (last (credentials g')) t \<longleftrightarrow> t < now + ACCESS_GRANT_CREDENTIAL_LIFETIME_MS)
    \<and> (\<exists>c \<in> set (credentials g). cred_id c = prev \<and> credentialUsable c now
          \<and> cred_sessionId (last (credentials g')) = cred_sessionId c
          \<and> cred_sessionMode (last (credentials g')) = cred_sessionMode c)
    \<and> authorizationEpoch s < authorizationEpoch s'
    \<and> js_get (st_grants s') gid = Some g'"
proof -
  from assms obtain p where p: "List.find (\<lambda>c. cred_id c = prev) (credentials g) = Some p" "credentialUsable p now"
    and g': "g' = g\<lparr>credentials := map (rotate_credential now prev sus) (credentials g)
             @ [createStoredCredential hash salt cid tok (cred_sessionMode p) now (cred_sessionId p)],
           grant_updatedAt := now\<rparr>"
    and s': "s' = bumpAuthorizationEpoch (s\<lparr>st_grants := js_set (st_grants s) gid g'\<rparr>)"
    by (auto simp: rotateAccessGrantCredential_def Let_def split: option.splits if_splits)
  have usable: "credentialUsable (rotate_credential now prev sus c) t \<longleftrightarrow>
      (if cred_id c = prev \<and> credentialUsable c now
       then \<not> sus \<and> t < expiresAt c \<and> t < now + ACCESS_GRANT_CREDENTIAL_OVERLAP_MS
       else credentialUsable c t)" for c
    by (auto simp: rotate_credential_def credentialUsable_def)
  from find_SomeD [OF p(1)] p(2) have "\<exists>c \<in> set (credentials g). cred_id c = prev \<and> credentialUsable c now
      \<and> cred_sessionId (last (credentials g')) = cred_sessionId c
      \<and> cred_sessionMode (last (credentials g')) = cred_sessionMode c"
    by (intro bexI [of _ p]) (simp_all add: g' createStoredCredential_def)
  then show ?thesis
    by (simp add: g' s' nth_append usable new_credential_usable)
qed

theorem rotation_overlap_witness:
  "\<exists>g g' s'. js_get (st_grants sample_store) ''g'' = Some g
     \<and> rotateAccessGrantCredential sample_hash ''z'' 100 ''g'' ''c'' ''e'' ''t2'' False sample_store = (Inr g', s')
     \<and> credentialUsable (credentials g' ! 0) (100 + 71 * 3600000)
     \<and> \<not> credentialUsable (credentials g' ! 0) (100 + 72 * 3600000)"
proof -
  let ?r = "rotateAccessGrantCredential sample_hash ''z'' 100 ''g'' ''c'' ''e'' ''t2'' False sample_store"
  let ?g = "the (js_get (st_grants sample_store) ''g'')" and ?g' = "projr (fst ?r)"
  have r: "?r = (Inr ?g', snd ?r)" by code_simp
  have g: "js_get (st_grants sample_store) ''g'' = Some ?g" by code_simp
  have c: "0 < length (credentials ?g)" "cred_id (credentials ?g ! 0) = ''c''"
    "credentialUsable (credentials ?g ! 0) 100" "100 + 71 * 3600000 < expiresAt (credentials ?g ! 0)"
    by code_simp+
  note rot = rotation_overlap [OF r g, of 0]
  have "credentialUsable (credentials ?g' ! 0) (100 + 71 * 3600000)"
    and "\<not> credentialUsable (credentials ?g' ! 0) (100 + 72 * 3600000)"
    using rot [of "100 + 71 * 3600000"] rot [of "100 + 72 * 3600000"] c by (simp_all add: credential_policy)
  with r g show ?thesis by blast
qed

subsection \<open>Revoking a grant\<close>

lemma close_session_closes:
  "js_get (st_sessions s) sid = Some x \<Longrightarrow>
   \<exists>x'. js_get (st_sessions (snd (closeLogicalSession now t sid s))) sid = Some x' \<and> session_status x' = SessionClosed"
  by (auto simp: closeLogicalSession_def getLogicalSession_def)

lemma close_each_closes:
  assumes "y \<in> set ys" and "\<And>z. z \<in> set ys \<Longrightarrow> js_has (st_sessions s) (session_id z)"
  shows "\<exists>x. js_get (st_sessions (snd (for_each_op (\<lambda>z. closeLogicalSession now t (session_id z)) ys s))) (session_id y)
             = Some x \<and> session_status x = SessionClosed"
  using assms
proof (induction ys arbitrary: s)
  case (Cons z ys)
  obtain s1 where s1: "closeLogicalSession now t (session_id z) s = (Inr (), s1)"
    using closeLogicalSession_ok [of s "session_id z" now t] Cons.prems(2)
    by (metis list.set_intros(1) prod.collapse)
  have has: "js_has (st_sessions s1) (session_id w)" if "w \<in> set ys" for w
    using closeLogicalSession_has [of now t "session_id z" s "session_id w"] s1 Cons.prems(2) that by simp
  show ?case
  proof (cases "y \<in> set ys")
    case True
    from Cons.IH [OF this has] s1 show ?thesis by simp
  next
    case False
    with Cons.prems have y: "y = z" and "js_has (st_sessions s) (session_id z)" by auto
    then obtain x where "js_get (st_sessions s) (session_id z) = Some x" by (auto simp: js_has_def)
    from close_session_closes [OF this, of now t] s1
    obtain x' where x': "js_get (st_sessions s1) (session_id z) = Some x'" "session_status x' = SessionClosed" by auto
    have "session_kept (session_id z) x' s1" using x' by (simp add: session_kept_def)
    from close_each_kept [OF this, of now t ys] x'(2) s1 y show ?thesis
      by (auto simp: session_kept_def session_evolves_def)
  qed
qed simp

text \<open>
  C18. Revoking an existing grant always succeeds, whatever its state: the grant is revoked, the
  termination order is recorded when it was asked for, every logical session of the grant is
  closed, and the epoch is strictly larger, so that gateways notice. A missing grant is reported as
  not found and nothing changes.
\<close>

theorem revoke_grant_complete:
  assumes "store_inv s"
  shows "case js_get (st_grants s) gid of
      None \<Rightarrow> revokeAccessGrant now gid t s = (Inl (throw notFoundError), s)
    | Some g \<Rightarrow> \<exists>s' g'. revokeAccessGrant now gid t s = (Inr (), s')
        \<and> js_get (st_grants s') gid = Some g' \<and> grant_status g' = GrantRevoked
        \<and> (t \<longrightarrow> grant_terminateActive g' \<and> shouldTerminateActive (grant_routeId g) (Some gid) None s')
        \<and> authorizationEpoch s < authorizationEpoch s'
        \<and> list_all (\<lambda>x. \<exists>x'. js_get (st_sessions s') (session_id x) = Some x' \<and> session_status x' = SessionClosed)
            (listLogicalSessions gid s)"
proof (cases "js_get (st_grants s) gid")
  case (Some g)
  let ?s0 = "s\<lparr>st_grants := js_set (st_grants s) gid (revoked_grant now t g)\<rparr>"
  obtain s1 where s1: "closeLogicalSessions now t gid ?s0 = (Inr (), s1)"
      "revokeAccessGrant now gid t s = (Inr (), bumpAuthorizationEpoch s1)"
      "st_grants s1 = js_set (st_grants s) gid (revoked_grant now t g)"
      "authorizationEpoch s \<le> authorizationEpoch s1"
    by (rule revokeAccessGrant_run [OF assms Some, of now t])
  have sessions: "listLogicalSessions gid ?s0 = listLogicalSessions gid s" by (simp add: listLogicalSessions_def)
  have keyed: "keyed session_id (st_sessions s)" using assms by (simp add: store_inv_def)
  have "\<exists>x'. js_get (st_sessions s1) (session_id x) = Some x' \<and> session_status x' = SessionClosed"
    if "x \<in> set (listLogicalSessions gid s)" for x
    using close_each_closes [of x "listLogicalSessions gid s" ?s0 now t] that s1(1)
      listLogicalSessions_has [OF keyed, of _ gid]
    by (auto simp: closeLogicalSessions_def sessions js_has_def)
  with s1 Some show ?thesis
    by (auto simp: list_all_iff revoked_grant_def shouldTerminateActive_def)
qed (simp add: revokeAccessGrant_missing)

theorem revoke_grant_complete_witness:
  "store_inv sample_store \<and> (\<exists>s'. revokeAccessGrant 5 ''g'' True sample_store = (Inr (), s')
     \<and> authorizationEpoch sample_store < authorizationEpoch s')"
proof -
  have inv: "store_inv sample_store" unfolding sample_store_def by (rule wf.run_keeps [OF store_inv_empty])
  have "js_get (st_grants sample_store) ''g'' \<noteq> None" by code_simp
  with revoke_grant_complete [OF inv, where gid = "''g''" and now = 5 and t = True] inv show ?thesis by auto
qed

subsection \<open>Compare-and-set of sessions\<close>

text \<open>
  The writers of the service derive the record they save from the one they read: with the next
  binding version when they rebind the session (\<open>route-service.ts\<close>), with the same one when they
  only record a disconnection (\<open>active-connection-tracker.ts\<close>).
\<close>

fun disciplined :: "store_command \<Rightarrow> bool" where
  "disciplined (CmdSaveSession x v) = (bindingVersion x = v \<or> bindingVersion x = v + 1)"
| "disciplined _ = True"

definition version_reached :: "string \<Rightarrow> int \<Rightarrow> StoreState \<Rightarrow> bool" where
  "version_reached sid v s \<longleftrightarrow> (\<exists>x. js_get (st_sessions s) sid = Some x \<and> v \<le> bindingVersion x)"

lemma version_close: "version_reached sid v s \<Longrightarrow> version_reached sid v (snd (closeLogicalSession now t i s))"
  by (auto simp: version_reached_def closeLogicalSession_def getLogicalSession_def split: option.split)

lemma version_close_all: "version_reached sid v s \<Longrightarrow> version_reached sid v (snd (closeLogicalSessions now t gid s))"
  unfolding closeLogicalSessions_def
  by (rule for_each_op_preserves [where P = "version_reached sid v"]) (auto intro: version_close)

lemma version_revoke:
  assumes "version_reached sid v s"
  shows "version_reached sid v (snd (revokeAccessGrant now gid t s))"
proof (cases "js_get (st_grants s) gid")
  case (Some g)
  have "version_reached sid v (s\<lparr>st_grants := js_set (st_grants s) gid (revoked_grant now t g)\<rparr>)"
    using assms by (simp add: version_reached_def)
  then have "version_reached sid v (snd (bind_op (closeLogicalSessions now t gid)
      (\<lambda>_ s. (Inr (), bumpAuthorizationEpoch s)) (s\<lparr>st_grants := js_set (st_grants s) gid (revoked_grant now t g)\<rparr>)))"
    by (rule bind_op_preserves [where P = "version_reached sid v", rotated 2])
       (rule version_close_all, assumption, simp add: version_reached_def)
  with Some show ?thesis by (simp add: revokeAccessGrant_def Let_def revoked_grant_def)
qed (use assms in \<open>simp add: revokeAccessGrant_missing\<close>)

lemma version_exec:
  assumes "version_reached sid v s" and "disciplined c"
  shows "version_reached sid v (exec hash c s)"
proof (cases "core_command c")
  case False
  with exec_same_core [OF this, of s hash] assms(1) show ?thesis by (simp add: same_core_def version_reached_def)
next
  case True
  have frame: "version_reached sid v s'" if "st_sessions s' = st_sessions s" for s'
    using assms(1) that by (simp add: version_reached_def)
  have save: "version_reached sid v (snd (saveLogicalSession x w s))" if "bindingVersion x = w \<or> bindingVersion x = w + 1" for x w
    using assms(1) that by (auto simp: version_reached_def saveLogicalSession_def split: option.split)
  have create: "version_reached sid v (snd (createLogicalSession x s))" for x
    using assms(1) by (auto simp: version_reached_def createLogicalSession_def js_has_def)
  from True assms(2) show ?thesis
    by (cases c) (simp_all add: frame route_ops_frame grant_ops_frame [unfolded grants_frame_def]
        save create version_close [OF assms(1)] version_revoke [OF assms(1)])
qed

lemma version_run: "version_reached sid v s \<Longrightarrow> list_all disciplined cs \<Longrightarrow> version_reached sid v (run hash cs s)"
  by (induction cs arbitrary: s) (auto intro: version_exec)


definition sample_session :: StoredLogicalSession where
  "sample_session = \<lparr>session_id = ''x'', session_grantId = ''g'', session_routeId = ''r'',
     session_status = SessionOpen, session_terminateActive = False, bindingVersion = 0, affinity = None,
     preferredClassHealthySince = None, lastDisconnectedAt = None, closedAt = None,
     session_createdAt = 0, session_updatedAt = 0\<rparr>"


subsection \<open>Connection counts\<close>

lemma get_increment: "js_get (increment m k) k' = (if k' = k then Some (case js_get m k of None \<Rightarrow> 1 | Some n \<Rightarrow> n + 1) else js_get m k')"
  by (simp add: increment_def)

definition slot_occupies :: "timestamp \<Rightarrow> ProviderId \<Rightarrow> string \<Rightarrow> ActiveTunnel \<Rightarrow> bool" where
  "slot_occupies now provider e t \<longleftrightarrow> now < tun_expiresAt t \<and> tun_provider t = provider \<and> tun_endpointId t = Some e"

lemma slot_load_counts_get:
  assumes "has candidates e"
  shows "(case js_get (slot_load_counts now provider candidates ts) e of None \<Rightarrow> 0 | Some n \<Rightarrow> n)
       = length (filter (slot_occupies now provider e) ts)"
proof (induction ts rule: rev_induct)
  case Nil
  then show ?case by (simp add: slot_load_counts_def)
next
  case (snoc t ts)
  then show ?case
    using assms
    by (auto simp: slot_load_counts_def slot_occupies_def get_increment split: option.splits)
qed

text \<open>
  Claiming a slot counts truthfully: the number reported with a claimed tunnel is the number of
  live tunnels of the provider on the chosen endpoint, the new one included, and the claim is
  visible: exactly the new tunnel has been added. When the selector refuses, or chooses an endpoint
  that was not offered, nothing is claimed.
\<close>

theorem claimed_slot_is_counted:
  "case claimActiveTunnelSlot now provider candidates sel mk s of
     (Inl e, s') \<Rightarrow> s' = s
   | (Inr (t, n), s') \<Rightarrow>
       (\<exists>e. has candidates e \<and> t = mk e \<and> sel (slot_load_counts now provider candidates (js_values (st_tunnels s))) = Inr e
            \<and> n = Suc (length (filter (slot_occupies now provider e) (js_values (st_tunnels s)))))
       \<and> \<not> js_has (st_tunnels s) (tun_id t)
       \<and> st_tunnels s' = st_tunnels s @ [(tun_id t, t)]"
  using slot_load_counts_get [where candidates = candidates and now = now and provider = provider
      and ts = "js_values (st_tunnels s)"]
  by (auto simp: claimActiveTunnelSlot_def Let_def registerActiveTunnel_def bind_op_def js_set_append_new
      split: sum.splits)

lemma get_count_if_present:
  "js_get (count_if_present m k) k' = (if k' = k then map_option Suc (js_get m k) else js_get m k')"
  by (auto simp: count_if_present_def get_increment js_has_def)

lemma get_zero_counts: "js_get (zero_counts ks) k = (if k \<in> set ks then Some 0 else None)"
proof -
  have "js_get (foldl (\<lambda>m (k, v). js_set m k v) m (map (\<lambda>k. (k, 0)) ks)) k
      = (if k \<in> set ks then Some 0 else js_get m k)" for m :: "('a, nat) js_map"
    by (induction ks arbitrary: m) auto
  then show ?thesis by (simp add: zero_counts_def js_of_entries_def)
qed

definition counts_by :: "('t \<Rightarrow> 'k option) \<Rightarrow> 'k list \<Rightarrow> 't list \<Rightarrow> ('k, nat) js_map" where
  "counts_by key ks ts =
     foldl (\<lambda>m t. case key t of None \<Rightarrow> m | Some k \<Rightarrow> count_if_present m k) (zero_counts ks) ts"

lemma get_counts_by:
  "js_get (counts_by key ks ts) k
   = (if k \<in> set ks then Some (length (filter (\<lambda>t. key t = Some k) ts)) else None)"
  by (induction ts rule: rev_induct)
     (auto simp: counts_by_def get_zero_counts get_count_if_present split: option.splits)

lemma foldl_triple:
  "foldl (\<lambda>(a, b, c) t. (f a t, g b t, h c t)) (a, b, c) ts = (foldl f a ts, foldl g b ts, foldl h c ts)"
  by (induction ts arbitrary: a b c) auto

definition live_tunnels :: "timestamp \<Rightarrow> StoreState \<Rightarrow> ActiveTunnel list" where
  "live_tunnels now s = filter (\<lambda>t. now < tun_expiresAt t) (js_values (st_tunnels s))"

lemma listAll_count: "length (filter P (listAllActiveTunnels lc now s)) = length (filter P (live_tunnels now s))"
  unfolding listAllActiveTunnels_def live_tunnels_def by (metis mset_filter mset_js_sort size_mset)

text \<open>
  The connection counts a routing decision reads are the numbers of live tunnels: for every
  provider and session asked for, the tunnels of it that have not expired, and for every endpoint
  the tunnels on it, restricted to the provider when exactly one was asked for. Nothing else is
  reported, and the order in which tunnels are listed does not matter.
\<close>

theorem connection_counts_exact:
  "case getActiveConnectionCounts lc now providers endpoints sids s of (pc, ec, sc) \<Rightarrow>
     js_get pc p = (if p \<in> set providers
        then Some (length (filter (\<lambda>t. tun_provider t = p) (live_tunnels now s))) else None)
   \<and> js_get ec e = (if e \<in> set endpoints
        then Some (length (filter (\<lambda>t. tun_endpointId t = Some e
                     \<and> (if length providers = 1 then tun_provider t = hd providers else True)) (live_tunnels now s))) else None)
   \<and> js_get sc i = (if i \<in> set sids
        then Some (length (filter (\<lambda>t. tun_sessionId t = Some i) (live_tunnels now s))) else None)"
proof -
  let ?on = "\<lambda>t. if length providers \<noteq> 1 \<or> tun_provider t = hd providers then tun_endpointId t else None"
  let ?ts = "listAllActiveTunnels lc now s"
  have ec: "(case tun_endpointId t of None \<Rightarrow> m | Some e \<Rightarrow>
        if length providers \<noteq> 1 \<or> tun_provider t = hd providers then count_if_present m e else m)
      = (case ?on t of None \<Rightarrow> m | Some e \<Rightarrow> count_if_present m e)" for t m
    by (simp split: option.split)
  have counts: "getActiveConnectionCounts lc now providers endpoints sids s =
      (counts_by (\<lambda>t. Some (tun_provider t)) providers ?ts, counts_by ?on endpoints ?ts, counts_by tun_sessionId sids ?ts)"
    unfolding getActiveConnectionCounts_def ec by (simp add: foldl_triple counts_by_def)
  have on: "(\<lambda>t. ?on t = Some e)
      = (\<lambda>t. tun_endpointId t = Some e \<and> (if length providers = 1 then tun_provider t = hd providers else True))"
    by (rule ext) auto
  show ?thesis
    unfolding counts prod.case get_counts_by on listAll_count by simp
qed

subsection \<open>Updating a route\<close>

text \<open>
  Updating a route replaces its required properties, but an optional one that the new profile
  leaves out keeps its previous value: a geography, carrier or provider override, once set, cannot
  be removed through the in-memory store.
\<close>

theorem update_cannot_clear_optionals:
  assumes "route_update now rid p s = (Inr r', s')"
  shows "\<exists>r. js_get (st_routes s) rid = Some r \<and> js_get (st_routes s') rid = Some r'
    \<and> targeting r' = targeting p \<and> customerId r' = customerId p \<and> route_createdAt r' = route_createdAt r
    \<and> (geography p = None \<longrightarrow> geography r' = geography r)
    \<and> (rp_carrier p = None \<longrightarrow> rp_carrier r' = rp_carrier r)
    \<and> (providerOverride p = None \<longrightarrow> providerOverride r' = providerOverride r)"
proof -
  from assms obtain r where r: "route_get rid False s = Inr r"
    and r': "r' = (spread_profile r p)\<lparr>route_status := RouteReady, route_updatedAt := now\<rparr>"
    and s': "s' = bumpAuthorizationEpoch (s\<lparr>st_routes := js_set (st_routes s) rid r'\<rparr>)"
    by (auto simp: route_update_def Let_def split: sum.splits)
  from route_get_Inr [OF r] show ?thesis by (simp add: r' s' spread_profile_def)
qed

theorem update_cannot_clear_optionals_witness:
  "let s = run sample_hash [CmdCreateRoute 0 ''r'' (sample_profile\<lparr>providerOverride := Some ''p''\<rparr>)] empty_store
   in \<exists>r' s'. route_update 1 ''r'' sample_profile s = (Inr r', s') \<and> providerOverride r' = Some ''p''"
proof -
  let ?s = "run sample_hash [CmdCreateRoute 0 ''r'' (sample_profile\<lparr>providerOverride := Some ''p''\<rparr>)] empty_store"
  let ?u = "route_update 1 ''r'' sample_profile ?s"
  have u: "?u = (Inr (projr (fst ?u)), snd ?u)" by code_simp
  have "providerOverride (the (js_get (st_routes ?s) ''r'')) = Some ''p''" "providerOverride sample_profile = None"
    by code_simp+
  with update_cannot_clear_optionals [OF u] u show ?thesis by (auto simp: Let_def simp del: run.simps)
qed

end
