(* ===== verification/Health_Store.thy ===== *)
theory Health_Store
  imports Route_Store
begin

text \<open>
  The remaining tables of \<open>src/in-memory-route-store.ts\<close> (provider health, inventories, capability
  health, health alerts and their deliveries) and \<open>src/in-memory-usage-repository.ts\<close> (usage
  records, rollups, reconciliations, usage alerts, capacity evidence). Dates are compared as
  \<open>localeCompare\<close> of ISO strings, which for dates of equal length is the order of the instants.
\<close>

subsection \<open>Provider health and inventory\<close>

definition saveHealth :: "ProviderHealth \<Rightarrow> StoreState \<Rightarrow> StoreState" where
  "saveHealth h s = s\<lparr>st_health := js_set (st_health s) (ph_provider h) h\<rparr>"

definition listHealth :: "string comparator \<Rightarrow> StoreState \<Rightarrow> ProviderHealth list" where
  "listHealth lc s = js_sort (\<lambda>a b. lc (ph_provider a) (ph_provider b)) (js_values (st_health s))"

definition saveProviderInventory :: "ProviderInventorySnapshot \<Rightarrow> StoreState \<Rightarrow> StoreState" where
  "saveProviderInventory snapshot s = s\<lparr>st_inventory := js_set (st_inventory s) (inv_provider snapshot) snapshot\<rparr>"

definition latestProviderInventory :: "ProviderId \<Rightarrow> StoreState \<Rightarrow> ProviderInventorySnapshot option" where
  "latestProviderInventory provider s = js_get (st_inventory s) provider"

definition listProviderInventories :: "string comparator \<Rightarrow> StoreState \<Rightarrow> ProviderInventorySnapshot list" where
  "listProviderInventories lc s = js_sort (\<lambda>a b. lc (inv_provider a) (inv_provider b)) (js_values (st_inventory s))"

subsection \<open>Capability health\<close>

definition saveCapabilityHealth :: "CapabilityHealthSnapshot \<Rightarrow> StoreState \<Rightarrow> StoreState" where
  "saveCapabilityHealth snapshot s =
     s\<lparr>st_capabilityHealth := js_set (st_capabilityHealth s) (snap_id snapshot) snapshot\<rparr>"

definition newest_first :: "('a \<Rightarrow> timestamp) \<Rightarrow> 'a comparator" where
  "newest_first f = by_key (\<lambda>x. - f x)"

definition capabilityHealthHistory :: "nat \<Rightarrow> StoreState \<Rightarrow> CapabilityHealthSnapshot list" where
  "capabilityHealthHistory limit s =
     take limit (js_sort (newest_first generatedAt) (js_values (st_capabilityHealth s)))"

definition latestCapabilityHealth :: "StoreState \<Rightarrow> CapabilityHealthSnapshot option" where
  "latestCapabilityHealth s = (case capabilityHealthHistory 1 s of [] \<Rightarrow> None | x # _ \<Rightarrow> Some x)"

subsection \<open>Health alerts\<close>

definition getHealthAlertState :: "CapabilityName \<Rightarrow> StoreState \<Rightarrow> HealthAlertState option" where
  "getHealthAlertState capability s = js_get (st_healthAlertStates s) capability"

definition saveHealthAlertState :: "HealthAlertState \<Rightarrow> StoreState \<Rightarrow> StoreState" where
  "saveHealthAlertState st s =
     s\<lparr>st_healthAlertStates := js_set (st_healthAlertStates s) (as_capability st) st\<rparr>"

definition deliveryKey :: "string \<Rightarrow> string \<Rightarrow> string" where
  "deliveryKey alert destination = alert @ '':'' @ destination"

definition pendingDelivery :: "HealthAlertEvent \<Rightarrow> string \<Rightarrow> HealthAlertDelivery" where
  "pendingDelivery event destination =
     \<lparr>alertId = alert_id event, destinationId = destination, delivery_status = DeliveryPending,
      attemptCount = 0, nextAttemptAt = alert_createdAt event, lastAttemptAt = None,
      deliveredAt = None, responseStatus = None, delivery_error = None, delivery_event = event\<rparr>"

definition addDelivery ::
  "HealthAlertEvent \<Rightarrow> (string, HealthAlertDelivery) js_map \<Rightarrow> string \<Rightarrow> (string, HealthAlertDelivery) js_map" where
  "addDelivery event ds destination =
     (if js_has ds (deliveryKey (alert_id event) destination) then ds
      else js_set ds (deliveryKey (alert_id event) destination) (pendingDelivery event destination))"

definition createHealthAlertEvent :: "HealthAlertEvent \<Rightarrow> string list \<Rightarrow> bool store_op" where
  "createHealthAlertEvent event destinationIds s =
     (let existingId = js_get (st_healthAlertEventIdsByDedupeKey s) (dedupeKey event)
      in case (case existingId of None \<Rightarrow> Some event | Some i \<Rightarrow> js_get (st_healthAlertEvents s) i) of
           None \<Rightarrow> (Inl (throw_error ''persisted_health_alert_event_missing''), s)
         | Some persisted \<Rightarrow>
             let s1 = (if existingId = None
                       then s\<lparr>st_healthAlertEvents := js_set (st_healthAlertEvents s) (alert_id event) event,
                              st_healthAlertEventIdsByDedupeKey :=
                                js_set (st_healthAlertEventIdsByDedupeKey s) (dedupeKey event) (alert_id event)\<rparr>
                       else s)
             in (Inr (existingId = None),
                 s1\<lparr>st_healthAlertDeliveries :=
                      foldl (addDelivery persisted) (st_healthAlertDeliveries s1) destinationIds\<rparr>))"

definition pendingHealthAlertDeliveries :: "timestamp \<Rightarrow> nat \<Rightarrow> StoreState \<Rightarrow> HealthAlertDelivery list" where
  "pendingHealthAlertDeliveries dueBefore limit s =
     take limit (js_sort (by_key nextAttemptAt)
       (filter (\<lambda>d. delivery_status d = DeliveryPending \<and> nextAttemptAt d \<le> dueBefore)
          (js_values (st_healthAlertDeliveries s))))"

definition saveHealthAlertDelivery :: "HealthAlertDelivery \<Rightarrow> StoreState \<Rightarrow> StoreState" where
  "saveHealthAlertDelivery d s =
     s\<lparr>st_healthAlertDeliveries :=
         js_set (st_healthAlertDeliveries s) (deliveryKey (alertId d) (destinationId d)) d\<rparr>"

definition healthAlertHistory :: "nat \<Rightarrow> StoreState \<Rightarrow> HealthAlertEvent list" where
  "healthAlertHistory limit s = take limit (js_sort (newest_first alert_createdAt) (js_values (st_healthAlertEvents s)))"

subsection \<open>Usage\<close>

definition recordUsage :: "UsageRecord \<Rightarrow> StoreState \<Rightarrow> bool \<times> StoreState" where
  "recordUsage r s =
     (if js_has (st_usageRecords s) (ur_id r) then (False, s)
      else (True, s\<lparr>st_usageRecords := js_set (st_usageRecords s) (ur_id r) r\<rparr>))"

definition listUsageRecords :: "timestamp \<Rightarrow> timestamp \<Rightarrow> nat option \<Rightarrow> bool \<Rightarrow> StoreState \<Rightarrow> UsageRecord list" where
  "listUsageRecords from to limit newestFirst s =
     (let records = js_sort (if newestFirst then newest_first completedAt else by_key completedAt)
            (filter (\<lambda>r. from \<le> completedAt r \<and> completedAt r < to) (js_values (st_usageRecords s)))
      in take (case limit of None \<Rightarrow> length records | Some n \<Rightarrow> n) records)"

definition saveUsageRollup :: "UsageRollup \<Rightarrow> StoreState \<Rightarrow> StoreState" where
  "saveUsageRollup r s = s\<lparr>st_usageRollups := js_set (st_usageRollups s) (ro_id r) r\<rparr>"

definition listUsageRollups :: "timestamp \<Rightarrow> timestamp \<Rightarrow> UsageInterval \<Rightarrow> StoreState \<Rightarrow> UsageRollup list" where
  "listUsageRollups from to interval s =
     js_sort (by_key ro_periodStartedAt)
       (filter (\<lambda>r. ro_interval r = interval \<and> from \<le> ro_periodStartedAt r \<and> ro_periodStartedAt r < to)
          (js_values (st_usageRollups s)))"

definition saveUsageReconciliation :: "UsageReconciliation \<Rightarrow> StoreState \<Rightarrow> bool \<times> StoreState" where
  "saveUsageReconciliation r s =
     (if js_has (st_usageReconciliations s) (rec_id r) then (False, s)
      else (True, s\<lparr>st_usageReconciliations := js_set (st_usageReconciliations s) (rec_id r) r\<rparr>))"

definition listUsageReconciliations :: "timestamp \<Rightarrow> timestamp \<Rightarrow> StoreState \<Rightarrow> UsageReconciliation list" where
  "listUsageReconciliations from to s =
     js_sort (by_key rec_periodStartedAt)
       (filter (\<lambda>r. from \<le> rec_periodStartedAt r \<and> rec_periodStartedAt r < to)
          (js_values (st_usageReconciliations s)))"

definition saveUsageAlertEvent :: "UsageAlertEvent \<Rightarrow> StoreState \<Rightarrow> bool \<times> StoreState" where
  "saveUsageAlertEvent e s =
     (if js_has (st_usageAlertEvents s) (ua_id e) then (False, s)
      else (True, s\<lparr>st_usageAlertEvents := js_set (st_usageAlertEvents s) (ua_id e) e\<rparr>))"

definition listUsageAlertEvents :: "timestamp \<Rightarrow> timestamp \<Rightarrow> StoreState \<Rightarrow> UsageAlertEvent list" where
  "listUsageAlertEvents from to s =
     js_sort (by_key ua_periodStartedAt)
       (filter (\<lambda>e. from \<le> ua_periodStartedAt e \<and> ua_periodStartedAt e < to) (js_values (st_usageAlertEvents s)))"

definition saveCapacityPressureEvidence :: "CapacityPressureEvidence \<Rightarrow> StoreState \<Rightarrow> StoreState" where
  "saveCapacityPressureEvidence e s =
     s\<lparr>st_capacityPressureEvidence := js_set (st_capacityPressureEvidence s) (cpe_id e) e\<rparr>"

definition listCapacityPressureEvidence :: "timestamp \<Rightarrow> StoreState \<Rightarrow> CapacityPressureEvidence list" where
  "listCapacityPressureEvidence observedAfter s =
     js_sort (by_key cpe_observedAt)
       (filter (\<lambda>e. observedAfter \<le> cpe_observedAt e) (js_values (st_capacityPressureEvidence s)))"

subsection \<open>Tables written once\<close>

text \<open>
  The contract of the three usage tables that accept an identifier once: a new identifier is stored
  and reported as new; a known one is refused and nothing changes. The accounting worker may
  therefore deliver the same entry any number of times.
\<close>

locale write_once =
  fixes table :: "StoreState \<Rightarrow> (string, 'v) js_map"
    and key :: "'v \<Rightarrow> string"
    and save :: "'v \<Rightarrow> StoreState \<Rightarrow> bool \<times> StoreState"
  assumes save_known: "js_has (table s) (key v) \<Longrightarrow> save v s = (False, s)"
    and save_new: "\<not> js_has (table s) (key v) \<Longrightarrow>
      fst (save v s) \<and> table (snd (save v s)) = js_set (table s) (key v) v"
begin

definition save_all :: "'v list \<Rightarrow> StoreState \<Rightarrow> StoreState" where
  "save_all vs s = foldl (\<lambda>s v. snd (save v s)) s vs"

lemma get_save:
  "js_get (table (snd (save v s))) k =
     (case js_get (table s) k of Some u \<Rightarrow> Some u | None \<Rightarrow> if k = key v then Some v else None)"
  using save_known [of s v] save_new [of s v]
  by (cases "js_has (table s) (key v)") (auto simp: js_has_def split: option.splits)

lemma save_all_keeps: "js_get (table s) k = Some v \<Longrightarrow> js_get (table (save_all vs s)) k = Some v"
  by (induction vs arbitrary: s) (simp_all add: save_all_def get_save)

lemma saved_is_stored: "fst (save v s) \<Longrightarrow> js_get (table (snd (save v s))) (key v) = Some v"
  using save_known [of s v] save_new [of s v] by (cases "js_has (table s) (key v)") auto

lemma first_write_wins:
  assumes "fst (save v s)" and "key w = key v"
  shows "js_get (table (save_all vs (snd (save v s)))) (key v) = Some v
    \<and> save w (save_all vs (snd (save v s))) = (False, save_all vs (snd (save v s)))"
  using save_all_keeps [OF saved_is_stored [OF assms(1)]] assms(2)
  by (auto simp: js_has_def intro!: save_known)

end

interpretation usage_records: write_once st_usageRecords ur_id recordUsage
  by unfold_locales (simp_all add: recordUsage_def)

interpretation usage_reconciliations: write_once st_usageReconciliations rec_id saveUsageReconciliation
  by unfold_locales (simp_all add: saveUsageReconciliation_def)

interpretation usage_alerts: write_once st_usageAlertEvents ua_id saveUsageAlertEvent
  by unfold_locales (simp_all add: saveUsageAlertEvent_def)

text \<open>
  Usage is accounted once: a usage record that was accepted is what its identifier yields after
  any further records are offered, and a later record with the same identifier is refused and
  changes nothing.
\<close>

theorem usage_recorded_once:
  assumes "recordUsage r s = (True, s0)" and "ur_id r' = ur_id r"
    and "s' = foldl (\<lambda>s r. snd (recordUsage r s)) s0 rs"
  shows "js_get (st_usageRecords s') (ur_id r) = Some r \<and> recordUsage r' s' = (False, s')"
  using usage_records.first_write_wins [of r s r' rs] assms by (simp add: usage_records.save_all_def)

definition sample_usage :: UsageRecord where
  "sample_usage = \<lparr>ur_kind = Attempt, ur_id = ''a'', logicalOperationId = ''o'', ur_jobId = None,
     ur_accessGrantId = ''g'', ur_sessionMode = None, ur_sessionId = None, ur_routeId = ''r'', ur_userId = ''u'',
     ur_customerId = ''k'', ur_provider = ''p'', ur_protocol = Http, ur_outcome = OutcomeSuccess, retryIndex = 0,
     failover = False, bytesSent = 1, bytesReceived = 2, latencyMs = Some 10, destinationDomain = None,
     destinationHost = None, destinationPort = None, destinationPathTemplate = None, ur_country = None,
     ur_city = None, ur_endpointId = Some ''e'', ur_proxySlotId = None, ur_deviceId = None,
     ur_upstreamConnectionId = None, connectionStartedAt = Some 100, connectionEndedAt = Some 400,
     ur_selectedSlotLoad = None, ur_capacityPressure = None, ur_capacityPressureProvider = None,
     ur_capacityConstraint = None, ur_establishmentWaitMs = None, ur_capacityPolicyVersion = None,
     ur_providerOverride = None, ur_capacityCircuitState = None, ur_capacityCircuitReason = None,
     ur_capacityCircuitCooldownUntil = None, ur_routingPolicyVersion = None, ur_routingScore = None,
     ur_routingScoreComponents = None, ur_sessionAffinityHit = None, ur_sessionRebindCause = None,
     ur_desiredProviderClass = None, ur_currentProviderClass = None, ur_degradedFallback = None,
     ur_failbackOutcome = None, pricingVersion = None, pricingModel = None, priceUsd = None,
     capacityState = None, ur_startedAt = 100, completedAt = 400\<rparr>"

theorem usage_recorded_once_witness:
  "\<exists>s. recordUsage sample_usage empty_store = (True, s)
     \<and> recordUsage (sample_usage\<lparr>bytesSent := 9\<rparr>) s = (False, s)"
proof -
  obtain s where s: "recordUsage sample_usage empty_store = (True, s)"
    by (simp add: recordUsage_def empty_store_def js_has_def)
  from usage_recorded_once [OF s, of "sample_usage\<lparr>bytesSent := 9\<rparr>" s "[]"] s show ?thesis by simp
qed

subsection \<open>Alert events are created once\<close>

definition alerts_wf :: "StoreState \<Rightarrow> bool" where
  "alerts_wf s \<longleftrightarrow>
     (\<forall>d i. js_get (st_healthAlertEventIdsByDedupeKey s) d = Some i \<longrightarrow>
        (\<exists>e. js_get (st_healthAlertEvents s) i = Some e \<and> alert_id e = i))"

lemma addDelivery_get:
  "js_get (addDelivery e ds d) k =
     (case js_get ds k of
        Some x \<Rightarrow> Some x
      | None \<Rightarrow> if k = deliveryKey (alert_id e) d then Some (pendingDelivery e d) else None)"
  by (auto simp: addDelivery_def js_has_def split: option.splits)

lemma addDeliveries_keep: "js_get ds k = Some x \<Longrightarrow> js_get (foldl (addDelivery e) ds dests) k = Some x"
  by (induction dests arbitrary: ds) (simp_all add: addDelivery_get)

lemma addDeliveries_has:
  "d \<in> set dests \<Longrightarrow> js_has (foldl (addDelivery e) ds dests) (deliveryKey (alert_id e) d)"
proof (induction dests arbitrary: ds)
  case (Cons a dests)
  show ?case
  proof (cases "d = a")
    case True
    have "\<exists>x. js_get (addDelivery e ds a) (deliveryKey (alert_id e) a) = Some x"
      by (cases "js_get ds (deliveryKey (alert_id e) a)") (simp_all add: addDelivery_get)
    with True show ?thesis by (auto simp: js_has_def dest: addDeliveries_keep)
  next
    case False
    with Cons show ?thesis by simp
  qed
qed simp

lemma addDeliveries_all: "list_all (\<lambda>d. js_has (foldl (addDelivery e) ds dests) (deliveryKey (alert_id e) d)) dests"
  by (simp add: list_all_iff addDeliveries_has)

lemma addDeliveries_idle:
  "(\<And>d. d \<in> set dests \<Longrightarrow> js_has ds (deliveryKey (alert_id e) d)) \<Longrightarrow> foldl (addDelivery e) ds dests = ds"
  by (induction dests) (simp_all add: addDelivery_def)

lemma addDeliveries_twice:
  "foldl (addDelivery e) (foldl (addDelivery e) ds dests) dests = foldl (addDelivery e) ds dests"
  by (rule addDeliveries_idle) (rule addDeliveries_has)

text \<open>
  Creating a health alert is idempotent and never fails: in a well-formed store the event is
  stored exactly when its deduplication key is new, every destination then has a delivery, a
  delivery that exists (delivered or failed already) is left alone, well-formedness is kept, and
  offering the same event and destinations again reports a duplicate and changes nothing.
\<close>

theorem alert_created_once:
  assumes "alerts_wf s"
  shows "\<exists>s' (e :: HealthAlertEvent). createHealthAlertEvent event dests s =
            (Inr (\<not> js_has (st_healthAlertEventIdsByDedupeKey s) (dedupeKey event)), s')
    \<and> alerts_wf s'
    \<and> list_all (\<lambda>d. js_has (st_healthAlertDeliveries s') (deliveryKey (alert_id e) d)) dests
    \<and> (js_get (st_healthAlertDeliveries s) k = Some x \<longrightarrow> js_get (st_healthAlertDeliveries s') k = Some x)
    \<and> js_get (st_healthAlertEventIdsByDedupeKey s') (dedupeKey event) = Some (alert_id e)
    \<and> createHealthAlertEvent event dests s' = (Inr False, s')"
proof (cases "js_get (st_healthAlertEventIdsByDedupeKey s) (dedupeKey event)")
  case None
  let ?ds = "foldl (addDelivery event) (st_healthAlertDeliveries s) dests"
  let ?s' = "s\<lparr>st_healthAlertEvents := js_set (st_healthAlertEvents s) (alert_id event) event,
      st_healthAlertEventIdsByDedupeKey := js_set (st_healthAlertEventIdsByDedupeKey s) (dedupeKey event) (alert_id event),
      st_healthAlertDeliveries := ?ds\<rparr>"
  have create: "createHealthAlertEvent event dests s = (Inr True, ?s')"
    using None by (simp add: createHealthAlertEvent_def Let_def)
  have again: "createHealthAlertEvent event dests ?s' = (Inr False, ?s')"
    by (simp add: createHealthAlertEvent_def Let_def addDeliveries_twice)
  have "alerts_wf ?s'" using assms by (auto simp: alerts_wf_def)
  with create again None show ?thesis
    by - (rule exI [of _ ?s'], rule exI [of _ event],
          simp add: addDeliveries_all addDeliveries_keep, simp add: js_has_def)
next
  case (Some i)
  with assms obtain e where e: "js_get (st_healthAlertEvents s) i = Some e" "i = alert_id e"
    unfolding alerts_wf_def by blast
  let ?s' = "s\<lparr>st_healthAlertDeliveries := foldl (addDelivery e) (st_healthAlertDeliveries s) dests\<rparr>"
  have create: "createHealthAlertEvent event dests s = (Inr False, ?s')"
    using Some e by (simp add: createHealthAlertEvent_def Let_def)
  have again: "createHealthAlertEvent event dests ?s' = (Inr False, ?s')"
    using Some e by (simp add: createHealthAlertEvent_def Let_def addDeliveries_twice)
  have "alerts_wf ?s'" using assms by (simp add: alerts_wf_def)
  with create again Some e show ?thesis
    by - (rule exI [of _ ?s'], rule exI [of _ e],
          simp add: addDeliveries_all addDeliveries_keep, simp add: js_has_def)
qed

definition sample_alert :: HealthAlertEvent where
  "sample_alert = \<lparr>alert_id = ''e'', dedupeKey = ''d'', alert_kind = Alert, alert_capability = AllTraffic,
     alert_status = Unavailable, previousStatus = None, alert_severity = SevCritical, alert_createdAt = 5,
     snapshotId = ''s'', configurationVersion = ''v'', alert_geographies = []\<rparr>"

theorem alert_created_once_witness:
  "alerts_wf empty_store \<and> (\<exists>s'. createHealthAlertEvent sample_alert [''x''] empty_store = (Inr True, s')
     \<and> createHealthAlertEvent sample_alert [''x''] s' = (Inr False, s'))"
proof -
  have wf: "alerts_wf empty_store" by (simp add: alerts_wf_def empty_store_def)
  have "\<not> js_has (st_healthAlertEventIdsByDedupeKey empty_store) (dedupeKey sample_alert)"
    by (simp add: empty_store_def js_has_def)
  with alert_created_once [OF wf, of sample_alert "[''x'']"] wf show ?thesis by auto
qed

end
