(* ===== verification/Provider_Selection.thy ===== *)
theory Provider_Selection
  imports Service_Policies Errors Health_Usage_Domain
begin

text \<open>
  \<open>src/provider-selection.ts\<close>: which providers can serve a profile, and which of them is chosen;
  with the provider boundary of \<open>src/providers/provider.ts\<close> as far as the core reads it. What an
  adapter answers (its candidates and which of them match) is data of the adapter record.
\<close>

record ProviderCandidate =
  cand_id :: string
  cand_healthy :: bool
  cand_inventory :: ProviderInventorySlot

record ProviderCandidateSource =
  cs_providerAccountId :: string
  cs_list :: "ProviderCandidate list result"
  cs_matches :: "ProviderCandidate \<Rightarrow> Targeting \<Rightarrow> bool"

record ProviderAdapter =
  descriptor :: ProviderDescriptor
  candidates :: "ProviderCandidateSource option"

definition TARGETING_KEYS :: "TargetingKey list" where
  "TARGETING_KEYS = [KCountry, KRegion, KCity, KPostalCode, KAsn, KCarrier]"

definition requiredRotation :: "SessionMode option \<Rightarrow> RotationMode option" where
  "requiredRotation mode =
     (case mode of None \<Rightarrow> None | Some Managed \<Rightarrow> Some RotManual | Some Stateless \<Rightarrow> Some RotPerRequest)"

definition providerCompatible ::
  "ProviderAdapter \<Rightarrow> 'r RouteProfile_scheme \<Rightarrow> DataPlaneProtocol option \<Rightarrow> ProxyTarget option \<Rightarrow>
   SessionMode option \<Rightarrow> bool" where
  "providerCompatible provider route protocol target sessionMode =
     (let caps = capabilities (descriptor provider);
          safety = (if protocol = Some Socks5 then safety_socks5 caps else safety_http caps);
          required = requiredRotation sessionMode;
          overflow = (required = Some RotPerRequest \<and> providerClass (descriptor provider) = DeviceBacked)
      in if safety = SafetyProviderTrusted \<and> providerNetworkScope caps \<noteq> ExternalPublicOnly then False
         else if (case protocol of Some p \<Rightarrow> \<not> has (clientProtocols caps) p | None \<Rightarrow> False) then False
         else if protocol = None \<and> \<not> list_ex (has (clientProtocols caps)) (allowedProtocols route) then False
         else if sessionMode = Some Managed \<and> \<not> sessions caps then False
         else if city (targeting route) \<noteq> None \<and> exactCity caps = CityUnsupported then False
         else if (case required of
                    None \<Rightarrow> \<not> has (cap_rotation caps) RotManual \<and> \<not> has (cap_rotation caps) RotPerRequest
                  | Some r \<Rightarrow> \<not> has (cap_rotation caps) r \<and> \<not> overflow) then False
         else if (case (target, targetPorts caps) of
                    (Some t, OnlyPorts ps) \<Rightarrow> \<not> has ps (pt_port t)
                  | _ \<Rightarrow> False) then False
         else if (case (country (targeting route), countries caps) of
                    (Some c, Some cs) \<Rightarrow> \<not> has cs c
                  | _ \<Rightarrow> False) then False
         else list_all (\<lambda>k. \<not> targeting_defines (targeting route) k \<or> has (cap_geography caps) k) TARGETING_KEYS)"

fun preferredProviderClass :: "SessionMode \<Rightarrow> ProviderClass" where
  "preferredProviderClass Managed = DeviceBacked"
| "preferredProviderClass Stateless = Residential"

definition class_rank :: "SessionMode option \<Rightarrow> ProviderAdapter \<Rightarrow> int" where
  "class_rank mode p =
     (case mode of
        None \<Rightarrow> 0
      | Some m \<Rightarrow> of_bool (providerClass (descriptor p) \<noteq> preferredProviderClass m))"

definition compareProviders :: "SessionMode option \<Rightarrow> ProviderId option \<Rightarrow> ProviderAdapter comparator" where
  "compareProviders mode currentProvider left right =
     (let classDifference = class_rank mode left - class_rank mode right
      in if classDifference \<noteq> 0 then classDifference
         else if Some (desc_id (descriptor left)) = currentProvider then -1
         else if Some (desc_id (descriptor right)) = currentProvider then 1
         else costRank (descriptor left) - costRank (descriptor right))"

definition selectCompatibleProvider ::
  "ProviderAdapter list \<Rightarrow> 'r RouteProfile_scheme \<Rightarrow> ProviderId option \<Rightarrow> SessionMode option \<Rightarrow> ProviderAdapter option" where
  "selectCompatibleProvider providers profile currentProvider mode =
     (case js_sort (compareProviders mode currentProvider)
             (filter (\<lambda>p. providerCompatible p profile None None mode
                \<and> (case providerOverride profile of None \<Rightarrow> True | Some i \<Rightarrow> desc_id (descriptor p) = i)) providers) of
        [] \<Rightarrow> None
      | p # _ \<Rightarrow> Some p)"

interpretation provider_order: total_preorder_comparator "compareProviders mode cur" for mode cur
  by unfold_locales (auto simp: compareProviders_def Let_def split: if_splits)

lemma compareProviders_le:
  "compareProviders mode cur p q \<le> 0 \<longleftrightarrow>
     class_rank mode p \<le> class_rank mode q
     \<and> (if class_rank mode p < class_rank mode q then True
        else if Some (desc_id (descriptor p)) = cur then True
        else Some (desc_id (descriptor q)) \<noteq> cur \<and> costRank (descriptor p) \<le> costRank (descriptor q))"
  by (auto simp: compareProviders_def Let_def)

definition eligible ::
  "'r RouteProfile_scheme \<Rightarrow> SessionMode option \<Rightarrow> ProviderAdapter \<Rightarrow> bool" where
  "eligible profile mode p \<longleftrightarrow>
     providerCompatible p profile None None mode
     \<and> (case providerOverride profile of None \<Rightarrow> True | Some i \<Rightarrow> desc_id (descriptor p) = i)"

text \<open>
  The chosen provider is the best one: no provider is chosen only if none is eligible
  (compatible and, under an override, the one asked for). Otherwise the choice is eligible, a
  provider of the preferred class is never passed over for one of another class, and among
  providers of equal class the current provider is kept or else none is cheaper.
\<close>

theorem selection_optimal:
  "case selectCompatibleProvider providers profile cur mode of
     None \<Rightarrow> list_all (\<lambda>q. \<not> eligible profile mode q) providers
   | Some p \<Rightarrow> p \<in> set providers \<and> eligible profile mode p
       \<and> list_all (\<lambda>q. class_rank mode p \<le> class_rank mode q
            \<and> (if class_rank mode p < class_rank mode q then True
               else if Some (desc_id (descriptor p)) = cur then True
               else Some (desc_id (descriptor q)) \<noteq> cur \<and> costRank (descriptor p) \<le> costRank (descriptor q)))
          (filter (eligible profile mode) providers)"
proof -
  let ?es = "filter (eligible profile mode) providers"
  have sel: "selectCompatibleProvider providers profile cur mode =
      (case js_sort (compareProviders mode cur) ?es of [] \<Rightarrow> None | p # _ \<Rightarrow> Some p)"
    by (simp add: selectCompatibleProvider_def eligible_def [abs_def])
  show ?thesis
  proof (cases "js_sort (compareProviders mode cur) ?es")
    case Nil
    then show ?thesis by (simp add: sel list_all_iff filter_empty_conv)
  next
    case (Cons p ps)
    then have "p \<in> set ?es" by (metis list.set_intros(1) set_js_sort)
    moreover have "compareProviders mode cur p q \<le> 0" if "q \<in> set ?es" for q
      using provider_order.js_sort_hd_least [OF Cons that] .
    ultimately show ?thesis
      by (simp add: sel Cons list_all_iff compareProviders_le)
  qed
qed

end
