(* ===== verification/Routing_Score.thy ===== *)
theory Routing_Score
  imports Complex_Main Service_Policies Health_Usage_Domain
begin

text \<open>
  The functions of \<open>src/routing-policy.ts\<close>: the score of a candidate, the choice within the top
  band and the evidence drawn from usage records. Numbers are reals: rounding of doubles is not
  modelled, and \<open>Number.isFinite\<close> holds of every real.
\<close>

record RoutingScoreInput =
  in_reliability :: real
  in_activeConnections :: real
  in_softConnections :: real
  in_observedMbps :: real
  in_plannedMbps :: real
  in_projectedPeriodGb :: real
  in_prioritizedPeriodGb :: real
  in_performance :: real
  in_expectedCostUsd :: real
  in_stability :: real

record CandidateScore =
  cand_score :: real
  cand_components :: RoutingScoreComponents
  cand_saturated :: bool

definition unit_score :: "real \<Rightarrow> real" where
  "unit_score v = min 1 (max 0 v)"

definition share :: "real \<Rightarrow> real \<Rightarrow> real" where
  "share used limit = (if limit \<le> 0 then 1 else used / limit)"

definition utilization :: "RoutingScoreInput \<Rightarrow> real" where
  "utilization c =
     max (share (in_activeConnections c) (in_softConnections c))
       (max (share (in_observedMbps c) (in_plannedMbps c))
            (share (in_projectedPeriodGb c) (in_prioritizedPeriodGb c)))"

definition scoreRoutingCandidate :: "RoutingScoreInput \<Rightarrow> RoutingPolicy \<Rightarrow> CandidateScore" where
  "scoreRoutingCandidate c policy =
     (let u = utilization c;
          comps = \<lparr>reliability = unit_score (in_reliability c), headroom = unit_score (1 - u ^ 2),
                   performance = unit_score (in_performance c),
                   costEfficiency = unit_score (1 / (1 + max 0 (in_expectedCostUsd c) / referenceCostUsd policy)),
                   stability = unit_score (in_stability c)\<rparr>;
          score = 100 * (weight_reliability policy * reliability comps + weight_headroom policy * headroom comps
                         + weight_performance policy * performance comps
                         + weight_costEfficiency policy * costEfficiency comps
                         + weight_stability policy * stability comps)
      in \<lparr>cand_score = score, cand_components = comps, cand_saturated = (1 \<le> u)\<rparr>)"

subsection \<open>The top band\<close>

definition NUMBER_EPSILON :: real where
  "NUMBER_EPSILON = 1 / 2 ^ 52"

definition band_weight :: "RoutingPolicy \<Rightarrow> real \<Rightarrow> real" where
  "band_weight policy score = max NUMBER_EPSILON score ^ selectionExponent policy"

fun walk_band :: "(real \<times> 'a) list \<Rightarrow> real \<Rightarrow> 'a option" where
  "walk_band [] cursor = None"
| "walk_band ((w, x) # rest) cursor =
     (if cursor - w < 0 \<or> rest = [] then Some x else walk_band rest (cursor - w))"

text \<open>
  \<open>random\<close> is the number the generator returned. The loop gives the first element at which the
  cursor falls below zero, or the last of the band.
\<close>

definition selectTopBandCandidate :: "(real \<times> 'a) list \<Rightarrow> RoutingPolicy \<Rightarrow> real \<Rightarrow> (real \<times> 'a) option" where
  "selectTopBandCandidate cs policy random =
     (case cs of
        [] \<Rightarrow> None
      | _ \<Rightarrow>
          let best = Max (set (map fst cs));
              band = filter (\<lambda>c. best - topBandPoints policy \<le> fst c) cs;
              weighted = map (\<lambda>c. (band_weight policy (fst c), c)) band;
              total = sum_list (map fst weighted)
          in walk_band weighted (min (max random 0) (1 - NUMBER_EPSILON) * total))"

subsection \<open>Historical evidence\<close>

record HistoricalRoutingEvidence =
  ev_reliability :: real
  ev_performance :: real
  ev_observedMbps :: real
  ev_projectedPeriodGb :: real
  ev_expectedBytes :: real
  ev_expectedConnectionSeconds :: real
  ev_stability :: real

definition routing_attempts :: "UsageRecord list \<Rightarrow> UsageRecord list" where
  "routing_attempts records = filter (\<lambda>r. ur_kind r = Attempt \<and> ur_outcome r \<noteq> OutcomeHttpError) records"

definition evidence_weight :: "RoutingPolicy \<Rightarrow> timestamp \<Rightarrow> UsageRecord \<Rightarrow> real" where
  "evidence_weight policy now r =
     (1 / 2) powr (real_of_int (max 0 (now - completedAt r)) / real_of_int (evidenceHalfLifeMs policy))"

definition freshest :: "UsageRecord list \<Rightarrow> timestamp" where
  "freshest attempts = foldl (\<lambda>latest r. max latest (completedAt r)) 0 attempts"

definition freshness :: "RoutingPolicy \<Rightarrow> timestamp \<Rightarrow> UsageRecord list \<Rightarrow> real" where
  "freshness policy now attempts =
     (if freshest attempts = 0 then 0
      else unit_score (1 - real_of_int (max 0 (now - freshest attempts)) / real_of_int (evidenceFreshnessMs policy)))"

text \<open>The element at the 95th percentile of a sorted list: \<open>xs[min(n - 1, ceil(n * 0.95) - 1)]\<close>.\<close>

definition p95_of :: "'a list \<Rightarrow> 'a option" where
  "p95_of xs =
     (if xs = [] then None
      else Some (xs ! nat (min (int (length xs) - 1) (\<lceil>real (length xs) * 95 / 100\<rceil> - 1))))"

definition connection_ms :: "UsageRecord \<Rightarrow> int" where
  "connection_ms r =
     (case (connectionStartedAt r, connectionEndedAt r) of
        (Some a, Some b) \<Rightarrow> max 0 (b - a)
      | _ \<Rightarrow> 0)"

fun identity_changes :: "UsageRecord list \<Rightarrow> nat" where
  "identity_changes (a # b # rs) =
     of_bool (ur_endpointId a \<noteq> None \<and> ur_endpointId b \<noteq> None \<and> ur_endpointId a \<noteq> ur_endpointId b)
     + identity_changes (b # rs)"
| "identity_changes _ = 0"

definition historicalRoutingEvidence :: "UsageRecord list \<Rightarrow> timestamp \<Rightarrow> RoutingPolicy \<Rightarrow> HistoricalRoutingEvidence" where
  "historicalRoutingEvidence records now policy =
     (let attempts = routing_attempts records;
          evidenceWeight = sum_list (map (evidence_weight policy now) attempts);
          successWeight = sum_list (map (evidence_weight policy now)
            (filter (\<lambda>r. ur_outcome r = OutcomeSuccess) attempts));
          fresh = freshness policy now attempts;
          measuredReliability = (if evidenceWeight = 0 then unknownSignalScore policy else successWeight / evidenceWeight);
          waits = js_sort (by_key id) (List.map_filter ur_establishmentWaitMs attempts);
          perf = (case p95_of waits of
                    None \<Rightarrow> unknownSignalScore policy
                  | Some w \<Rightarrow> unit_score (1 - real_of_int w / real_of_int (performanceReferenceMs policy)));
          bytes = sum_list (map (\<lambda>r. bytesSent r + bytesReceived r) attempts);
          connectionMs = sum_list (map connection_ms attempts);
          chronological = js_sort (by_key completedAt) attempts;
          failovers = length (filter failover attempts);
          n = length attempts;
          measuredStability = (if n = 0 then unknownSignalScore policy
             else unit_score (1 - real (failovers + identity_changes chronological) / max 1 (real n)))
      in \<lparr>ev_reliability = unknownSignalScore policy * (1 - fresh) + measuredReliability * fresh,
          ev_performance = perf,
          ev_observedMbps = (if connectionMs = 0 then 0 else real_of_int (bytes * 8) / real_of_int connectionMs / 1000),
          ev_projectedPeriodGb = real_of_int bytes / 1024 ^ 3,
          ev_expectedBytes = (if n = 0 then 0 else real_of_int bytes / real n),
          ev_expectedConnectionSeconds = (if n = 0 then 0 else real_of_int connectionMs / real n / 1000),
          ev_stability = unknownSignalScore policy * (1 - fresh) + measuredStability * fresh\<rparr>)"

subsection \<open>Bounds\<close>

lemma unit_score_bounds [simp]: "0 \<le> unit_score v" "unit_score v \<le> 1"
  by (simp_all add: unit_score_def)

lemma unit_score_mono: "a \<le> b \<Longrightarrow> unit_score a \<le> unit_score b"
  by (auto simp: unit_score_def)

lemma mix_bounds:
  fixes u m f :: real
  assumes "0 \<le> u" "u \<le> 1" "0 \<le> m" "m \<le> 1" "0 \<le> f" "f \<le> 1"
  shows "0 \<le> u * (1 - f) + m * f \<and> u * (1 - f) + m * f \<le> 1"
proof
  show "0 \<le> u * (1 - f) + m * f" using assms by simp
  have "u * (1 - f) \<le> 1 * (1 - f)" by (rule mult_right_mono) (use assms in auto)
  moreover have "m * f \<le> 1 * f" by (rule mult_right_mono) (use assms in auto)
  ultimately show "u * (1 - f) + m * f \<le> 1" by simp
qed

text \<open>
  A routing score lies between 0 and 100 and every component between 0 and 1; a saturated
  candidate (one of its three utilizations reaches 1) has no headroom left and scores at most 70.
\<close>

theorem score_bounded:
  "0 \<le> cand_score (scoreRoutingCandidate c ROUTING_POLICY)
   \<and> cand_score (scoreRoutingCandidate c ROUTING_POLICY) \<le> 100
   \<and> 0 \<le> headroom (cand_components (scoreRoutingCandidate c ROUTING_POLICY))
   \<and> headroom (cand_components (scoreRoutingCandidate c ROUTING_POLICY)) \<le> 1
   \<and> 0 \<le> costEfficiency (cand_components (scoreRoutingCandidate c ROUTING_POLICY))
   \<and> costEfficiency (cand_components (scoreRoutingCandidate c ROUTING_POLICY)) \<le> 1
   \<and> (cand_saturated (scoreRoutingCandidate c ROUTING_POLICY) \<longrightarrow>
        headroom (cand_components (scoreRoutingCandidate c ROUTING_POLICY)) = 0
        \<and> cand_score (scoreRoutingCandidate c ROUTING_POLICY) \<le> 70)"
proof -
  let ?s = "scoreRoutingCandidate c ROUTING_POLICY"
  let ?k = "cand_components ?s"
  have score: "cand_score ?s = 30 * reliability ?k + 30 * headroom ?k + 20 * performance ?k
      + 15 * costEfficiency ?k + 5 * stability ?k"
    by (simp add: scoreRoutingCandidate_def Let_def ROUTING_POLICY_def)
  have bounds: "0 \<le> reliability ?k" "reliability ?k \<le> 1" "0 \<le> headroom ?k" "headroom ?k \<le> 1"
    "0 \<le> performance ?k" "performance ?k \<le> 1" "0 \<le> costEfficiency ?k" "costEfficiency ?k \<le> 1"
    "0 \<le> stability ?k" "stability ?k \<le> 1"
    by (simp_all add: scoreRoutingCandidate_def Let_def)
  have "headroom ?k = 0" if "cand_saturated ?s"
  proof -
    from that have "1 \<le> utilization c" by (simp add: scoreRoutingCandidate_def Let_def)
    then have "1 - utilization c ^ 2 \<le> 0" by (simp add: one_le_power)
    then show ?thesis by (simp add: scoreRoutingCandidate_def Let_def unit_score_def)
  qed
  with score bounds show ?thesis by auto
qed

definition busy_candidate :: RoutingScoreInput where
  "busy_candidate = \<lparr>in_reliability = 1, in_activeConnections = 16, in_softConnections = 16, in_observedMbps = 0,
     in_plannedMbps = 8, in_projectedPeriodGb = 0, in_prioritizedPeriodGb = 50, in_performance = 1,
     in_expectedCostUsd = 0, in_stability = 1\<rparr>"

theorem score_bounded_witness:
  "cand_saturated (scoreRoutingCandidate busy_candidate ROUTING_POLICY)
   \<and> cand_score (scoreRoutingCandidate busy_candidate ROUTING_POLICY) \<le> 70"
proof -
  have "cand_saturated (scoreRoutingCandidate busy_candidate ROUTING_POLICY)"
    by (simp add: scoreRoutingCandidate_def Let_def busy_candidate_def utilization_def share_def)
  with score_bounded [of busy_candidate] show ?thesis by blast
qed

text \<open>
  More load never helps: of two candidates that differ only in their active connections, both
  counts not negative, the one with fewer connections does not score lower.
\<close>

theorem score_antitone_in_load:
  assumes "0 \<le> in_activeConnections c" and "in_activeConnections c \<le> n"
    and "0 \<le> in_observedMbps c" and "0 \<le> in_projectedPeriodGb c"
  shows "cand_score (scoreRoutingCandidate (c\<lparr>in_activeConnections := n\<rparr>) ROUTING_POLICY)
    \<le> cand_score (scoreRoutingCandidate c ROUTING_POLICY)"
proof -
  let ?d = "c\<lparr>in_activeConnections := n\<rparr>"
  have nonneg: "0 \<le> share a b" if "0 \<le> a" for a b :: real
    using that by (simp add: share_def)
  have "share (in_activeConnections c) (in_softConnections c) \<le> share n (in_softConnections c)"
    using assms(2) by (simp add: share_def divide_right_mono)
  then have le: "utilization c \<le> utilization ?d" by (auto simp: utilization_def)
  have "0 \<le> utilization c" using nonneg [OF assms(1)] by (simp add: utilization_def le_max_iff_disj)
  with le have "utilization c ^ 2 \<le> utilization ?d ^ 2" by (intro power_mono)
  then have "unit_score (1 - utilization ?d ^ 2) \<le> unit_score (1 - utilization c ^ 2)"
    by (intro unit_score_mono) simp
  then show ?thesis by (simp add: scoreRoutingCandidate_def Let_def ROUTING_POLICY_def)
qed

theorem score_antitone_in_load_witness:
  "cand_score (scoreRoutingCandidate (busy_candidate\<lparr>in_activeConnections := 40\<rparr>) ROUTING_POLICY)
    \<le> cand_score (scoreRoutingCandidate busy_candidate ROUTING_POLICY)"
  by (rule score_antitone_in_load) (simp_all add: busy_candidate_def)

lemma walk_band_mem: "ws \<noteq> [] \<Longrightarrow> \<exists>x. walk_band ws cursor = Some x \<and> x \<in> snd ` set ws"
proof (induction ws arbitrary: cursor)
  case (Cons w ws)
  obtain a b where w: "w = (a, b)" by fastforce
  show ?case
  proof (cases "cursor - a < 0 \<or> ws = []")
    case True
    with w show ?thesis by auto
  next
    case False
    with Cons.IH [of "cursor - a"] w show ?thesis by auto
  qed
qed simp

text \<open>
  Whatever the random number, a choice from the top band is made whenever there is a candidate,
  it is one of the candidates, and its score is within the band's width of the best score.
\<close>

theorem top_band_choice:
  "case selectTopBandCandidate cs policy random of
     None \<Rightarrow> cs = [] \<or> topBandPoints policy < 0
   | Some c \<Rightarrow> c \<in> set cs \<and> list_all (\<lambda>d. fst d - topBandPoints policy \<le> fst c) cs"
proof (cases cs)
  case Nil
  then show ?thesis by (simp add: selectTopBandCandidate_def)
next
  case (Cons d ds)
  let ?best = "Max (set (map fst cs))"
  let ?band = "filter (\<lambda>c. ?best - topBandPoints policy \<le> fst c) cs"
  let ?ws = "map (\<lambda>c. (band_weight policy (fst c), c)) ?band"
  let ?cursor = "min (max random 0) (1 - NUMBER_EPSILON) * sum_list (map fst ?ws)"
  have sel: "selectTopBandCandidate cs policy random = walk_band ?ws ?cursor"
    by (simp add: selectTopBandCandidate_def Cons Let_def del: Max_insert)
  have best: "fst c \<le> ?best" if "c \<in> set cs" for c
    by (rule Max_ge) (use that in auto)
  show ?thesis
  proof (cases "?band = []")
    case True
    have "?best \<in> set (map fst cs)" by (rule Max_in) (simp_all add: Cons)
    then obtain c where c: "c \<in> set cs" "fst c = ?best" by (metis imageE list.set_map)
    with True have "\<not> ?best - topBandPoints policy \<le> fst c" by (auto simp: filter_empty_conv)
    with c True show ?thesis by (simp add: sel)
  next
    case False
    with walk_band_mem [of ?ws ?cursor] obtain c where c: "walk_band ?ws ?cursor = Some c" "c \<in> set ?band" by auto
    then show ?thesis using best by (force simp: sel list_all_iff)
  qed
qed

lemma sum_list_filter_le:
  fixes f :: "'a \<Rightarrow> real"
  shows "(\<And>x. 0 \<le> f x) \<Longrightarrow> sum_list (map f (filter P xs)) \<le> sum_list (map f xs)"
  by (induction xs) (auto simp: add_increasing)

text \<open>
  The evidence drawn from usage records is normalised: for any records and any time, estimated
  reliability, performance and stability lie between 0 and 1.
\<close>

theorem evidence_normalised:
  "let e = historicalRoutingEvidence records now ROUTING_POLICY
   in {ev_reliability e, ev_performance e, ev_stability e} \<subseteq> {0..1}"
proof -
  let ?a = "routing_attempts records" and ?w = "evidence_weight ROUTING_POLICY now"
  let ?ok = "filter (\<lambda>r. ur_outcome r = OutcomeSuccess) ?a"
  have w: "0 \<le> ?w r" for r by (simp add: evidence_weight_def)
  have le: "sum_list (map ?w ?ok) \<le> sum_list (map ?w ?a)" by (rule sum_list_filter_le) (rule w)
  have pos: "0 \<le> sum_list (map ?w ?ok)" by (rule sum_list_nonneg) (use w in auto)
  have m: "0 \<le> (if sum_list (map ?w ?a) = 0 then 1 / 2 else sum_list (map ?w ?ok) / sum_list (map ?w ?a))"
    "(if sum_list (map ?w ?a) = 0 then 1 / 2 else sum_list (map ?w ?ok) / sum_list (map ?w ?a)) \<le> 1"
    using le pos by (auto simp: divide_le_eq_1)
  have f: "0 \<le> freshness ROUTING_POLICY now ?a" "freshness ROUTING_POLICY now ?a \<le> 1"
    by (simp_all add: freshness_def)
  have u: "unknownSignalScore ROUTING_POLICY = 1 / 2" by (simp add: ROUTING_POLICY_def)
  have half: "0 \<le> (1 / 2 :: real)" "(1 / 2 :: real) \<le> 1" by simp_all
  have st: "0 \<le> (if P then 1 / 2 else unit_score x)" "(if P then 1 / 2 else unit_score x) \<le> 1" for P x
    by simp_all
  note rel = mix_bounds [OF half m f] and stab = mix_bounds [OF half st f]
  show ?thesis
    unfolding historicalRoutingEvidence_def Let_def u using rel stab by (auto split: option.split)
qed

end
