(* ===== verification/Candidate_Ranker.thy ===== *)
theory Candidate_Ranker
  imports Route_Store Provider_Selection Routing_Score "HOL-Library.Sublist"
begin

text \<open>
  \<open>src/routing-resolution.ts\<close> and \<open>src/routing-candidate-ranker.ts\<close>: the state of one resolution
  and the order in which providers are tried. The ranker reads circuits and connection counts from
  the store (a read may drop an expired circuit) and updates the resolution state, so its
  operations act on both. The clock does not advance during one ranking; \<open>localeCompare\<close> is the
  argument \<open>lc\<close>. The log line of a capacity-driven fallback is left out.
\<close>

subsection \<open>Resolution state\<close>

record ResolutionState =
  attemptsByProvider :: "(ProviderId, nat) js_map"
  excludedCandidateIds :: "string list"
  previousCandidateId :: "string option"
  previousProvider :: "ProviderId option"
  primaryProvider :: "ProviderId option"
  capacityDrivenFallback :: "bool option"
  rs_capacityPressureProvider :: "ProviderId option"
  rs_capacityConstraint :: "CapacityConstraint option"
  rs_establishmentWaitMs :: int
  rs_capacityPolicyVersion :: "string option"
  preferredCandidateId :: "string option"
  preferredAffinityHandle :: "string option"
  rs_sessionAffinityHit :: "bool option"
  rs_sessionRebindCause :: "string option"
  rs_desiredProviderClass :: "ProviderClass option"
  rs_currentProviderClass :: "ProviderClass option"
  rs_degradedFallback :: "bool option"
  rs_failbackOutcome :: "FailbackOutcome option"
  failbackProbe :: "bool option"
  sessionRebindRetries :: nat

definition createResolutionState :: ResolutionState where
  "createResolutionState =
     \<lparr>attemptsByProvider = [], excludedCandidateIds = [], previousCandidateId = None, previousProvider = None,
      primaryProvider = None, capacityDrivenFallback = None, rs_capacityPressureProvider = None,
      rs_capacityConstraint = None, rs_establishmentWaitMs = 0, rs_capacityPolicyVersion = None,
      preferredCandidateId = None, preferredAffinityHandle = None, rs_sessionAffinityHit = None,
      rs_sessionRebindCause = None, rs_desiredProviderClass = None, rs_currentProviderClass = None,
      rs_degradedFallback = None, rs_failbackOutcome = None, failbackProbe = None, sessionRebindRetries = 0\<rparr>"

definition sessionRoutingUsageContext :: "ResolutionState \<Rightarrow> UsageRecord \<Rightarrow> UsageRecord" where
  "sessionRoutingUsageContext st r =
     r\<lparr>ur_sessionAffinityHit := rs_sessionAffinityHit st, ur_sessionRebindCause := rs_sessionRebindCause st,
       ur_desiredProviderClass := rs_desiredProviderClass st, ur_currentProviderClass := rs_currentProviderClass st,
       ur_degradedFallback := rs_degradedFallback st, ur_failbackOutcome := rs_failbackOutcome st\<rparr>"

subsection \<open>Scoring\<close>

definition MAX_PEERS_PER_PROVIDER :: int where
  "MAX_PEERS_PER_PROVIDER = candidatesPerProvider V0_POLICY"

definition MAX_VERIFICATION_CANDIDATES_PER_PROVIDER :: int where
  "MAX_VERIFICATION_CANDIDATES_PER_PROVIDER = candidatesPerProvider V0_POLICY"

definition SLOT_MONTH_SECONDS :: real where
  "SLOT_MONTH_SECONDS = (36525 / 100 / 12) * 24 * 60 * 60"

definition MAX_SAFE_INTEGER :: real where
  "MAX_SAFE_INTEGER = 2 ^ 53 - 1"

definition recentCapacityPressure :: "timestamp \<Rightarrow> UsageRecord list \<Rightarrow> bool" where
  "recentCapacityPressure now records =
     list_ex (\<lambda>r. ur_kind r = Attempt \<and> ur_capacityPressure r = Some True
                  \<and> now - completedAt r \<le> evidenceFreshnessMs ROUTING_POLICY) records"

definition scoreCandidate ::
  "timestamp \<Rightarrow> ProviderAdapter \<Rightarrow> UsageRecord list \<Rightarrow> nat \<Rightarrow> bool \<Rightarrow> UsageRecord list \<Rightarrow> CandidateScore" where
  "scoreCandidate now provider records load slotCapacity pressureRecords =
     (let evidence = historicalRoutingEvidence records now ROUTING_POLICY;
          expectedCostUsd =
            (if pricing_model (descriptor provider) = PerGib
             then (ev_expectedBytes evidence / 1024 ^ 3) * amountUsd (descriptor provider)
             else (ev_expectedConnectionSeconds evidence / SLOT_MONTH_SECONDS) * amountUsd (descriptor provider));
          score = scoreRoutingCandidate
            \<lparr>in_reliability = ev_reliability evidence,
             in_activeConnections = real load,
             in_softConnections =
               (if slotCapacity then real_of_int (softConnectionsPerSlot CAPACITY_POLICY) else MAX_SAFE_INTEGER),
             in_observedMbps = ev_observedMbps evidence,
             in_plannedMbps = (if slotCapacity then plannedMbpsPerSlot CAPACITY_POLICY else MAX_SAFE_INTEGER),
             in_projectedPeriodGb =
               (if slotCapacity
                then ev_projectedPeriodGb evidence
                     * (30 * 24 * 60 * 60000 / real_of_int (evidenceWindowMs ROUTING_POLICY))
                else 0),
             in_prioritizedPeriodGb =
               (if slotCapacity then prioritizedGbPerSlotPerBillingPeriod CAPACITY_POLICY else MAX_SAFE_INTEGER),
             in_performance = ev_performance evidence,
             in_expectedCostUsd = expectedCostUsd,
             in_stability = ev_stability evidence\<rparr> ROUTING_POLICY
      in score\<lparr>cand_saturated := (cand_saturated score \<or> recentCapacityPressure now pressureRecords)\<rparr>)"

text \<open>
  An entry of \<open>scored\<close>. Entries are compared by identity in the source; here each carries the
  position it was pushed at.
\<close>

record Scored = CandidateScore +
  sc_index :: nat
  sc_provider :: ProviderAdapter
  sc_load :: nat

definition sc_id :: "Scored \<Rightarrow> ProviderId" where
  "sc_id c = desc_id (descriptor (sc_provider c))"

definition sc_class :: "Scored \<Rightarrow> ProviderClass" where
  "sc_class c = providerClass (descriptor (sc_provider c))"

definition mk_scored :: "nat \<Rightarrow> ProviderAdapter \<Rightarrow> nat \<Rightarrow> CandidateScore \<Rightarrow> Scored" where
  "mk_scored i provider load score =
     \<lparr>cand_score = cand_score score, cand_components = cand_components score,
      cand_saturated = cand_saturated score, sc_index = i, sc_provider = provider, sc_load = load\<rparr>"

type_synonym 'a rank_op = "(exn, StoreState \<times> ResolutionState, 'a) op"

definition capacityCircuitEligible :: "timestamp \<Rightarrow> ProviderId \<Rightarrow> string \<Rightarrow> bool rank_op" where
  "capacityCircuitEligible now provider key st =
     (let (c, s) = getCapacityCircuit provider key now (fst st)
      in (Inr (capacityCircuitAllowsCandidate c now), s, snd st))"

text \<open>The candidates whose circuit admits them; a refused one is remembered as the constraint.\<close>

fun candidates_with_capacity :: "timestamp \<Rightarrow> ProviderId \<Rightarrow> ProviderCandidate list \<Rightarrow> ProviderCandidate list rank_op" where
  "candidates_with_capacity now provider [] st = (Inr [], st)"
| "candidates_with_capacity now provider (c # cs) st =
     bind_op (capacityCircuitEligible now provider (cand_id c))
       (\<lambda>ok st. if ok
                then bind_op (candidates_with_capacity now provider cs) (\<lambda>rest. return_op (c # rest)) st
                else candidates_with_capacity now provider cs
                       (fst st, (snd st)\<lparr>rs_capacityConstraint := Some CapacityCircuitConstraint\<rparr>)) st"

definition pressure_records :: "ProviderId \<Rightarrow> UsageRecord list \<Rightarrow> UsageRecord list" where
  "pressure_records provider records =
     filter (\<lambda>r. ur_capacityPressure r = Some True
        \<and> (case ur_capacityPressureProvider r of
             Some p \<Rightarrow> Some p
           | None \<Rightarrow> if ur_provider r = ''unresolved'' then None else Some (ur_provider r)) = Some provider) records"

definition load_of :: "(string, nat) js_map \<Rightarrow> string \<Rightarrow> nat" where
  "load_of m k = (case js_get m k of None \<Rightarrow> 0 | Some n \<Rightarrow> n)"

text \<open>The slot of a provider that stands for it: the least loaded unsaturated one, or the least loaded.\<close>

definition best_slot :: "string comparator \<Rightarrow> (string \<times> nat \<times> CandidateScore) list \<Rightarrow> (string \<times> nat \<times> CandidateScore) option" where
  "best_slot lc ss =
     (let unsaturated = filter (\<lambda>(i, l, sc). \<not> cand_saturated sc) ss
      in case js_sort (\<lambda>(i, l, _) (i', l', _). then_by (int l - int l') (lc i i'))
                (if unsaturated \<noteq> [] then unsaturated else ss) of
           [] \<Rightarrow> None
         | b # _ \<Rightarrow> Some b)"

definition score_slots ::
  "timestamp \<Rightarrow> ProviderAdapter \<Rightarrow> UsageRecord list \<Rightarrow> UsageRecord list \<Rightarrow> (string, nat) js_map \<Rightarrow>
   ProviderCandidate list \<Rightarrow> (string \<times> nat \<times> CandidateScore) list" where
  "score_slots now provider providerRecords pressure loads cs =
     map (\<lambda>c. (cand_id c, load_of loads (cand_id c),
           scoreCandidate now provider (filter (\<lambda>r. ur_proxySlotId r = Some (cand_id c)) providerRecords)
             (load_of loads (cand_id c)) True
             (filter (\<lambda>r. ur_proxySlotId r = Some (cand_id c)) pressure))) cs"

text \<open>One round of the scoring loop: the entry it pushes, if any.\<close>

definition score_provider ::
  "string comparator \<Rightarrow> timestamp \<Rightarrow> AuthenticatedRoute \<Rightarrow> UsageRecord list \<Rightarrow> nat \<Rightarrow> ProviderAdapter \<Rightarrow>
   Scored option rank_op" where
  "score_provider lc now route recent index provider st =
     (let pid = desc_id (descriptor provider);
          providerRecords = filter (\<lambda>r. ur_provider r = pid) recent;
          pressure = pressure_records pid recent
      in case candidates provider of
           Some source \<Rightarrow>
             (case cs_list source of
                Inl e \<Rightarrow> (Inl e, st)
              | Inr listed \<Rightarrow>
                  bind_op
                    (candidates_with_capacity now pid
                       (filter (\<lambda>c. cand_healthy c \<and> \<not> has (excludedCandidateIds (snd st)) (cand_id c)
                                    \<and> cs_matches source c (targeting route)) listed))
                    (\<lambda>cs st.
                       if cs = [] then (Inr None, st)
                       else let loads = fst (snd (getActiveConnectionCounts lc now [pid] (map cand_id cs) [] (fst st)));
                                slots = score_slots now provider providerRecords pressure loads cs
                            in case best_slot lc slots of
                                 None \<Rightarrow> (Inr None, st)
                               | Some (i, l, sc) \<Rightarrow>
                                   (Inr (Some (mk_scored index provider l
                                      (sc\<lparr>cand_saturated := list_all (\<lambda>(i, l, sc). cand_saturated sc) slots\<rparr>))), st))
                    st)
         | None \<Rightarrow>
             bind_op (capacityCircuitEligible now pid pid)
               (\<lambda>ok st.
                  if \<not> ok
                  then (Inr None, fst st, (snd st)\<lparr>rs_capacityConstraint := Some CapacityCircuitConstraint\<rparr>)
                  else let load = load_of (fst (getActiveConnectionCounts lc now [pid] [] [] (fst st))) pid
                       in (Inr (Some (mk_scored index provider load
                             (scoreCandidate now provider providerRecords load False pressure))), st)) st)"

fun score_providers ::
  "string comparator \<Rightarrow> timestamp \<Rightarrow> AuthenticatedRoute \<Rightarrow> UsageRecord list \<Rightarrow> nat \<Rightarrow> ProviderAdapter list \<Rightarrow>
   Scored list rank_op" where
  "score_providers lc now route recent i [] st = (Inr [], st)"
| "score_providers lc now route recent i (p # ps) st =
     bind_op (score_provider lc now route recent i p)
       (\<lambda>x. bind_op (score_providers lc now route recent (Suc i) ps)
          (\<lambda>xs. return_op (case x of None \<Rightarrow> xs | Some c \<Rightarrow> c # xs))) st"

subsection \<open>Ordering\<close>

definition byLoadThenId :: "string comparator \<Rightarrow> Scored comparator" where
  "byLoadThenId lc a b = then_by (int (sc_load a) - int (sc_load b)) (lc (sc_id a) (sc_id b))"

definition bySaturationLoadId :: "string comparator \<Rightarrow> Scored comparator" where
  "bySaturationLoadId lc a b =
     then_by (of_bool (cand_saturated a) - of_bool (cand_saturated b)) (byLoadThenId lc a b)"

definition first_of :: "'a list \<Rightarrow> 'a option" where
  "first_of xs = (case xs of [] \<Rightarrow> None | x # _ \<Rightarrow> Some x)"

definition or_else :: "'a option \<Rightarrow> 'a option \<Rightarrow> 'a option" where
  "or_else a b = (case a of None \<Rightarrow> b | Some x \<Rightarrow> Some x)"

definition without :: "Scored option \<Rightarrow> Scored list \<Rightarrow> Scored list" where
  "without selected xs = filter (\<lambda>c. Some (sc_index c) \<noteq> map_option sc_index selected) xs"

definition attempt_limit :: "AuthenticatedRoute \<Rightarrow> Scored \<Rightarrow> int" where
  "attempt_limit route previous =
     (if city (targeting route) \<noteq> None \<and> exactCity (capabilities (descriptor (sc_provider previous))) = CityVerifiable
      then MAX_VERIFICATION_CANDIDATES_PER_PROVIDER else MAX_PEERS_PER_PROVIDER)"

definition baseline_of :: "string comparator \<Rightarrow> ProviderClass \<Rightarrow> Scored option \<Rightarrow> Scored list \<Rightarrow> Scored option" where
  "baseline_of lc preferredClass previous scored =
     or_else previous
       (or_else (first_of (js_sort (byLoadThenId lc) (filter (\<lambda>c. sc_class c = preferredClass) scored)))
          (first_of (js_sort (byLoadThenId lc) scored)))"

text \<open>The order when every preferred provider is saturated and a fallback is not.\<close>

definition fallback_order :: "string comparator \<Rightarrow> Scored list \<Rightarrow> Scored list \<Rightarrow> Scored list" where
  "fallback_order lc preferredTier fallbackTier =
     (let orderedFallback = js_sort (byLoadThenId lc) (filter (\<lambda>c. \<not> cand_saturated c) fallbackTier);
          selected = first_of orderedFallback
      in (case selected of None \<Rightarrow> [] | Some c \<Rightarrow> [c])
         @ without selected orderedFallback
         @ js_sort (byLoadThenId lc) preferredTier
         @ js_sort (byLoadThenId lc) (filter cand_saturated fallbackTier))"

definition normal_order :: "string comparator \<Rightarrow> Scored list \<Rightarrow> Scored list \<Rightarrow> Scored list" where
  "normal_order lc preferredTier scored =
     (let primaryTier = (if preferredTier \<noteq> [] then preferredTier else scored);
          unsaturatedPrimary = filter (\<lambda>c. \<not> cand_saturated c) primaryTier;
          selectionTier = (if unsaturatedPrimary \<noteq> [] then unsaturatedPrimary else primaryTier);
          selected = first_of (js_sort (byLoadThenId lc) selectionTier)
      in (case selected of None \<Rightarrow> [] | Some c \<Rightarrow> [c])
         @ js_sort (bySaturationLoadId lc) (without selected primaryTier)
         @ js_sort (bySaturationLoadId lc)
             (filter (\<lambda>c. \<not> has (map sc_index primaryTier) (sc_index c)) scored))"

definition order_tiers ::
  "string comparator \<Rightarrow> AuthenticatedRoute \<Rightarrow> Scored list \<Rightarrow> Scored list \<Rightarrow> Scored list \<Rightarrow> ResolutionState \<Rightarrow>
   (exn + Scored list) \<times> ResolutionState" where
  "order_tiers lc route scored preferredTier fallbackTier st =
     (if ar_sessionMode route = Stateless \<and> preferredTier \<noteq> [] \<and> list_all cand_saturated preferredTier
         \<and> filter (\<lambda>c. \<not> cand_saturated c) fallbackTier \<noteq> []
      then (case first_of (js_sort (byLoadThenId lc) preferredTier) of
              None \<Rightarrow> (Inl (throw_error ''Residential pressure source is unavailable''), st)
            | Some pressureSource \<Rightarrow>
                (Inr (fallback_order lc preferredTier fallbackTier),
                 st\<lparr>capacityDrivenFallback := Some True, rs_capacityPressureProvider := Some (sc_id pressureSource)\<rparr>))
      else (Inr (normal_order lc preferredTier scored), st))"

definition order_scored ::
  "string comparator \<Rightarrow> AuthenticatedRoute \<Rightarrow> Scored list \<Rightarrow> ResolutionState \<Rightarrow> (exn + Scored list) \<times> ResolutionState" where
  "order_scored lc route scored st0 =
     (let preferredClass = preferredProviderClass (ar_sessionMode route);
          previous = List.find (\<lambda>c. Some (sc_id c) = previousProvider st0) scored;
          baseline = baseline_of lc preferredClass previous scored;
          st = (case baseline of
                  Some b \<Rightarrow> if primaryProvider st0 = None then st0\<lparr>primaryProvider := Some (sc_id b)\<rparr> else st0
                | None \<Rightarrow> st0);
          preferredTier = filter (\<lambda>c. sc_class c = preferredClass) scored;
          fallbackTier = filter (\<lambda>c. sc_class c \<noteq> preferredClass) scored
      in case previous of
           Some p \<Rightarrow>
             if int (load_of (attemptsByProvider st) (sc_id p)) < attempt_limit route p
             then (Inr (p # js_sort (byLoadThenId lc) (without previous scored)), st)
             else order_tiers lc route scored preferredTier fallbackTier st
         | None \<Rightarrow> order_tiers lc route scored preferredTier fallbackTier st)"

definition rankProviders ::
  "string comparator \<Rightarrow> timestamp \<Rightarrow> ProviderAdapter list \<Rightarrow> AuthenticatedRoute \<Rightarrow> UsageRecord list \<Rightarrow>
   ProviderAdapter list rank_op" where
  "rankProviders lc now providers route recent =
     bind_op (score_providers lc now route recent 0 providers)
       (\<lambda>scored st. case order_scored lc route scored (snd st) of
          (Inl e, rs) \<Rightarrow> (Inl e, fst st, rs)
        | (Inr ordered, rs) \<Rightarrow> (Inr (map sc_provider ordered), fst st, rs))"

subsection \<open>Every scored provider is tried once\<close>

lemma without_selected:
  assumes "distinct (map sc_index xs)" and "c \<in> set xs"
  shows "mset (c # without (Some c) xs) = mset xs"
  using assms
proof (induction xs)
  case (Cons x xs)
  show ?case
  proof (cases "x = c")
    case True
    with Cons.prems(1) have "sc_index y \<noteq> sc_index c" if "y \<in> set xs" for y
      using that by (metis distinct.simps(2) image_eqI list.set_map list.simps(9))
    then have "without (Some c) xs = xs" by (simp add: without_def filter_id_conv)
    with True show ?thesis by (simp add: without_def)
  next
    case False
    with Cons.prems have "c \<in> set xs" "sc_index x \<noteq> sc_index c" by auto
    with Cons show ?thesis by (simp add: without_def)
  qed
qed simp

lemma distinct_index_filter: "distinct (map sc_index xs) \<Longrightarrow> distinct (map sc_index (filter P xs))"
  by (simp add: distinct_map_filter)

lemma first_of_sorted: "first_of (js_sort cmp xs) = Some c \<Longrightarrow> c \<in> set xs"
  by (metis first_of_def list.set_intros(1) list.simps(4) list.simps(5) neq_Nil_conv option.distinct(1) option.inject set_js_sort)

lemma first_of_None: "first_of xs = None \<longleftrightarrow> xs = []"
  by (simp add: first_of_def split: list.split)

lemma selected_first:
  assumes "distinct (map sc_index xs)" and "first_of (js_sort cmp ys) = Some c" and "set ys \<subseteq> set xs"
  shows "mset (c # without (Some c) xs) = mset xs"
  by (rule without_selected [OF assms(1)]) (use first_of_sorted [OF assms(2)] assms(3) in auto)

lemma mset_split: "mset (filter P xs) + mset (filter (\<lambda>x. \<not> P x) xs) = mset xs"
  by (induction xs) auto

lemma fallback_order_perm:
  assumes "distinct (map sc_index fb)"
  shows "mset (fallback_order lc pref fb) = mset pref + mset fb"
proof -
  let ?o = "js_sort (byLoadThenId lc) (filter (\<lambda>c. \<not> cand_saturated c) fb)"
  have d: "distinct (map sc_index ?o)"
    using distinct_index_filter [OF assms, of "\<lambda>c. \<not> cand_saturated c"]
    by (metis mset_js_sort mset_map mset_eq_imp_distinct_iff)
  have "mset ((case first_of ?o of None \<Rightarrow> [] | Some c \<Rightarrow> [c]) @ without (first_of ?o) ?o) = mset ?o"
  proof (cases "first_of ?o")
    case (Some c)
    then have "c \<in> set ?o" by (cases ?o) (auto simp: first_of_def)
    with Some without_selected [OF d, of c] show ?thesis by simp
  qed (simp add: first_of_def without_def split: list.splits)
  then show ?thesis
    using mset_split [of "\<lambda>c. \<not> cand_saturated c" fb] by (simp add: fallback_order_def Let_def ac_simps)
qed

lemma normal_order_perm:
  assumes d: "distinct (map sc_index scored)"
  shows "mset (normal_order lc (filter P scored) scored) = mset scored"
proof -
  define primary where "primary = (if filter P scored \<noteq> [] then filter P scored else scored)"
  define unsat where "unsat = filter (\<lambda>c. \<not> cand_saturated c) primary"
  define sel where "sel = first_of (js_sort (byLoadThenId lc) (if unsat \<noteq> [] then unsat else primary))"
  define rest where "rest = filter (\<lambda>c. \<not> has (map sc_index primary) (sc_index c)) scored"
  have dp: "distinct (map sc_index primary)" using d by (simp add: primary_def distinct_index_filter)
  have sub: "set (if unsat \<noteq> [] then unsat else primary) \<subseteq> set primary" by (auto simp: unsat_def)
  have chosen: "mset ((case sel of None \<Rightarrow> [] | Some c \<Rightarrow> [c]) @ without sel primary) = mset primary"
  proof (cases sel)
    case None
    then have "(if unsat \<noteq> [] then unsat else primary) = []" by (simp only: sel_def first_of_None js_sort_Nil_iff)
    then have "primary = []" by (simp split: if_splits)
    with None show ?thesis by (simp add: without_def)
  next
    case (Some c)
    from selected_first [OF dp Some [unfolded sel_def] sub] Some show ?thesis by simp
  qed
  have inj: "inj_on sc_index (set scored)" using d by (simp add: distinct_map)
  have "rest = (if filter P scored \<noteq> [] then filter (\<lambda>c. \<not> P c) scored else [])"
  proof (cases "filter P scored = []")
    case False
    have "(sc_index c \<in> sc_index ` set (filter P scored)) \<longleftrightarrow> P c" if "c \<in> set scored" for c
      using inj that by (auto simp: inj_on_def)
    with False show ?thesis by (auto simp: rest_def primary_def intro: filter_cong)
  qed (simp add: filter_empty_conv rest_def primary_def)
  then have all: "mset primary + mset rest = mset scored"
    using mset_split [of P scored] by (simp add: primary_def)
  have "normal_order lc (filter P scored) scored = (case sel of None \<Rightarrow> [] | Some c \<Rightarrow> [c])
      @ js_sort (bySaturationLoadId lc) (without sel primary) @ js_sort (bySaturationLoadId lc) rest"
    by (simp only: normal_order_def Let_def primary_def unsat_def sel_def rest_def)
  then show ?thesis using chosen all by (simp add: add.assoc [symmetric])
qed

lemma order_tiers_perm:
  assumes "distinct (map sc_index scored)"
  shows "\<exists>out st'. order_tiers lc route scored (filter P scored) (filter (\<lambda>c. \<not> P c) scored) st = (Inr out, st')
    \<and> mset out = mset scored"
  using fallback_order_perm [OF distinct_index_filter [OF assms], of lc "filter P scored" "\<lambda>c. \<not> P c"]
    normal_order_perm [OF assms, of lc P] mset_split [of P scored]
  by (auto simp: order_tiers_def first_of_None split: option.split)

lemma order_scored_perm:
  assumes "distinct (map sc_index scored)"
  shows "\<exists>out st'. order_scored lc route scored st = (Inr out, st') \<and> mset out = mset scored"
proof (cases "List.find (\<lambda>c. Some (sc_id c) = previousProvider st) scored")
  case None
  then show ?thesis
    using order_tiers_perm [OF assms, where P = "\<lambda>c. sc_class c = preferredProviderClass (ar_sessionMode route)"]
    by (simp add: order_scored_def Let_def)
next
  case (Some p)
  from find_SomeD [OF Some] have "p \<in> set scored" by simp
  from without_selected [OF assms this] Some show ?thesis
    using order_tiers_perm [OF assms, where P = "\<lambda>c. sc_class c = preferredProviderClass (ar_sessionMode route)"]
    by (simp add: order_scored_def Let_def)
qed

text \<open>What one round of the scoring loop can do: push an entry for its provider, skip it, or fail as the listing did.\<close>

lemma capacityCircuitEligible_ok: "\<exists>ok st'. capacityCircuitEligible now provider key st = (Inr ok, st')"
  by (cases "getCapacityCircuit provider key now (fst st)") (simp add: capacityCircuitEligible_def)

lemma candidates_with_capacity_ok: "\<exists>cs' st'. candidates_with_capacity now provider cs st = (Inr cs', st')"
proof (induction cs arbitrary: st)
  case (Cons c cs)
  obtain ok st1 where el: "capacityCircuitEligible now provider (cand_id c) st = (Inr ok, st1)"
    using capacityCircuitEligible_ok by blast
  show ?case
  proof (cases ok)
    case True
    from Cons.IH [of st1] obtain cs' st2 where "candidates_with_capacity now provider cs st1 = (Inr cs', st2)" by blast
    with el True show ?thesis by simp
  next
    case False
    with el Cons.IH show ?thesis by simp
  qed
qed simp

lemma score_provider_cases:
  assumes "score_provider lc now route recent i p st = (r, st')"
  obtains (failed) src e where "candidates p = Some src" "cs_list src = Inl e" "r = Inl e"
  | (skipped) "r = Inr None"
  | (pushed) c where "r = Inr (Some c)" "sc_index c = i" "sc_provider c = p"
proof (cases "candidates p")
  case None
  obtain ok st1 where el: "capacityCircuitEligible now (desc_id (descriptor p)) (desc_id (descriptor p)) st = (Inr ok, st1)"
    using capacityCircuitEligible_ok by blast
  with None assms that(2,3) show thesis
    by (cases ok) (auto simp: score_provider_def Let_def mk_scored_def)
next
  case (Some src)
  show thesis
  proof (cases "cs_list src")
    case (Inl e)
    with Some assms that(1) show thesis by (simp add: score_provider_def Let_def)
  next
    case (Inr listed)
    let ?keep = "filter (\<lambda>c. cand_healthy c \<and> \<not> has (excludedCandidateIds (snd st)) (cand_id c)
        \<and> cs_matches src c (targeting route)) listed"
    obtain cs st1 where "candidates_with_capacity now (desc_id (descriptor p)) ?keep st = (Inr cs, st1)"
      using candidates_with_capacity_ok by blast
    with Some Inr assms that(2,3) show thesis
      by (auto simp: score_provider_def Let_def mk_scored_def split: if_splits option.splits prod.splits)
  qed
qed

lemma score_providers_result:
  assumes "score_providers lc now route recent i ps st = (r, st')"
  shows "case r of
      Inl e \<Rightarrow> (\<exists>p \<in> set ps. \<exists>src. candidates p = Some src \<and> cs_list src = Inl e)
    | Inr xs \<Rightarrow> distinct (map sc_index xs) \<and> (\<forall>x \<in> set xs. i \<le> sc_index x) \<and> subseq (map sc_provider xs) ps"
  using assms
proof (induction ps arbitrary: i st r st')
  case (Cons p ps)
  obtain r1 st1 where one: "score_provider lc now route recent i p st = (r1, st1)" by (meson surj_pair)
  obtain r2 st2 where rest: "score_providers lc now route recent (Suc i) ps st1 = (r2, st2)" by (meson surj_pair)
  note IH = Cons.IH [OF rest]
  from one show ?case
  proof (cases rule: score_provider_cases)
    case (failed src e)
    with one Cons.prems show ?thesis by auto
  next
    case skipped
    with one rest Cons.prems have "r = r2" by (cases r2) (auto simp: bind_op_def)
    with IH show ?thesis by (cases r2) (force intro: list_emb_Cons)+
  next
    case (pushed c)
    show ?thesis
    proof (cases r2)
      case (Inl e)
      with pushed one rest Cons.prems IH show ?thesis by (auto simp: bind_op_def)
    next
      case (Inr xs)
      with pushed one rest Cons.prems have "r = Inr (c # xs)" by (simp add: bind_op_def)
      with IH Inr pushed show ?thesis by (force simp: Suc_le_eq)
    qed
  qed
qed simp

text \<open>
  A ranking tries every provider it scored, once: it is a reordering of some of the given
  providers, none invented and none repeated, and it fails only with the error that a provider's
  own listing of candidates raised.
\<close>

theorem ranking_permutes:
  "case rankProviders lc now providers route recent (s, st) of
     (Inl e, _) \<Rightarrow> list_ex (\<lambda>p. \<exists>src. candidates p = Some src \<and> cs_list src = Inl e) providers
   | (Inr out, _) \<Rightarrow> \<exists>kept. subseq kept providers \<and> mset out = mset kept"
proof -
  obtain r st1 where sp: "score_providers lc now route recent 0 providers (s, st) = (r, st1)" by (meson surj_pair)
  note res = score_providers_result [OF sp]
  show ?thesis
  proof (cases r)
    case (Inl e)
    with sp res show ?thesis by (simp add: rankProviders_def list_ex_iff)
  next
    case (Inr scored)
    with res order_scored_perm [of scored lc route "snd st1"]
    obtain out st2 where "order_scored lc route scored (snd st1) = (Inr out, st2)" "mset out = mset scored" by auto
    moreover from this(2) have "mset (map sc_provider out) = mset (map sc_provider scored)" by simp
    ultimately show ?thesis using sp Inr res by (auto simp: rankProviders_def)
  qed
qed

subsection \<open>The preferred class comes first\<close>

lemma then_by_total_preorder:
  assumes "total_preorder_comparator f" and "total_preorder_comparator g"
    and "\<And>x y. f x y = - f y x" and "\<And>x y z. f x y = 0 \<Longrightarrow> f y z = 0 \<Longrightarrow> f x z = 0"
    and "\<And>x y z. f x y < 0 \<Longrightarrow> f y z \<le> 0 \<Longrightarrow> f x z < 0" and "\<And>x y z. f x y \<le> 0 \<Longrightarrow> f y z < 0 \<Longrightarrow> f x z < 0"
  shows "total_preorder_comparator (\<lambda>x y. then_by (f x y) (g x y))"
proof unfold_locales
  fix x y z
  show "then_by (f y x) (g y x) \<le> 0" if "0 < then_by (f x y) (g x y)"
    using that assms(3) [of x y] total_preorder_comparator.cmp_total [OF assms(2), of x y]
    by (auto simp: then_by_def split: if_splits)
  show "then_by (f x z) (g x z) \<le> 0" if "then_by (f x y) (g x y) \<le> 0" "then_by (f y z) (g y z) \<le> 0"
  proof (cases "f x y = 0 \<and> f y z = 0")
    case True
    with that assms(4) [of x y z] total_preorder_comparator.cmp_trans [OF assms(2), of x y z] show ?thesis
      by (simp add: then_by_def)
  next
    case False
    with that have "f x y < 0 \<and> f y z \<le> 0 \<or> f x y \<le> 0 \<and> f y z < 0" by (auto simp: then_by_def split: if_splits)
    with assms(5,6) have "f x z < 0" by blast
    then show ?thesis by (simp add: then_by_def)
  qed
qed

lemma byLoadThenId_total_preorder:
  assumes "collation lc"
  shows "total_preorder_comparator (byLoadThenId lc)"
proof -
  have "total_preorder_comparator lc" using assms by (simp add: collation_def)
  then have "total_preorder_comparator (\<lambda>a b. lc (sc_id a) (sc_id b))"
    by (simp add: total_preorder_comparator_def)
  then have "total_preorder_comparator (\<lambda>a b. then_by (int (sc_load a) - int (sc_load b)) (lc (sc_id a) (sc_id b)))"
    using by_key.total_preorder_comparator_axioms [of "\<lambda>c. int (sc_load c)"]
    by (intro then_by_total_preorder) (auto simp: by_key_def [abs_def])
  then show ?thesis by (simp add: byLoadThenId_def [abs_def])
qed

lemma first_least_load:
  assumes "collation lc" and "xs \<noteq> []"
  obtains h where "first_of (js_sort (byLoadThenId lc) xs) = Some h" "h \<in> set xs" "\<And>c. c \<in> set xs \<Longrightarrow> sc_load h \<le> sc_load c"
proof -
  from assms(2) obtain h rest where sorted: "js_sort (byLoadThenId lc) xs = h # rest"
    by (metis js_sort_Nil_iff neq_Nil_conv)
  have "sc_load h \<le> sc_load c" if "c \<in> set xs" for c
    using total_preorder_comparator.js_sort_hd_least [OF byLoadThenId_total_preorder [OF assms(1)] sorted that]
    by (auto simp: byLoadThenId_def then_by_def split: if_splits)
  moreover have "h \<in> set xs" by (metis sorted list.set_intros(1) set_js_sort)
  ultimately show thesis using that sorted by (simp add: first_of_def)
qed

text \<open>
  On the first attempt of an operation, while some provider of the class preferred for the
  session mode (device-backed for managed sessions, residential for stateless traffic) is not
  saturated, the provider tried first is of that class, is not saturated itself, and none of those
  carries fewer active connections.
\<close>

theorem preferred_class_first:
  assumes "collation lc" and "previousProvider st = None"
    and "c \<in> set scored" and "sc_class c = preferredProviderClass (ar_sessionMode route)" and "\<not> cand_saturated c"
  shows "\<exists>h rest st'. order_scored lc route scored st = (Inr (h # rest), st')
    \<and> h \<in> set scored \<and> sc_class h = preferredProviderClass (ar_sessionMode route) \<and> \<not> cand_saturated h
    \<and> sc_load h \<le> sc_load c"
proof -
  let ?pref = "filter (\<lambda>c. sc_class c = preferredProviderClass (ar_sessionMode route)) scored"
  let ?unsat = "filter (\<lambda>c. \<not> cand_saturated c) ?pref"
  have c: "c \<in> set ?unsat" using assms by simp
  then have ne: "?unsat \<noteq> []" "?pref \<noteq> []" by (auto simp: filter_empty_conv)
  obtain h where h: "first_of (js_sort (byLoadThenId lc) ?unsat) = Some h" "h \<in> set ?unsat" "sc_load h \<le> sc_load c"
    using first_least_load [OF assms(1) ne(1)] c by metis
  have "\<not> list_all cand_saturated ?pref" using c by (auto simp: list_all_iff)
  moreover have "List.find (\<lambda>c. Some (sc_id c) = previousProvider st) scored = None"
    by (simp add: assms(2) find_None_iff)
  moreover have "\<exists>rest. normal_order lc ?pref scored = h # rest"
    using ne h(1) by (simp add: normal_order_def Let_def)
  ultimately show ?thesis using h(2,3) by (auto simp: order_scored_def order_tiers_def Let_def)
qed

definition sample_capabilities :: ProviderCapabilities where
  "sample_capabilities = \<lparr>clientProtocols = [Http, Https, Socks5], upstreamProtocols = [UpHttp],
     cap_geography = [KCountry, KCity], countries = None, sessions = True, exactCity = CityVerifiable,
     providerManagedReassignment = ReassignDisabled, providerManagedRotation = RotationDisabled,
     cap_rotation = [RotPerRequest, RotManual], targetPorts = AnyPublic, dns_http = ProviderRemote,
     dns_socks5 = ProviderRemote, safety_http = SafetyVerified, safety_socks5 = SafetyVerified,
     providerNetworkScope = ExternalPublicOnly, health_source = HealthProviderApiOrProbe,
     capacity_observation = ObserveProviderApiOrEvidence, provisioning = ProvisionUnsupported\<rparr>"

definition sample_adapter :: "ProviderId \<Rightarrow> ProviderClass \<Rightarrow> ProviderAdapter" where
  "sample_adapter i cls =
     \<lparr>descriptor = \<lparr>desc_id = i, providerClass = cls, capabilities = sample_capabilities, pricing_version = ''v'',
        pricing_model = PerGib, amountUsd = 5, costRank = 1\<rparr>, candidates = None\<rparr>"

definition sample_auth_route :: AuthenticatedRoute where
  "sample_auth_route = \<lparr>rp_name = ''n'', customerId = ''k'', geography = None, rp_carrier = None,
     providerOverride = None, allowConnectionRetry = True, userId = ''u'', allowedProtocols = [Http],
     targeting = \<lparr>country = None, region = None, city = None, postalCode = None, asn = None, carrier = None\<rparr>,
     rotation = PerRequest, shouldRetry = True, retryPolicy = \<lparr>maxAttempts = 3\<rparr>, route_id = ''r'',
     route_status = RouteReady, route_terminateActive = False, route_createdAt = 0, route_updatedAt = 0,
     ar_accessGrantId = ''g'', ar_credentialId = ''c'', ar_jobId = None, ar_sessionMode = Stateless,
     ar_sessionId = None\<rparr>"

definition idle_score :: "bool \<Rightarrow> CandidateScore" where
  "idle_score full = \<lparr>cand_score = 50, cand_components = \<lparr>reliability = 1, headroom = 1, performance = 1,
     costEfficiency = 1, stability = 1\<rparr>, cand_saturated = full\<rparr>"

theorem preferred_class_first_witness:
  "\<exists>h rest st'. order_scored code_unit_compare sample_auth_route
      [mk_scored 0 (sample_adapter ''d'' DeviceBacked) 0 (idle_score False),
       mk_scored 1 (sample_adapter ''x'' Residential) 3 (idle_score False)] createResolutionState = (Inr (h # rest), st')
     \<and> sc_class h = Residential \<and> sc_load h \<le> 3"
  using preferred_class_first [OF code_unit.collation_axioms,
      where st = createResolutionState and route = sample_auth_route
        and c = "mk_scored 1 (sample_adapter ''x'' Residential) 3 (idle_score False)"
        and scored = "[mk_scored 0 (sample_adapter ''d'' DeviceBacked) 0 (idle_score False),
          mk_scored 1 (sample_adapter ''x'' Residential) 3 (idle_score False)]"]
  by (simp add: createResolutionState_def sc_class_def mk_scored_def sample_adapter_def sample_auth_route_def
      idle_score_def) blast

end
