(* ===== verification/Deployment_Drain.thy ===== *)
theory Deployment_Drain
  imports Route_Store
begin

text \<open>
  The drain of retiring deployments: \<open>evaluateDeploymentDrain\<close> of \<open>src/release-policy.ts\<close> and
  \<open>coordinateDeploymentDrain\<close> of \<open>src/deployment-coordinator.ts\<close>. Dates are valid instants, so the
  parsing failures of the source do not arise. The notifier is an argument that may throw; the
  notifications it accepted are kept in order. The lambda handler around it (environment variables,
  SNS) is not modelled.
\<close>

datatype DrainAction = DrainComplete | DrainWait | DrainNotify | DrainEscalate | DrainTerminate

record DrainEvaluation =
  drain_action :: DrainAction
  ageMs :: int
  nextPollAt :: "timestamp option"

definition drain_extended :: "timestamp option \<Rightarrow> timestamp \<Rightarrow> bool" where
  "drain_extended ext now = (case ext of None \<Rightarrow> False | Some x \<Rightarrow> now < x)"

definition evaluateDeploymentDrain ::
  "timestamp \<Rightarrow> timestamp \<Rightarrow> int \<Rightarrow> timestamp option \<Rightarrow> timestamp option \<Rightarrow> DrainEvaluation result" where
  "evaluateDeploymentDrain started now active lastNotification ext =
     (if now < started then Inl (throw_error ''Deployment drain timestamps must be valid and monotonic'')
      else if active < 0 then Inl (throw_error ''activeTunnelCount must be a non-negative integer'')
      else let age = now - started
           in if active = 0 then Inr \<lparr>drain_action = DrainComplete, ageMs = age, nextPollAt = None\<rparr>
              else if \<not> drain_extended ext now \<and> DEPLOYMENT_TERMINATE_AFTER_MS \<le> age
              then Inr \<lparr>drain_action = DrainTerminate, ageMs = age, nextPollAt = None\<rparr>
              else let notificationDue =
                         (case lastNotification of None \<Rightarrow> True | Some l \<Rightarrow> DEPLOYMENT_NOTIFY_AFTER_MS \<le> now - l)
                   in Inr \<lparr>drain_action =
                             (if DEPLOYMENT_ESCALATE_AFTER_MS \<le> age \<and> notificationDue then DrainEscalate
                              else if DEPLOYMENT_NOTIFY_AFTER_MS \<le> age \<and> notificationDue then DrainNotify
                              else DrainWait),
                           ageMs = age, nextPollAt = Some (now + DEPLOYMENT_POLL_INTERVAL_MS)\<rparr>)"

record DeploymentDrainNotification =
  dn_action :: DrainAction
  dn_deploymentId :: string
  dn_ageMs :: int
  dn_activeTunnelCount :: nat
  dn_routeIds :: "string list"
  dn_accessGrantIds :: "string list"

record DeploymentDrainResult =
  drain_complete :: bool
  drain_activeTunnelCount :: nat
  retryAfterMs :: int

type_synonym drain_state = "StoreState \<times> DeploymentDrainNotification list"
type_synonym notifier = "DeploymentDrainNotification \<Rightarrow> unit result"

definition group_tunnels :: "ActiveTunnel list \<Rightarrow> (string, ActiveTunnel list) js_map" where
  "group_tunnels ts =
     foldl (\<lambda>m t. js_set m (deploymentId t)
              ((case js_get m (deploymentId t) of None \<Rightarrow> [] | Some xs \<Rightarrow> xs) @ [t])) [] ts"

definition notifies :: "DrainAction \<Rightarrow> bool" where
  "notifies a \<longleftrightarrow> a = DrainNotify \<or> a = DrainEscalate \<or> a = DrainTerminate"

definition drain_notification ::
  "string \<Rightarrow> DrainEvaluation \<Rightarrow> ActiveTunnel list \<Rightarrow> DeploymentDrainNotification" where
  "drain_notification did ev ts =
     \<lparr>dn_action = drain_action ev, dn_deploymentId = did, dn_ageMs = ageMs ev, dn_activeTunnelCount = length ts,
      dn_routeIds = js_sort code_unit_compare (remdups (map tun_routeId ts)),
      dn_accessGrantIds = js_sort code_unit_compare (remdups (map tun_accessGrantId ts))\<rparr>"

definition next_drain_state ::
  "timestamp \<Rightarrow> string \<Rightarrow> timestamp \<Rightarrow> DeploymentDrainState option \<Rightarrow> DrainEvaluation \<Rightarrow> DeploymentDrainState" where
  "next_drain_state now did started existing ev =
     \<lparr>drain_deploymentId = did, drain_startedAt = started,
      terminateRemaining =
        ((case existing of None \<Rightarrow> False | Some d \<Rightarrow> terminateRemaining d) \<or> drain_action ev = DrainTerminate),
      lastNotificationAt =
        (if notifies (drain_action ev) then Some now
         else case existing of None \<Rightarrow> None | Some d \<Rightarrow> lastNotificationAt d),
      extensionUntil = (case existing of None \<Rightarrow> None | Some d \<Rightarrow> extensionUntil d),
      drain_updatedAt = now\<rparr>"

definition drain_deployment ::
  "timestamp \<Rightarrow> notifier \<Rightarrow> string \<times> ActiveTunnel list \<Rightarrow> (exn, drain_state, unit) op" where
  "drain_deployment now notify entry st =
     (case entry of (did, ts) \<Rightarrow>
        let existing = getDeploymentDrain did (fst st)
        in case js_sort (by_key id) (map startedAt ts) of
             [] \<Rightarrow> (Inl (throw_error (''Deployment '' @ did @ '' has no active tunnels'')), st)
           | earliest # _ \<Rightarrow>
               let started = (case existing of None \<Rightarrow> earliest | Some d \<Rightarrow> drain_startedAt d)
               in case evaluateDeploymentDrain started now (int (length ts))
                         (case existing of None \<Rightarrow> None | Some d \<Rightarrow> lastNotificationAt d)
                         (case existing of None \<Rightarrow> None | Some d \<Rightarrow> extensionUntil d) of
                    Inl e \<Rightarrow> (Inl e, st)
                  | Inr ev \<Rightarrow>
                      let s = saveDeploymentDrain (next_drain_state now did started existing ev) (fst st)
                      in if \<not> notifies (drain_action ev) then (Inr (), s, snd st)
                         else case notify (drain_notification did ev ts) of
                                Inl e \<Rightarrow> (Inl e, s, snd st)
                              | Inr _ \<Rightarrow> (Inr (), s, snd st @ [drain_notification did ev ts]))"

definition retiring_tunnels :: "string comparator \<Rightarrow> timestamp \<Rightarrow> string \<Rightarrow> StoreState \<Rightarrow> ActiveTunnel list" where
  "retiring_tunnels lc now current s = filter (\<lambda>t. deploymentId t \<noteq> current) (listAllActiveTunnels lc now s)"

definition coordinateDeploymentDrain ::
  "string comparator \<Rightarrow> string \<Rightarrow> timestamp \<Rightarrow> notifier \<Rightarrow> (exn, drain_state, DeploymentDrainResult) op" where
  "coordinateDeploymentDrain lc current now notify st =
     (let active = retiring_tunnels lc now current (fst st)
      in if active = []
         then (Inr \<lparr>drain_complete = True, drain_activeTunnelCount = 0, retryAfterMs = 0\<rparr>, st)
         else bind_op (for_each_op (drain_deployment now notify) (group_tunnels active))
                (\<lambda>_. return_op \<lparr>drain_complete = False, drain_activeTunnelCount = length active,
                                retryAfterMs = DEPLOYMENT_POLL_INTERVAL_MS\<rparr>) st)"

subsection \<open>Grouping\<close>

lemma group_tunnels_get:
  "js_get (group_tunnels ts) d =
     (if filter (\<lambda>t. deploymentId t = d) ts = [] then None else Some (filter (\<lambda>t. deploymentId t = d) ts))"
proof (induction ts rule: rev_induct)
  case (snoc t ts)
  then show ?case by (auto simp: group_tunnels_def)
qed (simp add: group_tunnels_def)

lemma group_tunnels_wf: "js_wf (group_tunnels ts)"
  by (induction ts rule: rev_induct) (simp_all add: group_tunnels_def)

lemma group_tunnels_entry:
  "(d, xs) \<in> set (group_tunnels ts) \<longleftrightarrow> xs = filter (\<lambda>t. deploymentId t = d) ts \<and> xs \<noteq> []"
  by (auto simp: js_mem_get [OF group_tunnels_wf] group_tunnels_get)

subsection \<open>Termination orders\<close>

lemma drain_deployment_other:
  "d \<noteq> fst entry \<Longrightarrow> js_get (st_drains (fst (snd (drain_deployment now notify entry st)))) d = js_get (st_drains (fst st)) d"
  by (cases entry) (simp add: drain_deployment_def Let_def saveDeploymentDrain_def next_drain_state_def
      split: list.split sum.split)

lemma drain_deployment_keeps:
  "shouldTerminateDeployment d (fst st) \<Longrightarrow> shouldTerminateDeployment d (fst (snd (drain_deployment now notify entry st)))"
  by (cases entry) (auto simp: drain_deployment_def Let_def saveDeploymentDrain_def next_drain_state_def
      shouldTerminateDeployment_def getDeploymentDrain_def split: list.split sum.split option.splits)

text \<open>
  An order to terminate what remains of a deployment is never withdrawn by the coordinator,
  also when it fails half way.
\<close>

theorem termination_order_kept:
  assumes "shouldTerminateDeployment d s"
  shows "shouldTerminateDeployment d (fst (snd (coordinateDeploymentDrain lc current now notify (s, sent))))"
proof -
  have "shouldTerminateDeployment d (fst (snd (for_each_op (drain_deployment now notify) entries (s, sent))))" for entries
    by (rule for_each_op_preserves [where P = "\<lambda>st. shouldTerminateDeployment d (fst st)"])
       (use assms in \<open>auto intro: drain_deployment_keeps\<close>)
  then show ?thesis
    using assms
    by (auto simp: coordinateDeploymentDrain_def Let_def bind_op_def split: prod.split sum.split)
       (metis fst_conv snd_conv)+
qed

definition sample_drain :: DeploymentDrainState where
  "sample_drain = \<lparr>drain_deploymentId = ''d'', drain_startedAt = 0, terminateRemaining = True,
     lastNotificationAt = None, extensionUntil = None, drain_updatedAt = 0\<rparr>"

theorem termination_order_kept_witness:
  "shouldTerminateDeployment ''d'' (saveDeploymentDrain sample_drain empty_store)
   \<and> shouldTerminateDeployment ''d'' (fst (snd (coordinateDeploymentDrain code_unit_compare ''e'' 5 (\<lambda>_. Inr ())
        (saveDeploymentDrain sample_drain empty_store, []))))"
proof -
  have order: "shouldTerminateDeployment ''d'' (saveDeploymentDrain sample_drain empty_store)"
    by (simp add: shouldTerminateDeployment_def saveDeploymentDrain_def sample_drain_def)
  from termination_order_kept [OF order] order show ?thesis by blast
qed

text \<open>What a successful round leaves for the deployments it looked at.\<close>

lemma drain_deployment_ok:
  assumes "drain_deployment now notify (did, ts) st = (Inr (), st')"
  obtains earliest rest ev where "js_sort (by_key id) (map startedAt ts) = earliest # rest"
    "evaluateDeploymentDrain (case getDeploymentDrain did (fst st) of None \<Rightarrow> earliest | Some d \<Rightarrow> drain_startedAt d)
        now (int (length ts))
        (case getDeploymentDrain did (fst st) of None \<Rightarrow> None | Some d \<Rightarrow> lastNotificationAt d)
        (case getDeploymentDrain did (fst st) of None \<Rightarrow> None | Some d \<Rightarrow> extensionUntil d) = Inr ev"
    "js_get (st_drains (fst st')) did = Some (next_drain_state now did
        (case getDeploymentDrain did (fst st) of None \<Rightarrow> earliest | Some d \<Rightarrow> drain_startedAt d)
        (getDeploymentDrain did (fst st)) ev)"
  using assms
  by (auto simp: drain_deployment_def Let_def saveDeploymentDrain_def next_drain_state_def
      split: list.splits sum.splits if_splits)

lemma for_each_drain_entry:
  assumes "for_each_op (drain_deployment now notify) entries st = (Inr (), st')" and "distinct (map fst entries)"
    and "(did, ts) \<in> set entries"
  obtains st1 st2 where "drain_deployment now notify (did, ts) st1 = (Inr (), st2)"
    "js_get (st_drains (fst st1)) did = js_get (st_drains (fst st)) did"
    "js_get (st_drains (fst st')) did = js_get (st_drains (fst st2)) did"
  using assms
proof (induction entries arbitrary: st thesis)
  case (Cons e es)
  from Cons.prems(2) obtain st1 where st1: "drain_deployment now notify e st = (Inr (), st1)"
      "for_each_op (drain_deployment now notify) es st1 = (Inr (), st')"
    by (auto elim!: bind_op_InrE)
  show ?case
  proof (cases "e = (did, ts)")
    case True
    have "js_get (st_drains (fst (snd (for_each_op (drain_deployment now notify) es st1)))) did
        = js_get (st_drains (fst st1)) did"
    proof (rule for_each_op_preserves [where P = "\<lambda>s. js_get (st_drains (fst s)) did = js_get (st_drains (fst st1)) did"])
      fix x and s :: drain_state
      assume "x \<in> set es" "js_get (st_drains (fst s)) did = js_get (st_drains (fst st1)) did"
      moreover from \<open>x \<in> set es\<close> Cons.prems(3) True have "did \<noteq> fst x" by auto
      ultimately show "js_get (st_drains (fst (snd (drain_deployment now notify x s)))) did = js_get (st_drains (fst st1)) did"
        by (simp add: drain_deployment_other)
    qed simp
    with True st1 Cons.prems(1) [of st st1] show ?thesis by simp
  next
    case False
    with Cons.prems(3,4) have mem: "(did, ts) \<in> set es" "distinct (map fst es)" "did \<noteq> fst e"
      by (auto simp: image_iff)
    from Cons.IH [OF _ st1(2) mem(2,1)] obtain st2 st3 where
      "drain_deployment now notify (did, ts) st2 = (Inr (), st3)"
      "js_get (st_drains (fst st2)) did = js_get (st_drains (fst st1)) did"
      "js_get (st_drains (fst st')) did = js_get (st_drains (fst st3)) did" by blast
    moreover from drain_deployment_other [OF mem(3), of now notify st] st1(1)
    have "js_get (st_drains (fst st1)) did = js_get (st_drains (fst st)) did" by simp
    ultimately show ?thesis using Cons.prems(1) by metis
  qed
qed simp

lemma evaluate_overdue:
  assumes "evaluateDeploymentDrain started now n l ext = Inr ev" and "0 < n"
    and "started + DEPLOYMENT_TERMINATE_AFTER_MS \<le> now" and "\<not> drain_extended ext now"
  shows "drain_action ev = DrainTerminate"
  using assms by (auto simp: evaluateDeploymentDrain_def Let_def split: if_splits)

text \<open>
  A retiring deployment is not kept alive for ever: when the coordinator completes a round, any
  other deployment that still has a live tunnel and whose drain began at least six hours ago (or
  whose tunnel did, when no drain is recorded), and that has no extension running, is ordered to
  terminate what remains.
\<close>

theorem overdue_deployment_terminated:
  assumes "coordinateDeploymentDrain lc current now notify (s, sent) = (Inr r, (s', sent'))"
    and "t \<in> set (listAllActiveTunnels lc now s)" and "deploymentId t \<noteq> current"
    and "case getDeploymentDrain (deploymentId t) s of
           None \<Rightarrow> startedAt t + DEPLOYMENT_TERMINATE_AFTER_MS \<le> now
         | Some d \<Rightarrow> drain_startedAt d + DEPLOYMENT_TERMINATE_AFTER_MS \<le> now \<and> \<not> drain_extended (extensionUntil d) now"
  shows "shouldTerminateDeployment (deploymentId t) s'"
proof -
  let ?active = "retiring_tunnels lc now current s" and ?d = "deploymentId t"
  let ?ts = "filter (\<lambda>x. deploymentId x = ?d) ?active"
  have t: "t \<in> set ?ts" using assms(2,3) by (simp add: retiring_tunnels_def)
  then have entry: "(?d, ?ts) \<in> set (group_tunnels ?active)" by (auto simp: group_tunnels_entry filter_empty_conv)
  from t have "?active \<noteq> []" by auto
  with assms(1) have "for_each_op (drain_deployment now notify) (group_tunnels ?active) (s, sent) = (Inr (), (s', sent'))"
    by (auto simp: coordinateDeploymentDrain_def Let_def elim!: bind_op_InrE)
  from for_each_drain_entry [OF this group_tunnels_wf [unfolded js_wf_def] entry]
  obtain st1 st2 where one: "drain_deployment now notify (?d, ?ts) st1 = (Inr (), st2)"
    and before: "getDeploymentDrain ?d (fst st1) = getDeploymentDrain ?d s"
    and after: "js_get (st_drains s') ?d = js_get (st_drains (fst st2)) ?d"
    unfolding getDeploymentDrain_def fst_conv by blast
  from one obtain earliest rest ev where e: "js_sort (by_key id) (map startedAt ?ts) = earliest # rest"
    and ev: "evaluateDeploymentDrain (case getDeploymentDrain ?d s of None \<Rightarrow> earliest | Some d \<Rightarrow> drain_startedAt d)
        now (int (length ?ts)) (case getDeploymentDrain ?d s of None \<Rightarrow> None | Some d \<Rightarrow> lastNotificationAt d)
        (case getDeploymentDrain ?d s of None \<Rightarrow> None | Some d \<Rightarrow> extensionUntil d) = Inr ev"
    and saved: "js_get (st_drains (fst st2)) ?d = Some (next_drain_state now ?d
        (case getDeploymentDrain ?d s of None \<Rightarrow> earliest | Some d \<Rightarrow> drain_startedAt d) (getDeploymentDrain ?d s) ev)"
    by (rule drain_deployment_ok) (simp add: before)
  have "earliest \<le> startedAt t"
    using by_key.js_sort_hd_least [OF e, of "startedAt t"] t by (auto simp: by_key_def)
  with assms(4) t have "drain_action ev = DrainTerminate"
    by (intro evaluate_overdue [OF ev]) (auto simp: drain_extended_def filter_empty_conv split: option.splits)
  with saved after show ?thesis by (simp add: shouldTerminateDeployment_def next_drain_state_def)
qed

definition sample_tunnel :: ActiveTunnel where
  "sample_tunnel = \<lparr>tun_id = ''t'', deploymentId = ''old'', tun_routeId = ''r'', tun_accessGrantId = ''g'',
     tun_sessionId = None, tun_protocol = Http, tun_provider = ''p'', tun_endpointId = None,
     tun_routingPolicyVersion = None, tun_routingScore = None, startedAt = 0, lastHeartbeatAt = 0,
     tun_expiresAt = 30000000\<rparr>"

theorem overdue_deployment_terminated_witness:
  "\<exists>r s' sent'. coordinateDeploymentDrain code_unit_compare ''new'' 21600000 (\<lambda>_. Inr ())
        (snd (registerActiveTunnel sample_tunnel empty_store), []) = (Inr r, (s', sent'))
     \<and> shouldTerminateDeployment ''old'' s'"
proof -
  let ?s = "snd (registerActiveTunnel sample_tunnel empty_store)"
  let ?c = "coordinateDeploymentDrain code_unit_compare ''new'' 21600000 (\<lambda>_. Inr ()) (?s, [])"
  have "\<exists>r. fst ?c = Inr r" 
    by (simp add: coordinateDeploymentDrain_def retiring_tunnels_def listAllActiveTunnels_def registerActiveTunnel_def
        empty_store_def js_has_def js_values_def js_set_def sample_tunnel_def group_tunnels_def Let_def bind_op_def
        drain_deployment_def getDeploymentDrain_def evaluateDeploymentDrain_def drain_extended_def notifies_def policy_defs)
  then obtain r s' sent' where c: "?c = (Inr r, (s', sent'))" by (metis prod.collapse)
  have t: "sample_tunnel \<in> set (listAllActiveTunnels code_unit_compare 21600000 ?s)"
    by (simp add: listAllActiveTunnels_def registerActiveTunnel_def empty_store_def js_has_def js_values_def js_set_def
        sample_tunnel_def)
  have "getDeploymentDrain (deploymentId sample_tunnel) ?s = None"
    by (simp add: getDeploymentDrain_def registerActiveTunnel_def empty_store_def)
  with overdue_deployment_terminated [OF c t] c show ?thesis
    by (auto simp: sample_tunnel_def policy_defs)
qed

end
