(* ===== verification/Capacity_Planning.thy ===== *)
theory Capacity_Planning
  imports Complex_Main Service_Policies Health_Usage_Domain
begin

text \<open>
  \<open>recommendCapacity\<close> of \<open>src/capacity-policy.ts\<close>: how many slots a provider needs for the load it
  saw, with headroom. Numbers are reals.
\<close>

record CapacityRecommendationInput =
  ri_provisionedSlots :: int
  ri_peakConcurrentConnections :: real
  ri_observedMbps :: real
  ri_prioritizedGbForecast :: real
  ri_limitingConstraint :: "CapacityConstraint option"
  ri_monthlyPricePerSlotUsd :: real

record CapacityRecommendation =
  rec_policyVersion :: string
  rec_evaluatedAt :: timestamp
  recommendedSlots :: int
  slotDelta :: int
  estimatedMonthlyCostDeltaUsd :: real
  suppressed :: bool
  ev_concurrencySlots :: int
  ev_throughputSlots :: int
  ev_prioritizedDataSlots :: int
  ev_limitingConstraint :: "CapacityConstraint option"

definition capacity_headroom :: "CapacityPolicy \<Rightarrow> real" where
  "capacity_headroom policy = 1 + headroomPercent policy / 100"

definition recommendCapacity :: "CapacityRecommendationInput \<Rightarrow> CapacityPolicy \<Rightarrow> timestamp \<Rightarrow> CapacityRecommendation" where
  "recommendCapacity i policy now =
     (let headroom = capacity_headroom policy;
          concurrencySlots = \<lceil>ri_peakConcurrentConnections i * headroom / real_of_int (softConnectionsPerSlot policy)\<rceil>;
          throughputSlots = \<lceil>ri_observedMbps i * headroom / plannedMbpsPerSlot policy\<rceil>;
          prioritizedDataSlots =
            \<lceil>ri_prioritizedGbForecast i * headroom / prioritizedGbPerSlotPerBillingPeriod policy\<rceil>;
          recommended = max 0 (max concurrencySlots (max throughputSlots prioritizedDataSlots));
          supp = (ri_limitingConstraint i = Some GeographyConstraint \<or> ri_limitingConstraint i = Some CarrierConstraint);
          delta = (if supp then 0 else recommended - ri_provisionedSlots i)
      in \<lparr>rec_policyVersion = capacity_version policy, rec_evaluatedAt = now, recommendedSlots = recommended,
          slotDelta = delta,
          estimatedMonthlyCostDeltaUsd = real_of_int delta * ri_monthlyPricePerSlotUsd i,
          suppressed = supp, ev_concurrencySlots = concurrencySlots, ev_throughputSlots = throughputSlots,
          ev_prioritizedDataSlots = prioritizedDataSlots, ev_limitingConstraint = ri_limitingConstraint i\<rparr>)"

text \<open>What it takes for a number of slots to carry the observed load with the policy's headroom.\<close>

definition slots_suffice :: "CapacityRecommendationInput \<Rightarrow> CapacityPolicy \<Rightarrow> int \<Rightarrow> bool" where
  "slots_suffice i policy n \<longleftrightarrow>
     0 \<le> n
     \<and> ri_peakConcurrentConnections i * capacity_headroom policy \<le> real_of_int n * real_of_int (softConnectionsPerSlot policy)
     \<and> ri_observedMbps i * capacity_headroom policy \<le> real_of_int n * plannedMbpsPerSlot policy
     \<and> ri_prioritizedGbForecast i * capacity_headroom policy \<le> real_of_int n * prioritizedGbPerSlotPerBillingPeriod policy"

lemma ceiling_divide_le: "0 < c \<Longrightarrow> \<lceil>a / c\<rceil> \<le> n \<longleftrightarrow> a \<le> real_of_int n * c"
  by (simp add: ceiling_le_iff pos_divide_le_eq)

text \<open>
  The recommended number of slots is the least that carries the observed load with headroom in
  all three dimensions (connections, throughput and prioritised data). A shortage of geography or
  carrier, which more slots would not cure, suppresses the change; otherwise provisioned slots plus
  the recommended change give the recommendation.
\<close>

theorem recommendation_is_least:
  "(slots_suffice i CAPACITY_POLICY n \<longleftrightarrow> recommendedSlots (recommendCapacity i CAPACITY_POLICY now) \<le> n)
   \<and> (if suppressed (recommendCapacity i CAPACITY_POLICY now)
      then slotDelta (recommendCapacity i CAPACITY_POLICY now) = 0
      else ri_provisionedSlots i + slotDelta (recommendCapacity i CAPACITY_POLICY now)
           = recommendedSlots (recommendCapacity i CAPACITY_POLICY now))"
  by (auto simp: recommendCapacity_def slots_suffice_def Let_def ceiling_divide_le CAPACITY_POLICY_def)

end
