(* ===== verification/Validation.thy ===== *)
theory Validation
  imports Service_Policies Errors
begin

text \<open>
  \<open>src/validation.ts\<close>: what a request body must be for a route profile or a grant to be created from
  it. Bodies are JSON values. The structural decoding of a profile is the Effect library's, driven by
  \<open>src/route-profile-schema.ts\<close>: it is the argument \<open>decoded\<close>, a payload or the error it reported.
  Strings are ASCII, so \<open>trim\<close> and \<open>toUpperCase\<close> act on ASCII characters.
\<close>

datatype json = JNull | JBool bool | JNumber real | JString string | JArray "json list" | JObject "(string \<times> json) list"

record GeographyPayload =
  gp_countryCode :: "string option"
  gp_regionCode :: "string option"
  gp_city :: "string option"

record RouteProfilePayload =
  in_customerId :: string
  in_geography :: "GeographyPayload option"
  in_carrier :: "string option"
  in_providerOverride :: "string option"
  in_allowConnectionRetry :: bool

subsection \<open>Strings\<close>

definition is_space :: "char \<Rightarrow> bool" where
  "is_space c \<longleftrightarrow> c = CHR '' '' \<or> (9 \<le> (of_char c :: nat) \<and> (of_char c :: nat) \<le> 13)"

definition trim :: "string \<Rightarrow> string" where
  "trim s = rev (dropWhile is_space (rev (dropWhile is_space s)))"

definition is_letter :: "char \<Rightarrow> bool" where
  "is_letter c \<longleftrightarrow> (65 \<le> (of_char c :: nat) \<and> (of_char c :: nat) \<le> 90) \<or> (97 \<le> (of_char c :: nat) \<and> (of_char c :: nat) \<le> 122)"

definition to_upper :: "char \<Rightarrow> char" where
  "to_upper c = (if 97 \<le> (of_char c :: nat) \<and> (of_char c :: nat) \<le> 122 then char_of ((of_char c :: nat) - 32) else c)"

definition COUNTRY_CODE :: "string \<Rightarrow> bool" where
  "COUNTRY_CODE s \<longleftrightarrow> length s = 2 \<and> list_all is_letter s"

definition invalid :: "string \<Rightarrow> 'a result" where
  "invalid msg = Inl (throw (validationError msg))"

definition req_string :: "string \<Rightarrow> string \<Rightarrow> string result" where
  "req_string v field = (if trim v = [] then invalid (field @ '' must be a non-empty string'') else Inr (trim v))"

definition json_string :: "json \<Rightarrow> string \<Rightarrow> string result" where
  "json_string v field =
     (case v of JString s \<Rightarrow> req_string s field | _ \<Rightarrow> invalid (field @ '' must be a non-empty string''))"

definition optionalString :: "string option \<Rightarrow> string \<Rightarrow> string option result" where
  "optionalString v field =
     (case v of
        None \<Rightarrow> Inr None
      | Some s \<Rightarrow> (case req_string s field of Inl e \<Rightarrow> Inl e | Inr x \<Rightarrow> Inr (Some x)))"

definition json_object :: "json \<Rightarrow> string \<Rightarrow> (string \<times> json) list result" where
  "json_object v field = (case v of JObject fs \<Rightarrow> Inr fs | _ \<Rightarrow> invalid (field @ '' must be an object''))"

definition rejectUnknown :: "(string \<times> json) list \<Rightarrow> string list \<Rightarrow> string \<Rightarrow> unit result" where
  "rejectUnknown fs known ctxt =
     (case List.find (\<lambda>k. k \<notin> set known) (map fst fs) of
        None \<Rightarrow> Inr ()
      | Some k \<Rightarrow> invalid (ctxt @ ''.'' @ k @ '' is not part of the contract''))"

definition bind_result :: "'a result \<Rightarrow> ('a \<Rightarrow> 'b result) \<Rightarrow> 'b result" where
  "bind_result r f = (case r of Inl e \<Rightarrow> Inl e | Inr a \<Rightarrow> f a)"

lemma bind_result_Inr [simp]: "bind_result (Inr a) f = f a"
  by (simp add: bind_result_def)

lemma bind_result_Inl [simp]: "bind_result (Inl e) f = Inl e"
  by (simp add: bind_result_def)

lemma bind_result_InrE:
  assumes "bind_result r f = Inr b"
  obtains a where "r = Inr a" and "f a = Inr b"
  using assms by (auto simp: bind_result_def split: sum.splits)

subsection \<open>Profiles\<close>

definition no_targeting :: Targeting where
  "no_targeting = \<lparr>country = None, region = None, city = None, postalCode = None, asn = None, carrier = None\<rparr>"

definition parseGeography :: "GeographyPayload option \<Rightarrow> (Geography option \<times> Targeting) result" where
  "parseGeography v =
     (case v of
        None \<Rightarrow> Inr (None, no_targeting)
      | Some g \<Rightarrow>
          bind_result (optionalString (gp_countryCode g) ''geography.countryCode'') (\<lambda>rawCountry.
          let cc = map_option (map to_upper) rawCountry
          in if (case cc of None \<Rightarrow> False | Some c \<Rightarrow> \<not> COUNTRY_CODE c)
             then invalid ''geography.countryCode must be a two-letter ISO country code''
             else bind_result (optionalString (gp_regionCode g) ''geography.regionCode'') (\<lambda>rc.
                  bind_result (optionalString (gp_city g) ''geography.city'') (\<lambda>ct.
                  if cc = None \<and> (rc \<noteq> None \<or> ct \<noteq> None)
                  then invalid ''geography.regionCode and geography.city require geography.countryCode''
                  else Inr (Some \<lparr>countryCode = cc, regionCode = rc, geo_city = ct\<rparr>,
                            no_targeting\<lparr>country := cc, region := rc, city := ct\<rparr>)))))"

definition validateRouteProfile :: "RouteProfilePayload result \<Rightarrow> string \<Rightarrow> RetryPolicy \<Rightarrow> RouteProfile result" where
  "validateRouteProfile decoded uid retryDefaults =
     bind_result decoded (\<lambda>input.
     bind_result (parseGeography (in_geography input)) (\<lambda>(geo, target).
     bind_result (optionalString (in_carrier input) ''carrier'') (\<lambda>carr.
     bind_result (optionalString (in_providerOverride input) ''providerOverride'') (\<lambda>override.
     bind_result (req_string (in_customerId input) ''customerId'') (\<lambda>cust.
     bind_result (req_string uid ''userId'') (\<lambda>user.
       Inr \<lparr>rp_name = cust, customerId = cust, geography = geo, rp_carrier = carr, providerOverride = override,
            allowConnectionRetry = in_allowConnectionRetry input, userId = user,
            allowedProtocols = [Http, Https, Socks5],
            targeting = (case carr of None \<Rightarrow> target | Some c \<Rightarrow> target\<lparr>carrier := Some c\<rparr>),
            rotation = PerRequest, shouldRetry = in_allowConnectionRetry input, retryPolicy = retryDefaults\<rparr>))))))"

definition validateGrantIssuance :: "json \<Rightarrow> (SessionMode \<times> string option) result" where
  "validateGrantIssuance v =
     bind_result (json_object v ''grant issuance'') (\<lambda>fs.
     bind_result (rejectUnknown fs [''sessionMode'', ''jobId''] ''grant issuance'') (\<lambda>_.
     if map_of fs ''sessionMode'' \<noteq> Some (JString ''managed'') \<and> map_of fs ''sessionMode'' \<noteq> Some (JString ''none'')
     then invalid ''sessionMode must be managed or none''
     else bind_result (case map_of fs ''jobId'' of
                         None \<Rightarrow> Inr None
                       | Some j \<Rightarrow> (case json_string j ''jobId'' of Inl e \<Rightarrow> Inl e | Inr x \<Rightarrow> Inr (Some x))) (\<lambda>jid.
          Inr (if map_of fs ''sessionMode'' = Some (JString ''managed'') then Managed else Stateless, jid))))"

subsection \<open>What validation guarantees\<close>

definition trimmed :: "string \<Rightarrow> bool" where
  "trimmed s \<longleftrightarrow> s \<noteq> [] \<and> \<not> is_space (hd s) \<and> \<not> is_space (last s)"

lemma dropWhile_ends: "dropWhile P xs \<noteq> [] \<Longrightarrow> \<not> P (hd (dropWhile P xs))"
  by (rule hd_dropWhile) (auto dest: dropWhile_eq_Nil_conv [THEN iffD2])

lemma trim_trimmed: "trim s \<noteq> [] \<Longrightarrow> trimmed (trim s)"
proof -
  let ?a = "dropWhile is_space s"
  assume ne: "trim s \<noteq> []"
  then have inner: "dropWhile is_space (rev ?a) \<noteq> []" by (simp add: trim_def)
  have "\<not> is_space (last (trim s))"
    using dropWhile_ends [OF inner] by (simp add: trim_def last_rev)
  moreover have "\<not> is_space (hd (trim s))"
  proof -
    obtain pre where pre: "rev ?a = pre @ dropWhile is_space (rev ?a)"
      by (metis takeWhile_dropWhile_id)
    then have "?a = trim s @ rev pre" by (metis rev_append rev_rev_ident trim_def)
    moreover from this ne have "?a \<noteq> []" by auto
    ultimately show ?thesis using dropWhile_ends [of is_space s] ne by (metis hd_append2)
  qed
  ultimately show ?thesis using ne by (simp add: trimmed_def)
qed

lemma req_string_ok: "req_string s f = Inr x \<Longrightarrow> trimmed x"
  by (auto simp: req_string_def invalid_def trim_trimmed split: if_splits)

lemma optionalString_ok: "optionalString v f = Inr (Some x) \<Longrightarrow> trimmed x"
  by (auto simp: optionalString_def req_string_ok split: option.splits sum.splits)

definition is_upper :: "char \<Rightarrow> bool" where
  "is_upper c \<longleftrightarrow> 65 \<le> (of_char c :: nat) \<and> (of_char c :: nat) \<le> 90"

lemma to_upper_letter: "is_letter (to_upper c) \<Longrightarrow> is_upper (to_upper c)"
  by (auto simp: is_letter_def is_upper_def to_upper_def split: if_splits)

lemma country_upper: "COUNTRY_CODE (map to_upper c) \<Longrightarrow> length c = 2 \<and> list_all is_upper (map to_upper c)"
  by (auto simp: COUNTRY_CODE_def list_all_iff to_upper_letter)

text \<open>
  C36. A profile that passes validation is well formed: its customer and user are trimmed and not
  empty, a country is two capital letters, a region or city comes only with a country, the targeting
  handed to the providers is exactly the geography and carrier of the profile, every protocol is
  allowed and the retry switch follows the request.
\<close>

theorem validated_profile_wf:
  assumes "validateRouteProfile decoded uid retry = Inr p"
  shows "trimmed (customerId p) \<and> trimmed (userId p) \<and> rp_name p = customerId p
    \<and> (case country (targeting p) of
         None \<Rightarrow> region (targeting p) = None \<and> city (targeting p) = None
       | Some c \<Rightarrow> length c = 2 \<and> list_all is_upper c)
    \<and> carrier (targeting p) = rp_carrier p \<and> postalCode (targeting p) = None \<and> asn (targeting p) = None
    \<and> (case geography p of
         None \<Rightarrow> country (targeting p) = None
       | Some g \<Rightarrow> countryCode g = country (targeting p) \<and> regionCode g = region (targeting p)
                   \<and> geo_city g = city (targeting p))
    \<and> allowedProtocols p = [Http, Https, Socks5] \<and> shouldRetry p = allowConnectionRetry p \<and> retryPolicy p = retry"
proof -
  obtain input where d: "decoded = Inr input"
    using assms by (auto simp: validateRouteProfile_def elim!: bind_result_InrE)
  obtain geo target where g: "parseGeography (in_geography input) = Inr (geo, target)"
    using assms by (auto simp: validateRouteProfile_def d elim!: bind_result_InrE)
  obtain carr override where "optionalString (in_carrier input) ''carrier'' = Inr carr"
      "optionalString (in_providerOverride input) ''providerOverride'' = Inr override"
    using assms by (auto simp: validateRouteProfile_def d g elim!: bind_result_InrE)
  note opts = this
  obtain cust user where cu: "req_string (in_customerId input) ''customerId'' = Inr cust"
    and us: "req_string uid ''userId'' = Inr user"
    using assms by (auto simp: validateRouteProfile_def d g opts elim!: bind_result_InrE)
  have p: "p = \<lparr>rp_name = cust, customerId = cust, geography = geo, rp_carrier = carr, providerOverride = override,
            allowConnectionRetry = in_allowConnectionRetry input, userId = user,
            allowedProtocols = [Http, Https, Socks5],
            targeting = (case carr of None \<Rightarrow> target | Some c \<Rightarrow> target\<lparr>carrier := Some c\<rparr>),
            rotation = PerRequest, shouldRetry = in_allowConnectionRetry input, retryPolicy = retry\<rparr>"
    using assms by (simp add: validateRouteProfile_def d g opts cu us)
  have t: "(case country target of None \<Rightarrow> region target = None \<and> city target = None
       | Some c \<Rightarrow> length c = 2 \<and> list_all is_upper c)
    \<and> carrier target = None \<and> postalCode target = None \<and> asn target = None
    \<and> (case geo of None \<Rightarrow> country target = None | Some g \<Rightarrow> countryCode g = country target
        \<and> regionCode g = region target \<and> geo_city g = city target)"
    using g country_upper by (auto simp: parseGeography_def Let_def invalid_def no_targeting_def
        elim!: bind_result_InrE split: option.splits if_splits)
  show ?thesis
    using t req_string_ok [OF cu] req_string_ok [OF us] unfolding p by (auto split: option.splits)
qed

definition sample_payload :: RouteProfilePayload where
  "sample_payload = \<lparr>in_customerId = '' acme '',
     in_geography = Some \<lparr>gp_countryCode = Some ''us'', gp_regionCode = None, gp_city = Some ''Austin''\<rparr>,
     in_carrier = None, in_providerOverride = None, in_allowConnectionRetry = True\<rparr>"

theorem validated_profile_wf_witness:
  "\<exists>p. validateRouteProfile (Inr sample_payload) ''u'' \<lparr>maxAttempts = 3\<rparr> = Inr p \<and> trimmed (customerId p)"
proof -
  have "case validateRouteProfile (Inr sample_payload) ''u'' \<lparr>maxAttempts = 3\<rparr> of Inr p \<Rightarrow> True | Inl e \<Rightarrow> False"
    by code_simp
  then obtain p where p: "validateRouteProfile (Inr sample_payload) ''u'' \<lparr>maxAttempts = 3\<rparr> = Inr p"
    by (auto split: sum.splits)
  from validated_profile_wf [OF p] p show ?thesis by blast
qed

end
