(* ===== verification/Access_Grants.thy ===== *)
theory Access_Grants
  imports Store_Contracts Provider_Selection Validation
begin

text \<open>
  \<open>src/access-grant-service.ts\<close> and \<open>src/route-administration.ts\<close>: the control plane's operations on
  routes, grants, credentials and sessions, each on behalf of a principal. Random identifiers, tokens
  and salts are arguments (\<open>Fresh\<close>), as is the clock. Besides the store an operation may ask the
  gateway to cut active connections; these requests are recorded in order. Log lines are left out.
\<close>

datatype termination_request = TerminateGrant string | TerminateSession string

type_synonym service_state = "StoreState \<times> termination_request list"
type_synonym 'a service_op = "(exn, service_state, 'a) op"

definition lift_store :: "'a store_op \<Rightarrow> 'a service_op" where
  "lift_store f st = (case f (fst st) of (r, s) \<Rightarrow> (r, s, snd st))"

definition lift_result :: "'a result \<Rightarrow> 'a service_op" where
  "lift_result r st = (r, st)"

definition request_termination :: "termination_request \<Rightarrow> unit service_op" where
  "request_termination t st = (Inr (), fst st, snd st @ [t])"

record Fresh =
  fresh_grantId :: string
  fresh_credentialId :: string
  fresh_sessionId :: string
  fresh_token :: string
  fresh_salt :: string

record ProxyEndpoints =
  pe_http :: string
  pe_socks5 :: string

record IssuedGrant =
  ig_grantId :: string
  ig_profileId :: string
  ig_jobId :: "string option"
  ig_status :: AccessGrantStatus
  ig_createdAt :: timestamp
  ig_updatedAt :: timestamp

record IssuedAccessGrant =
  issued_grant :: IssuedGrant
  issued_credential :: PublicAccessGrantCredential
  issued_password :: string
  issued_session :: "PublicLogicalSession option"
  issued_endpoints :: ProxyEndpoints

definition issuedGrant :: "PublicAccessGrant \<Rightarrow> IssuedGrant" where
  "issuedGrant g =
     \<lparr>ig_grantId = pg_grantId g, ig_profileId = pg_profileId g, ig_jobId = pg_jobId g, ig_status = pg_status g,
      ig_createdAt = pg_createdAt g, ig_updatedAt = pg_updatedAt g\<rparr>"

record AccessGrantServiceOptions =
  httpPort :: string
  socks5Port :: string
  advertisedProxyHost :: string
  advertisedHttpProxyProtocol :: string

definition proxyEndpoints :: "AccessGrantServiceOptions \<Rightarrow> ProxyEndpoints" where
  "proxyEndpoints o' =
     \<lparr>pe_http = advertisedHttpProxyProtocol o' @ ''://'' @ advertisedProxyHost o' @ '':'' @ httpPort o',
      pe_socks5 = ''socks5h://'' @ advertisedProxyHost o' @ '':'' @ socks5Port o'\<rparr>"

definition ownedAccessGrant :: "string \<Rightarrow> string \<Rightarrow> bool \<Rightarrow> StoredAccessGrant service_op" where
  "ownedAccessGrant gid owner includeRevoked st =
     (case getAccessGrant gid includeRevoked (fst st) of
        Inl e \<Rightarrow> (Inl e, st)
      | Inr g \<Rightarrow> if principalId g \<noteq> owner then (Inl (throw notFoundError), st) else (Inr g, st))"

definition newLogicalSession :: "timestamp \<Rightarrow> string \<Rightarrow> string \<Rightarrow> string \<Rightarrow> StoredLogicalSession" where
  "newLogicalSession now sid gid rid =
     \<lparr>session_id = sid, session_grantId = gid, session_routeId = rid, session_status = SessionOpen,
      session_terminateActive = False, bindingVersion = 0, affinity = None, preferredClassHealthySince = None,
      lastDisconnectedAt = None, closedAt = None, session_createdAt = now, session_updatedAt = now\<rparr>"

definition find_public :: "string \<Rightarrow> string \<Rightarrow> PublicAccessGrant \<Rightarrow> PublicAccessGrantCredential result" where
  "find_public cid missing g =
     (case List.find (\<lambda>c. pub_credentialId c = cid) (pg_credentials g) of
        None \<Rightarrow> Inl (throw_error missing)
      | Some c \<Rightarrow> Inr c)"

subsection \<open>Issuing\<close>

definition issue ::
  "token_hash \<Rightarrow> AccessGrantServiceOptions \<Rightarrow> timestamp \<Rightarrow> Fresh \<Rightarrow> string \<Rightarrow> string \<Rightarrow> SessionMode \<Rightarrow> string option \<Rightarrow>
   IssuedAccessGrant service_op" where
  "issue hash opts now f rid owner mode jid =
     (let sid = (if mode = Managed then Some (fresh_sessionId f) else None);
          session = map_option (\<lambda>i. newLogicalSession now i (fresh_grantId f) rid) sid
      in bind_op (lift_store (createAccessGrant hash (fresh_salt f) now (fresh_grantId f) rid owner
                    (fresh_credentialId f) (fresh_token f) mode sid jid)) (\<lambda>grant.
         bind_op (case session of None \<Rightarrow> return_op () | Some x \<Rightarrow> lift_store (createLogicalSession x)) (\<lambda>_.
         let publicGrant = toPublicAccessGrant grant now
         in bind_op (lift_result (find_public (fresh_credentialId f)
                      ''New access-grant credential was not persisted'' publicGrant)) (\<lambda>c.
            return_op \<lparr>issued_grant = issuedGrant publicGrant, issued_credential = c, issued_password = fresh_token f,
                       issued_session = map_option toPublicLogicalSession session,
                       issued_endpoints = proxyEndpoints opts\<rparr>))))"

definition owned_route :: "string \<Rightarrow> string \<Rightarrow> bool \<Rightarrow> StoredRoute service_op" where
  "owned_route rid owner includeRevoked st =
     (case route_get rid includeRevoked (fst st) of
        Inl e \<Rightarrow> (Inl e, st)
      | Inr r \<Rightarrow> if userId r \<noteq> owner then (Inl (throw notFoundError), st) else (Inr r, st))"

definition grant_create ::
  "token_hash \<Rightarrow> AccessGrantServiceOptions \<Rightarrow> timestamp \<Rightarrow> Fresh \<Rightarrow> string \<Rightarrow> string \<Rightarrow> json \<Rightarrow> IssuedAccessGrant service_op" where
  "grant_create hash opts now f rid owner input =
     bind_op (owned_route rid owner False) (\<lambda>_.
     bind_op (lift_result (validateGrantIssuance input)) (\<lambda>(mode, jid).
     issue hash opts now f rid owner mode jid))"

definition createManagedSession ::
  "token_hash \<Rightarrow> AccessGrantServiceOptions \<Rightarrow> timestamp \<Rightarrow> Fresh \<Rightarrow> string \<Rightarrow> string \<Rightarrow> IssuedAccessGrant service_op" where
  "createManagedSession hash opts now f gid owner =
     bind_op (ownedAccessGrant gid owner False) (\<lambda>existing.
     let session = newLogicalSession now (fresh_sessionId f) (grant_id existing) (grant_routeId existing)
     in bind_op (lift_store (createLogicalSession session)) (\<lambda>_.
        bind_op (lift_store (addAccessGrantCredential hash (fresh_salt f) now (grant_id existing)
                   (fresh_credentialId f) (fresh_token f) Managed (Some (fresh_sessionId f)))) (\<lambda>grant.
        let publicGrant = toPublicAccessGrant grant now
        in bind_op (lift_result (find_public (fresh_credentialId f)
                     ''Managed-session credential was not persisted'' publicGrant)) (\<lambda>c.
           return_op \<lparr>issued_grant = issuedGrant publicGrant, issued_credential = c, issued_password = fresh_token f,
                      issued_session = Some (toPublicLogicalSession session), issued_endpoints = proxyEndpoints opts\<rparr>))))"

definition createStatelessCredential ::
  "token_hash \<Rightarrow> AccessGrantServiceOptions \<Rightarrow> timestamp \<Rightarrow> Fresh \<Rightarrow> string \<Rightarrow> string \<Rightarrow> IssuedAccessGrant service_op" where
  "createStatelessCredential hash opts now f gid owner =
     bind_op (ownedAccessGrant gid owner False) (\<lambda>existing.
     bind_op (lift_store (addAccessGrantCredential hash (fresh_salt f) now (grant_id existing)
                (fresh_credentialId f) (fresh_token f) Stateless None)) (\<lambda>grant.
     let publicGrant = toPublicAccessGrant grant now
     in bind_op (lift_result (find_public (fresh_credentialId f)
                  ''Stateless credential was not persisted'' publicGrant)) (\<lambda>c.
        return_op \<lparr>issued_grant = issuedGrant publicGrant, issued_credential = c, issued_password = fresh_token f,
                   issued_session = None, issued_endpoints = proxyEndpoints opts\<rparr>)))"

subsection \<open>Sessions\<close>

definition svc_listLogicalSessions :: "string \<Rightarrow> string \<Rightarrow> PublicLogicalSession list service_op" where
  "svc_listLogicalSessions gid owner =
     bind_op (ownedAccessGrant gid owner True) (\<lambda>_ st.
       (Inr (map toPublicLogicalSession (listLogicalSessions gid (fst st))), st))"

definition grant_session :: "string \<Rightarrow> string \<Rightarrow> StoredLogicalSession service_op" where
  "grant_session gid sid st =
     (case getLogicalSession sid True (fst st) of
        Inl e \<Rightarrow> (Inl e, st)
      | Inr x \<Rightarrow> if session_grantId x \<noteq> gid then (Inl (throw notFoundError), st) else (Inr x, st))"

definition svc_getLogicalSession :: "string \<Rightarrow> string \<Rightarrow> string \<Rightarrow> PublicLogicalSession service_op" where
  "svc_getLogicalSession gid sid owner =
     bind_op (ownedAccessGrant gid owner True) (\<lambda>_.
     bind_op (grant_session gid sid) (\<lambda>x. return_op (toPublicLogicalSession x)))"

definition svc_closeLogicalSession :: "timestamp \<Rightarrow> string \<Rightarrow> string \<Rightarrow> string \<Rightarrow> bool \<Rightarrow> unit service_op" where
  "svc_closeLogicalSession now gid sid owner force =
     bind_op (ownedAccessGrant gid owner True) (\<lambda>_.
     bind_op (grant_session gid sid) (\<lambda>_.
     bind_op (lift_store (closeLogicalSession now force sid)) (\<lambda>_.
     if force then request_termination (TerminateSession sid) else return_op ())))"

subsection \<open>Grants and credentials\<close>

definition grant_list :: "timestamp \<Rightarrow> string \<Rightarrow> string \<Rightarrow> PublicAccessGrant list service_op" where
  "grant_list now rid owner =
     bind_op (owned_route rid owner False) (\<lambda>_ st.
       case listAccessGrants rid (Some owner) (fst st) of
         Inl e \<Rightarrow> (Inl e, st)
       | Inr gs \<Rightarrow> (Inr (map (\<lambda>g. toPublicAccessGrant g now) gs), st))"

definition grant_get :: "timestamp \<Rightarrow> string \<Rightarrow> string \<Rightarrow> PublicAccessGrant service_op" where
  "grant_get now gid owner = bind_op (ownedAccessGrant gid owner True) (\<lambda>g. return_op (toPublicAccessGrant g now))"

definition getCredential :: "timestamp \<Rightarrow> string \<Rightarrow> string \<Rightarrow> string \<Rightarrow> PublicAccessGrantCredential service_op" where
  "getCredential now gid cid owner =
     bind_op (grant_get now gid owner) (\<lambda>g.
       case List.find (\<lambda>c. pub_credentialId c = cid) (pg_credentials g) of
         None \<Rightarrow> throw_op (throw notFoundError)
       | Some c \<Rightarrow> return_op c)"

definition rotateCredential ::
  "token_hash \<Rightarrow> AccessGrantServiceOptions \<Rightarrow> timestamp \<Rightarrow> Fresh \<Rightarrow> string \<Rightarrow> string \<Rightarrow> string \<Rightarrow> bool \<Rightarrow>
   IssuedAccessGrant service_op" where
  "rotateCredential hash opts now f gid prev owner sus =
     bind_op (ownedAccessGrant gid owner False) (\<lambda>existing.
     bind_op (lift_store (rotateAccessGrantCredential hash (fresh_salt f) now (grant_id existing) prev
                (fresh_credentialId f) (fresh_token f) sus)) (\<lambda>rotated.
     let grant = toPublicAccessGrant rotated now
     in bind_op (lift_result (find_public (fresh_credentialId f)
                  ''Rotated access-grant credential was not persisted'' grant)) (\<lambda>c.
        return_op \<lparr>issued_grant = issuedGrant grant, issued_credential = c, issued_password = fresh_token f,
                   issued_session = None, issued_endpoints = proxyEndpoints opts\<rparr>)))"

definition revokeCredential :: "timestamp \<Rightarrow> string \<Rightarrow> string \<Rightarrow> string \<Rightarrow> unit service_op" where
  "revokeCredential now gid cid owner =
     bind_op (ownedAccessGrant gid owner True) (\<lambda>_. lift_store (revokeAccessGrantCredential now gid cid))"

definition grant_revoke :: "timestamp \<Rightarrow> string \<Rightarrow> string \<Rightarrow> bool \<Rightarrow> unit service_op" where
  "grant_revoke now gid owner terminate =
     bind_op (ownedAccessGrant gid owner True) (\<lambda>_.
     bind_op (lift_store (revokeAccessGrant now gid terminate)) (\<lambda>_.
     if terminate then request_termination (TerminateGrant gid) else return_op ()))"

subsection \<open>Routes\<close>

definition require_provider :: "ProviderAdapter list \<Rightarrow> RouteProfile \<Rightarrow> string \<Rightarrow> ProviderAdapter service_op" where
  "require_provider providers p msg =
     (case selectCompatibleProvider providers p None None of
        Some provider \<Rightarrow> return_op provider
      | None \<Rightarrow> throw_op (throw (if providerOverride p \<noteq> None then providerOverrideUnsatisfiedError
                                  else providerUnavailableError msg ReasonUnavailable)))"

definition admin_create ::
  "ProviderAdapter list \<Rightarrow> timestamp \<Rightarrow> string \<Rightarrow> RouteProfilePayload result \<Rightarrow> string \<Rightarrow> RetryPolicy \<Rightarrow> PublicRoute service_op" where
  "admin_create providers now rid decoded owner retry =
     bind_op (lift_result (validateRouteProfile decoded owner retry)) (\<lambda>p.
     bind_op (require_provider providers p ''No configured provider is compatible with the proxy policy'') (\<lambda>_.
     bind_op (lift_store (route_create now rid p)) (\<lambda>stored. return_op (toPublicRoute stored))))"

definition admin_update ::
  "ProviderAdapter list \<Rightarrow> timestamp \<Rightarrow> string \<Rightarrow> RouteProfilePayload result \<Rightarrow> string \<Rightarrow> RetryPolicy \<Rightarrow> PublicRoute service_op" where
  "admin_update providers now rid decoded owner retry =
     bind_op (owned_route rid owner False) (\<lambda>existing.
     bind_op (lift_result (validateRouteProfile decoded (userId existing) retry)) (\<lambda>p.
     bind_op (require_provider providers p ''No configured provider is compatible with the profile policy'') (\<lambda>_.
     bind_op (lift_store (route_update now rid p)) (\<lambda>stored. return_op (toPublicRoute stored)))))"

definition admin_list :: "string \<Rightarrow> PublicRoute list service_op" where
  "admin_list owner st = (Inr (map toPublicRoute (route_list (Some owner) (fst st))), st)"

definition admin_get :: "string \<Rightarrow> string \<Rightarrow> PublicRoute service_op" where
  "admin_get rid owner = bind_op (owned_route rid owner False) (\<lambda>r. return_op (toPublicRoute r))"

definition grants_of_route :: "string \<Rightarrow> StoredAccessGrant list service_op" where
  "grants_of_route rid st =
     (case listAccessGrants rid None (fst st) of Inl e \<Rightarrow> (Inl e, st) | Inr gs \<Rightarrow> (Inr gs, st))"

definition admin_delete :: "timestamp \<Rightarrow> string \<Rightarrow> string \<Rightarrow> unit service_op" where
  "admin_delete now rid owner =
     bind_op (owned_route rid owner False) (\<lambda>_.
     bind_op (grants_of_route rid) (\<lambda>gs.
     bind_op (for_each_op (\<lambda>g. lift_store (revokeAccessGrant now (grant_id g) False)) gs) (\<lambda>_.
     lift_store (route_revoke now rid False))))"

definition emergencyRevoke :: "timestamp \<Rightarrow> string \<Rightarrow> unit service_op" where
  "emergencyRevoke now rid =
     bind_op (grants_of_route rid) (\<lambda>gs.
     bind_op (for_each_op (\<lambda>g. bind_op (lift_store (revokeAccessGrant now (grant_id g) True))
                                  (\<lambda>_. request_termination (TerminateGrant (grant_id g)))) gs) (\<lambda>_.
     lift_store (route_revoke now rid True)))"

subsection \<open>Principals are isolated\<close>

lemma foreign_grant:
  assumes "case js_get (st_grants s) gid of None \<Rightarrow> True | Some g \<Rightarrow> principalId g \<noteq> owner"
  shows "ownedAccessGrant gid owner b (s, ts) = (Inl (throw notFoundError), s, ts)"
  using assms by (auto simp: ownedAccessGrant_def getAccessGrant_def split: option.splits)

text \<open>
  C35. A principal cannot reach another principal's grant: every operation on a grant that it does
  not own, or that does not exist, answers with the same not-found error and changes nothing, so it
  cannot even tell the two cases apart.
\<close>

theorem foreign_grant_unreachable:
  assumes "case js_get (st_grants s) gid of None \<Rightarrow> True | Some g \<Rightarrow> principalId g \<noteq> owner"
  shows "createManagedSession hash opts now f gid owner (s, ts) = (Inl (throw notFoundError), s, ts)
    \<and> createStatelessCredential hash opts now f gid owner (s, ts) = (Inl (throw notFoundError), s, ts)
    \<and> svc_listLogicalSessions gid owner (s, ts) = (Inl (throw notFoundError), s, ts)
    \<and> svc_getLogicalSession gid sid owner (s, ts) = (Inl (throw notFoundError), s, ts)
    \<and> svc_closeLogicalSession now gid sid owner force (s, ts) = (Inl (throw notFoundError), s, ts)
    \<and> grant_get now gid owner (s, ts) = (Inl (throw notFoundError), s, ts)
    \<and> getCredential now gid cid owner (s, ts) = (Inl (throw notFoundError), s, ts)
    \<and> rotateCredential hash opts now f gid cid owner sus (s, ts) = (Inl (throw notFoundError), s, ts)
    \<and> revokeCredential now gid cid owner (s, ts) = (Inl (throw notFoundError), s, ts)
    \<and> grant_revoke now gid owner t (s, ts) = (Inl (throw notFoundError), s, ts)"
  using foreign_grant [OF assms]
  by (simp add: createManagedSession_def createStatelessCredential_def svc_listLogicalSessions_def
      svc_getLogicalSession_def svc_closeLogicalSession_def grant_get_def getCredential_def rotateCredential_def
      revokeCredential_def grant_revoke_def)

theorem foreign_grant_unreachable_witness:
  "principalId (the (js_get (st_grants sample_store) ''g'')) \<noteq> ''mallory''
   \<and> grant_revoke 5 ''g'' ''mallory'' True (sample_store, []) = (Inl (throw notFoundError), sample_store, [])"
proof -
  have owner: "case js_get (st_grants sample_store) ''g'' of None \<Rightarrow> True | Some g \<Rightarrow> principalId g \<noteq> ''mallory''"
    "principalId (the (js_get (st_grants sample_store) ''g'')) \<noteq> ''mallory''"
    by code_simp+
  from foreign_grant_unreachable [OF owner(1)] owner(2) show ?thesis by blast
qed

subsection \<open>Deleting a route\<close>

lemma revoked_grant_idem [simp]: "revoked_grant now t (revoked_grant now t g) = revoked_grant now t g"
  by (simp add: revoked_grant_def)

lemma revoke_each:
  assumes "store_inv s" and "\<And>g. g \<in> set gs \<Longrightarrow> js_has (st_grants s) (grant_id g)"
  shows "\<exists>s'. for_each_op (\<lambda>g. revokeAccessGrant now (grant_id g) t) gs s = (Inr (), s')
    \<and> store_inv s' \<and> st_routes s' = st_routes s
    \<and> (\<forall>k. js_get (st_grants s') k = (if k \<in> grant_id ` set gs
            then map_option (revoked_grant now t) (js_get (st_grants s) k) else js_get (st_grants s) k))"
  using assms
proof (induction gs arbitrary: s)
  case (Cons g gs)
  obtain h where h: "js_get (st_grants s) (grant_id g) = Some h"
    using Cons.prems(2) [of g] by (auto simp: js_has_def)
  obtain s1 where s1: "revokeAccessGrant now (grant_id g) t s = (Inr (), bumpAuthorizationEpoch s1)"
      "st_grants s1 = js_set (st_grants s) (grant_id g) (revoked_grant now t h)" "st_routes s1 = st_routes s"
    by (rule revokeAccessGrant_run [OF Cons.prems(1) h, of now t])
  let ?s1 = "bumpAuthorizationEpoch s1"
  have inv: "store_inv ?s1" using revokeAccessGrant_inv [OF Cons.prems(1), of now "grant_id g" t] s1(1) by simp
  have "js_has (st_grants ?s1) (grant_id x)" if "x \<in> set gs" for x
    using Cons.prems(2) [of x] that s1(2) by simp
  from Cons.IH [OF inv this] obtain s2 where s2: "for_each_op (\<lambda>g. revokeAccessGrant now (grant_id g) t) gs ?s1 = (Inr (), s2)"
      "store_inv s2" "st_routes s2 = st_routes s"
      "\<And>k. js_get (st_grants s2) k = (if k \<in> grant_id ` set gs
            then map_option (revoked_grant now t) (js_get (st_grants ?s1) k) else js_get (st_grants ?s1) k)"
    using s1(3) by auto
  from s1 s2 h show ?case by (intro exI [of _ s2]) (auto simp: o_def option.map_comp)
qed simp

lemma lift_for_each:
  "for_each_op f gs s = (r, s') \<Longrightarrow> for_each_op (\<lambda>g. lift_store (f g)) gs (s, ts) = (r, s', ts)"
proof (induction gs arbitrary: s)
  case (Cons g gs)
  obtain r1 s1 where one: "f g s = (r1, s1)" by (meson surj_pair)
  show ?case
  proof (cases r1)
    case (Inl e)
    with Cons.prems one show ?thesis by (auto simp: lift_store_def bind_op_def)
  next
    case (Inr u)
    with Cons.prems one have "for_each_op f gs s1 = (r, s')" by (simp add: bind_op_def)
    from Cons.IH [OF this] one Inr show ?thesis by (simp add: lift_store_def bind_op_def)
  qed
qed simp

lemma lift_for_each_request:
  "for_each_op f gs s = (Inr (), s') \<Longrightarrow>
   for_each_op (\<lambda>g. bind_op (lift_store (f g)) (\<lambda>_. request_termination (q g))) gs (s, ts) = (Inr (), s', ts @ map q gs)"
proof (induction gs arbitrary: s ts)
  case (Cons g gs)
  from Cons.prems obtain s1 where one: "f g s = (Inr (), s1)" "for_each_op f gs s1 = (Inr (), s')"
    by (auto elim!: bind_op_InrE)
  with Cons.IH [OF one(2), of "ts @ [q g]"] show ?case by (simp add: lift_store_def bind_op_def request_termination_def)
qed simp

lemma listAccessGrants_ready:
  assumes "js_get (st_routes s) rid = Some r" and "route_status r \<noteq> RouteRevoked"
  shows "listAccessGrants rid None s =
    Inr (js_sort (by_key grant_createdAt) (filter (\<lambda>g. grant_routeId g = rid) (js_values (st_grants s))))"
  using assms by (simp add: listAccessGrants_def route_get_def)

text \<open>What revoking every grant of a route and then the route leaves behind.\<close>

lemma revoke_route_grants:
  assumes inv: "store_inv s" and r: "js_get (st_routes s) rid = Some r" "route_status r \<noteq> RouteRevoked"
  obtains gs s1 s2 where "listAccessGrants rid None s = Inr gs"
    "for_each_op (\<lambda>g. revokeAccessGrant now (grant_id g) t) gs s = (Inr (), s1)"
    "route_revoke now rid t s1 = (Inr (), s2)"
    "\<And>g. g \<in> set gs \<longleftrightarrow> js_get (st_grants s) (grant_id g) = Some g \<and> grant_routeId g = rid"
    "route_get rid False s2 = Inl (throw notFoundError)"
    "\<And>k g. js_get (st_grants s2) k = Some g \<Longrightarrow> grant_routeId g = rid \<Longrightarrow>
       grant_status g = GrantRevoked \<and> (t \<longrightarrow> grant_terminateActive g)"
    "\<And>k g. js_get (st_grants s) k = Some g \<Longrightarrow> grant_routeId g \<noteq> rid \<Longrightarrow> js_get (st_grants s2) k = Some g"
proof -
  define gs where "gs = js_sort (by_key grant_createdAt) (filter (\<lambda>g. grant_routeId g = rid) (js_values (st_grants s)))"
  have keyed: "keyed grant_id (st_grants s)" using inv by (simp add: store_inv_def)
  have mem: "g \<in> set gs \<longleftrightarrow> js_get (st_grants s) (grant_id g) = Some g \<and> grant_routeId g = rid" for g
    using keyed_values [OF keyed] keyed by (auto simp: gs_def js_values_get keyed_def)
  then obtain s1 where s1: "for_each_op (\<lambda>g. revokeAccessGrant now (grant_id g) t) gs s = (Inr (), s1)"
      "st_routes s1 = st_routes s"
      "\<And>k. js_get (st_grants s1) k = (if k \<in> grant_id ` set gs
            then map_option (revoked_grant now t) (js_get (st_grants s) k) else js_get (st_grants s) k)"
    using revoke_each [OF inv, of gs now t] by (auto simp: js_has_def)
  let ?s2 = "snd (route_revoke now rid t s1)"
  have s2: "route_revoke now rid t s1 = (Inr (), ?s2)" "st_grants ?s2 = st_grants s1"
      "route_get rid False ?s2 = Inl (throw notFoundError)"
    using r s1(2) by (simp_all add: route_revoke_def route_get_def)
  have in_gs: "k \<in> grant_id ` set gs \<longleftrightarrow> (\<exists>g. js_get (st_grants s) k = Some g \<and> grant_routeId g = rid)" for k
    using mem keyed by (auto simp: keyed_def image_iff)
  show thesis
  proof (rule that [OF _ s1(1) s2(1) mem s2(3)])
    show "listAccessGrants rid None s = Inr gs" using listAccessGrants_ready [OF r] by (simp add: gs_def)
    fix k g
    show "grant_status g = GrantRevoked \<and> (t \<longrightarrow> grant_terminateActive g)"
      if "js_get (st_grants ?s2) k = Some g" "grant_routeId g = rid"
      using that s1(3) [of k] in_gs [of k] by (auto simp: s2(2) revoked_grant_def split: if_splits)
    show "js_get (st_grants ?s2) k = Some g" if "js_get (st_grants s) k = Some g" "grant_routeId g \<noteq> rid"
      using that s1(3) [of k] in_gs [of k] by (auto simp: s2(2))
  qed
qed

text \<open>
  C34. Deleting a route is complete: for its owner it always succeeds, the route is gone, every access
  grant of the route is revoked, the grants of other routes are untouched, and no active connection is
  cut. Emergency revocation does the same for any caller, orders the termination of every grant and
  asks the gateway to cut the connections of each.
\<close>

theorem route_deletion_complete:
  assumes inv: "store_inv s" and r: "js_get (st_routes s) rid = Some r" "route_status r \<noteq> RouteRevoked"
  shows "(\<exists>s'. admin_delete now rid (userId r) (s, ts) = (Inr (), s', ts)
      \<and> route_get rid False s' = Inl (throw notFoundError)
      \<and> (\<forall>k g. js_get (st_grants s') k = Some g \<and> grant_routeId g = rid \<longrightarrow> grant_status g = GrantRevoked)
      \<and> (\<forall>k g. js_get (st_grants s) k = Some g \<and> grant_routeId g \<noteq> rid \<longrightarrow> js_get (st_grants s') k = Some g))
    \<and> (\<exists>s' gs. emergencyRevoke now rid (s, ts) = (Inr (), s', ts @ map (\<lambda>g. TerminateGrant (grant_id g)) gs)
      \<and> route_get rid False s' = Inl (throw notFoundError)
      \<and> (\<forall>k g. js_get (st_grants s') k = Some g \<and> grant_routeId g = rid \<longrightarrow>
           grant_status g = GrantRevoked \<and> grant_terminateActive g)
      \<and> (\<forall>k g. js_get (st_grants s) k = Some g \<and> grant_routeId g \<noteq> rid \<longrightarrow> js_get (st_grants s') k = Some g)
      \<and> (\<forall>g. g \<in> set gs \<longleftrightarrow> js_get (st_grants s) (grant_id g) = Some g \<and> grant_routeId g = rid))"
    (is "?deleted \<and> ?emergency")
proof
  have owned: "owned_route rid (userId r) False (s, ts) = (Inr r, s, ts)"
    using r by (simp add: owned_route_def route_get_def)
  obtain gs s1 s2 where d: "listAccessGrants rid None s = Inr gs"
    "for_each_op (\<lambda>g. revokeAccessGrant now (grant_id g) False) gs s = (Inr (), s1)"
    "route_revoke now rid False s1 = (Inr (), s2)" "route_get rid False s2 = Inl (throw notFoundError)"
    "\<And>k g. js_get (st_grants s2) k = Some g \<Longrightarrow> grant_routeId g = rid \<Longrightarrow> grant_status g = GrantRevoked"
    "\<And>k g. js_get (st_grants s) k = Some g \<Longrightarrow> grant_routeId g \<noteq> rid \<Longrightarrow> js_get (st_grants s2) k = Some g"
    by (rule revoke_route_grants [OF inv r, of now False]) blast
  have "admin_delete now rid (userId r) (s, ts) = (Inr (), s2, ts)"
    using owned d(1,3) lift_for_each [OF d(2), of ts]
    by (simp add: admin_delete_def grants_of_route_def bind_op_def lift_store_def)
  with d(4-6) show ?deleted by blast
next
  obtain gs s1 s2 where e: "listAccessGrants rid None s = Inr gs"
    "for_each_op (\<lambda>g. revokeAccessGrant now (grant_id g) True) gs s = (Inr (), s1)"
    "route_revoke now rid True s1 = (Inr (), s2)" "route_get rid False s2 = Inl (throw notFoundError)"
    "\<And>k g. js_get (st_grants s2) k = Some g \<Longrightarrow> grant_routeId g = rid \<Longrightarrow> grant_status g = GrantRevoked \<and> grant_terminateActive g"
    "\<And>k g. js_get (st_grants s) k = Some g \<Longrightarrow> grant_routeId g \<noteq> rid \<Longrightarrow> js_get (st_grants s2) k = Some g"
    "\<And>g. g \<in> set gs \<longleftrightarrow> js_get (st_grants s) (grant_id g) = Some g \<and> grant_routeId g = rid"
    by (rule revoke_route_grants [OF inv r, of now True]) blast
  have "emergencyRevoke now rid (s, ts) = (Inr (), s2, ts @ map (\<lambda>g. TerminateGrant (grant_id g)) gs)"
    using e(1,3) lift_for_each_request [OF e(2), of "\<lambda>g. TerminateGrant (grant_id g)" ts]
    by (simp add: emergencyRevoke_def grants_of_route_def bind_op_def lift_store_def)
  with e(4-7) show ?emergency by blast
qed

theorem route_deletion_complete_witness:
  "store_inv sample_store
   \<and> (\<exists>s'. admin_delete 5 ''r'' ''u'' (sample_store, []) = (Inr (), s', [])
        \<and> route_get ''r'' False s' = Inl (throw notFoundError)
        \<and> grant_status (the (js_get (st_grants s') ''g'')) = GrantRevoked)"
proof -
  have inv: "store_inv sample_store" unfolding sample_store_def by (rule wf.run_keeps [OF store_inv_empty])
  let ?r = "the (js_get (st_routes sample_store) ''r'')"
  have r: "js_get (st_routes sample_store) ''r'' = Some ?r" "route_status ?r \<noteq> RouteRevoked" "userId ?r = ''u''"
    by code_simp+
  have g: "(case admin_delete 5 ''r'' ''u'' (sample_store, []) of (_, s', _) \<Rightarrow>
      map_option (\<lambda>g. (grant_routeId g)) (js_get (st_grants s') ''g'')) = Some ''r''" by code_simp
  from route_deletion_complete [OF inv r(1,2), of 5 "[]"] r(3) g inv show ?thesis
    by (fastforce split: prod.splits)
qed

end
