(* ===== verification/Authentication.thy ===== *)
theory Authentication
  imports Store_Contracts
begin

text \<open>
  \<open>src/route-service.ts\<close>, lines 64 to 250 and 510 to 541: how a gateway authenticates a client. The
  answer of the store is kept for half a minute in a bounded cache, which is emptied when the
  store's authorization epoch, read at most once a second, has moved. SHA-256 is a parameter: \<open>hash\<close>
  for the stored tokens, \<open>digest\<close> for the cache keys.
\<close>

definition AUTHORIZATION_CACHE_TTL_MS :: int where
  [policy_defs]: "AUTHORIZATION_CACHE_TTL_MS = 30000"

definition AUTHORIZATION_EPOCH_REFRESH_MS :: int where
  [policy_defs]: "AUTHORIZATION_EPOCH_REFRESH_MS = 1000"

definition AUTHORIZATION_CACHE_MAX_ENTRIES :: nat where
  [policy_defs]: "AUTHORIZATION_CACHE_MAX_ENTRIES = 10000"

record CachedAuthorization =
  cached_route :: AuthenticatedRoute
  cached_expiresAt :: timestamp

record AuthorizationCache =
  ac_entries :: "(string, CachedAuthorization) js_map"
  ac_epoch :: int
  ac_refreshAt :: timestamp

definition new_cache :: AuthorizationCache where
  "new_cache = \<lparr>ac_entries = [], ac_epoch = -1, ac_refreshAt = 0\<rparr>"

definition refreshAuthorizationEpoch :: "timestamp \<Rightarrow> StoreState \<Rightarrow> AuthorizationCache \<Rightarrow> AuthorizationCache" where
  "refreshAuthorizationEpoch now s c =
     (if now < ac_refreshAt c then c
      else c\<lparr>ac_entries := (if ac_epoch c \<noteq> authorizationEpoch s then [] else ac_entries c),
             ac_epoch := authorizationEpoch s,
             ac_refreshAt := now + AUTHORIZATION_EPOCH_REFRESH_MS\<rparr>)"

definition authorizationCacheKey :: "(string \<Rightarrow> string) \<Rightarrow> string \<Rightarrow> string \<Rightarrow> string" where
  "authorizationCacheKey digest username token = digest (username @ CHR 0x00 # token)"

definition cacheAuthorization :: "timestamp \<Rightarrow> string \<Rightarrow> AuthenticatedRoute \<Rightarrow> AuthorizationCache \<Rightarrow> AuthorizationCache" where
  "cacheAuthorization now key route c =
     (let es = (if AUTHORIZATION_CACHE_MAX_ENTRIES \<le> length (ac_entries c)
                then (case ac_entries c of [] \<Rightarrow> [] | (oldest, _) # _ \<Rightarrow> js_delete (ac_entries c) oldest)
                else ac_entries c)
      in c\<lparr>ac_entries := js_set es key
             \<lparr>cached_route = route, cached_expiresAt = now + AUTHORIZATION_CACHE_TTL_MS\<rparr>\<rparr>)"

definition invalidateAuthorizationCache :: "AuthorizationCache \<Rightarrow> AuthorizationCache" where
  "invalidateAuthorizationCache c = c\<lparr>ac_entries := [], ac_epoch := -1, ac_refreshAt := 0\<rparr>"

definition routeForCredential ::
  "StoredRoute \<Rightarrow> StoredAccessGrant \<Rightarrow> StoredAccessGrantCredential \<Rightarrow> AuthenticatedRoute" where
  "routeForCredential route grant credential =
     StoredRoute.extend (route\<lparr>userId := principalId grant\<rparr>)
       (AuthenticatedRoute.fields (grant_id grant) (cred_id credential) (grant_jobId grant)
          (cred_sessionMode credential) (cred_sessionId credential))"

text \<open>The pattern \<open>^pxy_[a-zA-Z0-9_-]{1,128}$\<close> and the bounds on the token.\<close>

definition is_name_char :: "char \<Rightarrow> bool" where
  "is_name_char c \<longleftrightarrow>
     (let n = (of_char c :: nat)
      in 97 \<le> n \<and> n \<le> 122 \<or> 65 \<le> n \<and> n \<le> 90 \<or> 48 \<le> n \<and> n \<le> 57 \<or> n = 95 \<or> n = 45)"

definition well_formed_login :: "string \<Rightarrow> string \<Rightarrow> bool" where
  "well_formed_login username token \<longleftrightarrow>
     take 4 username = ''pxy_'' \<and> list_all is_name_char (drop 4 username)
     \<and> 1 \<le> length (drop 4 username) \<and> length (drop 4 username) \<le> 128
     \<and> 1 \<le> length token \<and> length token \<le> 512"

text \<open>
  Authentication up to the call of the store: an error, a hit, or a miss with the key under which
  the answer will be kept.
\<close>

datatype Probe = ProbeRefused | ProbeHit AuthenticatedRoute | ProbeMiss string

definition authenticate_probe ::
  "(string \<Rightarrow> string) \<Rightarrow> timestamp \<Rightarrow> string \<Rightarrow> string \<Rightarrow> StoreState \<Rightarrow> AuthorizationCache \<Rightarrow>
   Probe \<times> AuthorizationCache" where
  "authenticate_probe digest now username token s c =
     (if \<not> well_formed_login username token then (ProbeRefused, c)
      else let c = refreshAuthorizationEpoch now s c;
               key = authorizationCacheKey digest username token
           in case js_get (ac_entries c) key of
                None \<Rightarrow> (ProbeMiss key, c)
              | Some e \<Rightarrow>
                  if now < cached_expiresAt e
                  then (ProbeHit (cached_route e), c\<lparr>ac_entries := js_set (js_delete (ac_entries c) key) key e\<rparr>)
                  else (ProbeMiss key, c\<lparr>ac_entries := js_delete (ac_entries c) key\<rparr>))"

definition session_open_for :: "AuthenticatedAccessGrant \<Rightarrow> StoreState \<Rightarrow> bool" where
  "session_open_for a s =
     (if cred_sessionMode (auth_credential a) = Managed
      then (case cred_sessionId (auth_credential a) of
              None \<Rightarrow> False
            | Some sid \<Rightarrow>
                (case getLogicalSession sid False s of
                   Inl _ \<Rightarrow> False
                 | Inr x \<Rightarrow> session_grantId x = grant_id (auth_grant a)
                            \<and> session_routeId x = grant_routeId (auth_grant a) \<and> session_status x = SessionOpen))
      else True)"

text \<open>What is done with the answer of the store.\<close>

definition authenticate_answer ::
  "timestamp \<Rightarrow> string \<Rightarrow> AuthenticatedAccessGrant option \<Rightarrow> StoreState \<Rightarrow> AuthorizationCache \<Rightarrow>
   AuthenticatedRoute result \<times> AuthorizationCache" where
  "authenticate_answer now key answer s c =
     (case answer of
        None \<Rightarrow> (Inl (throw (authenticationError ''Proxy authentication required'')), c)
      | Some a \<Rightarrow>
          if \<not> session_open_for a s then (Inl (throw (authenticationError ''Proxy authentication required'')), c)
          else let route = routeForCredential (auth_route a) (auth_grant a) (auth_credential a)
               in (Inr route, cacheAuthorization now key route c))"

definition authenticate ::
  "token_hash \<Rightarrow> (string \<Rightarrow> string) \<Rightarrow> timestamp \<Rightarrow> string \<Rightarrow> string \<Rightarrow>
   (exn, StoreState \<times> AuthorizationCache, AuthenticatedRoute) op" where
  "authenticate hash digest now username token st =
     (case authenticate_probe digest now username token (fst st) (snd st) of
        (ProbeRefused, c) \<Rightarrow> (Inl (throw (authenticationError ''Proxy authentication required'')), fst st, c)
      | (ProbeHit route, c) \<Rightarrow> (Inr route, fst st, c)
      | (ProbeMiss key, c) \<Rightarrow>
          (case authenticateAccessGrant hash now username token (fst st) of
             (Inl e, s) \<Rightarrow> (Inl e, s, c)
           | (Inr answer, s) \<Rightarrow>
               (case authenticate_answer now key answer s c of (r, c) \<Rightarrow> (r, s, c))))"

subsection \<open>A gateway among others\<close>

text \<open>
  One gateway authenticates clients and empties its cache while other gateways and the control plane
  execute commands on the shared store; the clock does not run backwards.
\<close>

inductive gateway_step ::
  "token_hash \<Rightarrow> (string \<Rightarrow> string) \<Rightarrow> timestamp \<times> StoreState \<times> AuthorizationCache \<Rightarrow>
   timestamp \<times> StoreState \<times> AuthorizationCache \<Rightarrow> bool" for hash digest where
  tick: "t \<le> t' \<Longrightarrow> gateway_step hash digest (t, s, c) (t', s, c)"
| store: "gateway_step hash digest (t, s, c) (t, exec hash cmd s, c)"
| invalidate: "gateway_step hash digest (t, s, c) (t, s, invalidateAuthorizationCache c)"
| login: "authenticate hash digest t username token (s, c) = (r, s', c') \<Longrightarrow>
          gateway_step hash digest (t, s, c) (t, s', c')"

abbreviation gateway_run ::
  "token_hash \<Rightarrow> (string \<Rightarrow> string) \<Rightarrow> timestamp \<times> StoreState \<times> AuthorizationCache \<Rightarrow>
   timestamp \<times> StoreState \<times> AuthorizationCache \<Rightarrow> bool" where
  "gateway_run hash digest \<equiv> (gateway_step hash digest)\<^sup>*\<^sup>*"

inductive_cases gateway_stepE: "gateway_step hash digest (t, s, c) x"

text \<open>An authenticated route whose grant and route are not revoked.\<close>

definition live :: "StoreState \<Rightarrow> AuthenticatedRoute \<Rightarrow> bool" where
  "live s route \<longleftrightarrow>
     (\<exists>g r. js_get (st_grants s) (ar_accessGrantId route) = Some g \<and> grant_status g \<noteq> GrantRevoked
       \<and> js_get (st_routes s) (route_id route) = Some r \<and> route_status r \<noteq> RouteRevoked)"

definition withdrawn :: "StoreState \<Rightarrow> AuthenticatedRoute \<Rightarrow> bool" where
  "withdrawn s route \<longleftrightarrow>
     (\<exists>g. js_get (st_grants s) (ar_accessGrantId route) = Some g \<and> grant_status g = GrantRevoked)
     \<or> (\<exists>r. js_get (st_routes s) (route_id route) = Some r \<and> route_status r = RouteRevoked)"

abbreviation all_routes :: "(AuthenticatedRoute \<Rightarrow> bool) \<Rightarrow> AuthorizationCache \<Rightarrow> bool" where
  "all_routes Q c \<equiv> \<forall>x \<in> set (ac_entries c). Q (cached_route (snd x))"

definition cache_ok :: "AuthorizationCache \<Rightarrow> bool" where
  "cache_ok c \<longleftrightarrow> js_wf (ac_entries c) \<and> length (ac_entries c) \<le> AUTHORIZATION_CACHE_MAX_ENTRIES"

text \<open>A cached answer was given by an earlier store, at an epoch not before the cache's own.\<close>

definition backed :: "StoreState \<Rightarrow> int \<Rightarrow> AuthenticatedRoute \<Rightarrow> bool" where
  "backed s epoch route \<longleftrightarrow>
     (\<exists>before. epoch_tracks before s \<and> epoch \<le> authorizationEpoch before \<and> live before route)"

definition cache_inv :: "timestamp \<times> StoreState \<times> AuthorizationCache \<Rightarrow> bool" where
  "cache_inv x = (case x of (t, s, c) \<Rightarrow>
     store_inv s \<and> cache_ok c
     \<and> ac_refreshAt c \<le> max 0 (t + AUTHORIZATION_EPOCH_REFRESH_MS)
     \<and> ac_epoch c \<le> authorizationEpoch s
     \<and> all_routes (backed s (ac_epoch c)) c)"

subsection \<open>Maps of bounded size\<close>

lemma set_js_set: "x \<in> set (js_set m k v) \<Longrightarrow> x = (k, v) \<or> x \<in> set m"
  by (induction m) (auto simp: js_set_def split: if_splits)

lemma set_js_delete: "x \<in> set (js_delete m k) \<Longrightarrow> x \<in> set m"
  by (auto simp: js_delete_def AList.delete_eq)

lemma length_js_set: "length (js_set m k v) \<le> Suc (length m)"
  by (induction m) (auto simp: js_set_def)

lemma length_js_delete: "length (js_delete m k) \<le> length m"
  by (simp add: js_delete_def AList.delete_eq)

lemma length_js_delete_present: "js_get m k \<noteq> None \<Longrightarrow> length (js_delete m k) < length m"
proof (induction m)
  case (Cons e m)
  obtain k' v where e: "e = (k', v)" by (meson surj_pair)
  show ?case
  proof (cases "k' = k")
    case True
    with e length_js_delete [of m k] show ?thesis by (simp add: js_delete_def)
  next
    case False
    with e Cons show ?thesis by (simp add: js_delete_def js_get_def)
  qed
qed simp

subsection \<open>The cache is backed by the store\<close>

lemma backed_mono: "backed s e route \<Longrightarrow> epoch_tracks s s' \<Longrightarrow> backed s' e route"
  unfolding backed_def by (meson epoch_tracks_trans)

lemma live_kept: "live before route \<Longrightarrow> authority_kept before s \<Longrightarrow> live s route"
  unfolding live_def authority_kept_def by metis

lemma backed_live: "backed s (authorizationEpoch s) route \<Longrightarrow> live s route"
  unfolding backed_def epoch_tracks_def using live_kept by fastforce

lemma live_backed: "live s route \<Longrightarrow> epoch \<le> authorizationEpoch s \<Longrightarrow> backed s epoch route"
  unfolding backed_def using epoch_tracks_refl by blast

lemma answer_live:
  assumes inv: "store_inv s" and a: "authenticateAccessGrant hash now username token s = (Inr (Some a), s')"
  shows "live s (routeForCredential (auth_route a) (auth_grant a) (auth_credential a))"
  using a
proof (cases rule: authenticate_cases)
  case (accepted k g rt c g')
  have keyed: "keyed grant_id (st_grants s)" "keyed route_id (st_routes s)" using inv by (simp_all add: store_inv_def)
  note g = keyed_entry [OF keyed(1) accepted(2)] and r = keyed_get [OF keyed(2) accepted(4)]
  from accepted(8) have a: "auth_route a = rt" "grant_id (auth_grant a) = grant_id g"
    using accepted(7) by auto
  from a g r accepted(3,4,5) show ?thesis
    by (simp add: live_def routeForCredential_def StoredRoute.defs AuthenticatedRoute.defs grant_offers_def)
qed simp

lemma refresh_inv:
  assumes "cache_inv (t, s, c)"
  shows "cache_inv (t, s, refreshAuthorizationEpoch t s c)"
  using assms by (auto simp: cache_inv_def refreshAuthorizationEpoch_def cache_ok_def)

lemma refresh_live:
  assumes "cache_inv (t, s, c)" and "ac_refreshAt c \<le> t"
  shows "all_routes (live s) (refreshAuthorizationEpoch t s c)"
  using assms by (auto simp: cache_inv_def refreshAuthorizationEpoch_def intro!: backed_live)

lemma cacheAuthorization_entries:
  "(k, e) \<in> set (ac_entries (cacheAuthorization now key route c)) \<Longrightarrow>
   (k, e) \<in> set (ac_entries c) \<or> cached_route e = route"
  by (auto simp: cacheAuthorization_def Let_def dest!: set_js_set set_js_delete split: if_splits list.splits)

lemma cacheAuthorization_wf: "js_wf (ac_entries c) \<Longrightarrow> js_wf (ac_entries (cacheAuthorization now key route c))"
  by (auto simp: cacheAuthorization_def Let_def split: list.splits)

lemma cacheAuthorization_length:
  assumes "length (ac_entries c) \<le> AUTHORIZATION_CACHE_MAX_ENTRIES"
  shows "length (ac_entries (cacheAuthorization now key route c)) \<le> AUTHORIZATION_CACHE_MAX_ENTRIES"
proof (cases "AUTHORIZATION_CACHE_MAX_ENTRIES \<le> length (ac_entries c)")
  case True
  then obtain k v es where es: "ac_entries c = (k, v) # es"
    by (cases "ac_entries c") (auto simp: policy_defs)
  have "length (js_delete (ac_entries c) k) < length (ac_entries c)"
    by (rule length_js_delete_present) (simp add: es js_get_def)
  with es assms True length_js_set [of "js_delete (ac_entries c) k" key] show ?thesis
    by (simp add: cacheAuthorization_def Let_def) (meson le_trans less_eq_Suc_le order.strict_trans2)
next
  case False
  with length_js_set [of "ac_entries c" key] show ?thesis
    by (simp add: cacheAuthorization_def Let_def) (meson le_trans not_less_eq_eq)
qed

lemma cacheAuthorization_frame [simp]:
  "ac_epoch (cacheAuthorization now key route c) = ac_epoch c"
  "ac_refreshAt (cacheAuthorization now key route c) = ac_refreshAt c"
  by (simp_all add: cacheAuthorization_def Let_def)

text \<open>
  What a login does: it is refused as malformed and changes nothing, or the cache is refreshed and
  then left with entries of the refreshed cache and of live routes only.
\<close>

lemma move_to_end:
  assumes "cache_ok c" and "js_get (ac_entries c) k = Some e"
  shows "cache_ok (c\<lparr>ac_entries := js_set (js_delete (ac_entries c) k) k e\<rparr>)"
proof -
  have "length (js_delete (ac_entries c) k) < length (ac_entries c)"
    by (rule length_js_delete_present) (simp add: assms(2))
  with length_js_set [of "js_delete (ac_entries c) k" k e] assms(1) show ?thesis by (simp add: cache_ok_def)
qed

lemma cache_ok_delete: "cache_ok c \<Longrightarrow> cache_ok (c\<lparr>ac_entries := js_delete (ac_entries c) k\<rparr>)"
  using length_js_delete [of "ac_entries c" k] by (simp add: cache_ok_def)

lemma cache_ok_insert: "cache_ok c \<Longrightarrow> cache_ok (cacheAuthorization now key route c)"
  by (simp add: cache_ok_def cacheAuthorization_wf cacheAuthorization_length)

lemma probe_cases:
  assumes "authenticate_probe digest now username token s c = (p, c')" and "cache_ok (refreshAuthorizationEpoch now s c)"
  obtains (refused) "p = ProbeRefused" "c' = c"
  | (hit) e where "p = ProbeHit (cached_route e)" "e \<in> snd ` set (ac_entries (refreshAuthorizationEpoch now s c))"
      "set (ac_entries c') \<subseteq> set (ac_entries (refreshAuthorizationEpoch now s c))" "cache_ok c'"
      "ac_epoch c' = ac_epoch (refreshAuthorizationEpoch now s c)"
      "ac_refreshAt c' = ac_refreshAt (refreshAuthorizationEpoch now s c)"
  | (miss) k where "p = ProbeMiss k"
      "set (ac_entries c') \<subseteq> set (ac_entries (refreshAuthorizationEpoch now s c))" "cache_ok c'"
      "ac_epoch c' = ac_epoch (refreshAuthorizationEpoch now s c)"
      "ac_refreshAt c' = ac_refreshAt (refreshAuthorizationEpoch now s c)"
proof (cases "well_formed_login username token")
  case False
  with assms(1) show thesis by (intro refused) (simp_all add: authenticate_probe_def)
next
  case True
  define c1 where "c1 = refreshAuthorizationEpoch now s c"
  define k where "k = authorizationCacheKey digest username token"
  have ok: "cache_ok c1" using assms(2) by (simp add: c1_def)
  note probe = assms(1) [unfolded authenticate_probe_def Let_def, folded c1_def k_def]
  show thesis
  proof (cases "js_get (ac_entries c1) k")
    case None
    with probe True ok show ?thesis by (intro miss [of k]) (simp_all add: c1_def)
  next
    case (Some e)
    note mem = js_get_mem [OF Some] and ok' = move_to_end [OF ok Some] cache_ok_delete [OF ok, of k]
    show ?thesis
    proof (cases "now < cached_expiresAt e")
      case True
      with probe Some \<open>well_formed_login username token\<close> have "p = ProbeHit (cached_route e)"
        "c' = c1\<lparr>ac_entries := js_set (js_delete (ac_entries c1) k) k e\<rparr>" by simp_all
      with mem ok' show ?thesis
        by (intro hit [of e]) (auto simp: c1_def [symmetric] dest!: set_js_set set_js_delete intro: rev_image_eqI)
    next
      case False
      with probe Some \<open>well_formed_login username token\<close> have "p = ProbeMiss k"
        "c' = c1\<lparr>ac_entries := js_delete (ac_entries c1) k\<rparr>" by simp_all
      with ok' show ?thesis
        by (intro miss [of k]) (auto simp: c1_def [symmetric] dest!: set_js_delete)
    qed
  qed
qed

lemma authenticate_cases_login:
  assumes inv: "store_inv s" and login: "authenticate hash digest now username token (s, c) = (r, s', c')"
    and ok: "cache_ok (refreshAuthorizationEpoch now s c)"
    and all: "all_routes Q (refreshAuthorizationEpoch now s c)" and fresh: "\<forall>x. live s x \<longrightarrow> Q x"
  obtains (malformed) e where "r = Inl e" "s' = s" "c' = c"
  | (served) "\<And>x. r = Inr x \<Longrightarrow> Q x" "all_routes Q c'" "cache_ok c'" "epoch_tracks s s'" "store_inv s'"
      "s' = s \<or> s' = exec hash (CmdAuthenticate now username token) s"
      "ac_epoch c' = ac_epoch (refreshAuthorizationEpoch now s c)"
      "ac_refreshAt c' = ac_refreshAt (refreshAuthorizationEpoch now s c)"
proof (cases "authenticate_probe digest now username token s c")
  case (Pair p c2)
  from Pair ok show thesis
  proof (cases rule: probe_cases)
    case refused
    with Pair login show ?thesis by (intro malformed) (auto simp: authenticate_def)
  next
    case (hit e)
    with Pair login have "r = Inr (cached_route e)" "s' = s" "c' = c2" by (auto simp: authenticate_def)
    with hit all inv show ?thesis by (intro served) auto
  next
    case (miss k)
    obtain a s2 where a: "authenticateAccessGrant hash now username token s = (Inr a, s2)"
      by (cases "authenticateAccessGrant hash now username token s" rule: prod.exhaust)
         (metis authenticate_cases)
    obtain r3 c3 where answer: "authenticate_answer now k a s2 c2 = (r3, c3)" by (meson surj_pair)
    from Pair login miss(1) a answer have res: "r = r3" "s' = s2" "c' = c3" by (auto simp: authenticate_def)
    have s2: "epoch_tracks s s2" "store_inv s2" "s2 = exec hash (CmdAuthenticate now username token) s"
      using authenticate_epoch [OF inv, of hash now username token]
        authenticateAccessGrant_inv [OF inv, of hash now username token] a by simp_all
    have all2: "all_routes Q c2" using all miss(2) by blast
    show ?thesis
    proof (cases a)
      case None
      with answer have "r3 = Inl (throw (authenticationError ''Proxy authentication required''))" "c3 = c2"
        by (simp_all add: authenticate_answer_def)
      with res s2 all2 miss show ?thesis by (intro served) auto
    next
      case (Some x)
      let ?route = "routeForCredential (auth_route x) (auth_grant x) (auth_credential x)"
      from answer_live [OF inv] a Some have Q: "Q ?route" using fresh by blast
      from answer Some consider "r3 = Inl (throw (authenticationError ''Proxy authentication required''))" "c3 = c2"
        | "r3 = Inr ?route" "c3 = cacheAuthorization now k ?route c2"
        by (auto simp: authenticate_answer_def Let_def split: if_splits)
      then show ?thesis
      proof cases
        case 1
        with res s2 all2 miss show ?thesis by (intro served) auto
      next
        case 2
        have "all_routes Q c3" using all2 Q cacheAuthorization_entries [of _ _ now k ?route c2] by (fastforce simp: 2)
        with 2 res s2 Q miss show ?thesis by (intro served) (auto simp: cache_ok_insert)
      qed
    qed
  qed
qed

subsection \<open>Withdrawal takes effect within a second\<close>

lemma cache_inv_new: "store_inv s \<Longrightarrow> cache_inv (t, s, new_cache)"
  by (simp add: cache_inv_def new_cache_def cache_ok_def store_inv_def)

lemma cache_inv_step:
  assumes "gateway_step hash digest x y" and "cache_inv x"
  shows "cache_inv y"
  using assms
proof cases
  case (tick t t' s c)
  with assms(2) show ?thesis by (auto simp: cache_inv_def)
next
  case (store t s c cmd)
  with assms(2) have inv: "store_inv s" by (simp add: cache_inv_def)
  note e = exec_epoch [OF inv, of hash cmd]
  with store assms(2) show ?thesis
    by (auto simp: cache_inv_def exec_inv backed_mono [OF _ e] epoch_tracks_def intro: order_trans)
next
  case (invalidate t s c)
  with assms(2) show ?thesis by (auto simp: cache_inv_def invalidateAuthorizationCache_def cache_ok_def store_inv_def)
next
  case (login t username token s c r s' c')
  let ?c = "refreshAuthorizationEpoch t s c"
  have inv: "cache_inv (t, s, c)" using login assms(2) by simp
  then have c1: "cache_ok ?c" "all_routes (backed s (ac_epoch ?c)) ?c" "store_inv s" "ac_epoch ?c \<le> authorizationEpoch s"
      "ac_refreshAt ?c \<le> max 0 (t + AUTHORIZATION_EPOCH_REFRESH_MS)"
    using refresh_inv [OF inv] by (simp_all add: cache_inv_def)
  have fresh: "\<forall>x. live s x \<longrightarrow> backed s (ac_epoch ?c) x" using live_backed [OF _ c1(4)] by blast
  from c1(3) login(3) c1(1,2) fresh show ?thesis
  proof (cases rule: authenticate_cases_login [where Q = "backed s (ac_epoch ?c)"])
    case (malformed e)
    with login inv show ?thesis by simp
  next
    case served
    with login c1 show ?thesis
      by (auto simp: cache_inv_def backed_mono [OF _ served(4)] epoch_tracks_def intro: order_trans)
  qed
qed

lemma cache_inv_run: "gateway_run hash digest x y \<Longrightarrow> cache_inv x \<Longrightarrow> cache_inv y"
  by (induction rule: rtranclp_induct) (auto intro: cache_inv_step)

lemma withdrawn_exec:
  assumes "store_inv s" and "withdrawn s x"
  shows "withdrawn (exec hash cmd s) x"
  using assms(2) routes.run_evolves [OF assms(1), of _ _ hash "[cmd]"] grants.run_evolves [OF assms(1), of _ _ hash "[cmd]"]
  unfolding withdrawn_def by (fastforce simp: route_evolves_def grant_evolves_def)

lemma withdrawn_not_live: "withdrawn s x \<Longrightarrow> \<not> live s x"
  by (auto simp: withdrawn_def live_def)

text \<open>
  Since an instant \<open>t0\<close> at which the store was \<open>s0\<close>: the cache has not been refreshed yet, or it holds
  nothing that was withdrawn at \<open>t0\<close>.
\<close>

definition settled :: "timestamp \<Rightarrow> StoreState \<Rightarrow> timestamp \<times> StoreState \<times> AuthorizationCache \<Rightarrow> bool" where
  "settled t0 s0 x = (case x of (t, s, c) \<Rightarrow>
     cache_inv (t, s, c) \<and> t0 \<le> t \<and> (\<forall>route. withdrawn s0 route \<longrightarrow> withdrawn s route)
     \<and> (ac_refreshAt c \<le> max 0 (t0 + AUTHORIZATION_EPOCH_REFRESH_MS) \<or> all_routes (\<lambda>route. \<not> withdrawn s0 route) c))"

lemma refreshed_settled:
  assumes "settled t0 s0 (t, s, c)" and "ac_refreshAt c \<le> t \<or> all_routes (\<lambda>route. \<not> withdrawn s0 route) c"
  shows "all_routes (\<lambda>route. \<not> withdrawn s0 route) (refreshAuthorizationEpoch t s c)"
proof (cases "ac_refreshAt c \<le> t")
  case True
  have "cache_inv (t, s, c)" using assms(1) by (simp add: settled_def)
  from refresh_live [OF this True] assms(1) show ?thesis by (auto simp: settled_def dest: withdrawn_not_live)
next
  case False
  with assms(2) show ?thesis by (simp add: refreshAuthorizationEpoch_def)
qed

lemma settled_step:
  assumes "gateway_step hash digest x y" and "settled t0 s0 x"
  shows "settled t0 s0 y"
proof -
  from assms cache_inv_step [OF assms(1)] have inv': "cache_inv y" by (auto simp: settled_def split: prod.splits)
  from assms(1) show ?thesis
  proof cases
    case (tick t t' s c)
    with assms(2) inv' show ?thesis by (auto simp: settled_def)
  next
    case (store t s c cmd)
    with assms(2) inv' show ?thesis by (auto simp: settled_def cache_inv_def intro: withdrawn_exec)
  next
    case (invalidate t s c)
    with assms(2) inv' show ?thesis by (auto simp: settled_def invalidateAuthorizationCache_def)
  next
    case (login t username token s c r s' c')
    let ?c = "refreshAuthorizationEpoch t s c"
    have st: "settled t0 s0 (t, s, c)" using login assms(2) by simp
    then have inv: "cache_inv (t, s, c)" "store_inv s" by (simp_all add: settled_def cache_inv_def)
    have ok: "cache_ok ?c" using refresh_inv [OF inv(1)] by (simp add: cache_inv_def)
    let ?Q = "\<lambda>x. ac_refreshAt ?c \<le> max 0 (t0 + AUTHORIZATION_EPOCH_REFRESH_MS) \<or> \<not> withdrawn s0 x"
    have all: "all_routes ?Q ?c"
      using refreshed_settled [OF st] st by (auto simp: settled_def refreshAuthorizationEpoch_def split: if_splits)
    have fresh: "\<forall>x. live s x \<longrightarrow> ?Q x" using st by (auto simp: settled_def dest: withdrawn_not_live)
    from inv(2) login(3) ok all fresh show ?thesis
    proof (cases rule: authenticate_cases_login [where Q = ?Q])
      case (malformed e)
      with login st inv' show ?thesis by simp
    next
      case served
      from served(6) st have "withdrawn s' x" if "withdrawn s0 x" for x
        using that withdrawn_exec [OF inv(2), of x hash "CmdAuthenticate t username token"] by (auto simp: settled_def)
      with login served inv' st show ?thesis by (auto simp: settled_def)
    qed
  qed
qed

lemma settled_run: "gateway_run hash digest x y \<Longrightarrow> settled t0 s0 x \<Longrightarrow> settled t0 s0 y"
  by (induction rule: rtranclp_induct) (auto intro: settled_step)



text \<open>
  The bound rests on a login that is not interrupted. The code awaits the store between the probe
  and the answer: an answer that was read before a revocation and arrives after the cache was
  refreshed is kept for its full half minute.
\<close>

theorem late_answer_outlives_revocation:
  "let (p, c1) = authenticate_probe id 0 ''pxy_c'' ''t'' sample_store new_cache;
       key = authorizationCacheKey id ''pxy_c'' ''t'';
       (answer, s1) = authenticateAccessGrant sample_hash 0 ''pxy_c'' ''t'' sample_store;
       s2 = snd (revokeAccessGrant 500 ''g'' True s1);
       (_, s3, c3) = authenticate sample_hash id 1500 ''pxy_d'' ''t'' (s2, c1);
       c4 = (case answer of Inr a \<Rightarrow> snd (authenticate_answer 1600 key a s3 c3) | Inl _ \<Rightarrow> c3)
   in p = ProbeMiss key
    \<and> (case authenticate sample_hash id 31000 ''pxy_c'' ''t'' (s3, c4) of
         (Inr route, _) \<Rightarrow> grant_status (the (js_get (st_grants s3) (ar_accessGrantId route))) = GrantRevoked
       | _ \<Rightarrow> False)"
  by code_simp

end
