(* ===== verification/Connection_Tracker.thy ===== *)
theory Connection_Tracker
  imports Store_Contracts
begin

text \<open>
  \<open>src/active-connection-tracker.ts\<close>: the connections a gateway task serves, indexed by route, grant
  and session so that they can be cut, and the poller that watches the authorization epoch and the
  deployment and sends heartbeats. A termination callback is compared by identity only, so it is an
  identifier; the calls of callbacks are recorded in order. A poll runs without interleaving, which
  is what the flag \<open>#polling\<close> and the single timer are for.
\<close>

type_synonym callback = string

type_synonym callback_index = "(string, callback list) js_map"

record TrackedConnection =
  tc_routeId :: string
  tc_accessGrantId :: string
  tc_sessionId :: "string option"
  tc_terminate :: callback
  tc_nextHeartbeatAt :: timestamp

text \<open>The closure \<open>track\<close> returns; it acts once.\<close>

record FinishHandle =
  fh_serial :: nat
  fh_connectionId :: string
  fh_routeId :: string
  fh_accessGrantId :: string
  fh_sessionId :: "string option"
  fh_terminate :: callback

record ActiveConnectionTracker =
  tr_activeByRoute :: callback_index
  tr_activeByGrant :: callback_index
  tr_activeBySession :: callback_index
  tr_connections :: "(string, TrackedConnection) js_map"
  tr_pollTimer :: bool
  tr_authorizationEpoch :: int
  tr_nextDeploymentCheckAt :: timestamp
  tr_unfinished :: "FinishHandle list"
  tr_serial :: nat
  tr_terminated :: "callback list"

definition new_tracker :: ActiveConnectionTracker where
  "new_tracker =
     \<lparr>tr_activeByRoute = [], tr_activeByGrant = [], tr_activeBySession = [], tr_connections = [], tr_pollTimer = False,
      tr_authorizationEpoch = -1, tr_nextDeploymentCheckAt = 0, tr_unfinished = [], tr_serial = 0, tr_terminated = []\<rparr>"

subsection \<open>Indexes of callbacks\<close>

definition index_callbacks :: "callback_index \<Rightarrow> string \<Rightarrow> callback list" where
  "index_callbacks idx k = (case js_get idx k of None \<Rightarrow> [] | Some cbs \<Rightarrow> cbs)"

definition add_callback :: "callback_index \<Rightarrow> string \<Rightarrow> callback \<Rightarrow> callback_index" where
  "add_callback idx k cb =
     (let cbs = index_callbacks idx k in js_set idx k (if has cbs cb then cbs else cbs @ [cb]))"

definition remove_callback :: "callback_index \<Rightarrow> string \<Rightarrow> callback \<Rightarrow> callback_index" where
  "remove_callback idx k cb =
     (case js_get idx k of
        None \<Rightarrow> idx
      | Some cbs \<Rightarrow> if removeAll cb cbs = [] then js_delete idx k else js_set idx k (removeAll cb cbs))"

definition call_all :: "callback list \<Rightarrow> ActiveConnectionTracker \<Rightarrow> ActiveConnectionTracker" where
  "call_all cbs tr = tr\<lparr>tr_terminated := tr_terminated tr @ cbs\<rparr>"

definition terminateRoute :: "string \<Rightarrow> ActiveConnectionTracker \<Rightarrow> ActiveConnectionTracker" where
  "terminateRoute rid tr = call_all (index_callbacks (tr_activeByRoute tr) rid) tr"

definition terminateGrant :: "string \<Rightarrow> ActiveConnectionTracker \<Rightarrow> ActiveConnectionTracker" where
  "terminateGrant gid tr = call_all (index_callbacks (tr_activeByGrant tr) gid) tr"

definition terminateSession :: "string \<Rightarrow> ActiveConnectionTracker \<Rightarrow> ActiveConnectionTracker" where
  "terminateSession sid tr = call_all (index_callbacks (tr_activeBySession tr) sid) tr"

definition terminateAll :: "ActiveConnectionTracker \<Rightarrow> ActiveConnectionTracker" where
  "terminateAll tr = call_all (map tc_terminate (js_values (tr_connections tr))) tr"

definition canAcceptConnection :: "ActiveConnectionTracker \<Rightarrow> bool" where
  "canAcceptConnection tr \<longleftrightarrow> length (tr_connections tr) < maxActiveConnectionsPerTask TRANSPORT_POLICY"

subsection \<open>The poller\<close>

definition HEARTBEAT_INTERVAL_MS :: int where
  [policy_defs]: "HEARTBEAT_INTERVAL_MS = 30000"

definition authority_key :: "TrackedConnection \<Rightarrow> string" where
  "authority_key c =
     tc_routeId c @ CHR 0x00 # tc_accessGrantId c @ CHR 0x00 # (case tc_sessionId c of None \<Rightarrow> [] | Some i \<Rightarrow> i)"

definition unique_connections :: "ActiveConnectionTracker \<Rightarrow> (string, TrackedConnection) js_map" where
  "unique_connections tr = js_of_entries (map (\<lambda>c. (authority_key c, c)) (js_values (tr_connections tr)))"

definition poll_epoch :: "StoreState \<Rightarrow> ActiveConnectionTracker \<Rightarrow> ActiveConnectionTracker" where
  "poll_epoch s tr =
     (if authorizationEpoch s = tr_authorizationEpoch tr then tr
      else call_all
        (map tc_terminate
          (filter (\<lambda>c. shouldTerminateActive (tc_routeId c) (Some (tc_accessGrantId c)) (tc_sessionId c) s)
             (js_values (unique_connections tr))))
        (tr\<lparr>tr_authorizationEpoch := authorizationEpoch s\<rparr>))"

definition poll_deployment ::
  "timestamp \<Rightarrow> string \<Rightarrow> StoreState \<Rightarrow> ActiveConnectionTracker \<Rightarrow> ActiveConnectionTracker" where
  "poll_deployment now did s tr =
     (if now < tr_nextDeploymentCheckAt tr then tr
      else let tr = tr\<lparr>tr_nextDeploymentCheckAt := now + DEPLOYMENT_POLL_INTERVAL_MS\<rparr>
           in if shouldTerminateDeployment did s then terminateAll tr else tr)"

definition beat :: "timestamp \<Rightarrow> TrackedConnection \<Rightarrow> TrackedConnection" where
  "beat now c = (if now < tc_nextHeartbeatAt c then c else c\<lparr>tc_nextHeartbeatAt := now + HEARTBEAT_INTERVAL_MS\<rparr>)"

definition poll_heartbeats ::
  "timestamp \<Rightarrow> StoreState \<times> ActiveConnectionTracker \<Rightarrow> StoreState \<times> ActiveConnectionTracker" where
  "poll_heartbeats now st =
     (foldl (\<lambda>s (cid, c). if now < tc_nextHeartbeatAt c then s
                          else heartbeatActiveTunnel cid now (now + ACTIVE_CONNECTION_TTL_MS) s)
        (fst st) (tr_connections (snd st)),
      (snd st)\<lparr>tr_connections := map (\<lambda>(cid, c). (cid, beat now c)) (tr_connections (snd st))\<rparr>)"

definition poll ::
  "timestamp \<Rightarrow> string \<Rightarrow> StoreState \<times> ActiveConnectionTracker \<Rightarrow> StoreState \<times> ActiveConnectionTracker" where
  "poll now did st =
     (if tr_connections (snd st) = [] then st
      else poll_heartbeats now (fst st, poll_deployment now did (fst st) (poll_epoch (fst st) (snd st))))"

definition startPoller ::
  "timestamp \<Rightarrow> string \<Rightarrow> StoreState \<times> ActiveConnectionTracker \<Rightarrow> StoreState \<times> ActiveConnectionTracker" where
  "startPoller now did st =
     (if tr_pollTimer (snd st) then st
      else case poll now did st of (s, tr) \<Rightarrow> (s, tr\<lparr>tr_pollTimer := True\<rparr>))"

definition stopPollerWhenIdle :: "ActiveConnectionTracker \<Rightarrow> ActiveConnectionTracker" where
  "stopPollerWhenIdle tr = (if tr_connections tr \<noteq> [] \<or> \<not> tr_pollTimer tr then tr else tr\<lparr>tr_pollTimer := False\<rparr>)"

subsection \<open>Tracking a connection\<close>

definition register_connection ::
  "timestamp \<Rightarrow> string \<Rightarrow> string \<Rightarrow> string \<Rightarrow> string option \<Rightarrow> callback \<Rightarrow> ActiveConnectionTracker \<Rightarrow>
   FinishHandle \<times> ActiveConnectionTracker" where
  "register_connection now cid rid gid sid terminate tr =
     (let h = \<lparr>fh_serial = tr_serial tr, fh_connectionId = cid, fh_routeId = rid, fh_accessGrantId = gid,
               fh_sessionId = sid, fh_terminate = terminate\<rparr>
      in (h, tr\<lparr>tr_activeByRoute := add_callback (tr_activeByRoute tr) rid terminate,
                tr_activeByGrant := add_callback (tr_activeByGrant tr) gid terminate,
                tr_activeBySession := (case sid of None \<Rightarrow> tr_activeBySession tr
                                       | Some i \<Rightarrow> add_callback (tr_activeBySession tr) i terminate),
                tr_connections := js_set (tr_connections tr) cid
                  \<lparr>tc_routeId = rid, tc_accessGrantId = gid, tc_sessionId = sid, tc_terminate = terminate,
                   tc_nextHeartbeatAt = now + HEARTBEAT_INTERVAL_MS\<rparr>,
                tr_unfinished := tr_unfinished tr @ [h], tr_serial := tr_serial tr + 1\<rparr>))"

text \<open>\<open>fresh\<close> is the identifier \<open>randomUUID\<close> yields.\<close>

definition track ::
  "timestamp \<Rightarrow> string \<Rightarrow> string \<Rightarrow> string \<Rightarrow> string \<Rightarrow> string option \<Rightarrow> DataPlaneProtocol \<Rightarrow> UpstreamEndpoint \<Rightarrow> callback \<Rightarrow>
   (exn, StoreState \<times> ActiveConnectionTracker, FinishHandle \<times> UpstreamEndpoint) op" where
  "track now did fresh rid gid sid protocol upstream terminate st =
     (let cid = (case activeLoadClaimId upstream of None \<Rightarrow> fresh | Some c \<Rightarrow> c);
          connection = \<lparr>tun_id = cid, deploymentId = did, tun_routeId = rid, tun_accessGrantId = gid, tun_sessionId = sid,
            tun_protocol = protocol, tun_provider = ep_provider upstream, tun_endpointId = Some (ep_endpointId upstream),
            tun_routingPolicyVersion = ep_routingPolicyVersion upstream, tun_routingScore = ep_routingScore upstream,
            startedAt = now, lastHeartbeatAt = now, tun_expiresAt = now + ACTIVE_CONNECTION_TTL_MS\<rparr>
      in case (case activeLoadClaimId upstream of
                 None \<Rightarrow> registerActiveTunnel connection (fst st)
               | Some _ \<Rightarrow> (Inr (), heartbeatActiveTunnel cid now (tun_expiresAt connection) (fst st))) of
           (Inl e, s) \<Rightarrow> (Inl e, s, snd st)
         | (Inr _, s) \<Rightarrow>
             let upstream = upstream\<lparr>upstreamConnectionId := Some cid, upstreamConnectionStartedAt := Some now\<rparr>;
                 (h, tr) = register_connection now cid rid gid sid terminate (snd st)
             in (Inr (h, upstream), startPoller now did (s, tr)))"

definition recordDisconnect :: "timestamp \<Rightarrow> string \<Rightarrow> StoreState \<Rightarrow> StoreState" where
  "recordDisconnect now sid s =
     (case getLogicalSession sid False s of
        Inl _ \<Rightarrow> s
      | Inr x \<Rightarrow> snd (saveLogicalSession (x\<lparr>lastDisconnectedAt := Some now, session_updatedAt := now\<rparr>) (bindingVersion x) s))"

definition finish ::
  "timestamp \<Rightarrow> FinishHandle \<Rightarrow> StoreState \<times> ActiveConnectionTracker \<Rightarrow> StoreState \<times> ActiveConnectionTracker" where
  "finish now h st =
     (let tr = snd st
      in if \<not> has (tr_unfinished tr) h then st
         else let tr = tr\<lparr>tr_unfinished := removeAll h (tr_unfinished tr),
                          tr_connections := js_delete (tr_connections tr) (fh_connectionId h)\<rparr>;
                  tr = stopPollerWhenIdle tr;
                  tr = tr\<lparr>tr_activeByRoute := remove_callback (tr_activeByRoute tr) (fh_routeId h) (fh_terminate h),
                          tr_activeByGrant := remove_callback (tr_activeByGrant tr) (fh_accessGrantId h) (fh_terminate h),
                          tr_activeBySession := (case fh_sessionId h of None \<Rightarrow> tr_activeBySession tr
                             | Some i \<Rightarrow> remove_callback (tr_activeBySession tr) i (fh_terminate h))\<rparr>;
                  s = removeActiveTunnel (fh_connectionId h) (fst st)
              in (case fh_sessionId h of None \<Rightarrow> s | Some i \<Rightarrow> recordDisconnect now i s, tr))"

definition release :: "UpstreamEndpoint \<Rightarrow> StoreState \<Rightarrow> UpstreamEndpoint \<times> StoreState" where
  "release upstream s =
     (case activeLoadClaimId upstream of
        None \<Rightarrow> (upstream, s)
      | Some claim \<Rightarrow> (upstream\<lparr>activeLoadClaimId := None\<rparr>, removeActiveTunnel claim s))"

subsection \<open>An index mirrors the connections\<close>

lemma js_get_map: "js_get (map (\<lambda>(i, c). (i, f c)) m) k = map_option f (js_get m k)"
  by (simp add: js_get_def map_of_map)

text \<open>
  What a client of an index relies on: under a key it lists, without repetition, the callbacks of
  exactly the connections that have the key.
\<close>

locale connection_index =
  fixes key :: "TrackedConnection \<Rightarrow> string option"
  assumes key_beat: "key (beat now c) = key c"
begin

definition holders :: "(string, TrackedConnection) js_map \<Rightarrow> string \<Rightarrow> callback set" where
  "holders conns k = {cb. \<exists>cid c. js_get conns cid = Some c \<and> key c = Some k \<and> tc_terminate c = cb}"

definition mirrors :: "(string, TrackedConnection) js_map \<Rightarrow> callback_index \<Rightarrow> bool" where
  "mirrors conns idx \<longleftrightarrow>
     (\<forall>k. distinct (index_callbacks idx k) \<and> set (index_callbacks idx k) = holders conns k)"

lemma holders_set:
  assumes "js_get conns cid = None"
  shows "holders (js_set conns cid c) k = (if key c = Some k then insert (tc_terminate c) (holders conns k) else holders conns k)"
proof -
  have "js_get (js_set conns cid c) i = Some d \<longleftrightarrow> i = cid \<and> d = c \<or> js_get conns i = Some d" for i d
    using assms by auto
  then show ?thesis unfolding holders_def by auto
qed

lemma holders_delete:
  assumes "js_get conns cid = Some c"
    and "\<And>i d. js_get conns i = Some d \<Longrightarrow> tc_terminate d = tc_terminate c \<Longrightarrow> i = cid"
  shows "holders (js_delete conns cid) k = (if key c = Some k then holders conns k - {tc_terminate c} else holders conns k)"
proof (rule set_eqI)
  fix cb
  have "cb \<in> holders (js_delete conns cid) k \<longleftrightarrow>
      (\<exists>i d. i \<noteq> cid \<and> js_get conns i = Some d \<and> key d = Some k \<and> tc_terminate d = cb)"
    unfolding holders_def by (simp split: if_splits) blast
  also have "\<dots> \<longleftrightarrow> cb \<in> holders conns k \<and> (key c = Some k \<longrightarrow> cb \<noteq> tc_terminate c)"
  proof
    assume "\<exists>i d. i \<noteq> cid \<and> js_get conns i = Some d \<and> key d = Some k \<and> tc_terminate d = cb"
    with assms(2) show "cb \<in> holders conns k \<and> (key c = Some k \<longrightarrow> cb \<noteq> tc_terminate c)"
      unfolding holders_def by blast
  next
    assume h: "cb \<in> holders conns k \<and> (key c = Some k \<longrightarrow> cb \<noteq> tc_terminate c)"
    then obtain i d where d: "js_get conns i = Some d" "key d = Some k" "tc_terminate d = cb"
      unfolding holders_def by blast
    have "i \<noteq> cid" using d h assms(1) by auto
    with d show "\<exists>i d. i \<noteq> cid \<and> js_get conns i = Some d \<and> key d = Some k \<and> tc_terminate d = cb" by blast
  qed
  finally show "cb \<in> holders (js_delete conns cid) k \<longleftrightarrow>
      cb \<in> (if key c = Some k then holders conns k - {tc_terminate c} else holders conns k)" by simp
qed

lemma holders_beat: "holders (map (\<lambda>(i, c). (i, beat now c)) conns) k = holders conns k"
proof -
  have "tc_terminate (beat now c) = tc_terminate c" for c by (simp add: beat_def)
  then show ?thesis by (fastforce simp: holders_def js_get_map key_beat)
qed

lemma mirrors_empty: "mirrors [] []"
  by (simp add: mirrors_def index_callbacks_def holders_def)

lemma callbacks_add:
  "index_callbacks (add_callback idx k cb) l =
     (if l = k then (if has (index_callbacks idx k) cb then index_callbacks idx k else index_callbacks idx k @ [cb])
      else index_callbacks idx l)"
  by (simp add: add_callback_def index_callbacks_def [of "js_set _ _ _"] Let_def) (simp add: index_callbacks_def)

lemma callbacks_remove:
  "index_callbacks (remove_callback idx k cb) l = (if l = k then removeAll cb (index_callbacks idx l) else index_callbacks idx l)"
  by (auto simp: remove_callback_def index_callbacks_def split: option.split)

lemma mirrors_add:
  assumes "mirrors conns idx" and "js_get conns cid = None"
  shows "mirrors (js_set conns cid c) (case key c of None \<Rightarrow> idx | Some k \<Rightarrow> add_callback idx k (tc_terminate c))"
  using assms by (auto simp: mirrors_def callbacks_add holders_set split: option.split)

lemma mirrors_remove:
  assumes "mirrors conns idx" and "js_get conns cid = Some c"
    and "\<And>i d. js_get conns i = Some d \<Longrightarrow> tc_terminate d = tc_terminate c \<Longrightarrow> i = cid"
  shows "mirrors (js_delete conns cid) (case key c of None \<Rightarrow> idx | Some k \<Rightarrow> remove_callback idx k (tc_terminate c))"
  using assms(1) holders_delete [OF assms(2,3)]
  by (auto simp: mirrors_def callbacks_remove distinct_removeAll split: option.split)

lemma mirrors_beat: "mirrors conns idx \<Longrightarrow> mirrors (map (\<lambda>(i, c). (i, beat now c)) conns) idx"
  by (simp add: mirrors_def holders_beat)

end

interpretation by_route: connection_index "\<lambda>c. Some (tc_routeId c)"
  by unfold_locales (simp add: beat_def)

interpretation by_grant: connection_index "\<lambda>c. Some (tc_accessGrantId c)"
  by unfold_locales (simp add: beat_def)

interpretation by_session: connection_index tc_sessionId
  by unfold_locales (simp add: beat_def)

subsection \<open>The tracker over time\<close>

definition handle_matches :: "FinishHandle \<Rightarrow> TrackedConnection \<Rightarrow> bool" where
  "handle_matches h c \<longleftrightarrow>
     fh_routeId h = tc_routeId c \<and> fh_accessGrantId h = tc_accessGrantId c \<and> fh_sessionId h = tc_sessionId c
     \<and> fh_terminate h = tc_terminate c"

definition tracker_inv :: "ActiveConnectionTracker \<Rightarrow> bool" where
  "tracker_inv tr \<longleftrightarrow>
     by_route.mirrors (tr_connections tr) (tr_activeByRoute tr)
     \<and> by_grant.mirrors (tr_connections tr) (tr_activeByGrant tr)
     \<and> by_session.mirrors (tr_connections tr) (tr_activeBySession tr)
     \<and> (\<forall>i j c d. js_get (tr_connections tr) i = Some c \<and> js_get (tr_connections tr) j = Some d
          \<and> tc_terminate c = tc_terminate d \<longrightarrow> i = j)
     \<and> (\<forall>h. has (tr_unfinished tr) h \<longrightarrow>
          (\<exists>c. js_get (tr_connections tr) (fh_connectionId h) = Some c \<and> handle_matches h c))
     \<and> (\<forall>h h'. has (tr_unfinished tr) h \<and> has (tr_unfinished tr) h' \<and> fh_connectionId h = fh_connectionId h' \<longrightarrow> h = h')"

text \<open>
  The life of a tracker: connections are tracked with a connection identifier and a callback of
  their own, finished, cut and polled, while others use the store.
\<close>

inductive tracker_step ::
  "string \<Rightarrow> StoreState \<times> ActiveConnectionTracker \<Rightarrow> StoreState \<times> ActiveConnectionTracker \<Rightarrow> bool" for did where
  track_connection: "track now did fresh rid gid sid protocol upstream terminate (s, tr) = (r, st') \<Longrightarrow>
    \<not> js_has (tr_connections tr) (case activeLoadClaimId upstream of None \<Rightarrow> fresh | Some c \<Rightarrow> c) \<Longrightarrow>
    (\<And>i c. js_get (tr_connections tr) i = Some c \<Longrightarrow> tc_terminate c \<noteq> terminate) \<Longrightarrow>
    tracker_step did (s, tr) st'"
| finish_connection: "tracker_step did st (finish now h st)"
| poll_connections: "tracker_step did st (poll now did st)"
| cut_route: "tracker_step did (s, tr) (s, terminateRoute rid tr)"
| cut_grant: "tracker_step did (s, tr) (s, terminateGrant gid tr)"
| cut_session: "tracker_step did (s, tr) (s, terminateSession sid tr)"
| store_changes: "tracker_step did (s, tr) (s', tr)"

lemma call_all_frame [simp]:
  "tr_activeByRoute (call_all cbs tr) = tr_activeByRoute tr" "tr_activeByGrant (call_all cbs tr) = tr_activeByGrant tr"
  "tr_activeBySession (call_all cbs tr) = tr_activeBySession tr" "tr_connections (call_all cbs tr) = tr_connections tr"
  "tr_unfinished (call_all cbs tr) = tr_unfinished tr"
  by (simp_all add: call_all_def)

lemma tracker_inv_cong:
  "tr_activeByRoute tr' = tr_activeByRoute tr \<Longrightarrow> tr_activeByGrant tr' = tr_activeByGrant tr \<Longrightarrow>
   tr_activeBySession tr' = tr_activeBySession tr \<Longrightarrow> tr_connections tr' = tr_connections tr \<Longrightarrow>
   tr_unfinished tr' = tr_unfinished tr \<Longrightarrow> tracker_inv tr' = tracker_inv tr"
  by (simp add: tracker_inv_def)

lemma poll_epoch_inv: "tracker_inv (poll_epoch s tr) = tracker_inv tr"
  by (rule tracker_inv_cong) (simp_all add: poll_epoch_def)

lemma poll_deployment_inv: "tracker_inv (poll_deployment now did s tr) = tracker_inv tr"
  by (rule tracker_inv_cong) (simp_all add: poll_deployment_def terminateAll_def Let_def)

lemma poll_heartbeats_inv:
  assumes "tracker_inv tr"
  shows "tracker_inv (snd (poll_heartbeats now (s, tr)))"
proof -
  have same: "tc_terminate (beat now c) = tc_terminate c" "handle_matches h (beat now c) = handle_matches h c" for c h
    by (simp_all add: beat_def handle_matches_def)
  from assms show ?thesis
    unfolding tracker_inv_def poll_heartbeats_def
    by (auto simp: by_route.mirrors_beat by_grant.mirrors_beat by_session.mirrors_beat js_get_map same)
qed

lemma poll_inv: "tracker_inv (snd st) \<Longrightarrow> tracker_inv (snd (poll now did st))"
  by (simp add: poll_def poll_heartbeats_inv poll_deployment_inv poll_epoch_inv)

lemma register_inv:
  assumes inv: "tracker_inv tr" and new: "js_get (tr_connections tr) cid = None"
    and own: "\<And>i c. js_get (tr_connections tr) i = Some c \<Longrightarrow> tc_terminate c \<noteq> terminate"
  shows "tracker_inv (snd (register_connection now cid rid gid sid terminate tr))"
proof -
  define c where "c = \<lparr>tc_routeId = rid, tc_accessGrantId = gid, tc_sessionId = sid, tc_terminate = terminate,
      tc_nextHeartbeatAt = now + HEARTBEAT_INTERVAL_MS\<rparr>"
  have f: "tc_routeId c = rid" "tc_accessGrantId c = gid" "tc_sessionId c = sid" "tc_terminate c = terminate"
    by (simp_all add: c_def)
  let ?conns = "js_set (tr_connections tr) cid c"
  have route: "by_route.mirrors ?conns (add_callback (tr_activeByRoute tr) rid terminate)"
    using by_route.mirrors_add [OF _ new, of "tr_activeByRoute tr" c] inv by (simp add: tracker_inv_def f)
  have grant: "by_grant.mirrors ?conns (add_callback (tr_activeByGrant tr) gid terminate)"
    using by_grant.mirrors_add [OF _ new, of "tr_activeByGrant tr" c] inv by (simp add: tracker_inv_def f)
  have session: "by_session.mirrors ?conns (case sid of None \<Rightarrow> tr_activeBySession tr
      | Some i \<Rightarrow> add_callback (tr_activeBySession tr) i terminate)"
    using by_session.mirrors_add [OF _ new, of "tr_activeBySession tr" c] inv
    by (cases sid) (simp_all add: tracker_inv_def f)
  have old: "fh_connectionId h \<noteq> cid" if "has (tr_unfinished tr) h" for h
    using inv that new unfolding tracker_inv_def by fastforce
  have unique: "i = j" if "js_get ?conns i = Some x" "js_get ?conns j = Some y" "tc_terminate x = tc_terminate y" for i j x y
    using that inv own f(4) by (auto simp: tracker_inv_def split: if_splits)
  let ?h = "fst (register_connection now cid rid gid sid terminate tr)"
  have h: "fh_connectionId ?h = cid" "handle_matches ?h c"
    by (simp_all add: register_connection_def Let_def handle_matches_def f)
  have frame: "tr_connections (snd (register_connection now cid rid gid sid terminate tr)) = ?conns"
    "tr_unfinished (snd (register_connection now cid rid gid sid terminate tr)) = tr_unfinished tr @ [?h]"
    "tr_activeByRoute (snd (register_connection now cid rid gid sid terminate tr)) = add_callback (tr_activeByRoute tr) rid terminate"
    "tr_activeByGrant (snd (register_connection now cid rid gid sid terminate tr)) = add_callback (tr_activeByGrant tr) gid terminate"
    "tr_activeBySession (snd (register_connection now cid rid gid sid terminate tr))
       = (case sid of None \<Rightarrow> tr_activeBySession tr | Some i \<Rightarrow> add_callback (tr_activeBySession tr) i terminate)"
    by (simp_all add: register_connection_def Let_def c_def)
  have handles: "\<exists>d. js_get ?conns (fh_connectionId g) = Some d \<and> handle_matches g d" if "has (tr_unfinished tr @ [?h]) g" for g
  proof (cases "g = ?h")
    case True
    with h show ?thesis by simp
  next
    case False
    with that have g: "has (tr_unfinished tr) g" by simp
    with inv obtain d where "js_get (tr_connections tr) (fh_connectionId g) = Some d" "handle_matches g d"
      unfolding tracker_inv_def by blast
    with old [OF g] show ?thesis by simp
  qed
  have distinct: "g = g'" if "has (tr_unfinished tr @ [?h]) g" "has (tr_unfinished tr @ [?h]) g'" "fh_connectionId g = fh_connectionId g'" for g g'
  proof (cases "g = ?h \<or> g' = ?h")
    case True
    with that h(1) old [of g] old [of g'] show ?thesis by auto
  next
    case False
    with that inv show ?thesis unfolding tracker_inv_def by simp
  qed
  show ?thesis
    unfolding tracker_inv_def frame using route grant session unique handles distinct by blast
qed

lemma start_poller_inv: "tracker_inv (snd st) \<Longrightarrow> tracker_inv (snd (startPoller now did st))"
proof -
  assume "tracker_inv (snd st)"
  then have "tracker_inv (snd (poll now did st))" by (rule poll_inv)
  moreover have "tracker_inv (tr\<lparr>tr_pollTimer := True\<rparr>) = tracker_inv tr" for tr
    by (rule tracker_inv_cong) simp_all
  ultimately show ?thesis using \<open>tracker_inv (snd st)\<close> by (cases "poll now did st") (simp add: startPoller_def)
qed

lemma track_inv:
  assumes "track now did fresh rid gid sid protocol upstream terminate (s, tr) = (r, st')" and "tracker_inv tr"
    and "\<not> js_has (tr_connections tr) (case activeLoadClaimId upstream of None \<Rightarrow> fresh | Some c \<Rightarrow> c)"
    and "\<And>i c. js_get (tr_connections tr) i = Some c \<Longrightarrow> tc_terminate c \<noteq> terminate"
  shows "tracker_inv (snd st')"
proof -
  let ?cid = "case activeLoadClaimId upstream of None \<Rightarrow> fresh | Some c \<Rightarrow> c"
  have new: "js_get (tr_connections tr) ?cid = None" using assms(3) by (simp add: js_has_def)
  have reg: "tracker_inv (snd (register_connection now ?cid rid gid sid terminate tr))"
    by (rule register_inv [OF assms(2) new assms(4)])
  have "tracker_inv (snd (startPoller now did (s', snd (register_connection now ?cid rid gid sid terminate tr))))" for s'
    by (rule start_poller_inv) (simp add: reg)
  with assms(1,2) show ?thesis
    by (auto simp: track_def Let_def split: prod.splits sum.splits)
qed

lemma finish_inv:
  assumes "tracker_inv (snd st)"
  shows "tracker_inv (snd (finish now h st))"
proof (cases "has (tr_unfinished (snd st)) h")
  case False
  with assms show ?thesis by (simp add: finish_def)
next
  case True
  let ?tr = "snd st" and ?cid = "fh_connectionId h"
  from True assms obtain c where c: "js_get (tr_connections ?tr) ?cid = Some c" and m: "handle_matches h c"
    unfolding tracker_inv_def by blast
  have f: "fh_routeId h = tc_routeId c" "fh_accessGrantId h = tc_accessGrantId c" "fh_sessionId h = tc_sessionId c"
      "fh_terminate h = tc_terminate c" using m by (simp_all add: handle_matches_def)
  have unique: "i = ?cid" if "js_get (tr_connections ?tr) i = Some d" "tc_terminate d = tc_terminate c" for i d
    using assms that c unfolding tracker_inv_def by blast
  let ?conns = "js_delete (tr_connections ?tr) ?cid"
  have route: "by_route.mirrors ?conns (remove_callback (tr_activeByRoute ?tr) (fh_routeId h) (fh_terminate h))"
    using by_route.mirrors_remove [OF _ c unique, of "tr_activeByRoute ?tr"] assms by (simp add: tracker_inv_def f)
  have grant: "by_grant.mirrors ?conns (remove_callback (tr_activeByGrant ?tr) (fh_accessGrantId h) (fh_terminate h))"
    using by_grant.mirrors_remove [OF _ c unique, of "tr_activeByGrant ?tr"] assms by (simp add: tracker_inv_def f)
  have session: "by_session.mirrors ?conns (case fh_sessionId h of None \<Rightarrow> tr_activeBySession ?tr
      | Some i \<Rightarrow> remove_callback (tr_activeBySession ?tr) i (fh_terminate h))"
    using by_session.mirrors_remove [OF _ c unique, of "tr_activeBySession ?tr"] assms
    by (cases "tc_sessionId c") (simp_all add: tracker_inv_def f)
  have others: "fh_connectionId h' \<noteq> ?cid" if "has (tr_unfinished ?tr) h'" "h' \<noteq> h" for h'
    using assms that True unfolding tracker_inv_def by blast
  have frame: "tr_connections (snd (finish now h st)) = ?conns" "tr_unfinished (snd (finish now h st)) = removeAll h (tr_unfinished ?tr)"
    "tr_activeByRoute (snd (finish now h st)) = remove_callback (tr_activeByRoute ?tr) (fh_routeId h) (fh_terminate h)"
    "tr_activeByGrant (snd (finish now h st)) = remove_callback (tr_activeByGrant ?tr) (fh_accessGrantId h) (fh_terminate h)"
    "tr_activeBySession (snd (finish now h st)) = (case fh_sessionId h of None \<Rightarrow> tr_activeBySession ?tr
      | Some i \<Rightarrow> remove_callback (tr_activeBySession ?tr) i (fh_terminate h))"
    using True by (simp_all add: finish_def Let_def stopPollerWhenIdle_def split: option.split)
  show ?thesis
    unfolding tracker_inv_def frame using route grant session others assms by (auto simp: tracker_inv_def)
qed

lemma tracker_step_inv:
  assumes "tracker_step did st st'" and "tracker_inv (snd st)"
  shows "tracker_inv (snd st')"
  using assms
proof cases
  case (track_connection now fresh rid gid sid protocol upstream terminate s tr r)
  with assms(2) show ?thesis using track_inv [OF track_connection(2)] by simp
next
  case (cut_route s tr rid)
  with assms(2) show ?thesis by (simp add: terminateRoute_def tracker_inv_cong [of "call_all _ _"])
next
  case (cut_grant s tr gid)
  with assms(2) show ?thesis by (simp add: terminateGrant_def tracker_inv_cong [of "call_all _ _"])
next
  case (cut_session s tr sid)
  with assms(2) show ?thesis by (simp add: terminateSession_def tracker_inv_cong [of "call_all _ _"])
qed (simp_all add: finish_inv poll_inv)

lemma tracker_run_inv:
  "(tracker_step did)\<^sup>*\<^sup>* st st' \<Longrightarrow> tracker_inv (snd st) \<Longrightarrow> tracker_inv (snd st')"
  by (induction rule: rtranclp_induct) (auto intro: tracker_step_inv)

lemma new_tracker_inv: "tracker_inv new_tracker"
  by (simp add: tracker_inv_def new_tracker_def by_route.mirrors_empty by_grant.mirrors_empty by_session.mirrors_empty)

subsection \<open>Cutting connections\<close>

definition cuts :: "(TrackedConnection \<Rightarrow> bool) \<Rightarrow> ActiveConnectionTracker \<Rightarrow> ActiveConnectionTracker \<Rightarrow> bool" where
  "cuts P tr tr' \<longleftrightarrow>
     (\<exists>cut. tr' = tr\<lparr>tr_terminated := tr_terminated tr @ cut\<rparr> \<and> distinct cut
        \<and> set cut = {cb. \<exists>cid c. js_get (tr_connections tr) cid = Some c \<and> P c \<and> tc_terminate c = cb})"

text \<open>
  C31. Cutting a route, a grant or a session reaches every connection and no other: however a tracker
  was used, terminating a route, a grant or a session calls the termination callback of each tracked
  connection that belongs to it exactly once, and calls nothing else.
\<close>

theorem cut_reaches_every_connection:
  assumes "(tracker_step did)\<^sup>*\<^sup>* (s0, new_tracker) (s, tr)"
  shows "cuts (\<lambda>c. tc_routeId c = rid) tr (terminateRoute rid tr)
    \<and> cuts (\<lambda>c. tc_accessGrantId c = gid) tr (terminateGrant gid tr)
    \<and> cuts (\<lambda>c. tc_sessionId c = Some sid) tr (terminateSession sid tr)"
proof -
  have inv: "tracker_inv tr" using tracker_run_inv [OF assms] new_tracker_inv by simp
  have "by_route.mirrors (tr_connections tr) (tr_activeByRoute tr)" "by_grant.mirrors (tr_connections tr) (tr_activeByGrant tr)"
    "by_session.mirrors (tr_connections tr) (tr_activeBySession tr)" using inv by (simp_all add: tracker_inv_def)
  then show ?thesis
    unfolding cuts_def terminateRoute_def terminateGrant_def terminateSession_def call_all_def
      by_route.mirrors_def by_grant.mirrors_def by_session.mirrors_def
      by_route.holders_def by_grant.holders_def by_session.holders_def option.inject by blast
qed

lemma js_of_entries_snoc: "js_of_entries (es @ [(k, v)]) = js_set (js_of_entries es) k v"
  by (simp add: js_of_entries_def)

lemma js_of_entries_get:
  "(\<forall>k v. js_get (js_of_entries es) k = Some v \<longrightarrow> (k, v) \<in> set es)
   \<and> (\<forall>k v. (k, v) \<in> set es \<longrightarrow> js_has (js_of_entries es) k) \<and> js_wf (js_of_entries es)"
proof (induction es rule: rev_induct)
  case Nil
  then show ?case by (simp add: js_of_entries_def)
next
  case (snoc e es)
  obtain k v where "e = (k, v)" by (meson surj_pair)
  with snoc show ?case by (auto simp: js_of_entries_snoc)
qed

text \<open>Identifiers as the gateway makes them: no NUL character, and no empty session identifier.\<close>

definition plain_ids :: "TrackedConnection \<Rightarrow> bool" where
  "plain_ids c \<longleftrightarrow> \<not> has (tc_routeId c) (CHR 0x00) \<and> \<not> has (tc_accessGrantId c) (CHR 0x00) \<and> tc_sessionId c \<noteq> Some []"

definition same_authority :: "TrackedConnection \<Rightarrow> TrackedConnection \<Rightarrow> bool" where
  "same_authority c d \<longleftrightarrow>
     tc_routeId c = tc_routeId d \<and> tc_accessGrantId c = tc_accessGrantId d \<and> tc_sessionId c = tc_sessionId d"

lemma split_at_first:
  "x \<notin> set us \<Longrightarrow> x \<notin> set vs \<Longrightarrow> us @ x # ws = vs @ x # zs \<Longrightarrow> us = vs \<and> ws = zs"
proof (induction us arbitrary: vs)
  case Nil
  then show ?case by (cases vs) auto
next
  case (Cons u us)
  then show ?case by (cases vs) auto
qed

lemma authority_key_inj:
  assumes "plain_ids c" and "plain_ids d" and "authority_key c = authority_key d"
  shows "same_authority c d"
proof -
  let ?session = "\<lambda>c. case tc_sessionId c of None \<Rightarrow> [] | Some i \<Rightarrow> i"
  have one: "tc_routeId c = tc_routeId d
      \<and> tc_accessGrantId c @ CHR 0x00 # ?session c = tc_accessGrantId d @ CHR 0x00 # ?session d"
    by (rule split_at_first) (use assms in \<open>simp_all add: plain_ids_def authority_key_def\<close>)
  have two: "tc_accessGrantId c = tc_accessGrantId d \<and> ?session c = ?session d"
    by (rule split_at_first [where x = "CHR 0x00"]) (use assms one in \<open>simp_all add: plain_ids_def\<close>)
  then have "tc_sessionId c = tc_sessionId d"
    using assms(1,2) by (auto simp: plain_ids_def split: option.splits)
  with one two show ?thesis by (simp add: same_authority_def)
qed

lemma unique_connections_mem:
  "d \<in> set (js_values (unique_connections tr)) \<Longrightarrow> d \<in> set (js_values (tr_connections tr))"
  using js_of_entries_get [of "map (\<lambda>c. (authority_key c, c)) (js_values (tr_connections tr))"]
  unfolding unique_connections_def by (auto simp: js_values_get)

lemma unique_connections_has:
  assumes "c \<in> set (js_values (tr_connections tr))"
  shows "\<exists>d. d \<in> set (js_values (unique_connections tr)) \<and> d \<in> set (js_values (tr_connections tr))
    \<and> authority_key d = authority_key c"
proof -
  let ?es = "map (\<lambda>c. (authority_key c, c)) (js_values (tr_connections tr))"
  have mem: "(authority_key c, c) \<in> set ?es" using assms by simp
  with js_of_entries_get [of ?es] obtain d where d: "js_get (js_of_entries ?es) (authority_key c) = Some d"
    unfolding js_has_def by blast
  with js_of_entries_get [of ?es] have "(authority_key c, d) \<in> set ?es" by blast
  then have "authority_key d = authority_key c" "d \<in> set (js_values (tr_connections tr))" by auto
  with d js_of_entries_get [of ?es] show ?thesis
    unfolding unique_connections_def by (auto simp: js_values_get)
qed

lemma poll_terminated:
  assumes "tr_connections tr \<noteq> []" and "authorizationEpoch s \<noteq> tr_authorizationEpoch tr"
  shows "tr_terminated (snd (poll now did (s, tr))) = tr_terminated tr
    @ map tc_terminate (filter (\<lambda>c. shouldTerminateActive (tc_routeId c) (Some (tc_accessGrantId c)) (tc_sessionId c) s)
        (js_values (unique_connections tr)))
    @ (if tr_nextDeploymentCheckAt tr \<le> now \<and> shouldTerminateDeployment did s
       then map tc_terminate (js_values (tr_connections tr)) else [])"
  using assms by (auto simp: poll_def poll_heartbeats_def poll_deployment_def poll_epoch_def terminateAll_def
      call_all_def Let_def)

text \<open>
  C32. A poll that sees a new epoch reaches every withdrawn authority and cuts nothing else: for each
  tracked connection whose route, grant or session orders termination the callback of a connection
  of the same route, grant and session is called; every callback called belongs to such a
  connection, unless the deployment itself is due for a check and ordered to terminate, when all
  connections are cut.
\<close>

theorem poll_reaches_every_authority:
  assumes "authorizationEpoch s \<noteq> tr_authorizationEpoch tr" and "list_all plain_ids (js_values (tr_connections tr))"
    and "has (js_values (tr_connections tr)) c"
    and "tr_terminated (snd (poll now did (s, tr))) = tr_terminated tr @ called"
  shows "(if shouldTerminateActive (tc_routeId c) (Some (tc_accessGrantId c)) (tc_sessionId c) s
          then list_ex (\<lambda>d. same_authority c d \<and> has called (tc_terminate d)) (js_values (tr_connections tr)) else True)
    \<and> (if tr_nextDeploymentCheckAt tr \<le> now \<and> shouldTerminateDeployment did s then has called (tc_terminate c)
       else list_all (\<lambda>cb. list_ex (\<lambda>d. tc_terminate d = cb
              \<and> shouldTerminateActive (tc_routeId d) (Some (tc_accessGrantId d)) (tc_sessionId d) s)
            (js_values (tr_connections tr))) called)"
proof -
  have ne: "tr_connections tr \<noteq> []" using assms(3) by (auto simp: js_values_def)
  let ?order = "\<lambda>c. shouldTerminateActive (tc_routeId c) (Some (tc_accessGrantId c)) (tc_sessionId c) s"
  let ?all = "tr_nextDeploymentCheckAt tr \<le> now \<and> shouldTerminateDeployment did s"
  have called: "called = map tc_terminate (filter ?order (js_values (unique_connections tr)))
      @ (if ?all then map tc_terminate (js_values (tr_connections tr)) else [])"
    using poll_terminated [OF ne assms(1), of now did] assms(4) by simp
  obtain d where d: "d \<in> set (js_values (unique_connections tr))" "d \<in> set (js_values (tr_connections tr))"
      "authority_key d = authority_key c"
    using unique_connections_has [OF assms(3)] by blast
  have "same_authority c d"
    by (rule authority_key_inj) (use d assms(2,3) in \<open>auto simp: list_all_iff\<close>)
  then have "?order d = ?order c" by (simp add: same_authority_def)
  with d \<open>same_authority c d\<close> assms(3) show ?thesis
    by (auto simp: called list_ex_iff list_all_iff dest: unique_connections_mem)
qed

subsubsection \<open>Concrete trackers\<close>

definition sample_upstream :: "string \<Rightarrow> UpstreamEndpoint" where
  "sample_upstream claim =
     \<lparr>ep_provider = ''p'', ep_endpointId = ''e'', ep_protocol = UpHttp, ep_host = ''h'', ep_port = 1, ep_username = [],
      ep_password = [], ep_proxySlotId = None, upstreamConnectionId = None, upstreamConnectionStartedAt = None,
      selectedSlotLoad = None, ep_capacityPressure = None, ep_capacityPressureProvider = None,
      ep_capacityPolicyVersion = None, activeLoadClaimId = Some claim, capacityCircuitKey = None,
      capacityCircuitState = None, capacityCircuitReason = None, capacityCircuitCooldownUntil = None,
      ep_routingPolicyVersion = None, ep_routingScore = None, ep_routingScoreComponents = None,
      assignment = \<lparr>asg_candidateId = ''e'', asg_proxySlotId = None, assignmentMode = AssignUnverified,
        providerManagedReassignmentDisabled = False, changeReason = ReasonSelection, asg_previousCandidateId = None,
        providerSessionId = None, peerId = None, deviceId = None, egressIp = None, opaqueIpId = None,
        expectedCity = None, observedCity = None, verificationSource = None\<rparr>\<rparr>"

text \<open>Two connections of grant \<open>g\<close> of the sample store.\<close>

definition sample_tracker :: ActiveConnectionTracker where
  "sample_tracker =
     snd (snd (track 1 ''dep'' [] ''r'' ''g'' None Http (sample_upstream ''y'') ''cut-y''
       (snd (track 0 ''dep'' [] ''r'' ''g'' None Http (sample_upstream ''x'') ''cut-x'' (sample_store, new_tracker)))))"

lemma sample_tracker_reachable:
  "\<exists>s. (tracker_step ''dep'')\<^sup>*\<^sup>* (sample_store, new_tracker) (s, sample_tracker)"
proof -
  let ?one = "track 0 ''dep'' [] ''r'' ''g'' None Http (sample_upstream ''x'') ''cut-x'' (sample_store, new_tracker)"
  let ?two = "track 1 ''dep'' [] ''r'' ''g'' None Http (sample_upstream ''y'') ''cut-y'' (snd ?one)"
  have claim: "activeLoadClaimId (sample_upstream ''y'') = Some ''y''" by (simp add: sample_upstream_def)
  have first: "tr_connections (snd (snd ?one)) = [(''x'', \<lparr>tc_routeId = ''r'', tc_accessGrantId = ''g'', tc_sessionId = None,
      tc_terminate = ''cut-x'', tc_nextHeartbeatAt = 30000\<rparr>)]" by code_simp
  have "tracker_step ''dep'' (sample_store, new_tracker) (snd ?one)"
    by (rule tracker_step.track_connection [where r = "fst ?one"]) (auto simp: new_tracker_def js_has_def)
  then have "(tracker_step ''dep'')\<^sup>*\<^sup>* (sample_store, new_tracker) (fst (snd ?one), snd (snd ?one))"
    unfolding prod.collapse by (rule r_into_rtranclp)
  moreover have "tracker_step ''dep'' (fst (snd ?one), snd (snd ?one)) (fst (snd ?two), snd (snd ?two))"
    by (rule tracker_step.track_connection [where r = "fst ?two"])
       (auto simp: first claim js_has_def js_get_Cons split: if_splits)
  ultimately have "(tracker_step ''dep'')\<^sup>*\<^sup>* (sample_store, new_tracker) (fst (snd ?two), snd (snd ?two))"
    by (rule rtranclp.rtrancl_into_rtrancl)
  then show ?thesis unfolding sample_tracker_def by blast
qed

theorem cut_reaches_every_connection_witness:
  "tr_terminated (terminateGrant ''g'' sample_tracker) = [''cut-x'', ''cut-y'']
   \<and> cuts (\<lambda>c. tc_accessGrantId c = ''g'') sample_tracker (terminateGrant ''g'' sample_tracker)"
proof -
  obtain s where "(tracker_step ''dep'')\<^sup>*\<^sup>* (sample_store, new_tracker) (s, sample_tracker)"
    using sample_tracker_reachable by blast
  note cut = cut_reaches_every_connection [OF this, of "[]" "''g''" "[]"]
  have "tr_terminated (terminateGrant ''g'' sample_tracker) = [''cut-x'', ''cut-y'']" by code_simp
  with cut show ?thesis by blast
qed

definition revoked_sample :: StoreState where
  "revoked_sample = snd (revokeAccessGrant 5 ''g'' True sample_store)"

theorem poll_reaches_every_authority_witness:
  "list_ex (\<lambda>d. tc_accessGrantId d = ''g'' \<and> has [''cut-y''] (tc_terminate d)) (js_values (tr_connections sample_tracker))"
proof -
  let ?c = "hd (js_values (tr_connections sample_tracker))"
  have hyps: "authorizationEpoch revoked_sample \<noteq> tr_authorizationEpoch sample_tracker"
    "list_all plain_ids (js_values (tr_connections sample_tracker))"
    "has (js_values (tr_connections sample_tracker)) ?c"
    "tr_terminated (snd (poll 9 ''dep'' (revoked_sample, sample_tracker))) = tr_terminated sample_tracker @ [''cut-y'']"
    "shouldTerminateActive (tc_routeId ?c) (Some (tc_accessGrantId ?c)) (tc_sessionId ?c) revoked_sample"
    "tc_accessGrantId ?c = ''g''"
    by code_simp+
  from poll_reaches_every_authority [OF hyps(1-4)] hyps(5,6) show ?thesis
    by (auto simp: list_ex_iff same_authority_def)
qed

text \<open>
  The poll looks at one connection per route, grant and session only. Of two connections of a revoked
  grant it cuts the one tracked last; later polls see no new epoch and leave the other one open.
\<close>

theorem poll_misses_sibling:
  "let st1 = poll 1000 ''dep'' (revoked_sample, sample_tracker);
       st2 = poll 2000 ''dep'' st1
   in map fst (tr_connections sample_tracker) = [''x'', ''y'']
    \<and> tr_terminated (snd st1) = [''cut-y''] \<and> tr_terminated (snd st2) = [''cut-y'']
    \<and> shouldTerminateActive ''r'' (Some ''g'') None (fst st2)"
  by code_simp

end
