(* ===== verification/Resolution.thy ===== *)
theory Resolution
  imports Candidate_Ranker Health_Store Connection_Tracker
begin

text \<open>
  \<open>src/route-service.ts\<close>, lines 70 to 110, 209 to 387 and 547 to 949: how a request of an authenticated
  client gets its upstream. One call of \<open>resolve\<close> resumes the logical session, ranks the providers,
  claims a slot, lets the adapter materialise the endpoint, checks it, claims the capacity circuit,
  registers the load and binds the session; when another request rebinds the same session at the
  same time, the call starts over.

  A call reads the clock once. What is outside the program, the adapters' answers, random
  identifiers, SHA-256, the abort signal, the time spent and what others do to the store while the call
  is on its way to save a session, is the record \<open>ResolutionEnv\<close>. Log lines are left out.
\<close>

record ResolveOptions =
  opt_dataPlaneProtocol :: DataPlaneProtocol
  opt_target :: ProxyTarget
  opt_logicalOperationId :: string
  opt_sessionMode :: SessionMode
  opt_affinityHandle :: "string option"
  opt_candidateIndex :: nat
  opt_excludedCandidateIds :: "string list"
  opt_selectedCandidateId :: "string option"

type_synonym binding_profile = "ProviderId option \<times> DataPlaneProtocol list \<times> Targeting"

record ResolutionEnv =
  env_lc :: "string comparator"
  env_now :: timestamp
  env_deploymentId :: string
  env_logicalOperationId :: string
  env_providers :: "ProviderAdapter list"
  env_health :: "ProviderId \<Rightarrow> ProviderHealth result"
  env_resolve :: "ProviderId \<Rightarrow> AuthenticatedRoute \<Rightarrow> ResolveOptions \<Rightarrow> UpstreamEndpoint result"
  env_prepare :: "ProviderId \<Rightarrow> (string \<Rightarrow> bool result) option"
  env_digest :: "binding_profile \<Rightarrow> string"
  env_claimId :: "nat \<Rightarrow> string"
  env_waited :: int
  env_aborted :: "thrown option"
  env_interfere :: "nat \<Rightarrow> StoreState \<Rightarrow> StoreState"

text \<open>The store, the state of the resolution and the candidates already prepared (\<open>#preparedCandidates\<close>).\<close>

type_synonym resolve_state = "StoreState \<times> ResolutionState \<times> string list"
type_synonym 'a resolve_op = "(exn, resolve_state, 'a) op"

definition unavailable :: "string \<Rightarrow> exn" where
  "unavailable msg = throw (providerUnavailableError msg ReasonUnavailable)"

definition auth_failure :: exn where
  "auth_failure = throw (authenticationError ''Proxy authentication required'')"

definition MAX_PROVIDERS_PER_OPERATION :: nat where
  "MAX_PROVIDERS_PER_OPERATION = providersPerOperation V0_POLICY"

definition ROUTING_EVIDENCE_RECORD_LIMIT :: nat where
  "ROUTING_EVIDENCE_RECORD_LIMIT = 2048"

subsection \<open>Helpers\<close>

text \<open>\<open>abortReason\<close> of \<open>src/establishment-budget.ts\<close>\<close>

definition abortReason :: "thrown \<Rightarrow> exn" where
  "abortReason reason =
     (case reason of
        NonError \<Rightarrow> unavailable ''Candidate establishment was cancelled''
      | _ \<Rightarrow> \<lparr>exn_value = reason, exn_provider = None, exn_assignment = None\<rparr>)"

definition city_char :: "char \<Rightarrow> bool" where
  "city_char c \<longleftrightarrow> (let n = (of_char c :: nat) in 97 \<le> n \<and> n \<le> 122 \<or> 48 \<le> n \<and> n \<le> 57)"

definition lower_char :: "char \<Rightarrow> char" where
  "lower_char c = (if 65 \<le> (of_char c :: nat) \<and> (of_char c :: nat) \<le> 90 then char_of ((of_char c :: nat) + 32) else c)"

definition canonicalCity :: "string \<Rightarrow> string" where
  "canonicalCity s = filter city_char (map lower_char s)"

definition protocol_order :: "DataPlaneProtocol \<Rightarrow> int" where
  "protocol_order p = (case p of Http \<Rightarrow> 0 | Https \<Rightarrow> 1 | Socks5 \<Rightarrow> 2)"

definition profileBindingFingerprint :: "ResolutionEnv \<Rightarrow> AuthenticatedRoute \<Rightarrow> string" where
  "profileBindingFingerprint env route =
     env_digest env (providerOverride route, js_sort (by_key protocol_order) (allowedProtocols route), targeting route)"

fun show_nat :: "nat \<Rightarrow> string" where
  "show_nat n = (if n < 10 then [] else show_nat (n div 10)) @ [char_of (48 + n mod 10)]"

definition show_int :: "int \<Rightarrow> string" where
  "show_int i = (if i < 0 then ''-'' @ show_nat (nat (- i)) else show_nat (nat i))"

definition rebindAffinitySeed :: "StoredLogicalSession \<Rightarrow> string \<Rightarrow> string" where
  "rebindAffinitySeed x fp = session_id x @ '':binding-'' @ show_int (bindingVersion x + 1) @ '':'' @ fp"

definition clearPreferredClassHealthWindow :: "StoredLogicalSession \<Rightarrow> StoredLogicalSession" where
  "clearPreferredClassHealthWindow x = x\<lparr>preferredClassHealthySince := None\<rparr>"

text \<open>
  Of the error codes only \<open>provider_capacity_limit\<close> matches \<open>/hard_limit|capacity_limit/\<close> or contains
  \<open>capacity\<close>.
\<close>

definition capacityFailureReason :: "exn \<Rightarrow> CapacityCircuitReason option" where
  "capacityFailureReason e =
     (if \<not> isRetryableUpstreamFailure (exn_value e) then None
      else case exn_value e of
        AppErr a \<Rightarrow>
          if err_code a = CodeProviderCapacityLimit then Some ProviderHardLimit
          else if err_class a = ClsProviderUnavailable \<and> unavailable_reason a = Some ReasonTimeout
          then Some CircuitTimeout else Some EstablishmentFailure
      | JsError _ c \<Rightarrow> if c = Some ''ETIMEDOUT'' then Some CircuitTimeout else Some EstablishmentFailure
      | NonError \<Rightarrow> Some EstablishmentFailure)"

definition recordCapacityFailure ::
  "timestamp \<Rightarrow> ProviderId \<Rightarrow> string \<Rightarrow> exn \<Rightarrow> StoreState \<Rightarrow> CapacityCircuitState option \<times> StoreState" where
  "recordCapacityFailure now provider key e s =
     (case capacityFailureReason e of
        None \<Rightarrow> (None, s)
      | Some reason \<Rightarrow> (case store_recordCapacityCircuitFailure provider key reason now s of (c, s) \<Rightarrow> (Some c, s)))"

definition assertProtocolAllowed :: "AuthenticatedRoute \<Rightarrow> DataPlaneProtocol \<Rightarrow> unit result" where
  "assertProtocolAllowed route protocol =
     (if has (allowedProtocols route) protocol then Inr ()
      else Inl (throw (appError (''Route does not allow the '' @
        (case protocol of Http \<Rightarrow> ''http'' | Https \<Rightarrow> ''https'' | Socks5 \<Rightarrow> ''socks5'') @ '' data-plane protocol'')
        ProtocolNotAllowed 403)))"

definition assertNewConnectionAllowed ::
  "string \<Rightarrow> string \<Rightarrow> string option \<Rightarrow> StoreState \<Rightarrow> ActiveConnectionTracker \<Rightarrow> unit result" where
  "assertNewConnectionAllowed rid gid sid s tr =
     (if \<not> canAcceptConnection tr
      then Inl (unavailable ''Proxy task is at its active-connection admission limit'')
      else case route_get rid False s of
        Inl e \<Rightarrow> Inl e
      | Inr r \<Rightarrow>
          if route_status r \<noteq> RouteReady then Inl (unavailable ''Route is revoked'')
          else (case getAccessGrant gid False s of
             Inl e \<Rightarrow> Inl e
           | Inr g \<Rightarrow>
               if grant_routeId g \<noteq> rid \<or> grant_status g \<noteq> GrantReady then Inl auth_failure
               else (case sid of
                  None \<Rightarrow> Inr ()
                | Some i \<Rightarrow>
                    (case getLogicalSession i False s of
                       Inl e \<Rightarrow> Inl e
                     | Inr x \<Rightarrow>
                         if session_routeId x \<noteq> rid \<or> session_grantId x \<noteq> gid \<or> session_status x \<noteq> SessionOpen
                         then Inl auth_failure else Inr ()))))"

subsection \<open>Claiming a slot of a provider\<close>

record CandidateSelection =
  sel_endpointId :: string
  sel_activeConnections :: nat
  sel_capacityPressure :: bool
  sel_rotationDisabled :: bool
  sel_activeLoadClaimId :: string
  sel_routingScore :: real
  sel_routingScoreComponents :: RoutingScoreComponents

definition inventory_snapshot ::
  "timestamp \<Rightarrow> ProviderAdapter \<Rightarrow> ProviderCandidateSource \<Rightarrow> ProviderCandidate list \<Rightarrow> ProviderInventorySnapshot" where
  "inventory_snapshot now provider source listed =
     \<lparr>inv_provider = desc_id (descriptor provider), providerAccountId = cs_providerAccountId source,
      monthlyPricePerSlotUsd =
        (if pricing_model (descriptor provider) = PerDeviceMonth then Some (amountUsd (descriptor provider)) else None),
      slots = map (\<lambda>c. (cand_inventory c)\<lparr>slot_proxySlotId := cand_id c, slot_healthy := cand_healthy c\<rparr>) listed,
      capturedAt = now\<rparr>"

text \<open>The selector handed to the store, on the loads it is given.\<close>

definition select_endpoint ::
  "string comparator \<Rightarrow> timestamp \<Rightarrow> ProviderAdapter \<Rightarrow> UsageRecord list \<Rightarrow> string option \<Rightarrow> ProviderCandidate list \<Rightarrow>
   (string, nat) js_map \<Rightarrow> (string \<times> nat \<times> CandidateScore) option" where
  "select_endpoint lc now provider recent preferred cs loads =
     (let scored = map (\<lambda>c.
            let records = filter (\<lambda>r. ur_provider r = desc_id (descriptor provider) \<and> ur_proxySlotId r = Some (cand_id c)) recent
            in (cand_id c, load_of loads (cand_id c),
                scoreCandidate now provider records (load_of loads (cand_id c)) True records)) cs
      in or_else (List.find (\<lambda>(i, _, _). Some i = preferred) scored) (best_slot lc scored))"

definition claimed_tunnel ::
  "ResolutionEnv \<Rightarrow> string \<Rightarrow> AuthenticatedRoute \<Rightarrow> DataPlaneProtocol \<Rightarrow> ProviderId \<Rightarrow> string \<Rightarrow> real option \<Rightarrow> ActiveTunnel" where
  "claimed_tunnel env claim route protocol provider endpointId score =
     \<lparr>tun_id = claim, deploymentId = env_deploymentId env, tun_routeId = route_id route,
      tun_accessGrantId = ar_accessGrantId route, tun_sessionId = ar_sessionId route, tun_protocol = protocol,
      tun_provider = provider, tun_endpointId = Some endpointId,
      tun_routingPolicyVersion = Some (policy_version ROUTING_POLICY), tun_routingScore = score,
      startedAt = env_now env, lastHeartbeatAt = env_now env, tun_expiresAt = env_now env + ACTIVE_CONNECTION_TTL_MS\<rparr>"

definition prepare_candidate :: "ResolutionEnv \<Rightarrow> ProviderId \<Rightarrow> string \<Rightarrow> string list \<Rightarrow> bool \<times> string list" where
  "prepare_candidate env provider cid prepared =
     (let key = provider @ '':'' @ cid
      in if has prepared key then (True, prepared)
         else case env_prepare env provider of
           None \<Rightarrow> (False, prepared)
         | Some prepare \<Rightarrow>
             (case prepare cid of
                Inl _ \<Rightarrow> (False, prepared)
              | Inr disabled \<Rightarrow> (disabled, if disabled then prepared @ [key] else prepared)))"

definition claim_candidate ::
  "ResolutionEnv \<Rightarrow> ProviderAdapter \<Rightarrow> AuthenticatedRoute \<Rightarrow> DataPlaneProtocol \<Rightarrow> UsageRecord list \<Rightarrow> ProviderCandidate list \<Rightarrow>
   CandidateSelection resolve_op" where
  "claim_candidate env provider route protocol recent cs x =
     (case x of (s, st, prepared) \<Rightarrow>
       let pid = desc_id (descriptor provider);
           pick = select_endpoint (env_lc env) (env_now env) provider recent (preferredCandidateId st) cs;
           selected = pick (slot_load_counts (env_now env) pid (map cand_id cs) (js_values (st_tunnels s)));
           score = map_option (\<lambda>(_, _, sc). cand_score sc) selected
       in case claimActiveTunnelSlot (env_now env) pid (map cand_id cs)
                 (\<lambda>loads. case pick loads of
                    None \<Rightarrow> Inl (unavailable ''No compatible provider candidate is available'')
                  | Some (i, _, _) \<Rightarrow> Inr i)
                 (\<lambda>e. claimed_tunnel env (env_claimId env (sessionRebindRetries st)) route protocol pid e score) s of
            (Inl e, s) \<Rightarrow> (Inl e, s, st, prepared)
          | (Inr (tunnel, load), s) \<Rightarrow>
              (case (List.find (\<lambda>c. Some (cand_id c) = tun_endpointId tunnel) cs, selected) of
                 (Some c, Some (_, _, sc)) \<Rightarrow>
                   let (disabled, prepared) = prepare_candidate env pid (cand_id c) prepared;
                       pressure = softConnectionsPerSlot CAPACITY_POLICY \<le> int load;
                       st = (if pressure then st\<lparr>rs_capacityConstraint := Some SlotExhaustion\<rparr> else st)
                   in (Inr \<lparr>sel_endpointId = cand_id c, sel_activeConnections = load, sel_capacityPressure = pressure,
                            sel_rotationDisabled = disabled, sel_activeLoadClaimId = tun_id tunnel,
                            sel_routingScore = cand_score sc, sel_routingScoreComponents = cand_components sc\<rparr>,
                       s, st, prepared)
               | _ \<Rightarrow> (Inl (unavailable ''The selected provider candidate disappeared''),
                       removeActiveTunnel (tun_id tunnel) s, st, prepared)))"

definition missing_constraint :: "AuthenticatedRoute \<Rightarrow> CapacityConstraint" where
  "missing_constraint route =
     (if carrier (targeting route) \<noteq> None then CarrierConstraint
      else if country (targeting route) \<noteq> None \<or> region (targeting route) \<noteq> None \<or> city (targeting route) \<noteq> None
      then GeographyConstraint else SlotExhaustion)"

definition selectProviderCandidate ::
  "ResolutionEnv \<Rightarrow> ProviderAdapter \<Rightarrow> AuthenticatedRoute \<Rightarrow> DataPlaneProtocol \<Rightarrow> UsageRecord list \<Rightarrow>
   CandidateSelection resolve_op" where
  "selectProviderCandidate env provider route protocol recent x =
     (case x of (s, st, prepared) \<Rightarrow>
      case candidates provider of
        None \<Rightarrow> (Inl (throw_error ''Provider does not expose candidate inventory''), x)
      | Some source \<Rightarrow>
          (case cs_list source of
             Inl e \<Rightarrow> (Inl e, x)
           | Inr listed \<Rightarrow>
               let s = saveProviderInventory (inventory_snapshot (env_now env) provider source listed) s;
                   compatible = filter (\<lambda>c. cand_healthy c \<and> \<not> has (excludedCandidateIds st) (cand_id c)
                                            \<and> cs_matches source c (targeting route)) listed
               in case candidates_with_capacity (env_now env) (desc_id (descriptor provider)) compatible (s, st) of
                    (Inl e, s, st) \<Rightarrow> (Inl e, s, st, prepared)
                  | (Inr cs, s, st) \<Rightarrow>
                      (case env_aborted env of
                         Some reason \<Rightarrow> (Inl (abortReason reason), s, st, prepared)
                       | None \<Rightarrow>
                           if cs = []
                           then (Inl (unavailable ''No healthy compatible provider candidate is available''), s,
                                 st\<lparr>rs_capacityConstraint := or_else (rs_capacityConstraint st) (Some (missing_constraint route))\<rparr>,
                                 prepared)
                           else claim_candidate env provider route protocol recent cs (s, st, prepared))))"

subsection \<open>Resuming a logical session\<close>

definition provider_by_id :: "ResolutionEnv \<Rightarrow> ProviderId \<Rightarrow> ProviderAdapter option" where
  "provider_by_id env pid = List.find (\<lambda>p. desc_id (descriptor p) = pid) (env_providers env)"

text \<open>Saving against the version that was read; the caller goes on with the saved session or the old one.\<close>

definition save_or_keep :: "StoredLogicalSession \<Rightarrow> StoredLogicalSession \<Rightarrow> StoreState \<Rightarrow> StoredLogicalSession \<times> StoreState" where
  "save_or_keep x updated s =
     (case saveLogicalSession updated (bindingVersion x) s of (ok, s) \<Rightarrow> (if ok then updated else x, s))"

definition binding_compatible ::
  "ResolutionEnv \<Rightarrow> AuthenticatedRoute \<Rightarrow> DataPlaneProtocol \<Rightarrow> ProxyTarget \<Rightarrow> SessionAffinity option \<Rightarrow> ResolutionState \<Rightarrow> bool" where
  "binding_compatible env route protocol target aff st =
     (case aff of
        None \<Rightarrow> False
      | Some a \<Rightarrow>
          (case provider_by_id env (aff_provider a) of
             None \<Rightarrow> False
           | Some p \<Rightarrow>
               providerCompatible p route (Some protocol) (Some target) (Some Managed)
               \<and> (providerOverride route = None \<or> Some (desc_id (descriptor p)) = providerOverride route)
               \<and> profileFingerprint a = profileBindingFingerprint env route
               \<and> \<not> has (excludedCandidateIds st) (aff_candidateId a)))"

text \<open>
  A session bound to a class it does not prefer: how long the preferred class has been healthy, and
  whether the session may now fail back.
\<close>

definition review_failback ::
  "ResolutionEnv \<Rightarrow> AuthenticatedRoute \<Rightarrow> DataPlaneProtocol \<Rightarrow> ProxyTarget \<Rightarrow> StoredLogicalSession \<Rightarrow> StoreState \<Rightarrow>
   bool \<times> StoredLogicalSession \<times> StoreState" where
  "review_failback env route protocol target x s =
     (let desired = preferredProviderClass Managed;
          preferred = filter (\<lambda>p. providerClass (descriptor p) = desired
             \<and> providerCompatible p route (Some protocol) (Some target) (Some Managed)) (env_providers env);
          healthy = list_ex (\<lambda>p. case env_health env (desc_id (descriptor p)) of
             Inr h \<Rightarrow> ph_state h = Healthy | Inl _ \<Rightarrow> False) preferred;
          now = env_now env
      in if \<not> healthy
         then (case preferredClassHealthySince x of
                 None \<Rightarrow> (False, x, s)
               | Some _ \<Rightarrow> (False, save_or_keep x ((clearPreferredClassHealthWindow x)
                             \<lparr>bindingVersion := bindingVersion x + 1, session_updatedAt := now\<rparr>) s))
         else (case preferredClassHealthySince x of
                 None \<Rightarrow> (False, save_or_keep x (x\<lparr>preferredClassHealthySince := Some now,
                            bindingVersion := bindingVersion x + 1, session_updatedAt := now\<rparr>) s)
               | Some since \<Rightarrow>
                   let active = load_of (snd (snd (getActiveConnectionCounts (env_lc env) now [] [] [session_id x] s))) (session_id x)
                   in (preferredClassStabilizationMs ROUTING_POLICY \<le> now - since \<and> active = 0
                       \<and> (case lastDisconnectedAt x of None \<Rightarrow> True | Some d \<Rightarrow> sessionQuiescenceMs ROUTING_POLICY \<le> now - d),
                       x, s)))"

definition session_state :: "StoredLogicalSession \<Rightarrow> ResolutionState \<Rightarrow> ResolutionState" where
  "session_state x st =
     st\<lparr>rs_desiredProviderClass := Some (preferredProviderClass Managed), rs_sessionAffinityHit := Some False,
        rs_currentProviderClass := (case affinity x of None \<Rightarrow> rs_currentProviderClass st | Some a \<Rightarrow> Some (aff_currentProviderClass a)),
        rs_degradedFallback := Some (case affinity x of None \<Rightarrow> False | Some a \<Rightarrow> aff_degradedFallback a),
        preferredAffinityHandle := Some (case affinity x of None \<Rightarrow> session_id x | Some a \<Rightarrow> affinityHandle a)\<rparr>"

definition prefer_binding ::
  "ResolutionEnv \<Rightarrow> AuthenticatedRoute \<Rightarrow> bool \<Rightarrow> bool \<Rightarrow> StoredLogicalSession \<Rightarrow> ResolutionState \<Rightarrow> ResolutionState" where
  "prefer_binding env route compatible failback x st =
     (case affinity x of
        None \<Rightarrow> st
      | Some a \<Rightarrow>
          if compatible \<and> \<not> failback
          then st\<lparr>previousProvider := Some (aff_provider a), previousCandidateId := Some (aff_candidateId a),
                  preferredCandidateId :=
                    (case provider_by_id env (aff_provider a) of
                       Some p \<Rightarrow> if candidates p \<noteq> None then Some (aff_candidateId a) else None
                     | None \<Rightarrow> None)\<rparr>
          else if \<not> compatible
          then st\<lparr>previousProvider := Some (aff_provider a), previousCandidateId := Some (aff_candidateId a),
                  preferredCandidateId := None,
                  preferredAffinityHandle := Some (rebindAffinitySeed x (profileBindingFingerprint env route)),
                  rs_sessionRebindCause := Some ''binding_ineligible''\<rparr>
          else st)"

definition resume_session ::
  "ResolutionEnv \<Rightarrow> AuthenticatedRoute \<Rightarrow> DataPlaneProtocol \<Rightarrow> ProxyTarget \<Rightarrow> StoredLogicalSession option resolve_op" where
  "resume_session env route protocol target x =
     (case x of (s, st, prepared) \<Rightarrow>
      if ar_sessionMode route \<noteq> Managed then (Inr None, x)
      else case ar_sessionId route of
        None \<Rightarrow> (Inl auth_failure, x)
      | Some sid \<Rightarrow>
          (case getLogicalSession sid False s of
             Inl e \<Rightarrow> (Inl e, x)
           | Inr y \<Rightarrow>
               if session_grantId y \<noteq> ar_accessGrantId route \<or> session_routeId y \<noteq> route_id route \<or> session_status y \<noteq> SessionOpen
               then (Inl auth_failure, x)
               else let st = session_state y st;
                        compatible = binding_compatible env route protocol target (affinity y) st;
                        review = (compatible \<and> providerOverride route = None
                          \<and> (case affinity y of None \<Rightarrow> False | Some a \<Rightarrow> aff_currentProviderClass a \<noteq> preferredProviderClass Managed));
                        (failback, y, s) = (if review then review_failback env route protocol target y s else (False, y, s));
                        st = (if failback then st\<lparr>failbackProbe := Some True, rs_failbackOutcome := Some FailbackNotAttempted\<rparr> else st)
                    in (Inr (Some y), s, prefer_binding env route compatible failback y st, prepared)))"

subsection \<open>One attempt at one provider\<close>

datatype attempt = Skipped | Served UpstreamEndpoint | Rebind

definition provider_limit :: "AuthenticatedRoute \<Rightarrow> ProviderAdapter \<Rightarrow> int" where
  "provider_limit route provider =
     (if city (targeting route) \<noteq> None \<and> exactCity (capabilities (descriptor provider)) = CityVerifiable
      then MAX_VERIFICATION_CANDIDATES_PER_PROVIDER else MAX_PEERS_PER_PROVIDER)"

definition select_phase ::
  "ResolutionEnv \<Rightarrow> ProviderAdapter \<Rightarrow> AuthenticatedRoute \<Rightarrow> DataPlaneProtocol \<Rightarrow> UsageRecord list \<Rightarrow>
   CandidateSelection option resolve_op" where
  "select_phase env provider route protocol recent x =
     (case x of (s, st, prepared) \<Rightarrow>
      if candidates provider = None then (Inr None, x)
      else case selectProviderCandidate env provider route protocol recent
                  (s, st\<lparr>rs_capacityPolicyVersion := Some (capacity_version CAPACITY_POLICY)\<rparr>, prepared) of
             (r, s, st, prepared) \<Rightarrow>
               (map_sum id Some r, s,
                st\<lparr>rs_establishmentWaitMs := rs_establishmentWaitMs st + max 0 (env_waited env)\<rparr>, prepared))"

definition resolve_options ::
  "ResolutionEnv \<Rightarrow> AuthenticatedRoute \<Rightarrow> DataPlaneProtocol \<Rightarrow> ProxyTarget \<Rightarrow> nat \<Rightarrow> CandidateSelection option \<Rightarrow> ResolutionState \<Rightarrow>
   ResolveOptions" where
  "resolve_options env route protocol target attempts sel st =
     \<lparr>opt_dataPlaneProtocol = protocol, opt_target = target, opt_logicalOperationId = env_logicalOperationId env,
      opt_sessionMode = ar_sessionMode route, opt_affinityHandle = preferredAffinityHandle st, opt_candidateIndex = attempts,
      opt_excludedCandidateIds = excludedCandidateIds st, opt_selectedCandidateId = map_option sel_endpointId sel\<rparr>"

text \<open>The key of the capacity circuit: the slot, or the provider when it has no slots.\<close>

definition circuit_key_of :: "ProviderAdapter \<Rightarrow> CandidateSelection option \<Rightarrow> string" where
  "circuit_key_of provider sel = (case sel of None \<Rightarrow> desc_id (descriptor provider) | Some c \<Rightarrow> sel_endpointId c)"

definition materialize ::
  "ResolutionEnv \<Rightarrow> ProviderAdapter \<Rightarrow> AuthenticatedRoute \<Rightarrow> DataPlaneProtocol \<Rightarrow> ProxyTarget \<Rightarrow> nat \<Rightarrow>
   CandidateSelection option \<Rightarrow> UpstreamEndpoint resolve_op" where
  "materialize env provider route protocol target attempts sel x =
     (case x of (s, st, prepared) \<Rightarrow>
      let pid = desc_id (descriptor provider)
      in case env_resolve env pid route (resolve_options env route protocol target attempts sel st) of
           Inl e \<Rightarrow>
             let s = (case sel of None \<Rightarrow> s | Some c \<Rightarrow> removeActiveTunnel (sel_activeLoadClaimId c) s);
                 s = snd (recordCapacityFailure (env_now env) pid (circuit_key_of provider sel) e s)
             in (Inl (attributeProvider e pid), s, st, prepared)
         | Inr ep \<Rightarrow>
             if \<not> has (upstreamProtocols (capabilities (descriptor provider))) (ep_protocol ep)
             then (Inl (unavailable ''Provider returned an undeclared upstream proxy protocol''), x)
             else (Inr ep, x))"

definition describe_selection :: "CandidateSelection option \<Rightarrow> UpstreamEndpoint \<Rightarrow> UpstreamEndpoint" where
  "describe_selection sel ep =
     (case sel of
        None \<Rightarrow> ep
      | Some c \<Rightarrow>
          ep\<lparr>ep_proxySlotId := Some (sel_endpointId c), selectedSlotLoad := Some (int (sel_activeConnections c)),
             ep_capacityPressure := Some (sel_capacityPressure c),
             ep_capacityPolicyVersion := Some (capacity_version CAPACITY_POLICY),
             activeLoadClaimId := Some (sel_activeLoadClaimId c),
             ep_routingPolicyVersion := Some (policy_version ROUTING_POLICY),
             ep_routingScore := Some (sel_routingScore c),
             ep_routingScoreComponents := Some (sel_routingScoreComponents c),
             assignment := (assignment ep)\<lparr>providerManagedReassignmentDisabled := sel_rotationDisabled c\<rparr>\<rparr>)"

definition describe_pressure :: "ResolutionState \<Rightarrow> UpstreamEndpoint \<Rightarrow> UpstreamEndpoint" where
  "describe_pressure st ep =
     (if capacityDrivenFallback st = Some True
      then ep\<lparr>ep_capacityPressure := Some True,
              ep_capacityPressureProvider := or_else (rs_capacityPressureProvider st) (ep_capacityPressureProvider ep)\<rparr>
      else if ep_capacityPressure ep = Some True then ep\<lparr>ep_capacityPressureProvider := Some (ep_provider ep)\<rparr>
      else ep)"

definition exclude_candidate :: "string \<Rightarrow> ResolutionState \<Rightarrow> ResolutionState" where
  "exclude_candidate cid st =
     st\<lparr>excludedCandidateIds := (if has (excludedCandidateIds st) cid then excludedCandidateIds st
                                else excludedCandidateIds st @ [cid])\<rparr>"

definition city_verified :: "UpstreamEndpoint \<Rightarrow> bool" where
  "city_verified ep \<longleftrightarrow>
     assignmentMode (assignment ep) = AssignServiceVerified
     \<and> (case (expectedCity (assignment ep), observedCity (assignment ep)) of
          (Some expected, Some observed) \<Rightarrow> canonicalCity expected = canonicalCity observed
        | _ \<Rightarrow> False)"

definition verify_city ::
  "ProviderAdapter \<Rightarrow> AuthenticatedRoute \<Rightarrow> UpstreamEndpoint \<Rightarrow> UpstreamEndpoint resolve_op" where
  "verify_city provider route ep x =
     (case x of (s, st, prepared) \<Rightarrow>
      if city (targeting route) \<noteq> None \<and> exactCity (capabilities (descriptor provider)) = CityVerifiable \<and> \<not> city_verified ep
      then (Inl (attributeProvider
              (attributeAssignment (unavailable ''Candidate exact-city verification failed'') (assignment ep))
              (desc_id (descriptor provider))),
            snd (release ep s),
            (exclude_candidate (ep_endpointId ep) st)
              \<lparr>previousCandidateId := Some (asg_candidateId (assignment ep)), previousProvider := Some (ep_provider ep)\<rparr>,
            prepared)
      else (Inr ep, x))"

definition claim_circuit ::
  "ResolutionEnv \<Rightarrow> ProviderAdapter \<Rightarrow> CandidateSelection option \<Rightarrow> UpstreamEndpoint \<Rightarrow> UpstreamEndpoint resolve_op" where
  "claim_circuit env provider sel ep x =
     (case x of (s, st, prepared) \<Rightarrow>
      let pid = desc_id (descriptor provider); key = circuit_key_of provider sel
      in case claimCapacityCircuit pid key (env_now env) s of
           ((False, _), s) \<Rightarrow>
             (Inl (attributeProvider (unavailable ''Candidate capacity circuit is open'') pid),
              snd (release ep s),
              exclude_candidate (ep_endpointId ep) (st\<lparr>rs_capacityConstraint := Some CapacityCircuitConstraint\<rparr>), prepared)
         | ((True, c), s) \<Rightarrow>
             (Inr (ep\<lparr>capacityCircuitKey := Some key,
                      capacityCircuitState := Some (case c of None \<Rightarrow> CircuitClosed | Some k \<Rightarrow> circ_status k),
                      capacityCircuitReason := or_else (Option.bind c circ_reason) (capacityCircuitReason ep),
                      capacityCircuitCooldownUntil := or_else (Option.bind c cooldownUntil) (capacityCircuitCooldownUntil ep)\<rparr>),
              s, st, prepared))"

definition register_load ::
  "ResolutionEnv \<Rightarrow> ProviderAdapter \<Rightarrow> AuthenticatedRoute \<Rightarrow> DataPlaneProtocol \<Rightarrow> UsageRecord list \<Rightarrow> UpstreamEndpoint \<Rightarrow>
   UpstreamEndpoint resolve_op" where
  "register_load env provider route protocol recent ep x =
     (case x of (s, st, prepared) \<Rightarrow>
      if activeLoadClaimId ep \<noteq> None then (Inr ep, x)
      else let pid = desc_id (descriptor provider);
               records = filter (\<lambda>r. ur_provider r = pid) recent;
               load = load_of (fst (getActiveConnectionCounts (env_lc env) (env_now env) [pid] [] [] s)) pid;
               sc = scoreCandidate (env_now env) provider records load False records;
               claim = env_claimId env (sessionRebindRetries st)
           in case registerActiveTunnel (claimed_tunnel env claim route protocol (ep_provider ep) (ep_endpointId ep)
                     (Some (cand_score sc))) s of
                (Inl e, s) \<Rightarrow> (Inl e, s, st, prepared)
              | (Inr _, s) \<Rightarrow>
                  (Inr (ep\<lparr>activeLoadClaimId := Some claim,
                           ep_routingPolicyVersion := Some (policy_version ROUTING_POLICY),
                           ep_routingScore := Some (cand_score sc),
                           ep_routingScoreComponents := Some (cand_components sc)\<rparr>), s, st, prepared))"

definition describe_change :: "ResolutionState \<Rightarrow> UpstreamEndpoint \<Rightarrow> UpstreamEndpoint" where
  "describe_change st ep =
     ep\<lparr>assignment := (assignment ep)
          \<lparr>asg_previousCandidateId := or_else (previousCandidateId st) (asg_previousCandidateId (assignment ep)),
           changeReason := (case previousProvider st of
              None \<Rightarrow> ReasonSelection
            | Some p \<Rightarrow> if p = ep_provider ep then ReasonRetry else ReasonFailover)\<rparr>\<rparr>"

subsection \<open>Binding the session\<close>

definition affinity_handle :: "UpstreamEndpoint \<Rightarrow> string" where
  "affinity_handle ep = (case providerSessionId (assignment ep) of None \<Rightarrow> ep_endpointId ep | Some h \<Rightarrow> h)"

definition same_binding :: "ResolutionEnv \<Rightarrow> AuthenticatedRoute \<Rightarrow> UpstreamEndpoint \<Rightarrow> SessionAffinity option \<Rightarrow> bool" where
  "same_binding env route ep aff =
     (case aff of
        None \<Rightarrow> False
      | Some a \<Rightarrow>
          aff_provider a = ep_provider ep \<and> aff_candidateId a = asg_candidateId (assignment ep)
          \<and> affinityHandle a = affinity_handle ep \<and> profileFingerprint a = profileBindingFingerprint env route)"

definition new_affinity :: "ResolutionEnv \<Rightarrow> ProviderAdapter \<Rightarrow> AuthenticatedRoute \<Rightarrow> UpstreamEndpoint \<Rightarrow> SessionAffinity" where
  "new_affinity env provider route ep =
     (let desired = preferredProviderClass (ar_sessionMode route); cls = providerClass (descriptor provider)
      in \<lparr>aff_provider = ep_provider ep, aff_providerClass = cls, aff_candidateId = asg_candidateId (assignment ep),
          affinityHandle = affinity_handle ep, profileFingerprint = profileBindingFingerprint env route,
          aff_desiredProviderClass = desired, aff_currentProviderClass = cls,
          aff_degradedFallback = (cls \<noteq> desired), boundAt = env_now env, aff_lastUsedAt = env_now env\<rparr>)"

definition touched_session :: "ResolutionEnv \<Rightarrow> ProviderAdapter \<Rightarrow> AuthenticatedRoute \<Rightarrow> ResolutionState \<Rightarrow> StoredLogicalSession \<Rightarrow> StoredLogicalSession" where
  "touched_session env provider route st y =
     (if failbackProbe st = Some True \<and> providerClass (descriptor provider) \<noteq> preferredProviderClass (ar_sessionMode route)
      then clearPreferredClassHealthWindow y else y)
     \<lparr>bindingVersion := bindingVersion y + 1,
      affinity := map_option (\<lambda>a. a\<lparr>aff_lastUsedAt := env_now env\<rparr>) (affinity y), session_updatedAt := env_now env\<rparr>"

definition rebound_session :: "ResolutionEnv \<Rightarrow> ProviderAdapter \<Rightarrow> AuthenticatedRoute \<Rightarrow> UpstreamEndpoint \<Rightarrow> StoredLogicalSession \<Rightarrow> StoredLogicalSession" where
  "rebound_session env provider route ep y =
     (if providerClass (descriptor provider) = preferredProviderClass (ar_sessionMode route)
      then clearPreferredClassHealthWindow y else y)
     \<lparr>bindingVersion := bindingVersion y + 1, affinity := Some (new_affinity env provider route ep),
      session_updatedAt := env_now env\<rparr>"

definition bound_state :: "ProviderAdapter \<Rightarrow> AuthenticatedRoute \<Rightarrow> ResolutionState \<Rightarrow> ResolutionState" where
  "bound_state provider route st =
     (let desired = preferredProviderClass (ar_sessionMode route); cls = providerClass (descriptor provider)
      in st\<lparr>rs_desiredProviderClass := Some desired, rs_currentProviderClass := Some cls,
            rs_degradedFallback := Some (cls \<noteq> desired),
            rs_failbackOutcome := (if failbackProbe st = Some True
               then Some (if cls = desired then FailbackSuccess else FailbackFailure) else rs_failbackOutcome st)\<rparr>)"

text \<open>\<open>Inr False\<close>: another request has rebound the session; the endpoint was released and the call starts over.\<close>

definition bind_session ::
  "ResolutionEnv \<Rightarrow> ProviderAdapter \<Rightarrow> AuthenticatedRoute \<Rightarrow> StoredLogicalSession option \<Rightarrow> UpstreamEndpoint \<Rightarrow> bool resolve_op" where
  "bind_session env provider route session ep x =
     (case x of (s, st, prepared) \<Rightarrow>
      case session of
        None \<Rightarrow> (Inr True, x)
      | Some y \<Rightarrow>
          let s = env_interfere env (sessionRebindRetries st) s
          in if same_binding env route ep (affinity y)
             then (Inr True, snd (saveLogicalSession (touched_session env provider route st y) (bindingVersion y) s),
                   bound_state provider route (st\<lparr>rs_sessionAffinityHit := Some True\<rparr>), prepared)
             else (case saveLogicalSession (rebound_session env provider route ep y) (bindingVersion y) s of
                (True, s) \<Rightarrow>
                  (Inr True, s,
                   bound_state provider route (st\<lparr>rs_sessionRebindCause := or_else (rs_sessionRebindCause st)
                     (Some (if affinity y = None then ''initial_binding'' else ''candidate_ineligible''))\<rparr>), prepared)
              | (False, s) \<Rightarrow>
                  let s = snd (release ep s)
                  in if 2 \<le> sessionRebindRetries st
                     then (Inl (unavailable ''Concurrent logical-session rebinding did not converge''), s, st, prepared)
                     else (Inr False, s,
                           st\<lparr>sessionRebindRetries := sessionRebindRetries st + 1,
                              rs_sessionRebindCause := Some ''concurrent_rebind'', previousProvider := None,
                              previousCandidateId := None, preferredCandidateId := None\<rparr>, prepared)))"

text \<open>From the choice of a slot to an endpoint that holds its load.\<close>

definition prepare_endpoint ::
  "ResolutionEnv \<Rightarrow> AuthenticatedRoute \<Rightarrow> DataPlaneProtocol \<Rightarrow> ProxyTarget \<Rightarrow> UsageRecord list \<Rightarrow> ProviderAdapter \<Rightarrow> nat \<Rightarrow>
   UpstreamEndpoint resolve_op" where
  "prepare_endpoint env route protocol target recent provider attempts =
     bind_op (select_phase env provider route protocol recent) (\<lambda>sel.
     bind_op (materialize env provider route protocol target attempts sel) (\<lambda>ep x.
     bind_op (verify_city provider route (describe_pressure (fst (snd x)) (describe_selection sel ep))) (\<lambda>ep.
     bind_op (claim_circuit env provider sel ep) (\<lambda>ep.
     bind_op (register_load env provider route protocol recent ep) (\<lambda>ep x.
     (Inr (describe_change (fst (snd x)) ep), x)))) x))"

definition establish ::
  "ResolutionEnv \<Rightarrow> AuthenticatedRoute \<Rightarrow> DataPlaneProtocol \<Rightarrow> ProxyTarget \<Rightarrow> UsageRecord list \<Rightarrow>
   StoredLogicalSession option \<Rightarrow> ProviderAdapter \<Rightarrow> nat \<Rightarrow> attempt resolve_op" where
  "establish env route protocol target recent session provider attempts =
     bind_op (prepare_endpoint env route protocol target recent provider attempts) (\<lambda>ep.
     bind_op (bind_session env provider route session ep) (\<lambda>bound x.
     case x of (s, st, prepared) \<Rightarrow>
       if bound
       then (Inr (Served ep), s,
             st\<lparr>previousCandidateId := Some (asg_candidateId (assignment ep)), previousProvider := Some (ep_provider ep)\<rparr>, prepared)
       else (Inr Rebind, x)))"

definition attempt_provider ::
  "ResolutionEnv \<Rightarrow> AuthenticatedRoute \<Rightarrow> DataPlaneProtocol \<Rightarrow> ProxyTarget \<Rightarrow> UsageRecord list \<Rightarrow>
   StoredLogicalSession option \<Rightarrow> ProviderAdapter \<Rightarrow> attempt resolve_op" where
  "attempt_provider env route protocol target recent session provider x =
     (case x of (s, st, prepared) \<Rightarrow>
      let pid = desc_id (descriptor provider);
          st = st\<lparr>primaryProvider := or_else (primaryProvider st) (Some pid)\<rparr>;
          attempts = load_of (attemptsByProvider st) pid;
          limit = provider_limit route provider
      in if limit \<le> int attempts then (Inr Skipped, s, st, prepared)
         else case env_health env pid of
           Inl e \<Rightarrow> (Inl e, s, st, prepared)
         | Inr h \<Rightarrow>
             (case env_aborted env of
                Some reason \<Rightarrow> (Inl (abortReason reason), s, st, prepared)
              | None \<Rightarrow>
                  if ph_state h = Unhealthy
                  then (Inr Skipped, s, st\<lparr>attemptsByProvider := js_set (attemptsByProvider st) pid (nat limit)\<rparr>, prepared)
                  else establish env route protocol target recent session provider attempts
                         (s, st\<lparr>attemptsByProvider := js_set (attemptsByProvider st) pid (attempts + 1)\<rparr>, prepared)))"

fun try_providers ::
  "ResolutionEnv \<Rightarrow> AuthenticatedRoute \<Rightarrow> DataPlaneProtocol \<Rightarrow> ProxyTarget \<Rightarrow> UsageRecord list \<Rightarrow>
   StoredLogicalSession option \<Rightarrow> ProviderAdapter list \<Rightarrow> attempt resolve_op" where
  "try_providers env route protocol target recent session [] x =
     (Inl (if providerOverride route \<noteq> None then throw providerOverrideUnsatisfiedError
           else unavailable ''No compatible healthy provider is available''), x)"
| "try_providers env route protocol target recent session (p # ps) x =
     bind_op (attempt_provider env route protocol target recent session p)
       (\<lambda>outcome. if outcome = Skipped then try_providers env route protocol target recent session ps else return_op outcome) x"

definition rank_eligible ::
  "ResolutionEnv \<Rightarrow> AuthenticatedRoute \<Rightarrow> DataPlaneProtocol \<Rightarrow> ProxyTarget \<Rightarrow> UsageRecord list \<Rightarrow> ProviderAdapter list resolve_op" where
  "rank_eligible env route protocol target recent x =
     (case x of (s, st, prepared) \<Rightarrow>
      let eligible = filter (\<lambda>p. providerCompatible p route (Some protocol) (Some target) (Some (ar_sessionMode route))
            \<and> (providerOverride route = None \<or> Some (desc_id (descriptor p)) = providerOverride route)) (env_providers env)
      in case rankProviders (env_lc env) (env_now env) eligible route recent (s, st) of
           (Inl e, s, st) \<Rightarrow> (Inl e, s, st, prepared)
         | (Inr ranked, s, st) \<Rightarrow> (Inr (take MAX_PROVIDERS_PER_OPERATION ranked), s, st, prepared))"

definition resolve_round ::
  "ResolutionEnv \<Rightarrow> AuthenticatedRoute \<Rightarrow> DataPlaneProtocol \<Rightarrow> ProxyTarget \<Rightarrow> attempt resolve_op" where
  "resolve_round env route protocol target x =
     (if route_status route \<noteq> RouteReady then (Inl (unavailable ''Route is revoked''), x)
      else case assertProtocolAllowed route protocol of
        Inl e \<Rightarrow> (Inl e, x)
      | Inr _ \<Rightarrow>
          let recent = listUsageRecords (env_now env - evidenceWindowMs ROUTING_POLICY) (env_now env)
                         (Some ROUTING_EVIDENCE_RECORD_LIMIT) True (fst x)
          in bind_op (resume_session env route protocol target) (\<lambda>session.
             bind_op (rank_eligible env route protocol target recent) (\<lambda>ranked.
               if ranked = []
               then throw_op (if providerOverride route \<noteq> None then throw providerOverrideUnsatisfiedError
                              else unavailable ''No compatible provider is available'')
               else try_providers env route protocol target recent session ranked)) x)"

text \<open>
  The recursion of \<open>resolve\<close> on a concurrent rebinding, with fuel; \<open>None\<close> says that the fuel is used
  up. Three rounds are always enough (\<open>resolve_terminates\<close> below).
\<close>

fun resolve_rounds ::
  "nat \<Rightarrow> ResolutionEnv \<Rightarrow> AuthenticatedRoute \<Rightarrow> DataPlaneProtocol \<Rightarrow> ProxyTarget \<Rightarrow> UpstreamEndpoint option resolve_op" where
  "resolve_rounds 0 env route protocol target x = (Inr None, x)"
| "resolve_rounds (Suc n) env route protocol target x =
     bind_op (resolve_round env route protocol target)
       (\<lambda>outcome. case outcome of Served ep \<Rightarrow> return_op (Some ep) | _ \<Rightarrow> resolve_rounds n env route protocol target) x"

definition resolve ::
  "ResolutionEnv \<Rightarrow> AuthenticatedRoute \<Rightarrow> DataPlaneProtocol \<Rightarrow> ProxyTarget \<Rightarrow> UpstreamEndpoint option resolve_op" where
  "resolve = resolve_rounds 3"

subsection \<open>What an attempt taught\<close>

definition circuit_key_for :: "UpstreamEndpoint \<Rightarrow> string" where
  "circuit_key_for ep =
     (case or_else (capacityCircuitKey ep) (ep_proxySlotId ep) of None \<Rightarrow> ep_provider ep | Some k \<Rightarrow> k)"

definition recordCandidateFailure ::
  "timestamp \<Rightarrow> UpstreamEndpoint \<Rightarrow> exn \<Rightarrow> StoreState \<Rightarrow> UpstreamEndpoint \<times> StoreState" where
  "recordCandidateFailure now ep e s =
     (case recordCapacityFailure now (ep_provider ep) (circuit_key_for ep) e s of
        (None, s) \<Rightarrow> (ep, s)
      | (Some c, s) \<Rightarrow> (ep\<lparr>capacityCircuitState := Some (circ_status c), capacityCircuitReason := circ_reason c,
                            capacityCircuitCooldownUntil := cooldownUntil c\<rparr>, s))"

definition recordCandidateSuccess :: "timestamp \<Rightarrow> UpstreamEndpoint \<Rightarrow> StoreState \<Rightarrow> UpstreamEndpoint \<times> StoreState" where
  "recordCandidateSuccess now ep s =
     (case getCapacityCircuit (ep_provider ep) (circuit_key_for ep) now s of
        (None, s) \<Rightarrow> (ep, s)
      | (Some _, s) \<Rightarrow>
          (ep\<lparr>capacityCircuitState := Some CircuitClosed, capacityCircuitReason := None, capacityCircuitCooldownUntil := None\<rparr>,
           resetCapacityCircuit (ep_provider ep) (circuit_key_for ep) s))"

end
