(* ===== verification/Resolution_Safety.thy ===== *)
theory Resolution_Safety
  imports Resolution
begin

text \<open>
  What every resolution keeps: it ends after three rounds at most, it never tries a provider more often
  than its budget allows, and it holds a slot exactly when it returns an endpoint.
\<close>

subsection \<open>Frames\<close>

text \<open>
  Two states between which no tunnel was registered or removed, no attempt was counted and no round
  was started.
\<close>

definition keeps :: "StoreState \<times> ResolutionState \<times> 'p \<Rightarrow> StoreState \<times> ResolutionState \<times> 'q \<Rightarrow> bool" where
  "keeps x y \<longleftrightarrow>
     st_tunnels (fst y) = st_tunnels (fst x)
     \<and> sessionRebindRetries (fst (snd y)) = sessionRebindRetries (fst (snd x))
     \<and> attemptsByProvider (fst (snd y)) = attemptsByProvider (fst (snd x))"

definition rank_keeps :: "StoreState \<times> ResolutionState \<Rightarrow> StoreState \<times> ResolutionState \<Rightarrow> bool" where
  "rank_keeps x y \<longleftrightarrow> keeps (fst x, snd x, ()) (fst y, snd y, ())"

lemma keeps_refl [simp]: "keeps x x"
  by (simp add: keeps_def)

lemma keeps_trans: "keeps x y \<Longrightarrow> keeps y z \<Longrightarrow> keeps x z"
  by (simp add: keeps_def)

lemma rank_keeps_refl [simp]: "rank_keeps x x"
  by (simp add: rank_keeps_def)

lemma rank_keeps_trans: "rank_keeps x y \<Longrightarrow> rank_keeps y z \<Longrightarrow> rank_keeps x z"
  unfolding rank_keeps_def by (rule keeps_trans)

lemma bind_op_keeps:
  assumes "\<And>x. R x (snd (m x))" and "\<And>a x. R x (snd (f a x))" and "\<And>x y z. R x y \<Longrightarrow> R y z \<Longrightarrow> R x z"
  shows "R x (snd (bind_op m f x))"
proof (cases "m x")
  case (Pair r y)
  from assms(1) [of x] Pair have "R x y" by simp
  with Pair assms(2) [of y] assms(3) [of x y] show ?thesis by (cases r) (auto simp: bind_op_def)
qed

lemma getCapacityCircuit_tunnels [simp]: "st_tunnels (snd (getCapacityCircuit p k now s)) = st_tunnels s"
  by (simp add: getCapacityCircuit_def split: option.split)

lemma capacityCircuitEligible_keeps: "rank_keeps x (snd (capacityCircuitEligible now p k x))"
  by (simp add: capacityCircuitEligible_def rank_keeps_def keeps_def Let_def split: prod.split)
     (metis getCapacityCircuit_tunnels snd_conv)

lemma set_constraint_keeps [simp]: "rank_keeps (s, st) (s, st\<lparr>rs_capacityConstraint := k\<rparr>)"
  by (simp add: rank_keeps_def keeps_def)

lemma candidates_with_capacity_keeps: "rank_keeps x (snd (candidates_with_capacity now p cs x))"
proof (induction cs arbitrary: x)
  case (Cons c cs)
  show ?case
    unfolding candidates_with_capacity.simps
  proof (rule bind_op_keeps [where R = rank_keeps])
    show "rank_keeps x (snd (capacityCircuitEligible now p (cand_id c) x))" for x
      by (rule capacityCircuitEligible_keeps)
    show "rank_keeps x (snd ((if ok then bind_op (candidates_with_capacity now p cs) (\<lambda>rest. return_op (c # rest)) x
        else candidates_with_capacity now p cs (fst x, (snd x)\<lparr>rs_capacityConstraint := Some CapacityCircuitConstraint\<rparr>))))" for ok x
      using Cons.IH rank_keeps_trans [OF set_constraint_keeps Cons.IH, of "fst x" "snd x"]
      by (auto intro!: bind_op_keeps [where R = rank_keeps] intro: rank_keeps_trans)
  qed (rule rank_keeps_trans)
qed simp

lemma score_provider_keeps: "rank_keeps x (snd (score_provider lc now route recent i p x))"
  unfolding score_provider_def Let_def
  by (auto split: option.split sum.split intro!: bind_op_keeps [where R = rank_keeps]
      intro: candidates_with_capacity_keeps capacityCircuitEligible_keeps rank_keeps_trans)

lemma score_providers_keeps: "rank_keeps x (snd (score_providers lc now route recent i ps x))"
proof (induction ps arbitrary: i x)
  case (Cons p ps)
  show ?case
    unfolding score_providers.simps
    by (rule bind_op_keeps [where R = rank_keeps])
       (auto intro!: bind_op_keeps [where R = rank_keeps] score_provider_keeps Cons.IH intro: rank_keeps_trans)
qed simp

lemma order_scored_keeps:
  "sessionRebindRetries (snd (order_scored lc route scored st)) = sessionRebindRetries st
   \<and> attemptsByProvider (snd (order_scored lc route scored st)) = attemptsByProvider st"
  by (auto simp: order_scored_def order_tiers_def Let_def split: option.split)

lemma rankProviders_keeps: "rank_keeps x (snd (rankProviders lc now ps route recent x))"
  unfolding rankProviders_def
proof (rule bind_op_keeps [where R = rank_keeps])
  show "rank_keeps x (snd (case order_scored lc route scored (snd x) of
      (Inl e, rs) \<Rightarrow> (Inl e, fst x, rs) | (Inr ordered, rs) \<Rightarrow> (Inr (map sc_provider ordered), fst x, rs)))" for scored x
    using order_scored_keeps [of lc route scored "snd x"]
    by (auto simp: rank_keeps_def keeps_def split: prod.split sum.split)
qed (auto intro: score_providers_keeps rank_keeps_trans)

lemma rank_eligible_keeps: "keeps x (snd (rank_eligible env route protocol target recent x))"
proof (cases x)
  case (fields s st prepared)
  let ?ps = "filter (\<lambda>p. providerCompatible p route (Some protocol) (Some target) (Some (ar_sessionMode route))
      \<and> (providerOverride route = None \<or> Some (desc_id (descriptor p)) = providerOverride route)) (env_providers env)"
  from fields rankProviders_keeps [of "(s, st)" "env_lc env" "env_now env" ?ps route recent] show ?thesis
    by (auto simp: rank_eligible_def rank_keeps_def keeps_def split: prod.split sum.split)
qed

lemma save_tunnels [simp]: "st_tunnels (snd (saveLogicalSession y v s)) = st_tunnels s"
  by (simp add: saveLogicalSession_def split: option.split)

lemma resume_session_keeps: "keeps x (snd (resume_session env route protocol target x))"
proof (cases x)
  case (fields s st prepared)
  have review: "st_tunnels (snd (snd (review_failback env route protocol target y s))) = st_tunnels s" for y
    by (simp add: review_failback_def save_or_keep_def Let_def split: option.split prod.split)
       (metis save_tunnels snd_conv)
  have preferred: "sessionRebindRetries (prefer_binding env route a b y st) = sessionRebindRetries st
      \<and> attemptsByProvider (prefer_binding env route a b y st) = attemptsByProvider st" for a b y st
    by (simp add: prefer_binding_def split: option.split)
  show ?thesis
    using review by (auto simp: fields resume_session_def keeps_def preferred session_state_def Let_def
        split: option.split sum.split prod.split if_splits) (metis snd_conv)+
qed

subsection \<open>The slot a resolution holds\<close>

text \<open>The tunnels are those of \<open>T\<close>, plus the claim if there is one, registered for the client.\<close>

definition holds_slot :: "AuthenticatedRoute \<Rightarrow> (string, ActiveTunnel) js_map \<Rightarrow> string option \<Rightarrow> StoreState \<Rightarrow> bool" where
  "holds_slot route T claim s =
     (case claim of
        None \<Rightarrow> st_tunnels s = T
      | Some k \<Rightarrow> \<not> js_has T k \<and> (\<exists>t. st_tunnels s = js_set T k t \<and> tun_id t = k \<and> tun_routeId t = route_id route
                    \<and> tun_accessGrantId t = ar_accessGrantId route \<and> tun_sessionId t = ar_sessionId route))"

definition paces :: "resolve_state \<Rightarrow> resolve_state \<Rightarrow> bool" where
  "paces x y \<longleftrightarrow>
     sessionRebindRetries (fst (snd y)) = sessionRebindRetries (fst (snd x))
     \<and> attemptsByProvider (fst (snd y)) = attemptsByProvider (fst (snd x))"

lemma paces_trans: "paces x y \<Longrightarrow> paces y z \<Longrightarrow> paces x z"
  by (simp add: paces_def)

lemma js_delete_set_new: "\<not> js_has m k \<Longrightarrow> js_delete (js_set m k v) k = m"
proof -
  assume new: "\<not> js_has m k"
  then have "k \<notin> fst ` set m" by (simp add: js_has_def js_get_def map_of_eq_None_iff)
  then have "filter (\<lambda>(k', _). k \<noteq> k') m = m" by (force simp: filter_id_conv)
  with new show ?thesis by (simp add: js_set_append_new js_delete_def AList.delete_eq)
qed

lemma release_slot: "holds_slot route T (activeLoadClaimId ep) s \<Longrightarrow> st_tunnels (snd (release ep s)) = T"
  by (auto simp: holds_slot_def release_def removeActiveTunnel_def js_delete_set_new split: option.splits)

lemma remove_slot: "holds_slot route T (Some k) s \<Longrightarrow> st_tunnels (removeActiveTunnel k s) = T"
  by (auto simp: holds_slot_def removeActiveTunnel_def js_delete_set_new)

lemma register_slot:
  assumes "registerActiveTunnel t s = (Inr u, s')" and "st_tunnels s = T" and "tun_routeId t = route_id route"
    and "tun_accessGrantId t = ar_accessGrantId route" and "tun_sessionId t = ar_sessionId route"
  shows "holds_slot route T (Some (tun_id t)) s'"
  using assms by (auto simp: registerActiveTunnel_def holds_slot_def split: if_splits)

lemma claimed_tunnel_fields [simp]:
  "tun_id (claimed_tunnel env k route protocol p e sc) = k"
  "tun_routeId (claimed_tunnel env k route protocol p e sc) = route_id route"
  "tun_accessGrantId (claimed_tunnel env k route protocol p e sc) = ar_accessGrantId route"
  "tun_sessionId (claimed_tunnel env k route protocol p e sc) = ar_sessionId route"
  by (simp_all add: claimed_tunnel_def)

lemma register_refused: "registerActiveTunnel t s = (Inl e, s') \<Longrightarrow> s' = s"
  by (auto simp: registerActiveTunnel_def split: if_splits)

lemma claim_slot_cases:
  assumes "claimActiveTunnelSlot now p cs sel mk s = (r, s')"
  obtains (refused) e where "r = Inl e" "s' = s"
  | (claimed) t e n u where "r = Inr (t, n)" "t = mk e" "registerActiveTunnel t s = (Inr u, s')"
  using assms
  by (auto simp: claimActiveTunnelSlot_def Let_def bind_op_def split: if_splits sum.splits prod.splits dest: register_refused)

lemma claim_candidate_slot:
  assumes "claim_candidate env provider route protocol recent cs x = (r, y)" and "st_tunnels (fst x) = T"
  shows "paces x y \<and> (case r of Inl e \<Rightarrow> st_tunnels (fst y) = T | Inr sel \<Rightarrow> holds_slot route T (Some (sel_activeLoadClaimId sel)) (fst y))"
proof -
  obtain s st prepared where x: "x = (s, st, prepared)" by (metis prod_cases3)
  define pid where "pid = desc_id (descriptor provider)"
  define pick where "pick = select_endpoint (env_lc env) (env_now env) provider recent (preferredCandidateId st) cs"
  define selected where "selected = pick (slot_load_counts (env_now env) pid (map cand_id cs) (js_values (st_tunnels s)))"
  define score where "score = map_option (\<lambda>(_, _, sc). cand_score sc) selected"
  define mk where "mk e = claimed_tunnel env (env_claimId env (sessionRebindRetries st)) route protocol pid e score" for e
  define chosen where "chosen loads = (case pick loads of
      None \<Rightarrow> Inl (unavailable ''No compatible provider candidate is available'') | Some (i, _, _) \<Rightarrow> Inr i)" for loads
  obtain r1 s1 where claim: "claimActiveTunnelSlot (env_now env) pid (map cand_id cs) chosen mk s = (r1, s1)" by (meson surj_pair)
  note run = assms(1) [unfolded x claim_candidate_def prod.case Let_def, folded pid_def, folded pick_def, folded selected_def,
      folded score_def, folded mk_def chosen_def, unfolded claim]
  from claim show ?thesis
  proof (cases rule: claim_slot_cases)
    case (refused e)
    with run x assms(2) show ?thesis by (auto simp: paces_def)
  next
    case (claimed t e n u)
    have slot: "holds_slot route T (Some (tun_id t)) s1"
      by (rule register_slot [OF claimed(3)]) (use assms(2) x claimed(2) in \<open>simp_all add: mk_def\<close>)
    from run claimed(1) slot remove_slot [OF slot] x show ?thesis
      by (auto simp: paces_def split: option.splits prod.splits if_splits)
  qed
qed

lemma saveProviderInventory_tunnels [simp]: "st_tunnels (saveProviderInventory x s) = st_tunnels s"
  by (simp add: saveProviderInventory_def)

lemma selectProviderCandidate_slot:
  assumes "selectProviderCandidate env provider route protocol recent x = (r, y)" and "st_tunnels (fst x) = T"
  shows "paces x y \<and> (case r of Inl e \<Rightarrow> st_tunnels (fst y) = T | Inr sel \<Rightarrow> holds_slot route T (Some (sel_activeLoadClaimId sel)) (fst y))"
proof -
  obtain s st prepared where x: "x = (s, st, prepared)" by (metis prod_cases3)
  show ?thesis
  proof (cases "candidates provider = None \<or> (\<exists>e. cs_list (the (candidates provider)) = Inl e)")
    case True
    with assms x show ?thesis by (cases "candidates provider") (auto simp: selectProviderCandidate_def paces_def)
  next
    case False
    then obtain source listed where src: "candidates provider = Some source" "cs_list source = Inr listed"
      by (metis option.collapse sum.exhaust)
    define s1 where "s1 = saveProviderInventory (inventory_snapshot (env_now env) provider source listed) s"
    define compatible where "compatible = filter (\<lambda>c. cand_healthy c \<and> \<not> has (excludedCandidateIds st) (cand_id c)
        \<and> cs_matches source c (targeting route)) listed"
    obtain r2 s2 st2 where cap: "candidates_with_capacity (env_now env) (desc_id (descriptor provider)) compatible (s1, st) = (r2, s2, st2)"
      by (metis prod_cases3)
    from candidates_with_capacity_keeps [of "(s1, st)" "env_now env" "desc_id (descriptor provider)" compatible] cap
    have k: "st_tunnels s2 = st_tunnels s" "sessionRebindRetries st2 = sessionRebindRetries st" "attemptsByProvider st2 = attemptsByProvider st"
      by (simp_all add: rank_keeps_def keeps_def s1_def)
    note run = assms(1) [unfolded x selectProviderCandidate_def prod.case Let_def src option.case sum.case,
        folded s1_def compatible_def, unfolded cap prod.case]
    show ?thesis
    proof (cases "\<exists>cs. r2 = Inr cs \<and> cs \<noteq> [] \<and> env_aborted env = None")
      case True
      then obtain cs where cs: "r2 = Inr cs" "cs \<noteq> []" "env_aborted env = None" by blast
      with run have "claim_candidate env provider route protocol recent cs (s2, st2, prepared) = (r, y)" by simp
      from claim_candidate_slot [OF this, of T] k assms(2) x show ?thesis by (simp add: paces_def)
    next
      case False
      with run k assms(2) x show ?thesis by (auto simp: paces_def split: sum.splits option.splits if_splits)
    qed
  qed
qed

lemma select_phase_slot:
  assumes "select_phase env provider route protocol recent x = (r, y)" and "st_tunnels (fst x) = T"
  shows "paces x y \<and> (case r of Inl e \<Rightarrow> st_tunnels (fst y) = T | Inr sel \<Rightarrow> holds_slot route T (map_option sel_activeLoadClaimId sel) (fst y))"
proof -
  obtain s st prepared where x: "x = (s, st, prepared)" by (metis prod_cases3)
  show ?thesis
  proof (cases "candidates provider = None")
    case True
    with assms x show ?thesis by (auto simp: select_phase_def paces_def holds_slot_def)
  next
    case False
    let ?x = "(s, st\<lparr>rs_capacityPolicyVersion := Some (capacity_version CAPACITY_POLICY)\<rparr>, prepared)"
    obtain r1 s1 st1 p1 where one: "selectProviderCandidate env provider route protocol recent ?x = (r1, s1, st1, p1)"
      by (metis prod_cases4)
    from selectProviderCandidate_slot [OF one, of T] assms False x one show ?thesis
      by (auto simp: select_phase_def paces_def split: sum.splits)
  qed
qed

lemma recordCapacityFailure_tunnels [simp]: "st_tunnels (snd (recordCapacityFailure now p k e s)) = st_tunnels s"
  by (simp add: recordCapacityFailure_def store_recordCapacityCircuitFailure_def Let_def split: option.split)

text \<open>
  What the theorem asks of the world: adapters return endpoints without a claim of their own and with a
  protocol they declared, and whoever rebinds a session meanwhile leaves the tunnels alone.
\<close>

definition adapters_ok :: "ResolutionEnv \<Rightarrow> bool" where
  "adapters_ok env \<longleftrightarrow>
     (\<forall>p \<in> set (env_providers env). \<forall>r o' ep. env_resolve env (desc_id (descriptor p)) r o' = Inr ep \<longrightarrow>
        activeLoadClaimId ep = None \<and> has (upstreamProtocols (capabilities (descriptor p))) (ep_protocol ep))
     \<and> (\<forall>n s. st_tunnels (env_interfere env n s) = st_tunnels s)"

lemma materialize_slot:
  assumes "materialize env provider route protocol target attempts sel x = (r, y)"
    and "holds_slot route T (map_option sel_activeLoadClaimId sel) (fst x)"
    and "adapters_ok env" and "provider \<in> set (env_providers env)"
  shows "paces x y \<and> (case r of Inl e \<Rightarrow> st_tunnels (fst y) = T
    | Inr ep \<Rightarrow> activeLoadClaimId ep = None \<and> holds_slot route T (map_option sel_activeLoadClaimId sel) (fst y))"
proof -
  obtain s st prepared where x: "x = (s, st, prepared)" by (metis prod_cases3)
  let ?answer = "env_resolve env (desc_id (descriptor provider)) route (resolve_options env route protocol target attempts sel st)"
  show ?thesis
  proof (cases ?answer)
    case (Inl e)
    have "st_tunnels (case sel of None \<Rightarrow> s | Some c \<Rightarrow> removeActiveTunnel (sel_activeLoadClaimId c) s) = T"
      using assms(2) x remove_slot by (cases sel) (auto simp: holds_slot_def [of _ _ None])
    with Inl assms(1) x show ?thesis by (auto simp: materialize_def Let_def paces_def)
  next
    case (Inr ep)
    with assms(3,4) have "activeLoadClaimId ep = None" "has (upstreamProtocols (capabilities (descriptor provider))) (ep_protocol ep)"
      unfolding adapters_ok_def by blast+
    with Inr assms(1) x have "r = Inr ep" "y = x" by (simp_all add: materialize_def Let_def)
    with \<open>activeLoadClaimId ep = None\<close> assms(2) show ?thesis by (simp add: paces_def)
  qed
qed

lemma describe_claim [simp]:
  "activeLoadClaimId (describe_pressure st ep) = activeLoadClaimId ep"
  "activeLoadClaimId (describe_change st ep) = activeLoadClaimId ep"
  "activeLoadClaimId (describe_selection sel ep) =
     (case sel of None \<Rightarrow> activeLoadClaimId ep | Some c \<Rightarrow> Some (sel_activeLoadClaimId c))"
  by (simp_all add: describe_pressure_def describe_change_def describe_selection_def split: option.split)

lemma verify_city_slot:
  assumes "verify_city provider route ep x = (r, y)" and "holds_slot route T (activeLoadClaimId ep) (fst x)"
  shows "paces x y \<and> (case r of Inl e \<Rightarrow> st_tunnels (fst y) = T | Inr ep' \<Rightarrow> ep' = ep \<and> y = x)"
  using assms release_slot [OF assms(2)]
  by (auto simp: verify_city_def paces_def exclude_candidate_def split: prod.splits if_splits)

lemma claimCapacityCircuit_tunnels: "claimCapacityCircuit p k now s = (c, s') \<Longrightarrow> st_tunnels s' = st_tunnels s"
  using getCapacityCircuit_tunnels [of p k now s]
  by (cases "getCapacityCircuit p k now s") (auto simp: claimCapacityCircuit_def Let_def split: option.splits if_splits)

lemma holds_slot_cong: "st_tunnels s' = st_tunnels s \<Longrightarrow> holds_slot route T c s' = holds_slot route T c s"
  by (cases c) (simp_all add: holds_slot_def)

lemma claim_circuit_slot:
  assumes "claim_circuit env provider sel ep x = (r, y)" and "holds_slot route T (activeLoadClaimId ep) (fst x)"
  shows "paces x y \<and> (case r of Inl e \<Rightarrow> st_tunnels (fst y) = T
    | Inr ep' \<Rightarrow> activeLoadClaimId ep' = activeLoadClaimId ep \<and> holds_slot route T (activeLoadClaimId ep) (fst y))"
proof -
  obtain s st prepared where x: "x = (s, st, prepared)" by (metis prod_cases3)
  obtain ok c s1 where claim: "claimCapacityCircuit (desc_id (descriptor provider)) (circuit_key_of provider sel) (env_now env) s = ((ok, c), s1)"
    by (metis surj_pair)
  have slot: "holds_slot route T (activeLoadClaimId ep) s1"
    using assms(2) x holds_slot_cong [OF claimCapacityCircuit_tunnels [OF claim], of route T "activeLoadClaimId ep"] by simp
  show ?thesis
  proof (cases ok)
    case True
    with assms(1) x claim slot show ?thesis by (simp add: claim_circuit_def Let_def) (auto simp: paces_def)
  next
    case False
    with assms(1) x claim release_slot [OF slot] show ?thesis
      by (simp add: claim_circuit_def Let_def) (auto simp: paces_def exclude_candidate_def)
  qed
qed

lemma register_load_slot:
  assumes "register_load env provider route protocol recent ep x = (r, y)" and "holds_slot route T (activeLoadClaimId ep) (fst x)"
  shows "paces x y \<and> (case r of Inl e \<Rightarrow> st_tunnels (fst y) = T
    | Inr ep' \<Rightarrow> activeLoadClaimId ep' \<noteq> None \<and> holds_slot route T (activeLoadClaimId ep') (fst y))"
proof -
  obtain s st prepared where x: "x = (s, st, prepared)" by (metis prod_cases3)
  show ?thesis
  proof (cases "activeLoadClaimId ep = None")
    case False
    with assms x show ?thesis by (auto simp: register_load_def paces_def)
  next
    case True
    then have T: "st_tunnels s = T" using assms(2) x by (simp add: holds_slot_def)
    let ?pid = "desc_id (descriptor provider)" and ?claim = "env_claimId env (sessionRebindRetries st)"
    let ?records = "filter (\<lambda>r. ur_provider r = ?pid) recent"
    let ?load = "load_of (fst (getActiveConnectionCounts (env_lc env) (env_now env) [?pid] [] [] s)) ?pid"
    let ?sc = "scoreCandidate (env_now env) provider ?records ?load False ?records"
    let ?t = "claimed_tunnel env ?claim route protocol (ep_provider ep) (ep_endpointId ep) (Some (cand_score ?sc))"
    obtain r1 s1 where reg: "registerActiveTunnel ?t s = (r1, s1)" by (meson surj_pair)
    show ?thesis
    proof (cases r1)
      case (Inl e)
      with reg register_refused have "s1 = s" by blast
      with Inl reg True assms(1) x T show ?thesis by (auto simp: register_load_def Let_def paces_def)
    next
      case (Inr u)
      have "holds_slot route T (Some ?claim) s1" using register_slot [OF reg [unfolded Inr] T, of route] by simp
      with Inr reg True assms(1) x show ?thesis by (auto simp: register_load_def Let_def paces_def)
    qed
  qed
qed

lemma bound_state_paces [simp]:
  "sessionRebindRetries (bound_state provider route st) = sessionRebindRetries st"
  "attemptsByProvider (bound_state provider route st) = attemptsByProvider st"
  by (simp_all add: bound_state_def Let_def)

lemma bind_session_slot:
  assumes "bind_session env provider route session ep x = (r, y)" and "holds_slot route T (activeLoadClaimId ep) (fst x)"
    and "adapters_ok env"
  shows "attemptsByProvider (fst (snd y)) = attemptsByProvider (fst (snd x))
    \<and> (case r of Inl e \<Rightarrow> paces x y \<and> st_tunnels (fst y) = T
       | Inr True \<Rightarrow> paces x y \<and> holds_slot route T (activeLoadClaimId ep) (fst y)
       | Inr False \<Rightarrow> st_tunnels (fst y) = T \<and> sessionRebindRetries (fst (snd x)) < 2
           \<and> sessionRebindRetries (fst (snd y)) = Suc (sessionRebindRetries (fst (snd x))))"
proof -
  obtain s st prepared where x: "x = (s, st, prepared)" by (metis prod_cases3)
  show ?thesis
  proof (cases session)
    case None
    with assms x show ?thesis by (auto simp: bind_session_def paces_def)
  next
    case (Some z)
    define s1 where "s1 = env_interfere env (sessionRebindRetries st) s"
    have t1: "st_tunnels s1 = st_tunnels s" using assms(3) by (simp add: adapters_ok_def s1_def)
    note run = assms(1) [unfolded x Some bind_session_def prod.case option.case Let_def, folded s1_def]
    show ?thesis
    proof (cases "same_binding env route ep (affinity z)")
      case True
      let ?s2 = "snd (saveLogicalSession (touched_session env provider route st z) (bindingVersion z) s1)"
      have "holds_slot route T (activeLoadClaimId ep) ?s2"
        using assms(2) x t1 holds_slot_cong [of ?s2 s route T] by simp
      with run True x show ?thesis by (auto simp: paces_def)
    next
      case False
      obtain ok s2 where save: "saveLogicalSession (rebound_session env provider route ep z) (bindingVersion z) s1 = (ok, s2)"
        by (meson surj_pair)
      from save save_tunnels [of "rebound_session env provider route ep z" "bindingVersion z" s1] t1
      have slot: "holds_slot route T (activeLoadClaimId ep) s2"
        using assms(2) x holds_slot_cong [of s2 s route T] by simp
      show ?thesis
      proof (cases ok)
        case True
        with run False save slot x show ?thesis by (simp add: case_prod_beta) (auto simp: paces_def)
      next
        case ok: False
        from run False save ok release_slot [OF slot] x show ?thesis
          by (auto simp: paces_def split: if_splits)
      qed
    qed
  qed
qed

text \<open>
  What one round leaves behind. The round counts: only a rebinding starts another one, and at most two
  do. When the world behaves (\<open>ok\<close>), the round holds a slot exactly when it serves an endpoint.
\<close>

definition round_ok ::
  "bool \<Rightarrow> AuthenticatedRoute \<Rightarrow> (string, ActiveTunnel) js_map \<Rightarrow> resolve_state \<Rightarrow> exn + attempt \<Rightarrow> resolve_state \<Rightarrow> bool" where
  "round_ok ok route T x r y =
     (case r of
        Inr Rebind \<Rightarrow> (ok \<longrightarrow> st_tunnels (fst y) = T) \<and> sessionRebindRetries (fst (snd x)) < 2
          \<and> sessionRebindRetries (fst (snd y)) = Suc (sessionRebindRetries (fst (snd x)))
      | Inr (Served ep) \<Rightarrow> sessionRebindRetries (fst (snd y)) = sessionRebindRetries (fst (snd x))
          \<and> (ok \<longrightarrow> activeLoadClaimId ep \<noteq> None \<and> holds_slot route T (activeLoadClaimId ep) (fst y))
      | _ \<Rightarrow> (ok \<longrightarrow> st_tunnels (fst y) = T) \<and> sessionRebindRetries (fst (snd y)) = sessionRebindRetries (fst (snd x)))"

text \<open>
  A phase started where \<open>P\<close> holds: it counts no attempt, and it fails with nothing held or ends where
  \<open>Q\<close> holds of its result.
\<close>

definition phase ::
  "(string, ActiveTunnel) js_map \<Rightarrow> (resolve_state \<Rightarrow> bool) \<Rightarrow> 'a resolve_op \<Rightarrow> ('a \<Rightarrow> resolve_state \<Rightarrow> bool) \<Rightarrow> bool" where
  "phase T P m Q \<longleftrightarrow>
     (\<forall>x r y. P x \<and> m x = (r, y) \<longrightarrow> paces x y \<and> (case r of Inl e \<Rightarrow> st_tunnels (fst y) = T | Inr a \<Rightarrow> Q a y))"

lemma phaseI:
  "(\<And>x r y. P x \<Longrightarrow> m x = (r, y) \<Longrightarrow> paces x y \<and> (case r of Inl e \<Rightarrow> st_tunnels (fst y) = T | Inr a \<Rightarrow> Q a y)) \<Longrightarrow> phase T P m Q"
  unfolding phase_def by blast

text \<open>A phase that depends on the state it starts in.\<close>

lemma phase_at: "(\<And>x. P x \<Longrightarrow> phase T (P' x) (f x) Q) \<Longrightarrow> (\<And>x. P x \<Longrightarrow> P' x x) \<Longrightarrow> phase T P (\<lambda>x. f x x) Q"
  unfolding phase_def by blast

lemma phase_bind:
  assumes m: "phase T P m Q" and f: "\<And>a. phase T (Q a) (f a) R"
  shows "phase T P (bind_op m f) R"
proof (rule phaseI)
  fix x r y
  assume "P x" and run: "bind_op m f x = (r, y)"
  obtain r1 y1 where one: "m x = (r1, y1)" by (meson surj_pair)
  with m \<open>P x\<close> have e1: "paces x y1 \<and> (case r1 of Inl e \<Rightarrow> st_tunnels (fst y1) = T | Inr a \<Rightarrow> Q a y1)"
    unfolding phase_def by blast
  show "paces x y \<and> (case r of Inl e \<Rightarrow> st_tunnels (fst y) = T | Inr b \<Rightarrow> R b y)"
  proof (cases r1)
    case (Inl e)
    with run one e1 show ?thesis by auto
  next
    case (Inr a)
    with run one have "f a y1 = (r, y)" by simp
    with f [of a] e1 Inr have "paces y1 y \<and> (case r of Inl e \<Rightarrow> st_tunnels (fst y) = T | Inr b \<Rightarrow> R b y)"
      unfolding phase_def by (metis (no_types, lifting) old.sum.simps(6))
    with e1 show ?thesis by (blast intro: paces_trans)
  qed
qed

lemma prepare_endpoint_slot:
  assumes ok: "adapters_ok env" "provider \<in> set (env_providers env)"
  shows "phase T (\<lambda>x. st_tunnels (fst x) = T) (prepare_endpoint env route protocol target recent provider attempts)
    (\<lambda>ep y. activeLoadClaimId ep \<noteq> None \<and> holds_slot route T (activeLoadClaimId ep) (fst y))"
  unfolding prepare_endpoint_def
proof (rule phase_bind)
  show "phase T (\<lambda>x. st_tunnels (fst x) = T) (select_phase env provider route protocol recent)
      (\<lambda>sel y. holds_slot route T (map_option sel_activeLoadClaimId sel) (fst y))"
    by (rule phaseI) (rule select_phase_slot)
  fix sel
  let ?held = "\<lambda>ep y. holds_slot route T (activeLoadClaimId ep) (fst y)"
  show "phase T (\<lambda>y. holds_slot route T (map_option sel_activeLoadClaimId sel) (fst y))
      (bind_op (materialize env provider route protocol target attempts sel) (\<lambda>ep x.
       bind_op (verify_city provider route (describe_pressure (fst (snd x)) (describe_selection sel ep))) (\<lambda>ep.
       bind_op (claim_circuit env provider sel ep) (\<lambda>ep.
       bind_op (register_load env provider route protocol recent ep) (\<lambda>ep x.
       (Inr (describe_change (fst (snd x)) ep), x)))) x))
      (\<lambda>ep y. activeLoadClaimId ep \<noteq> None \<and> ?held ep y)"
  proof (rule phase_bind)
    show "phase T (\<lambda>y. holds_slot route T (map_option sel_activeLoadClaimId sel) (fst y))
        (materialize env provider route protocol target attempts sel)
        (\<lambda>ep y. activeLoadClaimId ep = None \<and> holds_slot route T (map_option sel_activeLoadClaimId sel) (fst y))"
      by (rule phaseI) (rule materialize_slot [OF _ _ ok])
    have rest: "phase T (?held ep) (bind_op (verify_city provider route ep) (\<lambda>ep.
        bind_op (claim_circuit env provider sel ep) (\<lambda>ep.
        bind_op (register_load env provider route protocol recent ep) (\<lambda>ep x.
        (Inr (describe_change (fst (snd x)) ep), x)))))
        (\<lambda>ep y. activeLoadClaimId ep \<noteq> None \<and> ?held ep y)" for ep
    proof (intro phase_bind)
      show "phase T (?held ep) (verify_city provider route ep) ?held"
        by (rule phaseI) (use verify_city_slot in \<open>fastforce split: sum.splits\<close>)
      show "phase T (?held ep) (claim_circuit env provider sel ep) ?held" for ep
        by (rule phaseI) (use claim_circuit_slot in \<open>fastforce split: sum.splits\<close>)
      show "phase T (?held ep) (register_load env provider route protocol recent ep)
          (\<lambda>ep y. activeLoadClaimId ep \<noteq> None \<and> ?held ep y)" for ep
        by (rule phaseI) (rule register_load_slot)
    qed (auto simp: phase_def paces_def)
    show "phase T (\<lambda>y. activeLoadClaimId ep = None \<and> holds_slot route T (map_option sel_activeLoadClaimId sel) (fst y))
        (\<lambda>x. bind_op (verify_city provider route (describe_pressure (fst (snd x)) (describe_selection sel ep))) (\<lambda>ep.
         bind_op (claim_circuit env provider sel ep) (\<lambda>ep.
         bind_op (register_load env provider route protocol recent ep) (\<lambda>ep x.
         (Inr (describe_change (fst (snd x)) ep), x)))) x)
        (\<lambda>ep y. activeLoadClaimId ep \<noteq> None \<and> ?held ep y)" for ep
    proof (rule phase_at [where P' = "\<lambda>x. ?held (describe_pressure (fst (snd x)) (describe_selection sel ep))"], rule rest)
      fix x :: resolve_state
      assume "activeLoadClaimId ep = None \<and> holds_slot route T (map_option sel_activeLoadClaimId sel) (fst x)"
      then show "?held (describe_pressure (fst (snd x)) (describe_selection sel ep)) x" by (cases sel) simp_all
    qed
  qed
qed

lemma prepare_endpoint_paces: "paces x (snd (prepare_endpoint env route protocol target recent provider attempts x))"
proof -
  have select: "paces x (snd (select_phase env provider route protocol recent x))" for x
    using select_phase_slot [of env provider route protocol recent x] by (metis prod.collapse)
  have materialize: "paces x (snd (materialize env provider route protocol target attempts sel x))" for sel x
    by (auto simp: materialize_def paces_def Let_def split: prod.split sum.split)
  have verify: "paces x (snd (verify_city provider route ep x))" for ep x
    by (auto simp: verify_city_def paces_def exclude_candidate_def split: prod.split)
  have claim: "paces x (snd (claim_circuit env provider sel ep x))" for sel ep x
    by (auto simp: claim_circuit_def paces_def exclude_candidate_def Let_def split: prod.split bool.split)
  have register: "paces x (snd (register_load env provider route protocol recent ep x))" for ep x
    by (auto simp: register_load_def paces_def Let_def split: prod.split sum.split)
  show ?thesis
    unfolding prepare_endpoint_def
    by (intro bind_op_keeps [where R = paces] select materialize verify claim register) (auto simp: paces_def)
qed

lemma bind_session_paces:
  assumes "bind_session env provider route session ep x = (r, y)"
  shows "attemptsByProvider (fst (snd y)) = attemptsByProvider (fst (snd x))
    \<and> (case r of
         Inr False \<Rightarrow> sessionRebindRetries (fst (snd x)) < 2
           \<and> sessionRebindRetries (fst (snd y)) = Suc (sessionRebindRetries (fst (snd x)))
       | _ \<Rightarrow> paces x y)"
proof -
  obtain s st prepared where x: "x = (s, st, prepared)" by (metis prod_cases3)
  show ?thesis
  proof (cases session)
    case None
    with assms x show ?thesis by (auto simp: bind_session_def paces_def)
  next
    case (Some z)
    obtain ok s2 where save: "saveLogicalSession (rebound_session env provider route ep z) (bindingVersion z)
        (env_interfere env (sessionRebindRetries st) s) = (ok, s2)" by (meson surj_pair)
    from assms x Some save show ?thesis
      by (cases ok) (auto simp: bind_session_def paces_def Let_def split: if_splits)
  qed
qed

lemma establish_slot:
  assumes run: "establish env route protocol target recent session provider attempts x = (r, y)"
    and ok: "ok \<longrightarrow> st_tunnels (fst x) = T \<and> adapters_ok env \<and> provider \<in> set (env_providers env)"
  shows "attemptsByProvider (fst (snd y)) = attemptsByProvider (fst (snd x)) \<and> round_ok ok route T x r y \<and> r \<noteq> Inr Skipped"
proof -
  note run = run [unfolded establish_def]
  obtain r1 y1 where p1: "prepare_endpoint env route protocol target recent provider attempts x = (r1, y1)" by (meson surj_pair)
  from prepare_endpoint_paces [of x] p1 have pace1: "paces x y1" by (metis snd_conv)
  from prepare_endpoint_slot [of env provider T route] ok p1
  have e1: "ok \<longrightarrow> (case r1 of Inl e \<Rightarrow> st_tunnels (fst y1) = T
      | Inr ep \<Rightarrow> activeLoadClaimId ep \<noteq> None \<and> holds_slot route T (activeLoadClaimId ep) (fst y1))"
    unfolding phase_def by blast
  show ?thesis
  proof (cases r1)
    case (Inl e)
    with run p1 e1 pace1 show ?thesis by (auto simp: paces_def round_ok_def)
  next
    case (Inr ep)
    obtain r2 y2 where p2: "bind_session env provider route session ep y1 = (r2, y2)" by (meson surj_pair)
    note pace2 = bind_session_paces [OF p2]
    have e2: "ok \<longrightarrow> (case r2 of Inl e \<Rightarrow> st_tunnels (fst y2) = T | Inr True \<Rightarrow> holds_slot route T (activeLoadClaimId ep) (fst y2)
        | Inr False \<Rightarrow> st_tunnels (fst y2) = T)"
      using bind_session_slot [OF p2, of T] e1 Inr ok by (auto split: sum.splits bool.splits)
    from run p1 p2 Inr e1 e2 pace1 pace2 show ?thesis
      by (cases r2) (auto simp: bind_op_def paces_def round_ok_def split: prod.splits bool.splits if_splits)
  qed
qed

subsection \<open>Attempts and rounds\<close>

definition within_budget :: "ResolutionState \<Rightarrow> bool" where
  "within_budget st \<longleftrightarrow>
     (\<forall>p n. js_get (attemptsByProvider st) p = Some n \<longrightarrow> int n \<le> MAX_PEERS_PER_PROVIDER)"

definition counts_up :: "ResolutionState \<Rightarrow> ResolutionState \<Rightarrow> bool" where
  "counts_up st st' \<longleftrightarrow>
     (\<forall>p. load_of (attemptsByProvider st) p \<le> load_of (attemptsByProvider st') p) \<and> (within_budget st \<longrightarrow> within_budget st')"

lemma counts_up_same: "attemptsByProvider st' = attemptsByProvider st \<Longrightarrow> counts_up st st'"
  by (simp add: counts_up_def within_budget_def)

lemma counts_up_trans: "counts_up a b \<Longrightarrow> counts_up b c \<Longrightarrow> counts_up a c"
  unfolding counts_up_def using order_trans by blast

lemma counts_up_set:
  assumes "load_of (attemptsByProvider st) p \<le> n" and "int n \<le> MAX_PEERS_PER_PROVIDER"
  shows "counts_up st (st\<lparr>attemptsByProvider := js_set (attemptsByProvider st) p n\<rparr>)"
  using assms by (auto simp: counts_up_def within_budget_def load_of_def)

lemma provider_limit_peers: "provider_limit route p = MAX_PEERS_PER_PROVIDER"
  by (simp add: provider_limit_def MAX_PEERS_PER_PROVIDER_def MAX_VERIFICATION_CANDIDATES_PER_PROVIDER_def)

lemma round_ok_start:
  "round_ok ok route T x' r y \<Longrightarrow> sessionRebindRetries (fst (snd x')) = sessionRebindRetries (fst (snd x)) \<Longrightarrow> round_ok ok route T x r y"
  by (auto simp: round_ok_def split: sum.splits attempt.splits)

lemma attempt_provider_ok:
  assumes run: "attempt_provider env route protocol target recent session provider x = (r, y)"
    and ok: "ok \<longrightarrow> st_tunnels (fst x) = T \<and> adapters_ok env \<and> provider \<in> set (env_providers env)"
  shows "counts_up (fst (snd x)) (fst (snd y)) \<and> round_ok ok route T x r y"
proof -
  obtain s st prepared where x: "x = (s, st, prepared)" by (metis prod_cases3)
  define pid where "pid = desc_id (descriptor provider)"
  define st1 where "st1 = st\<lparr>primaryProvider := or_else (primaryProvider st) (Some pid)\<rparr>"
  define attempts where "attempts = load_of (attemptsByProvider st1) pid"
  have st1: "attemptsByProvider st1 = attemptsByProvider st" "sessionRebindRetries st1 = sessionRebindRetries st"
    by (simp_all add: st1_def)
  have up1: "counts_up st st1" by (rule counts_up_same) (rule st1)
  note run = run [unfolded x attempt_provider_def prod.case Let_def, folded pid_def, folded st1_def, folded attempts_def,
      unfolded provider_limit_peers]
  show ?thesis
  proof (cases "MAX_PEERS_PER_PROVIDER \<le> int attempts \<or> env_aborted env \<noteq> None \<or> (\<exists>e. env_health env pid = Inl e)")
    case True
    with run x ok st1 up1 show ?thesis by (auto simp: round_ok_def split: if_splits sum.splits option.splits)
  next
    case False
    then obtain h where h: "env_health env pid = Inr h" "env_aborted env = None" "int attempts < MAX_PEERS_PER_PROVIDER"
      by (metis not_le not_None_eq sum.exhaust)
    show ?thesis
    proof (cases "ph_state h = Unhealthy")
      case True
      have up: "counts_up st1 (st1\<lparr>attemptsByProvider := js_set (attemptsByProvider st1) pid (nat MAX_PEERS_PER_PROVIDER)\<rparr>)"
        by (rule counts_up_set) (use h(3) in \<open>simp_all add: attempts_def nat_le_iff\<close>)
      from True h run x ok st1 counts_up_trans [OF up1 up] show ?thesis by (auto simp: round_ok_def)
    next
      case healthy: False
      let ?st2 = "st1\<lparr>attemptsByProvider := js_set (attemptsByProvider st1) pid (attempts + 1)\<rparr>"
      have up: "counts_up st1 ?st2"
        by (rule counts_up_set) (use h(3) in \<open>simp_all add: attempts_def\<close>)
      from healthy h run have "establish env route protocol target recent session provider attempts (s, ?st2, prepared) = (r, y)"
        by simp
      note e = establish_slot [OF this, of ok T]
      have "ok \<longrightarrow> st_tunnels (fst (s, ?st2, prepared)) = T \<and> adapters_ok env \<and> provider \<in> set (env_providers env)"
        using ok x by simp
      note e = e [OF this]
      have "counts_up ?st2 (fst (snd y))" by (rule counts_up_same) (use e in simp)
      from counts_up_trans [OF counts_up_trans [OF up1 up] this] round_ok_start [of ok route T "(s, ?st2, prepared)" r y x] e x st1
      show ?thesis by simp
    qed
  qed
qed

lemma try_providers_ok:
  assumes "try_providers env route protocol target recent session ps x = (r, y)"
    and "ok \<longrightarrow> st_tunnels (fst x) = T \<and> adapters_ok env \<and> set ps \<subseteq> set (env_providers env)"
  shows "counts_up (fst (snd x)) (fst (snd y)) \<and> round_ok ok route T x r y \<and> r \<noteq> Inr Skipped"
  using assms
proof (induction ps arbitrary: x)
  case Nil
  then show ?case by (auto simp: round_ok_def counts_up_same)
next
  case (Cons p ps)
  obtain r1 y1 where one: "attempt_provider env route protocol target recent session p x = (r1, y1)" by (meson surj_pair)
  have e1: "counts_up (fst (snd x)) (fst (snd y1)) \<and> round_ok ok route T x r1 y1"
    by (rule attempt_provider_ok [OF one]) (use Cons.prems(2) in simp)
  show ?case
  proof (cases "r1 = Inr Skipped")
    case True
    with Cons.prems(1) one have rest: "try_providers env route protocol target recent session ps y1 = (r, y)" by simp
    have T1: "ok \<longrightarrow> st_tunnels (fst y1) = T \<and> adapters_ok env \<and> set ps \<subseteq> set (env_providers env)"
      and pace: "sessionRebindRetries (fst (snd y1)) = sessionRebindRetries (fst (snd x))"
      using e1 True Cons.prems(2) by (simp_all add: round_ok_def)
    from Cons.IH [OF rest T1] e1 round_ok_start [OF _ pace, of ok route T r y] show ?thesis
      by (auto intro: counts_up_trans)
  next
    case False
    with Cons.prems(1) one e1 show ?thesis by (cases r1) (auto simp: bind_op_def)
  qed
qed

lemma subseq_subset: "subseq xs ys \<Longrightarrow> set xs \<subseteq> set ys"
  by (induction rule: list_emb.induct) auto

lemma ranked_subset:
  assumes "rankProviders lc now ps route recent x = (Inr out, y)"
  shows "set out \<subseteq> set ps"
proof -
  obtain r x1 where sp: "score_providers lc now route recent 0 ps x = (r, x1)" by (meson surj_pair)
  note res = score_providers_result [OF sp]
  from assms sp obtain scored where r: "r = Inr scored" by (cases r) (auto simp: rankProviders_def bind_op_def)
  with res order_scored_perm [of scored lc route "snd x1"]
  obtain out' st2 where ord: "order_scored lc route scored (snd x1) = (Inr out', st2)" "mset out' = mset scored" by auto
  with assms sp r have "out = map sc_provider out'" by (auto simp: rankProviders_def)
  moreover from ord(2) have "set out' = set scored" by (rule mset_eq_setD)
  moreover have "set (map sc_provider scored) \<subseteq> set ps"
    by (rule subseq_subset) (use res r in simp)
  ultimately show ?thesis by simp
qed

lemma rank_eligible_subset:
  assumes "rank_eligible env route protocol target recent x = (Inr ps, y)"
  shows "set ps \<subseteq> set (env_providers env)"
proof -
  obtain s st prepared where x: "x = (s, st, prepared)" by (metis prod_cases3)
  let ?ps = "filter (\<lambda>p. providerCompatible p route (Some protocol) (Some target) (Some (ar_sessionMode route))
      \<and> (providerOverride route = None \<or> Some (desc_id (descriptor p)) = providerOverride route)) (env_providers env)"
  obtain r1 y1 where rank: "rankProviders (env_lc env) (env_now env) ?ps route recent (s, st) = (r1, y1)" by (meson surj_pair)
  from assms x rank obtain ranked where r1: "r1 = Inr ranked" and ps: "ps = take MAX_PROVIDERS_PER_OPERATION ranked"
    by (auto simp: rank_eligible_def split: sum.splits prod.splits)
  from ranked_subset [OF rank [unfolded r1]] have "set ranked \<subseteq> set ?ps" .
  with ps show ?thesis using set_take_subset [of MAX_PROVIDERS_PER_OPERATION ranked] by auto
qed

lemma resolve_round_ok:
  assumes run: "resolve_round env route protocol target x = (r, y)" 
    and ok: "ok \<longrightarrow> st_tunnels (fst x) = T \<and> adapters_ok env"
  shows "counts_up (fst (snd x)) (fst (snd y)) \<and> round_ok ok route T x r y \<and> r \<noteq> Inr Skipped"
proof -
  define recent where "recent = listUsageRecords (env_now env - evidenceWindowMs ROUTING_POLICY) (env_now env)
      (Some ROUTING_EVIDENCE_RECORD_LIMIT) True (fst x)"
  note run = run [unfolded resolve_round_def Let_def, folded recent_def]
  have still: "keeps x y \<Longrightarrow> r = Inl e \<Longrightarrow> ?thesis" for e
    using ok by (auto simp: keeps_def round_ok_def intro!: counts_up_same)
  show ?thesis
  proof (cases "route_status route = RouteReady \<and> assertProtocolAllowed route protocol = Inr ()")
    case False
    with run have "x = y \<and> (\<exists>e. r = Inl e)" by (cases "assertProtocolAllowed route protocol") (auto split: if_splits)
    with still show ?thesis by auto
  next
    case True
    obtain r1 y1 where one: "resume_session env route protocol target x = (r1, y1)" by (meson surj_pair)
    with resume_session_keeps [of x env route protocol target] have k1: "keeps x y1" by simp
    show ?thesis
    proof (cases r1)
      case (Inl e)
      with run True one have "y1 = y" "r = Inl e" by auto
      with k1 still show ?thesis by simp
    next
      case (Inr session)
      obtain r2 y2 where two: "rank_eligible env route protocol target recent y1 = (r2, y2)" by (meson surj_pair)
      with rank_eligible_keeps [of y1 env route protocol target recent] k1 have k2: "keeps x y2" by (auto intro: keeps_trans)
      show ?thesis
      proof (cases "\<exists>ps. r2 = Inr ps \<and> ps \<noteq> []")
        case False
        with run True one Inr two have "y2 = y \<and> (\<exists>e. r = Inl e)" by (cases r2) (auto simp: throw_op_def)
        with k2 still show ?thesis by auto
      next
        case nonempty: True
        then obtain ps where ps: "r2 = Inr ps" "ps \<noteq> []" by blast
        with run True one Inr two have "try_providers env route protocol target recent session ps y2 = (r, y)" by simp
        moreover from k2 ok have "ok \<longrightarrow> st_tunnels (fst y2) = T \<and> adapters_ok env \<and> set ps \<subseteq> set (env_providers env)"
          using rank_eligible_subset [OF two [unfolded ps(1)]] by (simp add: keeps_def)
        ultimately have e: "counts_up (fst (snd y2)) (fst (snd y)) \<and> round_ok ok route T y2 r y \<and> r \<noteq> Inr Skipped"
          by (rule try_providers_ok)
        have "counts_up (fst (snd x)) (fst (snd y2))" by (rule counts_up_same) (use k2 in \<open>simp add: keeps_def\<close>)
        with e k2 show ?thesis by (auto intro: counts_up_trans round_ok_start simp: keeps_def)
      qed
    qed
  qed
qed

lemma resolve_rounds_ok:
  assumes "resolve_rounds n env route protocol target x = (r, y)"
    and "ok \<longrightarrow> st_tunnels (fst x) = T \<and> adapters_ok env"
  shows "counts_up (fst (snd x)) (fst (snd y))
    \<and> (0 < n \<and> 3 \<le> n + sessionRebindRetries (fst (snd x)) \<longrightarrow> r \<noteq> Inr None)
    \<and> (ok \<longrightarrow> (case r of
         Inr (Some ep) \<Rightarrow> activeLoadClaimId ep \<noteq> None \<and> holds_slot route T (activeLoadClaimId ep) (fst y)
       | _ \<Rightarrow> st_tunnels (fst y) = T))"
  using assms
proof (induction n arbitrary: x)
  case 0
  then show ?case by (auto simp: counts_up_same)
next
  case (Suc n)
  obtain r1 y1 where one: "resolve_round env route protocol target x = (r1, y1)" by (meson surj_pair)
  note e1 = resolve_round_ok [OF one Suc.prems(2)]
  show ?case
  proof (cases "r1 = Inr Rebind")
    case False
    with Suc.prems(1) one e1 show ?thesis by (auto simp: bind_op_def round_ok_def split: sum.splits attempt.splits)
  next
    case True
    with Suc.prems(1) one have rest: "resolve_rounds n env route protocol target y1 = (r, y)" by simp
    from e1 True have again: "sessionRebindRetries (fst (snd x)) < 2"
        "sessionRebindRetries (fst (snd y1)) = Suc (sessionRebindRetries (fst (snd x)))"
        "ok \<longrightarrow> st_tunnels (fst y1) = T \<and> adapters_ok env"
      using Suc.prems(2) by (auto simp: round_ok_def)
    from Suc.IH [OF rest again(3)] again(1,2) e1 show ?thesis by (auto intro: counts_up_trans)
  qed
qed

subsection \<open>The properties of a resolution\<close>

text \<open>
  C9. A resolution always answers: however often other requests rebind the session meanwhile, three
  rounds end with an endpoint or an error, never with the recursion still going on.
\<close>

theorem resolve_terminates: "fst (resolve env route protocol target x) \<noteq> Inr None"
proof -
  obtain r y where run: "resolve_rounds 3 env route protocol target x = (r, y)" by (meson surj_pair)
  from resolve_rounds_ok [OF run, of False] run show ?thesis by (simp add: resolve_def)
qed

text \<open>
  A resolution never tries a provider more often than its budget allows: from a state within the
  budget, whatever the adapters, the store and other requests do, the attempts counted for every
  provider stay within the per-provider bound of the policy.
\<close>

theorem resolve_within_budget:
  assumes "within_budget st"
  shows "within_budget (fst (snd (snd (resolve env route protocol target (s, st, prepared)))))"
proof -
  obtain r y where run: "resolve_rounds 3 env route protocol target (s, st, prepared) = (r, y)" by (meson surj_pair)
  from resolve_rounds_ok [OF run, of False] run assms show ?thesis by (simp add: resolve_def counts_up_def)
qed

text \<open>
  C5. A resolution holds a slot exactly when it returns an endpoint. When it fails, on whichever path,
  the registered tunnels are those from before; when it succeeds, exactly one tunnel was added, under
  the claim the endpoint carries and for the client's own route, grant and session.
\<close>

theorem resolution_holds_one_slot:
  assumes "adapters_ok env"
  shows "case resolve env route protocol target (s, st, prepared) of
      (Inr (Some ep), s', _) \<Rightarrow> activeLoadClaimId ep \<noteq> None \<and> holds_slot route (st_tunnels s) (activeLoadClaimId ep) s'
    | (_, s', _) \<Rightarrow> st_tunnels s' = st_tunnels s"
proof -
  obtain r s' st' p' where run: "resolve_rounds 3 env route protocol target (s, st, prepared) = (r, s', st', p')"
    by (metis prod_cases4)
  from resolve_rounds_ok [OF run, of True "st_tunnels s"] run assms show ?thesis
    by (auto simp: resolve_def split: sum.splits option.splits)
qed

subsubsection \<open>A concrete resolution\<close>

definition sample_env :: ResolutionEnv where
  "sample_env =
     \<lparr>env_lc = code_unit_compare, env_now = 1000, env_deploymentId = ''dep'', env_logicalOperationId = ''op'',
      env_providers = [sample_adapter ''p'' Residential],
      env_health = (\<lambda>p. Inr \<lparr>ph_provider = p, ph_state = Healthy, ph_checkedAt = 0, ph_message = None\<rparr>),
      env_resolve = (\<lambda>_ _ _. Inr ((sample_upstream ''claim'')\<lparr>activeLoadClaimId := None\<rparr>)), env_prepare = (\<lambda>_. None),
      env_digest = (\<lambda>_. ''fp''), env_claimId = (\<lambda>n. ''claim-'' @ show_nat n), env_waited = 0, env_aborted = None,
      env_interfere = (\<lambda>_ s. s)\<rparr>"

lemma sample_env_ok: "adapters_ok sample_env"
  by (simp add: adapters_ok_def sample_env_def sample_adapter_def sample_capabilities_def sample_upstream_def)

definition sample_resolution :: "(exn + UpstreamEndpoint option) \<times> resolve_state" where
  "sample_resolution = resolve sample_env sample_auth_route Http \<lparr>pt_host = ''example.com'', pt_port = 80\<rparr>
     (empty_store, createResolutionState, [])"

lemma sample_resolution_served:
  "map_sum (\<lambda>_. ()) (map_option activeLoadClaimId) (fst sample_resolution) = Inr (Some (Some ''claim-0''))"
  by code_simp

lemma sample_resolution_outcome:
  "\<exists>ep s' y. sample_resolution = (Inr (Some ep), s', y) \<and> activeLoadClaimId ep = Some ''claim-0''"
proof -
  obtain r s' y where run: "sample_resolution = (r, s', y)" by (metis prod_cases3)
  from sample_resolution_served [unfolded run] have "\<exists>ep. r = Inr (Some ep) \<and> activeLoadClaimId ep = Some ''claim-0''"
    by (cases r) auto
  with run show ?thesis by blast
qed

theorem resolution_holds_one_slot_witness:
  "\<exists>ep s' y. sample_resolution = (Inr (Some ep), s', y)
     \<and> (\<exists>t. st_tunnels s' = [(''claim-0'', t)] \<and> tun_routeId t = ''r'' \<and> tun_accessGrantId t = ''g'' \<and> tun_sessionId t = None)"
proof -
  obtain ep s' y where run: "sample_resolution = (Inr (Some ep), s', y)" and claim: "activeLoadClaimId ep = Some ''claim-0''"
    using sample_resolution_outcome by blast
  from resolution_holds_one_slot [OF sample_env_ok, where route = sample_auth_route and protocol = Http
      and target = "\<lparr>pt_host = ''example.com'', pt_port = 80\<rparr>" and s = empty_store and st = createResolutionState
      and prepared = "[]"] run
  have "holds_slot sample_auth_route (st_tunnels empty_store) (Some ''claim-0'') s'"
    by (simp add: sample_resolution_def claim)
  then have "\<exists>t. st_tunnels s' = [(''claim-0'', t)] \<and> tun_routeId t = ''r'' \<and> tun_accessGrantId t = ''g'' \<and> tun_sessionId t = None"
    by (auto simp: holds_slot_def empty_store_def sample_auth_route_def js_set_def)
  with run show ?thesis by blast
qed

theorem resolve_within_budget_witness:
  "within_budget createResolutionState \<and> within_budget (fst (snd (snd sample_resolution)))"
proof -
  have start: "within_budget createResolutionState"
    by (simp add: within_budget_def createResolutionState_def)
  with resolve_within_budget [OF start, where env = sample_env and route = sample_auth_route and protocol = Http
      and target = "\<lparr>pt_host = ''example.com'', pt_port = 80\<rparr>" and s = empty_store and prepared = "[]"]
  show ?thesis by (simp add: sample_resolution_def)
qed

text \<open>
  What the assumption on adapters excludes: an adapter that answers with a protocol it never declared
  makes the attempt fail with the slot still registered.
\<close>

lemma undeclared_protocol_leaks_slot:
  assumes "env_resolve env (desc_id (descriptor provider)) route
      (resolve_options env route protocol target attempts (Some c) (fst (snd x))) = Inr ep"
    and "\<not> has (upstreamProtocols (capabilities (descriptor provider))) (ep_protocol ep)"
    and "holds_slot route T (Some (sel_activeLoadClaimId c)) (fst x)"
  shows "\<exists>e y. materialize env provider route protocol target attempts (Some c) x = (Inl e, y)
    \<and> holds_slot route T (Some (sel_activeLoadClaimId c)) (fst y)"
  using assms by (cases x) (simp add: materialize_def Let_def)

end
