(* ===== verification/Route_Service.thy ===== *)
theory Route_Service
  imports Access_Grants Authentication Resolution_Safety
begin

text \<open>
  \<open>src/route-service.ts\<close>, the facade: lines 129 to 174, 389 to 508 and 951 to 963. A gateway task is the
  store it shares with others, its cache of authorizations and its tracker of connections. Every
  operation of the control plane is performed by \<open>route-administration.ts\<close> or \<open>access-grant-service.ts\<close>;
  those that withdraw something also empty the cache, and the requests to cut connections go to the
  tracker.
\<close>

type_synonym gateway = "StoreState \<times> AuthorizationCache \<times> ActiveConnectionTracker"
type_synonym 'a gateway_op = "(exn, gateway, 'a) op"

record RouteServiceDependencies =
  dep_hash :: token_hash
  dep_digest :: "string \<Rightarrow> string"
  dep_options :: AccessGrantServiceOptions
  dep_providers :: "ProviderAdapter list"
  dep_retryDefaults :: RetryPolicy
  dep_deploymentId :: string

subsection \<open>Construction\<close>

fun register_providers :: "(ProviderId, ProviderAdapter) js_map \<Rightarrow> ProviderAdapter list \<Rightarrow> (ProviderId, ProviderAdapter) js_map result" where
  "register_providers m [] = Inr m"
| "register_providers m (p # ps) =
     (let i = desc_id (descriptor p)
      in if trim i = [] \<or> i = ''unresolved'' then Inl (throw_error (''Invalid provider adapter ID: '' @ i))
         else if js_has m i then Inl (throw_error (''Duplicate provider adapter: '' @ i))
         else register_providers (js_set m i p) ps)"

definition construct_service :: "ProviderAdapter list \<Rightarrow> ((ProviderId, ProviderAdapter) js_map \<times> AuthorizationCache \<times> ActiveConnectionTracker) result" where
  "construct_service ps =
     (case register_providers [] ps of
        Inl e \<Rightarrow> Inl e
      | Inr m \<Rightarrow> if m = [] then Inl (throw_error ''At least one provider adapter is required'')
                else Inr (m, new_cache, new_tracker))"

definition descriptors :: "(ProviderId, ProviderAdapter) js_map \<Rightarrow> ProviderDescriptor list" where
  "descriptors m = map descriptor (js_values m)"

subsection \<open>The control plane\<close>

definition cut_requested :: "termination_request \<Rightarrow> ActiveConnectionTracker \<Rightarrow> ActiveConnectionTracker" where
  "cut_requested q = (case q of TerminateGrant g \<Rightarrow> terminateGrant g | TerminateSession i \<Rightarrow> terminateSession i)"

definition administer :: "'a service_op \<Rightarrow> 'a gateway_op" where
  "administer m gw =
     (case gw of (s, c, tr) \<Rightarrow> case m (s, []) of (r, s, qs) \<Rightarrow> (r, s, c, fold cut_requested qs tr))"

definition invalidateAfter :: "'a gateway_op \<Rightarrow> 'a gateway_op" where
  "invalidateAfter m = bind_op m (\<lambda>a gw. case gw of (s, c, tr) \<Rightarrow> (Inr a, s, invalidateAuthorizationCache c, tr))"

definition service_create :: "RouteServiceDependencies \<Rightarrow> timestamp \<Rightarrow> string \<Rightarrow> RouteProfilePayload result \<Rightarrow> string \<Rightarrow> PublicRoute gateway_op" where
  "service_create d now rid decoded owner = administer (admin_create (dep_providers d) now rid decoded owner (dep_retryDefaults d))"

definition service_update :: "RouteServiceDependencies \<Rightarrow> timestamp \<Rightarrow> string \<Rightarrow> RouteProfilePayload result \<Rightarrow> string \<Rightarrow> PublicRoute gateway_op" where
  "service_update d now rid decoded owner =
     invalidateAfter (administer (admin_update (dep_providers d) now rid decoded owner (dep_retryDefaults d)))"

definition service_createAccessGrant :: "RouteServiceDependencies \<Rightarrow> timestamp \<Rightarrow> Fresh \<Rightarrow> string \<Rightarrow> string \<Rightarrow> json \<Rightarrow> IssuedAccessGrant gateway_op" where
  "service_createAccessGrant d now f rid owner input = administer (grant_create (dep_hash d) (dep_options d) now f rid owner input)"

definition service_rotateAccessGrantCredential ::
  "RouteServiceDependencies \<Rightarrow> timestamp \<Rightarrow> Fresh \<Rightarrow> string \<Rightarrow> string \<Rightarrow> string \<Rightarrow> bool \<Rightarrow> IssuedAccessGrant gateway_op" where
  "service_rotateAccessGrantCredential d now f gid prev owner sus =
     invalidateAfter (administer (rotateCredential (dep_hash d) (dep_options d) now f gid prev owner sus))"

definition service_createManagedSession :: "RouteServiceDependencies \<Rightarrow> timestamp \<Rightarrow> Fresh \<Rightarrow> string \<Rightarrow> string \<Rightarrow> IssuedAccessGrant gateway_op" where
  "service_createManagedSession d now f gid owner = administer (createManagedSession (dep_hash d) (dep_options d) now f gid owner)"

definition service_createStatelessCredential :: "RouteServiceDependencies \<Rightarrow> timestamp \<Rightarrow> Fresh \<Rightarrow> string \<Rightarrow> string \<Rightarrow> IssuedAccessGrant gateway_op" where
  "service_createStatelessCredential d now f gid owner =
     administer (createStatelessCredential (dep_hash d) (dep_options d) now f gid owner)"

definition service_closeLogicalSession :: "timestamp \<Rightarrow> string \<Rightarrow> string \<Rightarrow> string \<Rightarrow> bool \<Rightarrow> unit gateway_op" where
  "service_closeLogicalSession now gid sid owner force = invalidateAfter (administer (svc_closeLogicalSession now gid sid owner force))"

definition service_revokeAccessGrantCredential :: "timestamp \<Rightarrow> string \<Rightarrow> string \<Rightarrow> string \<Rightarrow> unit gateway_op" where
  "service_revokeAccessGrantCredential now gid cid owner = invalidateAfter (administer (revokeCredential now gid cid owner))"

definition service_revokeAccessGrant :: "timestamp \<Rightarrow> string \<Rightarrow> string \<Rightarrow> bool \<Rightarrow> unit gateway_op" where
  "service_revokeAccessGrant now gid owner terminate = invalidateAfter (administer (grant_revoke now gid owner terminate))"

definition service_delete :: "timestamp \<Rightarrow> string \<Rightarrow> string \<Rightarrow> unit gateway_op" where
  "service_delete now rid owner = invalidateAfter (administer (admin_delete now rid owner))"

definition service_emergencyRevoke :: "timestamp \<Rightarrow> string \<Rightarrow> unit gateway_op" where
  "service_emergencyRevoke now rid =
     bind_op (invalidateAfter (administer (emergencyRevoke now rid)))
       (\<lambda>_ gw. case gw of (s, c, tr) \<Rightarrow> (Inr (), s, c, terminateRoute rid tr))"

text \<open>Reading: \<open>list\<close>, \<open>get\<close>, \<open>listAccessGrants\<close>, \<open>getAccessGrant\<close>, \<open>getAccessGrantCredential\<close>, the sessions.\<close>

definition service_list :: "string \<Rightarrow> PublicRoute list gateway_op" where
  "service_list owner = administer (admin_list owner)"

definition service_get :: "string \<Rightarrow> string \<Rightarrow> PublicRoute gateway_op" where
  "service_get rid owner = administer (admin_get rid owner)"

definition service_listAccessGrants :: "timestamp \<Rightarrow> string \<Rightarrow> string \<Rightarrow> PublicAccessGrant list gateway_op" where
  "service_listAccessGrants now rid owner = administer (grant_list now rid owner)"

definition service_getAccessGrant :: "timestamp \<Rightarrow> string \<Rightarrow> string \<Rightarrow> PublicAccessGrant gateway_op" where
  "service_getAccessGrant now gid owner = administer (grant_get now gid owner)"

definition service_getAccessGrantCredential :: "timestamp \<Rightarrow> string \<Rightarrow> string \<Rightarrow> string \<Rightarrow> PublicAccessGrantCredential gateway_op" where
  "service_getAccessGrantCredential now gid cid owner = administer (getCredential now gid cid owner)"

definition service_listLogicalSessions :: "string \<Rightarrow> string \<Rightarrow> PublicLogicalSession list gateway_op" where
  "service_listLogicalSessions gid owner = administer (svc_listLogicalSessions gid owner)"

definition service_getLogicalSession :: "string \<Rightarrow> string \<Rightarrow> string \<Rightarrow> PublicLogicalSession gateway_op" where
  "service_getLogicalSession gid sid owner = administer (svc_getLogicalSession gid sid owner)"

subsection \<open>Usage and health\<close>

text \<open>A record is priced with the provider's tariff at the time it is written.\<close>

definition service_recordUsage :: "ProviderAdapter list \<Rightarrow> UsageRecord \<Rightarrow> StoreState \<Rightarrow> bool \<times> StoreState" where
  "service_recordUsage providers r s =
     (let d = (if ur_provider r = ''unresolved'' then None
               else map_option descriptor (List.find (\<lambda>p. desc_id (descriptor p) = ur_provider r) providers));
          r = r\<lparr>ur_kind := Attempt\<rparr>
      in recordUsage (case d of
           None \<Rightarrow> r\<lparr>pricingVersion := None, pricingModel := None, priceUsd := None\<rparr>
         | Some x \<Rightarrow> r\<lparr>pricingVersion := Some (pricing_version x), pricingModel := Some (pricing_model x),
                       priceUsd := Some (amountUsd x)\<rparr>) s)"

fun collect_health :: "(ProviderId \<Rightarrow> ProviderHealth result) \<Rightarrow> ProviderAdapter list \<Rightarrow> ProviderHealth list result" where
  "collect_health health [] = Inr []"
| "collect_health health (p # ps) =
     (case health (desc_id (descriptor p)) of
        Inl e \<Rightarrow> Inl e
      | Inr h \<Rightarrow> (case collect_health health ps of Inl e \<Rightarrow> Inl e | Inr hs \<Rightarrow> Inr (h # hs)))"

definition refreshHealth :: "(ProviderId \<Rightarrow> ProviderHealth result) \<Rightarrow> ProviderAdapter list \<Rightarrow> ProviderHealth list store_op" where
  "refreshHealth health providers s =
     (case collect_health health providers of
        Inl e \<Rightarrow> (Inl e, s)
      | Inr hs \<Rightarrow> (Inr hs, fold saveHealth hs s))"

definition service_ready :: "(ProviderId \<Rightarrow> ProviderHealth result) \<Rightarrow> ProviderAdapter list \<Rightarrow> bool store_op" where
  "service_ready health providers =
     bind_op (refreshHealth health providers) (\<lambda>hs. return_op (list_ex (\<lambda>h. ph_state h \<noteq> Unhealthy) hs))"

subsection \<open>Calls of the service\<close>

datatype service_call =
    CallCreate timestamp string "RouteProfilePayload result" string
  | CallUpdate timestamp string "RouteProfilePayload result" string
  | CallCreateGrant timestamp Fresh string string json
  | CallRotate timestamp Fresh string string string bool
  | CallManagedSession timestamp Fresh string string
  | CallStatelessCredential timestamp Fresh string string
  | CallCloseSession timestamp string string string bool
  | CallRevokeCredential timestamp string string string
  | CallRevokeGrant timestamp string string bool
  | CallDelete timestamp string string
  | CallEmergencyRevoke timestamp string
  | CallAuthenticate timestamp string string
  | CallAdmit timestamp string string "string option"
  | CallTrack timestamp string string string "string option" DataPlaneProtocol UpstreamEndpoint callback
  | CallFinish timestamp FinishHandle
  | CallPoll timestamp
  | CallRelease timestamp UpstreamEndpoint

primrec call_time :: "service_call \<Rightarrow> timestamp" where
  "call_time (CallCreate now rid p owner) = now"
| "call_time (CallUpdate now rid p owner) = now"
| "call_time (CallCreateGrant now f rid owner input) = now"
| "call_time (CallRotate now f gid prev owner sus) = now"
| "call_time (CallManagedSession now f gid owner) = now"
| "call_time (CallStatelessCredential now f gid owner) = now"
| "call_time (CallCloseSession now gid sid owner force) = now"
| "call_time (CallRevokeCredential now gid cid owner) = now"
| "call_time (CallRevokeGrant now gid owner t) = now"
| "call_time (CallDelete now rid owner) = now"
| "call_time (CallEmergencyRevoke now rid) = now"
| "call_time (CallAuthenticate now user tok) = now"
| "call_time (CallAdmit now rid gid sid) = now"
| "call_time (CallTrack now fresh rid gid sid protocol upstream cb) = now"
| "call_time (CallFinish now h) = now"
| "call_time (CallPoll now) = now"
| "call_time (CallRelease now upstream) = now"

definition on_tracker :: "(StoreState \<times> ActiveConnectionTracker \<Rightarrow> StoreState \<times> ActiveConnectionTracker) \<Rightarrow> gateway \<Rightarrow> gateway" where
  "on_tracker f gw = (case gw of (s, c, tr) \<Rightarrow> case f (s, tr) of (s, tr) \<Rightarrow> (s, c, tr))"

primrec exec_call :: "RouteServiceDependencies \<Rightarrow> service_call \<Rightarrow> gateway \<Rightarrow> gateway" where
  "exec_call d (CallCreate now rid p owner) gw = snd (service_create d now rid p owner gw)"
| "exec_call d (CallUpdate now rid p owner) gw = snd (service_update d now rid p owner gw)"
| "exec_call d (CallCreateGrant now f rid owner input) gw = snd (service_createAccessGrant d now f rid owner input gw)"
| "exec_call d (CallRotate now f gid prev owner sus) gw = snd (service_rotateAccessGrantCredential d now f gid prev owner sus gw)"
| "exec_call d (CallManagedSession now f gid owner) gw = snd (service_createManagedSession d now f gid owner gw)"
| "exec_call d (CallStatelessCredential now f gid owner) gw = snd (service_createStatelessCredential d now f gid owner gw)"
| "exec_call d (CallCloseSession now gid sid owner force) gw = snd (service_closeLogicalSession now gid sid owner force gw)"
| "exec_call d (CallRevokeCredential now gid cid owner) gw = snd (service_revokeAccessGrantCredential now gid cid owner gw)"
| "exec_call d (CallRevokeGrant now gid owner t) gw = snd (service_revokeAccessGrant now gid owner t gw)"
| "exec_call d (CallDelete now rid owner) gw = snd (service_delete now rid owner gw)"
| "exec_call d (CallEmergencyRevoke now rid) gw = snd (service_emergencyRevoke now rid gw)"
| "exec_call d (CallAuthenticate now user tok) gw =
     (case gw of (s, c, tr) \<Rightarrow> case authenticate (dep_hash d) (dep_digest d) now user tok (s, c) of (_, s, c) \<Rightarrow> (s, c, tr))"
| "exec_call d (CallAdmit now rid gid sid) gw = gw"
| "exec_call d (CallTrack now fresh rid gid sid protocol upstream cb) gw =
     on_tracker (\<lambda>st. snd (track now (dep_deploymentId d) fresh rid gid sid protocol upstream cb st)) gw"
| "exec_call d (CallFinish now h) gw = on_tracker (finish now h) gw"
| "exec_call d (CallPoll now) gw = on_tracker (poll now (dep_deploymentId d)) gw"
| "exec_call d (CallRelease now upstream) gw = on_tracker (\<lambda>(s, tr). (snd (release upstream s), tr)) gw"

subsection \<open>Every call is a run of store commands\<close>

definition reaches :: "token_hash \<Rightarrow> StoreState \<Rightarrow> StoreState \<Rightarrow> bool" where
  "reaches hash s s' \<longleftrightarrow> (\<exists>cmds. s' = run hash cmds s)"

lemma run_append: "run hash (a @ b) s = run hash b (run hash a s)"
  by (induction a arbitrary: s) auto

lemma reaches_refl [simp]: "reaches hash s s"
  unfolding reaches_def by (rule exI [of _ "[]"]) simp

lemma reaches_trans: "reaches hash s s' \<Longrightarrow> reaches hash s' s'' \<Longrightarrow> reaches hash s s''"
  unfolding reaches_def by (metis run_append)

lemma reaches_exec: "s' = exec hash c s \<Longrightarrow> reaches hash s s'"
  unfolding reaches_def by (rule exI [of _ "[c]"]) simp

definition commands :: "token_hash \<Rightarrow> 'a service_op \<Rightarrow> bool" where
  "commands hash m \<longleftrightarrow> (\<forall>st. reaches hash (fst st) (fst (snd (m st))))"

named_theorems command_ops

lemma commands_bind [command_ops]: "commands hash m \<Longrightarrow> (\<And>a. commands hash (f a)) \<Longrightarrow> commands hash (bind_op m f)"
  unfolding commands_def
  by (intro allI bind_op_keeps [where R = "\<lambda>x y. reaches hash (fst x) (fst y)"]) (auto intro: reaches_trans)

lemma commands_pure [command_ops]:
  "commands hash (return_op a)" "commands hash (throw_op e)" "commands hash (lift_result r)" "commands hash (request_termination q)"
  by (simp_all add: commands_def lift_result_def request_termination_def)

lemma commands_lift: "(\<And>s. \<exists>c. snd (m s) = exec hash c s) \<Longrightarrow> commands hash (lift_store m)"
  unfolding commands_def lift_store_def by (auto split: prod.split) (metis reaches_exec snd_conv)

lemma commands_store [command_ops]:
  "commands hash (lift_store (createAccessGrant hash salt now gid rid owner cid tok mode sid jid))"
  "commands hash (lift_store (createLogicalSession x))"
  "commands hash (lift_store (addAccessGrantCredential hash salt now gid cid tok mode sid))"
  "commands hash (lift_store (closeLogicalSession now force i))"
  "commands hash (lift_store (rotateAccessGrantCredential hash salt now gid prev cid tok sus))"
  "commands hash (lift_store (revokeAccessGrantCredential now gid cid))"
  "commands hash (lift_store (revokeAccessGrant now gid t))"
  "commands hash (lift_store (route_create now rid p))"
  "commands hash (lift_store (route_update now rid p))"
  "commands hash (lift_store (route_revoke now rid t))"
  by (rule commands_lift, metis exec.simps)+

lemma commands_reads [command_ops]:
  "commands hash (ownedAccessGrant gid owner b)" "commands hash (owned_route rid owner b)"
  "commands hash (grant_session gid i)" "commands hash (grants_of_route rid)"
  "commands hash (require_provider ps p msg)"
  by (auto simp: commands_def ownedAccessGrant_def owned_route_def grant_session_def grants_of_route_def require_provider_def
      split: sum.split option.split)

lemma commands_for_each [command_ops]: "(\<And>x. commands hash (f x)) \<Longrightarrow> commands hash (for_each_op f xs)"
proof (induction xs)
  case Nil
  then show ?case by (simp add: commands_def)
next
  case (Cons x xs)
  have "for_each_op f (x # xs) = bind_op (f x) (\<lambda>_. for_each_op f xs)" by (rule ext) simp
  with Cons show ?case by (auto intro: commands_bind)
qed

lemma commands_admin:
  "commands hash (admin_create ps now rid p owner retry)"
  "commands hash (admin_update ps now rid p owner retry)"
  "commands hash (grant_create hash opts now f rid owner input)"
  "commands hash (rotateCredential hash opts now f gid prev owner sus)"
  "commands hash (createManagedSession hash opts now f gid owner)"
  "commands hash (createStatelessCredential hash opts now f gid owner)"
  "commands hash (svc_closeLogicalSession now gid i owner force)"
  "commands hash (revokeCredential now gid cid owner)"
  "commands hash (grant_revoke now gid owner t)"
  "commands hash (admin_delete now rid owner)"
  "commands hash (emergencyRevoke now rid)"
  unfolding admin_create_def admin_update_def grant_create_def issue_def rotateCredential_def createManagedSession_def
    createStatelessCredential_def svc_closeLogicalSession_def revokeCredential_def grant_revoke_def admin_delete_def
    emergencyRevoke_def Let_def
  by (auto intro!: command_ops split: option.split prod.split)

text \<open>The tracker's use of the store.\<close>

lemma reaches_poll: "reaches hash s (fst (poll now did (s, tr)))"
proof -
  have beats: "reaches hash s (foldl (\<lambda>s (cid, c). if now < tc_nextHeartbeatAt c then s
      else heartbeatActiveTunnel cid now (now + ACTIVE_CONNECTION_TTL_MS) s) s cs)" for cs
  proof (induction cs arbitrary: s)
    case (Cons x cs)
    obtain cid c where x: "x = (cid, c)" by (meson surj_pair)
    let ?s = "if now < tc_nextHeartbeatAt c then s else heartbeatActiveTunnel cid now (now + ACTIVE_CONNECTION_TTL_MS) s"
    have "reaches hash s ?s"
      using reaches_exec [of ?s hash "CmdHeartbeat cid now (now + ACTIVE_CONNECTION_TTL_MS)" s] by simp
    from reaches_trans [OF this Cons.IH [of ?s]] x show ?case by simp
  qed simp
  show ?thesis
  proof (cases "tr_connections tr = []")
    case False
    show ?thesis
      unfolding poll_def poll_heartbeats_def fst_conv snd_conv if_not_P [OF False] by (rule beats)
  qed (simp add: poll_def)
qed

lemma reaches_track: "reaches hash s (fst (snd (track now did fresh rid gid sid protocol upstream cb (s, tr))))"
proof -
  have poller: "reaches hash s (fst (startPoller now did (s, tr)))" for s tr
    using reaches_poll [of hash s now did tr] by (auto simp: startPoller_def split: prod.split)
  have claim: "reaches hash s (heartbeatActiveTunnel i a b s)" for i a b s
    by (rule reaches_exec [of _ _ "CmdHeartbeat i a b"]) simp
  have fresh: "registerActiveTunnel x s = (r, s1) \<Longrightarrow> reaches hash s s1" for x r s1
    by (rule reaches_exec [of _ _ "CmdRegisterTunnel x"]) simp
  show ?thesis
    using claim fresh poller
    by (auto simp: track_def Let_def split: option.split prod.split sum.split) (metis reaches_trans poller fst_conv)+
qed

lemma reaches_finish: "reaches hash s (fst (finish now h (s, tr)))"
proof -
  have gone: "reaches hash s (removeActiveTunnel i s)" for i s
    by (rule reaches_exec [of _ _ "CmdRemoveTunnel i"]) simp
  have saved: "reaches hash s (snd (saveLogicalSession x v s))" for x v s
    by (rule reaches_exec [of _ _ "CmdSaveSession x v"]) simp
  have "reaches hash s (recordDisconnect now i s)" for i s
    by (auto simp: recordDisconnect_def saved split: sum.split)
  from gone reaches_trans [OF gone this] show ?thesis by (auto simp: finish_def Let_def split: option.split)
qed

lemma reaches_release: "reaches hash s (snd (release upstream s))"
  by (auto simp: release_def intro: reaches_exec [of _ _ "CmdRemoveTunnel i" for i] split: option.split)

subsection \<open>The service refines the gateway\<close>

lemma reaches_gateway_run: "reaches hash s s' \<Longrightarrow> gateway_run hash digest (t, s, c) (t, s', c)"
proof -
  have "gateway_run hash digest (t, s, c) (t, run hash cmds s, c)" for cmds
  proof (induction cmds arbitrary: s)
    case (Cons cmd cmds)
    have "gateway_step hash digest (t, s, c) (t, exec hash cmd s, c)" by (rule gateway_step.store)
    with Cons.IH [of "exec hash cmd s"] show ?case by (simp add: converse_rtranclp_into_rtranclp)
  qed simp
  then show "reaches hash s s' \<Longrightarrow> ?thesis" by (auto simp: reaches_def)
qed

definition simulated :: "RouteServiceDependencies \<Rightarrow> gateway \<Rightarrow> gateway \<Rightarrow> bool" where
  "simulated d x y \<longleftrightarrow>
     (\<forall>t. gateway_run (dep_hash d) (dep_digest d) (t, fst x, fst (snd x)) (t, fst y, fst (snd y)))"

lemma simulated_trans: "simulated d x y \<Longrightarrow> simulated d y z \<Longrightarrow> simulated d x z"
  unfolding simulated_def using rtranclp_trans by fast

lemma administer_simulated:
  assumes "commands (dep_hash d) m"
  shows "simulated d gw (snd (administer m gw))"
proof (cases gw)
  case (fields s c tr)
  from assms have "reaches (dep_hash d) s (fst (snd (m (s, []))))" unfolding commands_def by (metis fst_conv)
  with fields show ?thesis by (auto simp: simulated_def administer_def intro: reaches_gateway_run split: prod.split)
qed

lemma invalidateAfter_simulated:
  assumes "\<And>gw. simulated d gw (snd (m gw))"
  shows "simulated d gw (snd (invalidateAfter m gw))"
  unfolding invalidateAfter_def
proof (rule bind_op_keeps [where R = "simulated d"])
  show "simulated d gw (snd (case gw of (s, c, tr) \<Rightarrow> (Inr a, s, invalidateAuthorizationCache c, tr)))" for a gw
    by (cases gw) (auto simp: simulated_def intro: gateway_step.invalidate)
qed (use assms simulated_trans in blast)+

lemma on_tracker_simulated:
  assumes "\<And>s tr. reaches (dep_hash d) s (fst (f (s, tr)))"
  shows "simulated d gw (on_tracker f gw)"
proof (cases gw)
  case (fields s c tr)
  obtain s' tr' where f: "f (s, tr) = (s', tr')" by (meson surj_pair)
  with assms [of s tr] have "reaches (dep_hash d) s s'" by simp
  with fields f show ?thesis by (simp add: simulated_def on_tracker_def reaches_gateway_run)
qed

lemmas service_defs =
  service_create_def service_update_def service_createAccessGrant_def service_rotateAccessGrantCredential_def
  service_createManagedSession_def service_createStatelessCredential_def service_closeLogicalSession_def
  service_revokeAccessGrantCredential_def service_revokeAccessGrant_def service_delete_def

lemma emergencyRevoke_simulated: "simulated d gw (snd (service_emergencyRevoke now rid gw))"
  unfolding service_emergencyRevoke_def
proof (rule bind_op_keeps [where R = "simulated d"])
  show "simulated d gw (snd (case gw of (s, c, tr) \<Rightarrow> (Inr (), s, c, terminateRoute rid tr)))" for gw
    by (cases gw) (simp add: simulated_def)
  show "simulated d gw (snd (invalidateAfter (administer (emergencyRevoke now rid)) gw))" for gw
    by (intro invalidateAfter_simulated administer_simulated commands_admin)
qed (rule simulated_trans)



subsection \<open>Withdrawal at the gateway that performs it\<close>

text \<open>Nothing the cache holds was withdrawn when the store was \<open>s0\<close>, and what was withdrawn then still is.\<close>

definition clean :: "StoreState \<Rightarrow> timestamp \<times> StoreState \<times> AuthorizationCache \<Rightarrow> bool" where
  "clean s0 x = (case x of (t, s, c) \<Rightarrow>
     cache_inv (t, s, c) \<and> (\<forall>route. withdrawn s0 route \<longrightarrow> withdrawn s route) \<and> all_routes (\<lambda>route. \<not> withdrawn s0 route) c)"

lemma clean_refresh: "clean s0 (t, s, c) \<Longrightarrow> all_routes (\<lambda>route. \<not> withdrawn s0 route) (refreshAuthorizationEpoch t s c)"
  by (auto simp: clean_def refreshAuthorizationEpoch_def)

lemma clean_step:
  assumes "gateway_step hash digest x y" and "clean s0 x"
  shows "clean s0 y"
proof -
  from assms cache_inv_step [OF assms(1)] have inv': "cache_inv y" by (auto simp: clean_def split: prod.splits)
  from assms(1) show ?thesis
  proof cases
    case (store t s c cmd)
    with assms(2) inv' show ?thesis by (auto simp: clean_def cache_inv_def intro: withdrawn_exec)
  next
    case (login t username token s c r s' c')
    have st: "clean s0 (t, s, c)" using login assms(2) by simp
    then have inv: "cache_inv (t, s, c)" "store_inv s" by (simp_all add: clean_def cache_inv_def)
    have ok: "cache_ok (refreshAuthorizationEpoch t s c)" using refresh_inv [OF inv(1)] by (simp add: cache_inv_def)
    have fresh: "\<forall>x. live s x \<longrightarrow> \<not> withdrawn s0 x" using st by (auto simp: clean_def dest: withdrawn_not_live)
    from inv(2) login(3) ok clean_refresh [OF st] fresh show ?thesis
    proof (cases rule: authenticate_cases_login [where Q = "\<lambda>x. \<not> withdrawn s0 x"])
      case (malformed e)
      with login st inv' show ?thesis by simp
    next
      case served
      from served(6) st have "withdrawn s' x" if "withdrawn s0 x" for x
        using that withdrawn_exec [OF inv(2), of x hash "CmdAuthenticate t username token"] by (auto simp: clean_def)
      with login served inv' st show ?thesis by (auto simp: clean_def)
    qed
  qed (use assms(2) inv' in \<open>auto simp: clean_def invalidateAuthorizationCache_def\<close>)
qed

lemma clean_run: "gateway_run hash digest x y \<Longrightarrow> clean s0 x \<Longrightarrow> clean s0 y"
  by (induction rule: rtranclp_induct) (auto intro: clean_step)

lemma clean_login:
  assumes st: "clean s0 (t, s, c)" and login: "authenticate hash digest t username token (s, c) = (Inr route, s', c')"
  shows "\<not> withdrawn s0 route"
proof -
  have inv: "cache_inv (t, s, c)" "store_inv s" using st by (simp_all add: clean_def cache_inv_def)
  have ok: "cache_ok (refreshAuthorizationEpoch t s c)" using refresh_inv [OF inv(1)] by (simp add: cache_inv_def)
  have fresh: "\<forall>x. live s x \<longrightarrow> \<not> withdrawn s0 x" using st by (auto simp: clean_def dest: withdrawn_not_live)
  from inv(2) login ok clean_refresh [OF st] fresh show ?thesis
    by (cases rule: authenticate_cases_login [where Q = "\<lambda>x. \<not> withdrawn s0 x"]) auto
qed

lemma clean_invalidated: "store_inv s \<Longrightarrow> clean s (t, s, invalidateAuthorizationCache c)"
  by (simp add: clean_def cache_inv_def cache_ok_def invalidateAuthorizationCache_def store_inv_def)

lemma cut_requested_frame: "\<exists>cut. cut_requested q tr = tr\<lparr>tr_terminated := tr_terminated tr @ cut\<rparr>"
  by (cases q) (auto simp: cut_requested_def terminateGrant_def terminateSession_def call_all_def)

lemma cuts_frame: "\<exists>cut. fold cut_requested qs tr = tr\<lparr>tr_terminated := tr_terminated tr @ cut\<rparr>"
proof (induction qs arbitrary: tr)
  case Nil
  show ?case by (rule exI [of _ "[]"]) simp
next
  case (Cons q qs)
  obtain a where a: "cut_requested q tr = tr\<lparr>tr_terminated := tr_terminated tr @ a\<rparr>" using cut_requested_frame by blast
  obtain b where "fold cut_requested qs (cut_requested q tr)
      = (cut_requested q tr)\<lparr>tr_terminated := tr_terminated (cut_requested q tr) @ b\<rparr>" using Cons.IH by blast
  with a show ?case by (intro exI [of _ "a @ b"]) simp
qed

lemma emergency_run:
  assumes inv: "store_inv s" and r: "js_get (st_routes s) rid = Some r" "route_status r \<noteq> RouteRevoked"
  obtains s' qs where "emergencyRevoke now rid (s, []) = (Inr (), s', qs)" "store_inv s'"
    "\<And>route. route_id route = rid \<Longrightarrow> withdrawn s' route"
proof -
  obtain gs s1 s2 where e: "listAccessGrants rid None s = Inr gs"
    "for_each_op (\<lambda>g. revokeAccessGrant now (grant_id g) True) gs s = (Inr (), s1)"
    "route_revoke now rid True s1 = (Inr (), s2)" "route_get rid False s2 = Inl (throw notFoundError)"
    by (rule revoke_route_grants [OF inv r, of now True]) blast
  have run: "emergencyRevoke now rid (s, []) = (Inr (), s2, map (\<lambda>g. TerminateGrant (grant_id g)) gs)"
    using e(1,3) lift_for_each_request [OF e(2), of "\<lambda>g. TerminateGrant (grant_id g)" "[]"]
    by (simp add: emergencyRevoke_def grants_of_route_def bind_op_def lift_store_def)
  have "commands sample_hash (emergencyRevoke now rid)" by (rule commands_admin)
  with run obtain cmds where s2: "s2 = run sample_hash cmds s" unfolding commands_def reaches_def by (metis fst_conv snd_conv)
  then obtain r' where "js_get (st_routes s2) rid = Some r'" using routes.run_evolves [OF inv r(1)] by blast
  with e(4) have "withdrawn s2 route" if "route_id route = rid" for route
    using that by (auto simp: withdrawn_def route_get_def split: if_splits)
  moreover have "store_inv s2" unfolding s2 by (rule wf.run_keeps [OF inv])
  ultimately show thesis using that run by blast
qed



end
