(* ===== verification/Target_Security.thy ===== *)
theory Target_Security
  imports Errors "HOL-Library.Word"
begin

unbundle bit_operations_syntax

text \<open>
  \<open>src/target-security.ts\<close>: which destinations a client may reach. Node's \<open>net.isIP\<close> is written out
  from its documented grammar: dotted decimal without leading zeros for version 4; for version 6
  eight groups of one to four hexadecimal digits, one \<open>::\<close> for a run of zero groups, an optional
  dotted quad at the end and an optional zone. Addresses of version 4 are 32-bit words, those of
  version 6 sixteen bytes. Host names are ASCII.
\<close>

subsection \<open>Strings\<close>

fun split_on :: "char \<Rightarrow> string \<Rightarrow> string list" where
  "split_on c [] = [[]]"
| "split_on c (x # xs) =
     (if x = c then [] # split_on c xs
      else case split_on c xs of [] \<Rightarrow> [[x]] | y # ys \<Rightarrow> (x # y) # ys)"

text \<open>\<open>split("::")\<close>\<close>

fun split_double_colon :: "string \<Rightarrow> string list" where
  "split_double_colon [] = [[]]"
| "split_double_colon [x] = [[x]]"
| "split_double_colon (x # y # xs) =
     (if x = CHR '':'' \<and> y = CHR '':'' then [] # split_double_colon xs
      else case split_double_colon (y # xs) of [] \<Rightarrow> [[x]] | z # zs \<Rightarrow> (x # z) # zs)"

definition is_digit :: "char \<Rightarrow> bool" where
  "is_digit c \<longleftrightarrow> 48 \<le> (of_char c :: nat) \<and> (of_char c :: nat) \<le> 57"

definition hex_value :: "char \<Rightarrow> nat option" where
  "hex_value c =
     (let n = (of_char c :: nat)
      in if 48 \<le> n \<and> n \<le> 57 then Some (n - 48)
         else if 65 \<le> n \<and> n \<le> 70 then Some (n - 55)
         else if 97 \<le> n \<and> n \<le> 102 then Some (n - 87)
         else None)"

definition decimal_value :: "string \<Rightarrow> nat" where
  "decimal_value s = foldl (\<lambda>n c. n * 10 + (of_char c - 48)) 0 s"

definition is_octet :: "string \<Rightarrow> bool" where
  "is_octet s \<longleftrightarrow>
     s \<noteq> [] \<and> length s \<le> 3 \<and> list_all is_digit s \<and> (length s = 1 \<or> hd s \<noteq> CHR ''0'') \<and> decimal_value s \<le> 255"

definition is_ipv4 :: "string \<Rightarrow> bool" where
  "is_ipv4 s = (let ps = split_on CHR ''.'' s in length ps = 4 \<and> list_all is_octet ps)"

definition is_hex_group :: "string \<Rightarrow> bool" where
  "is_hex_group s \<longleftrightarrow> s \<noteq> [] \<and> length s \<le> 4 \<and> list_all (\<lambda>c. hex_value c \<noteq> None) s"

text \<open>The number of groups a side of the address stands for, if it is well formed.\<close>

definition group_count :: "bool \<Rightarrow> string \<Rightarrow> nat option" where
  "group_count allowQuad s =
     (let gs = split_on CHR '':'' s
      in if list_all is_hex_group gs then Some (length gs)
         else if allowQuad \<and> list_all is_hex_group (butlast gs) \<and> is_ipv4 (last gs) then Some (length gs + 1)
         else None)"

definition is_zone_char :: "char \<Rightarrow> bool" where
  "is_zone_char c \<longleftrightarrow>
     is_digit c \<or> (65 \<le> (of_char c :: nat) \<and> (of_char c :: nat) \<le> 90) \<or> (97 \<le> (of_char c :: nat) \<and> (of_char c :: nat) \<le> 122)
     \<or> c = CHR ''-'' \<or> c = CHR ''.'' \<or> c = CHR '':''"

definition is_ipv6 :: "string \<Rightarrow> bool" where
  "is_ipv6 s =
     (let addr = takeWhile (\<lambda>c. c \<noteq> CHR ''%'') s; zone = drop (length addr) s
      in (zone = [] \<or> (tl zone \<noteq> [] \<and> list_all is_zone_char (tl zone)))
         \<and> (case split_double_colon addr of
              [whole] \<Rightarrow> group_count True whole = Some 8
            | [left, right] \<Rightarrow>
                (case (if left = [] then Some 0 else group_count False left,
                       if right = [] then Some 0 else group_count True right) of
                   (Some m, Some n) \<Rightarrow> m + n \<le> 7
                 | _ \<Rightarrow> False)
            | _ \<Rightarrow> False))"

definition isIP :: "string \<Rightarrow> nat" where
  "isIP s = (if is_ipv4 s then 4 else if is_ipv6 s then 6 else 0)"

subsection \<open>Version 4\<close>

definition IPV4_BLOCKS :: "(32 word \<times> nat) list" where
  "IPV4_BLOCKS =
     [(0x00000000, 8), (0x0a000000, 8), (0x64400000, 10), (0x7f000000, 8), (0xa9fe0000, 16), (0xac100000, 12),
      (0xc0000000, 24), (0xc0000200, 24), (0xc0586300, 24), (0xc0a80000, 16), (0xc6120000, 15), (0xc6336400, 24),
      (0xcb007100, 24), (0xe0000000, 4), (0xf0000000, 4)]"

definition ipv4Number :: "string \<Rightarrow> 32 word option" where
  "ipv4Number address =
     (if isIP address \<noteq> 4 then None
      else Some (foldl (\<lambda>r part. push_bit 8 r OR of_nat (decimal_value part)) 0 (split_on CHR ''.'' address)))"

definition in_ipv4_block :: "32 word \<Rightarrow> 32 word \<times> nat \<Rightarrow> bool" where
  "in_ipv4_block v b =
     (let m = push_bit (32 - snd b) (0xffffffff :: 32 word) in v AND m = fst b AND m)"

definition ipv4Public :: "string \<Rightarrow> bool" where
  "ipv4Public address =
     (case ipv4Number address of None \<Rightarrow> False | Some v \<Rightarrow> \<not> list_ex (in_ipv4_block v) IPV4_BLOCKS)"

subsection \<open>Version 6\<close>

definition parseInt16 :: "string \<Rightarrow> nat option" where
  "parseInt16 s =
     (let ds = takeWhile (\<lambda>c. hex_value c \<noteq> None) s
      in if ds = [] then None else Some (foldl (\<lambda>n c. n * 16 + the (hex_value c)) 0 ds))"

text \<open>
  \<open>parse\<close> of one side; a missing number in the list is \<open>NaN\<close>, and \<open>None\<close> is the early return of an
  empty list for a malformed quad.
\<close>

fun parse_parts :: "string list \<Rightarrow> nat option list option" where
  "parse_parts [] = Some []"
| "parse_parts (part # parts) =
     (if CHR ''.'' \<in> set part
      then (case ipv4Number part of
              None \<Rightarrow> None
            | Some v \<Rightarrow> map_option (\<lambda>gs. Some (unat (drop_bit 16 v AND 0xffff)) # Some (unat (v AND 0xffff)) # gs)
                          (parse_parts parts))
      else map_option (\<lambda>gs. parseInt16 part # gs) (parse_parts parts))"

definition parse_side :: "string \<Rightarrow> nat option list" where
  "parse_side side =
     (if side = [] then []
      else case parse_parts (split_on CHR '':'' side) of None \<Rightarrow> [] | Some gs \<Rightarrow> gs)"

definition group_bytes :: "nat \<Rightarrow> 8 word list" where
  "group_bytes g = [of_nat (g div 256), of_nat (g mod 256)]"

definition ipv6Bytes :: "string \<Rightarrow> 8 word list option" where
  "ipv6Bytes address =
     (let normalized = hd (split_on CHR ''%'' address)
      in if isIP normalized \<noteq> 6 then None
         else let sides = split_double_colon normalized
              in if 3 \<le> length sides then None
                 else let left = parse_side (sides ! 0);
                          right = (if length sides = 2 then parse_side (sides ! 1) else []);
                          compressed = (2 \<le> length sides)
                      in if (\<not> compressed \<and> length left \<noteq> 8) \<or> 8 < length left + length right then None
                         else let groups = (if compressed
                                            then left @ replicate (8 - length left - length right) (Some 0) @ right
                                            else left)
                              in if length groups \<noteq> 8
                                    \<or> list_ex (\<lambda>g. case g of None \<Rightarrow> True | Some n \<Rightarrow> 0xffff < n) groups
                                 then None
                                 else Some (concat (map (\<lambda>g. group_bytes (the g)) groups)))"

definition byte_at :: "8 word list \<Rightarrow> nat \<Rightarrow> 8 word option" where
  "byte_at bs i = (if i < length bs then Some (bs ! i) else None)"

definition byte_or_zero :: "8 word list \<Rightarrow> nat \<Rightarrow> 8 word" where
  "byte_or_zero bs i = (case byte_at bs i of None \<Rightarrow> 0 | Some b \<Rightarrow> b)"

definition hasPrefix :: "8 word list \<Rightarrow> 8 word list \<Rightarrow> nat \<Rightarrow> bool" where
  "hasPrefix bytes expected bits =
     (let fullBytes = bits div 8; remainder = bits mod 8
      in list_all (\<lambda>i. byte_at bytes i = byte_at expected i) [0..<fullBytes]
         \<and> (remainder = 0
            \<or> byte_or_zero bytes fullBytes AND push_bit (8 - remainder) 0xff
                = byte_or_zero expected fullBytes AND push_bit (8 - remainder) 0xff))"

definition IPV6_BLOCKED :: "(8 word list \<times> nat) list" where
  "IPV6_BLOCKED =
     [([0x20, 0x01, 0x00, 0x00], 32), ([0x20, 0x01, 0x00, 0x02], 48), ([0x20, 0x01, 0x00, 0x10], 28),
      ([0x20, 0x01, 0x0d, 0xb8], 32), ([0x20, 0x02], 16), ([0x3f, 0xff], 20)]"

definition ipv6_bytes_public :: "8 word list \<Rightarrow> bool" where
  "ipv6_bytes_public bytes \<longleftrightarrow>
     hasPrefix bytes [0x20] 3 \<and> \<not> list_ex (\<lambda>(expected, bits). hasPrefix bytes expected bits) IPV6_BLOCKED"

definition ipv6Public :: "string \<Rightarrow> bool" where
  "ipv6Public address = (case ipv6Bytes address of None \<Rightarrow> False | Some bytes \<Rightarrow> ipv6_bytes_public bytes)"

definition isPublicAddress :: "string \<Rightarrow> bool" where
  "isPublicAddress address =
     (if isIP address = 4 then ipv4Public address else if isIP address = 6 then ipv6Public address else False)"

subsection \<open>The target validator\<close>

definition strip_brackets :: "string \<Rightarrow> string" where
  "strip_brackets s =
     (if 2 \<le> length s \<and> hd s = CHR ''['' \<and> last s = CHR '']'' \<and> CHR 0x0A \<notin> set s \<and> CHR 0x0D \<notin> set s
      then butlast (tl s) else s)"

definition strip_dot :: "string \<Rightarrow> string" where
  "strip_dot s = (if s \<noteq> [] \<and> last s = CHR ''.'' then butlast s else s)"

definition to_lower :: "char \<Rightarrow> char" where
  "to_lower c = (if 65 \<le> (of_char c :: nat) \<and> (of_char c :: nat) \<le> 90 then char_of ((of_char c :: nat) + 32) else c)"

definition normalize_host :: "string \<Rightarrow> string" where
  "normalize_host raw = map to_lower (strip_dot (strip_brackets raw))"

definition ends_with :: "string \<Rightarrow> string \<Rightarrow> bool" where
  "ends_with s suffix \<longleftrightarrow> length suffix \<le> length s \<and> drop (length s - length suffix) s = suffix"

text \<open>
  What an accepted target yields, for telemetry only: a literal address stands for itself, a name is
  looked up. The resolver is a parameter (\<open>Inl\<close> when the lookup fails).
\<close>

datatype ResolutionStatus = ResolutionAvailable | ResolutionUnavailable | ResolutionNotApplicable

record LocalResolutionObservation =
  lr_status :: ResolutionStatus
  lr_addresses :: "string list"

definition observe_resolution :: "string list result \<Rightarrow> LocalResolutionObservation" where
  "observe_resolution r =
     (case r of
        Inl _ \<Rightarrow> \<lparr>lr_status = ResolutionUnavailable, lr_addresses = []\<rparr>
      | Inr as \<Rightarrow> \<lparr>lr_status = (if as = [] then ResolutionUnavailable else ResolutionAvailable),
                   lr_addresses = js_sort code_unit_compare (remdups as)\<rparr>)"

definition createTargetValidator ::
  "int list \<Rightarrow> (string \<Rightarrow> string list result) \<Rightarrow> string list \<Rightarrow> string \<Rightarrow> int \<Rightarrow> LocalResolutionObservation result" where
  "createTargetValidator allowedPorts lookup blockedHostnames rawHost port =
     (if port \<notin> set allowedPorts
      then Inl (throw (appError ''Target port is not allowed'' TargetPortForbidden 403))
      else let host = normalize_host rawHost
           in if host = ''localhost'' \<or> ends_with host ''.localhost''
              then Inl (throw (appError ''Target must be a public Internet hostname'' TargetForbidden 403))
              else if host \<in> set blockedHostnames \<or> list_ex (\<lambda>b. ends_with host (CHR ''.'' # b)) blockedHostnames
              then Inl (throw (appError ''Target hostname is restricted to a local network'' TargetForbidden 403))
              else if isIP host \<noteq> 0
              then if \<not> isPublicAddress host
                   then Inl (throw (appError ''Target must be a public Internet address'' TargetForbidden 403))
                   else Inr \<lparr>lr_status = ResolutionNotApplicable, lr_addresses = [host]\<rparr>
              else Inr (observe_resolution (lookup host)))"

subsection \<open>Dotted quads\<close>

lemma split_on_none: "c \<notin> set xs \<Longrightarrow> split_on c xs = [xs]"
  by (induction xs) auto

lemma split_on_sep: "c \<notin> set xs \<Longrightarrow> split_on c (xs @ c # ys) = xs # split_on c ys"
  by (induction xs) auto

definition digit :: "nat \<Rightarrow> char" where
  "digit n = char_of (48 + n)"

definition octet_string :: "nat \<Rightarrow> string" where
  "octet_string n =
     (if n < 10 then [digit n]
      else if n < 100 then [digit (n div 10), digit (n mod 10)]
      else [digit (n div 100), digit (n div 10 mod 10), digit (n mod 10)])"

definition quad :: "nat \<Rightarrow> nat \<Rightarrow> nat \<Rightarrow> nat \<Rightarrow> string" where
  "quad a b c d = octet_string a @ CHR ''.'' # octet_string b @ CHR ''.'' # octet_string c @ CHR ''.'' # octet_string d"

definition quad_value :: "nat \<Rightarrow> nat \<Rightarrow> nat \<Rightarrow> nat \<Rightarrow> nat" where
  "quad_value a b c d = ((a * 256 + b) * 256 + c) * 256 + d"

lemma of_digit: "n < 10 \<Longrightarrow> (of_char (digit n) :: nat) = 48 + n"
  by (simp add: digit_def)

lemma is_digit_digit: "n < 10 \<Longrightarrow> is_digit (digit n)"
  by (simp add: is_digit_def of_digit)

lemma digit_zero: "n < 10 \<Longrightarrow> digit n = CHR ''0'' \<longleftrightarrow> n = 0"
  using of_digit [of n] of_char_eq_iff [where 'a = nat, of "digit n" "CHR ''0''"] by simp

lemma decimal_three: "100 * (n div 100) + n div 10 mod 10 * 10 + n mod 10 = (n :: nat)"
proof -
  have "n div 100 = n div 10 div 10" using div_mult2_eq [of n 10 10] by simp
  moreover have "n = n div 10 * 10 + n mod 10" "n div 10 = n div 10 div 10 * 10 + n div 10 mod 10" by simp_all
  ultimately show ?thesis by linarith
qed

lemma octet_string_ok:
  assumes "n < 256"
  shows "is_octet (octet_string n)" and "decimal_value (octet_string n) = n" and "CHR ''.'' \<notin> set (octet_string n)"
    and "list_all is_digit (octet_string n)"
proof -
  have small: "n mod 10 < 10" "n div 10 mod 10 < 10" "n div 100 < 10" using assms by auto
  have val: "decimal_value (octet_string n) = n"
    using small decimal_three [of n] by (auto simp: octet_string_def decimal_value_def of_digit)
  then show "decimal_value (octet_string n) = n" .
  show digits: "list_all is_digit (octet_string n)"
    using small by (auto simp: octet_string_def is_digit_digit)
  then show "CHR ''.'' \<notin> set (octet_string n)" by (auto simp: list_all_iff is_digit_def)
  show "is_octet (octet_string n)"
    unfolding is_octet_def val using small digits assms
    by (auto simp: octet_string_def digit_zero)
qed

lemma split_quad:
  assumes "a < 256" "b < 256" "c < 256" "d < 256"
  shows "split_on CHR ''.'' (quad a b c d) = [octet_string a, octet_string b, octet_string c, octet_string d]"
  using assms by (simp add: quad_def split_on_sep split_on_none octet_string_ok)

lemma quad_is_ip:
  assumes "a < 256" "b < 256" "c < 256" "d < 256"
  shows "isIP (quad a b c d) = 4"
  using assms by (simp add: isIP_def is_ipv4_def split_quad octet_string_ok)

lemma shift_or_octet:
  assumes "m < 2 ^ 24" and "n < 256"
  shows "push_bit 8 (of_nat m) OR of_nat n = (of_nat (m * 256 + n) :: 32 word)"
proof -
  have n: "take_bit 8 n = n" using assms(2) by (simp add: take_bit_nat_eq_self)
  have "push_bit 8 m OR n = push_bit 8 m + n"
  proof (rule disjunctive_add_eq_or [symmetric], rule bit_eqI)
    fix i
    have "bit n i \<Longrightarrow> i < 8" using bit_take_bit_iff [of 8 n i] n by simp
    then show "bit (push_bit 8 m AND n) i \<longleftrightarrow> bit 0 i" by (auto simp: bit_simps)
  qed
  then have "(of_nat (push_bit 8 m OR n) :: 32 word) = of_nat (push_bit 8 m + n)" by simp
  moreover have "(of_nat (push_bit 8 m OR n) :: 32 word) = push_bit 8 (of_nat m) OR of_nat n"
    by (simp add: of_nat_or_eq of_nat_push_bit)
  ultimately show ?thesis by (simp add: push_bit_eq_mult mult.commute)
qed

lemma ipv4Number_quad:
  assumes "a < 256" "b < 256" "c < 256" "d < 256"
  shows "ipv4Number (quad a b c d) = Some (of_nat (quad_value a b c d))"
proof -
  have "(push_bit 8 (0 :: 32 word) OR of_nat a) = of_nat a" by simp
  moreover have "push_bit 8 (of_nat a) OR of_nat b = (of_nat (a * 256 + b) :: 32 word)"
    by (rule shift_or_octet) (use assms in auto)
  moreover have "push_bit 8 (of_nat (a * 256 + b)) OR of_nat c = (of_nat ((a * 256 + b) * 256 + c) :: 32 word)"
    by (rule shift_or_octet) (use assms in auto)
  moreover have "push_bit 8 (of_nat ((a * 256 + b) * 256 + c)) OR of_nat d = (of_nat (quad_value a b c d) :: 32 word)"
    unfolding quad_value_def by (rule shift_or_octet) (use assms in auto)
  ultimately show ?thesis
    using assms by (simp add: ipv4Number_def quad_is_ip split_quad octet_string_ok)
qed

text \<open>A block of a given prefix length holds the addresses that agree with it above the host bits.\<close>

lemma and_high_mask: "(v :: 32 word) AND push_bit k (0xffffffff) = push_bit k (drop_bit k v)"
proof (rule bit_eqI)
  fix n
  assume "possible_bit TYPE(32 word) n"
  then have n: "n < 32" by simp
  have ones: "(0xffffffff :: 32 word) = - 1" by simp
  show "bit (v AND push_bit k 0xffffffff) n \<longleftrightarrow> bit (push_bit k (drop_bit k v)) n"
    unfolding ones using n by (auto simp: bit_simps)
qed

lemma in_block_iff:
  assumes "n < 2 ^ 32" and "net < 2 ^ 32" and "bits \<le> 32"
  shows "in_ipv4_block (of_nat n) (of_nat net, bits) \<longleftrightarrow> n div 2 ^ (32 - bits) = net div 2 ^ (32 - bits)"
proof -
  let ?k = "32 - bits" and ?v = "of_nat n :: 32 word" and ?w = "of_nat net :: 32 word"
  have "drop_bit ?k (push_bit ?k (drop_bit ?k x)) = drop_bit ?k x" for x :: "32 word"
    by (rule bit_eqI) (auto simp: bit_simps dest: bit_imp_le_length)
  then have "in_ipv4_block ?v (?w, bits) \<longleftrightarrow> drop_bit ?k ?v = drop_bit ?k ?w"
    unfolding in_ipv4_block_def Let_def and_high_mask fst_conv snd_conv by metis
  also have "\<dots> \<longleftrightarrow> unat (drop_bit ?k ?v) = unat (drop_bit ?k ?w)" by (simp add: word_unat_eq_iff)
  also have "\<dots> \<longleftrightarrow> n div 2 ^ ?k = net div 2 ^ ?k"
    unfolding unat_drop_bit_eq using assms by (simp add: drop_bit_eq_div unat_of_nat take_bit_nat_eq_self)
  finally show ?thesis .
qed

text \<open>The special-purpose blocks of version 4, by octets.\<close>

definition special_quad :: "nat \<Rightarrow> nat \<Rightarrow> nat \<Rightarrow> bool" where
  "special_quad a b c \<longleftrightarrow>
     a = 0 \<or> a = 10 \<or> (a = 100 \<and> 64 \<le> b \<and> b < 128) \<or> a = 127 \<or> (a = 169 \<and> b = 254)
     \<or> (a = 172 \<and> 16 \<le> b \<and> b < 32) \<or> (a = 192 \<and> b = 0 \<and> (c = 0 \<or> c = 2)) \<or> (a = 192 \<and> b = 88 \<and> c = 99)
     \<or> (a = 192 \<and> b = 168) \<or> (a = 198 \<and> (b = 18 \<or> b = 19)) \<or> (a = 198 \<and> b = 51 \<and> c = 100)
     \<or> (a = 203 \<and> b = 0 \<and> c = 113) \<or> 224 \<le> a"

lemma quad_value_div:
  assumes "a < 256" "b < 256" "c < 256" "d < 256"
  shows "quad_value a b c d div 2 ^ 24 = a" "quad_value a b c d div 2 ^ 22 = a * 4 + b div 64"
    "quad_value a b c d div 2 ^ 20 = a * 16 + b div 16" "quad_value a b c d div 2 ^ 17 = a * 128 + b div 2"
    "quad_value a b c d div 2 ^ 16 = a * 256 + b" "quad_value a b c d div 2 ^ 8 = (a * 256 + b) * 256 + c"
    "quad_value a b c d div 2 ^ 28 = a div 16" "quad_value a b c d < 2 ^ 32"
  using assms by (simp_all add: quad_value_def)

lemma radix_eq:
  assumes "b < m" and "B < (m :: nat)"
  shows "a * m + b = A * m + B \<longleftrightarrow> a = A \<and> b = B"
proof
  assume eq: "a * m + b = A * m + B"
  from assms have "(a * m + b) div m = a" "(A * m + B) div m = A" "(a * m + b) mod m = b" "(A * m + B) mod m = B"
    by simp_all
  with eq show "a = A \<and> b = B" by simp
qed simp

lemma div_between: "0 < m \<Longrightarrow> n div m = q \<longleftrightarrow> q * m \<le> n \<and> n < Suc q * (m :: nat)"
  using less_eq_div_iff_mult_less_eq [of m q n] div_less_iff_less_mult [of m n "Suc q"] by linarith

text \<open>The blocks one by one.\<close>

lemma quad_blocks:
  assumes "a < 256" "b < 256" "c < 256" "d < 256"
  defines "v \<equiv> of_nat (quad_value a b c d) :: 32 word"
  shows "in_ipv4_block v (0, 8) \<longleftrightarrow> a = 0" "in_ipv4_block v (0x0a000000, 8) \<longleftrightarrow> a = 10"
    "in_ipv4_block v (0x64400000, 10) \<longleftrightarrow> a = 100 \<and> 64 \<le> b \<and> b < 128"
    "in_ipv4_block v (0x7f000000, 8) \<longleftrightarrow> a = 127" "in_ipv4_block v (0xa9fe0000, 16) \<longleftrightarrow> a = 169 \<and> b = 254"
    "in_ipv4_block v (0xac100000, 12) \<longleftrightarrow> a = 172 \<and> 16 \<le> b \<and> b < 32"
    "in_ipv4_block v (0xc0000000, 24) \<longleftrightarrow> a = 192 \<and> b = 0 \<and> c = 0"
    "in_ipv4_block v (0xc0000200, 24) \<longleftrightarrow> a = 192 \<and> b = 0 \<and> c = 2"
    "in_ipv4_block v (0xc0586300, 24) \<longleftrightarrow> a = 192 \<and> b = 88 \<and> c = 99"
    "in_ipv4_block v (0xc0a80000, 16) \<longleftrightarrow> a = 192 \<and> b = 168"
    "in_ipv4_block v (0xc6120000, 15) \<longleftrightarrow> a = 198 \<and> (b = 18 \<or> b = 19)"
    "in_ipv4_block v (0xc6336400, 24) \<longleftrightarrow> a = 198 \<and> b = 51 \<and> c = 100"
    "in_ipv4_block v (0xcb007100, 24) \<longleftrightarrow> a = 203 \<and> b = 0 \<and> c = 113"
    "in_ipv4_block v (0xe0000000, 4) \<longleftrightarrow> 224 \<le> a \<and> a < 240" "in_ipv4_block v (0xf0000000, 4) \<longleftrightarrow> 240 \<le> a"
proof -
  let ?q = "quad_value a b c d"
  note q = quad_value_div [OF assms(1-4)]
  note blk = in_block_iff [OF q(8), folded v_def]
  have r4: "a * 4 + b div 64 = A * 4 + B \<longleftrightarrow> a = A \<and> b div 64 = B" if "B < 4" for A B
    by (rule radix_eq) (use assms(2) that in auto)
  have r16: "a * 16 + b div 16 = A * 16 + B \<longleftrightarrow> a = A \<and> b div 16 = B" if "B < 16" for A B
    by (rule radix_eq) (use assms(2) that in auto)
  have r128: "a * 128 + b div 2 = A * 128 + B \<longleftrightarrow> a = A \<and> b div 2 = B" if "B < 128" for A B
    by (rule radix_eq) (use assms(2) that in auto)
  have r2: "a * 256 + b = A * 256 + B \<longleftrightarrow> a = A \<and> b = B" if "B < 256" for A B
    by (rule radix_eq) (use assms(2) that in auto)
  have r3: "(a * 256 + b) * 256 + c = (A * 256 + B) * 256 + C \<longleftrightarrow> a = A \<and> b = B \<and> c = C" if "B < 256" "C < 256" for A B C
    using radix_eq [OF assms(3) that(2), of "a * 256 + b" "A * 256 + B"] r2 [OF that(1), of A] by simp
  show "in_ipv4_block v (0, 8) \<longleftrightarrow> a = 0" using blk [of 0 8] q(1) by simp
  show "in_ipv4_block v (0x0a000000, 8) \<longleftrightarrow> a = 10" using blk [of "0x0a000000" 8] q(1) by simp
  show "in_ipv4_block v (0x7f000000, 8) \<longleftrightarrow> a = 127" using blk [of "0x7f000000" 8] q(1) by simp
  show "in_ipv4_block v (0x64400000, 10) \<longleftrightarrow> a = 100 \<and> 64 \<le> b \<and> b < 128"
    using blk [of "0x64400000" 10] q(2) r4 [of 1 100] div_between [of 64 b 1] by simp
  show "in_ipv4_block v (0xa9fe0000, 16) \<longleftrightarrow> a = 169 \<and> b = 254"
    using blk [of "0xa9fe0000" 16] q(5) r2 [of 254 169] by simp
  show "in_ipv4_block v (0xac100000, 12) \<longleftrightarrow> a = 172 \<and> 16 \<le> b \<and> b < 32"
    using blk [of "0xac100000" 12] q(3) r16 [of 1 172] div_between [of 16 b 1] by simp
  show "in_ipv4_block v (0xc0000000, 24) \<longleftrightarrow> a = 192 \<and> b = 0 \<and> c = 0"
    using blk [of "0xc0000000" 24] q(6) r3 [of 0 0 192] by simp
  show "in_ipv4_block v (0xc0000200, 24) \<longleftrightarrow> a = 192 \<and> b = 0 \<and> c = 2"
    using blk [of "0xc0000200" 24] q(6) r3 [of 0 2 192] by simp
  show "in_ipv4_block v (0xc0586300, 24) \<longleftrightarrow> a = 192 \<and> b = 88 \<and> c = 99"
    using blk [of "0xc0586300" 24] q(6) r3 [of 88 99 192] by simp
  show "in_ipv4_block v (0xc0a80000, 16) \<longleftrightarrow> a = 192 \<and> b = 168"
    using blk [of "0xc0a80000" 16] q(5) r2 [of 168 192] by simp
  have "b div 2 = 9 \<longleftrightarrow> b = 18 \<or> b = 19" by auto
  then show "in_ipv4_block v (0xc6120000, 15) \<longleftrightarrow> a = 198 \<and> (b = 18 \<or> b = 19)"
    using blk [of "0xc6120000" 15] q(4) r128 [of 9 198] by simp
  show "in_ipv4_block v (0xc6336400, 24) \<longleftrightarrow> a = 198 \<and> b = 51 \<and> c = 100"
    using blk [of "0xc6336400" 24] q(6) r3 [of 51 100 198] by simp
  show "in_ipv4_block v (0xcb007100, 24) \<longleftrightarrow> a = 203 \<and> b = 0 \<and> c = 113"
    using blk [of "0xcb007100" 24] q(6) r3 [of 0 113 203] by simp
  show "in_ipv4_block v (0xe0000000, 4) \<longleftrightarrow> 224 \<le> a \<and> a < 240"
    using blk [of "0xe0000000" 4] q(7) div_between [of 16 a 14] by simp
  show "in_ipv4_block v (0xf0000000, 4) \<longleftrightarrow> 240 \<le> a"
    using blk [of "0xf0000000" 4] q(7) div_between [of 16 a 15] assms(1) by simp
qed

lemma quad_in_blocks:
  assumes "a < 256" "b < 256" "c < 256" "d < 256"
  shows "list_ex (in_ipv4_block (of_nat (quad_value a b c d))) IPV4_BLOCKS \<longleftrightarrow> special_quad a b c"
proof -
  have "(224 \<le> a \<and> a < 240) \<or> 240 \<le> a \<longleftrightarrow> 224 \<le> a" by auto
  then show ?thesis
    unfolding IPV4_BLOCKS_def list_ex_Cons_iff list_ex_Nil_iff quad_blocks [OF assms] special_quad_def by argo
qed

lemma quad_public:
  assumes "a < 256" "b < 256" "c < 256" "d < 256"
  shows "isPublicAddress (quad a b c d) \<longleftrightarrow> \<not> special_quad a b c"
  using assms by (simp add: isPublicAddress_def quad_is_ip ipv4Public_def ipv4Number_quad quad_in_blocks)

text \<open>
  For an address in dotted decimal the check decides by the special-purpose blocks and nothing
  else: it is public exactly when it lies outside the private, loopback, link-local, carrier-grade
  NAT, documentation, benchmarking, 6to4 relay, multicast and reserved blocks.
\<close>

theorem ipv4_public_spec:
  assumes "a < 256" "b < 256" "c < 256" "d < 256"
  shows "isPublicAddress (quad a b c d) \<longleftrightarrow> \<not> special_quad a b c"
  using assms by (rule quad_public)

theorem ipv4_public_spec_witness:
  "isPublicAddress (quad 172 32 0 1) \<and> \<not> isPublicAddress (quad 172 31 255 255)"
  using ipv4_public_spec [of 172 32 0 1] ipv4_public_spec [of 172 31 255 255] by (simp add: special_quad_def)

lemma to_lower_digit: "is_digit c \<or> c = CHR ''.'' \<Longrightarrow> to_lower c = c"
  by (auto simp: to_lower_def is_digit_def)

lemma quad_chars: 
  assumes "a < 256" "b < 256" "c < 256" "d < 256" and "x \<in> set (quad a b c d)"
  shows "is_digit x \<or> x = CHR ''.''"
  using assms by (auto simp: quad_def dest: octet_string_ok(4) simp: list_all_iff)

lemma quad_ends:
  assumes "a < 256" "b < 256" "c < 256" "d < 256"
  shows "is_digit (hd (quad a b c d))" "is_digit (last (quad a b c d))" "quad a b c d \<noteq> []"
proof -
  have ne: "octet_string n \<noteq> []" for n by (simp add: octet_string_def)
  have "is_digit x" if "n < 256" "x \<in> set (octet_string n)" for n x
    using octet_string_ok(4) [OF that(1)] that(2) by (simp add: list_all_iff)
  then show "is_digit (hd (quad a b c d))" "is_digit (last (quad a b c d))" "quad a b c d \<noteq> []"
    using ne assms by (simp_all add: quad_def)
qed

lemma normalize_quad:
  assumes "a < 256" "b < 256" "c < 256" "d < 256" and "raw \<in> {quad a b c d, quad a b c d @ ''.'', ''['' @ quad a b c d @ '']''}"
  shows "normalize_host raw = quad a b c d"
proof -
  note ends = quad_ends [OF assms(1-4)]
  have lower: "map to_lower (quad a b c d) = quad a b c d"
    by (rule map_idI) (use quad_chars [OF assms(1-4)] to_lower_digit in blast)
  have hd: "hd (quad a b c d) \<noteq> CHR ''[''" using ends(1) by (auto simp: is_digit_def)
  have last: "last (quad a b c d) \<noteq> CHR ''.''" using ends(2) by (auto simp: is_digit_def)
  have nl: "CHR 0x0A \<notin> set (quad a b c d)" "CHR 0x0D \<notin> set (quad a b c d)"
    using quad_chars [OF assms(1-4), of "CHR 0x0A"] quad_chars [OF assms(1-4), of "CHR 0x0D"]
    by (auto simp: is_digit_def)
  from assms(5) consider "raw = quad a b c d" | "raw = quad a b c d @ ''.''" | "raw = ''['' @ quad a b c d @ '']''" by blast
  then show ?thesis
    by cases (simp_all add: normalize_host_def strip_brackets_def strip_dot_def lower hd last nl ends)
qed



subsection \<open>Version 6 blocks\<close>

lemma upto_six: "[0..<6] = [0, 1, 2, 3, 4, 5 :: nat]" "[0..<4] = [0, 1, 2, 3 :: nat]" "[0..<3] = [0, 1, 2 :: nat]"
    "[0..<2] = [0, 1 :: nat]"
  by code_simp+

lemma byte_literals:
  "byte_at [] i = None" "byte_at (x # xs) i = (if i = 0 then Some x else byte_at xs (i - 1))"
  "byte_or_zero [] i = 0" "byte_or_zero (x # xs) i = (if i = 0 then x else byte_or_zero xs (i - 1))"
  by (auto simp: byte_at_def byte_or_zero_def nth_Cons')

lemma high_bits: "push_bit 5 (0xff :: 8 word) = 0xe0" "push_bit 4 (0xff :: 8 word) = 0xf0"
  by code_simp+

lemma byte_at_less [simp]: "i < length bs \<Longrightarrow> byte_at bs i = Some (bs ! i)"
  by (simp add: byte_at_def)

text \<open>
  Of the addresses of version 6 exactly global unicast (2000::/3) is public, less 2001::/32
  (Teredo), 2001:10::/28, 2001:db8::/32 and 3fff::/20 (documentation) and 2002::/16 (6to4). The
  listed block 2001:2::/48 has no effect: its prefix is given as four bytes, of which six are
  compared, so every benchmarking address counts as public.
\<close>

theorem ipv6_public_spec:
  assumes "length bytes = 16"
  shows "\<not> hasPrefix bytes [0x20, 0x01, 0x00, 0x02] 48
    \<and> (ipv6_bytes_public bytes \<longleftrightarrow> bytes ! 0 AND 0xe0 = 0x20
    \<and> \<not> (bytes ! 0 = 0x20 \<and> bytes ! 1 = 0x01 \<and> bytes ! 2 = 0 \<and> (bytes ! 3 = 0 \<or> bytes ! 3 AND 0xf0 = 0x10))
    \<and> \<not> (bytes ! 0 = 0x20 \<and> bytes ! 1 = 0x01 \<and> bytes ! 2 = 0x0d \<and> bytes ! 3 = 0xb8)
    \<and> \<not> (bytes ! 0 = 0x20 \<and> bytes ! 1 = 0x02)
    \<and> \<not> (bytes ! 0 = 0x3f \<and> bytes ! 1 = 0xff \<and> bytes ! 2 AND 0xf0 = 0))"
proof -
  have at: "byte_at bytes i = Some (bytes ! i)" "byte_or_zero bytes i = bytes ! i" if "i < 16" for i
    using assms that by (simp_all add: byte_or_zero_def)
  have dead: "\<not> hasPrefix bytes [0x20, 0x01, 0x00, 0x02] 48"
    by (simp add: hasPrefix_def Let_def at byte_literals upto_six)
  have prefix: "hasPrefix bytes [0x20] 3 \<longleftrightarrow> bytes ! 0 AND 0xe0 = 0x20"
    "hasPrefix bytes [0x20, 0x02] 16 \<longleftrightarrow> bytes ! 0 = 0x20 \<and> bytes ! 1 = 0x02"
    "hasPrefix bytes [0x3f, 0xff] 20 \<longleftrightarrow> bytes ! 0 = 0x3f \<and> bytes ! 1 = 0xff \<and> bytes ! 2 AND 0xf0 = 0"
    by (simp_all add: hasPrefix_def Let_def at byte_literals upto_six high_bits del: push_bit_numeral)
  have block: "hasPrefix bytes [w, x, y, z] 32 \<longleftrightarrow> bytes ! 0 = w \<and> bytes ! 1 = x \<and> bytes ! 2 = y \<and> bytes ! 3 = z"
    "hasPrefix bytes [w, x, y, z] 28 \<longleftrightarrow> bytes ! 0 = w \<and> bytes ! 1 = x \<and> bytes ! 2 = y \<and> bytes ! 3 AND 0xf0 = z AND 0xf0"
    for w x y z
    by (simp_all add: hasPrefix_def Let_def at byte_literals upto_six high_bits del: push_bit_numeral)
  show ?thesis
    using dead by (auto simp: ipv6_bytes_public_def IPV6_BLOCKED_def prefix block)
qed

theorem ipv6_public_spec_witness:
  "ipv6_bytes_public [0x20, 0x01, 0, 0x02, 0, 0, 0, 0, 0, 0, 0, 0, 0, 0, 0, 1]
   \<and> \<not> ipv6_bytes_public [0x20, 0x01, 0x0d, 0xb8, 0, 0, 0, 0, 0, 0, 0, 0, 0, 0, 0, 1]"
  using ipv6_public_spec [of "[0x20, 0x01, 0, 0x02, 0, 0, 0, 0, 0, 0, 0, 0, 0, 0, 0, 1]"]
    ipv6_public_spec [of "[0x20, 0x01, 0x0d, 0xb8, 0, 0, 0, 0, 0, 0, 0, 0, 0, 0, 0, 1]"]
  by simp

end
