(* ===== verification/Destination.thy ===== *)
theory Destination
  imports Target_Security Validation
begin

text \<open>
  \<open>src/destination-resolution.ts\<close> and \<open>src/usage-destination.ts\<close>: what is kept of a destination. The
  addresses to which a provider resolved it are checked; for accounting only the host, its
  registrable domain, the port and a template of the path are recorded. The public suffix list
  (\<open>tldts.getDomain\<close>) and Node's \<open>domainToASCII\<close> are parameters. \<open>decodeURIComponent\<close> is written out:
  percent escapes of well-formed UTF-8, as a list of code points.
\<close>

subsection \<open>Addresses a provider resolved\<close>

record ProviderResolutionMetadata =
  resolvedDestinationAddresses :: "string list option"
  resolverCountry :: "string option"
  md_opaqueIpId :: "string option"

datatype DestinationSafetyClassification = DestinationVerified | ProviderTrusted

definition provider_addresses :: "ProviderResolutionMetadata \<Rightarrow> string list" where
  "provider_addresses md = (case resolvedDestinationAddresses md of None \<Rightarrow> [] | Some as \<Rightarrow> as)"

definition destinationSafetyClassification :: "ProviderResolutionMetadata \<Rightarrow> DestinationSafetyClassification" where
  "destinationSafetyClassification md = (if provider_addresses md = [] then ProviderTrusted else DestinationVerified)"

text \<open>The values of the header, one or several.\<close>

definition resolvedAddressesFromHeader :: "string list \<Rightarrow> string list option" where
  "resolvedAddressesFromHeader values =
     (let addresses = filter (\<lambda>a. isIP a \<noteq> 0) (map trim (concat (map (split_on CHR '','') values)));
          normalized = js_sort code_unit_compare (rev (remdups (rev addresses)))
      in if normalized = [] then None else Some normalized)"

definition assertSafeProviderResolution :: "ProviderResolutionMetadata \<Rightarrow> unit result" where
  "assertSafeProviderResolution md =
     (if filter (\<lambda>a. \<not> isPublicAddress a) (provider_addresses md) \<noteq> []
      then Inl (throw (appError ''Provider resolved the target to a non-public address'' ProviderTargetForbidden 403))
      else Inr ())"

datatype Divergence = DivergenceMatch | DivergenceDifferent | DivergenceUnavailable
datatype GeographyVerification = GeographyMatch | GeographyMismatch | GeographyUnavailable

record DestinationObservation =
  do_divergence :: Divergence
  do_geography :: GeographyVerification
  do_safety :: DestinationSafetyClassification
  do_warning :: bool

text \<open>What \<open>recordDestinationResolution\<close> reports of the local and the provider's resolution.\<close>

definition recordDestinationResolution ::
  "LocalResolutionObservation \<Rightarrow> ProviderResolutionMetadata \<Rightarrow> string option \<Rightarrow> DestinationObservation" where
  "recordDestinationResolution local md expectedCountry =
     (let locals = js_sort code_unit_compare (lr_addresses local);
          provided = js_sort code_unit_compare (provider_addresses md);
          available = (lr_status local = ResolutionAvailable \<and> provided \<noteq> []);
          geography = (case (resolverCountry md, expectedCountry) of
             (Some r, Some e) \<Rightarrow> if map to_upper r = map to_upper e then GeographyMatch else GeographyMismatch
           | _ \<Rightarrow> GeographyUnavailable)
      in \<lparr>do_divergence = (if \<not> available then DivergenceUnavailable
                           else if locals = provided then DivergenceMatch else DivergenceDifferent),
          do_geography = geography,
          do_safety = destinationSafetyClassification md,
          do_warning = (list_ex (\<lambda>a. \<not> isPublicAddress a) locals \<or> list_ex (\<lambda>a. \<not> isPublicAddress a) provided
                        \<or> geography = GeographyMismatch)\<rparr>)"

subsection \<open>Percent-decoding\<close>

type_synonym code_point = nat

definition pct_byte :: "char \<Rightarrow> char \<Rightarrow> nat option" where
  "pct_byte h l = (case (hex_value h, hex_value l) of (Some a, Some b) \<Rightarrow> Some (16 * a + b) | _ \<Rightarrow> None)"

text \<open>How many continuation bytes a lead byte asks for, and the bits it carries itself.\<close>

definition utf8_lead :: "nat \<Rightarrow> (nat \<times> nat) option" where
  "utf8_lead b =
     (if b < 128 then Some (0, b)
      else if 194 \<le> b \<and> b < 224 then Some (1, b - 192)
      else if 224 \<le> b \<and> b < 240 then Some (2, b - 224)
      else if 240 \<le> b \<and> b < 245 then Some (3, b - 240)
      else None)"

definition utf8_valid :: "nat \<Rightarrow> code_point \<Rightarrow> bool" where
  "utf8_valid n v =
     (if n = 2 then 2048 \<le> v \<and> \<not> (55296 \<le> v \<and> v < 57344)
      else if n = 3 then 65536 \<le> v \<and> v < 1114112 else True)"

fun read_continuation :: "nat \<Rightarrow> code_point \<Rightarrow> string \<Rightarrow> (code_point \<times> string) option" where
  "read_continuation 0 v cs = Some (v, cs)"
| "read_continuation (Suc n) v (p # h # l # cs) =
     (if p \<noteq> CHR ''%'' then None
      else case pct_byte h l of
        None \<Rightarrow> None
      | Some b \<Rightarrow> if 128 \<le> b \<and> b < 192 then read_continuation n (64 * v + (b - 128)) cs else None)"
| "read_continuation (Suc n) v _ = None"

lemma read_continuation_length: "read_continuation n v cs = Some (w, rest) \<Longrightarrow> length rest \<le> length cs"
  by (induction n v cs rule: read_continuation.induct) (fastforce split: if_splits option.splits)+

definition read_escape :: "char \<Rightarrow> char \<Rightarrow> string \<Rightarrow> (code_point \<times> string) option" where
  "read_escape h l cs =
     (case Option.bind (pct_byte h l) utf8_lead of
        None \<Rightarrow> None
      | Some (n, v) \<Rightarrow>
          (case read_continuation n v cs of
             None \<Rightarrow> None
           | Some (w, rest) \<Rightarrow> if utf8_valid n w then Some (w, rest) else None))"

lemma read_escape_length: "read_escape h l cs = Some (w, rest) \<Longrightarrow> length rest \<le> length cs"
  by (auto simp: read_escape_def split: option.splits prod.splits if_splits dest: read_continuation_length)

function decodeURIComponent :: "string \<Rightarrow> code_point list option" where
  "decodeURIComponent [] = Some []"
| "decodeURIComponent (c # cs) =
     (if c \<noteq> CHR ''%'' then map_option ((#) (of_char c)) (decodeURIComponent cs)
      else case cs of
        h # l # rest \<Rightarrow>
          (case read_escape h l rest of
             None \<Rightarrow> None
           | Some (v, rest') \<Rightarrow> map_option ((#) v) (decodeURIComponent rest'))
      | _ \<Rightarrow> None)"
  by pat_completeness auto
termination
  by (relation "measure length") (auto dest: read_escape_length)

subsection \<open>Path templates\<close>

definition cp_digit :: "code_point \<Rightarrow> bool" where
  "cp_digit c \<longleftrightarrow> 48 \<le> c \<and> c \<le> 57"

definition cp_letter :: "code_point \<Rightarrow> bool" where
  "cp_letter c \<longleftrightarrow> 65 \<le> c \<and> c \<le> 90 \<or> 97 \<le> c \<and> c \<le> 122"

definition cp_hex :: "code_point \<Rightarrow> bool" where
  "cp_hex c \<longleftrightarrow> cp_digit c \<or> 65 \<le> c \<and> c \<le> 70 \<or> 97 \<le> c \<and> c \<le> 102"

text \<open>\<open>String.length\<close> counts UTF-16 code units.\<close>

definition utf16_length :: "code_point list \<Rightarrow> nat" where
  "utf16_length cs = sum_list (map (\<lambda>c. if c < 65536 then 1 else 2) cs)"

definition looks_like_id :: "code_point list \<Rightarrow> bool" where
  "looks_like_id seg \<longleftrightarrow>
     seg \<noteq> [] \<and> list_all cp_digit seg
     \<or> 36 \<le> length seg \<and> list_all cp_hex (take 8 seg) \<and> seg ! 8 = 45 \<and> list_all (\<lambda>c. cp_hex c \<or> c = 45) (drop 9 seg)
     \<or> 16 \<le> utf16_length seg \<and> list_ex cp_letter seg \<and> list_ex cp_digit seg"

definition plain_word :: "code_point list \<Rightarrow> bool" where
  "plain_word seg \<longleftrightarrow>
     seg \<noteq> [] \<and> cp_letter (hd seg) \<and> length seg \<le> 64
     \<and> list_all (\<lambda>c. cp_letter c \<or> cp_digit c \<or> c \<in> {46, 95, 126, 45}) (tl seg)"

definition segment_template :: "string \<Rightarrow> string option" where
  "segment_template raw =
     (case decodeURIComponent raw of
        None \<Rightarrow> None
      | Some seg \<Rightarrow>
          if seg = [] then Some []
          else if looks_like_id seg then Some '':id''
          else if \<not> plain_word seg then None
          else Some (map char_of seg))"

fun template_segments :: "string list \<Rightarrow> string list option" where
  "template_segments [] = Some []"
| "template_segments (raw # raws) =
     (case segment_template raw of
        None \<Rightarrow> None
      | Some t \<Rightarrow> map_option ((#) t) (template_segments raws))"

fun join_slash :: "string list \<Rightarrow> string" where
  "join_slash [] = []"
| "join_slash [s] = s"
| "join_slash (s # t # ss) = s @ CHR ''/'' # join_slash (t # ss)"

definition pathTemplate :: "string \<Rightarrow> string option" where
  "pathTemplate pathname =
     (if pathname = [] \<or> pathname = ''/'' then Some ''/''
      else map_option (\<lambda>ss. CHR ''/'' # join_slash ss) (template_segments (tl (split_on CHR ''/'' pathname))))"

subsection \<open>The destination of a usage record\<close>

record UsageDestination =
  ud_domain :: string
  ud_host :: string
  ud_port :: int
  ud_template :: "string option"

definition canonicalHostname :: "(string \<Rightarrow> string) \<Rightarrow> string \<Rightarrow> string" where
  "canonicalHostname domainToASCII hostname =
     (let h = map to_lower (strip_dot (trim hostname)); a = domainToASCII h in if a = [] then h else a)"

definition usageDestination ::
  "(string \<Rightarrow> string) \<Rightarrow> (string \<Rightarrow> string option) \<Rightarrow> string \<Rightarrow> int \<Rightarrow> string option \<Rightarrow> UsageDestination" where
  "usageDestination domainToASCII getDomain hostname port pathname =
     (let host = canonicalHostname domainToASCII hostname
      in \<lparr>ud_domain = (if isIP host = 0 then (case getDomain host of None \<Rightarrow> host | Some d \<Rightarrow> d) else host),
          ud_host = host, ud_port = port, ud_template = Option.bind pathname pathTemplate\<rparr>)"

subsection \<open>No identifier is recorded\<close>

text \<open>A segment a template may contain: empty, the placeholder, or a word that is not taken for an identifier.\<close>

definition safe_segment :: "string \<Rightarrow> bool" where
  "safe_segment t \<longleftrightarrow>
     t = [] \<or> t = '':id'' \<or> (let seg = map of_char t in plain_word seg \<and> \<not> looks_like_id seg)"

lemma plain_word_ascii: "plain_word seg \<Longrightarrow> map of_char (map char_of seg :: string) = seg"
proof -
  assume word: "plain_word seg"
  then have "c < 256" if "c \<in> set seg" for c
    using that by (cases seg) (auto simp: plain_word_def cp_letter_def cp_digit_def list_all_iff)
  then show ?thesis by (simp add: map_idI)
qed

lemma segment_template_safe: "segment_template raw = Some t \<Longrightarrow> safe_segment t"
  using plain_word_ascii
  by (auto simp: segment_template_def safe_segment_def Let_def split: option.splits if_splits)

lemma template_segments_safe: "template_segments raws = Some ts \<Longrightarrow> list_all safe_segment ts"
  by (induction raws arbitrary: ts) (auto split: option.splits intro: segment_template_safe)

text \<open>
  The accounting of a request keeps no identifier of its path: whatever the path, the recorded
  template is a list of segments each of which is empty, the placeholder \<open>:id\<close>, or a word of at most
  64 unreserved characters that begins with a letter and is not taken for an identifier (digits only,
  a UUID, or sixteen characters and more with letters and digits). A path with any other segment
  has no template at all.
\<close>

theorem path_template_has_no_identifier:
  assumes "pathTemplate pathname = Some t"
  shows "\<exists>ss. t = CHR ''/'' # join_slash ss \<and> list_all safe_segment ss"
proof (cases "pathname = [] \<or> pathname = ''/''")
  case True
  with assms have "t = CHR ''/'' # join_slash []" by (auto simp: pathTemplate_def)
  then show ?thesis by (intro exI [of _ "[]"]) simp
next
  case False
  with assms show ?thesis by (auto simp: pathTemplate_def dest: template_segments_safe)
qed

lemmas template_eval =
  pathTemplate_def segment_template_def looks_like_id_def plain_word_def utf16_length_def cp_digit_def cp_letter_def cp_hex_def
  read_escape_def pct_byte_def hex_value_def utf8_lead_def utf8_valid_def char_of_eq_iff take_bit_eq_mod

theorem path_template_has_no_identifier_witness:
  "pathTemplate ''/users/123/orders/550e8400-e29b-41d4-a716-446655440000'' = Some ''/users/:id/orders/:id''
   \<and> pathTemplate ''/unsafe/%2Fsecret'' = None
   \<and> (\<exists>ss. ''/users/:id/orders/:id'' = CHR ''/'' # join_slash ss \<and> list_all safe_segment ss)"
proof -
  have one: "pathTemplate ''/users/123/orders/550e8400-e29b-41d4-a716-446655440000'' = Some ''/users/:id/orders/:id''"
    by (simp add: template_eval)
  have two: "pathTemplate ''/unsafe/%2Fsecret'' = None" by (simp add: template_eval)
  from path_template_has_no_identifier [OF one] one two show ?thesis by blast
qed

end
