(* ===== verification/Tunnel_Operation.thy ===== *)
theory Tunnel_Operation
  imports Route_Service Destination
begin

text \<open>
  \<open>src/tunnel-operation.ts\<close>, with \<open>src/proxy-attempt-accounting.ts\<close> and \<open>src/establishment-budget.ts\<close>: how
  a gateway establishes the tunnel of one operation. It resolves an endpoint, opens it, checks what the
  provider resolved, closes the capacity circuit, asks once more whether the connection is allowed,
  tracks it and commits; whatever fails, the candidate is released and excluded, the attempt is
  accounted for, and the next attempt follows while the error is retryable and attempts are left.

  What is outside the program (the upstream, the client's socket, random identifiers, the clock) is the
  record \<open>TunnelEnv\<close>, indexed by the attempt. Usage records are written without waiting for the store;
  they are collected in order. Spans, metrics and log lines are left out.
\<close>

subsection \<open>Budgets\<close>

definition operationDeadline :: "timestamp \<Rightarrow> int \<Rightarrow> timestamp" where
  "operationDeadline started timeout = started + timeout"

text \<open>The deadline of the attempt, or an error when the operation has no time left.\<close>

definition beginAttemptBudget :: "timestamp \<Rightarrow> timestamp \<Rightarrow> int \<Rightarrow> timestamp result" where
  "beginAttemptBudget now overallDeadline timeout =
     (if overallDeadline - now \<le> 0
      then Inl (throw (providerUnavailableError ''Candidate establishment exceeded the operation deadline'' ReasonTimeout))
      else Inr (now + min timeout (overallDeadline - now)))"

definition remainingMs :: "timestamp \<Rightarrow> timestamp \<Rightarrow> int" where
  "remainingMs now deadline = max 1 (deadline - now)"

subsection \<open>The record of an attempt\<close>

record AttemptUsageInput =
  au_attemptId :: string
  au_operationId :: string
  au_protocol :: DataPlaneProtocol
  au_outcome :: UsageOutcome
  au_attemptIndex :: nat
  au_attemptStartedAt :: timestamp
  au_completedAt :: timestamp
  au_provider :: ProviderId
  au_bytesSent :: int
  au_bytesReceived :: int
  au_destination :: UsageDestination
  au_upstream :: "UpstreamEndpoint option"

definition attemptUsageRecord :: "AuthenticatedRoute \<Rightarrow> ResolutionState \<Rightarrow> AttemptUsageInput \<Rightarrow> UsageRecord" where
  "attemptUsageRecord route st i =
     (let u = au_upstream i; d = au_destination i;
          slot = Option.bind u ep_proxySlotId;
          conn = Option.bind u upstreamConnectionId;
          pressed = (case u of None \<Rightarrow> False | Some e \<Rightarrow> ep_capacityPressure e = Some True);
          circuit = Option.bind u capacityCircuitState;
          policy = Option.bind u ep_routingPolicyVersion
      in \<lparr>ur_kind = Attempt, ur_id = au_attemptId i, logicalOperationId = au_operationId i, ur_jobId = ar_jobId route,
          ur_accessGrantId = ar_accessGrantId route, ur_sessionMode = Some (ar_sessionMode route),
          ur_sessionId = ar_sessionId route, ur_routeId = route_id route, ur_userId = userId route,
          ur_customerId = customerId route, ur_provider = au_provider i, ur_protocol = au_protocol i,
          ur_outcome = au_outcome i, retryIndex = int (au_attemptIndex i),
          failover = (au_provider i \<noteq> ''unresolved''
            \<and> (case primaryProvider st of None \<Rightarrow> False | Some p \<Rightarrow> au_provider i \<noteq> p)),
          bytesSent = au_bytesSent i, bytesReceived = au_bytesReceived i,
          latencyMs = Some (max 0 (au_completedAt i - au_attemptStartedAt i)),
          destinationDomain = Some (ud_domain d), destinationHost = Some (ud_host d), destinationPort = Some (ud_port d),
          destinationPathTemplate = ud_template d, ur_country = country (targeting route), ur_city = city (targeting route),
          ur_endpointId = map_option ep_endpointId u, ur_proxySlotId = slot,
          ur_deviceId = (if slot = None then None else Option.bind u (\<lambda>e. deviceId (assignment e))),
          ur_upstreamConnectionId = conn,
          connectionStartedAt = (if conn = None then None
            else or_else (Option.bind u upstreamConnectionStartedAt) (Some (au_attemptStartedAt i))),
          connectionEndedAt = (if conn = None then None else Some (au_completedAt i)),
          ur_selectedSlotLoad = (if slot = None then None else Option.bind u selectedSlotLoad),
          ur_capacityPressure = (if pressed then Some True else None),
          ur_capacityPressureProvider = (if pressed
            then or_else (Option.bind u ep_capacityPressureProvider) (map_option ep_provider u) else None),
          ur_capacityConstraint = rs_capacityConstraint st, ur_establishmentWaitMs = Some (rs_establishmentWaitMs st),
          ur_capacityPolicyVersion = (if pressed then Option.bind u ep_capacityPolicyVersion else rs_capacityPolicyVersion st),
          ur_providerOverride = providerOverride route,
          ur_capacityCircuitState = circuit,
          ur_capacityCircuitReason = (if circuit = None then None else Option.bind u capacityCircuitReason),
          ur_capacityCircuitCooldownUntil = (if circuit = None then None else Option.bind u capacityCircuitCooldownUntil),
          ur_routingPolicyVersion = policy,
          ur_routingScore = (if policy = None then None else Option.bind u ep_routingScore),
          ur_routingScoreComponents = (if policy = None then None else Option.bind u ep_routingScoreComponents),
          ur_sessionAffinityHit = rs_sessionAffinityHit st, ur_sessionRebindCause = rs_sessionRebindCause st,
          ur_desiredProviderClass = rs_desiredProviderClass st, ur_currentProviderClass = rs_currentProviderClass st,
          ur_degradedFallback = rs_degradedFallback st, ur_failbackOutcome = rs_failbackOutcome st,
          pricingVersion = None, pricingModel = None, priceUsd = None, capacityState = None,
          ur_startedAt = au_attemptStartedAt i, completedAt = au_completedAt i\<rparr>)"

subsection \<open>One attempt\<close>

record TunnelEnv =
  te_resolution :: "nat \<Rightarrow> ResolutionEnv"
  te_startedAt :: "nat \<Rightarrow> timestamp"
  te_completedAt :: "nat \<Rightarrow> timestamp"
  te_attemptId :: "nat \<Rightarrow> string"
  te_open :: "nat \<Rightarrow> UpstreamEndpoint \<Rightarrow> ProviderResolutionMetadata result"
  te_gone :: "nat \<Rightarrow> bool"
  te_cancelled :: "nat \<Rightarrow> bool"
  te_prepare :: "nat \<Rightarrow> (int \<times> int) result"
  te_terminate :: "nat \<Rightarrow> callback"
  te_fresh :: "nat \<Rightarrow> string"

record TunnelOptions =
  to_route :: AuthenticatedRoute
  to_protocol :: DataPlaneProtocol
  to_target :: ProxyTarget
  to_destination :: UsageDestination
  to_operationId :: string
  to_establishmentDeadline :: timestamp
  to_attemptTimeoutMs :: int

record tunnel_state =
  ts_store :: StoreState
  ts_tracker :: ActiveConnectionTracker
  ts_resolution :: ResolutionState
  ts_prepared :: "string list"
  ts_usage :: "UsageRecord list"

text \<open>An attempt fails with the error and the endpoint it had resolved by then, as it stands then.\<close>

type_synonym 'a attempt_op = "(exn \<times> UpstreamEndpoint option, tunnel_state, 'a) op"

definition resolve_attempt :: "TunnelEnv \<Rightarrow> TunnelOptions \<Rightarrow> nat \<Rightarrow> UpstreamEndpoint attempt_op" where
  "resolve_attempt env o' i x =
     (case resolve (te_resolution env i) (to_route o') (to_protocol o') (to_target o')
             (ts_store x, ts_resolution x, ts_prepared x) of
        (r, s, st, prepared) \<Rightarrow>
          let x = x\<lparr>ts_store := s, ts_resolution := st, ts_prepared := prepared\<rparr>
          in case r of
               Inl e \<Rightarrow> (Inl (e, None), x)
             | Inr None \<Rightarrow> (Inl (throw_error ''unreachable'', None), x)
             | Inr (Some ep) \<Rightarrow> (Inr ep, x))"

definition open_attempt :: "TunnelEnv \<Rightarrow> nat \<Rightarrow> UpstreamEndpoint \<Rightarrow> ProviderResolutionMetadata attempt_op" where
  "open_attempt env i ep x =
     (case te_open env i ep of
        Inl e \<Rightarrow> (Inl (e, Some ep), x)
      | Inr md \<Rightarrow> (case assertSafeProviderResolution md of Inl e \<Rightarrow> (Inl (e, Some ep), x) | Inr _ \<Rightarrow> (Inr md, x)))"

definition opened_attempt :: "TunnelEnv \<Rightarrow> nat \<Rightarrow> UpstreamEndpoint \<Rightarrow> ProviderResolutionMetadata \<Rightarrow> UpstreamEndpoint attempt_op" where
  "opened_attempt env i ep md x =
     (case recordCandidateSuccess (env_now (te_resolution env i)) ep (ts_store x) of
        (ep, s) \<Rightarrow>
          (Inr (case md_opaqueIpId md of
                  None \<Rightarrow> ep
                | Some k \<Rightarrow> ep\<lparr>assignment := (assignment ep)\<lparr>opaqueIpId := Some k\<rparr>\<rparr>), x\<lparr>ts_store := s\<rparr>))"

definition admit_attempt :: "TunnelEnv \<Rightarrow> TunnelOptions \<Rightarrow> nat \<Rightarrow> UpstreamEndpoint \<Rightarrow> unit attempt_op" where
  "admit_attempt env o' i ep x =
     (if te_gone env i
      then (Inl (throw (appError ''Caller disconnected during tunnel establishment'' CallerCancelled 499), Some ep), x)
      else case assertNewConnectionAllowed (route_id (to_route o')) (ar_accessGrantId (to_route o'))
                  (ar_sessionId (to_route o')) (ts_store x) (ts_tracker x) of
             Inl e \<Rightarrow> (Inl (e, Some ep), x)
           | Inr _ \<Rightarrow> (Inr (), x))"

definition track_attempt :: "TunnelEnv \<Rightarrow> TunnelOptions \<Rightarrow> nat \<Rightarrow> UpstreamEndpoint \<Rightarrow> (FinishHandle \<times> UpstreamEndpoint) attempt_op" where
  "track_attempt env o' i ep x =
     (case track (env_now (te_resolution env i)) (env_deploymentId (te_resolution env i)) (te_fresh env i)
             (route_id (to_route o')) (ar_accessGrantId (to_route o')) (ar_sessionId (to_route o')) (to_protocol o') ep
             (te_terminate env i) (ts_store x, ts_tracker x) of
        (Inl e, s, tr) \<Rightarrow> (Inl (e, Some ep), x\<lparr>ts_store := s, ts_tracker := tr\<rparr>)
      | (Inr h, s, tr) \<Rightarrow> (Inr h, x\<lparr>ts_store := s, ts_tracker := tr\<rparr>))"

definition commit_attempt :: "TunnelEnv \<Rightarrow> nat \<Rightarrow> FinishHandle \<Rightarrow> UpstreamEndpoint \<Rightarrow> (int \<times> int) attempt_op" where
  "commit_attempt env i h ep x =
     (case te_prepare env i of
        Inr bytes \<Rightarrow> (Inr bytes, x)
      | Inl e \<Rightarrow>
          (case finish (env_now (te_resolution env i)) h (ts_store x, ts_tracker x) of
             (s, tr) \<Rightarrow> (Inl (e, Some ep), x\<lparr>ts_store := s, ts_tracker := tr\<rparr>)))"

record OpenTunnel =
  ot_index :: nat
  ot_handle :: FinishHandle
  ot_upstream :: UpstreamEndpoint
  ot_bytesSent :: int
  ot_bytesReceived :: int

definition attempt_tunnel :: "TunnelEnv \<Rightarrow> TunnelOptions \<Rightarrow> nat \<Rightarrow> OpenTunnel attempt_op" where
  "attempt_tunnel env o' i =
     bind_op (resolve_attempt env o' i) (\<lambda>ep.
     bind_op (open_attempt env i ep) (\<lambda>md.
     bind_op (opened_attempt env i ep md) (\<lambda>ep.
     bind_op (admit_attempt env o' i ep) (\<lambda>_.
     bind_op (track_attempt env o' i ep) (\<lambda>(h, ep).
     bind_op (commit_attempt env i h ep) (\<lambda>(sent, received).
     return_op \<lparr>ot_index = i, ot_handle = h, ot_upstream = ep, ot_bytesSent = sent, ot_bytesReceived = received\<rparr>))))))"

subsection \<open>What follows a failure\<close>

definition max_attempts :: "AuthenticatedRoute \<Rightarrow> nat" where
  "max_attempts route = (if shouldRetry route then maxAttempts (retryPolicy route) else 1)"

definition attempt_record ::
  "TunnelEnv \<Rightarrow> TunnelOptions \<Rightarrow> nat \<Rightarrow> timestamp \<Rightarrow> UsageOutcome \<Rightarrow> ProviderId \<Rightarrow> int \<Rightarrow> int \<Rightarrow> UpstreamEndpoint option \<Rightarrow>
   tunnel_state \<Rightarrow> UsageRecord" where
  "attempt_record env o' i completed outcome provider sent received u x =
     attemptUsageRecord (to_route o') (ts_resolution x)
       \<lparr>au_attemptId = te_attemptId env i, au_operationId = to_operationId o', au_protocol = to_protocol o', au_outcome = outcome,
        au_attemptIndex = i, au_attemptStartedAt = te_startedAt env i, au_completedAt = completed,
        au_provider = provider, au_bytesSent = sent, au_bytesReceived = received, au_destination = to_destination o',
        au_upstream = u\<rparr>"

definition retry_after :: "TunnelEnv \<Rightarrow> TunnelOptions \<Rightarrow> nat \<Rightarrow> exn \<Rightarrow> bool" where
  "retry_after env o' i e \<longleftrightarrow>
     \<not> te_cancelled env i \<and> i + 1 < max_attempts (to_route o') \<and> isRetryableUpstreamFailure (exn_value e)"

definition fail_attempt :: "TunnelEnv \<Rightarrow> TunnelOptions \<Rightarrow> nat \<Rightarrow> exn \<Rightarrow> UpstreamEndpoint option \<Rightarrow> tunnel_state \<Rightarrow> tunnel_state" where
  "fail_attempt env o' i e u x =
     (let (u', s) = (case u of
            None \<Rightarrow> (None, ts_store x)
          | Some ep \<Rightarrow>
              let (ep, s) = recordCandidateFailure (env_now (te_resolution env i)) ep e (ts_store x);
                  (ep, s) = release ep s
              in (Some ep, s));
          st = (case u' of None \<Rightarrow> ts_resolution x | Some ep \<Rightarrow> exclude_candidate (ep_endpointId ep) (ts_resolution x));
          x = x\<lparr>ts_store := s, ts_resolution := st\<rparr>;
          attempted = or_else (map_option ep_provider u') (providerIdFromError e);
          provider = (case attempted of None \<Rightarrow> ''unresolved'' | Some p \<Rightarrow> p);
          outcome = (if retry_after env o' i e then OutcomeRetry else OutcomeFailure)
      in x\<lparr>ts_usage := ts_usage x @ [attempt_record env o' i (te_completedAt env i) outcome provider 0 0 u' x]\<rparr>)"

text \<open>\<open>throw lastError instanceof Error ? lastError : ...\<close>\<close>

definition final_error :: "DataPlaneProtocol \<Rightarrow> exn option \<Rightarrow> exn" where
  "final_error protocol lastError =
     (case lastError of
        Some e \<Rightarrow> if exn_value e \<noteq> NonError then e
                  else unavailable (if protocol = Socks5 then ''No provider could establish the SOCKS5 tunnel''
                                    else ''No provider could establish the tunnel'')
      | None \<Rightarrow> unavailable (if protocol = Socks5 then ''No provider could establish the SOCKS5 tunnel''
                            else ''No provider could establish the tunnel''))"

text \<open>The loop over the attempts, with the number of those left; the first uses the budget it was given.\<close>

fun tunnel_loop :: "TunnelEnv \<Rightarrow> TunnelOptions \<Rightarrow> nat \<Rightarrow> nat \<Rightarrow> exn option \<Rightarrow> (exn, tunnel_state, OpenTunnel) op" where
  "tunnel_loop env o' 0 i lastError x = (Inl (final_error (to_protocol o') lastError), x)"
| "tunnel_loop env o' (Suc n) i lastError x =
     (case (if i = 0 then Inr 0
            else beginAttemptBudget (te_startedAt env i) (to_establishmentDeadline o') (to_attemptTimeoutMs o')) of
        Inl e \<Rightarrow> (Inl e, x)
      | Inr _ \<Rightarrow>
          (case attempt_tunnel env o' i x of
             (Inr t, x) \<Rightarrow> (Inr t, x)
           | (Inl (e, u), x) \<Rightarrow>
               let x = fail_attempt env o' i e u x
               in if retry_after env o' i e then tunnel_loop env o' n (i + 1) (Some e) x
                  else (Inl (final_error (to_protocol o') (Some e)), x)))"

definition establishTunnel ::
  "TunnelEnv \<Rightarrow> TunnelOptions \<Rightarrow> StoreState \<times> ActiveConnectionTracker \<times> string list \<Rightarrow> (exn + OpenTunnel) \<times> tunnel_state" where
  "establishTunnel env o' x =
     (case x of (s, tr, prepared) \<Rightarrow>
      tunnel_loop env o' (max_attempts (to_route o')) 0 None
        \<lparr>ts_store = s, ts_tracker = tr, ts_resolution = createResolutionState, ts_prepared = prepared, ts_usage = []\<rparr>)"

text \<open>
  \<open>finishTunnel\<close>, on the first of the events that end the tunnel: the flag \<open>tunnelFinished\<close> is whether the
  handle of the tracker is still open. The bytes are those counted until then.
\<close>

definition finishTunnel :: "TunnelEnv \<Rightarrow> TunnelOptions \<Rightarrow> timestamp \<Rightarrow> OpenTunnel \<Rightarrow> UsageOutcome \<Rightarrow> int \<Rightarrow> int \<Rightarrow> tunnel_state \<Rightarrow> tunnel_state" where
  "finishTunnel env o' now t outcome sent received x =
     (if \<not> has (tr_unfinished (ts_tracker x)) (ot_handle t) then x
      else let (s, tr) = finish now (ot_handle t) (ts_store x, ts_tracker x);
               x = x\<lparr>ts_store := s, ts_tracker := tr\<rparr>
           in x\<lparr>ts_usage := ts_usage x @ [attempt_record env o' (ot_index t) now outcome (ep_provider (ot_upstream t)) sent received
                                             (Some (ot_upstream t)) x]\<rparr>)"

subsection \<open>Every attempt is accounted for\<close>

definition keeps_usage :: "tunnel_state \<Rightarrow> tunnel_state \<Rightarrow> bool" where
  "keeps_usage x y \<longleftrightarrow> ts_usage y = ts_usage x"

lemma attempt_tunnel_usage: "keeps_usage x (snd (attempt_tunnel env o' i x))"
  unfolding attempt_tunnel_def
proof (intro bind_op_keeps [where R = keeps_usage])
  show "keeps_usage x (snd (resolve_attempt env o' i x))" for x
    by (auto simp: keeps_usage_def resolve_attempt_def Let_def split: prod.split sum.split option.split)
  show "keeps_usage x (snd (open_attempt env i ep x))" for ep x
    by (auto simp: keeps_usage_def open_attempt_def split: sum.split)
  show "keeps_usage x (snd (opened_attempt env i ep md x))" for ep md x
    by (auto simp: keeps_usage_def opened_attempt_def split: prod.split)
  show "keeps_usage x (snd (admit_attempt env o' i ep x))" for ep x
    by (auto simp: keeps_usage_def admit_attempt_def split: sum.split)
  show "keeps_usage x (snd (track_attempt env o' i ep x))" for ep x
    by (auto simp: keeps_usage_def track_attempt_def split: prod.split sum.split)
  show "keeps_usage x (snd ((case a of (h, ep) \<Rightarrow> bind_op (commit_attempt env i h ep) (\<lambda>(sent, received).
      return_op \<lparr>ot_index = i, ot_handle = h, ot_upstream = ep, ot_bytesSent = sent, ot_bytesReceived = received\<rparr>)) x))" for a x
    by (cases a) (auto simp: keeps_usage_def bind_op_def commit_attempt_def split: prod.split sum.split)
qed (auto simp: keeps_usage_def)

lemma attempt_tunnel_index: "attempt_tunnel env o' i x = (Inr t, y) \<Longrightarrow> ot_index t = i"
  unfolding attempt_tunnel_def by (auto elim!: bind_op_InrE)

text \<open>What the accounting shows of an attempt: its identifier and index, how it ended, and the bytes it moved.\<close>

definition account :: "UsageRecord \<Rightarrow> string \<times> int \<times> UsageOutcome \<times> int" where
  "account r = (ur_id r, retryIndex r, ur_outcome r, bytesSent r + bytesReceived r)"

definition attempt_account :: "TunnelEnv \<Rightarrow> UsageOutcome \<Rightarrow> nat \<Rightarrow> string \<times> int \<times> UsageOutcome \<times> int" where
  "attempt_account env outcome i = (te_attemptId env i, int i, outcome, 0)"

lemma fail_attempt_account:
  "\<exists>r. ts_usage (fail_attempt env o' i e u x) = ts_usage x @ [r]
     \<and> account r = attempt_account env (if retry_after env o' i e then OutcomeRetry else OutcomeFailure) i"
  by (cases u)
     (auto simp: fail_attempt_def Let_def account_def attempt_account_def attempt_record_def attemptUsageRecord_def split: prod.split)

lemma tunnel_loop_account:
  assumes "tunnel_loop env o' n i lastError x = (r, y)" and "i + n = max_attempts (to_route o')"
  shows "\<exists>k U. ts_usage y = ts_usage x @ U
    \<and> (case r of
         Inr t \<Rightarrow> ot_index t = i + k \<and> k < n \<and> map account U = map (attempt_account env OutcomeRetry) [i..<i + k]
       | Inl e \<Rightarrow> k \<le> n \<and> (map account U = map (attempt_account env OutcomeRetry) [i..<i + k]
           \<or> map account U = map (attempt_account env OutcomeRetry) [i..<i + k - 1] @ [attempt_account env OutcomeFailure (i + k - 1)]
             \<and> 0 < k))"
  using assms
proof (induction n arbitrary: i lastError x)
  case 0
  then show ?case by (intro exI [of _ 0] exI [of _ "[]"]) auto
next
  case (Suc n)
  let ?budget = "if i = 0 then Inr 0 else beginAttemptBudget (te_startedAt env i) (to_establishmentDeadline o') (to_attemptTimeoutMs o')"
  show ?case
  proof (cases ?budget)
    case (Inl e)
    with Suc.prems(1) have "y = x" "r = Inl e" by auto
    then show ?thesis by (intro exI [of _ 0] exI [of _ "[]"]) auto
  next
    case budget: (Inr d)
    obtain r1 x1 where one: "attempt_tunnel env o' i x = (r1, x1)" by (meson surj_pair)
    with attempt_tunnel_usage [of x env o' i] have U1: "ts_usage x1 = ts_usage x" by (simp add: keeps_usage_def)
    show ?thesis
    proof (cases r1)
      case (Inr t)
      with Suc.prems(1) budget one have "r = Inr t" "y = x1" by (auto split: if_splits)
      moreover from one Inr have "ot_index t = i" by (blast dest: attempt_tunnel_index)
      ultimately show ?thesis using U1 by (intro exI [of _ 0] exI [of _ "[]"]) auto
    next
      case (Inl eu)
      obtain e u where eu: "eu = (e, u)" by (meson surj_pair)
      obtain a where a: "ts_usage (fail_attempt env o' i e u x1) = ts_usage x @ [a]"
          "account a = attempt_account env (if retry_after env o' i e then OutcomeRetry else OutcomeFailure) i"
        using fail_attempt_account [of env o' i e u x1] U1 by auto
      show ?thesis
      proof (cases "retry_after env o' i e")
        case False
        with Suc.prems(1) budget one Inl eu have "y = fail_attempt env o' i e u x1" "\<exists>e. r = Inl e"
          by (auto simp: Let_def split: if_splits)
        with a False show ?thesis by (intro exI [of _ 1] exI [of _ "[a]"]) auto
      next
        case True
        with Suc.prems(1) budget one Inl eu
        have rest: "tunnel_loop env o' n (i + 1) (Some e) (fail_attempt env o' i e u x1) = (r, y)"
          by (auto simp: Let_def split: if_splits)
        from Suc.IH [OF rest] Suc.prems(2) obtain k U where IH: "ts_usage y = ts_usage x @ [a] @ U"
          "case r of
             Inr t \<Rightarrow> ot_index t = i + 1 + k \<and> k < n \<and> map account U = map (attempt_account env OutcomeRetry) [i + 1..<i + 1 + k]
           | Inl e \<Rightarrow> k \<le> n \<and> (map account U = map (attempt_account env OutcomeRetry) [i + 1..<i + 1 + k]
               \<or> map account U = map (attempt_account env OutcomeRetry) [i + 1..<i + 1 + k - 1]
                   @ [attempt_account env OutcomeFailure (i + 1 + k - 1)] \<and> 0 < k)" using a(1) by auto
        have head: "[i..<i + Suc k] = i # [i + 1..<i + 1 + k]" "0 < k \<Longrightarrow> [i..<i + Suc k - 1] = i # [i + 1..<i + 1 + k - 1]"
          by (simp_all add: upt_conv_Cons)
        show ?thesis
          by (rule exI [of _ "Suc k"], rule exI [of _ "a # U"])
             (use IH a(2) True head in \<open>auto split: sum.splits\<close>)
      qed
    qed
  qed
qed


subsection \<open>The slot of a tunnel\<close>

definition slot_ids :: "StoreState \<Rightarrow> string list" where
  "slot_ids s = js_keys (st_tunnels s)"

lemma js_keys_update: "js_keys (js_set m k v) = (if js_has m k then js_keys m else js_keys m @ [k])"
  by (induction m) (auto simp: js_keys_def js_set_def js_has_def js_get_def split: if_splits)

lemma js_keys_delete: "js_keys (js_delete m k) = filter (\<lambda>i. i \<noteq> k) (js_keys m)"
  by (induction m) (auto simp: js_keys_def js_delete_def AList.delete_eq)

lemma js_has_keys: "js_has m k \<longleftrightarrow> k \<in> set (js_keys m)"
  by (induction m) (auto simp: js_keys_def js_has_def js_get_def split: if_splits)

lemma slot_ids_tunnels: "st_tunnels s' = st_tunnels s \<Longrightarrow> slot_ids s' = slot_ids s"
  by (simp add: slot_ids_def)

lemma remove_slot_ids: "slot_ids (removeActiveTunnel k s) = filter (\<lambda>i. i \<noteq> k) (slot_ids s)"
  by (simp add: slot_ids_def removeActiveTunnel_def js_keys_delete)

lemma heartbeat_slot_ids: "slot_ids (heartbeatActiveTunnel k a b s) = slot_ids s"
  by (auto simp: slot_ids_def heartbeatActiveTunnel_def js_keys_update js_has_def split: option.split)

lemma poll_slot_ids: "slot_ids (fst (poll now did (s, tr))) = slot_ids s"
proof -
  have beats: "slot_ids (foldl (\<lambda>s (cid, c). if now < tc_nextHeartbeatAt c then s
      else heartbeatActiveTunnel cid now (now + ACTIVE_CONNECTION_TTL_MS) s) s cs) = slot_ids s" for cs
    by (induction cs arbitrary: s) (auto simp: heartbeat_slot_ids)
  show ?thesis
    unfolding poll_def poll_heartbeats_def fst_conv snd_conv
    by (cases "tr_connections tr = []") (simp_all only: if_True if_False simp_thms fst_conv beats)
qed

lemma poll_tracker:
  "tr_unfinished (snd (poll now did (s, tr))) = tr_unfinished tr"
  "js_keys (tr_connections (snd (poll now did (s, tr)))) = js_keys (tr_connections tr)"
proof -
  have frame: "tr_unfinished (poll_deployment now did s (poll_epoch s tr)) = tr_unfinished tr"
    "tr_connections (poll_deployment now did s (poll_epoch s tr)) = tr_connections tr"
    by (simp_all add: poll_deployment_def poll_epoch_def terminateAll_def call_all_def Let_def)
  show "tr_unfinished (snd (poll now did (s, tr))) = tr_unfinished tr"
    "js_keys (tr_connections (snd (poll now did (s, tr)))) = js_keys (tr_connections tr)"
    by (simp_all add: poll_def poll_heartbeats_def frame js_keys_def comp_def case_prod_beta)
qed

lemma track_claimed:
  assumes "activeLoadClaimId ep = Some k"
  obtains h ep' s' tr' where "track now did fresh rid gid sid protocol ep cb (s, tr) = (Inr (h, ep'), s', tr')"
    "slot_ids s' = slot_ids s" "activeLoadClaimId ep' = Some k" "fh_connectionId h = k"
    "has (tr_unfinished tr') h" "js_has (tr_connections tr') k"
proof -
  let ?s = "heartbeatActiveTunnel k now (now + ACTIVE_CONNECTION_TTL_MS) s"
  obtain h tr1 where reg: "register_connection now k rid gid sid cb tr = (h, tr1)" by (meson surj_pair)
  then have tr1: "fh_connectionId h = k" "has (tr_unfinished tr1) h" "js_has (tr_connections tr1) k"
    by (auto simp: register_connection_def Let_def)
  obtain s' tr' where start: "startPoller now did (?s, tr1) = (s', tr')" by (meson surj_pair)
  have frame: "slot_ids s' = slot_ids s \<and> tr_unfinished tr' = tr_unfinished tr1 \<and> js_keys (tr_connections tr') = js_keys (tr_connections tr1)"
    using start poll_slot_ids [of now did ?s tr1] poll_tracker [of now did ?s tr1]
    by (auto simp: startPoller_def heartbeat_slot_ids split: if_splits prod.splits)
  have run: "track now did fresh rid gid sid protocol ep cb (s, tr)
      = (Inr (h, ep\<lparr>upstreamConnectionId := Some k, upstreamConnectionStartedAt := Some now\<rparr>), s', tr')"
    using start reg assms by (simp add: track_def Let_def)
  show thesis by (rule that [OF run]) (use frame tr1 assms in \<open>simp_all add: js_has_keys\<close>)
qed

lemma finish_slot_ids:
  "slot_ids (fst (finish now h (s, tr))) =
     (if has (tr_unfinished tr) h then filter (\<lambda>i. i \<noteq> fh_connectionId h) (slot_ids s) else slot_ids s)"
proof -
  have "slot_ids (recordDisconnect now i s) = slot_ids s" for i s
    by (auto simp: recordDisconnect_def slot_ids_def split: sum.split)
  then show ?thesis by (auto simp: finish_def Let_def remove_slot_ids split: option.split)
qed

lemma finish_unfinished: "\<not> has (tr_unfinished (snd (finish now h st))) h"
  by (auto simp: finish_def Let_def stopPollerWhenIdle_def split: option.split)

lemma success_frame:
  assumes "recordCandidateSuccess now ep s = (ep', s')"
  shows "activeLoadClaimId ep' = activeLoadClaimId ep \<and> slot_ids s' = slot_ids s"
proof -
  obtain c s1 where c: "getCapacityCircuit (ep_provider ep) (circuit_key_for ep) now s = (c, s1)" by (meson surj_pair)
  then have "st_tunnels s1 = st_tunnels s" by (metis getCapacityCircuit_tunnels snd_conv)
  with assms c show ?thesis
    by (auto simp: recordCandidateSuccess_def resetCapacityCircuit_def slot_ids_def split: option.splits)
qed

lemma failure_frame:
  assumes "recordCandidateFailure now ep e s = (ep', s')"
  shows "activeLoadClaimId ep' = activeLoadClaimId ep \<and> slot_ids s' = slot_ids s"
proof -
  obtain c s1 where c: "recordCapacityFailure now (ep_provider ep) (circuit_key_for ep) e s = (c, s1)" by (meson surj_pair)
  then have "st_tunnels s1 = st_tunnels s" by (metis recordCapacityFailure_tunnels snd_conv)
  with assms c show ?thesis by (auto simp: recordCandidateFailure_def slot_ids_def split: option.splits)
qed

text \<open>The claim of a resolution, seen as identifiers.\<close>

lemma resolve_slot_ids:
  assumes "resolve env route protocol target (s, st, prepared) = (r, s', y)" and "adapters_ok env"
  shows "case r of
      Inr (Some ep) \<Rightarrow> \<exists>k. activeLoadClaimId ep = Some k \<and> k \<notin> set (slot_ids s) \<and> slot_ids s' = slot_ids s @ [k]
    | _ \<Rightarrow> slot_ids s' = slot_ids s"
proof -
  from resolve_rounds_ok [of 3 env route protocol target "(s, st, prepared)" r "(s', y)" True "st_tunnels s"] assms
  have ok: "case r of
      Inr (Some ep) \<Rightarrow> activeLoadClaimId ep \<noteq> None \<and> holds_slot route (st_tunnels s) (activeLoadClaimId ep) s'
    | _ \<Rightarrow> st_tunnels s' = st_tunnels s" by (auto simp: resolve_def split: sum.splits option.splits)
  then show ?thesis
    by (auto simp: holds_slot_def slot_ids_def js_keys_update js_has_keys split: sum.splits option.splits)
qed

definition claims :: "string list \<Rightarrow> UpstreamEndpoint \<Rightarrow> tunnel_state \<Rightarrow> bool" where
  "claims T ep x \<longleftrightarrow> (\<exists>k. activeLoadClaimId ep = Some k \<and> k \<notin> set T \<and> slot_ids (ts_store x) = T @ [k])"

definition open_tunnel :: "string list \<Rightarrow> OpenTunnel \<Rightarrow> tunnel_state \<Rightarrow> bool" where
  "open_tunnel T t x \<longleftrightarrow> claims T (ot_upstream t) x \<and> activeLoadClaimId (ot_upstream t) = Some (fh_connectionId (ot_handle t))
     \<and> has (tr_unfinished (ts_tracker x)) (ot_handle t) \<and> js_has (tr_connections (ts_tracker x)) (fh_connectionId (ot_handle t))"

definition failed_attempt :: "string list \<Rightarrow> exn \<times> UpstreamEndpoint option \<Rightarrow> tunnel_state \<Rightarrow> bool" where
  "failed_attempt T eu x =
     (case snd eu of
        None \<Rightarrow> slot_ids (ts_store x) = T
      | Some ep \<Rightarrow> \<exists>k. activeLoadClaimId ep = Some k \<and> k \<notin> set T \<and> slot_ids (ts_store x) \<in> {T, T @ [k]})"

lemma claims_failed: "claims T ep x \<Longrightarrow> failed_attempt T (e, Some ep) x"
  by (auto simp: claims_def failed_attempt_def)

lemma resolve_attempt_slot:
  assumes "adapters_ok (te_resolution env i)"
  shows "triple (\<lambda>x. slot_ids (ts_store x) = T) (resolve_attempt env o' i) (claims T) (failed_attempt T)"
  unfolding triple_def
proof (intro allI impI, elim conjE)
  fix x r y
  assume T: "slot_ids (ts_store x) = T" and run: "resolve_attempt env o' i x = (r, y)"
  obtain r1 s1 st1 p1 where one: "resolve (te_resolution env i) (to_route o') (to_protocol o') (to_target o')
      (ts_store x, ts_resolution x, ts_prepared x) = (r1, s1, st1, p1)" by (metis prod_cases4)
  from resolve_slot_ids [OF one assms] run one T show "case r of Inl e \<Rightarrow> failed_attempt T e y | Inr ep \<Rightarrow> claims T ep y"
    by (auto simp: resolve_attempt_def Let_def claims_def failed_attempt_def split: sum.splits option.splits)
qed

lemma open_attempt_slot: "triple (claims T ep) (open_attempt env i ep) (\<lambda>_. claims T ep) (failed_attempt T)"
  by (auto simp: triple_def open_attempt_def intro: claims_failed split: sum.splits)

lemma opened_attempt_slot: "triple (claims T ep) (opened_attempt env i ep md) (claims T) (failed_attempt T)"
  unfolding triple_def opened_attempt_def
  by (auto simp: claims_def split: prod.splits option.splits dest!: success_frame)

lemma admit_attempt_slot: "triple (claims T ep) (admit_attempt env o' i ep) (\<lambda>_. claims T ep) (failed_attempt T)"
  by (auto simp: triple_def admit_attempt_def intro: claims_failed split: sum.splits if_splits)

lemma track_attempt_slot:
  "triple (claims T ep) (track_attempt env o' i ep)
     (\<lambda>(h, ep') x. claims T ep' x \<and> activeLoadClaimId ep' = Some (fh_connectionId h) \<and> has (tr_unfinished (ts_tracker x)) h
        \<and> js_has (tr_connections (ts_tracker x)) (fh_connectionId h)) (failed_attempt T)"
  unfolding triple_def
proof (intro allI impI, elim conjE)
  fix x r y
  assume held: "claims T ep x" and run: "track_attempt env o' i ep x = (r, y)"
  then obtain k where k: "activeLoadClaimId ep = Some k" "k \<notin> set T" "slot_ids (ts_store x) = T @ [k]" by (auto simp: claims_def)
  obtain h ep' s' tr' where "track (env_now (te_resolution env i)) (env_deploymentId (te_resolution env i)) (te_fresh env i)
      (route_id (to_route o')) (ar_accessGrantId (to_route o')) (ar_sessionId (to_route o')) (to_protocol o') ep
      (te_terminate env i) (ts_store x, ts_tracker x) = (Inr (h, ep'), s', tr')"
    "slot_ids s' = slot_ids (ts_store x)" "activeLoadClaimId ep' = Some k" "fh_connectionId h = k"
    "has (tr_unfinished tr') h" "js_has (tr_connections tr') k"
    by (rule track_claimed [OF k(1)])
  with run k show "case r of Inl e \<Rightarrow> failed_attempt T e y | Inr a \<Rightarrow> (case a of (h, ep') \<Rightarrow> \<lambda>x. claims T ep' x
      \<and> activeLoadClaimId ep' = Some (fh_connectionId h) \<and> has (tr_unfinished (ts_tracker x)) h
      \<and> js_has (tr_connections (ts_tracker x)) (fh_connectionId h)) y"
    by (auto simp: track_attempt_def claims_def)
qed

lemma filter_fresh: "k \<notin> set T \<Longrightarrow> filter (\<lambda>i. i \<noteq> k) (T @ [k]) = T" "k \<notin> set T \<Longrightarrow> filter (\<lambda>i. i \<noteq> k) T = T"
  by (auto simp: filter_id_conv)

lemma commit_attempt_slot:
  "triple (\<lambda>x. claims T ep x \<and> activeLoadClaimId ep = Some (fh_connectionId h)) (commit_attempt env i h ep)
     (\<lambda>bytes x. True) (failed_attempt T)"
  unfolding triple_def
proof (intro allI impI, elim conjE)
  fix x r y
  assume held: "claims T ep x" "activeLoadClaimId ep = Some (fh_connectionId h)" and run: "commit_attempt env i h ep x = (r, y)"
  then have ids: "slot_ids (ts_store x) = T @ [fh_connectionId h]" "fh_connectionId h \<notin> set T" by (auto simp: claims_def)
  obtain s1 tr1 where fin: "finish (env_now (te_resolution env i)) h (ts_store x, ts_tracker x) = (s1, tr1)" by (meson surj_pair)
  from finish_slot_ids [of "env_now (te_resolution env i)" h "ts_store x" "ts_tracker x"] fin ids
  have "slot_ids s1 \<in> {T, T @ [fh_connectionId h]}" using filter_fresh(2) [OF ids(2)] by auto
  with run fin held ids show "case r of Inl e \<Rightarrow> failed_attempt T e y | Inr bytes \<Rightarrow> True"
    by (auto simp: commit_attempt_def failed_attempt_def split: sum.splits)
qed

lemma commit_attempt_keeps: "commit_attempt env i h ep x = (Inr bytes, y) \<Longrightarrow> y = x"
  by (auto simp: commit_attempt_def split: sum.splits prod.splits)

lemma attempt_tunnel_slot:
  assumes "adapters_ok (te_resolution env i)"
  shows "triple (\<lambda>x. slot_ids (ts_store x) = T) (attempt_tunnel env o' i) (open_tunnel T) (failed_attempt T)"
  unfolding attempt_tunnel_def
proof (rule triple_bind [OF resolve_attempt_slot [OF assms]], rule triple_bind [OF open_attempt_slot],
    rule triple_bind [OF opened_attempt_slot], rule triple_bind [OF admit_attempt_slot], rule triple_bind [OF track_attempt_slot])
  fix a :: "FinishHandle \<times> UpstreamEndpoint"
  obtain h ep where a: "a = (h, ep)" by (meson surj_pair)
  show "triple ((case a of (h, ep') \<Rightarrow> \<lambda>x. claims T ep' x \<and> activeLoadClaimId ep' = Some (fh_connectionId h)
        \<and> has (tr_unfinished (ts_tracker x)) h \<and> js_has (tr_connections (ts_tracker x)) (fh_connectionId h)))
      (case a of (h, ep) \<Rightarrow> bind_op (commit_attempt env i h ep) (\<lambda>(sent, received).
         return_op \<lparr>ot_index = i, ot_handle = h, ot_upstream = ep, ot_bytesSent = sent, ot_bytesReceived = received\<rparr>))
      (open_tunnel T) (failed_attempt T)"
    using commit_attempt_slot [of T ep h env i] commit_attempt_keeps [of env i h ep]
    unfolding a triple_def bind_op_def open_tunnel_def prod.case
    by (fastforce split: prod.splits sum.splits)
qed

lemma fail_attempt_slot: "failed_attempt T (e, u) x \<Longrightarrow> slot_ids (ts_store (fail_attempt env o' i e u x)) = T"
proof (cases u)
  case None
  then show "failed_attempt T (e, u) x \<Longrightarrow> ?thesis" by (simp add: failed_attempt_def fail_attempt_def Let_def)
next
  case (Some ep)
  assume "failed_attempt T (e, u) x"
  with Some obtain k where k: "activeLoadClaimId ep = Some k" "k \<notin> set T" "slot_ids (ts_store x) \<in> {T, T @ [k]}"
    by (auto simp: failed_attempt_def)
  obtain ep1 s1 where rec: "recordCandidateFailure (env_now (te_resolution env i)) ep e (ts_store x) = (ep1, s1)" by (meson surj_pair)
  from failure_frame [OF rec] k filter_fresh [OF k(2)] have "slot_ids (snd (release ep1 s1)) = T"
    by (auto simp: release_def remove_slot_ids)
  with Some rec show ?thesis by (auto simp: fail_attempt_def Let_def split: prod.splits)
qed

lemma tunnel_loop_slot:
  assumes "\<And>i. adapters_ok (te_resolution env i)"
    and "tunnel_loop env o' n i lastError x = (r, y)" and "slot_ids (ts_store x) = T"
  shows "case r of Inl e \<Rightarrow> slot_ids (ts_store y) = T | Inr t \<Rightarrow> open_tunnel T t y"
  using assms(2,3)
proof (induction n arbitrary: i lastError x)
  case (Suc n)
  obtain r1 x1 where one: "attempt_tunnel env o' i x = (r1, x1)" by (meson surj_pair)
  note slot = triple_run [OF attempt_tunnel_slot [OF assms(1)] Suc.prems(2) one]
  show ?case
  proof (cases r1)
    case (Inr t)
    with Suc.prems one slot show ?thesis by (auto split: sum.splits if_splits)
  next
    case (Inl eu)
    obtain e u where eu: "eu = (e, u)" by (meson surj_pair)
    with slot Inl have freed: "slot_ids (ts_store (fail_attempt env o' i e u x1)) = T" by (auto intro: fail_attempt_slot)
    from Suc.prems one Inl eu freed Suc.IH [OF _ freed, of "i + 1" "Some e"] show ?thesis
      by (auto simp: Let_def split: sum.splits if_splits)
  qed
qed auto

lemma finishTunnel_slot:
  assumes "open_tunnel T t y" and z: "z = finishTunnel env o' now t outcome sent received y"
  shows "slot_ids (ts_store z) = T
    \<and> (\<exists>r. ts_usage z = ts_usage y @ [r] \<and> account r = (te_attemptId env (ot_index t), int (ot_index t), outcome, sent + received))
    \<and> \<not> has (tr_unfinished (ts_tracker z)) (ot_handle t)"
proof -
  from assms(1) have t: "has (tr_unfinished (ts_tracker y)) (ot_handle t)" "fh_connectionId (ot_handle t) \<notin> set T"
    "slot_ids (ts_store y) = T @ [fh_connectionId (ot_handle t)]" by (auto simp: open_tunnel_def claims_def)
  obtain s1 tr1 where fin: "finish now (ot_handle t) (ts_store y, ts_tracker y) = (s1, tr1)" by (meson surj_pair)
  from finish_slot_ids [of now "ot_handle t" "ts_store y" "ts_tracker y"] fin t filter_fresh(1) [OF t(2)]
  have s1: "slot_ids s1 = T" by simp
  from finish_unfinished [where now = now and h = "ot_handle t" and st = "(ts_store y, ts_tracker y)"] fin have "\<not> has (tr_unfinished tr1) (ot_handle t)" by simp
  with s1 fin t(1) show ?thesis
    by (auto simp: z finishTunnel_def Let_def account_def attempt_record_def attemptUsageRecord_def)
qed

text \<open>
  C6. A tunnel holds its slot exactly while it is open: an operation that fails, on whichever path and
  after however many attempts, leaves the registered tunnels as they were; one that succeeds has added
  exactly one, which is tracked. Finishing the tunnel removes it again and writes exactly one record
  with its outcome and bytes; whatever event comes later changes nothing.
\<close>

theorem tunnel_life_cycle:
  assumes "\<forall>i. adapters_ok (te_resolution env i)"
  shows "case establishTunnel env o' (s, tr, prepared) of
      (Inl e, y) \<Rightarrow> slot_ids (ts_store y) = slot_ids s
    | (Inr t, y) \<Rightarrow>
        let z = finishTunnel env o' now t outcome sent received y
        in (\<exists>k. k \<notin> set (slot_ids s) \<and> slot_ids (ts_store y) = slot_ids s @ [k] \<and> js_has (tr_connections (ts_tracker y)) k)
           \<and> slot_ids (ts_store z) = slot_ids s
           \<and> (\<exists>r. ts_usage z = ts_usage y @ [r]
                \<and> account r = (te_attemptId env (ot_index t), int (ot_index t), outcome, sent + received))
           \<and> finishTunnel env o' now' t outcome' sent' received' z = z"
proof -
  obtain r y where run: "establishTunnel env o' (s, tr, prepared) = (r, y)" by (meson surj_pair)
  have slot: "case r of Inl e \<Rightarrow> slot_ids (ts_store y) = slot_ids s | Inr t \<Rightarrow> open_tunnel (slot_ids s) t y"
    by (rule tunnel_loop_slot [OF _ run [unfolded establishTunnel_def prod.case]]) (use assms in simp_all)
  show ?thesis
  proof (cases r)
    case (Inl e)
    with slot run show ?thesis by simp
  next
    case (Inr t)
    with slot have t: "open_tunnel (slot_ids s) t y" by simp
    then have "\<exists>k. k \<notin> set (slot_ids s) \<and> slot_ids (ts_store y) = slot_ids s @ [k] \<and> js_has (tr_connections (ts_tracker y)) k"
      by (auto simp: open_tunnel_def claims_def)
    with finishTunnel_slot [OF t refl, of env o' now outcome sent received] run Inr show ?thesis
      by (simp add: Let_def) (simp add: finishTunnel_def [where now = now'])
  qed
qed

subsubsection \<open>A concrete tunnel\<close>

definition sample_tunnel_env :: TunnelEnv where
  "sample_tunnel_env =
     \<lparr>te_resolution = (\<lambda>_. sample_env), te_startedAt = (\<lambda>_. 1000), te_completedAt = (\<lambda>_. 1000),
      te_attemptId = (\<lambda>i. ''attempt-'' @ show_nat i),
      te_open = (\<lambda>_ _. Inr \<lparr>resolvedDestinationAddresses = None, resolverCountry = None, md_opaqueIpId = None\<rparr>),
      te_gone = (\<lambda>_. False), te_cancelled = (\<lambda>_. False), te_prepare = (\<lambda>_. Inr (10, 20)), te_terminate = (\<lambda>_. ''cut''),
      te_fresh = (\<lambda>_. ''fresh'')\<rparr>"

definition sample_tunnel_options :: TunnelOptions where
  "sample_tunnel_options =
     \<lparr>to_route = sample_auth_route, to_protocol = Http, to_target = \<lparr>pt_host = ''example.com'', pt_port = 80\<rparr>,
      to_destination = \<lparr>ud_domain = ''example.com'', ud_host = ''example.com'', ud_port = 80, ud_template = None\<rparr>,
      to_operationId = ''op'', to_establishmentDeadline = 5000, to_attemptTimeoutMs = 1000\<rparr>"

lemma sample_tunnel_opens:
  "(case establishTunnel sample_tunnel_env sample_tunnel_options (sample_store, new_tracker, []) of
      (Inr t, y) \<Rightarrow> ot_index t = 0 \<and> ot_bytesSent t = 10 | _ \<Rightarrow> False)"
  by code_simp

theorem tunnel_life_cycle_witness:
  "\<exists>t y. establishTunnel sample_tunnel_env sample_tunnel_options (sample_store, new_tracker, []) = (Inr t, y)
     \<and> length (slot_ids (ts_store y)) = length (slot_ids sample_store) + 1
     \<and> slot_ids (ts_store (finishTunnel sample_tunnel_env sample_tunnel_options 2000 t OutcomeSuccess 10 20 y)) = slot_ids sample_store"
proof -
  have ok: "\<forall>i. adapters_ok (te_resolution sample_tunnel_env i)" by (simp add: sample_tunnel_env_def sample_env_ok)
  obtain t y where run: "establishTunnel sample_tunnel_env sample_tunnel_options (sample_store, new_tracker, []) = (Inr t, y)"
    using sample_tunnel_opens by (auto split: prod.splits sum.splits)
  from tunnel_life_cycle [OF ok, where o' = sample_tunnel_options and s = sample_store and tr = new_tracker and prepared = "[]"
      and now = 2000 and outcome = OutcomeSuccess and sent = 10 and received = 20
      and now' = 0 and outcome' = OutcomeSuccess and sent' = 0 and received' = 0] run
  have "(\<exists>k. slot_ids (ts_store y) = slot_ids sample_store @ [k])
      \<and> slot_ids (ts_store (finishTunnel sample_tunnel_env sample_tunnel_options 2000 t OutcomeSuccess 10 20 y)) = slot_ids sample_store"
    unfolding Let_def by auto
  with run show ?thesis by (intro exI [of _ t] exI [of _ y]) auto
qed

end
