(* ===== verification/Usage_Periods.thy ===== *)
theory Usage_Periods
  imports Health_Usage_Domain
begin

text \<open>
  \<open>periodStart\<close> and \<open>nextPeriod\<close> of \<open>src/usage-accounting-core.ts\<close>: the hours, days, weeks (from Monday)
  and months of UTC by which usage is summed up. JavaScript's \<open>Date\<close> is written out on milliseconds
  since the epoch, after the abstract operations of ECMAScript (\<open>Day\<close>, \<open>DayFromYear\<close>, \<open>MakeDay\<close>, ...).
\<close>

subsection \<open>Dates\<close>

definition msPerHour :: int where
  "msPerHour = 3600000"

definition msPerDay :: int where
  "msPerDay = 86400000"

definition DayFromYear :: "int \<Rightarrow> int" where
  "DayFromYear y = 365 * (y - 1970) + (y - 1969) div 4 - (y - 1901) div 100 + (y - 1601) div 400"

text \<open>The year whose days include the given one: an estimate by the mean year, corrected by one at most.\<close>

definition YearFromDay :: "int \<Rightarrow> int" where
  "YearFromDay d =
     (let y = 1970 + (400 * d) div 146097
      in if d < DayFromYear y then y - 1 else if DayFromYear (y + 1) \<le> d then y + 1 else y)"

definition month_starts :: "int \<Rightarrow> int list" where
  "month_starts y =
     (let l = (if DayFromYear (y + 1) - DayFromYear y = 366 then 1 else 0)
      in [0, 31, 59 + l, 90 + l, 120 + l, 151 + l, 181 + l, 212 + l, 243 + l, 273 + l, 304 + l, 334 + l])"

definition MonthFromDay :: "int \<Rightarrow> nat" where
  "MonthFromDay d =
     (let y = YearFromDay d in length (filter (\<lambda>s. s \<le> d - DayFromYear y) (month_starts y)) - 1)"

definition DateFromDay :: "int \<Rightarrow> int" where
  "DateFromDay d = (let y = YearFromDay d in d - DayFromYear y - month_starts y ! MonthFromDay d + 1)"

text \<open>\<open>MakeDay\<close>: a month past December counts in the next year.\<close>

definition MakeDay :: "int \<Rightarrow> nat \<Rightarrow> int \<Rightarrow> int" where
  "MakeDay y m date = (let y' = y + int (m div 12) in DayFromYear y' + month_starts y' ! (m mod 12) + date - 1)"

definition getUTCDay :: "timestamp \<Rightarrow> int" where
  "getUTCDay t = (t div msPerDay + 4) mod 7"

text \<open>\<open>toISOString\<close> for the years 0 to 9999: fields of fixed width.\<close>

fun digits :: "nat \<Rightarrow> int \<Rightarrow> string" where
  "digits 0 n = []"
| "digits (Suc k) n = digits k (n div 10) @ [''0123456789'' ! nat (n mod 10)]"

definition toISOString :: "timestamp \<Rightarrow> string" where
  "toISOString t =
     (let d = t div msPerDay; ms = t mod msPerDay
      in digits 4 (YearFromDay d) @ ''-'' @ digits 2 (int (MonthFromDay d) + 1) @ ''-'' @ digits 2 (DateFromDay d) @ ''T'' @
         digits 2 (ms div 3600000) @ '':'' @ digits 2 (ms div 60000 mod 60) @ '':'' @ digits 2 (ms div 1000 mod 60) @ ''.'' @
         digits 3 (ms mod 1000) @ ''Z'')"

subsection \<open>Periods\<close>

definition periodStart :: "timestamp \<Rightarrow> UsageInterval \<Rightarrow> timestamp" where
  "periodStart t interval =
     (case interval of
        IntervalHour \<Rightarrow> t - t mod msPerHour
      | IntervalDay \<Rightarrow> t - t mod msPerDay
      | IntervalWeek \<Rightarrow> (let day = t - t mod msPerDay in day - ((getUTCDay day + 6) mod 7) * msPerDay)
      | IntervalMonth \<Rightarrow> (let d = t div msPerDay in MakeDay (YearFromDay d) (MonthFromDay d) 1 * msPerDay))"

definition nextPeriod :: "timestamp \<Rightarrow> UsageInterval \<Rightarrow> timestamp" where
  "nextPeriod start interval =
     (case interval of
        IntervalHour \<Rightarrow> start + msPerHour
      | IntervalDay \<Rightarrow> start + msPerDay
      | IntervalWeek \<Rightarrow> start + 7 * msPerDay
      | IntervalMonth \<Rightarrow>
          (let d = start div msPerDay
           in MakeDay (YearFromDay d) (MonthFromDay d + 1) (DateFromDay d) * msPerDay + start mod msPerDay))"

subsection \<open>Years and months\<close>

lemma div_bounds: "0 < k \<Longrightarrow> k * (a div k) \<le> a \<and> a < k * (a div k) + k" for a k :: int
  using pos_mod_bound [of k a] pos_mod_sign [of k a] mult_div_mod_eq [of k a] by linarith

lemma div_succ:
  fixes a k :: int
  assumes "0 < k"
  shows "(a + 1) div k = a div k + (if k dvd a + 1 then 1 else 0)"
proof (cases "k dvd a + 1")
  case True
  then obtain m where m: "a + 1 = k * m" by (elim dvdE)
  then have "a = k * (m - 1) + (k - 1)" by (simp add: algebra_simps)
  then have "a div k = m - 1" by (rule int_div_pos_eq) (use assms in simp_all)
  with True m assms show ?thesis by simp
next
  case False
  have "a mod k + 1 \<noteq> k"
  proof
    assume "a mod k + 1 = k"
    then have "a + 1 = k * (a div k) + k" using mult_div_mod_eq [of k a] by linarith
    then have "a + 1 = k * (a div k + 1)" by (simp add: distrib_left)
    with False show False by (metis dvd_triv_left)
  qed
  then have "a mod k + 1 < k" using pos_mod_bound [OF assms, of a] by simp
  have "a + 1 = k * (a div k) + (a mod k + 1)" using mult_div_mod_eq [of k a] by linarith
  then have "(a + 1) div k = a div k"
    by (rule int_div_pos_eq) (use pos_mod_sign [OF assms, of a] \<open>a mod k + 1 < k\<close> in simp_all)
  with False show ?thesis by simp
qed

lemma DayFromYear_lower: "146097 * (y - 1970) - 600 \<le> 400 * DayFromYear y"
  using div_bounds [of 4 "y - 1969"] div_bounds [of 100 "y - 1901"] div_bounds [of 400 "y - 1601"]
  unfolding DayFromYear_def by (simp add: algebra_simps; linarith)

lemma DayFromYear_upper: "400 * DayFromYear y \<le> 146097 * (y - 1970) + 600"
  using div_bounds [of 4 "y - 1969"] div_bounds [of 100 "y - 1901"] div_bounds [of 400 "y - 1601"]
  unfolding DayFromYear_def by (simp add: algebra_simps; linarith)

lemma leap_dvd:
  fixes y :: int
  shows "100 dvd y - 1900 \<Longrightarrow> 4 dvd y - 1968" and "400 dvd y - 1600 \<Longrightarrow> 100 dvd y - 1900"
proof -
  assume "100 dvd y - 1900"
  then obtain m where "y - 1900 = 100 * m" by (elim dvdE)
  then have "y - 1968 = 4 * (25 * m - 17)" by simp
  then show "4 dvd y - 1968" by (metis dvd_triv_left)
next
  assume "400 dvd y - 1600"
  then obtain m where "y - 1600 = 400 * m" by (elim dvdE)
  then have "y - 1900 = 100 * (4 * m - 3)" by simp
  then show "100 dvd y - 1900" by (metis dvd_triv_left)
qed

lemma year_difference:
  "365 * (y + 1 - 1970) + (p + a) - (q + b) + (r + c) - (365 * (y - 1970) + p - q + r) = 365 + a - b + c" for y :: int
  by simp

lemma DayFromYear_step: "DayFromYear (y + 1) - DayFromYear y \<in> {365, 366}"
proof -
  let ?leap = "\<lambda>b. if b then 1 else 0 :: int"
  have d4: "(y + 1 - 1969) div 4 = (y - 1969) div 4 + ?leap (4 dvd y - 1968)"
    using div_succ [of 4 "y - 1969"] by simp
  have d100: "(y + 1 - 1901) div 100 = (y - 1901) div 100 + ?leap (100 dvd y - 1900)"
    using div_succ [of 100 "y - 1901"] by simp
  have d400: "(y + 1 - 1601) div 400 = (y - 1601) div 400 + ?leap (400 dvd y - 1600)"
    using div_succ [of 400 "y - 1601"] by simp
  obtain a b c where abc: "a = ?leap (4 dvd y - 1968)" "b = ?leap (100 dvd y - 1900)" "c = ?leap (400 dvd y - 1600)"
    by blast
  have "DayFromYear (y + 1) - DayFromYear y = 365 + a - b + c"
    unfolding DayFromYear_def d4 d100 d400 abc [symmetric] by (rule year_difference)
  then show ?thesis using leap_dvd [of y] by (auto simp: abc)
qed

lemma DayFromYear_mono: "y \<le> z \<Longrightarrow> DayFromYear y \<le> DayFromYear z"
proof (induction z rule: int_ge_induct)
  case (step z)
  with DayFromYear_step [of z] show ?case by auto
qed simp

lemma YearFromDay_ok: "DayFromYear (YearFromDay d) \<le> d \<and> d < DayFromYear (YearFromDay d + 1)"
proof -
  define y where "y = 1970 + (400 * d) div 146097"
  have b: "146097 * (y - 1970) \<le> 400 * d" "400 * d < 146097 * (y - 1970) + 146097"
    using div_bounds [of 146097 "400 * d"] unfolding y_def by simp_all
  have "DayFromYear (y - 1) \<le> d" using DayFromYear_upper [of "y - 1"] b by (simp add: algebra_simps)
  moreover have "d < DayFromYear (y + 2)" using DayFromYear_lower [of "y + 2"] b by (simp add: algebra_simps)
  ultimately show ?thesis unfolding YearFromDay_def Let_def y_def [symmetric] by (simp add: add.commute)
qed

lemma YearFromDay_unique: "DayFromYear y \<le> d \<Longrightarrow> d < DayFromYear (y + 1) \<Longrightarrow> YearFromDay d = y"
  using YearFromDay_ok [of d] DayFromYear_mono [of "y + 1" "YearFromDay d"] DayFromYear_mono [of "YearFromDay d + 1" y]
  by (cases "YearFromDay d < y"; cases "y < YearFromDay d") auto

text \<open>A day lies in its month, and the month of a day is the one that it lies in.\<close>

lemma length_filter_sorted:
  fixes xs :: "int list"
  assumes "sorted xs" "k < length xs" "xs ! k \<le> x" "Suc k < length xs \<Longrightarrow> x < xs ! Suc k"
  shows "length (filter (\<lambda>s. s \<le> x) xs) = Suc k"
proof -
  have "\<forall>s\<in>set (take (Suc k) xs). s \<le> x"
  proof
    fix s assume "s \<in> set (take (Suc k) xs)"
    then obtain j where j: "j \<le> k" "s = xs ! j" by (auto simp: in_set_conv_nth less_Suc_eq_le)
    with assms(1,2) have "s \<le> xs ! k" by (simp add: sorted_iff_nth_mono)
    with assms(3) show "s \<le> x" by simp
  qed
  moreover have "\<forall>s\<in>set (drop (Suc k) xs). \<not> s \<le> x"
  proof
    fix s assume "s \<in> set (drop (Suc k) xs)"
    then obtain j where j: "j < length xs - Suc k" "s = xs ! (Suc k + j)" by (auto simp: in_set_conv_nth)
    with assms(1) have "xs ! Suc k \<le> s" by (simp add: sorted_iff_nth_mono)
    moreover have "x < xs ! Suc k" using assms(4) j(1) by simp
    ultimately show "\<not> s \<le> x" by simp
  qed
  ultimately have "length (filter (\<lambda>s. s \<le> x) (take (Suc k) xs @ drop (Suc k) xs)) = Suc k"
    using assms(2) unfolding filter_append by (simp del: append_take_drop_id)
  then show ?thesis by (simp only: append_take_drop_id)
qed

lemma month_starts_sorted [simp]: "sorted (month_starts y)" "length (month_starts y) = 12" "month_starts y ! 0 = 0"
  by (simp_all add: month_starts_def Let_def)

lemma MakeDay_first: "m < 12 \<Longrightarrow> MakeDay y m 1 = DayFromYear y + month_starts y ! m"
  by (simp add: MakeDay_def)

lemma MakeDay_december: "MakeDay y 12 1 = DayFromYear (y + 1)"
  by (simp add: MakeDay_def)

lemma month_starts_within: "m < 12 \<Longrightarrow> 0 \<le> month_starts y ! m \<and> DayFromYear y + month_starts y ! m < DayFromYear (y + 1)"
proof -
  assume "m < 12"
  then have "month_starts y ! 0 \<le> month_starts y ! m" "month_starts y ! m \<le> month_starts y ! 11"
    by (intro sorted_nth_mono; simp)+
  moreover have "month_starts y ! 11 \<le> 335" by (simp add: month_starts_def Let_def)
  ultimately show ?thesis using DayFromYear_step [of y] by auto
qed

lemma MonthFromDay_unique:
  assumes "m < 12" "MakeDay y m 1 \<le> d" "d < MakeDay y (Suc m) 1"
  shows "YearFromDay d = y" and "MonthFromDay d = m"
proof -
  have below: "d < DayFromYear (y + 1)"
    using assms month_starts_within [of "Suc m" y] MakeDay_december [of y]
    by (cases "Suc m < 12") (auto simp: MakeDay_first numeral_eq_Suc less_Suc_eq)
  with assms month_starts_within [of m y] show y: "YearFromDay d = y"
    by (intro YearFromDay_unique) (auto simp: MakeDay_first)
  have "length (filter (\<lambda>s. s \<le> d - DayFromYear y) (month_starts y)) = Suc m"
    by (rule length_filter_sorted) (use assms in \<open>auto simp: MakeDay_first\<close>)
  then show "MonthFromDay d = m" unfolding MonthFromDay_def y Let_def by simp
qed

lemma MonthFromDay_ok:
  "MonthFromDay d < 12" "MakeDay (YearFromDay d) (MonthFromDay d) 1 \<le> d"
  "d < MakeDay (YearFromDay d) (Suc (MonthFromDay d)) 1"
proof -
  define y where "y = YearFromDay d"
  have dy: "DayFromYear y \<le> d" "d < DayFromYear (y + 1)" unfolding y_def using YearFromDay_ok by blast+
  let ?S = "{m. m < 12 \<and> MakeDay y m 1 \<le> d}"
  have fin: "finite ?S" by simp
  have "0 \<in> ?S" using dy by (simp add: MakeDay_first)
  then obtain m where m: "m \<in> ?S" and top: "\<And>k. k \<in> ?S \<Longrightarrow> k \<le> m"
    using Max_in [OF fin] Max_ge [OF fin] by blast
  have lt: "d < MakeDay y (Suc m) 1"
  proof (cases "Suc m < 12")
    case True
    with top [of "Suc m"] show ?thesis by (auto simp: not_le [symmetric])
  next
    case False
    with m have "Suc m = 12" by simp
    with dy show ?thesis by (simp add: MakeDay_december)
  qed
  with m have "MonthFromDay d = m" using MonthFromDay_unique(2) [of m y d] by simp
  with m lt show "MonthFromDay d < 12" "MakeDay (YearFromDay d) (MonthFromDay d) 1 \<le> d"
    "d < MakeDay (YearFromDay d) (Suc (MonthFromDay d)) 1" by (simp_all add: y_def)
qed

subsection \<open>The periods partition time\<close>

lemma day_bounds: "msPerDay * (t div msPerDay) \<le> t" "t < msPerDay * (t div msPerDay) + msPerDay"
  using div_bounds [of msPerDay t] by (simp_all add: msPerDay_def)

lemma day_between: "a \<le> t div msPerDay \<and> t div msPerDay < b \<longleftrightarrow> a * msPerDay \<le> t \<and> t < b * msPerDay"
  by (auto simp: msPerDay_def)

lemma periodStart_month:
  "periodStart t IntervalMonth = MakeDay (YearFromDay (t div msPerDay)) (MonthFromDay (t div msPerDay)) 1 * msPerDay"
  by (simp add: periodStart_def Let_def)

lemma next_month:
  "nextPeriod (periodStart t IntervalMonth) IntervalMonth
   = MakeDay (YearFromDay (t div msPerDay)) (Suc (MonthFromDay (t div msPerDay))) 1 * msPerDay"
proof -
  let ?d = "t div msPerDay"
  let ?M = "MakeDay (YearFromDay ?d) (MonthFromDay ?d) 1"
  have ym: "YearFromDay ?M = YearFromDay ?d" "MonthFromDay ?M = MonthFromDay ?d"
    using MonthFromDay_unique [of "MonthFromDay ?d" "YearFromDay ?d" ?M] MonthFromDay_ok [of ?d] by simp_all
  have "DateFromDay ?M = 1"
    unfolding DateFromDay_def ym Let_def using MonthFromDay_ok(1) [of ?d] by (simp add: MakeDay_first)
  moreover have "?M * msPerDay div msPerDay = ?M" "?M * msPerDay mod msPerDay = 0" by (simp_all add: msPerDay_def)
  ultimately show ?thesis by (simp add: nextPeriod_def periodStart_def Let_def ym)
qed

lemma month_contains: "periodStart t IntervalMonth \<le> t" "t < nextPeriod (periodStart t IntervalMonth) IntervalMonth"
  using MonthFromDay_ok(2,3) [of "t div msPerDay"] unfolding next_month
  by (metis day_between periodStart_month)+

lemma month_same:
  assumes "periodStart t IntervalMonth \<le> u" "u < nextPeriod (periodStart t IntervalMonth) IntervalMonth"
  shows "periodStart u IntervalMonth = periodStart t IntervalMonth"
proof -
  let ?d = "t div msPerDay" and ?e = "u div msPerDay"
  have "MakeDay (YearFromDay ?d) (MonthFromDay ?d) 1 \<le> ?e" "?e < MakeDay (YearFromDay ?d) (Suc (MonthFromDay ?d)) 1"
    using assms day_between [of "MakeDay (YearFromDay ?d) (MonthFromDay ?d) 1" u "MakeDay (YearFromDay ?d) (Suc (MonthFromDay ?d)) 1"]
    unfolding next_month unfolding periodStart_month by blast+
  with MonthFromDay_unique [OF MonthFromDay_ok(1) [of ?d]]
  have "YearFromDay ?e = YearFromDay ?d" "MonthFromDay ?e = MonthFromDay ?d" by blast+
  then show ?thesis by (simp add: periodStart_def Let_def)
qed

text \<open>The other periods have a fixed length: a week starts on the Monday before its days, day 4 of the epoch being one.\<close>

lemma fixed_period:
  fixes k c t u :: int
  assumes "0 < k"
  shows "t - (t + c) mod k \<le> t" "t < t - (t + c) mod k + k"
    and "t - (t + c) mod k \<le> u \<Longrightarrow> u < t - (t + c) mod k + k \<Longrightarrow> u - (u + c) mod k = t - (t + c) mod k"
proof -
  have m: "0 \<le> (t + c) mod k" "(t + c) mod k < k" using assms by simp_all
  then show "t - (t + c) mod k \<le> t" "t < t - (t + c) mod k + k" by linarith+
  assume u: "t - (t + c) mod k \<le> u" "u < t - (t + c) mod k + k"
  have "u + c = k * ((t + c) div k) + (u - (t - (t + c) mod k))"
    using mult_div_mod_eq [of k "t + c"] by linarith
  then have "(u + c) mod k = u - (t - (t + c) mod k)"
    by (rule int_mod_pos_eq) (use u in linarith)+
  then show "u - (u + c) mod k = t - (t + c) mod k" by linarith
qed

lemma weekday_shift: "((d + 4) mod 7 + 6) mod 7 = (d + 3) mod 7" for d :: int
  by presburger

lemma week_start: "periodStart t IntervalWeek = t - (t + 3 * msPerDay) mod (7 * msPerDay)"
proof -
  define d where "d = t div msPerDay"
  have r: "t = d * msPerDay + t mod msPerDay" "0 \<le> t mod msPerDay" "t mod msPerDay < msPerDay"
    by (simp_all add: d_def msPerDay_def)
  have e: "t + 3 * msPerDay = (7 * msPerDay) * ((d + 3) div 7) + (((d + 3) mod 7) * msPerDay + t mod msPerDay)"
    using r(1) mult_div_mod_eq [of 7 "d + 3"] unfolding msPerDay_def by linarith
  have b: "0 \<le> (d + 3) mod 7" "(d + 3) mod 7 \<le> 6" by presburger+
  have "(t + 3 * msPerDay) mod (7 * msPerDay) = ((d + 3) mod 7) * msPerDay + t mod msPerDay"
    using e by (rule int_mod_pos_eq) (use b r(2,3) in \<open>simp_all add: msPerDay_def\<close>)
  moreover have "(getUTCDay (t - t mod msPerDay) + 6) mod 7 = (d + 3) mod 7"
  proof -
    have "(t - t mod msPerDay) div msPerDay = d" using r(1) by (simp add: msPerDay_def)
    then show ?thesis unfolding getUTCDay_def by (simp only: weekday_shift)
  qed
  ultimately show ?thesis by (simp add: periodStart_def Let_def)
qed

subsection \<open>The periods that a span of time meets\<close>

lemma month_length: "MakeDay y m date < MakeDay y (Suc m) date"
proof (cases "Suc (m mod 12) < 12")
  case True
  then have "Suc m div 12 = m div 12" "Suc m mod 12 = Suc (m mod 12)" by (simp_all add: div_Suc mod_Suc)
  moreover have "month_starts y' ! (m mod 12) < month_starts y' ! Suc (m mod 12)" for y'
  proof -
    have "sorted_wrt (<) (month_starts y')" by (simp add: month_starts_def Let_def)
    with True show ?thesis by (simp add: sorted_wrt_iff_nth_less)
  qed
  ultimately show ?thesis by (simp add: MakeDay_def Let_def)
next
  case False
  have "m mod 12 < 12" by simp
  with False have "Suc m div 12 = Suc (m div 12)" "Suc m mod 12 = 0" "m mod 12 = 11" by (auto simp: div_Suc mod_Suc)
  moreover have "DayFromYear y' + month_starts y' ! 11 < DayFromYear (y' + 1)" for y' using month_starts_within [of 11 y'] by simp
  from this [of "y + int (m div 12)"]
  have "DayFromYear (y + int (m div 12)) + month_starts (y + int (m div 12)) ! 11 < DayFromYear (y + (1 + int (m div 12)))"
    by (simp add: add.commute add.left_commute)
  ultimately show ?thesis by (simp add: MakeDay_def Let_def)
qed

lemma MakeDay_of_day: "MakeDay (YearFromDay d) (MonthFromDay d) (DateFromDay d) = d"
  using MonthFromDay_ok(1) [of d] by (simp add: MakeDay_def DateFromDay_def Let_def)

lemma nextPeriod_later: "s < nextPeriod s i"
proof (cases i)
  case IntervalMonth
  let ?d = "s div msPerDay"
  have "?d < MakeDay (YearFromDay ?d) (Suc (MonthFromDay ?d)) (DateFromDay ?d)"
    using month_length [of "YearFromDay ?d" "MonthFromDay ?d" "DateFromDay ?d"] by (simp add: MakeDay_of_day)
  then have "?d * msPerDay < MakeDay (YearFromDay ?d) (Suc (MonthFromDay ?d)) (DateFromDay ?d) * msPerDay"
    by (simp add: msPerDay_def)
  moreover have "s = ?d * msPerDay + s mod msPerDay" by simp
  ultimately have "s < MakeDay (YearFromDay ?d) (Suc (MonthFromDay ?d)) (DateFromDay ?d) * msPerDay + s mod msPerDay" by linarith
  then show ?thesis unfolding IntervalMonth by (simp add: nextPeriod_def Let_def)
qed (simp_all add: nextPeriod_def msPerHour_def msPerDay_def)

text \<open>The loop of \<open>summarizeUsage\<close> over the periods of a window; it ends because every period ends after it starts.\<close>

function period_starts :: "timestamp \<Rightarrow> timestamp \<Rightarrow> UsageInterval \<Rightarrow> timestamp list" where
  "period_starts start limit i = (if start < limit then start # period_starts (nextPeriod start i) limit i else [])"
  by pat_completeness auto
termination
  by (relation "measure (\<lambda>(start, limit, i). nat (limit - start))") (use nextPeriod_later in \<open>auto simp: nat_mono_iff\<close>)

declare period_starts.simps [simp del]

lemma period_partition:
  "periodStart t i \<le> t \<and> t < nextPeriod (periodStart t i) i \<and>
   (\<forall>u. periodStart t i \<le> u \<longrightarrow> u < nextPeriod (periodStart t i) i \<longrightarrow> periodStart u i = periodStart t i)"
proof (cases i)
  case IntervalHour
  have start: "periodStart v i = v - (v + 0) mod msPerHour" for v by (simp add: IntervalHour periodStart_def)
  have stop: "nextPeriod v i = v + msPerHour" for v by (simp add: IntervalHour nextPeriod_def)
  have "0 < msPerHour" by (simp add: msPerHour_def)
  from fixed_period [OF this, of t 0] show ?thesis unfolding start stop by blast
next
  case IntervalDay
  have start: "periodStart v i = v - (v + 0) mod msPerDay" for v by (simp add: IntervalDay periodStart_def)
  have stop: "nextPeriod v i = v + msPerDay" for v by (simp add: IntervalDay nextPeriod_def)
  have "0 < msPerDay" by (simp add: msPerDay_def)
  from fixed_period [OF this, of t 0] show ?thesis unfolding start stop by blast
next
  case IntervalWeek
  have stop: "nextPeriod v IntervalWeek = v + 7 * msPerDay" for v by (simp add: nextPeriod_def)
  have "0 < 7 * msPerDay" by (simp add: msPerDay_def)
  from fixed_period [OF this, of t "3 * msPerDay"] show ?thesis unfolding IntervalWeek week_start stop by blast
next
  case IntervalMonth
  then show ?thesis using month_contains [of t] month_same [of t] by blast
qed

lemma period_start_le: "periodStart t i \<le> t"
  using period_partition [of t i] by (rule conjunct1)

lemma period_end_gt: "t < nextPeriod (periodStart t i) i"
  using period_partition [of t i] by blast

lemma period_same: "periodStart t i \<le> u \<Longrightarrow> u < nextPeriod (periodStart t i) i \<Longrightarrow> periodStart u i = periodStart t i"
  using period_partition [of t i] by blast

lemma period_of_start: "periodStart (periodStart t i) i = periodStart t i"
  by (rule period_same) (rule order_refl, rule nextPeriod_later)

lemma nextPeriod_starts: "periodStart s i = s \<Longrightarrow> periodStart (nextPeriod s i) i = nextPeriod s i"
proof (rule ccontr)
  assume s: "periodStart s i = s" and neq: "periodStart (nextPeriod s i) i \<noteq> nextPeriod s i"
  let ?n = "nextPeriod s i"
  let ?p = "periodStart ?n i"
  have p: "?p < ?n" "?n < nextPeriod ?p i" "periodStart ?p i = ?p"
    using period_start_le [of ?n i] neq period_end_gt period_of_start by (simp, blast, blast)
  show False
  proof (cases "?p < s")
    case True
    with p(2) nextPeriod_later [of s i] have "periodStart s i = ?p" by (intro period_same) linarith+
    with True s show False by simp
  next
    case False
    with p(1) s have "periodStart ?p i = s" using period_same [of s i ?p] by simp
    with p show False by simp
  qed
qed

lemma period_starts_set: "periodStart s i = s \<Longrightarrow> set (period_starts s b i) = (\<lambda>t. periodStart t i) ` {s..<b}"
proof (induction s b i rule: period_starts.induct)
  case (1 s b i)
  show ?case
  proof (cases "s < b")
    case True
    have "periodStart t i = s" if "t \<in> {s..<min b (nextPeriod s i)}" for t
      using period_same [of s i t] "1.prems" that by simp
    moreover have "s \<in> {s..<min b (nextPeriod s i)}" using True nextPeriod_later [of s i] by simp
    ultimately have first: "(\<lambda>t. periodStart t i) ` {s..<min b (nextPeriod s i)} = {s}" by auto
    have "{s..<b} = {s..<min b (nextPeriod s i)} \<union> {nextPeriod s i..<b}" using True nextPeriod_later [of s i] by auto
    then show ?thesis
      using "1.IH" [OF True nextPeriod_starts [OF "1.prems"]] first True
      by (subst period_starts.simps) (simp add: image_Un)
  qed (simp add: period_starts.simps)
qed

lemma period_starts_ge: "s' \<in> set (period_starts s b i) \<Longrightarrow> s \<le> s'"
proof (induction s b i rule: period_starts.induct)
  case (1 s b i)
  then show ?case using nextPeriod_later [of s i] by (subst (asm) (2) period_starts.simps) (fastforce split: if_splits)
qed

lemma period_starts_distinct: "distinct (period_starts s b i)"
proof (induction s b i rule: period_starts.induct)
  case (1 s b i)
  then show ?case using period_starts_ge [of s "nextPeriod s i" b i] nextPeriod_later [of s i]
    by (subst period_starts.simps) auto
qed

text \<open>
  The periods of each interval partition time: every instant lies in the period that \<open>periodStart\<close>
  and \<open>nextPeriod\<close> give for it, all instants of that period get the same start, so no record is
  counted in two periods and none falls between two.
\<close>

theorem periods_partition_time:
  "periodStart t i \<le> t \<and> t < nextPeriod (periodStart t i) i \<and>
   (\<forall>u. periodStart t i \<le> u \<longrightarrow> u < nextPeriod (periodStart t i) i \<longrightarrow> periodStart u i = periodStart t i)"
  by (rule period_partition)

text \<open>An instant of 29 February 2024, 12:00 UTC, and one of its month.\<close>

theorem periods_partition_time_witness:
  "periodStart 1709208000000 IntervalMonth = 1706745600000 \<and> periodStart 1706745600001 IntervalMonth = 1706745600000"
proof -
  have s: "periodStart 1709208000000 IntervalMonth = 1706745600000" by code_simp
  have n: "nextPeriod 1706745600000 IntervalMonth = 1709251200000" by code_simp
  show ?thesis using periods_partition_time [of 1709208000000 IntervalMonth] unfolding s n by simp
qed

text \<open>
  A window is counted in exactly the periods it meets: the loop of \<open>summarizeUsage\<close> ends, and the
  starts it collects for the window from \<open>a\<close> to \<open>b\<close> are those of the periods of its instants, each once.
\<close>

theorem window_periods_exact:
  assumes "a < b"
  shows "set (period_starts (periodStart a i) b i) = {periodStart t i |t. a \<le> t \<and> t < b} \<and> distinct (period_starts (periodStart a i) b i)"
proof -
  let ?s = "periodStart a i"
  have "set (period_starts ?s b i) = (\<lambda>t. periodStart t i) ` {?s..<b}" by (rule period_starts_set [OF period_of_start])
  also have "\<dots> = (\<lambda>t. periodStart t i) ` {a..<b}"
  proof (intro equalityI subsetI; elim imageE)
    fix x u assume u: "x = periodStart u i" "u \<in> {?s..<b}"
    show "x \<in> (\<lambda>t. periodStart t i) ` {a..<b}"
    proof (cases "u < a")
      case True
      with u period_same [of a i u] period_end_gt [of a i] have "x = periodStart a i" by simp
      with assms show ?thesis by simp
    qed (use u in auto)
  qed (use period_start_le [of a i] in auto)
  also have "\<dots> = {periodStart t i |t. a \<le> t \<and> t < b}" by auto
  finally show ?thesis by (simp add: period_starts_distinct)
qed

text \<open>A connection from 1969-12-31, 23:30 to 1970-01-01, 01:30 is counted in three hours.\<close>

theorem window_periods_exact_witness:
  "set (period_starts (periodStart (- 1800000) IntervalHour) 5400000 IntervalHour) = {- 3600000, 0, 3600000} \<and>
   {periodStart t IntervalHour |t. - 1800000 \<le> t \<and> t < 5400000} = {- 3600000, 0, 3600000}"
proof -
  have "period_starts (periodStart (- 1800000) IntervalHour) 5400000 IntervalHour = [- 3600000, 0, 3600000]" by code_simp
  then show ?thesis using window_periods_exact [of "- 1800000" 5400000 IntervalHour] by simp
qed

end
