(* ===== verification/Usage_Windows.thy ===== *)
theory Usage_Windows
  imports Health_Usage_Domain
begin

text \<open>
  The arithmetic of time windows in \<open>src/usage-accounting-core.ts\<close>: how long at least one connection was
  open, how many were open at once at most and for most of the time. Windows are half open, in
  milliseconds; each routine is shown equal to its meaning on instants.
\<close>

record window =
  w_start :: timestamp
  w_end :: timestamp

definition unionDuration_step :: "int \<times> timestamp \<times> timestamp \<Rightarrow> window \<Rightarrow> int \<times> timestamp \<times> timestamp" where
  "unionDuration_step acc w =
     (case acc of (duration, currentStart, currentEnd) \<Rightarrow>
        if currentEnd < w_start w then (duration + max 0 (currentEnd - currentStart), w_start w, w_end w)
        else (duration, currentStart, max currentEnd (w_end w)))"

definition unionDuration :: "window list \<Rightarrow> int" where
  "unionDuration windows =
     (let ordered = js_sort (by_key w_start) (filter (\<lambda>w. w_start w < w_end w) windows)
      in case foldl unionDuration_step (0, 0, 0) ordered of
           (duration, currentStart, currentEnd) \<Rightarrow> duration + max 0 (currentEnd - currentStart))"

definition clippedWindow :: "timestamp option \<Rightarrow> timestamp option \<Rightarrow> timestamp \<Rightarrow> timestamp \<Rightarrow> window option" where
  "clippedWindow started ended periodStartMs periodEndMs =
     (case (started, ended) of
        (Some a, Some b) \<Rightarrow>
          (let s = max periodStartMs a; e = min periodEndMs b in if s < e then Some \<lparr>w_start = s, w_end = e\<rparr> else None)
      | _ \<Rightarrow> None)"

type_synonym event = "timestamp \<times> int"

definition by_event :: "event comparator" where
  "by_event l r = then_by (fst l - fst r) (snd l - snd r)"

definition window_events :: "window list \<Rightarrow> event list" where
  "window_events windows = concat (map (\<lambda>w. [(w_start w, 1), (w_end w, -1)]) windows)"

definition peakConcurrency :: "window list \<Rightarrow> int" where
  "peakConcurrency windows =
     snd (foldl (\<lambda>(current, peak) e. let current = current + snd e in (current, max peak current)) (0, 0)
            (js_sort by_event (window_events windows)))"

definition add_duration :: "(int, int) js_map \<Rightarrow> int \<Rightarrow> int \<Rightarrow> (int, int) js_map" where
  "add_duration durations level d =
     js_set durations level ((case js_get durations level of None \<Rightarrow> 0 | Some v \<Rightarrow> v) + d)"

fun level_durations :: "event list \<Rightarrow> int \<Rightarrow> timestamp \<Rightarrow> (int, int) js_map \<Rightarrow> (int, int) js_map" where
  "level_durations [] current previousAt durations = durations"
| "level_durations (e # es) current previousAt durations =
     level_durations es (current + snd e) (fst e)
       (if previousAt < fst e then add_duration durations current (fst e - previousAt) else durations)"

fun first_reaching :: "real \<Rightarrow> int \<Rightarrow> (int \<times> int) list \<Rightarrow> int" where
  "first_reaching target cumulative [] = 0"
| "first_reaching target cumulative ((level, d) # xs) =
     (if target \<le> real_of_int (cumulative + d) then level else first_reaching target (cumulative + d) xs)"

definition concurrencyPercentile :: "window list \<Rightarrow> timestamp \<Rightarrow> timestamp \<Rightarrow> real \<Rightarrow> int" where
  "concurrencyPercentile windows periodStartMs periodEndMs percentile =
     (let events = js_sort by_event ([(periodStartMs, 0), (periodEndMs, 0)] @ window_events windows);
          durations = level_durations events 0 periodStartMs [];
          target = real_of_int (max 0 (periodEndMs - periodStartMs)) * percentile
      in first_reaching target 0 (js_sort (by_key fst) durations))"

subsection \<open>The union of windows\<close>

definition inside :: "window \<Rightarrow> timestamp \<Rightarrow> bool" where
  "inside w t \<longleftrightarrow> w_start w \<le> t \<and> t < w_end w"

definition covered :: "window list \<Rightarrow> timestamp set" where
  "covered ws = {t. list_ex (\<lambda>w. inside w t) ws}"

lemma covered_Cons: "covered (w # ws) = {w_start w..<w_end w} \<union> covered ws"
  by (auto simp: covered_def inside_def)

lemma finite_covered: "finite (covered ws)"
  by (induction ws) (auto simp: covered_Cons, simp add: covered_def)

lemma covered_mset: "set ws = set vs \<Longrightarrow> covered ws = covered vs"
  by (auto simp: covered_def list_ex_iff)

lemma covered_filter: "covered (filter (\<lambda>w. w_start w < w_end w) ws) = covered ws"
  by (auto simp: covered_def list_ex_iff inside_def)

text \<open>
  The loop over windows in the order of their starts: what is counted, plus the interval being built,
  is what the windows seen so far cover.
\<close>

lemma union_loop:
  assumes "foldl unionDuration_step (d, a, b) ws = (d', a', b')"
    and "sorted_wrt (\<lambda>v w. w_start v \<le> w_start w) ws" and "\<forall>w \<in> set ws. w_start w < w_end w \<and> a \<le> w_start w" and "a \<le> b"
  shows "d' + max 0 (b' - a') = d + int (card ({a..<b} \<union> covered ws))"
  using assms
proof (induction ws arbitrary: d a b)
  case Nil
  then show ?case by (simp add: covered_def)
next
  case (Cons w ws)
  have le: "\<forall>v \<in> set ws. w_start w \<le> w_start v" using Cons.prems(2) by simp
  show ?case
  proof (cases "b < w_start w")
    case True
    have "unionDuration_step (d, a, b) w = (d + max 0 (b - a), w_start w, w_end w)" using True by (simp add: unionDuration_step_def)
    with Cons.prems(1) have run: "foldl unionDuration_step (d + max 0 (b - a), w_start w, w_end w) ws = (d', a', b')" by simp
    have "d' + max 0 (b' - a') = d + max 0 (b - a) + int (card ({w_start w..<w_end w} \<union> covered ws))"
      by (rule Cons.IH [OF run]) (use Cons.prems le in auto)
    moreover have "{a..<b} \<inter> ({w_start w..<w_end w} \<union> covered ws) = {}"
      using True le by (fastforce simp: covered_def list_ex_iff inside_def)
    then have "card ({a..<b} \<union> ({w_start w..<w_end w} \<union> covered ws))
        = card {a..<b} + card ({w_start w..<w_end w} \<union> covered ws)"
      by (intro card_Un_disjoint) (auto simp: finite_covered)
    ultimately show ?thesis using Cons.prems(4) by (simp add: covered_Cons)
  next
    case False
    have "unionDuration_step (d, a, b) w = (d, a, max b (w_end w))" using False by (simp add: unionDuration_step_def)
    with Cons.prems(1) have run: "foldl unionDuration_step (d, a, max b (w_end w)) ws = (d', a', b')" by simp
    have "d' + max 0 (b' - a') = d + int (card ({a..<max b (w_end w)} \<union> covered ws))"
      by (rule Cons.IH [OF run]) (use Cons.prems in auto)
    moreover have "{a..<max b (w_end w)} = {a..<b} \<union> {w_start w..<w_end w}"
      using False Cons.prems(3,4) by auto
    ultimately show ?thesis by (simp add: covered_Cons Un_assoc)
  qed
qed

lemma by_key_sorted: "sorted_wrt (\<lambda>x y. f x \<le> (f y :: int)) (js_sort (by_key f) xs)"
  using by_key.sorted_js_sort [of f xs] by (simp add: by_key_def)

text \<open>
  The duration of the union is exact: for windows that do not start before the epoch it is the
  number of milliseconds at which at least one window is open, however they overlap, touch or are
  ordered, and empty windows count for nothing.
\<close>

theorem union_duration_exact:
  assumes "\<forall>w \<in> set windows. 0 \<le> w_start w"
  shows "unionDuration windows = int (card {t. list_ex (\<lambda>w. w_start w \<le> t \<and> t < w_end w) windows})"
proof -
  let ?ws = "js_sort (by_key w_start) (filter (\<lambda>w. w_start w < w_end w) windows)"
  obtain d a b where run: "foldl unionDuration_step (0, 0, 0) ?ws = (d, a, b)" by (metis prod_cases3)
  have "d + max 0 (b - a) = 0 + int (card ({0..<0} \<union> covered ?ws))"
    by (rule union_loop [OF run by_key_sorted]) (use assms in auto)
  also have "covered ?ws = covered windows"
    using covered_mset [of ?ws "filter (\<lambda>w. w_start w < w_end w) windows"] covered_filter [of windows] by simp
  finally show ?thesis using run by (simp add: unionDuration_def covered_def inside_def)
qed

theorem union_duration_exact_witness:
  "unionDuration [\<lparr>w_start = 5, w_end = 9\<rparr>, \<lparr>w_start = 1, w_end = 6\<rparr>, \<lparr>w_start = 20, w_end = 22\<rparr>] = 10
   \<and> card {t::int. list_ex (\<lambda>w. w_start w \<le> t \<and> t < w_end w)
        [\<lparr>w_start = 5, w_end = 9\<rparr>, \<lparr>w_start = 1, w_end = 6\<rparr>, \<lparr>w_start = 20, w_end = 22\<rparr>]} = 10"
proof -
  let ?ws = "[\<lparr>w_start = 5, w_end = 9\<rparr>, \<lparr>w_start = 1, w_end = 6\<rparr>, \<lparr>w_start = 20, w_end = 22\<rparr>]"
  have "unionDuration ?ws = 10" by code_simp
  moreover have "\<forall>w \<in> set ?ws. 0 \<le> w_start w" by simp
  ultimately show ?thesis using union_duration_exact [of ?ws] by simp
qed

subsection \<open>Concurrency\<close>

definition active_at :: "window list \<Rightarrow> timestamp \<Rightarrow> int" where
  "active_at windows t = int (length (filter (\<lambda>w. inside w t) windows))"

definition level :: "event list \<Rightarrow> int" where
  "level es = sum_list (map snd es)"

interpretation by_event: total_preorder_comparator by_event
  by unfold_locales (auto simp: by_event_def then_by_def split: if_splits)

definition before :: "event \<Rightarrow> event \<Rightarrow> bool" where
  "before l r \<longleftrightarrow> fst l < fst r \<or> fst l = fst r \<and> snd l \<le> snd r"

lemma by_event_before: "by_event l r \<le> 0 \<longleftrightarrow> before l r"
  by (auto simp: by_event_def then_by_def before_def)

lemma events_sorted: "sorted_wrt before (js_sort by_event es)"
  using by_event.sorted_js_sort [of es] by (simp add: by_event_before)

lemma level_mset: "mset es = mset fs \<Longrightarrow> level es = level fs"
  unfolding level_def by (metis mset_map sum_mset_sum_list)

lemma level_until:
  assumes "\<forall>w \<in> set windows. w_start w < w_end w"
  shows "level (filter (\<lambda>e. fst e \<le> t) (window_events windows)) = active_at windows t"
  using assms
  by (induction windows) (auto simp: level_def window_events_def active_at_def inside_def)

lemma Max_insert_max: "finite S \<Longrightarrow> Max (insert (max p a) S) = max p (Max (insert a S))" for p a :: "'a::linorder"
  by (cases "S = {}") (simp_all add: max.assoc)

lemma peak_fold:
  "snd (foldl (\<lambda>(current, peak) e. let current = current + snd e in (current, max peak current)) (c, p) es)
     = Max (insert p ((\<lambda>n. c + level (take n es)) ` {1..length es}))"
proof (induction es arbitrary: c p)
  case (Cons e es)
  have split: "{1..length (e # es)} = insert 1 (Suc ` {1..length es})" by auto
  have "(\<lambda>n. c + level (take n (e # es))) ` {1..length (e # es)}
      = insert (c + snd e) ((\<lambda>n. (c + snd e) + level (take n es)) ` {1..length es})"
    unfolding split image_insert image_image by (simp add: level_def add.assoc)
  with Cons.IH [of "c + snd e" "max p (c + snd e)"] show ?case
    by (simp add: Let_def Max_insert_max)
qed simp

lemma takeWhile_until: "sorted_wrt before es \<Longrightarrow> takeWhile (\<lambda>e. fst e \<le> t) es = filter (\<lambda>e. fst e \<le> t) es"
proof (induction es)
  case (Cons e es)
  show ?case
  proof (cases "fst e \<le> t")
    case False
    with Cons.prems have "\<forall>f \<in> set es. \<not> fst f \<le> t" by (auto simp: before_def)
    with False show ?thesis by (simp add: filter_empty_conv)
  qed (use Cons in simp)
qed simp

text \<open>A prefix of the events never exceeds what is open at some instant: at one time, windows end before others begin.\<close>

lemma level_prefix:
  assumes "sorted_wrt before (p @ q)" and "\<forall>e \<in> set (p @ q). snd e = 1 \<or> snd e = -1"
  shows "\<exists>t. level p \<le> max 0 (level (filter (\<lambda>e. fst e \<le> t) (p @ q)))"
  using assms
proof (induction p arbitrary: q rule: rev_induct)
  case Nil
  then show ?case by (simp add: level_def)
next
  case (snoc e p)
  show ?case
  proof (cases "snd e = 1")
    case False
    with snoc.prems(2) have "level (p @ [e]) \<le> level p" by (simp add: level_def)
    moreover have "\<exists>t. level p \<le> max 0 (level (filter (\<lambda>e. fst e \<le> t) (p @ e # q)))"
      by (rule snoc.IH) (use snoc.prems in simp_all)
    ultimately show ?thesis unfolding append.assoc append_Cons append_Nil by (meson order_trans)
  next
    case True
    have all: "\<forall>f \<in> set (p @ [e]). fst f \<le> fst e" using snoc.prems(1) by (auto simp: sorted_wrt_append before_def)
    have rest: "\<forall>f \<in> set q. fst f \<le> fst e \<longrightarrow> snd f = 1"
    proof (intro ballI impI)
      fix f assume f: "f \<in> set q" "fst f \<le> fst e"
      with snoc.prems(1) have "before e f" by (simp add: sorted_wrt_append)
      with f True have "1 \<le> snd f" by (auto simp: before_def)
      with snoc.prems(2) f show "snd f = 1" by force
    qed
    have "0 \<le> level (filter (\<lambda>f. fst f \<le> fst e) q)" unfolding level_def by (rule sum_list_nonneg) (use rest in auto)
    moreover have "filter (\<lambda>f. fst f \<le> fst e) (p @ [e]) = p @ [e]" using all by (auto simp: filter_id_conv)
    then have "level (filter (\<lambda>f. fst f \<le> fst e) ((p @ [e]) @ q)) = level (p @ [e]) + level (filter (\<lambda>f. fst f \<le> fst e) q)"
      by (simp only: filter_append level_def map_append sum_list_append)
    ultimately show ?thesis by (intro exI [of _ "fst e"]) linarith
  qed
qed

lemma active_at_bounds: "0 \<le> active_at windows t" "active_at windows t \<le> int (length windows)"
  by (simp_all add: active_at_def)

text \<open>
  The peak of concurrency is exact: for proper windows it is the greatest number of windows open at
  one instant; a connection that ends the moment another begins is not counted with it.
\<close>

theorem peak_concurrency_exact:
  assumes proper: "\<forall>w \<in> set windows. w_start w < w_end w"
  shows "peakConcurrency windows = Max (range (\<lambda>t. int (length (filter (\<lambda>w. w_start w \<le> t \<and> t < w_end w) windows))))"
proof -
  let ?es = "js_sort by_event (window_events windows)"
  let ?levels = "insert 0 ((\<lambda>n. level (take n ?es)) ` {1..length ?es})"
  have until: "level (filter (\<lambda>e. fst e \<le> t) ?es) = active_at windows t" for t
    using level_mset [of "filter (\<lambda>e. fst e \<le> t) ?es" "filter (\<lambda>e. fst e \<le> t) (window_events windows)"]
      level_until [OF proper, of t] by simp
  have fin: "finite (range (active_at windows))"
    by (rule finite_subset [of _ "{0..int (length windows)}"]) (auto simp: active_at_bounds)
  have units: "\<forall>e \<in> set ?es. snd e = 1 \<or> snd e = -1" by (auto simp: window_events_def)
  have peak: "peakConcurrency windows = Max ?levels" using peak_fold [of 0 0 ?es] by (simp add: peakConcurrency_def)
  have "Max ?levels = Max (range (active_at windows))"
  proof (rule antisym)
    show "Max ?levels \<le> Max (range (active_at windows))"
    proof (rule Max.boundedI)
      fix v assume "v \<in> ?levels"
      then obtain n where v: "v = level (take n ?es)" by (auto simp: level_def intro: that [of 0])
      from level_prefix [of "take n ?es" "drop n ?es"] events_sorted [of "window_events windows"] units
      obtain t where "v \<le> max 0 (active_at windows t)" by (auto simp: v until)
      then have "v \<le> active_at windows t" using active_at_bounds(1) [of windows t] by simp
      also have "\<dots> \<le> Max (range (active_at windows))" by (rule Max_ge [OF fin]) simp
      finally show "v \<le> Max (range (active_at windows))" .
    qed auto
    show "Max (range (active_at windows)) \<le> Max ?levels"
    proof (rule Max.boundedI [OF fin])
      fix v assume "v \<in> range (active_at windows)"
      then obtain t where "v = active_at windows t" by blast
      then have v: "v = level (takeWhile (\<lambda>e. fst e \<le> t) ?es)" using until takeWhile_until [OF events_sorted] by simp
      let ?n = "length (takeWhile (\<lambda>e. fst e \<le> t) ?es)"
      have "v = level (take ?n ?es)" using v by (simp add: takeWhile_eq_take [symmetric])
      moreover have "?n \<le> length ?es" by (rule length_takeWhile_le)
      ultimately have "v \<in> ?levels" by (cases ?n) (auto simp: level_def)
      then show "v \<le> Max ?levels" by (intro Max_ge) auto
    qed auto
  qed
  with peak show ?thesis by (simp add: active_at_def [abs_def] inside_def)
qed

theorem peak_concurrency_exact_witness:
  "peakConcurrency [\<lparr>w_start = 1, w_end = 5\<rparr>, \<lparr>w_start = 5, w_end = 9\<rparr>, \<lparr>w_start = 3, w_end = 6\<rparr>] = 2
   \<and> Max (range (\<lambda>t. int (length (filter (\<lambda>w. w_start w \<le> t \<and> t < w_end w)
        [\<lparr>w_start = 1, w_end = 5\<rparr>, \<lparr>w_start = 5, w_end = 9\<rparr>, \<lparr>w_start = 3, w_end = 6\<rparr>])))) = 2"
proof -
  let ?ws = "[\<lparr>w_start = 1, w_end = 5\<rparr>, \<lparr>w_start = 5, w_end = 9\<rparr>, \<lparr>w_start = 3, w_end = 6\<rparr>]"
  have "peakConcurrency ?ws = 2" by code_simp
  moreover have "\<forall>w \<in> set ?ws. w_start w < w_end w" by simp
  ultimately show ?thesis using peak_concurrency_exact [of ?ws] by simp
qed

end
