(* ===== verification/Usage_Cost.thy ===== *)
theory Usage_Cost
  imports Usage_Windows Service_Policies
begin

text \<open>
  The cost of usage, \<open>estimatedCost\<close> of \<open>src/usage-accounting-core.ts\<close>: traffic priced per GiB is
  charged to its customer; a slot priced per month is charged for the part of the period it was
  provisioned, shared among customers by the time their connections held it, and to the customer
  \<open>Unallocated\<close> while nobody used it. Amounts in USD are reals.
\<close>

definition GIB :: real where
  "GIB = 1024 ^ 3"

definition SLOT_MONTH_MS :: real where
  "SLOT_MONTH_MS = (36525 / 100 / 12) * 24 * 60 * 60000"

subsection \<open>Provisioned capacity as usage\<close>

datatype SlotHealth = SlotHealthy | SlotUnhealthy

record ProvisionedProxySlotCapacity =
  psc_provider :: ProviderId
  psc_id :: string
  psc_proxySlotId :: string
  psc_periodStartedAt :: timestamp
  psc_periodEndsAt :: timestamp
  psc_priceUsd :: real
  psc_pricingVersion :: string
  psc_country :: "string option"
  psc_city :: "string option"
  psc_health :: "SlotHealth option"

definition provisionedProxySlotCapacityRecord :: "ProvisionedProxySlotCapacity \<Rightarrow> string + UsageRecord" where
  "provisionedProxySlotCapacityRecord capacity =
     (if psc_periodEndsAt capacity \<le> psc_periodStartedAt capacity \<or> psc_priceUsd capacity < 0
      then Inl ''invalid_capacity_period''
      else Inr \<lparr>ur_kind = Capacity, ur_id = ''capacity:'' @ psc_id capacity,
        logicalOperationId = ''capacity:'' @ psc_id capacity, ur_jobId = None,
        ur_accessGrantId = ''Unallocated'', ur_sessionMode = None, ur_sessionId = None, ur_routeId = ''Unallocated'',
        ur_userId = ''Unallocated'', ur_customerId = ''Unallocated'', ur_provider = psc_provider capacity,
        ur_protocol = Socks5, ur_outcome = OutcomeSuccess, retryIndex = 0, failover = False,
        bytesSent = 0, bytesReceived = 0, latencyMs = None, destinationDomain = None, destinationHost = None,
        destinationPort = None, destinationPathTemplate = None,
        ur_country = (case psc_country capacity of None \<Rightarrow> Some ''US'' | Some c \<Rightarrow> Some c), ur_city = psc_city capacity,
        ur_endpointId = Some (psc_proxySlotId capacity), ur_proxySlotId = Some (psc_proxySlotId capacity),
        ur_deviceId = None, ur_upstreamConnectionId = None, connectionStartedAt = None, connectionEndedAt = None,
        ur_selectedSlotLoad = None, ur_capacityPressure = None, ur_capacityPressureProvider = None,
        ur_capacityConstraint = None, ur_establishmentWaitMs = None,
        ur_capacityPolicyVersion = Some (capacity_version CAPACITY_POLICY), ur_providerOverride = None,
        ur_capacityCircuitState = None, ur_capacityCircuitReason = None, ur_capacityCircuitCooldownUntil = None,
        ur_routingPolicyVersion = None, ur_routingScore = None, ur_routingScoreComponents = None,
        ur_sessionAffinityHit = None, ur_sessionRebindCause = None, ur_desiredProviderClass = None,
        ur_currentProviderClass = None, ur_degradedFallback = None, ur_failbackOutcome = None,
        pricingVersion = Some (psc_pricingVersion capacity), pricingModel = Some PerDeviceMonth,
        priceUsd = Some (psc_priceUsd capacity),
        capacityState = (if psc_health capacity = Some SlotUnhealthy then Some UnhealthySlot else Some HealthyIdle),
        ur_startedAt = psc_periodStartedAt capacity, completedAt = psc_periodEndsAt capacity\<rparr>)"

subsection \<open>The estimate\<close>

record CostState =
  cs_amount :: real
  cs_connectionMs :: int
  cs_slotCosts :: "(string, real) js_map"
  cs_slotConnections :: "(string, (string, int) js_map) js_map"

definition for_customer :: "string option \<Rightarrow> UsageRecord \<Rightarrow> bool" where
  "for_customer customer r \<longleftrightarrow> customer = None \<or> customer = Some (ur_customerId r)"

definition per_gib_cost :: "timestamp \<Rightarrow> timestamp \<Rightarrow> UsageRecord \<Rightarrow> real" where
  "per_gib_cost periodStarted periodEnds r =
     (case priceUsd r of
        Some price \<Rightarrow>
          if pricingModel r = Some PerGib \<and> periodStarted \<le> completedAt r \<and> completedAt r < periodEnds
          then real_of_int (bytesSent r + bytesReceived r) / GIB * price else 0
      | None \<Rightarrow> 0)"

definition slot_cost_of :: "timestamp \<Rightarrow> timestamp \<Rightarrow> UsageRecord \<Rightarrow> (string \<times> real) option" where
  "slot_cost_of periodStarted periodEnds r =
     (case (ur_proxySlotId r, priceUsd r) of
        (Some slot, Some price) \<Rightarrow>
          if ur_kind r = Capacity \<and> pricingModel r = Some PerDeviceMonth
          then map_option (\<lambda>w. (slot, real_of_int (w_end w - w_start w) / SLOT_MONTH_MS * price))
                 (clippedWindow (Some (ur_startedAt r)) (Some (completedAt r)) periodStarted periodEnds)
          else None
      | _ \<Rightarrow> None)"

definition connection_of :: "timestamp \<Rightarrow> timestamp \<Rightarrow> UsageRecord \<Rightarrow> (string \<times> int) option" where
  "connection_of periodStarted periodEnds r =
     (case ur_proxySlotId r of
        Some slot \<Rightarrow>
          if ur_kind r = Attempt
          then map_option (\<lambda>w. (slot, w_end w - w_start w))
                 (clippedWindow (connectionStartedAt r) (connectionEndedAt r) periodStarted periodEnds)
          else None
      | None \<Rightarrow> None)"

definition add_to :: "('k, 'n :: comm_monoid_add) js_map \<Rightarrow> 'k \<Rightarrow> 'n \<Rightarrow> ('k, 'n) js_map" where
  "add_to m k x = js_set m k (case_option 0 id (js_get m k) + x)"

definition add_connection :: "(string, (string, int) js_map) js_map \<Rightarrow> string \<Rightarrow> string \<Rightarrow> int \<Rightarrow> (string, (string, int) js_map) js_map" where
  "add_connection m slot customer duration = js_set m slot (add_to (case_option [] id (js_get m slot)) customer duration)"

definition cost_step :: "timestamp \<Rightarrow> timestamp \<Rightarrow> string option \<Rightarrow> CostState \<Rightarrow> UsageRecord \<Rightarrow> CostState" where
  "cost_step periodStarted periodEnds customer cs r =
     (let cs = (if for_customer customer r then cs\<lparr>cs_amount := cs_amount cs + per_gib_cost periodStarted periodEnds r\<rparr> else cs)
      in case slot_cost_of periodStarted periodEnds r of
           Some (slot, cost) \<Rightarrow> cs\<lparr>cs_slotCosts := add_to (cs_slotCosts cs) slot cost\<rparr>
         | None \<Rightarrow>
             (case connection_of periodStarted periodEnds r of
                Some (slot, duration) \<Rightarrow>
                  cs\<lparr>cs_connectionMs := cs_connectionMs cs + (if for_customer customer r then duration else 0),
                     cs_slotConnections := add_connection (cs_slotConnections cs) slot (ur_customerId r) duration\<rparr>
              | None \<Rightarrow> cs))"

definition slot_share :: "(string, (string, int) js_map) js_map \<Rightarrow> string option \<Rightarrow> string \<times> real \<Rightarrow> real" where
  "slot_share slotConnections customer slotCost =
     (case customer of
        None \<Rightarrow> snd slotCost
      | Some c \<Rightarrow>
          (let byCustomer = case_option [] id (js_get slotConnections (fst slotCost));
               total = sum_list (js_values byCustomer)
           in if total = 0 then (if c = ''Unallocated'' then snd slotCost else 0)
              else snd slotCost * (real_of_int (case_option 0 id (js_get byCustomer c)) / real_of_int total)))"

definition estimatedCost :: "UsageRecord list \<Rightarrow> timestamp \<Rightarrow> timestamp \<Rightarrow> string option \<Rightarrow> real \<times> int" where
  "estimatedCost records periodStarted periodEnds customer =
     (let cs = foldl (cost_step periodStarted periodEnds customer)
            \<lparr>cs_amount = 0, cs_connectionMs = 0, cs_slotCosts = [], cs_slotConnections = []\<rparr> records
      in (foldl (\<lambda>amount sc. amount + slot_share (cs_slotConnections cs) customer sc) (cs_amount cs) (cs_slotCosts cs),
          cs_connectionMs cs))"

text \<open>The values by which a period is broken down by customer.\<close>

definition js_set_of :: "'a list \<Rightarrow> 'a list" where
  "js_set_of xs = rev (remdups (rev xs))"

definition customer_groups :: "UsageRecord list \<Rightarrow> string list" where
  "customer_groups entries =
     js_set_of (map ur_customerId (filter (\<lambda>r. ur_kind r = Attempt) entries) @
                (if list_ex (\<lambda>r. ur_kind r = Capacity) entries then [''Unallocated''] else []))"

subsection \<open>What the loop computes\<close>

lemma js_set_of_simps [simp]: "set (js_set_of xs) = set xs" "distinct (js_set_of xs)"
  by (simp_all add: js_set_of_def)

definition put_slot_cost :: "timestamp \<Rightarrow> timestamp \<Rightarrow> (string, real) js_map \<Rightarrow> UsageRecord \<Rightarrow> (string, real) js_map" where
  "put_slot_cost s e m r = (case slot_cost_of s e r of Some (slot, cost) \<Rightarrow> add_to m slot cost | None \<Rightarrow> m)"

definition put_connection ::
    "timestamp \<Rightarrow> timestamp \<Rightarrow> (string, (string, int) js_map) js_map \<Rightarrow> UsageRecord \<Rightarrow> (string, (string, int) js_map) js_map" where
  "put_connection s e m r =
     (case connection_of s e r of Some (slot, d) \<Rightarrow> add_connection m slot (ur_customerId r) d | None \<Rightarrow> m)"

definition slot_costs :: "timestamp \<Rightarrow> timestamp \<Rightarrow> UsageRecord list \<Rightarrow> (string, real) js_map" where
  "slot_costs s e rs = foldl (put_slot_cost s e) [] rs"

definition slot_connections :: "timestamp \<Rightarrow> timestamp \<Rightarrow> UsageRecord list \<Rightarrow> (string, (string, int) js_map) js_map" where
  "slot_connections s e rs = foldl (put_connection s e) [] rs"

lemma slot_cost_of_capacity: "slot_cost_of s e r = Some x \<Longrightarrow> ur_kind r = Capacity"
  by (auto simp: slot_cost_of_def split: option.splits if_splits)

lemma connection_of_attempt: "connection_of s e r = Some x \<Longrightarrow> ur_kind r = Attempt"
  by (auto simp: connection_of_def split: option.splits if_splits)

lemma cost_step_fields [simp]:
  "cs_amount (cost_step s e c cs r) = cs_amount cs + (if for_customer c r then per_gib_cost s e r else 0)"
  "cs_connectionMs (cost_step s e c cs r)
     = cs_connectionMs cs + (if for_customer c r then case_option 0 snd (connection_of s e r) else 0)"
  "cs_slotCosts (cost_step s e c cs r) = put_slot_cost s e (cs_slotCosts cs) r"
  "cs_slotConnections (cost_step s e c cs r) = put_connection s e (cs_slotConnections cs) r"
  using slot_cost_of_capacity [of s e r] connection_of_attempt [of s e r]
  by (auto simp: cost_step_def Let_def put_slot_cost_def put_connection_def split: option.splits)

lemma cost_loop:
  "cs_amount (foldl (cost_step s e c) cs rs)
     = cs_amount cs + sum_list (map (\<lambda>r. if for_customer c r then per_gib_cost s e r else 0) rs)"
  "cs_connectionMs (foldl (cost_step s e c) cs rs)
     = cs_connectionMs cs + sum_list (map (\<lambda>r. if for_customer c r then case_option 0 snd (connection_of s e r) else 0) rs)"
  "cs_slotCosts (foldl (cost_step s e c) cs rs) = foldl (put_slot_cost s e) (cs_slotCosts cs) rs"
  "cs_slotConnections (foldl (cost_step s e c) cs rs) = foldl (put_connection s e) (cs_slotConnections cs) rs"
  by (induction rs arbitrary: cs) simp_all

lemma foldl_add: "foldl (\<lambda>a x. a + f x) a xs = a + sum_list (map f xs)" for a :: "'n :: comm_monoid_add"
  by (induction xs arbitrary: a) (simp_all add: add.assoc)

lemma estimatedCost_amount:
  "fst (estimatedCost rs s e c)
     = sum_list (map (\<lambda>r. if for_customer c r then per_gib_cost s e r else 0) rs)
       + sum_list (map (slot_share (slot_connections s e rs) c) (slot_costs s e rs))"
  by (simp add: estimatedCost_def Let_def foldl_add cost_loop slot_costs_def slot_connections_def)

lemma estimatedCost_connectionMs:
  "snd (estimatedCost rs s e c)
     = sum_list (map (\<lambda>r. if for_customer c r then case_option 0 snd (connection_of s e r) else 0) rs)"
  by (simp add: estimatedCost_def Let_def cost_loop)

subsection \<open>Costs are conserved\<close>

definition customers_within :: "string set \<Rightarrow> (string, (string, int) js_map) js_map \<Rightarrow> bool" where
  "customers_within C m \<longleftrightarrow> (\<forall>slot by. js_get m slot = Some by \<longrightarrow> js_wf by \<and> set (js_keys by) \<subseteq> C)"

lemma customers_within_get:
  assumes "customers_within C m"
  shows "js_wf (case_option [] id (js_get m slot)) \<and> set (js_keys (case_option [] id (js_get m slot))) \<subseteq> C"
proof (cases "js_get m slot")
  case None
  then show ?thesis by (simp add: js_keys_def)
next
  case (Some shares)
  with assms show ?thesis by (simp add: customers_within_def)
qed

lemma customers_within_add:
  assumes "customers_within C m" "c \<in> C"
  shows "customers_within C (add_connection m slot c d)"
  unfolding customers_within_def
proof (intro allI impI)
  fix k shares assume get: "js_get (add_connection m slot c d) k = Some shares"
  show "js_wf shares \<and> set (js_keys shares) \<subseteq> C"
  proof (cases "k = slot")
    case True
    with get have "shares = add_to (case_option [] id (js_get m slot)) c d" by (simp add: add_connection_def)
    with customers_within_get [OF assms(1), of slot] assms(2) show ?thesis by (simp add: add_to_def js_keys_set)
  next
    case False
    with get assms(1) show ?thesis by (simp add: add_connection_def customers_within_def)
  qed
qed

lemma slot_connections_within:
  assumes "\<forall>r \<in> set rs. ur_kind r = Attempt \<longrightarrow> ur_customerId r \<in> C"
  shows "customers_within C (slot_connections s e rs)"
proof -
  have "customers_within C (foldl (put_connection s e) m rs)" if "customers_within C m" for m
    using that assms
  proof (induction rs arbitrary: m)
    case (Cons r rs)
    have "customers_within C (put_connection s e m r)"
    proof (cases "connection_of s e r")
      case None
      with Cons.prems(1) show ?thesis by (simp add: put_connection_def)
    next
      case (Some x)
      with connection_of_attempt [OF Some] Cons.prems show ?thesis
        by (cases x) (simp add: put_connection_def customers_within_add)
    qed
    then have "customers_within C (foldl (put_connection s e) (put_connection s e m r) rs)"
      by (rule Cons.IH) (use Cons.prems(2) in simp)
    then show ?case by simp
  qed simp
  moreover have "customers_within C []" by (simp add: customers_within_def)
  ultimately show ?thesis unfolding slot_connections_def by blast
qed

lemma slot_costs_capacity: "slot_costs s e rs \<noteq> [] \<Longrightarrow> list_ex (\<lambda>r. ur_kind r = Capacity) rs"
proof -
  have "foldl (put_slot_cost s e) m rs = m" if "\<not> list_ex (\<lambda>r. ur_kind r = Capacity) rs" for m
    using that
  proof (induction rs arbitrary: m)
    case (Cons r rs)
    then have "put_slot_cost s e m r = m"
      using slot_cost_of_capacity [of s e r] by (auto simp: put_slot_cost_def split: option.splits)
    with Cons show ?case by simp
  qed simp
  then show "slot_costs s e rs \<noteq> [] \<Longrightarrow> list_ex (\<lambda>r. ur_kind r = Capacity) rs" by (auto simp: slot_costs_def)
qed

lemma sum_sum_list: "(\<Sum>c\<in>C. sum_list (map (f c) xs)) = sum_list (map (\<lambda>x. \<Sum>c\<in>C. f c x) xs)" for f :: "'c \<Rightarrow> 'a \<Rightarrow> 'n :: comm_monoid_add"
  by (induction xs) (simp_all add: sum.distrib)

lemma sum_js_values:
  fixes m :: "('k, 'n :: comm_monoid_add) js_map"
  assumes "js_wf m" "set (js_keys m) \<subseteq> C" "finite C"
  shows "(\<Sum>c\<in>C. case_option 0 id (js_get m c)) = sum_list (js_values m)" (is "sum ?g C = _")
proof -
  have "js_get m k = None" if "k \<notin> fst ` set m" for k using that by (simp add: js_get_def map_of_eq_None_iff)
  then have "sum ?g C = sum ?g (fst ` set m)"
    using assms(2,3) by (intro sum.mono_neutral_right) (auto simp: js_keys_def)
  also have "\<dots> = sum_list (map ?g (map fst m))"
    using assms(1) unfolding js_wf_def by (subst sum_list_distinct_conv_sum_set) simp_all
  also have "map ?g (map fst m) = map snd m"
    using assms(1) by (auto simp: js_wf_def js_get_def map_of_is_SomeI)
  finally show ?thesis by (simp add: js_values_def)
qed

lemma slot_shares_whole:
  assumes "customers_within C m" "finite C" "''Unallocated'' \<in> C"
  shows "(\<Sum>c\<in>C. slot_share m (Some c) sc) = snd sc"
proof -
  let ?by = "case_option [] id (js_get m (fst sc))"
  have by_ok: "js_wf ?by" "set (js_keys ?by) \<subseteq> C"
    using customers_within_get [OF assms(1)] by blast+
  show ?thesis
  proof (cases "sum_list (js_values ?by) = 0")
    case True
    then have "slot_share m (Some c) sc = (if c = ''Unallocated'' then snd sc else 0)" for c by (simp add: slot_share_def Let_def)
    with assms(2,3) show ?thesis by simp
  next
    case False
    then have "(\<Sum>c\<in>C. slot_share m (Some c) sc)
      = snd sc * (real_of_int (\<Sum>c\<in>C. case_option 0 id (js_get ?by c)) / real_of_int (sum_list (js_values ?by)))"
      by (simp add: slot_share_def Let_def sum_distrib_left [symmetric] sum_divide_distrib [symmetric])
    with False show ?thesis by (simp add: sum_js_values [OF by_ok assms(2)])
  qed
qed

lemma for_customer_sum:
  fixes v :: "UsageRecord \<Rightarrow> 'n :: comm_monoid_add"
  assumes "finite C" "\<forall>r \<in> set rs. v r = 0 \<or> ur_customerId r \<in> C"
  shows "(\<Sum>c\<in>C. sum_list (map (\<lambda>r. if for_customer (Some c) r then v r else 0) rs)) = sum_list (map v rs)"
  unfolding sum_sum_list using assms by (intro arg_cong [where f = sum_list] map_cong) (auto simp: for_customer_def)

lemma cost_by_customer:
  assumes "\<forall>r \<in> set records. ur_kind r = Capacity \<longrightarrow> ur_customerId r = ''Unallocated''"
  shows "sum_list (map (\<lambda>c. fst (estimatedCost records s e (Some c))) (customer_groups records)) = fst (estimatedCost records s e None)
    \<and> sum_list (map (\<lambda>c. snd (estimatedCost records s e (Some c))) (customer_groups records)) = snd (estimatedCost records s e None)"
proof -
  let ?C = "set (customer_groups records)"
  have mem: "ur_customerId r \<in> ?C" if "r \<in> set records" for r
    using that assms by (cases "ur_kind r") (auto simp: customer_groups_def list_ex_iff)
  have slots: "(\<Sum>c\<in>?C. sum_list (map (slot_share (slot_connections s e records) (Some c)) (slot_costs s e records)))
      = sum_list (map snd (slot_costs s e records))"
  proof (cases "slot_costs s e records = []")
    case False
    then have "''Unallocated'' \<in> ?C" using slot_costs_capacity [of s e records] by (simp add: customer_groups_def)
    then show ?thesis
      using slot_shares_whole [OF slot_connections_within [of records ?C s e], simplified] mem by (simp add: sum_sum_list)
  qed simp
  have none: "for_customer None r" "slot_share m None = snd" for r m by (auto simp: for_customer_def slot_share_def)
  show ?thesis
    using for_customer_sum [of ?C records "per_gib_cost s e"] for_customer_sum [of ?C records "\<lambda>r. case_option 0 snd (connection_of s e r)"]
      mem slots
    by (simp add: estimatedCost_amount estimatedCost_connectionMs none sum_list_distinct_conv_sum_set sum.distrib customer_groups_def)
qed

text \<open>
  Cost and time are conserved when usage is broken down by customer: over the customers of a
  period, with \<open>Unallocated\<close> for slots nobody used, the estimates add up to the estimate of the
  period as a whole, and so do the milliseconds of connection; nothing is charged twice or lost.
\<close>

theorem cost_conserved_by_customer:
  assumes "\<forall>r \<in> set records. ur_kind r = Capacity \<longrightarrow> ur_customerId r = ''Unallocated''"
  shows "sum_list (map (\<lambda>c. fst (estimatedCost records s e (Some c))) (customer_groups records)) = fst (estimatedCost records s e None)
    \<and> sum_list (map (\<lambda>c. snd (estimatedCost records s e (Some c))) (customer_groups records)) = snd (estimatedCost records s e None)"
  by (rule cost_by_customer [OF assms])

text \<open>A slot shared by two customers, one of them with traffic priced per GiB, and a slot nobody used.\<close>

definition sample_capacity :: ProvisionedProxySlotCapacity where
  "sample_capacity =
     \<lparr>psc_provider = ''proxidize'', psc_id = ''c1'', psc_proxySlotId = ''slot-1'', psc_periodStartedAt = 0,
      psc_periodEndsAt = 3600000, psc_priceUsd = 60, psc_pricingVersion = ''v1'', psc_country = None, psc_city = None,
      psc_health = None\<rparr>"

definition capacity_usage :: "ProvisionedProxySlotCapacity \<Rightarrow> UsageRecord list" where
  "capacity_usage c = (case provisionedProxySlotCapacityRecord c of Inr r \<Rightarrow> [r] | Inl _ \<Rightarrow> [])"

definition sample_slot_usage :: "UsageRecord list" where
  "sample_slot_usage =
     (let idle = capacity_usage (sample_capacity\<lparr>psc_id := ''c2'', psc_proxySlotId := ''slot-2''\<rparr>)
      in concat (map (\<lambda>r.
           [r, r\<lparr>ur_kind := Attempt, ur_id := ''a1'', ur_customerId := ''acme'', connectionStartedAt := Some 0,
                 connectionEndedAt := Some 600000, pricingModel := Some PerGib, bytesSent := 1024 ^ 3, completedAt := 600000\<rparr>,
            r\<lparr>ur_kind := Attempt, ur_id := ''a2'', ur_customerId := ''zen'', connectionStartedAt := Some 0,
                 connectionEndedAt := Some 300000, priceUsd := None, completedAt := 300000\<rparr>])
         (capacity_usage sample_capacity)) @ idle)"

theorem cost_conserved_by_customer_witness:
  "length sample_slot_usage = 4 \<and> customer_groups sample_slot_usage = [''acme'', ''zen'', ''Unallocated''] \<and>
   sum_list (map (\<lambda>c. snd (estimatedCost sample_slot_usage 0 3600000 (Some c))) [''acme'', ''zen'', ''Unallocated''])
     = snd (estimatedCost sample_slot_usage 0 3600000 None)"
proof -
  have g: "customer_groups sample_slot_usage = [''acme'', ''zen'', ''Unallocated'']" by code_simp
  have "list_all (\<lambda>r. ur_kind r = Capacity \<longrightarrow> ur_customerId r = ''Unallocated'') sample_slot_usage" by code_simp
  then have "\<forall>r \<in> set sample_slot_usage. ur_kind r = Capacity \<longrightarrow> ur_customerId r = ''Unallocated''" by (simp add: list_all_iff)
  from cost_conserved_by_customer [OF this, of 0 3600000] have "sum_list (map (\<lambda>c. snd (estimatedCost sample_slot_usage 0 3600000 (Some c)))
      [''acme'', ''zen'', ''Unallocated'']) = snd (estimatedCost sample_slot_usage 0 3600000 None)" unfolding g by blast
  moreover have "length sample_slot_usage = 4" by code_simp
  ultimately show ?thesis using g by blast
qed

end
