(* ===== verification/Usage_Rollup.thy ===== *)
theory Usage_Rollup
  imports Usage_Periods Usage_Cost
begin

text \<open>
  Rollups, \<open>summarizeUsage\<close> of \<open>src/usage-accounting-core.ts\<close> with the metrics it puts in each: records are
  selected by a query, put in the periods they completed in or were connected in, and summed up per
  period and group. The clock is an argument, as is the collation by which rollups of one period are listed.
\<close>

record ProviderCostTotal =
  pct_provider :: ProviderId
  pct_periodStartedAt :: timestamp
  pct_periodEndsAt :: timestamp
  pct_amountUsd :: real
  pct_sourceVersion :: string

record UsageQuery =
  q_from :: timestamp
  q_to :: timestamp
  q_interval :: UsageInterval
  q_groupBy :: "UsageGroupBy option"
  q_customerId :: "string option"
  q_provider :: "ProviderId option"
  q_userId :: "string option"
  q_routeId :: "string option"
  q_jobId :: "string option"
  q_logicalOperationId :: "string option"
  q_sessionMode :: "SessionMode option"
  q_destinationDomain :: "string option"
  q_destinationHost :: "string option"
  q_destinationPathTemplate :: "string option"
  q_country :: "string option"
  q_city :: "string option"
  q_outcome :: "string option"

definition outcome_name :: "UsageOutcome \<Rightarrow> string" where
  "outcome_name x =
     (case x of OutcomeSuccess \<Rightarrow> ''success'' | OutcomeHttpError \<Rightarrow> ''http_error'' | OutcomeRetry \<Rightarrow> ''retry'' | OutcomeFailure \<Rightarrow> ''failure'')"

definition session_mode_name :: "SessionMode \<Rightarrow> string" where
  "session_mode_name m = (case m of Managed \<Rightarrow> ''managed'' | Stateless \<Rightarrow> ''stateless'')"

definition interval_name :: "UsageInterval \<Rightarrow> string" where
  "interval_name i = (case i of IntervalHour \<Rightarrow> ''hour'' | IntervalDay \<Rightarrow> ''day'' | IntervalWeek \<Rightarrow> ''week'' | IntervalMonth \<Rightarrow> ''month'')"

definition group_name :: "UsageGroupBy \<Rightarrow> string" where
  "group_name g =
     (case g of ByProvider \<Rightarrow> ''provider'' | ByCustomer \<Rightarrow> ''customer'' | ByUser \<Rightarrow> ''user'' | ByRoute \<Rightarrow> ''route'' | ByJob \<Rightarrow> ''job''
      | BySessionMode \<Rightarrow> ''session_mode'' | ByDestinationDomain \<Rightarrow> ''destination_domain'' | ByDestinationHost \<Rightarrow> ''destination_host''
      | ByDestinationPathTemplate \<Rightarrow> ''destination_path_template'' | ByCountry \<Rightarrow> ''country'' | ByCity \<Rightarrow> ''city'' | ByOutcome \<Rightarrow> ''outcome'')"

definition groupValue :: "UsageRecord \<Rightarrow> UsageGroupBy option \<Rightarrow> string" where
  "groupValue r groupBy =
     (case groupBy of
        None \<Rightarrow> ''all''
      | Some ByProvider \<Rightarrow> ur_provider r
      | Some ByCustomer \<Rightarrow> ur_customerId r
      | Some ByUser \<Rightarrow> ur_userId r
      | Some ByRoute \<Rightarrow> ur_routeId r
      | Some ByJob \<Rightarrow> case_option ''Unallocated'' id (ur_jobId r)
      | Some BySessionMode \<Rightarrow> case_option ''Unallocated'' session_mode_name (ur_sessionMode r)
      | Some ByDestinationDomain \<Rightarrow> case_option ''Unknown'' id (destinationDomain r)
      | Some ByDestinationHost \<Rightarrow> case_option ''Unknown'' id (destinationHost r)
      | Some ByDestinationPathTemplate \<Rightarrow> case_option ''Unknown'' id (destinationPathTemplate r)
      | Some ByCountry \<Rightarrow> case_option ''Unknown'' id (ur_country r)
      | Some ByCity \<Rightarrow> case_option ''Unknown'' id (ur_city r)
      | Some ByOutcome \<Rightarrow> outcome_name (ur_outcome r))"

definition matches :: "UsageRecord \<Rightarrow> UsageQuery \<Rightarrow> bool" where
  "matches r q \<longleftrightarrow>
     (q_customerId q = None \<or> q_customerId q = Some (ur_customerId r)) \<and>
     (q_provider q = None \<or> q_provider q = Some (ur_provider r)) \<and>
     (q_userId q = None \<or> q_userId q = Some (ur_userId r)) \<and>
     (q_routeId q = None \<or> q_routeId q = Some (ur_routeId r)) \<and>
     (q_jobId q = None \<or> q_jobId q = ur_jobId r) \<and>
     (q_logicalOperationId q = None \<or> q_logicalOperationId q = Some (logicalOperationId r)) \<and>
     (q_sessionMode q = None \<or> q_sessionMode q = ur_sessionMode r) \<and>
     (q_destinationDomain q = None \<or> q_destinationDomain q = destinationDomain r) \<and>
     (q_destinationHost q = None \<or> q_destinationHost q = destinationHost r) \<and>
     (q_destinationPathTemplate q = None \<or> q_destinationPathTemplate q = destinationPathTemplate r) \<and>
     (q_country q = None \<or> q_country q = ur_country r) \<and>
     (q_city q = None \<or> q_city q = ur_city r) \<and>
     (q_outcome q = None \<or> q_outcome q = Some (outcome_name (ur_outcome r)))"

subsection \<open>Capacity\<close>

record SlotWindows =
  sw_connections :: "window list"
  sw_healthy :: "window list"
  sw_unhealthy :: "window list"

definition slot_windows_step ::
    "timestamp \<Rightarrow> timestamp \<Rightarrow> (string, SlotWindows) js_map \<Rightarrow> UsageRecord \<Rightarrow> (string, SlotWindows) js_map" where
  "slot_windows_step periodStartMs periodEndMs bySlot r =
     (case ur_proxySlotId r of
        None \<Rightarrow> bySlot
      | Some slot \<Rightarrow>
          (let entry = (case js_get bySlot slot of Some x \<Rightarrow> x
                        | None \<Rightarrow> \<lparr>sw_connections = [], sw_healthy = [], sw_unhealthy = []\<rparr>);
               w = (if ur_kind r = Attempt
                    then clippedWindow (connectionStartedAt r) (connectionEndedAt r) periodStartMs periodEndMs
                    else clippedWindow (Some (ur_startedAt r)) (Some (completedAt r)) periodStartMs periodEndMs)
           in case w of
                None \<Rightarrow> bySlot
              | Some x \<Rightarrow>
                  js_set bySlot slot
                    (if ur_kind r = Attempt then entry\<lparr>sw_connections := sw_connections entry @ [x]\<rparr>
                     else if capacityState r = Some UnhealthySlot then entry\<lparr>sw_unhealthy := sw_unhealthy entry @ [x]\<rparr>
                     else entry\<lparr>sw_healthy := sw_healthy entry @ [x]\<rparr>)))"

definition intersect_windows :: "window list \<Rightarrow> window list \<Rightarrow> window list" where
  "intersect_windows connections healthy =
     concat (map (\<lambda>c. concat (map (\<lambda>h.
        let s = max (w_start c) (w_start h); e = min (w_end c) (w_end h)
        in if s < e then [\<lparr>w_start = s, w_end = e\<rparr>] else []) healthy)) connections)"

definition open_at :: "timestamp \<Rightarrow> window \<Rightarrow> bool" where
  "open_at t w \<longleftrightarrow> w_start w \<le> t \<and> t < w_end w"

definition slot_idle_ms :: "SlotWindows \<Rightarrow> int" where
  "slot_idle_ms entry =
     max 0 (unionDuration (sw_healthy entry) - unionDuration (intersect_windows (sw_connections entry) (sw_healthy entry)))"

definition limiting_constraint :: "UsageRecord list \<Rightarrow> CapacityConstraint option" where
  "limiting_constraint records =
     (let constraints = List.map_filter ur_capacityConstraint records
      in if List.member constraints GeographyConstraint then Some GeographyConstraint
         else if List.member constraints CarrierConstraint then Some CarrierConstraint
         else if List.member constraints SlotExhaustion then Some SlotExhaustion else None)"

record CapacityMetrics =
  cm_activeConnectionMs :: int
  cm_provisionedSlotMs :: int
  cm_healthyIdleSlotMs :: int
  cm_unhealthySlotMs :: int
  cm_slotOccupancy :: real
  cm_currentSlotOccupancy :: real
  cm_provisionedSlots :: int
  cm_activeConnections :: nat
  cm_peakConcurrentConnections :: int
  cm_p95ConcurrentConnections :: int
  cm_concurrencyUtilization :: real
  cm_throughputUtilization :: real
  cm_prioritizedGbUsed :: real
  cm_prioritizedGbForecast :: real
  cm_capacityDrivenFallbackCount :: nat
  cm_capacityFailureCount :: nat
  cm_capacityWaitMs :: int
  cm_capacityConstraint :: "CapacityConstraint option"

definition capacityMetrics :: "UsageRecord list \<Rightarrow> timestamp \<Rightarrow> timestamp \<Rightarrow> timestamp \<Rightarrow> CapacityMetrics" where
  "capacityMetrics records periodStartMs periodEndMs now =
     (let entries = js_values (foldl (slot_windows_step periodStartMs periodEndMs) [] records);
          currentAt = min now periodEndMs - 1;
          total = (\<lambda>f. sum_list (map f entries) :: int);
          provisioned = (\<lambda>x. sw_healthy x @ sw_unhealthy x);
          activeNow = (\<lambda>x. length (filter (open_at currentAt) (sw_connections x)));
          allConnections = concat (map sw_connections entries);
          activeMs = total (\<lambda>x. sum_list (map (\<lambda>w. w_end w - w_start w) (sw_connections x)));
          occupiedMs = total (\<lambda>x. unionDuration (sw_connections x));
          provisionedMs = total (\<lambda>x. unionDuration (provisioned x));
          currentOccupied = length (filter (\<lambda>x. 0 < activeNow x) entries);
          currentProvisioned = length (filter (\<lambda>x. list_ex (open_at currentAt) (provisioned x)) entries);
          periodDurationMs = real_of_int (max 1 (periodEndMs - periodStartMs));
          averageProvisionedSlots = real_of_int provisionedMs / periodDurationMs;
          bytes = sum_list (map (\<lambda>r. bytesSent r + bytesReceived r) (filter (\<lambda>r. ur_kind r = Attempt) records));
          observedMbps = real_of_int (bytes * 8) / periodDurationMs / 1000;
          gbUsed = real_of_int bytes / GIB
      in \<lparr>cm_activeConnectionMs = activeMs,
          cm_provisionedSlotMs = provisionedMs,
          cm_healthyIdleSlotMs = total slot_idle_ms,
          cm_unhealthySlotMs = total (\<lambda>x. unionDuration (sw_unhealthy x)),
          cm_slotOccupancy = (if provisionedMs = 0 then 0 else real_of_int occupiedMs / real_of_int provisionedMs),
          cm_currentSlotOccupancy = (if currentProvisioned = 0 then 0 else real currentOccupied / real currentProvisioned),
          cm_provisionedSlots = \<lceil>averageProvisionedSlots\<rceil>,
          cm_activeConnections = sum_list (map activeNow entries),
          cm_peakConcurrentConnections = peakConcurrency allConnections,
          cm_p95ConcurrentConnections = concurrencyPercentile allConnections periodStartMs periodEndMs (95 / 100),
          cm_concurrencyUtilization =
            (if provisionedMs = 0 then 0
             else real_of_int activeMs / real_of_int (provisionedMs * softConnectionsPerSlot CAPACITY_POLICY)),
          cm_throughputUtilization =
            (if averageProvisionedSlots = 0 then 0
             else observedMbps / (averageProvisionedSlots * plannedMbpsPerSlot CAPACITY_POLICY)),
          cm_prioritizedGbUsed = gbUsed,
          cm_prioritizedGbForecast = gbUsed * (SLOT_MONTH_MS / periodDurationMs),
          cm_capacityDrivenFallbackCount =
            length (filter (\<lambda>r. ur_kind r = Attempt \<and> failover r \<and> ur_capacityPressure r = Some True) records),
          cm_capacityFailureCount =
            length (filter (\<lambda>r. ur_kind r = Attempt \<and> ur_outcome r = OutcomeFailure \<and> ur_capacityPressure r = Some True) records),
          cm_capacityWaitMs = sum_list (map (\<lambda>r. case_option 0 id (ur_establishmentWaitMs r)) records),
          cm_capacityConstraint = limiting_constraint records\<rparr>)"

definition latencyMetrics :: "UsageRecord list \<Rightarrow> real \<times> int" where
  "latencyMetrics records =
     (let values = js_sort (by_key id) (List.map_filter latencyMs records)
      in if values = [] then (0, 0)
         else (real_of_int (sum_list values) / real (length values),
               values ! nat (max 0 (\<lceil>real (length values) * (95 / 100)\<rceil> - 1))))"

subsection \<open>Periods and groups\<close>

definition usage_window :: "UsageRecord \<Rightarrow> timestamp option \<times> timestamp option" where
  "usage_window r =
     (if ur_kind r = Capacity then (Some (ur_startedAt r), Some (completedAt r)) else (connectionStartedAt r, connectionEndedAt r))"

definition completed_within :: "UsageRecord \<Rightarrow> timestamp \<Rightarrow> timestamp \<Rightarrow> bool" where
  "completed_within r from to \<longleftrightarrow> ur_kind r = Attempt \<and> from \<le> completedAt r \<and> completedAt r < to"

definition overlap_starts :: "UsageRecord \<Rightarrow> timestamp \<Rightarrow> timestamp \<Rightarrow> UsageInterval \<Rightarrow> timestamp list" where
  "overlap_starts r from to interval =
     (case usage_window r of
        (Some windowStart, Some windowEnd) \<Rightarrow>
          if windowStart < to \<and> from < windowEnd
          then period_starts (periodStart (max from windowStart) interval) (min to windowEnd) interval else []
      | _ \<Rightarrow> [])"

definition record_starts :: "UsageRecord \<Rightarrow> UsageQuery \<Rightarrow> timestamp list" where
  "record_starts r q =
     js_set_of ((if completed_within r (q_from q) (q_to q) then [periodStart (completedAt r) (q_interval q)] else []) @
                overlap_starts r (q_from q) (q_to q) (q_interval q))"

definition period_step :: "UsageQuery \<Rightarrow> (timestamp, UsageRecord list) js_map \<Rightarrow> UsageRecord \<Rightarrow> (timestamp, UsageRecord list) js_map" where
  "period_step q byPeriod r =
     (if matches r q
      then foldl (\<lambda>m start. js_set m start (case_option [] id (js_get m start) @ [r])) byPeriod (record_starts r q)
      else byPeriod)"

definition by_period :: "UsageRecord list \<Rightarrow> UsageQuery \<Rightarrow> (timestamp, UsageRecord list) js_map" where
  "by_period records q = foldl (period_step q) [] records"

definition grouped_values :: "UsageQuery \<Rightarrow> UsageRecord list \<Rightarrow> string list" where
  "grouped_values q periodEntries =
     (case q_groupBy q of
        None \<Rightarrow> [''all'']
      | Some ByCustomer \<Rightarrow> customer_groups periodEntries
      | Some g \<Rightarrow> js_set_of (map (\<lambda>r. groupValue r (Some g)) periodEntries))"

definition group_entries :: "UsageQuery \<Rightarrow> UsageRecord list \<Rightarrow> string \<Rightarrow> UsageRecord list" where
  "group_entries q periodEntries groupedValue =
     (case q_groupBy q of
        None \<Rightarrow> periodEntries
      | Some ByCustomer \<Rightarrow> filter (\<lambda>r. ur_kind r = Capacity \<or> ur_customerId r = groupedValue) periodEntries
      | Some g \<Rightarrow> filter (\<lambda>r. groupValue r (Some g) = groupedValue) periodEntries)"

definition matching_totals :: "ProviderCostTotal list \<Rightarrow> ProviderId list \<Rightarrow> timestamp \<Rightarrow> timestamp \<Rightarrow> ProviderCostTotal list" where
  "matching_totals totals providers periodStarted periodEnds =
     filter (\<lambda>t. List.member providers (pct_provider t) \<and> pct_periodStartedAt t = periodStarted \<and> pct_periodEndsAt t = periodEnds) totals"

text \<open>A customer's part of what a provider reported: in proportion to the estimates, all to \<open>Unallocated\<close> where nothing was priced.\<close>

definition provider_share :: "UsageRecord list \<Rightarrow> timestamp \<Rightarrow> timestamp \<Rightarrow> string \<Rightarrow> ProviderCostTotal \<Rightarrow> real" where
  "provider_share periodEntries periodStarted periodEnds groupedValue t =
     (let providerEntries = filter (\<lambda>r. ur_provider r = pct_provider t) periodEntries;
          providerEstimate = fst (estimatedCost providerEntries periodStarted periodEnds None);
          customerEstimate = fst (estimatedCost providerEntries periodStarted periodEnds (Some groupedValue))
      in if providerEstimate = 0 then (if groupedValue = ''Unallocated'' then pct_amountUsd t else 0)
         else pct_amountUsd t * (customerEstimate / providerEstimate))"

definition group_providers :: "UsageRecord list \<Rightarrow> ProviderId list" where
  "group_providers entries = js_set_of (filter (\<lambda>p. p \<noteq> ''unresolved'') (map ur_provider entries))"

definition rollup_id :: "timestamp \<Rightarrow> UsageInterval \<Rightarrow> UsageGroupBy option \<Rightarrow> string \<Rightarrow> string" where
  "rollup_id periodStarted interval groupBy groupedValue =
     toISOString periodStarted @ ''#'' @ interval_name interval @ ''#'' @ case_option ''all'' group_name groupBy @ ''#'' @ groupedValue"

definition summarize_group ::
    "UsageQuery \<Rightarrow> ProviderCostTotal list \<Rightarrow> timestamp \<Rightarrow> timestamp \<Rightarrow> UsageRecord list \<Rightarrow> string \<Rightarrow> UsageRollup" where
  "summarize_group q totals now periodStarted periodEntries groupedValue =
     (let periodEnds = nextPeriod periodStarted (q_interval q);
          byCustomer = (q_groupBy q = Some ByCustomer);
          entries = group_entries q periodEntries groupedValue;
          completedEntries = filter (\<lambda>r. completed_within r periodStarted periodEnds) entries;
          operations = js_set_of (map logicalOperationId completedEntries);
          successful = js_set_of (map logicalOperationId
            (filter (\<lambda>r. ur_outcome r = OutcomeSuccess \<or> ur_outcome r = OutcomeHttpError) completedEntries));
          customer = (if byCustomer then Some groupedValue else q_customerId q);
          estimate = fst (estimatedCost (if byCustomer then periodEntries else entries) periodStarted periodEnds customer);
          capacity = capacityMetrics entries periodStarted periodEnds now;
          latency = latencyMetrics completedEntries;
          providers = group_providers entries;
          matchingTotals = matching_totals totals providers periodStarted periodEnds;
          reconciled = ((q_groupBy q = None \<or> byCustomer) \<and> providers \<noteq> [] \<and> length matchingTotals = length providers);
          spend = (if reconciled
                   then sum_list (map (\<lambda>t. if byCustomer then provider_share periodEntries periodStarted periodEnds groupedValue t
                                           else pct_amountUsd t) matchingTotals)
                   else 0)
      in \<lparr>ro_id = rollup_id periodStarted (q_interval q) (q_groupBy q) groupedValue,
          ro_interval = q_interval q,
          ro_periodStartedAt = periodStarted,
          ro_periodEndsAt = periodEnds,
          ro_group = map_option (\<lambda>g. (g, groupedValue)) (q_groupBy q),
          operationCount = length operations,
          successCount = length successful,
          retryCount = length (filter (\<lambda>r. ur_outcome r = OutcomeRetry) completedEntries),
          failoverCount = length (filter failover completedEntries),
          ro_bytesSent = sum_list (map bytesSent completedEntries),
          ro_bytesReceived = sum_list (map bytesReceived completedEntries),
          averageLatencyMs = fst latency,
          p95LatencyMs = snd latency,
          activeConnectionMs = cm_activeConnectionMs capacity,
          provisionedSlotMs = cm_provisionedSlotMs capacity,
          healthyIdleSlotMs = cm_healthyIdleSlotMs capacity,
          unhealthySlotMs = cm_unhealthySlotMs capacity,
          slotOccupancy = cm_slotOccupancy capacity,
          currentSlotOccupancy = cm_currentSlotOccupancy capacity,
          provisionedSlots = cm_provisionedSlots capacity,
          activeConnections = cm_activeConnections capacity,
          peakConcurrentConnections = cm_peakConcurrentConnections capacity,
          p95ConcurrentConnections = cm_p95ConcurrentConnections capacity,
          concurrencyUtilization = cm_concurrencyUtilization capacity,
          throughputUtilization = cm_throughputUtilization capacity,
          prioritizedGbUsed = cm_prioritizedGbUsed capacity,
          prioritizedGbForecast = cm_prioritizedGbForecast capacity,
          capacityDrivenFallbackCount = cm_capacityDrivenFallbackCount capacity,
          capacityFailureCount = cm_capacityFailureCount capacity,
          capacityWaitMs = cm_capacityWaitMs capacity,
          ro_capacityConstraint = cm_capacityConstraint capacity,
          ro_capacityPolicyVersion = capacity_version CAPACITY_POLICY,
          providerSpendUsd = spend,
          attributedCostUsd = (if reconciled \<and> \<not> byCustomer then spend else estimate),
          estimatedCostUsd = estimate,
          costStatus = (if reconciled then CostReconciled else CostEstimated),
          pricingVersions = js_sort code_unit_compare (js_set_of (List.map_filter pricingVersion entries)),
          ro_updatedAt = now\<rparr>)"

definition by_period_and_id :: "string comparator \<Rightarrow> UsageRollup comparator" where
  "by_period_and_id lc a b = then_by (ro_periodStartedAt a - ro_periodStartedAt b) (lc (ro_id a) (ro_id b))"

definition summarizeUsage ::
    "string comparator \<Rightarrow> timestamp \<Rightarrow> UsageRecord list \<Rightarrow> UsageQuery \<Rightarrow> ProviderCostTotal list \<Rightarrow> string + UsageRollup list" where
  "summarizeUsage lc now records q totals =
     (if q_to q \<le> q_from q then Inl ''invalid_usage_range''
      else Inr (js_sort (by_period_and_id lc)
        (concat (map (\<lambda>(periodStarted, periodEntries).
             map (summarize_group q totals now periodStarted periodEntries) (grouped_values q periodEntries))
           (by_period records q)))))"

end
