(* ===== verification/Usage_Conservation.thy ===== *)
theory Usage_Conservation
  imports Usage_Rollup
begin

text \<open>
  What rollups conserve: every record is in exactly the periods it belongs to, the bytes of the rollups
  are those of the attempts, and the costs of customers add up to the cost of the period.
\<close>

subsection \<open>Entries of a period\<close>

lemma period_step_inner:
  assumes "distinct starts"
  shows "js_get (foldl (\<lambda>m start. js_set m start (case_option [] id (js_get m start) @ [r])) m starts) s
    = (if s \<in> set starts then Some (case_option [] id (js_get m s) @ [r]) else js_get m s)"
  using assms by (induction starts arbitrary: m) (auto simp: fun_upd_apply)

lemma period_step_wf: "js_wf m \<Longrightarrow> js_wf (foldl (\<lambda>m start. js_set m start (f m start)) m starts)"
  by (induction starts arbitrary: m) simp_all

definition entries_of :: "UsageRecord list \<Rightarrow> UsageQuery \<Rightarrow> timestamp \<Rightarrow> UsageRecord list" where
  "entries_of records q s = filter (\<lambda>r. matches r q \<and> s \<in> set (record_starts r q)) records"

lemma period_step_get:
  "js_get (period_step q m r) s
     = (if matches r q \<and> s \<in> set (record_starts r q) then Some (case_option [] id (js_get m s) @ [r]) else js_get m s)"
  by (simp add: period_step_def period_step_inner record_starts_def)

lemma by_period_get:
  "js_get (by_period records q) s = (if entries_of records q s = [] then None else Some (entries_of records q s))"
  unfolding by_period_def entries_of_def
  by (induction records rule: rev_induct) (auto simp: period_step_get)

lemma by_period_wf: "js_wf (by_period records q)"
  unfolding by_period_def
  by (induction records rule: rev_induct) (auto simp: period_step_def period_step_wf)

lemma by_period_entries: "(s, es) \<in> set (by_period records q) \<longleftrightarrow> es = entries_of records q s \<and> es \<noteq> []"
  by (auto simp: js_mem_get [OF by_period_wf] by_period_get)

lemma by_period_keys: "fst ` set (by_period records q) = {s. entries_of records q s \<noteq> []}"
proof -
  have "s \<in> fst ` set (by_period records q) \<longleftrightarrow> (\<exists>es. (s, es) \<in> set (by_period records q))" for s by force
  then show ?thesis by (auto simp: by_period_entries)
qed

lemma by_period_distinct: "distinct (map fst (by_period records q))"
  using by_period_wf by (simp add: js_wf_def)

lemma sum_by_period:
  "sum_list (map (\<lambda>(s, es). g s es) (by_period records q)) = (\<Sum>s | entries_of records q s \<noteq> []. g s (entries_of records q s))"
proof -
  have "sum_list (map (\<lambda>(s, es). g s es) (by_period records q))
    = sum_list (map (\<lambda>s. g s (entries_of records q s)) (map fst (by_period records q)))"
    unfolding map_map by (intro arg_cong [where f = sum_list] map_cong) (auto simp: by_period_entries)
  also have "\<dots> = (\<Sum>s\<in>set (map fst (by_period records q)). g s (entries_of records q s))"
    by (rule sum_list_distinct_conv_sum_set) (rule by_period_distinct)
  finally show ?thesis by (simp add: by_period_keys)
qed

lemma entries_of_group [simp]: "entries_of records (q\<lparr>q_groupBy := g\<rparr>) s = entries_of records q s"
proof -
  have "matches r (q\<lparr>q_groupBy := g\<rparr>) = matches r q" for r by (cases q) (simp only: matches_def UsageQuery.simps)
  moreover have "record_starts r (q\<lparr>q_groupBy := g\<rparr>) = record_starts r q" for r
    by (cases q) (simp only: record_starts_def UsageQuery.simps)
  ultimately show ?thesis unfolding entries_of_def by presburger
qed

subsection \<open>Costs\<close>

definition summary :: "timestamp \<Rightarrow> UsageRecord list \<Rightarrow> UsageQuery \<Rightarrow> ProviderCostTotal list \<Rightarrow> UsageRollup list" where
  "summary now records q totals =
     concat (map (\<lambda>(s, es). map (summarize_group q totals now s es) (grouped_values q es)) (by_period records q))"

lemma summarizeUsage_summary:
  "summarizeUsage lc now records q totals
     = (if q_to q \<le> q_from q then Inl ''invalid_usage_range'' else Inr (js_sort (by_period_and_id lc) (summary now records q totals)))"
  by (simp add: summarizeUsage_def summary_def)

lemma summarize_group_period [simp]: "ro_periodStartedAt (summarize_group q totals now s es v) = s"
  by (simp add: summarize_group_def Let_def)

lemma summarize_group_estimate:
  "estimatedCostUsd (summarize_group q totals now s es v)
     = (if q_groupBy q = Some ByCustomer then fst (estimatedCost es s (nextPeriod s (q_interval q)) (Some v))
        else fst (estimatedCost (group_entries q es v) s (nextPeriod s (q_interval q)) (q_customerId q)))"
  by (simp add: summarize_group_def Let_def)

lemma sum_list_js_sort_filter:
  "sum_list (map f (filter P (js_sort c xs))) = sum_list (map f (filter P xs))" for f :: "'a \<Rightarrow> 'n :: comm_monoid_add"
  by (metis mset_filter mset_js_sort mset_map sum_mset_sum_list)

lemma summary_of_period:
  "filter (\<lambda>r. ro_periodStartedAt r = s) (summary now records q totals)
     = (if entries_of records q s = [] then []
        else map (summarize_group q totals now s (entries_of records q s)) (grouped_values q (entries_of records q s)))"
proof -
  have "filter (\<lambda>r. ro_periodStartedAt r = s)
      (concat (map (\<lambda>(s, es). map (summarize_group q totals now s es) (grouped_values q es)) m))
    = (case js_get m s of None \<Rightarrow> [] | Some es \<Rightarrow> map (summarize_group q totals now s es) (grouped_values q es))" if "js_wf m" for m
    using that
  proof (induction m)
    case (Cons x m)
    obtain k es where x: "x = (k, es)" by (meson surj_pair)
    have "js_get m k = None" using Cons.prems x by (auto simp: js_wf_def js_get_def map_of_eq_None_iff)
    with Cons x show ?case by (auto simp: js_get_Cons js_wf_def filter_map comp_def)
  qed simp
  from this [OF by_period_wf] show ?thesis unfolding summary_def by_period_get by simp
qed

lemma customer_bills:
  assumes "\<forall>r \<in> set records. ur_kind r = Capacity \<longrightarrow> ur_customerId r = ''Unallocated''"
    and "q_customerId q = None"
    and "summarizeUsage lc now records (q\<lparr>q_groupBy := None\<rparr>) totals = Inr wholes"
    and "summarizeUsage lc now records (q\<lparr>q_groupBy := Some ByCustomer\<rparr>) totals = Inr bills"
    and "whole \<in> set wholes"
  shows "sum_list (map estimatedCostUsd (filter (\<lambda>r. ro_periodStartedAt r = ro_periodStartedAt whole) bills)) = estimatedCostUsd whole"
proof -
  let ?N = "q\<lparr>q_groupBy := None\<rparr>" and ?C = "q\<lparr>q_groupBy := Some ByCustomer\<rparr>"
  have sums: "wholes = js_sort (by_period_and_id lc) (summary now records ?N totals)"
    "bills = js_sort (by_period_and_id lc) (summary now records ?C totals)"
    using assms(3,4) by (auto simp: summarizeUsage_summary split: if_splits)
  define s where "s = ro_periodStartedAt whole"
  define es where "es = entries_of records q s"
  have "whole \<in> set (filter (\<lambda>r. ro_periodStartedAt r = s) (summary now records ?N totals))"
    using assms(5) unfolding sums s_def by simp
  then have whole: "whole = summarize_group ?N totals now s es ''all''" and "es \<noteq> []"
    unfolding summary_of_period by (auto simp: es_def grouped_values_def split: if_splits)
  have "\<forall>r \<in> set es. ur_kind r = Capacity \<longrightarrow> ur_customerId r = ''Unallocated''"
    using assms(1) by (auto simp: es_def entries_of_def)
  note conserved = cost_by_customer [OF this, of s "nextPeriod s (q_interval q)"]
  have "sum_list (map estimatedCostUsd (filter (\<lambda>r. ro_periodStartedAt r = s) bills))
      = sum_list (map estimatedCostUsd (map (summarize_group ?C totals now s es) (customer_groups es)))"
    unfolding sums sum_list_js_sort_filter summary_of_period using \<open>es \<noteq> []\<close> by (simp add: es_def grouped_values_def)
  also have "\<dots> = fst (estimatedCost es s (nextPeriod s (q_interval q)) None)"
    using conserved by (simp add: comp_def summarize_group_estimate)
  also have "\<dots> = estimatedCostUsd whole" using assms(2) by (simp add: whole summarize_group_estimate group_entries_def)
  finally show ?thesis by (simp add: s_def)
qed

text \<open>
  C22. The bill of a period is the sum of its customers' bills: where the same records are rolled up
  as a whole and by customer, the estimated costs of the customers of each period add up to the
  estimated cost of that period.
\<close>

theorem customer_bills_add_up:
  assumes "\<forall>r \<in> set records. ur_kind r = Capacity \<longrightarrow> ur_customerId r = ''Unallocated''"
    and "q_customerId q = None"
    and "summarizeUsage lc now records (q\<lparr>q_groupBy := None\<rparr>) totals = Inr wholes"
    and "summarizeUsage lc now records (q\<lparr>q_groupBy := Some ByCustomer\<rparr>) totals = Inr bills"
    and "whole \<in> set wholes"
  shows "sum_list (map estimatedCostUsd (filter (\<lambda>r. ro_periodStartedAt r = ro_periodStartedAt whole) bills)) = estimatedCostUsd whole"
  by (rule customer_bills [OF assms])

subsection \<open>Bytes\<close>

lemma groups_partition:
  fixes f :: "UsageRecord \<Rightarrow> int"
  shows "sum_list (map (\<lambda>v. sum_list (map f (filter (\<lambda>r. completed_within r a b) (group_entries q es v)))) (grouped_values q es))
    = sum_list (map f (filter (\<lambda>r. completed_within r a b) es))"
proof -
  have generic: ?thesis
    if "distinct (grouped_values q es)"
      and "\<And>v. group_entries q es v = filter (Q v) es"
      and "\<And>r v. r \<in> set es \<Longrightarrow> ur_kind r = Attempt \<Longrightarrow> Q v r \<longleftrightarrow> v = k r"
      and "\<And>r. r \<in> set es \<Longrightarrow> ur_kind r = Attempt \<Longrightarrow> k r \<in> set (grouped_values q es)" for Q k
  proof -
    let ?P = "\<lambda>r. completed_within r a b"
    have "(\<Sum>v\<in>set (grouped_values q es). if ?P r \<and> Q v r then f r else 0) = (if ?P r then f r else 0)" if "r \<in> set es" for r
      using \<open>\<And>r v. r \<in> set es \<Longrightarrow> ur_kind r = Attempt \<Longrightarrow> Q v r \<longleftrightarrow> v = k r\<close> [OF that]
        \<open>\<And>r. r \<in> set es \<Longrightarrow> ur_kind r = Attempt \<Longrightarrow> k r \<in> set (grouped_values q es)\<close> [OF that]
      by (auto simp: completed_within_def)
    then show ?thesis
      unfolding that(2) filter_filter sum_list_map_filter' sum_list_distinct_conv_sum_set [OF that(1)] sum_sum_list
      by (intro arg_cong [where f = sum_list] map_cong) (auto simp: conj_commute)
  qed
  show ?thesis
  proof (cases "q_groupBy q")
    case None
    then show ?thesis by (simp add: grouped_values_def group_entries_def)
  next
    case (Some g)
    show ?thesis
    proof (cases "g = ByCustomer")
      case True
      with Some show ?thesis
        by (intro generic [where Q = "\<lambda>v r. ur_kind r = Capacity \<or> ur_customerId r = v" and k = ur_customerId])
          (auto simp: grouped_values_def group_entries_def customer_groups_def)
    next
      case False
      with Some have g: "grouped_values q es = js_set_of (map (\<lambda>r. groupValue r (Some g)) es)"
        "group_entries q es v = filter (\<lambda>r. groupValue r (Some g) = v) es" for v
        by (cases g; simp add: grouped_values_def group_entries_def)+
      then show ?thesis
        by (intro generic [where Q = "\<lambda>v r. groupValue r (Some g) = v" and k = "\<lambda>r. groupValue r (Some g)"]) auto
    qed
  qed
qed

lemma aligned_period:
  assumes "periodStart from i = from" "periodStart to i = to" "from \<le> t" "t < to"
  shows "from \<le> periodStart t i" "nextPeriod (periodStart t i) i \<le> to"
proof -
  show "from \<le> periodStart t i"
    using period_same [of t i "from"] period_end_gt [of t i] assms(1,3) by (cases "from \<le> periodStart t i") auto
  show "nextPeriod (periodStart t i) i \<le> to"
    using period_same [of t i "to"] period_start_le [of t i] assms(2,4)
    by (cases "nextPeriod (periodStart t i) i \<le> to") auto
qed

lemma record_in_period:
  assumes "q_from q < q_to q" "periodStart (q_from q) (q_interval q) = q_from q" "periodStart (q_to q) (q_interval q) = q_to q"
  shows "s \<in> set (record_starts r q) \<and> completed_within r s (nextPeriod s (q_interval q)) \<longleftrightarrow>
    completed_within r (q_from q) (q_to q) \<and> s = periodStart (completedAt r) (q_interval q)" (is "?L \<longleftrightarrow> ?R")
proof
  assume ?R
  then show ?L
    using period_start_le [of "completedAt r" "q_interval q"] period_end_gt [of "completedAt r" "q_interval q"]
    by (auto simp: record_starts_def completed_within_def)
next
  let ?i = "q_interval q"
  assume L: ?L
  show ?R
  proof (cases "s \<in> set (overlap_starts r (q_from q) (q_to q) ?i)")
    case True
    then obtain a b where w: "a < q_to q" "q_from q < b" "s \<in> set (period_starts (periodStart (max (q_from q) a) ?i) (min (q_to q) b) ?i)"
      by (auto simp: overlap_starts_def split: prod.splits option.splits if_splits)
    let ?x = "max (q_from q) a"
    have "q_from q \<le> periodStart ?x ?i" by (rule aligned_period [OF assms(2,3)]) (use w(1) assms(1) in simp_all)
    moreover have "s \<in> (\<lambda>t. periodStart t ?i) ` {periodStart ?x ?i..<min (q_to q) b}"
      using w(3) period_starts_set [OF period_of_start] by blast
    then obtain t where "t \<in> {periodStart ?x ?i..<min (q_to q) b}" "s = periodStart t ?i" by (elim imageE)
    ultimately have t: "q_from q \<le> t" "t < q_to q" "s = periodStart t ?i" by auto
    have "periodStart (completedAt r) ?i = s" using L period_same [of t ?i "completedAt r"] t(3) by (simp add: completed_within_def)
    with aligned_period [OF assms(2,3) t(1,2)] L t(3) show ?thesis by (auto simp: completed_within_def)
  next
    case False
    with L show ?thesis by (auto simp: record_starts_def split: if_splits)
  qed
qed

lemma period_sum:
  fixes f :: "UsageRecord \<Rightarrow> int"
  assumes "q_from q < q_to q" "periodStart (q_from q) (q_interval q) = q_from q" "periodStart (q_to q) (q_interval q) = q_to q"
  shows "sum_list (map (\<lambda>(s, es). sum_list (map f (filter (\<lambda>r. completed_within r s (nextPeriod s (q_interval q))) es))) (by_period records q))
    = sum_list (map f (filter (\<lambda>r. matches r q \<and> completed_within r (q_from q) (q_to q)) records))"
proof -
  let ?K = "{s. entries_of records q s \<noteq> []}"
  let ?in = "\<lambda>s r. completed_within r s (nextPeriod s (q_interval q))"
  have fin: "finite ?K" unfolding by_period_keys [symmetric] by simp
  have each: "(\<Sum>s\<in>?K. if (matches r q \<and> s \<in> set (record_starts r q)) \<and> ?in s r then f r else 0)
      = (if matches r q \<and> completed_within r (q_from q) (q_to q) then f r else 0)" if r: "r \<in> set records" for r
  proof (cases "matches r q \<and> completed_within r (q_from q) (q_to q)")
    case True
    let ?s = "periodStart (completedAt r) (q_interval q)"
    have "?s \<in> ?K" using r True by (auto simp: entries_of_def filter_empty_conv record_starts_def)
    moreover have "(matches r q \<and> s \<in> set (record_starts r q)) \<and> ?in s r \<longleftrightarrow> s = ?s" for s
      using True record_in_period [OF assms, of s r] by blast
    ultimately show ?thesis using True fin by simp
  next
    case False
    then have "\<not> ((matches r q \<and> s \<in> set (record_starts r q)) \<and> ?in s r)" for s
      using record_in_period [OF assms, of s r] by blast
    then have "(\<Sum>s\<in>?K. if (matches r q \<and> s \<in> set (record_starts r q)) \<and> ?in s r then f r else 0) = 0"
      by (intro sum.neutral ballI) (simp only: if_False)
    then show ?thesis unfolding if_not_P [OF False] .
  qed
  show ?thesis
    unfolding sum_by_period unfolding entries_of_def filter_filter sum_list_map_filter' sum_sum_list
    unfolding entries_of_def [symmetric]
    by (intro arg_cong [where f = sum_list] map_cong) (use each in \<open>auto simp: conj_commute\<close>)
qed

lemma summary_sum:
  fixes f :: "UsageRecord \<Rightarrow> int"
  assumes "q_from q < q_to q" "periodStart (q_from q) (q_interval q) = q_from q" "periodStart (q_to q) (q_interval q) = q_to q"
    and "\<And>s es v. g (summarize_group q totals now s es v)
           = sum_list (map f (filter (\<lambda>r. completed_within r s (nextPeriod s (q_interval q))) (group_entries q es v)))"
  shows "sum_list (map g (summary now records q totals))
    = sum_list (map f (filter (\<lambda>r. matches r q \<and> completed_within r (q_from q) (q_to q)) records))"
proof -
  have "sum_list (map g (concat (map (\<lambda>(s, es). map (summarize_group q totals now s es) (grouped_values q es)) m)))
    = sum_list (map (\<lambda>(s, es). sum_list (map f (filter (\<lambda>r. completed_within r s (nextPeriod s (q_interval q))) es))) m)" for m
  proof (induction m)
    case (Cons x m)
    obtain s es where x: "x = (s, es)" by (meson surj_pair)
    have "sum_list (map g (map (summarize_group q totals now s es) (grouped_values q es)))
      = sum_list (map f (filter (\<lambda>r. completed_within r s (nextPeriod s (q_interval q))) es))"
      unfolding map_map comp_def assms(4) by (rule groups_partition)
    with Cons show ?case by (simp add: x)
  qed simp
  then show ?thesis unfolding summary_def period_sum [OF assms(1-3), symmetric] .
qed

text \<open>
  C23. Every byte is counted once: for a range that starts and ends with a period, in whatever way the
  rollups are grouped, the bytes they report are those of the attempts that match the query and
  completed in the range.
\<close>

theorem bytes_counted_once:
  assumes "summarizeUsage lc now records q totals = Inr rollups"
    and "periodStart (q_from q) (q_interval q) = q_from q" and "periodStart (q_to q) (q_interval q) = q_to q"
  shows "sum_list (map ro_bytesSent rollups)
      = sum_list (map bytesSent (filter (\<lambda>r. matches r q \<and> completed_within r (q_from q) (q_to q)) records))
    \<and> sum_list (map ro_bytesReceived rollups)
      = sum_list (map bytesReceived (filter (\<lambda>r. matches r q \<and> completed_within r (q_from q) (q_to q)) records))"
proof -
  from assms(1) have range: "q_from q < q_to q" and rollups: "rollups = js_sort (by_period_and_id lc) (summary now records q totals)"
    by (auto simp: summarizeUsage_summary split: if_splits)
  have perm: "sum_list (map g rollups) = sum_list (map g (summary now records q totals))" for g :: "UsageRollup \<Rightarrow> int"
    unfolding rollups by (metis mset_js_sort mset_map sum_mset_sum_list)
  show ?thesis unfolding perm
    by (intro conjI summary_sum [OF range assms(2,3)]) (simp_all add: summarize_group_def Let_def)
qed

text \<open>Two hours of the sample usage, by hour and customer.\<close>

definition sample_query :: UsageQuery where
  "sample_query =
     \<lparr>q_from = 0, q_to = 7200000, q_interval = IntervalHour, q_groupBy = None, q_customerId = None, q_provider = None,
      q_userId = None, q_routeId = None, q_jobId = None, q_logicalOperationId = None, q_sessionMode = None,
      q_destinationDomain = None, q_destinationHost = None, q_destinationPathTemplate = None, q_country = None,
      q_city = None, q_outcome = None\<rparr>"

lemma sample_unallocated: "\<forall>r \<in> set sample_slot_usage. ur_kind r = Capacity \<longrightarrow> ur_customerId r = ''Unallocated''"
proof -
  have "list_all (\<lambda>r. ur_kind r = Capacity \<longrightarrow> ur_customerId r = ''Unallocated'') sample_slot_usage" by code_simp
  then show ?thesis by (simp add: list_all_iff)
qed

theorem bytes_counted_once_witness:
  "\<exists>rollups. summarizeUsage code_unit_compare 3600000 sample_slot_usage (sample_query\<lparr>q_groupBy := Some ByCustomer\<rparr>) [] = Inr rollups
     \<and> sum_list (map ro_bytesSent rollups) = 1073741824"
proof -
  let ?q = "sample_query\<lparr>q_groupBy := Some ByCustomer\<rparr>"
  obtain rollups where r: "summarizeUsage code_unit_compare 3600000 sample_slot_usage ?q [] = Inr rollups"
    by (simp add: summarizeUsage_def sample_query_def)
  have aligned: "periodStart (q_from ?q) (q_interval ?q) = q_from ?q" "periodStart (q_to ?q) (q_interval ?q) = q_to ?q" by code_simp+
  have "sum_list (map bytesSent (filter (\<lambda>r. matches r ?q \<and> completed_within r (q_from ?q) (q_to ?q)) sample_slot_usage)) = 1073741824"
    by code_simp
  with bytes_counted_once [OF r aligned] r show ?thesis by auto
qed

theorem customer_bills_add_up_witness:
  "\<exists>bills wholes whole. summarizeUsage code_unit_compare 3600000 sample_slot_usage (sample_query\<lparr>q_groupBy := Some ByCustomer\<rparr>) [] = Inr bills
     \<and> summarizeUsage code_unit_compare 3600000 sample_slot_usage (sample_query\<lparr>q_groupBy := None\<rparr>) [] = Inr wholes
     \<and> whole \<in> set wholes \<and> bills \<noteq> []
     \<and> sum_list (map estimatedCostUsd (filter (\<lambda>r. ro_periodStartedAt r = ro_periodStartedAt whole) bills)) = estimatedCostUsd whole"
proof -
  let ?C = "sample_query\<lparr>q_groupBy := Some ByCustomer\<rparr>" and ?N = "sample_query\<lparr>q_groupBy := None\<rparr>"
  let ?es = "entries_of sample_slot_usage sample_query 0"
  obtain bills wholes where b: "summarizeUsage code_unit_compare 3600000 sample_slot_usage ?C [] = Inr bills"
    and w: "summarizeUsage code_unit_compare 3600000 sample_slot_usage ?N [] = Inr wholes"
    by (simp add: summarizeUsage_def sample_query_def)
  have es: "?es \<noteq> []" "customer_groups ?es \<noteq> []" by code_simp+
  let ?whole = "summarize_group ?N [] 3600000 0 ?es ''all''"
  have sums: "wholes = js_sort (by_period_and_id code_unit_compare) (summary 3600000 sample_slot_usage ?N [])"
    "bills = js_sort (by_period_and_id code_unit_compare) (summary 3600000 sample_slot_usage ?C [])"
    using b w by (auto simp: summarizeUsage_summary split: if_splits)
  have "?whole \<in> set (filter (\<lambda>r. ro_periodStartedAt r = 0) (summary 3600000 sample_slot_usage ?N []))"
    unfolding summary_of_period using es(1) by (simp add: grouped_values_def)
  then have mem: "?whole \<in> set wholes" by (simp add: sums)
  have "filter (\<lambda>r. ro_periodStartedAt r = 0) (summary 3600000 sample_slot_usage ?C []) \<noteq> []"
    unfolding summary_of_period using es by (simp add: grouped_values_def)
  then have "bills \<noteq> []" by (auto simp: sums)
  moreover have none: "q_customerId sample_query = None" by (simp add: sample_query_def)
  ultimately show ?thesis using customer_bills_add_up [OF sample_unallocated none w b mem] b w mem by blast
qed

end
