(* ===== verification/Usage_Worker.thy ===== *)
theory Usage_Worker
  imports Usage_Conservation Health_Store
begin

text \<open>
  \<open>UsageAccountingWorker.run\<close> of \<open>src/usage-accounting-worker.ts\<close>: what providers report is compared with the
  estimates, rollups are written with the difference attributed to \<open>Unallocated\<close>, and pressure on
  capacity is recorded. The state is the store with the notifications given so far; the clock does
  not advance during one run.
\<close>

record UsageVarianceThresholds =
  absoluteFloorUsd :: real
  warningRelative :: real
  errorRelative :: real

definition DEFAULT_VARIANCE_THRESHOLDS :: UsageVarianceThresholds where
  "DEFAULT_VARIANCE_THRESHOLDS =
     \<lparr>absoluteFloorUsd = varianceAbsoluteFloorUsd ACCOUNTING_POLICY, warningRelative = varianceWarningRelative ACCOUNTING_POLICY,
      errorRelative = varianceErrorRelative ACCOUNTING_POLICY\<rparr>"

datatype UsageNotification = OnReconciliation UsageReconciliation | OnCapacityPressure UsageRollup ProviderId

record WorkerState =
  ws_store :: StoreState
  ws_notified :: "UsageNotification list"

record WorkerEnv =
  we_compare :: "string comparator"
  we_now :: timestamp
  we_totals :: "ProviderCostTotal list"
  we_thresholds :: UsageVarianceThresholds

type_synonym 'a worker_op = "(string, WorkerState, 'a) op"

definition plain_query :: "timestamp \<Rightarrow> timestamp \<Rightarrow> UsageInterval \<Rightarrow> UsageQuery" where
  "plain_query from to interval =
     \<lparr>q_from = from, q_to = to, q_interval = interval, q_groupBy = None, q_customerId = None, q_provider = None,
      q_userId = None, q_routeId = None, q_jobId = None, q_logicalOperationId = None, q_sessionMode = None,
      q_destinationDomain = None, q_destinationHost = None, q_destinationPathTemplate = None, q_country = None,
      q_city = None, q_outcome = None\<rparr>"

definition lift_result :: "string + 'a \<Rightarrow> 'a worker_op" where
  "lift_result r s = (r, s)"

subsection \<open>Reconciliation\<close>

definition total_interval :: "ProviderCostTotal \<Rightarrow> UsageInterval" where
  "total_interval t = (if pct_periodEndsAt t - pct_periodStartedAt t \<le> 3600000 then IntervalHour else IntervalDay)"

definition total_estimate :: "WorkerEnv \<Rightarrow> UsageRecord list \<Rightarrow> ProviderCostTotal \<Rightarrow> string + real" where
  "total_estimate env records t =
     (case summarizeUsage (we_compare env) (we_now env) records
             ((plain_query (pct_periodStartedAt t) (pct_periodEndsAt t) (total_interval t))\<lparr>q_provider := Some (pct_provider t)\<rparr>) [] of
        Inl e \<Rightarrow> Inl e
      | Inr [] \<Rightarrow> Inr 0
      | Inr (r # _) \<Rightarrow> Inr (estimatedCostUsd r))"

definition reconciliation_id :: "ProviderCostTotal \<Rightarrow> string" where
  "reconciliation_id t =
     pct_provider t @ ''#'' @ toISOString (pct_periodStartedAt t) @ ''#'' @ toISOString (pct_periodEndsAt t) @ ''#'' @ pct_sourceVersion t"

definition reconciliation_of :: "WorkerEnv \<Rightarrow> UsageReconciliation list \<Rightarrow> ProviderCostTotal \<Rightarrow> real \<Rightarrow> UsageReconciliation" where
  "reconciliation_of env historical t estimate =
     (let variance = pct_amountUsd t - estimate;
          relative = (if estimate = 0 then (if variance = 0 then 0 else 1) else \<bar>variance\<bar> / \<bar>estimate\<bar>);
          exceedsFloor = (absoluteFloorUsd (we_thresholds env) \<le> \<bar>variance\<bar>);
          severe = (exceedsFloor \<and> errorRelative (we_thresholds env) < relative);
          significant = (exceedsFloor \<and> warningRelative (we_thresholds env) < relative);
          repeated = list_ex (\<lambda>r. rec_provider r = pct_provider t \<and> rec_severity r \<noteq> RecNormal \<and> sourceVersion r \<noteq> pct_sourceVersion t) historical
      in \<lparr>rec_id = reconciliation_id t, rec_provider = pct_provider t, rec_periodStartedAt = pct_periodStartedAt t,
          rec_periodEndsAt = pct_periodEndsAt t, estimatedTotalUsd = estimate, reportedTotalUsd = pct_amountUsd t,
          adjustmentUsd = variance, relativeVariance = relative,
          rec_severity = (if severe \<or> (significant \<and> repeated) then RecError else if significant then RecWarning else RecNormal),
          sourceVersion = pct_sourceVersion t, rec_createdAt = we_now env\<rparr>)"

definition variance_alert :: "UsageReconciliation \<Rightarrow> UsageAlertEvent" where
  "variance_alert r =
     \<lparr>ua_id = ''reconciliation:'' @ rec_id r, ua_kind = ReconciliationVarianceAlert,
      ua_severity = (if rec_severity r = RecError then UsageError else UsageWarning),
      ua_provider = rec_provider r, ua_periodStartedAt = rec_periodStartedAt r, ua_periodEndsAt = rec_periodEndsAt r,
      relatedRecordId = rec_id r, ua_capacityPolicyVersion = None, ua_capacityConstraint = None,
      ua_capacityDrivenFallbackCount = None, ua_capacityFailureCount = None, ua_capacityWaitMs = None,
      varianceUsd = Some (adjustmentUsd r), ua_relativeVariance = Some (relativeVariance r), ua_createdAt = rec_createdAt r\<rparr>"

definition store_reconciliation :: "UsageReconciliation \<Rightarrow> WorkerState \<Rightarrow> WorkerState" where
  "store_reconciliation r s =
     (case saveUsageReconciliation r (ws_store s) of
        (False, st) \<Rightarrow> s\<lparr>ws_store := st\<rparr>
      | (True, st) \<Rightarrow>
          s\<lparr>ws_store := (if rec_severity r \<noteq> RecNormal then snd (saveUsageAlertEvent (variance_alert r) st) else st),
            ws_notified := ws_notified s @ [OnReconciliation r]\<rparr>)"

fun reconcile_totals ::
    "WorkerEnv \<Rightarrow> UsageRecord list \<Rightarrow> UsageReconciliation list \<Rightarrow> ProviderCostTotal list \<Rightarrow> UsageReconciliation list worker_op" where
  "reconcile_totals env records historical [] s = (Inr [], s)"
| "reconcile_totals env records historical (t # ts) s =
     (case total_estimate env records t of
        Inl e \<Rightarrow> (Inl e, s)
      | Inr estimate \<Rightarrow>
          (let r = reconciliation_of env historical t estimate
           in case reconcile_totals env records historical ts (store_reconciliation r s) of
                (Inl e, s') \<Rightarrow> (Inl e, s')
              | (Inr rs, s') \<Rightarrow> (Inr (r # rs), s')))"

subsection \<open>Attribution of the variance\<close>

definition is_customer_rollup :: "UsageInterval \<Rightarrow> UsageRollup \<Rightarrow> bool" where
  "is_customer_rollup interval r \<longleftrightarrow> ro_interval r = interval \<and> (case ro_group r of Some (ByCustomer, _) \<Rightarrow> True | _ \<Rightarrow> False)"

definition unallocated_rollup :: "timestamp \<Rightarrow> UsageInterval \<Rightarrow> timestamp \<Rightarrow> timestamp \<Rightarrow> UsageRollup" where
  "unallocated_rollup now interval periodStarted periodEnds =
     \<lparr>ro_id = rollup_id periodStarted interval (Some ByCustomer) ''Unallocated'', ro_interval = interval,
      ro_periodStartedAt = periodStarted, ro_periodEndsAt = periodEnds, ro_group = Some (ByCustomer, ''Unallocated''),
      operationCount = 0, successCount = 0, retryCount = 0, failoverCount = 0, ro_bytesSent = 0, ro_bytesReceived = 0,
      averageLatencyMs = 0, p95LatencyMs = 0, activeConnectionMs = 0, provisionedSlotMs = 0, healthyIdleSlotMs = 0,
      unhealthySlotMs = 0, slotOccupancy = 0, currentSlotOccupancy = 0, provisionedSlots = 0, activeConnections = 0,
      peakConcurrentConnections = 0, p95ConcurrentConnections = 0, concurrencyUtilization = 0, throughputUtilization = 0,
      prioritizedGbUsed = 0, prioritizedGbForecast = 0, capacityDrivenFallbackCount = 0, capacityFailureCount = 0,
      capacityWaitMs = 0, ro_capacityConstraint = None, ro_capacityPolicyVersion = capacity_version CAPACITY_POLICY,
      providerSpendUsd = 0, attributedCostUsd = 0, estimatedCostUsd = 0, costStatus = CostReconciled, pricingVersions = [],
      ro_updatedAt = now\<rparr>"

definition reset_attribution :: "UsageInterval \<Rightarrow> timestamp \<Rightarrow> UsageRollup \<Rightarrow> UsageRollup" where
  "reset_attribution interval periodStarted r =
     (if is_customer_rollup interval r \<and> ro_periodStartedAt r = periodStarted
      then r\<lparr>attributedCostUsd := estimatedCostUsd r, costStatus := CostReconciled\<rparr> else r)"

definition is_unallocated :: "UsageInterval \<Rightarrow> timestamp \<Rightarrow> UsageRollup \<Rightarrow> bool" where
  "is_unallocated interval periodStarted r \<longleftrightarrow>
     is_customer_rollup interval r \<and> ro_periodStartedAt r = periodStarted \<and> ro_group r = Some (ByCustomer, ''Unallocated'')"

definition attribute_period ::
    "timestamp \<Rightarrow> UsageReconciliation list \<Rightarrow> UsageInterval \<Rightarrow> UsageRollup list \<Rightarrow> timestamp \<times> timestamp \<Rightarrow> UsageRollup list" where
  "attribute_period now reconciliations interval rollups period =
     (case period of (periodStarted, periodEnds) \<Rightarrow>
        let periodReconciliations =
              filter (\<lambda>r. rec_periodStartedAt r = periodStarted \<and> rec_periodEndsAt r = periodEnds) reconciliations
        in if periodReconciliations = [] then rollups
           else
             (let reset = map (reset_attribution interval periodStarted) rollups;
                  variance = sum_list (map adjustmentUsd periodReconciliations);
                  charge = (\<lambda>r. r\<lparr>attributedCostUsd := attributedCostUsd r + variance\<rparr>)
              in if list_ex (is_unallocated interval periodStarted) reset
                 then update_first (is_unallocated interval periodStarted) charge reset
                 else reset @ [charge (unallocated_rollup now interval periodStarted periodEnds)]))"

definition attribute_interval :: "timestamp \<Rightarrow> UsageReconciliation list \<Rightarrow> UsageRollup list \<Rightarrow> UsageInterval \<Rightarrow> UsageRollup list" where
  "attribute_interval now reconciliations rollups interval =
     (let periods = js_set_of (map (\<lambda>r. (ro_periodStartedAt r, ro_periodEndsAt r)) (filter (is_customer_rollup interval) rollups))
      in foldl (attribute_period now reconciliations interval) rollups periods)"

definition attribute_costs :: "timestamp \<Rightarrow> UsageReconciliation list \<Rightarrow> UsageRollup list \<Rightarrow> UsageRollup list" where
  "attribute_costs now reconciliations rollups =
     foldl (attribute_interval now reconciliations) rollups [IntervalHour, IntervalDay]"

subsection \<open>Pressure on capacity\<close>

definition pressure_provider :: "UsageRecord \<Rightarrow> ProviderId option" where
  "pressure_provider r =
     (if ur_kind r = Capacity then Some (ur_provider r)
      else if ur_capacityPressure r = Some True
      then (case ur_capacityPressureProvider r of
              Some p \<Rightarrow> Some p
            | None \<Rightarrow> if ur_provider r = ''unresolved'' then None else Some (ur_provider r))
      else None)"

definition under_pressure :: "UsageRollup \<Rightarrow> bool" where
  "under_pressure r \<longleftrightarrow>
     \<not> (capacityFailureCount r = 0 \<and> capacityDrivenFallbackCount r = 0 \<and> concurrencyUtilization r \<le> 1 \<and> throughputUtilization r \<le> 1)"

definition pressure_id :: "ProviderId \<Rightarrow> UsageRollup \<Rightarrow> string" where
  "pressure_id provider r = ''capacity:'' @ provider @ '':'' @ ro_id r @ '':'' @ ro_capacityPolicyVersion r"

definition pressure_evidence :: "timestamp \<Rightarrow> ProviderId \<Rightarrow> UsageRollup \<Rightarrow> CapacityPressureEvidence" where
  "pressure_evidence now provider r =
     \<lparr>cpe_id = pressure_id provider r, cpe_provider = provider, cpe_periodStartedAt = ro_periodStartedAt r,
      cpe_periodEndsAt = ro_periodEndsAt r, relatedRollupId = ro_id r, cpe_capacityPolicyVersion = ro_capacityPolicyVersion r,
      cpe_capacityConstraint = ro_capacityConstraint r, cpe_capacityDrivenFallbackCount = capacityDrivenFallbackCount r,
      cpe_capacityFailureCount = capacityFailureCount r, cpe_capacityWaitMs = capacityWaitMs r,
      cpe_concurrencyUtilization = concurrencyUtilization r, cpe_throughputUtilization = throughputUtilization r,
      cpe_observedAt = now\<rparr>"

definition pressure_alert :: "timestamp \<Rightarrow> ProviderId \<Rightarrow> UsageRollup \<Rightarrow> UsageAlertEvent" where
  "pressure_alert now provider r =
     \<lparr>ua_id = pressure_id provider r, ua_kind = CapacityRecommendationAlert,
      ua_severity = (if 0 < capacityFailureCount r then UsageError else UsageWarning), ua_provider = provider,
      ua_periodStartedAt = ro_periodStartedAt r, ua_periodEndsAt = ro_periodEndsAt r, relatedRecordId = ro_id r,
      ua_capacityPolicyVersion = Some (ro_capacityPolicyVersion r), ua_capacityConstraint = ro_capacityConstraint r,
      ua_capacityDrivenFallbackCount = Some (capacityDrivenFallbackCount r),
      ua_capacityFailureCount = Some (capacityFailureCount r), ua_capacityWaitMs = Some (capacityWaitMs r),
      varianceUsd = None, ua_relativeVariance = None, ua_createdAt = now\<rparr>"

definition record_pressure :: "WorkerEnv \<Rightarrow> ProviderId \<Rightarrow> UsageRollup \<Rightarrow> unit worker_op" where
  "record_pressure env provider r s =
     (if under_pressure r
      then (case saveUsageAlertEvent (pressure_alert (we_now env) provider r)
                   (saveCapacityPressureEvidence (pressure_evidence (we_now env) provider r) (ws_store s)) of
              (fresh, st) \<Rightarrow>
                (Inr (), s\<lparr>ws_store := st,
                   ws_notified := ws_notified s @ (if fresh then [OnCapacityPressure r provider] else [])\<rparr>))
      else (Inr (), s))"

definition hours_and_days ::
    "WorkerEnv \<Rightarrow> UsageRecord list \<Rightarrow> timestamp \<Rightarrow> timestamp \<Rightarrow> UsageGroupBy option \<Rightarrow> ProviderCostTotal list \<Rightarrow> UsageRollup list worker_op" where
  "hours_and_days env records from to groupBy totals =
     bind_op (lift_result (summarizeUsage (we_compare env) (we_now env) records ((plain_query from to IntervalHour)\<lparr>q_groupBy := groupBy\<rparr>) totals))
       (\<lambda>hours. bind_op (lift_result (summarizeUsage (we_compare env) (we_now env) records ((plain_query from to IntervalDay)\<lparr>q_groupBy := groupBy\<rparr>) totals))
          (\<lambda>days. return_op (hours @ days)))"

definition provider_pressure :: "WorkerEnv \<Rightarrow> UsageRecord list \<Rightarrow> timestamp \<Rightarrow> timestamp \<Rightarrow> ProviderId \<Rightarrow> unit worker_op" where
  "provider_pressure env records from to provider =
     bind_op (hours_and_days env (filter (\<lambda>r. pressure_provider r = Some provider) records) from to None [])
       (for_each_op (record_pressure env provider))"

subsection \<open>One run\<close>

definition save_rollup :: "UsageRollup \<Rightarrow> unit worker_op" where
  "save_rollup r s = (Inr (), s\<lparr>ws_store := saveUsageRollup r (ws_store s)\<rparr>)"

definition run_usage :: "WorkerEnv \<Rightarrow> timestamp \<Rightarrow> timestamp \<Rightarrow> nat worker_op" where
  "run_usage env from to s0 =
     (let records = listUsageRecords from to None False (ws_store s0);
          historical = listUsageReconciliations (from - 32 * 86400000) to (ws_store s0)
      in bind_op (reconcile_totals env records historical (we_totals env)) (\<lambda>reconciliations.
         bind_op (hours_and_days env records from to None (we_totals env)) (\<lambda>wholes.
         bind_op (hours_and_days env records from to (Some ByCustomer) (we_totals env)) (\<lambda>customers.
           let rollups = attribute_costs (we_now env) reconciliations (wholes @ customers)
           in bind_op (for_each_op save_rollup rollups) (\<lambda>_.
              bind_op (for_each_op (provider_pressure env records from to) (js_set_of (List.map_filter pressure_provider records))) (\<lambda>_.
                return_op (length rollups)))))) s0)"

subsection \<open>The variance is attributed in full\<close>

definition customer_of :: "UsageInterval \<Rightarrow> timestamp \<Rightarrow> UsageRollup \<Rightarrow> bool" where
  "customer_of interval periodStarted r \<longleftrightarrow> is_customer_rollup interval r \<and> ro_periodStartedAt r = periodStarted"

definition adjustments :: "UsageReconciliation list \<Rightarrow> timestamp \<Rightarrow> timestamp \<Rightarrow> real" where
  "adjustments recs periodStarted periodEnds =
     sum_list (map adjustmentUsd (filter (\<lambda>r. rec_periodStartedAt r = periodStarted \<and> rec_periodEndsAt r = periodEnds) recs))"

lemma filter_map_keeps:
  assumes "\<And>x. Q (f x) = Q x" "\<And>x. Q x \<Longrightarrow> f x = x"
  shows "filter Q (map f xs) = filter Q xs"
  using assms by (induction xs) auto

lemma filter_update_first:
  assumes "\<And>x. Q (f x) = Q x" "\<And>x. Q x \<Longrightarrow> \<not> P x"
  shows "filter Q (update_first P f xs) = filter Q xs"
  using assms by (induction xs) auto

lemma sum_update_first:
  fixes g :: "'a \<Rightarrow> real"
  assumes "list_ex P xs" "\<And>x. P x \<Longrightarrow> Q x" "\<And>x. Q (f x) = Q x" "\<And>x. g (f x) = g x + d"
  shows "sum_list (map g (filter Q (update_first P f xs))) = sum_list (map g (filter Q xs)) + d"
  using assms by (induction xs) auto

lemma customer_of_simps [simp]:
  "customer_of i p (reset_attribution j s r) = customer_of i p r"
  "customer_of i p (r\<lparr>attributedCostUsd := x\<rparr>) = customer_of i p r"
  "customer_of i p (unallocated_rollup now j s e) \<longleftrightarrow> i = j \<and> p = s"
  "is_unallocated j s r \<Longrightarrow> customer_of j s r"
  "estimatedCostUsd (reset_attribution j s r) = estimatedCostUsd r"
  by (auto simp: customer_of_def is_customer_rollup_def reset_attribution_def unallocated_rollup_def is_unallocated_def)

lemma reset_attribution_other: "customer_of i p r \<Longrightarrow> (i, p) \<noteq> (j, s) \<Longrightarrow> reset_attribution j s r = r"
  by (auto simp: customer_of_def is_customer_rollup_def reset_attribution_def)

lemma not_unallocated_other: "customer_of i p r \<Longrightarrow> (i, p) \<noteq> (j, s) \<Longrightarrow> \<not> is_unallocated j s r"
  by (auto simp: customer_of_def is_customer_rollup_def is_unallocated_def)

lemma reset_attribution_customer:
  "customer_of j s r \<Longrightarrow> reset_attribution j s r = r\<lparr>attributedCostUsd := estimatedCostUsd r, costStatus := CostReconciled\<rparr>"
  by (simp add: customer_of_def reset_attribution_def)

lemma reset_filter: "filter (customer_of j s) (map (reset_attribution j s) xs)
    = map (\<lambda>r. r\<lparr>attributedCostUsd := estimatedCostUsd r, costStatus := CostReconciled\<rparr>) (filter (customer_of j s) xs)"
  by (induction xs) (simp_all add: reset_attribution_customer)

lemma attribute_period_other:
  assumes "(i, p) \<noteq> (j, s)"
  shows "filter (customer_of i p) (attribute_period now recs j rollups (s, e)) = filter (customer_of i p) rollups"
proof -
  have reset: "filter (customer_of i p) (map (reset_attribution j s) rollups) = filter (customer_of i p) rollups"
    using assms by (intro filter_map_keeps) (auto simp: reset_attribution_other)
  have upd: "filter (customer_of i p) (update_first (is_unallocated j s) (\<lambda>r. r\<lparr>attributedCostUsd := attributedCostUsd r + d\<rparr>) xs)
      = filter (customer_of i p) xs" for d xs
    using assms by (intro filter_update_first) (auto dest: not_unallocated_other)
  show ?thesis using assms by (auto simp: attribute_period_def Let_def reset upd)
qed

lemma attribute_period_same:
  assumes "\<forall>r \<in> set (filter (customer_of j s) rollups). attributedCostUsd r = estimatedCostUsd r"
  shows "sum_list (map attributedCostUsd (filter (customer_of j s) (attribute_period now recs j rollups (s, e))))
    = sum_list (map estimatedCostUsd (filter (customer_of j s) rollups)) + adjustments recs s e"
proof -
  let ?recs = "filter (\<lambda>r. rec_periodStartedAt r = s \<and> rec_periodEndsAt r = e) recs"
  let ?reset = "map (reset_attribution j s) rollups"
  let ?est = "sum_list (map estimatedCostUsd (filter (customer_of j s) rollups))"
  have base: "sum_list (map attributedCostUsd (filter (customer_of j s) ?reset)) = ?est" by (simp add: reset_filter comp_def)
  have upd: "sum_list (map attributedCostUsd (filter (customer_of j s)
      (update_first (is_unallocated j s) (\<lambda>r. r\<lparr>attributedCostUsd := attributedCostUsd r + d\<rparr>) ?reset))) = ?est + d"
    if "list_ex (is_unallocated j s) ?reset" for d
    unfolding base [symmetric] by (rule sum_update_first [OF that]) simp_all
  have same: "map attributedCostUsd (filter (customer_of j s) rollups) = map estimatedCostUsd (filter (customer_of j s) rollups)"
    using assms by (intro map_cong) simp_all
  show ?thesis
  proof (cases "?recs = []")
    case True
    then show ?thesis by (simp add: attribute_period_def adjustments_def same)
  next
    case False
    have "attributedCostUsd (unallocated_rollup now j s e) = 0" by (simp add: unallocated_rollup_def)
    with False base upd show ?thesis by (auto simp: attribute_period_def Let_def adjustments_def)
  qed
qed

lemma attribute_periods:
  assumes "distinct (map fst ps)" "\<forall>r \<in> set (filter (customer_of j s) rollups). attributedCostUsd r = estimatedCostUsd r" "(s, e) \<in> set ps"
  shows "sum_list (map attributedCostUsd (filter (customer_of j s) (foldl (attribute_period now recs j) rollups ps)))
    = sum_list (map estimatedCostUsd (filter (customer_of j s) rollups)) + adjustments recs s e"
proof -
  have others: "filter (customer_of j s) (foldl (attribute_period now recs j) xs qs) = filter (customer_of j s) xs" if "s \<notin> fst ` set qs" for xs qs
    using that
  proof (induction qs arbitrary: xs)
    case (Cons x qs)
    obtain s' e' where x: "x = (s', e')" by (meson surj_pair)
    from Cons.prems x have "(j, s) \<noteq> (j, s')" by auto
    with Cons x show ?case by (simp add: attribute_period_other)
  qed simp
  from assms(3) obtain as bs where ps: "ps = as @ (s, e) # bs" by (meson split_list)
  with assms(1) have notin: "s \<notin> fst ` set as" "s \<notin> fst ` set bs" by auto
  let ?mid = "foldl (attribute_period now recs j) rollups as"
  have mid: "filter (customer_of j s) ?mid = filter (customer_of j s) rollups" by (rule others [OF notin(1)])
  have "filter (customer_of j s) (foldl (attribute_period now recs j) rollups ps)
      = filter (customer_of j s) (attribute_period now recs j ?mid (s, e))"
    by (simp add: ps others [OF notin(2)])
  then show ?thesis using attribute_period_same [of j s ?mid now recs e] assms(2) by (simp only: mid)
qed

lemma attribute_interval_other:
  assumes "i \<noteq> j"
  shows "filter (customer_of i p) (attribute_interval now recs rollups j) = filter (customer_of i p) rollups"
proof -
  have "filter (customer_of i p) (foldl (attribute_period now recs j) xs qs) = filter (customer_of i p) xs" for xs qs
  proof (induction qs arbitrary: xs)
    case (Cons x qs)
    obtain s e where "x = (s, e)" by (meson surj_pair)
    with assms Cons show ?case by (simp add: attribute_period_other)
  qed simp
  then show ?thesis by (simp add: attribute_interval_def)
qed

text \<open>Rollups as \<open>summarizeUsage\<close> returns them: a customer's cost is its estimate, and its period is one of the interval.\<close>

definition fresh_rollups :: "UsageInterval \<Rightarrow> UsageRollup list \<Rightarrow> bool" where
  "fresh_rollups i rollups \<longleftrightarrow> (\<forall>r \<in> set rollups. is_customer_rollup i r \<longrightarrow>
     attributedCostUsd r = estimatedCostUsd r \<and> ro_periodEndsAt r = nextPeriod (ro_periodStartedAt r) i)"

lemma fresh_rollups_filter:
  assumes "fresh_rollups i rollups" "\<And>p. filter (customer_of i p) mid = filter (customer_of i p) rollups"
  shows "fresh_rollups i mid"
  unfolding fresh_rollups_def
proof (intro ballI impI)
  fix r assume "r \<in> set mid" "is_customer_rollup i r"
  then have "r \<in> set (filter (customer_of i (ro_periodStartedAt r)) mid)" by (simp add: customer_of_def)
  then have "r \<in> set rollups" unfolding assms(2) by simp
  with assms(1) \<open>is_customer_rollup i r\<close>
  show "attributedCostUsd r = estimatedCostUsd r \<and> ro_periodEndsAt r = nextPeriod (ro_periodStartedAt r) i"
    by (simp add: fresh_rollups_def)
qed

lemma attribute_interval_same:
  assumes "fresh_rollups i rollups" "r \<in> set rollups" "customer_of i s r"
  shows "sum_list (map attributedCostUsd (filter (customer_of i s) (attribute_interval now recs rollups i)))
    = sum_list (map estimatedCostUsd (filter (customer_of i s) rollups)) + adjustments recs s (nextPeriod s i)"
proof -
  let ?ps = "js_set_of (map (\<lambda>r. (ro_periodStartedAt r, ro_periodEndsAt r)) (filter (is_customer_rollup i) rollups))"
  have ends: "x \<in> set ?ps \<Longrightarrow> snd x = nextPeriod (fst x) i" for x using assms(1) by (auto simp: fresh_rollups_def)
  have "inj_on fst (set ?ps)"
  proof (intro inj_onI prod_eqI)
    fix x y assume "x \<in> set ?ps" "y \<in> set ?ps" "fst x = fst y"
    with ends [of x] ends [of y] show "snd x = snd y" by (simp only:)
  qed
  then have "distinct (map fst ?ps)" by (simp add: distinct_map)
  have "(ro_periodStartedAt r, ro_periodEndsAt r) \<in> set ?ps" using assms(2,3) by (auto simp: customer_of_def)
  moreover have "ro_periodStartedAt r = s" "ro_periodEndsAt r = nextPeriod (ro_periodStartedAt r) i"
    using assms unfolding fresh_rollups_def customer_of_def by blast+
  ultimately have "(s, nextPeriod s i) \<in> set ?ps" by (simp only:)
  moreover have "\<forall>r \<in> set (filter (customer_of i s) rollups). attributedCostUsd r = estimatedCostUsd r"
    using assms(1) unfolding fresh_rollups_def customer_of_def by simp
  moreover note \<open>distinct (map fst ?ps)\<close>
  ultimately show ?thesis unfolding attribute_interval_def Let_def by (intro attribute_periods)
qed

lemma attribute_costs_sum:
  assumes "fresh_rollups i rollups" "i = IntervalHour \<or> i = IntervalDay" "r \<in> set rollups" "customer_of i s r"
  shows "sum_list (map attributedCostUsd (filter (customer_of i s) (attribute_costs now recs rollups)))
    = sum_list (map estimatedCostUsd (filter (customer_of i s) rollups)) + adjustments recs s (nextPeriod s i)"
  using assms(2)
proof
  assume i: "i = IntervalHour"
  then have "filter (customer_of i s) (attribute_costs now recs rollups) = filter (customer_of i s) (attribute_interval now recs rollups i)"
    by (simp add: attribute_costs_def attribute_interval_other)
  then show ?thesis using attribute_interval_same [OF assms(1,3,4)] by (simp only:)
next
  assume i: "i = IntervalDay"
  let ?mid = "attribute_interval now recs rollups IntervalHour"
  have mid: "filter (customer_of i p) ?mid = filter (customer_of i p) rollups" for p using i by (simp add: attribute_interval_other)
  have "r \<in> set (filter (customer_of i s) ?mid)" unfolding mid using assms(3,4) by simp
  then have "r \<in> set ?mid" by simp
  from attribute_interval_same [OF fresh_rollups_filter [OF assms(1) mid] this assms(4), of now recs]
  show ?thesis unfolding mid by (simp add: attribute_costs_def i)
qed

lemma hours_and_days_run:
  assumes "hours_and_days env records from to g totals s = (Inr rs, s')"
  obtains hours days where "rs = hours @ days"
    and "summarizeUsage (we_compare env) (we_now env) records ((plain_query from to IntervalHour)\<lparr>q_groupBy := g\<rparr>) totals = Inr hours"
    and "summarizeUsage (we_compare env) (we_now env) records ((plain_query from to IntervalDay)\<lparr>q_groupBy := g\<rparr>) totals = Inr days"
  using assms by (auto simp: hours_and_days_def bind_op_def lift_result_def split: sum.splits)

lemma summarizeUsage_rollup:
  assumes "summarizeUsage lc now records q totals = Inr rs" "r \<in> set rs"
  shows "ro_interval r = q_interval q" "map_option fst (ro_group r) = q_groupBy q"
    "ro_periodEndsAt r = nextPeriod (ro_periodStartedAt r) (q_interval q)"
    "q_groupBy q = Some ByCustomer \<Longrightarrow> attributedCostUsd r = estimatedCostUsd r"
proof -
  from assms obtain s es v where "r = summarize_group q totals now s es v"
    by (auto simp: summarizeUsage_def split: if_splits)
  then show "ro_interval r = q_interval q" "map_option fst (ro_group r) = q_groupBy q"
    "ro_periodEndsAt r = nextPeriod (ro_periodStartedAt r) (q_interval q)"
    "q_groupBy q = Some ByCustomer \<Longrightarrow> attributedCostUsd r = estimatedCostUsd r"
    by (simp_all add: summarize_group_def Let_def option.map_comp comp_def option.map_ident)
qed

lemma is_customer_group: "is_customer_rollup i r \<longleftrightarrow> ro_interval r = i \<and> map_option fst (ro_group r) = Some ByCustomer"
  by (auto simp: is_customer_rollup_def split: option.splits UsageGroupBy.splits)

lemma customer_bills_of_interval:
  assumes "summarizeUsage lc now records ((plain_query from to j)\<lparr>q_groupBy := g\<rparr>) totals = Inr rs"
  shows "filter (customer_of i s) rs = (if j = i \<and> g = Some ByCustomer then filter (\<lambda>r. ro_periodStartedAt r = s) rs else [])"
proof -
  have "customer_of i s r \<longleftrightarrow> j = i \<and> g = Some ByCustomer \<and> ro_periodStartedAt r = s" if "r \<in> set rs" for r
    using summarizeUsage_rollup(1,2) [OF assms that] by (auto simp: customer_of_def is_customer_group plain_query_def)
  then have "filter (customer_of i s) rs = filter (\<lambda>r. j = i \<and> g = Some ByCustomer \<and> ro_periodStartedAt r = s) rs"
    by (rule filter_cong [OF refl])
  then show ?thesis by (cases "j = i \<and> g = Some ByCustomer") auto
qed

lemma fresh_summaries:
  assumes "summarizeUsage lc now records ((plain_query from to j)\<lparr>q_groupBy := g\<rparr>) totals = Inr rs"
  shows "fresh_rollups i rs"
  unfolding fresh_rollups_def
proof (intro ballI impI)
  fix r assume r: "r \<in> set rs" "is_customer_rollup i r"
  note facts = summarizeUsage_rollup [OF assms r(1)]
  from r(2) facts(1,2) have "j = i" "g = Some ByCustomer" by (auto simp: is_customer_group plain_query_def)
  with facts(3,4) show "attributedCostUsd r = estimatedCostUsd r \<and> ro_periodEndsAt r = nextPeriod (ro_periodStartedAt r) i"
    by (simp add: plain_query_def)
qed

lemma period_has_customers:
  assumes "summarizeUsage lc now records (q\<lparr>q_groupBy := None\<rparr>) totals = Inr wholes" "whole \<in> set wholes"
    and "summarizeUsage lc now records (q\<lparr>q_groupBy := Some ByCustomer\<rparr>) totals = Inr bills"
  shows "\<exists>r \<in> set bills. ro_periodStartedAt r = ro_periodStartedAt whole"
proof -
  define s where "s = ro_periodStartedAt whole"
  define es where "es = entries_of records q s"
  have "whole \<in> set (filter (\<lambda>r. ro_periodStartedAt r = s) (summary now records (q\<lparr>q_groupBy := None\<rparr>) totals))"
    using assms(1,2) by (auto simp: summarizeUsage_summary s_def split: if_splits)
  then have "es \<noteq> []" unfolding summary_of_period by (auto simp: es_def split: if_splits)
  then obtain r rs where "es = r # rs" by (cases es) auto
  then have "set (customer_groups es) \<noteq> {}" by (cases "ur_kind r") (auto simp: customer_groups_def)
  then obtain v where "v \<in> set (customer_groups es)" by (meson ex_in_conv)
  with \<open>es \<noteq> []\<close> have "summarize_group (q\<lparr>q_groupBy := Some ByCustomer\<rparr>) totals now s es v
    \<in> set (filter (\<lambda>r. ro_periodStartedAt r = s) (summary now records (q\<lparr>q_groupBy := Some ByCustomer\<rparr>) totals))"
    unfolding summary_of_period by (simp add: es_def grouped_values_def)
  then have "summarize_group (q\<lparr>q_groupBy := Some ByCustomer\<rparr>) totals now s es v \<in> set bills"
    using assms(3) by (auto simp: summarizeUsage_summary split: if_splits)
  then show ?thesis by (rule bexI [rotated]) (simp add: s_def)
qed

text \<open>
  C24. What providers report is attributed in full: of every hour and every day the costs attributed to
  its customers, \<open>Unallocated\<close> among them, add up to the estimated cost of the period plus all
  adjustments of reconciliations for that period, also where nobody had been \<open>Unallocated\<close> before.
\<close>

theorem variance_attributed_in_full:
  assumes "\<forall>r \<in> set records. ur_kind r = Capacity \<longrightarrow> ur_customerId r = ''Unallocated''"
    and "hours_and_days env records from to None totals s = (Inr wholes, s)"
    and "hours_and_days env records from to (Some ByCustomer) totals s = (Inr customers, s)"
    and "whole \<in> set wholes"
  shows "sum_list (map attributedCostUsd (filter (customer_of (ro_interval whole) (ro_periodStartedAt whole))
           (attribute_costs now reconciliations (wholes @ customers))))
    = estimatedCostUsd whole + adjustments reconciliations (ro_periodStartedAt whole) (ro_periodEndsAt whole)"
proof -
  let ?p = "ro_periodStartedAt whole" and ?lc = "we_compare env" and ?t = "we_now env"
  obtain wh wd where w: "wholes = wh @ wd"
    "summarizeUsage ?lc ?t records ((plain_query from to IntervalHour)\<lparr>q_groupBy := None\<rparr>) totals = Inr wh"
    "summarizeUsage ?lc ?t records ((plain_query from to IntervalDay)\<lparr>q_groupBy := None\<rparr>) totals = Inr wd"
    using hours_and_days_run [OF assms(2)] by blast
  obtain ch cd where c: "customers = ch @ cd"
    "summarizeUsage ?lc ?t records ((plain_query from to IntervalHour)\<lparr>q_groupBy := Some ByCustomer\<rparr>) totals = Inr ch"
    "summarizeUsage ?lc ?t records ((plain_query from to IntervalDay)\<lparr>q_groupBy := Some ByCustomer\<rparr>) totals = Inr cd"
    using hours_and_days_run [OF assms(3)] by blast
  obtain i own bills where i: "i = IntervalHour \<or> i = IntervalDay" "whole \<in> set own" "set bills \<subseteq> set customers"
    "summarizeUsage ?lc ?t records ((plain_query from to i)\<lparr>q_groupBy := None\<rparr>) totals = Inr own"
    "summarizeUsage ?lc ?t records ((plain_query from to i)\<lparr>q_groupBy := Some ByCustomer\<rparr>) totals = Inr bills"
    "\<And>p. filter (customer_of i p) (wholes @ customers) = filter (\<lambda>r. ro_periodStartedAt r = p) bills"
  proof (cases "whole \<in> set wh")
    case True
    show ?thesis by (rule that [of IntervalHour wh ch]) (use True w c in \<open>simp_all add: customer_bills_of_interval\<close>)
  next
    case False
    then have "whole \<in> set wd" using assms(4) w(1) by simp
    show ?thesis by (rule that [of IntervalDay wd cd]) (use \<open>whole \<in> set wd\<close> w c in \<open>simp_all add: customer_bills_of_interval\<close>)
  qed
  note whole = summarizeUsage_rollup(1,3) [OF i(4,2)]
  have "fresh_rollups i (wholes @ customers)"
    using fresh_summaries [OF w(2)] fresh_summaries [OF w(3)] fresh_summaries [OF c(2)] fresh_summaries [OF c(3)]
    by (auto simp: fresh_rollups_def w(1) c(1))
  moreover obtain r where "r \<in> set bills" "ro_periodStartedAt r = ?p" using period_has_customers [OF i(4,2,5)] by blast
  then have "r \<in> set (filter (customer_of i ?p) (wholes @ customers))" unfolding i(6) by simp
  then have "r \<in> set (wholes @ customers)" "customer_of i ?p r" by auto
  ultimately have "sum_list (map attributedCostUsd (filter (customer_of i ?p) (attribute_costs now reconciliations (wholes @ customers))))
    = sum_list (map estimatedCostUsd (filter (\<lambda>r. ro_periodStartedAt r = ?p) bills)) + adjustments reconciliations ?p (nextPeriod ?p i)"
    unfolding i(6) [symmetric] by (intro attribute_costs_sum [OF _ i(1)])
  moreover have "q_customerId (plain_query from to i) = None" by (simp add: plain_query_def)
  ultimately show ?thesis
    using customer_bills [OF assms(1) _ i(4,5,2)] whole by (simp add: plain_query_def)
qed

text \<open>The first hour of the sample usage, for which a provider reported 5 USD more than estimated.\<close>

definition sample_worker_env :: WorkerEnv where
  "sample_worker_env = \<lparr>we_compare = code_unit_compare, we_now = 3600000, we_totals = [], we_thresholds = DEFAULT_VARIANCE_THRESHOLDS\<rparr>"

definition sample_reconciliation :: UsageReconciliation where
  "sample_reconciliation =
     \<lparr>rec_id = ''r'', rec_provider = ''proxidize'', rec_periodStartedAt = 0, rec_periodEndsAt = 3600000, estimatedTotalUsd = 60,
      reportedTotalUsd = 65, adjustmentUsd = 5, relativeVariance = 1 / 12, rec_severity = RecWarning, sourceVersion = ''v1'', rec_createdAt = 0\<rparr>"

theorem variance_attributed_in_full_witness:
  "\<exists>wholes customers whole.
     hours_and_days sample_worker_env sample_slot_usage 0 7200000 None [] \<lparr>ws_store = empty_store, ws_notified = []\<rparr>
       = (Inr wholes, \<lparr>ws_store = empty_store, ws_notified = []\<rparr>) \<and> whole \<in> set wholes \<and> ro_periodStartedAt whole = 0 \<and>
     hours_and_days sample_worker_env sample_slot_usage 0 7200000 (Some ByCustomer) [] \<lparr>ws_store = empty_store, ws_notified = []\<rparr>
       = (Inr customers, \<lparr>ws_store = empty_store, ws_notified = []\<rparr>) \<and>
     sum_list (map attributedCostUsd (filter (customer_of IntervalHour 0)
        (attribute_costs 3600000 [sample_reconciliation] (wholes @ customers)))) = estimatedCostUsd whole + 5"
proof -
  let ?s = "\<lparr>ws_store = empty_store, ws_notified = []\<rparr>"
  let ?q = "plain_query 0 7200000 IntervalHour"
  let ?es = "entries_of sample_slot_usage ?q 0"
  let ?whole = "summarize_group (?q\<lparr>q_groupBy := None\<rparr>) [] 3600000 0 ?es ''all''"
  obtain wholes customers where
    w: "hours_and_days sample_worker_env sample_slot_usage 0 7200000 None [] ?s = (Inr wholes, ?s)" and
    c: "hours_and_days sample_worker_env sample_slot_usage 0 7200000 (Some ByCustomer) [] ?s = (Inr customers, ?s)"
    by (simp add: hours_and_days_def bind_op_def lift_result_def summarizeUsage_def plain_query_def sample_worker_env_def)
  have "?es \<noteq> []" by code_simp
  then have "?whole \<in> set (filter (\<lambda>r. ro_periodStartedAt r = 0) (summary 3600000 sample_slot_usage (?q\<lparr>q_groupBy := None\<rparr>) []))"
    unfolding summary_of_period by (simp add: grouped_values_def)
  then have "?whole \<in> set wholes"
    using w by (auto simp: hours_and_days_def bind_op_def lift_result_def summarizeUsage_summary sample_worker_env_def split: if_splits)
  moreover have "ro_interval ?whole = IntervalHour" "ro_periodStartedAt ?whole = 0" "ro_periodEndsAt ?whole = 3600000"
    by (simp_all add: summarize_group_def Let_def plain_query_def nextPeriod_def msPerHour_def)
  moreover have "adjustments [sample_reconciliation] 0 3600000 = 5" by (simp add: adjustments_def sample_reconciliation_def)
  ultimately show ?thesis
    using variance_attributed_in_full [OF sample_unallocated w c, of ?whole 3600000 "[sample_reconciliation]"] w c
    by (intro exI [of _ wholes] exI [of _ customers] exI [of _ ?whole]) simp
qed

subsection \<open>A total that spans several days\<close>

text \<open>
  A total for more than a day is compared with the estimate of its first day only, since \<open>run\<close> reads
  the first rollup: here with half of what was estimated.
\<close>

definition two_days :: "UsageRecord list" where
  "two_days = capacity_usage (sample_capacity\<lparr>psc_periodEndsAt := 86400000\<rparr>) @
     capacity_usage (sample_capacity\<lparr>psc_id := ''c2'', psc_periodStartedAt := 86400000, psc_periodEndsAt := 172800000\<rparr>)"

definition two_day_total :: ProviderCostTotal where
  "two_day_total = \<lparr>pct_provider = ''proxidize'', pct_periodStartedAt = 0, pct_periodEndsAt = 172800000, pct_amountUsd = 4, pct_sourceVersion = ''v1''\<rparr>"

lemma two_day_periods: "by_period two_days ((plain_query 0 172800000 IntervalDay)\<lparr>q_provider := Some ''proxidize''\<rparr>)
   = [(0, take 1 two_days), (86400000, drop 1 two_days)]"
  by code_simp

lemma long_total_first_day:
  "total_estimate sample_worker_env two_days two_day_total = Inr (fst (estimatedCost (take 1 two_days) 0 86400000 None))"
proof -
  let ?q = "(plain_query 0 172800000 IntervalDay)\<lparr>q_provider := Some ''proxidize''\<rparr>"
  have q: "q_groupBy ?q = None" "q_customerId ?q = None" "q_interval ?q = IntervalDay" "q_to ?q = 172800000" "q_from ?q = 0"
    by (simp_all add: plain_query_def)
  let ?g = "\<lambda>s es. summarize_group ?q [] 3600000 s es ''all''"
  have "summarizeUsage code_unit_compare 3600000 two_days ?q []
    = Inr [?g 0 (take 1 two_days), ?g 86400000 (drop 1 two_days)]"
    unfolding summarizeUsage_def two_day_periods by (simp add: q grouped_values_def by_period_and_id_def then_by_def)
  moreover have "estimatedCostUsd (?g 0 (take 1 two_days)) = fst (estimatedCost (take 1 two_days) 0 86400000 None)"
    unfolding summarize_group_estimate by (simp add: q group_entries_def nextPeriod_def msPerDay_def)
  ultimately show ?thesis
    by (simp add: total_estimate_def two_day_total_def total_interval_def sample_worker_env_def)
qed

lemma first_day_is_half:
  "fst (estimatedCost two_days 0 172800000 None) = 2 * fst (estimatedCost (take 1 two_days) 0 86400000 None)
   \<and> 0 < fst (estimatedCost (take 1 two_days) 0 86400000 None)"
  by (simp add: two_days_def capacity_usage_def provisionedProxySlotCapacityRecord_def sample_capacity_def
      estimatedCost_amount slot_costs_def slot_share_def put_slot_cost_def slot_cost_of_def clippedWindow_def
      add_to_def SLOT_MONTH_MS_def per_gib_cost_def for_customer_def js_set_def js_get_def)

end
