(* ===== verification/Upstream_Tunnel.thy ===== *)
theory Upstream_Tunnel
  imports Destination Resolution
begin

text \<open>
  \<open>src/upstream-tunnel.ts\<close> and the text helpers of \<open>src/net-utils.ts\<close>: how a gateway opens a tunnel through an
  upstream proxy, by an HTTP \<open>CONNECT\<close> or by SOCKS5. The connection is the list of the bytes (for HTTP,
  the chunks) that the proxy will have sent; what the gateway writes is collected. Base64 is a
  parameter.
\<close>

type_synonym byte = "8 word"

subsection \<open>Text and bytes\<close>

text \<open>\<open>Buffer.from(s, "utf8")\<close>: a character is a code point below 256.\<close>

definition utf8_char :: "char \<Rightarrow> byte list" where
  "utf8_char c =
     (let n = (of_char c :: nat) in if n < 128 then [of_nat n] else [of_nat (192 + n div 64), of_nat (128 + n mod 64)])"

definition utf8_bytes :: "string \<Rightarrow> byte list" where
  "utf8_bytes s = concat (map utf8_char s)"

text \<open>
  \<open>toString("utf8")\<close>: bytes below 128 are the characters of that code. Other bytes may stand for code
  points that no character of the model has; what they decode to is an argument.
\<close>

definition utf8_text :: "(byte list \<Rightarrow> string) \<Rightarrow> byte list \<Rightarrow> string" where
  "utf8_text decode bytes = (if list_all (\<lambda>b. b < 128) bytes then map (\<lambda>b. char_of (unat b)) bytes else decode bytes)"

fun join_with :: "char \<Rightarrow> string list \<Rightarrow> string" where
  "join_with c [] = []"
| "join_with c [x] = x"
| "join_with c (x # xs) = x @ c # join_with c xs"

lemma split_on_join: "xs \<noteq> [] \<Longrightarrow> \<forall>x \<in> set xs. c \<notin> set x \<Longrightarrow> split_on c (join_with c xs) = xs"
  by (induction c xs rule: join_with.induct) (simp_all add: split_on_none split_on_sep)

text \<open>
  \<open>Number(s)\<close>; \<open>None\<close> is \<open>NaN\<close> or an infinity, which no caller distinguishes.
\<close>

definition radix_value :: "nat \<Rightarrow> string \<Rightarrow> real option" where
  "radix_value b s =
     (if s \<noteq> [] \<and> list_all (\<lambda>c. case hex_value c of Some d \<Rightarrow> d < b | None \<Rightarrow> False) s
      then Some (real (foldl (\<lambda>n c. n * b + the (hex_value c)) 0 s)) else None)"

definition split_sign :: "string \<Rightarrow> real \<times> string" where
  "split_sign s =
     (case s of [] \<Rightarrow> (1, []) | c # cs \<Rightarrow> if c = CHR ''-'' then (- 1, cs) else if c = CHR ''+'' then (1, cs) else (1, s))"

definition decimal_literal :: "string \<Rightarrow> real option" where
  "decimal_literal s =
     (let (sign, u) = split_sign s;
          whole = takeWhile is_digit u; r1 = drop (length whole) u;
          fraction = (if r1 \<noteq> [] \<and> hd r1 = CHR ''.'' then takeWhile is_digit (tl r1) else []);
          r2 = (if r1 \<noteq> [] \<and> hd r1 = CHR ''.'' then drop (length fraction) (tl r1) else r1);
          mantissa = real (decimal_value (whole @ fraction)) / 10 ^ length fraction
      in if whole = [] \<and> fraction = [] then None
         else if r2 = [] then Some (sign * mantissa)
         else if hd r2 = CHR ''e'' \<or> hd r2 = CHR ''E''
         then (let (esign, ds) = split_sign (tl r2)
               in if ds = [] \<or> \<not> list_all is_digit ds then None
                  else Some (sign * (if esign < 0 then mantissa / 10 ^ decimal_value ds else mantissa * 10 ^ decimal_value ds)))
         else None)"

definition js_Number :: "string \<Rightarrow> real option" where
  "js_Number s =
     (let t = trim s; p = map to_lower (take 2 t)
      in if t = [] then Some 0
         else if p = ''0x'' then radix_value 16 (drop 2 t)
         else if p = ''0o'' then radix_value 8 (drop 2 t)
         else if p = ''0b'' then radix_value 2 (drop 2 t)
         else decimal_literal t)"

text \<open>The conversion of a number to 32 bits for \<open><<\<close> and \<open>|\<close>; \<open>NaN\<close> counts as 0.\<close>

definition to_int32 :: "real option \<Rightarrow> 32 word" where
  "to_int32 x = (case x of None \<Rightarrow> 0 | Some r \<Rightarrow> of_int (if r < 0 then - \<lfloor>- r\<rfloor> else \<lfloor>r\<rfloor>))"

subsection \<open>Basic authentication and authorities\<close>

definition starts_with :: "string \<Rightarrow> string \<Rightarrow> bool" where
  "starts_with s p \<longleftrightarrow> take (length p) s = p"

definition parseBasicAuth :: "(string \<Rightarrow> byte list) \<Rightarrow> (byte list \<Rightarrow> string) \<Rightarrow> string option \<Rightarrow> (string \<times> string) option" where
  "parseBasicAuth fromBase64 decode header =
     (case header of
        None \<Rightarrow> None
      | Some h \<Rightarrow>
          if \<not> starts_with h ''Basic '' then None
          else let decoded = utf8_text decode (fromBase64 (drop 6 h)); username = takeWhile (\<lambda>c. c \<noteq> CHR '':'') decoded
               in if CHR '':'' \<in> set decoded then Some (username, drop (length username + 1) decoded) else None)"

definition basicAuth :: "(byte list \<Rightarrow> string) \<Rightarrow> string \<Rightarrow> string \<Rightarrow> string" where
  "basicAuth toBase64 username password = ''Basic '' @ toBase64 (utf8_bytes (username @ '':'' @ password))"

record TunnelTarget =
  tt_host :: string
  tt_port :: int

definition authority :: "TunnelTarget \<Rightarrow> string" where
  "authority t =
     (if isIP (tt_host t) = 6 then ''['' @ tt_host t @ '']'' else tt_host t) @ '':'' @ show_int (tt_port t)"

subsection \<open>The SOCKS5 address of a target\<close>

definition out_of_range :: "exn" where
  "out_of_range = throw_error ''ERR_OUT_OF_RANGE''"

definition quad_groups :: "string \<Rightarrow> int list result" where
  "quad_groups part =
     (case map js_Number (split_on CHR ''.'' part) of
        a # b # c # d # _ \<Rightarrow>
          Inr [sint (push_bit 8 (to_int32 a) OR to_int32 b), sint (push_bit 8 (to_int32 c) OR to_int32 d)]
      | _ \<Rightarrow> Inl (unavailable ''Upstream SOCKS5 proxy address is invalid''))"

text \<open>A group that is no number is written as 0.\<close>

fun socks_groups :: "string list \<Rightarrow> int list result" where
  "socks_groups [] = Inr []"
| "socks_groups (part # parts) =
     (case (if CHR ''.'' \<in> set part then quad_groups part
            else Inr [case parseInt16 part of None \<Rightarrow> 0 | Some n \<Rightarrow> int n]) of
        Inl e \<Rightarrow> Inl e
      | Inr gs \<Rightarrow> (case socks_groups parts of Inl e \<Rightarrow> Inl e | Inr hs \<Rightarrow> Inr (gs @ hs)))"

definition socks_side :: "string \<Rightarrow> int list result" where
  "socks_side side = (if side = [] then Inr [] else socks_groups (split_on CHR '':'' side))"

definition socks_ipv6Bytes :: "string \<Rightarrow> byte list result" where
  "socks_ipv6Bytes address =
     (let sides = split_double_colon (map to_lower address)
      in case socks_side (sides ! 0) of
           Inl e \<Rightarrow> Inl e
         | Inr left \<Rightarrow>
             (case (if 2 \<le> length sides then socks_side (sides ! 1) else Inr []) of
                Inl e \<Rightarrow> Inl e
              | Inr right \<Rightarrow>
                  (let groups = (if 2 \<le> length sides
                                 then left @ replicate (8 - length left - length right) 0 @ right else left)
                   in if 8 < length groups \<or> list_ex (\<lambda>g. g < 0 \<or> 0xffff < g) groups then Inl out_of_range
                      else Inr (concat (map (\<lambda>g. group_bytes (nat g)) (groups @ replicate (8 - length groups) 0))))))"

definition quad_octets :: "string \<Rightarrow> byte list" where
  "quad_octets host = map (\<lambda>s. of_nat (decimal_value s)) (split_on CHR ''.'' host)"

definition socksAddress :: "TunnelTarget \<Rightarrow> byte list result" where
  "socksAddress t =
     (if isIP (tt_host t) = 4 then Inr (1 # quad_octets (tt_host t))
      else if isIP (tt_host t) = 6
      then (case socks_ipv6Bytes (tt_host t) of Inl e \<Rightarrow> Inl e | Inr bytes \<Rightarrow> Inr (4 # bytes))
      else let domain = utf8_bytes (tt_host t)
           in if domain = [] \<or> 255 < length domain
              then Inl (unavailable ''Target hostname cannot be encoded for SOCKS5'')
              else Inr ([3, of_nat (length domain)] @ domain))"

subsection \<open>SOCKS5\<close>

record socks_client =
  sc_written :: "byte list"
  sc_input :: "byte list"

type_synonym 'a client_op = "(exn, socks_client, 'a) op"

definition send_bytes :: "byte list \<Rightarrow> unit client_op" where
  "send_bytes bs c = (Inr (), c\<lparr>sc_written := sc_written c @ bs\<rparr>)"

definition readExactly :: "nat \<Rightarrow> byte list client_op" where
  "readExactly n c =
     (if length (sc_input c) < n
      then (Inl (unavailable ''Upstream proxy closed during SOCKS5 negotiation''), c\<lparr>sc_input := []\<rparr>)
      else (Inr (take n (sc_input c)), c\<lparr>sc_input := drop n (sc_input c)\<rparr>))"

definition check :: "bool \<Rightarrow> exn \<Rightarrow> unit client_op" where
  "check ok e = (if ok then return_op () else throw_op e)"

definition lift :: "'a result \<Rightarrow> 'a client_op" where
  "lift r c = (r, c)"

definition reply_length :: "byte \<Rightarrow> nat client_op" where
  "reply_length addressType =
     (if addressType = 1 then return_op 4
      else if addressType = 4 then return_op 16
      else if addressType = 3 then bind_op (readExactly 1) (\<lambda>l. return_op (unat (l ! 0)))
      else throw_op (unavailable ''Upstream SOCKS5 proxy sent an invalid reply''))"

definition port_bytes :: "int \<Rightarrow> byte list result" where
  "port_bytes p = (if p < 0 \<or> 0xffff < p then Inl out_of_range else Inr (group_bytes (nat p)))"

definition openSocks5Tunnel :: "TunnelTarget \<Rightarrow> UpstreamEndpoint \<Rightarrow> unit client_op" where
  "openSocks5Tunnel target upstream =
     (let username = utf8_bytes (ep_username upstream); password = utf8_bytes (ep_password upstream)
      in bind_op (check (username \<noteq> [] \<and> length username \<le> 255 \<and> password \<noteq> [] \<and> length password \<le> 255)
                    (unavailable ''Upstream credentials cannot be encoded for SOCKS5'')) (\<lambda>_.
         bind_op (send_bytes [5, 1, 2]) (\<lambda>_.
         bind_op (readExactly 2) (\<lambda>m.
         bind_op (check (m ! 0 = 5 \<and> m ! 1 = 2)
                    (throw (upstreamError ''Upstream SOCKS5 proxy rejected authentication negotiation'' 502))) (\<lambda>_.
         bind_op (send_bytes ([1, of_nat (length username)] @ username @ [of_nat (length password)] @ password)) (\<lambda>_.
         bind_op (readExactly 2) (\<lambda>a.
         bind_op (check (a ! 0 = 1 \<and> a ! 1 = 0) (throw (upstreamError ''Upstream SOCKS5 proxy rejected credentials'' 502))) (\<lambda>_.
         bind_op (lift (port_bytes (tt_port target))) (\<lambda>port.
         bind_op (lift (socksAddress target)) (\<lambda>address.
         bind_op (send_bytes ([5, 1, 0] @ address @ port)) (\<lambda>_.
         bind_op (readExactly 4) (\<lambda>reply.
         bind_op (check (reply ! 0 = 5 \<and> reply ! 1 = 0) (unavailable ''Upstream SOCKS5 proxy rejected the tunnel'')) (\<lambda>_.
         bind_op (reply_length (reply ! 3)) (\<lambda>n.
         bind_op (readExactly (n + 2)) (\<lambda>_. return_op ())))))))))))))))"

subsection \<open>HTTP CONNECT\<close>

definition CRLF :: string where
  "CRLF = [CHR 0x0D, CHR 0x0A]"

fun index_of :: "string \<Rightarrow> string \<Rightarrow> nat option" where
  "index_of p [] = (if p = [] then Some 0 else None)"
| "index_of p (c # cs) = (if starts_with (c # cs) p then Some 0 else map_option Suc (index_of p cs))"

fun split_crlf :: "string \<Rightarrow> string list" where
  "split_crlf [] = [[]]"
| "split_crlf [x] = [[x]]"
| "split_crlf (x # y # xs) =
     (if [x, y] = CRLF then [] # split_crlf xs
      else case split_crlf (y # xs) of [] \<Rightarrow> [[x]] | z # zs \<Rightarrow> (x # z) # zs)"

definition connect_request :: "(byte list \<Rightarrow> string) \<Rightarrow> TunnelTarget \<Rightarrow> UpstreamEndpoint \<Rightarrow> string" where
  "connect_request toBase64 target upstream =
     ''CONNECT '' @ authority target @ '' HTTP/1.1'' @ CRLF @ ''Host: '' @ authority target @ CRLF @
     ''Proxy-Authorization: '' @ basicAuth toBase64 (ep_username upstream) (ep_password upstream) @ CRLF @
     ''Connection: keep-alive'' @ CRLF @ CRLF"

definition header_entry :: "string \<Rightarrow> string \<times> string" where
  "header_entry line =
     (case index_of '':'' line of
        None \<Rightarrow> (map to_lower line, [])
      | Some i \<Rightarrow> (map to_lower (trim (take i line)), trim (drop (i + 1) line)))"

record OpenedTunnel =
  opened_remainder :: string
  opened_metadata :: ProviderResolutionMetadata

definition first_some :: "'a option \<Rightarrow> 'a option \<Rightarrow> 'a option" where
  "first_some a b = (case a of None \<Rightarrow> b | Some x \<Rightarrow> Some x)"

definition connect_reply :: "string \<Rightarrow> string \<Rightarrow> OpenedTunnel result" where
  "connect_reply head remainder =
     (let ls = split_crlf head;
          headers = js_of_entries (map header_entry (tl ls));
          words = split_on CHR '' '' (hd ls);
          status = (if 2 \<le> length words then js_Number (words ! 1) else None)
      in if status = Some 407 then Inl (throw (upstreamError ''Upstream provider authentication failed'' 502))
         else if status = Some 509 then Inl (throw (providerCapacityLimitError ''Upstream provider reported a hard capacity limit''))
         else if status \<noteq> Some 200 then Inl (unavailable ''Upstream provider rejected the tunnel'')
         else Inr \<lparr>opened_remainder = remainder,
                   opened_metadata =
                     \<lparr>resolvedDestinationAddresses =
                        Option.bind (js_get headers ''x-mock-resolved-destination'') (\<lambda>v. resolvedAddressesFromHeader [v]),
                      resolverCountry = js_get headers ''x-mock-resolver-country'',
                      md_opaqueIpId = first_some (js_get headers ''x-brd-ip'') (js_get headers ''x-mock-exit-ip'')\<rparr>\<rparr>)"

text \<open>The chunks the proxy sends until it closes.\<close>

fun openHttpTunnel :: "nat \<Rightarrow> string \<Rightarrow> string list \<Rightarrow> OpenedTunnel result" where
  "openHttpTunnel maxHandshakeBytes buffer [] = Inl (unavailable ''Upstream proxy closed during tunnel negotiation'')"
| "openHttpTunnel maxHandshakeBytes buffer (chunk # chunks) =
     (let buffer = buffer @ chunk
      in if maxHandshakeBytes < length buffer then Inl (unavailable ''Upstream proxy response headers were too large'')
         else case index_of (CRLF @ CRLF) buffer of
                None \<Rightarrow> openHttpTunnel maxHandshakeBytes buffer chunks
              | Some boundary \<Rightarrow> connect_reply (take boundary buffer) (drop (boundary + 4) buffer))"

text \<open>
  \<open>openUpstreamTunnel\<close>: \<open>connecting\<close> is what connecting gave, \<open>aborted\<close> the reason of an abort by then. What is
  no \<open>AppError\<close> becomes one.
\<close>

definition normalize_failure :: "thrown option \<Rightarrow> 'a result \<Rightarrow> 'a result" where
  "normalize_failure aborted r =
     (case r of
        Inr x \<Rightarrow> Inr x
      | Inl e \<Rightarrow>
          (case aborted of
             Some reason \<Rightarrow> Inl (abortReason reason)
           | None \<Rightarrow>
               (case exn_value e of
                  AppErr _ \<Rightarrow> Inl e
                | _ \<Rightarrow> Inl (unavailable ''Upstream provider connection failed''))))"

definition openUpstreamTunnel ::
    "nat \<Rightarrow> unit result \<Rightarrow> thrown option \<Rightarrow> string list \<Rightarrow> byte list \<Rightarrow> TunnelTarget \<Rightarrow> UpstreamEndpoint \<Rightarrow> OpenedTunnel result" where
  "openUpstreamTunnel maxHandshakeBytes connecting aborted chunks socksReply target upstream =
     normalize_failure aborted
       (case connecting of
          Inl e \<Rightarrow> Inl e
        | Inr _ \<Rightarrow>
            if ep_protocol upstream = UpHttp then openHttpTunnel maxHandshakeBytes [] chunks
            else (case fst (openSocks5Tunnel target upstream \<lparr>sc_written = [], sc_input = socksReply\<rparr>) of
                    Inl e \<Rightarrow> Inl e
                  | Inr _ \<Rightarrow> Inr \<lparr>opened_remainder = [],
                      opened_metadata = \<lparr>resolvedDestinationAddresses = None, resolverCountry = None, md_opaqueIpId = None\<rparr>\<rparr>))"

subsection \<open>How the answer to CONNECT is cut into chunks\<close>

lemma index_of_fits: "index_of p a = Some i \<Longrightarrow> i + length p \<le> length a"
proof (induction a arbitrary: i)
  case (Cons c a)
  show ?case
  proof (cases "starts_with (c # a) p")
    case True
    then have "length p \<le> length (c # a)" unfolding starts_with_def by (metis length_take min.cobounded1)
    then show ?thesis using True Cons.prems by simp
  qed (use Cons in auto)
qed (auto split: if_splits)

lemma index_of_prefix: "index_of p a = Some i \<Longrightarrow> index_of p (a @ b) = Some i"
proof (induction a arbitrary: i)
  case Nil
  then show ?case by (cases b) (auto simp: starts_with_def split: if_splits)
next
  case (Cons c a)
  have more: "starts_with (c # a) p \<Longrightarrow> starts_with (c # a @ b) p"
    unfolding starts_with_def by (metis append_Cons append_take_drop_id append_eq_conv_conj append.assoc)
  show ?case
  proof (cases "starts_with (c # a) p")
    case True
    with Cons.prems more show ?thesis by simp
  next
    case False
    with Cons.prems obtain j where j: "index_of p a = Some j" "i = Suc j" by auto
    have bound: "length p \<le> length a" using index_of_fits [OF j(1)] by simp
    then have "\<not> starts_with (c # a @ b) p" using False unfolding starts_with_def by (simp add: take_Cons' split: if_splits)
    then show ?thesis using Cons.IH [OF j(1)] j(2) by simp
  qed
qed

lemma connect_chunks:
  assumes "length (buffer @ concat chunks) \<le> maxBytes" "index_of (CRLF @ CRLF) buffer = None"
  shows "case index_of (CRLF @ CRLF) (buffer @ concat chunks) of
      None \<Rightarrow> openHttpTunnel maxBytes buffer chunks = Inl (unavailable ''Upstream proxy closed during tunnel negotiation'')
    | Some i \<Rightarrow> (\<exists>early later. drop (i + 4) (buffer @ concat chunks) = early @ later
        \<and> openHttpTunnel maxBytes buffer chunks = connect_reply (take i (buffer @ concat chunks)) early)"
  using assms
proof (induction chunks arbitrary: buffer)
  case Nil
  then show ?case by simp
next
  case (Cons chunk chunks)
  show ?case
  proof (cases "index_of (CRLF @ CRLF) (buffer @ chunk)")
    case None
    then show ?thesis using Cons.IH [of "buffer @ chunk"] Cons.prems(1) by (simp cong: option.case_cong)
  next
    case (Some i)
    from index_of_prefix [OF Some, of "concat chunks"]
    have i: "index_of (CRLF @ CRLF) (buffer @ concat (chunk # chunks)) = Some i" by simp
    have fits: "i + 4 \<le> length (buffer @ chunk)" using index_of_fits [OF Some] by (simp add: CRLF_def)
    have "openHttpTunnel maxBytes buffer (chunk # chunks)
        = connect_reply (take i (buffer @ concat (chunk # chunks))) (drop (i + 4) (buffer @ chunk))"
      using Some Cons.prems(1) fits by (simp add: Let_def)
    moreover have "drop (i + 4) (buffer @ concat (chunk # chunks)) = drop (i + 4) (buffer @ chunk) @ concat chunks"
      using fits by simp
    ultimately show ?thesis unfolding i option.case by blast
  qed
qed

text \<open>
  How the network cuts an answer to CONNECT into chunks does not matter as long as it fits into the
  handshake limit: the tunnel is decided by the bytes before the first empty line of the whole answer, a proxy that never
  sends one is reported as closed, and the bytes after it are lost nowhere, those that have arrived being handed over.
\<close>

theorem connect_answer_chunking:
  assumes "length (concat chunks) \<le> maxBytes"
  shows "case index_of (CRLF @ CRLF) (concat chunks) of
      None \<Rightarrow> openHttpTunnel maxBytes [] chunks = Inl (unavailable ''Upstream proxy closed during tunnel negotiation'')
    | Some i \<Rightarrow> (\<exists>early later. drop (i + 4) (concat chunks) = early @ later
        \<and> openHttpTunnel maxBytes [] chunks = connect_reply (take i (concat chunks)) early)"
  using connect_chunks [of "[]" chunks maxBytes] assms by (simp add: CRLF_def cong: option.case_cong)

theorem connect_answer_chunking_witness:
  "\<exists>early later. ''xyz'' = early @ later
     \<and> openHttpTunnel 100 [] [''HTTP/1.1 200'', [CHR 0x0D, CHR 0x0A, CHR 0x0D], CHR 0x0A # ''xy'', ''z''] = connect_reply ''HTTP/1.1 200'' early"
  using connect_answer_chunking [of "[''HTTP/1.1 200'', [CHR 0x0D, CHR 0x0A, CHR 0x0D], CHR 0x0A # ''xy'', ''z'']" 100]
  by (simp add: CRLF_def starts_with_def)

text \<open>Above the limit the chunks matter: tunnel bytes that arrive with the headers count against the limit.\<close>

lemma early_bytes_count_as_headers:
  "openHttpTunnel 20 [] [''HTTP/1.1 200'' @ CRLF @ CRLF @ ''12345''] = Inl (unavailable ''Upstream proxy response headers were too large'')"
  "openHttpTunnel 20 [] [''HTTP/1.1 200'' @ CRLF @ CRLF, ''12345''] = connect_reply ''HTTP/1.1 200'' []"
  by (simp_all add: CRLF_def starts_with_def)

subsection \<open>Credentials in headers\<close>

lemma byte_bound: "unat (b :: byte) < 256"
proof -
  have "unat b < 2 ^ LENGTH(8)" by (rule unsigned_less)
  then show ?thesis by simp
qed

definition ascii :: "string \<Rightarrow> bool" where
  "ascii s \<longleftrightarrow> list_all (\<lambda>c. (of_char c :: nat) < 128) s"

lemma utf8_ascii: "ascii s \<Longrightarrow> utf8_bytes s = map (\<lambda>c. of_nat (of_char c)) s"
  by (induction s) (auto simp: ascii_def utf8_bytes_def utf8_char_def Let_def)

lemma ascii_byte: "(of_char c :: nat) < 128 \<Longrightarrow> unat (of_nat (of_char c) :: byte) = of_char c"
  by (simp add: unat_of_nat)

lemma utf8_round_trip: "ascii s \<Longrightarrow> utf8_text decode (utf8_bytes s) = s"
proof -
  assume s: "ascii s"
  then have "list_all (\<lambda>b. b < 128) (utf8_bytes s)"
    unfolding utf8_ascii [OF s] by (auto simp: ascii_def list_all_iff word_less_nat_alt ascii_byte)
  then show ?thesis
    using s by (auto simp: utf8_text_def utf8_ascii ascii_def list_all_iff ascii_byte intro: map_idI)
qed

lemma utf8_length: "ascii s \<Longrightarrow> length (utf8_bytes s) = length s"
  by (simp add: utf8_ascii)

text \<open>
  Credentials written into a proxy authorization header are read back unchanged, whatever base64 coder is used,
  as long as it decodes what it encoded and the user name has no colon.
\<close>

theorem basic_auth_round_trip:
  assumes "\<And>bytes. fromBase64 (toBase64 bytes) = bytes" "ascii u" "ascii p" "CHR '':'' \<notin> set u"
  shows "parseBasicAuth fromBase64 decode (Some (basicAuth toBase64 u p)) = Some (u, p)"
proof -
  have "ascii (u @ '':'' @ p)" using assms(2,3) by (simp add: ascii_def)
  then have "utf8_text decode (fromBase64 (toBase64 (utf8_bytes (u @ '':'' @ p)))) = u @ '':'' @ p"
    unfolding assms(1) by (rule utf8_round_trip)
  moreover have "takeWhile (\<lambda>c. c \<noteq> CHR '':'') (u @ '':'' @ p) = u" using assms(4) by (subst takeWhile_append2) auto
  ultimately show ?thesis by (simp add: parseBasicAuth_def basicAuth_def starts_with_def Let_def)
qed

theorem basic_auth_round_trip_witness:
  "parseBasicAuth (map (\<lambda>c. of_nat (of_char c))) (\<lambda>_. []) (Some (basicAuth (map (\<lambda>b. char_of (unat b))) ''ann'' ''p:w'')) = Some (''ann'', ''p:w'')"
  by (rule basic_auth_round_trip) (simp_all add: ascii_def comp_def byte_bound)

end
