(* ===== verification/Socks_Proxy.thy ===== *)
theory Socks_Proxy
  imports Upstream_Tunnel
begin

text \<open>
  \<open>src/socks5-proxy.ts\<close>: the SOCKS5 server of the gateway, from the greeting to the tunnel. The client is
  the list of bytes it will have sent; what the server does to the socket is collected. Logging in,
  the validation of targets and the establishment of the tunnel are the operations of the
  gateway, arguments of the handler in the record \<open>SocksEnv\<close>. Time-outs of the socket are left out.
\<close>

subsection \<open>Reading the handshake\<close>

record HandshakeReader =
  hr_consumed :: nat
  hr_input :: "byte list"

definition handshake_error :: "string \<Rightarrow> exn" where
  "handshake_error msg = throw (appError msg InvalidSocks5 400)"

definition hr_read :: "nat \<Rightarrow> nat \<Rightarrow> HandshakeReader \<Rightarrow> byte list result \<times> HandshakeReader" where
  "hr_read maximumBytes n r =
     (let consumed = hr_consumed r + n
      in if maximumBytes < consumed then (Inl (handshake_error ''SOCKS5 handshake is too large''), r\<lparr>hr_consumed := consumed\<rparr>)
         else if length (hr_input r) < n
         then (Inl (handshake_error ''SOCKS5 handshake ended early''), r\<lparr>hr_consumed := consumed, hr_input := []\<rparr>)
         else (Inr (take n (hr_input r)), r\<lparr>hr_consumed := consumed, hr_input := drop n (hr_input r)\<rparr>))"

fun show_hex :: "nat \<Rightarrow> string" where
  "show_hex n = (if n < 16 then [] else show_hex (n div 16)) @ [''0123456789abcdef'' ! (n mod 16)]"

declare show_hex.simps [simp del] show_nat.simps [simp del]

definition readUInt16BE :: "byte list \<Rightarrow> nat \<Rightarrow> nat" where
  "readUInt16BE bytes i = unat (bytes ! i) * 256 + unat (bytes ! (i + 1))"

definition ipv6Text :: "byte list \<Rightarrow> string" where
  "ipv6Text bytes = join_with CHR '':'' (map (\<lambda>i. show_hex (readUInt16BE bytes (2 * i))) [0..<8])"

definition ipv4Text :: "byte list \<Rightarrow> string" where
  "ipv4Text bytes = join_with CHR ''.'' (map (\<lambda>b. show_nat (unat b)) bytes)"

subsection \<open>The state of one connection\<close>

datatype socks_output = Write "byte list" | EndWith "byte list" | EndSocket | DestroySocket

record 's SocksEnv =
  sv_maxHandshakeBytes :: nat
  sv_decode :: "byte list \<Rightarrow> string"
  sv_authenticate :: "string \<Rightarrow> string \<Rightarrow> 's \<Rightarrow> AuthenticatedRoute result \<times> 's"
  sv_budget :: "unit result"
  sv_validateTarget :: "string \<Rightarrow> int \<Rightarrow> LocalResolutionObservation result"
  sv_establish :: "AuthenticatedRoute \<Rightarrow> TunnelTarget \<Rightarrow> LocalResolutionObservation \<Rightarrow> 's \<Rightarrow> (byte list option \<times> unit result) \<times> 's"

record 's socks_state =
  ss_reader :: HandshakeReader
  ss_output :: "socks_output list"
  ss_accepted :: bool
  ss_service :: 's

type_synonym ('s, 'a) socks_op = "(exn, 's socks_state, 'a) op"

definition socks_read :: "'s SocksEnv \<Rightarrow> nat \<Rightarrow> ('s, byte list) socks_op" where
  "socks_read env n x =
     (case hr_read (sv_maxHandshakeBytes env) n (ss_reader x) of (r, reader) \<Rightarrow> (r, x\<lparr>ss_reader := reader\<rparr>))"

definition emit :: "socks_output list \<Rightarrow> ('s, unit) socks_op" where
  "emit os x = (Inr (), x\<lparr>ss_output := ss_output x @ os\<rparr>)"

definition demand :: "bool \<Rightarrow> exn \<Rightarrow> ('s, unit) socks_op" where
  "demand ok e = (if ok then return_op () else throw_op e)"

definition pure_result :: "'a result \<Rightarrow> ('s, 'a) socks_op" where
  "pure_result r x = (r, x)"

definition reply_bytes :: "byte \<Rightarrow> byte list" where
  "reply_bytes code = [5, code, 0, 1, 0, 0, 0, 0, 0, 0]"

definition no_credentials :: exn where
  "no_credentials = throw (authenticationError ''Proxy authentication required'')"

subsection \<open>The phases\<close>

definition negotiate :: "'s SocksEnv \<Rightarrow> ('s, unit) socks_op" where
  "negotiate env =
     bind_op (socks_read env 2) (\<lambda>greeting.
     bind_op (demand (greeting ! 0 = 5) (handshake_error ''SOCKS5 version 5 is required'')) (\<lambda>_.
     bind_op (socks_read env (unat (greeting ! 1))) (\<lambda>methods.
     if 2 \<in> set methods then emit [Write [5, 2]]
     else bind_op (emit [EndWith [5, 0xff]]) (\<lambda>_.
       throw_op (throw (authenticationError ''SOCKS5 username/password authentication is required''))))))"

definition read_credentials :: "'s SocksEnv \<Rightarrow> ('s, string \<times> string) socks_op" where
  "read_credentials env =
     bind_op (socks_read env 2) (\<lambda>header.
     bind_op (demand (header ! 0 = 1 \<and> header ! 1 \<noteq> 0) no_credentials) (\<lambda>_.
     bind_op (socks_read env (unat (header ! 1))) (\<lambda>username.
     bind_op (socks_read env 1) (\<lambda>n.
     bind_op (socks_read env (unat (n ! 0))) (\<lambda>password.
       return_op (utf8_text (sv_decode env) username, utf8_text (sv_decode env) password))))))"

definition login :: "'s SocksEnv \<Rightarrow> string \<times> string \<Rightarrow> ('s, AuthenticatedRoute) socks_op" where
  "login env given x =
     (case sv_authenticate env (fst given) (snd given) (ss_service x) of
        (Inl _, s) \<Rightarrow> (Inl no_credentials, x\<lparr>ss_service := s, ss_output := ss_output x @ [EndWith [1, 1]]\<rparr>)
      | (Inr route, s) \<Rightarrow> (Inr route, x\<lparr>ss_service := s, ss_output := ss_output x @ [Write [1, 0]]\<rparr>))"

definition accept_request :: "('s, unit) socks_op" where
  "accept_request x = (Inr (), x\<lparr>ss_accepted := True\<rparr>)"

definition readTarget :: "'s SocksEnv \<Rightarrow> byte \<Rightarrow> ('s, string) socks_op" where
  "readTarget env addressType =
     (if addressType = 1 then bind_op (socks_read env 4) (\<lambda>bs. return_op (ipv4Text bs))
      else if addressType = 4 then bind_op (socks_read env 16) (\<lambda>bs. return_op (ipv6Text bs))
      else if addressType = 3
      then bind_op (socks_read env 1) (\<lambda>n.
           bind_op (demand (n ! 0 \<noteq> 0) (handshake_error ''SOCKS5 target hostname is empty'')) (\<lambda>_.
           bind_op (socks_read env (unat (n ! 0))) (\<lambda>bs. return_op (utf8_text (sv_decode env) bs))))
      else throw_op (throw (appError ''SOCKS5 address type is not supported'' UnsupportedSocks5Address 400)))"

text \<open>The command and the target.\<close>

definition read_request :: "'s SocksEnv \<Rightarrow> ('s, byte \<times> TunnelTarget) socks_op" where
  "read_request env =
     bind_op (socks_read env 4) (\<lambda>request.
     bind_op accept_request (\<lambda>_.
     bind_op (demand (request ! 0 = 5 \<and> request ! 2 = 0) (handshake_error ''Invalid SOCKS5 request'')) (\<lambda>_.
     bind_op (readTarget env (request ! 3)) (\<lambda>host.
     bind_op (socks_read env 2) (\<lambda>port.
       return_op (request ! 1, \<lparr>tt_host = host, tt_port = int (readUInt16BE port 0)\<rparr>))))))"

definition establish_phase ::
    "'s SocksEnv \<Rightarrow> AuthenticatedRoute \<Rightarrow> TunnelTarget \<Rightarrow> LocalResolutionObservation \<Rightarrow> ('s, unit) socks_op" where
  "establish_phase env route target validation x =
     (case sv_establish env route target validation (ss_service x) of
        ((prepared, r), s) \<Rightarrow>
          (r, x\<lparr>ss_service := s,
                ss_output := ss_output x @ (case prepared of
                   None \<Rightarrow> []
                 | Some remainder \<Rightarrow> Write (reply_bytes 0) # (if remainder = [] then [] else [Write remainder]))\<rparr>))"

datatype socks_end = CommandRefused | TunnelEstablished

definition serve :: "'s SocksEnv \<Rightarrow> ('s, socks_end) socks_op" where
  "serve env =
     bind_op (negotiate env) (\<lambda>_.
     bind_op (read_credentials env) (\<lambda>given.
     bind_op (login env given) (\<lambda>route.
     bind_op (read_request env) (\<lambda>(command, target).
     if command \<noteq> 1 then bind_op (emit [Write (reply_bytes 7), EndSocket]) (\<lambda>_. return_op CommandRefused)
     else
       bind_op (pure_result (assertProtocolAllowed route Socks5)) (\<lambda>_.
       bind_op (pure_result (sv_budget env)) (\<lambda>_.
       bind_op (pure_result (sv_validateTarget env (tt_host target) (tt_port target))) (\<lambda>validation.
       bind_op (establish_phase env route target validation) (\<lambda>_. return_op TunnelEstablished))))))))"

definition reply_code :: "exn \<Rightarrow> byte" where
  "reply_code e =
     (case exn_value e of
        AppErr a \<Rightarrow> if err_code a = UnsupportedSocks5Address then 8 else if statusCode a = 403 then 2 else 1
      | _ \<Rightarrow> 1)"

definition is_end :: "socks_output \<Rightarrow> bool" where
  "is_end out = (case out of Write _ \<Rightarrow> False | _ \<Rightarrow> True)"

text \<open>What the handler does about an error.\<close>

definition failure_output :: "exn \<Rightarrow> 's socks_state \<Rightarrow> socks_output list" where
  "failure_output e x =
     (if ss_accepted x then [Write (reply_bytes (reply_code e)), EndSocket]
      else if list_ex is_end (ss_output x) then [] else [DestroySocket])"

definition handle :: "'s SocksEnv \<Rightarrow> byte list \<Rightarrow> 's \<Rightarrow> socks_end result \<times> socks_output list \<times> 's" where
  "handle env input s =
     (case serve env \<lparr>ss_reader = \<lparr>hr_consumed = 0, hr_input = input\<rparr>, ss_output = [], ss_accepted = False, ss_service = s\<rparr> of
        (Inr r, x) \<Rightarrow> (Inr r, ss_output x, ss_service x)
      | (Inl e, x) \<Rightarrow> (Inl e, ss_output x @ failure_output e x, ss_service x))"

subsection \<open>Addresses survive the wire\<close>

lemma show_nat_octet: "n < 256 \<Longrightarrow> show_nat n = octet_string n"
  by (simp add: octet_string_def digit_def show_nat.simps [of n] show_nat.simps [of "n div 10"] show_nat.simps [of "n div 100"]
      div_mult2_eq [symmetric] div_less_iff_less_mult)

lemma ipv4Text_quad:
  assumes "a < 256" "b < 256" "c < 256" "d < 256"
  shows "ipv4Text [of_nat a, of_nat b, of_nat c, of_nat d] = quad a b c d"
  using assms by (simp add: ipv4Text_def quad_def show_nat_octet unat_of_nat)

lemma socksAddress_quad:
  assumes "a < 256" "b < 256" "c < 256" "d < 256" "tt_host t = quad a b c d"
  shows "socksAddress t = Inr [1, of_nat a, of_nat b, of_nat c, of_nat d]"
  using assms by (simp add: socksAddress_def quad_octets_def quad_is_ip split_quad octet_string_ok)

lemma hex_digit:
  assumes "k < 16"
  shows "hex_value (''0123456789abcdef'' ! k) = Some k" "to_lower (''0123456789abcdef'' ! k) = ''0123456789abcdef'' ! k"
    "''0123456789abcdef'' ! k \<notin> {CHR '':'', CHR ''.'', CHR ''%''}"
proof -
  have "list_all (\<lambda>k. let c = ''0123456789abcdef'' ! k
      in hex_value c = Some k \<and> to_lower c = c \<and> c \<noteq> CHR '':'' \<and> c \<noteq> CHR ''.'' \<and> c \<noteq> CHR ''%'') [0..<16]"
    by (simp add: upt_rec hex_value_def to_lower_def Let_def)
  moreover have "k \<in> set [0..<16]" using assms by simp
  ultimately show "hex_value (''0123456789abcdef'' ! k) = Some k" "to_lower (''0123456789abcdef'' ! k) = ''0123456789abcdef'' ! k"
    "''0123456789abcdef'' ! k \<notin> {CHR '':'', CHR ''.'', CHR ''%''}"
    unfolding list_all_iff Let_def by blast+
qed

lemma show_hex_chars: "c \<in> set (show_hex n) \<Longrightarrow> \<exists>k < 16. c = ''0123456789abcdef'' ! k"
proof (induction n rule: show_hex.induct)
  case (1 n)
  from "1.prems" have "c \<in> set (show_hex (n div 16)) \<and> \<not> n < 16 \<or> c = ''0123456789abcdef'' ! (n mod 16)"
    by (subst (asm) show_hex.simps) (auto split: if_splits)
  then show ?case
  proof
    assume "c = ''0123456789abcdef'' ! (n mod 16)"
    then show ?thesis by (intro exI [of _ "n mod 16"]) simp
  qed (use "1.IH" in simp)
qed

lemma show_hex_nonempty: "show_hex n \<noteq> []"
  by (subst show_hex.simps) simp

lemma show_hex_length: "n < 16 ^ Suc k \<Longrightarrow> length (show_hex n) \<le> Suc k"
proof (induction k arbitrary: n)
  case 0
  then show ?case by (subst show_hex.simps) simp
next
  case (Suc k)
  have "n div 16 < 16 ^ Suc k" using Suc.prems by (simp add: less_mult_imp_div_less)
  from Suc.IH [OF this] show ?case by (subst show_hex.simps) simp
qed

lemma show_hex_value: "foldl (\<lambda>n c. n * 16 + the (hex_value c)) 0 (show_hex n) = n"
proof (induction n rule: show_hex.induct)
  case (1 n)
  then show ?case by (subst show_hex.simps) (simp add: hex_digit(1))
qed

lemma show_hex_group:
  assumes "n < 65536"
  shows "is_hex_group (show_hex n)" "parseInt16 (show_hex n) = Some n" "map to_lower (show_hex n) = show_hex n"
    "CHR '':'' \<notin> set (show_hex n)" "CHR ''.'' \<notin> set (show_hex n)" "CHR ''%'' \<notin> set (show_hex n)"
proof -
  have hex: "hex_value c \<noteq> None" "to_lower c = c" "c \<notin> {CHR '':'', CHR ''.'', CHR ''%''}" if "c \<in> set (show_hex n)" for c
    using show_hex_chars [OF that] hex_digit by auto
  have "length (show_hex n) \<le> 4" using show_hex_length [of n 3] assms by simp
  then show "is_hex_group (show_hex n)" using hex(1) by (auto simp: is_hex_group_def show_hex_nonempty list_all_iff)
  have digits: "takeWhile (\<lambda>c. hex_value c \<noteq> None) (show_hex n) = show_hex n" using hex(1) by (simp add: takeWhile_eq_all_conv)
  show "parseInt16 (show_hex n) = Some n" unfolding parseInt16_def Let_def digits by (simp add: show_hex_nonempty show_hex_value)
  show "map to_lower (show_hex n) = show_hex n" using hex(2) by (intro map_idI)
  show "CHR '':'' \<notin> set (show_hex n)" "CHR ''.'' \<notin> set (show_hex n)" "CHR ''%'' \<notin> set (show_hex n)" using hex(3) by auto
qed

lemma split_double_other:
  "CHR '':'' \<noteq> x \<Longrightarrow> split_double_colon (x # s) = (case split_double_colon s of [] \<Rightarrow> [[x]] | z # zs \<Rightarrow> (x # z) # zs)"
  by (cases s) simp_all

lemma split_double_single:
  "y \<noteq> CHR '':'' \<Longrightarrow> split_double_colon (CHR '':'' # y # s)
     = (case split_double_colon (y # s) of [] \<Rightarrow> [[CHR '':'']] | z # zs \<Rightarrow> (CHR '':'' # z) # zs)"
  by simp

lemma split_double_part: "CHR '':'' \<notin> set x \<Longrightarrow> split_double_colon s = [s] \<Longrightarrow> split_double_colon (x @ s) = [x @ s]"
  by (induction x) (auto simp: split_double_other)

lemma split_double_join:
  assumes "\<forall>x \<in> set xs. x \<noteq> [] \<and> CHR '':'' \<notin> set x"
  shows "split_double_colon (join_with CHR '':'' xs) = [join_with CHR '':'' xs]"
  using assms
proof (induction "CHR '':''" xs rule: join_with.induct)
  case (2 x)
  then show ?case using split_double_part [of x "[]"] by simp
next
  case (3 x y zs)
  let ?t = "join_with CHR '':'' (y # zs)"
  from "3.prems" obtain c cs where y: "y = c # cs" "c \<noteq> CHR '':''" by (cases y) auto
  then obtain t where t: "?t = c # t" by (cases zs) auto
  from "3.hyps" "3.prems" have "split_double_colon ?t = [?t]" by simp
  then have "split_double_colon (CHR '':'' # ?t) = [CHR '':'' # ?t]"
    unfolding t using split_double_single [OF y(2), of t] by simp
  with "3.prems" show ?case by (simp add: split_double_part)
qed simp

lemma join_chars: "set (join_with c xs) \<subseteq> insert c (\<Union> (set ` set xs))"
  by (induction c xs rule: join_with.induct) auto

lemma map_join: "f c = c \<Longrightarrow> map f (join_with c xs) = join_with c (map (map f) xs)"
  by (induction c xs rule: join_with.induct) auto

definition hex_groups :: "byte list \<Rightarrow> string list" where
  "hex_groups bytes = map (\<lambda>i. show_hex (readUInt16BE bytes (2 * i))) [0..<8]"

lemma readUInt16BE_bound: "readUInt16BE bytes i < 65536"
proof -
  from byte_bound [of "bytes ! i"] byte_bound [of "bytes ! (i + 1)"] show ?thesis unfolding readUInt16BE_def by linarith
qed

lemma hex_groups_ok:
  "x \<in> set (hex_groups bytes) \<Longrightarrow>
     x \<noteq> [] \<and> is_hex_group x \<and> CHR '':'' \<notin> set x \<and> CHR ''.'' \<notin> set x \<and> CHR ''%'' \<notin> set x \<and> map to_lower x = x"
  by (auto simp: hex_groups_def show_hex_nonempty show_hex_group [OF readUInt16BE_bound])

lemma ipv6Text_is_ip: "isIP (ipv6Text bytes) = 6"
proof -
  let ?s = "ipv6Text bytes"
  have s: "?s = join_with CHR '':'' (hex_groups bytes)" by (simp add: ipv6Text_def hex_groups_def)
  have chars: "c \<in> set ?s \<Longrightarrow> c \<noteq> CHR ''.'' \<and> c \<noteq> CHR ''%''" for c
    using join_chars [of "CHR '':''" "hex_groups bytes"] hex_groups_ok [of _ bytes] unfolding s by fastforce
  then have "split_on CHR ''.'' ?s = [?s]" by (intro split_on_none) blast
  then have "\<not> is_ipv4 ?s" by (simp add: is_ipv4_def)
  moreover have zone: "takeWhile (\<lambda>c. c \<noteq> CHR ''%'') ?s = ?s" using chars by (simp add: takeWhile_eq_all_conv)
  have whole: "split_double_colon ?s = [?s]" unfolding s using hex_groups_ok by (intro split_double_join) blast
  have groups: "split_on CHR '':'' ?s = hex_groups bytes"
    unfolding s using hex_groups_ok by (intro split_on_join) (auto simp: hex_groups_def)
  have "group_count True ?s = Some 8"
    unfolding group_count_def Let_def groups using hex_groups_ok [of _ bytes] by (simp add: list_all_iff, simp add: hex_groups_def)
  then have "is_ipv6 ?s" unfolding is_ipv6_def Let_def zone whole by simp
  ultimately show ?thesis by (simp add: isIP_def)
qed

lemma socks_groups_hex:
  assumes "\<forall>x \<in> set xs. CHR ''.'' \<notin> set x \<and> parseInt16 x = Some (f x)"
  shows "socks_groups xs = Inr (map (\<lambda>x. int (f x)) xs)"
  using assms by (induction xs) auto

lemma group_bytes_read: "group_bytes (readUInt16BE bytes i) = [bytes ! i, bytes ! (i + 1)]"
  by (simp add: group_bytes_def readUInt16BE_def byte_bound)

lemma sixteen: "length bytes = 16 \<Longrightarrow> concat (map (\<lambda>i. [bytes ! (2 * i), bytes ! (2 * i + 1)]) [0..<8]) = bytes"
  by (rule nth_equalityI) (auto simp: upt_rec nth_Cons' less_Suc_eq numeral_eq_Suc)

lemma socksAddress_ipv6:
  assumes "length bytes = 16" "tt_host t = ipv6Text bytes"
  shows "socksAddress t = Inr (4 # bytes)"
proof -
  let ?s = "ipv6Text bytes"
  let ?gs = "map (\<lambda>i. readUInt16BE bytes (2 * i)) [0..<8]"
  have s: "?s = join_with CHR '':'' (hex_groups bytes)" by (simp add: ipv6Text_def hex_groups_def)
  have lower: "map to_lower ?s = ?s"
    unfolding s using hex_groups_ok [of _ bytes] by (subst map_join) (simp_all add: to_lower_def map_idI)
  have whole: "split_double_colon ?s = [?s]" unfolding s using hex_groups_ok by (intro split_double_join) blast
  have groups: "split_on CHR '':'' ?s = hex_groups bytes"
    unfolding s using hex_groups_ok by (intro split_on_join) (auto simp: hex_groups_def)
  have "?s \<noteq> []" by (simp add: ipv6Text_def upt_rec show_hex_nonempty)
  moreover have "socks_groups (hex_groups bytes) = Inr (map int ?gs)"
    using socks_groups_hex [of "hex_groups bytes" "\<lambda>x. the (parseInt16 x)"] hex_groups_ok [of _ bytes]
    by (simp add: hex_groups_def show_hex_group [OF readUInt16BE_bound] comp_def)
  ultimately have "socks_side ?s = Inr (map int ?gs)" by (simp add: socks_side_def groups)
  moreover have "\<not> list_ex (\<lambda>g. g < 0 \<or> 65535 < g) (map int ?gs)"
    using readUInt16BE_bound [of bytes] by (simp add: upt_rec not_less less_Suc_eq_le [symmetric])
  ultimately have "socks_ipv6Bytes ?s = Inr (concat (map (\<lambda>g. group_bytes (nat g)) (map int ?gs)))"
    unfolding socks_ipv6Bytes_def Let_def lower whole by simp
  also have "concat (map (\<lambda>g. group_bytes (nat g)) (map int ?gs)) = bytes"
    using sixteen [OF assms(1)] by (simp add: comp_def group_bytes_read)
  finally show ?thesis by (simp add: socksAddress_def assms(2) ipv6Text_is_ip)
qed

subsection \<open>A client of this gateway is served\<close>

definition speakable :: "string \<Rightarrow> bool" where
  "speakable host \<longleftrightarrow>
     (isIP host \<noteq> 4 \<and> isIP host \<noteq> 6 \<and> ascii host \<and> host \<noteq> [] \<and> length host \<le> 255)
     \<or> (\<exists>a b c d. a < 256 \<and> b < 256 \<and> c < 256 \<and> d < 256 \<and> host = quad a b c d)
     \<or> (\<exists>bytes. length bytes = 16 \<and> host = ipv6Text bytes)"

abbreviation talk :: "nat \<Rightarrow> byte list \<Rightarrow> socks_output list \<Rightarrow> bool \<Rightarrow> 's \<Rightarrow> 's socks_state" where
  "talk k input out accepted s \<equiv>
     \<lparr>ss_reader = \<lparr>hr_consumed = k, hr_input = input\<rparr>, ss_output = out, ss_accepted = accepted, ss_service = s\<rparr>"

lemma socks_read_bytes:
  "length bs = n \<Longrightarrow> k + n \<le> sv_maxHandshakeBytes env \<Longrightarrow>
     socks_read env n (talk k (bs @ rest) out accepted s) = (Inr bs, talk (k + n) rest out accepted s)"
  by (simp add: socks_read_def hr_read_def)

lemma small_byte: "n < 256 \<Longrightarrow> unat (of_nat n :: byte) = n"
  by (simp add: unat_of_nat)

lemma readTarget_speakable:
  assumes "speakable (tt_host t)" "socksAddress t = Inr address" "k + length address \<le> sv_maxHandshakeBytes env + 1"
  shows "address \<noteq> [] \<and> readTarget env (hd address) (talk k (tl address @ rest) out accepted s)
     = (Inr (tt_host t), talk (k + length address - 1) rest out accepted s)"
  using assms(1) unfolding speakable_def
proof (elim disjE exE conjE)
  assume host: "isIP (tt_host t) \<noteq> 4" "isIP (tt_host t) \<noteq> 6" "ascii (tt_host t)" "tt_host t \<noteq> []" "length (tt_host t) \<le> 255"
  define bs where "bs = utf8_bytes (tt_host t)"
  have bs: "length bs = length (tt_host t)" "bs \<noteq> []"
    using utf8_length [OF host(3)] host(4) unfolding bs_def by auto
  have address: "address = [3, of_nat (length bs)] @ bs"
    using assms(2) host bs unfolding socksAddress_def bs_def [symmetric] by (simp add: Let_def)
  let ?n = "of_nat (length bs) :: byte"
  have n: "unat ?n = length bs" using host(5) bs(1) by (simp add: small_byte)
  then have "?n \<noteq> 0" using bs(2) by auto
  moreover have "socks_read env 1 (talk k ([?n] @ bs @ rest) out accepted s) = (Inr [?n], talk (k + 1) (bs @ rest) out accepted s)"
    using assms(3) address by (intro socks_read_bytes) simp_all
  moreover have "socks_read env (length bs) (talk (k + 1) (bs @ rest) out accepted s)
      = (Inr bs, talk (k + 1 + length bs) rest out accepted s)"
    using assms(3) address by (intro socks_read_bytes) simp_all
  ultimately show ?thesis
    using n unfolding address readTarget_def
    by (simp add: bind_op_def demand_def return_op_def bs_def utf8_round_trip [OF host(3)])
next
  fix a b c d :: nat
  assume q: "a < 256" "b < 256" "c < 256" "d < 256" "tt_host t = quad a b c d"
  let ?bs = "[of_nat a, of_nat b, of_nat c, of_nat d] :: byte list"
  have address: "address = 1 # ?bs" using assms(2) socksAddress_quad [OF q] by simp
  have "socks_read env 4 (talk k (?bs @ rest) out accepted s) = (Inr ?bs, talk (k + 4) rest out accepted s)"
    using assms(3) address by (intro socks_read_bytes) simp_all
  then show ?thesis
    unfolding address readTarget_def using ipv4Text_quad [OF q(1-4)] q(5) by (simp add: bind_op_def return_op_def)
next
  fix bytes :: "byte list"
  assume q: "length bytes = 16" "tt_host t = ipv6Text bytes"
  have address: "address = 4 # bytes" using assms(2) socksAddress_ipv6 [OF q] by simp
  have "socks_read env 16 (talk k (bytes @ rest) out accepted s) = (Inr bytes, talk (k + 16) rest out accepted s)"
    using assms(3) address q(1) by (intro socks_read_bytes) simp_all
  then show ?thesis
    unfolding address readTarget_def using q by (simp add: bind_op_def return_op_def)
qed

fun wire_bytes :: "socks_output \<Rightarrow> byte list" where
  "wire_bytes (Write bs) = bs"
| "wire_bytes (EndWith bs) = bs"
| "wire_bytes EndSocket = []"
| "wire_bytes DestroySocket = []"

definition greeting_bytes :: "byte list" where
  "greeting_bytes = [5, 1, 2]"

definition credential_bytes :: "string \<Rightarrow> string \<Rightarrow> byte list" where
  "credential_bytes u p = [1, of_nat (length (utf8_bytes u))] @ utf8_bytes u @ [of_nat (length (utf8_bytes p))] @ utf8_bytes p"

definition request_bytes :: "byte list \<Rightarrow> int \<Rightarrow> byte list" where
  "request_bytes address port = [5, 1, 0] @ address @ group_bytes (nat port)"

definition encodable :: "string \<Rightarrow> bool" where
  "encodable s \<longleftrightarrow> ascii s \<and> s \<noteq> [] \<and> length s \<le> 255"

lemma negotiate_serves:
  assumes "k + 3 \<le> sv_maxHandshakeBytes env"
  shows "negotiate env (talk k (greeting_bytes @ rest) out accepted s) = (Inr (), talk (k + 3) rest (out @ [Write [5, 2]]) accepted s)"
proof -
  have "socks_read env 2 (talk k ([5, 1] @ [2] @ rest) out accepted s) = (Inr [5, 1], talk (k + 2) ([2] @ rest) out accepted s)"
    using assms by (intro socks_read_bytes) simp_all
  moreover have "socks_read env 1 (talk (k + 2) ([2] @ rest) out accepted s) = (Inr [2], talk (k + 2 + 1) rest out accepted s)"
    using assms by (intro socks_read_bytes) simp_all
  ultimately show ?thesis
    by (simp add: negotiate_def greeting_bytes_def bind_op_def demand_def return_op_def emit_def)
qed

lemma credentials_serve:
  assumes "encodable u" "encodable p" "k + length u + length p + 3 \<le> sv_maxHandshakeBytes env"
  shows "read_credentials env (talk k (credential_bytes u p @ rest) out accepted s)
     = (Inr (u, p), talk (k + length u + length p + 3) rest out accepted s)"
proof -
  define bu bp where "bu = utf8_bytes u" and "bp = utf8_bytes p"
  have l: "length bu = length u" "length bp = length p"
    using assms(1,2) utf8_length unfolding encodable_def bu_def bp_def by blast+
  have n: "unat (of_nat (length bu) :: byte) = length bu" "unat (of_nat (length bp) :: byte) = length bp"
    using assms(1,2) l unfolding encodable_def by (auto intro: small_byte)
  then have nz: "(of_nat (length bu) :: byte) \<noteq> 0" using assms(1) l unfolding encodable_def by (metis length_0_conv unsigned_0)
  have "socks_read env 2 (talk k ([1, of_nat (length bu)] @ bu @ [of_nat (length bp)] @ bp @ rest) out accepted s)
      = (Inr [1, of_nat (length bu)], talk (k + 2) (bu @ [of_nat (length bp)] @ bp @ rest) out accepted s)"
    using assms by (intro socks_read_bytes) simp_all
  moreover have "socks_read env (length bu) (talk (k + 2) (bu @ [of_nat (length bp)] @ bp @ rest) out accepted s)
      = (Inr bu, talk (k + 2 + length bu) ([of_nat (length bp)] @ bp @ rest) out accepted s)"
    using assms l by (intro socks_read_bytes) simp_all
  moreover have "socks_read env 1 (talk (k + 2 + length bu) ([of_nat (length bp)] @ bp @ rest) out accepted s)
      = (Inr [of_nat (length bp)], talk (k + 2 + length bu + 1) (bp @ rest) out accepted s)"
    using assms l by (intro socks_read_bytes) simp_all
  moreover have "socks_read env (length bp) (talk (k + 2 + length bu + 1) (bp @ rest) out accepted s)
      = (Inr bp, talk (k + 2 + length bu + 1 + length bp) rest out accepted s)"
    using assms l by (intro socks_read_bytes) simp_all
  moreover have "utf8_text (sv_decode env) bu = u" "utf8_text (sv_decode env) bp = p"
    using assms(1,2) utf8_round_trip unfolding encodable_def bu_def bp_def by blast+
  ultimately show ?thesis
    unfolding read_credentials_def credential_bytes_def bu_def [symmetric] bp_def [symmetric]
    using n nz l by (simp add: bind_op_def demand_def return_op_def add.commute add.left_commute)
qed

lemma port_read:
  assumes "0 \<le> p" "p \<le> 65535"
  shows "length (group_bytes (nat p)) = 2" "int (readUInt16BE (group_bytes (nat p)) 0) = p" "port_bytes p = Inr (group_bytes (nat p))"
proof -
  have "nat p div 256 < 256" "nat p mod 256 < 256" using assms by (simp_all add: less_mult_imp_div_less)
  then show "int (readUInt16BE (group_bytes (nat p)) 0) = p"
    using assms by (simp add: readUInt16BE_def group_bytes_def small_byte)
qed (use assms in \<open>simp_all add: group_bytes_def port_bytes_def\<close>)

lemma request_serves:
  assumes "speakable (tt_host t)" "socksAddress t = Inr address" "0 \<le> tt_port t" "tt_port t \<le> 65535"
    and "k + length address + 5 \<le> sv_maxHandshakeBytes env"
  shows "read_request env (talk k (request_bytes address (tt_port t) @ rest) out accepted s)
     = (Inr (1, t), talk (k + length address + 5) rest out True s)"
proof -
  let ?p = "group_bytes (nat (tt_port t))"
  note port = port_read [OF assms(3,4)]
  have bound: "(k + 4) + length address \<le> sv_maxHandshakeBytes env + 1" using assms(5) by simp
  have host: "address \<noteq> []" "readTarget env (hd address) (talk (k + 4) (tl address @ ?p @ rest) out True s)
      = (Inr (tt_host t), talk (k + 4 + length address - 1) (?p @ rest) out True s)"
    using readTarget_speakable [OF assms(1,2) bound] by blast+
  then obtain a as where a: "address = a # as" by (cases address) auto
  have "socks_read env 4 (talk k ([5, 1, 0, a] @ as @ ?p @ rest) out accepted s)
      = (Inr [5, 1, 0, a], talk (k + 4) (as @ ?p @ rest) out accepted s)"
    using assms by (intro socks_read_bytes) simp_all
  moreover have "socks_read env 2 (talk (k + length as + 4) (?p @ rest) out True s) = (Inr ?p, talk (k + length as + 4 + 2) rest out True s)"
    using assms a port(1) by (intro socks_read_bytes) simp_all
  ultimately show ?thesis
    using host unfolding read_request_def request_bytes_def a
    by (simp add: bind_op_def demand_def return_op_def accept_request_def port(2) add.commute add.left_commute)
qed

definition client_bytes :: "string \<Rightarrow> string \<Rightarrow> byte list \<Rightarrow> int \<Rightarrow> byte list" where
  "client_bytes u p address port = greeting_bytes @ credential_bytes u p @ request_bytes address port"

lemma server_serves:
  assumes "encodable u" "encodable p" "speakable (tt_host t)" "socksAddress t = Inr address" "0 \<le> tt_port t" "tt_port t \<le> 65535"
    and "length u + length p + length address + 11 \<le> sv_maxHandshakeBytes env"
    and "sv_authenticate env u p s = (Inr route, s1)" "assertProtocolAllowed route Socks5 = Inr ()" "sv_budget env = Inr ()"
    and "sv_validateTarget env (tt_host t) (tt_port t) = Inr validation"
    and "sv_establish env route t validation s1 = ((Some remainder, Inr ()), s2)"
  shows "handle env (client_bytes u p address (tt_port t)) s
     = (Inr TunnelEstablished,
        [Write [5, 2], Write [1, 0], Write (reply_bytes 0)] @ (if remainder = [] then [] else [Write remainder]), s2)"
proof -
  let ?n = "3 + length u + length p + 3"
  have 1: "negotiate env (talk 0 (greeting_bytes @ credential_bytes u p @ request_bytes address (tt_port t)) [] False s)
      = (Inr (), talk (0 + 3) (credential_bytes u p @ request_bytes address (tt_port t)) ([] @ [Write [5, 2]]) False s)"
    using assms(7) by (intro negotiate_serves) simp
  have 2: "read_credentials env (talk 3 (credential_bytes u p @ request_bytes address (tt_port t)) [Write [5, 2]] False s)
      = (Inr (u, p), talk ?n (request_bytes address (tt_port t)) [Write [5, 2]] False s)"
    using assms(7) by (intro credentials_serve [OF assms(1,2)]) simp
  have 3: "read_request env (talk ?n (request_bytes address (tt_port t) @ []) [Write [5, 2], Write [1, 0]] False s1)
      = (Inr (1, t), talk (?n + length address + 5) [] [Write [5, 2], Write [1, 0]] True s1)"
    using assms(7) by (intro request_serves [OF assms(3-6)]) simp
  show ?thesis
    using 1 2 3 assms(8-12)
    by (simp add: handle_def client_bytes_def serve_def bind_op_def login_def pure_result_def establish_phase_def return_op_def)
qed

lemma client_proceeds:
  assumes "encodable u" "encodable p" "socksAddress t = Inr address" "0 \<le> tt_port t" "tt_port t \<le> 65535"
    and "ep_username up = u" "ep_password up = p"
  shows "openSocks5Tunnel t up \<lparr>sc_written = [], sc_input = [5, 2] @ [1, 0] @ reply_bytes 0 @ remainder\<rparr>
     = (Inr (), \<lparr>sc_written = client_bytes u p address (tt_port t), sc_input = remainder\<rparr>)"
proof -
  have l: "length (utf8_bytes x) = length x" if "encodable x" for x using that utf8_length unfolding encodable_def by blast
  then have ok: "utf8_bytes x \<noteq> [] \<and> length (utf8_bytes x) \<le> 255" if "encodable x" for x
    using that unfolding encodable_def by (metis length_0_conv that)
  show ?thesis
    using ok [OF assms(1)] ok [OF assms(2)] assms(3,6,7) port_read(3) [OF assms(4,5)]
    by (simp add: openSocks5Tunnel_def bind_op_def check_def return_op_def send_bytes_def readExactly_def lift_def reply_length_def
        reply_bytes_def client_bytes_def greeting_bytes_def credential_bytes_def request_bytes_def Let_def)
qed

lemma speakable_address:
  assumes "speakable (tt_host t)"
  obtains address where "socksAddress t = Inr address" "length address \<le> 257"
  using assms unfolding speakable_def
proof (elim disjE exE conjE)
  assume host: "isIP (tt_host t) \<noteq> 4" "isIP (tt_host t) \<noteq> 6" "ascii (tt_host t)" "tt_host t \<noteq> []" "length (tt_host t) \<le> 255"
  then have "length (utf8_bytes (tt_host t)) = length (tt_host t)" by (intro utf8_length)
  moreover from this host(4) have "utf8_bytes (tt_host t) \<noteq> []" by auto
  ultimately show thesis
    using host that [of "[3, of_nat (length (tt_host t))] @ utf8_bytes (tt_host t)"] by (simp add: socksAddress_def)
next
  fix a b c d :: nat
  assume "a < 256" "b < 256" "c < 256" "d < 256" "tt_host t = quad a b c d"
  from socksAddress_quad [OF this] show thesis by (rule that) simp
next
  fix bytes :: "byte list"
  assume "length bytes = 16" "tt_host t = ipv6Text bytes"
  from socksAddress_ipv6 [OF this] this(1) show thesis using that by simp
qed

subsection \<open>The handshake is bounded\<close>

definition cut :: "'s SocksEnv \<Rightarrow> 's socks_state \<Rightarrow> 's socks_state" where
  "cut env x = x\<lparr>ss_reader := (ss_reader x)\<lparr>hr_input :=
     take (sv_maxHandshakeBytes env - hr_consumed (ss_reader x)) (hr_input (ss_reader x))\<rparr>\<rparr>"

definition forget_reader :: "'s socks_state \<Rightarrow> 's socks_state" where
  "forget_reader x = x\<lparr>ss_reader := \<lparr>hr_consumed = 0, hr_input = []\<rparr>\<rparr>"

definition reads_bounded :: "'s SocksEnv \<Rightarrow> ('s, 'a) socks_op \<Rightarrow> bool" where
  "reads_bounded env m \<longleftrightarrow>
     (\<forall>x. case m x of
        (Inr a, x') \<Rightarrow> m (cut env x) = (Inr a, cut env x')
      | (Inl e, x') \<Rightarrow> (\<exists>y. m (cut env x) = (Inl e, y) \<and> forget_reader y = forget_reader x'))"

lemma bounded_read: "reads_bounded env (socks_read env n)"
  unfolding reads_bounded_def
proof
  fix x :: "'a socks_state"
  let ?m = "sv_maxHandshakeBytes env" and ?k = "hr_consumed (ss_reader x)" and ?i = "hr_input (ss_reader x)"
  have within: "take n (take (?m - ?k) ?i) = take n ?i \<and> drop n (take (?m - ?k) ?i) = take (?m - (?k + n)) (drop n ?i)
      \<and> (length (take (?m - ?k) ?i) < n \<longleftrightarrow> length ?i < n)" if "\<not> ?m < ?k + n"
    using that by (auto simp: min_def drop_take)
  show "case socks_read env n x of
        (Inr a, x') \<Rightarrow> socks_read env n (cut env x) = (Inr a, cut env x')
      | (Inl e, x') \<Rightarrow> (\<exists>y. socks_read env n (cut env x) = (Inl e, y) \<and> forget_reader y = forget_reader x')"
  proof (cases "?m < ?k + n")
    case True
    then show ?thesis by (simp add: socks_read_def hr_read_def cut_def forget_reader_def)
  next
    case False
    then show ?thesis using within
      by (cases "length ?i < n") (simp_all add: socks_read_def hr_read_def cut_def forget_reader_def Let_def del: length_take take_take)
  qed
qed

lemma bounded_Inr: "reads_bounded env m \<Longrightarrow> m x = (Inr a, x') \<Longrightarrow> m (cut env x) = (Inr a, cut env x')"
  unfolding reads_bounded_def by (drule spec [of _ x]) simp

lemma bounded_Inl:
  assumes "reads_bounded env m" "m x = (Inl e, x')"
  obtains y where "m (cut env x) = (Inl e, y)" "forget_reader y = forget_reader x'"
  using assms(1) [unfolded reads_bounded_def, rule_format, of x] assms(2) by auto

lemma bounded_bind:
  assumes m: "reads_bounded env m" and f: "\<And>a. reads_bounded env (f a)"
  shows "reads_bounded env (bind_op m f)"
  unfolding reads_bounded_def
proof
  fix x
  obtain r x1 where r: "m x = (r, x1)" by (rule prod.exhaust)
  show "case bind_op m f x of
        (Inr a, x') \<Rightarrow> bind_op m f (cut env x) = (Inr a, cut env x')
      | (Inl e, x') \<Rightarrow> (\<exists>y. bind_op m f (cut env x) = (Inl e, y) \<and> forget_reader y = forget_reader x')"
  proof (cases r)
    case (Inl e)
    from r Inl have 1: "m x = (Inl e, x1)" by simp
    from bounded_Inl [OF m 1] obtain y where "m (cut env x) = (Inl e, y)" "forget_reader y = forget_reader x1" .
    then show ?thesis by (simp add: bind_op_def 1)
  next
    case (Inr a)
    from r Inr have 1: "m x = (Inr a, x1)" by simp
    have "bind_op m f x = f a x1" by (simp add: bind_op_def 1)
    moreover have "bind_op m f (cut env x) = f a (cut env x1)" by (simp add: bind_op_def bounded_Inr [OF m 1])
    moreover note f [of a, unfolded reads_bounded_def, THEN spec, of x1]
    ultimately show ?thesis by (simp only:)
  qed
qed

lemma bounded_silent: "(\<And>x. m (cut env x) = (case m x of (r, x') \<Rightarrow> (r, cut env x'))) \<Longrightarrow> reads_bounded env m"
  by (auto simp: reads_bounded_def forget_reader_def cut_def split: sum.splits prod.splits)

lemma bounded_steps:
  "reads_bounded env (return_op a)" "reads_bounded env (throw_op e)" "reads_bounded env (emit os)"
  "reads_bounded env (demand ok e)" "reads_bounded env (pure_result r)" "reads_bounded env accept_request"
  "reads_bounded env (login env given)" "reads_bounded env (establish_phase env route target validation)"
  by (rule bounded_silent; simp add: return_op_def throw_op_def emit_def demand_def pure_result_def accept_request_def login_def
        establish_phase_def cut_def split: sum.splits prod.splits)+

lemma bounded_serve: "reads_bounded env (serve env)"
  unfolding serve_def negotiate_def read_credentials_def read_request_def readTarget_def
  by (auto intro!: bounded_bind bounded_read bounded_steps split: prod.splits)

lemma handle_bounded: "handle env (take (sv_maxHandshakeBytes env) input) s = handle env input s"
proof -
  let ?x = "talk 0 input [] False s"
  have cut: "talk 0 (take (sv_maxHandshakeBytes env) input) [] False s = cut env ?x" by (simp add: cut_def)
  have same: "ss_output y = ss_output x \<and> ss_accepted y = ss_accepted x \<and> ss_service y = ss_service x"
    if "forget_reader y = forget_reader x" for x y :: "'a socks_state"
    using that by (cases x; cases y) (simp add: forget_reader_def)
  obtain r x' where r: "serve env ?x = (r, x')" by (rule prod.exhaust)
  show ?thesis
  proof (cases r)
    case (Inr a)
    then have "serve env (cut env ?x) = (Inr a, cut env x')" using bounded_Inr [OF bounded_serve] r by blast
    then show ?thesis by (simp add: handle_def cut r Inr) (simp add: cut_def)
  next
    case (Inl e)
    then obtain y where "serve env (cut env ?x) = (Inl e, y)" "forget_reader y = forget_reader x'"
      using bounded_Inl [OF bounded_serve, where x = ?x and env = env] r by blast
    then show ?thesis using same [of y x'] by (simp add: handle_def cut r Inl failure_output_def)
  qed
qed

subsection \<open>What reaches the route service\<close>

definition service_untouched :: "('s, 'a) socks_op \<Rightarrow> bool" where
  "service_untouched m \<longleftrightarrow> (\<forall>x. ss_service (snd (m x)) = ss_service x)"

lemma service_bind: "service_untouched m \<Longrightarrow> (\<And>a. service_untouched (f a)) \<Longrightarrow> service_untouched (bind_op m f)"
  unfolding service_untouched_def bind_op_def by (auto split: prod.splits sum.splits) (metis snd_conv)+

lemma service_steps:
  "service_untouched (return_op a)" "service_untouched (throw_op e)" "service_untouched (emit os)" "service_untouched (demand ok e)"
  "service_untouched (pure_result r)" "service_untouched accept_request" "service_untouched (socks_read env n)"
  by (simp_all add: service_untouched_def return_op_def throw_op_def emit_def demand_def pure_result_def accept_request_def socks_read_def
      split: prod.splits)

lemma service_phases: "service_untouched (negotiate env)" "service_untouched (read_credentials env)" "service_untouched (read_request env)"
  unfolding negotiate_def read_credentials_def read_request_def readTarget_def
  by (auto intro!: service_bind service_steps split: prod.splits)

lemma triple_service:
  "service_untouched m \<Longrightarrow> (\<And>e x. S (ss_service x) \<Longrightarrow> E e x) \<Longrightarrow> triple (\<lambda>x. S (ss_service x)) m (\<lambda>_ x. S (ss_service x)) E"
  unfolding triple_cases service_untouched_def by (auto split: prod.splits sum.splits) (metis snd_conv)+

lemma triple_pure: "(\<And>e x. S x \<Longrightarrow> E e x) \<Longrightarrow> triple S (pure_result r) (\<lambda>a x. S x \<and> r = Inr a) E"
  by (cases r) (simp_all add: triple_cases pure_result_def)

text \<open>The effects of a connection on the gateway behind it, which is in the state \<open>s\<close> before and \<open>s'\<close> after.\<close>

definition tunnel_allowed :: "'s SocksEnv \<Rightarrow> AuthenticatedRoute \<Rightarrow> TunnelTarget \<Rightarrow> LocalResolutionObservation \<Rightarrow> bool" where
  "tunnel_allowed env route t v \<longleftrightarrow>
     assertProtocolAllowed route Socks5 = Inr () \<and> sv_budget env = Inr () \<and> sv_validateTarget env (tt_host t) (tt_port t) = Inr v"

definition admitted :: "'s SocksEnv \<Rightarrow> 's \<Rightarrow> AuthenticatedRoute \<Rightarrow> 's \<Rightarrow> bool" where
  "admitted env s route s1 \<longleftrightarrow> (\<exists>u p. sv_authenticate env u p s = (Inr route, s1))"

definition gateway_effect :: "'s SocksEnv \<Rightarrow> 's \<Rightarrow> 's \<Rightarrow> bool" where
  "gateway_effect env s s' \<longleftrightarrow>
     s' = s
     \<or> (\<exists>u p e. sv_authenticate env u p s = (Inl e, s'))
     \<or> (\<exists>route s1. admitted env s route s1
          \<and> (s' = s1 \<or> (\<exists>t v out. tunnel_allowed env route t v \<and> sv_establish env route t v s1 = (out, s'))))"

definition established :: "'s SocksEnv \<Rightarrow> 's \<Rightarrow> 's \<Rightarrow> bool" where
  "established env s s' \<longleftrightarrow>
     (\<exists>route s1 t v out. admitted env s route s1 \<and> tunnel_allowed env route t v \<and> sv_establish env route t v s1 = ((out, Inr ()), s'))"

lemma triple_login:
  "triple (\<lambda>x. ss_service x = s) (login env given) (\<lambda>route x. admitted env s route (ss_service x)) (\<lambda>_ x. gateway_effect env s (ss_service x))"
  unfolding triple_cases login_def admitted_def gateway_effect_def
  by (auto split: prod.splits sum.splits)

lemma triple_establish:
  "triple (\<lambda>x. admitted env s route (ss_service x) \<and> tunnel_allowed env route t v) (establish_phase env route t v)
     (\<lambda>_ x. established env s (ss_service x)) (\<lambda>_ x. gateway_effect env s (ss_service x))"
proof (unfold triple_cases, intro allI impI)
  fix x :: "'a socks_state"
  assume x: "admitted env s route (ss_service x) \<and> tunnel_allowed env route t v"
  obtain out r s1 where r: "sv_establish env route t v (ss_service x) = ((out, r), s1)" by (metis surj_pair)
  have "gateway_effect env s s1" using x r unfolding gateway_effect_def by blast
  moreover have "r = Inr () \<Longrightarrow> established env s s1" using x r unfolding established_def by blast
  ultimately show "case establish_phase env route t v x of (Inr a, y) \<Rightarrow> established env s (ss_service y) | (Inl e, y) \<Rightarrow> gateway_effect env s (ss_service y)"
    by (cases r) (simp_all add: establish_phase_def r)
qed

lemma established_effect: "established env s s' \<Longrightarrow> gateway_effect env s s'"
  unfolding established_def gateway_effect_def by blast

lemma triple_tunnel:
  "triple (\<lambda>x. admitted env s route (ss_service x))
     (bind_op (pure_result (assertProtocolAllowed route Socks5)) (\<lambda>_.
      bind_op (pure_result (sv_budget env)) (\<lambda>_.
      bind_op (pure_result (sv_validateTarget env (tt_host t) (tt_port t))) (\<lambda>v.
      bind_op (establish_phase env route t v) (\<lambda>_. return_op TunnelEstablished)))))
     (\<lambda>r x. established env s (ss_service x)) (\<lambda>_ x. gateway_effect env s (ss_service x))"
proof (unfold triple_cases, intro allI impI)
  fix x :: "'a socks_state"
  assume x: "admitted env s route (ss_service x)"
  then have E: "gateway_effect env s (ss_service x)" unfolding gateway_effect_def by blast
  let ?m = "bind_op (pure_result (assertProtocolAllowed route Socks5)) (\<lambda>_.
      bind_op (pure_result (sv_budget env)) (\<lambda>_.
      bind_op (pure_result (sv_validateTarget env (tt_host t) (tt_port t))) (\<lambda>v.
      bind_op (establish_phase env route t v) (\<lambda>_. return_op TunnelEstablished))))"
  show "case ?m x of (Inr a, y) \<Rightarrow> established env s (ss_service y) | (Inl e, y) \<Rightarrow> gateway_effect env s (ss_service y)"
  proof (cases "\<exists>v. tunnel_allowed env route t v")
    case False
    then show ?thesis
      using E by (auto simp: tunnel_allowed_def bind_op_def pure_result_def split: sum.splits)
  next
    case True
    then obtain v where v: "tunnel_allowed env route t v" by blast
    obtain r y where r: "establish_phase env route t v x = (r, y)" by (rule prod.exhaust)
    have "?m x = (case r of Inl e \<Rightarrow> (Inl e, y) | Inr _ \<Rightarrow> (Inr TunnelEstablished, y))"
      using v r by (simp add: tunnel_allowed_def bind_op_def pure_result_def return_op_def split: sum.splits)
    then show ?thesis
      using triple_establish [of env s route t v, unfolded triple_cases, THEN spec, of x] x v r by (cases r) simp_all
  qed
qed

lemma triple_serve:
  "triple (\<lambda>x. ss_service x = s) (serve env)
     (\<lambda>r x. gateway_effect env s (ss_service x) \<and> (r = TunnelEstablished \<longrightarrow> established env s (ss_service x)))
     (\<lambda>_ x. gateway_effect env s (ss_service x))"
proof -
  let ?E = "\<lambda>_ x. gateway_effect env s (ss_service x)"
  have 1: "triple (\<lambda>x. ss_service x = s) (negotiate env) (\<lambda>_ x. ss_service x = s) ?E"
    and 2: "triple (\<lambda>x. ss_service x = s) (read_credentials env) (\<lambda>_ x. ss_service x = s) ?E"
    by (rule triple_service [where S = "\<lambda>t. t = s"]; simp add: service_phases gateway_effect_def)+
  have E: "admitted env s route s1 \<Longrightarrow> gateway_effect env s s1" for route s1 unfolding gateway_effect_def by blast
  have 3: "triple (\<lambda>x. admitted env s route (ss_service x)) (read_request env) (\<lambda>_ x. admitted env s route (ss_service x)) ?E" for route
    by (rule triple_service) (simp_all add: service_phases E)
  let ?Q = "\<lambda>r x. gateway_effect env s (ss_service x) \<and> (r = TunnelEstablished \<longrightarrow> established env s (ss_service x))"
  have refuse: "triple (\<lambda>x. admitted env s route (ss_service x))
      (bind_op (emit [Write (reply_bytes 7), EndSocket]) (\<lambda>_. return_op CommandRefused)) ?Q ?E" for route
    by (simp add: triple_cases bind_op_def emit_def return_op_def E)
  have 4: "triple (\<lambda>x. admitted env s route (ss_service x))
     (case given of (command, target) \<Rightarrow>
        if command \<noteq> 1 then bind_op (emit [Write (reply_bytes 7), EndSocket]) (\<lambda>_. return_op CommandRefused)
        else bind_op (pure_result (assertProtocolAllowed route Socks5)) (\<lambda>_.
             bind_op (pure_result (sv_budget env)) (\<lambda>_.
             bind_op (pure_result (sv_validateTarget env (tt_host target) (tt_port target))) (\<lambda>validation.
             bind_op (establish_phase env route target validation) (\<lambda>_. return_op TunnelEstablished))))) ?Q ?E" for route and given :: "byte \<times> TunnelTarget"
  proof (cases given)
    case (Pair command t)
    have "triple (\<lambda>x. admitted env s route (ss_service x))
       (bind_op (pure_result (assertProtocolAllowed route Socks5)) (\<lambda>_.
             bind_op (pure_result (sv_budget env)) (\<lambda>_.
             bind_op (pure_result (sv_validateTarget env (tt_host t) (tt_port t))) (\<lambda>validation.
             bind_op (establish_phase env route t validation) (\<lambda>_. return_op TunnelEstablished))))) ?Q ?E"
      by (rule triple_conseq [OF triple_tunnel]) (simp_all add: established_effect)
    then show ?thesis using refuse by (simp add: Pair)
  qed
  show ?thesis unfolding serve_def
    by (rule triple_bind [OF 1], rule triple_bind [OF 2], rule triple_bind [OF triple_login], rule triple_bind [OF 3], rule 4)
qed

lemma handle_effect:
  assumes "handle env input s = (r, outs, s')"
  shows "gateway_effect env s s'" and "r = Inr TunnelEstablished \<Longrightarrow> established env s s'"
  using triple_serve [of s env, unfolded triple_cases, THEN spec, of "talk 0 input [] False s"] assms
  by (auto simp: handle_def split: prod.splits sum.splits)

subsection \<open>Properties\<close>

text \<open>
  C19. The two ends of SOCKS5 in this program understand each other: with credentials and a target that the
  gateway's client can encode (a host name, an IPv4 address or the text of any IPv6 address), the bytes the client
  sends make the server log in with exactly these credentials, check and open exactly this target, and what the
  server answers takes the client through its negotiation, leaving it the first bytes of the tunnel.
\<close>

theorem socks5_client_meets_server:
  assumes "encodable (ep_username up)" "encodable (ep_password up)" "speakable (tt_host t)" "0 \<le> tt_port t" "tt_port t \<le> 65535"
    and "length (ep_username up) + length (ep_password up) + 268 \<le> sv_maxHandshakeBytes env"
    and "sv_authenticate env (ep_username up) (ep_password up) s = (Inr route, s1)"
    and "assertProtocolAllowed route Socks5 = Inr ()" "sv_budget env = Inr ()"
    and "sv_validateTarget env (tt_host t) (tt_port t) = Inr validation"
    and "sv_establish env route t validation s1 = ((Some remainder, Inr ()), s2)"
  shows "\<exists>sent outs. handle env sent s = (Inr TunnelEstablished, outs, s2)
     \<and> openSocks5Tunnel t up \<lparr>sc_written = [], sc_input = concat (map wire_bytes outs)\<rparr>
         = (Inr (), \<lparr>sc_written = sent, sc_input = remainder\<rparr>)"
proof -
  from speakable_address [OF assms(3)] obtain address where a: "socksAddress t = Inr address" "length address \<le> 257" .
  let ?sent = "client_bytes (ep_username up) (ep_password up) address (tt_port t)"
  let ?outs = "[Write [5, 2], Write [1, 0], Write (reply_bytes 0)] @ (if remainder = [] then [] else [Write remainder])"
  have "length (ep_username up) + length (ep_password up) + length address + 11 \<le> sv_maxHandshakeBytes env"
    using assms(6) a(2) by simp
  from server_serves [OF assms(1-3) a(1) assms(4,5) this assms(7-)]
  have "handle env ?sent s = (Inr TunnelEstablished, ?outs, s2)" .
  moreover have "concat (map wire_bytes ?outs) = [5, 2] @ [1, 0] @ reply_bytes 0 @ remainder" by simp
  ultimately show ?thesis
    using client_proceeds [OF assms(1,2) a(1) assms(4,5) refl refl, of remainder] by (metis (no_types, lifting))
qed

definition sample_socks_route :: AuthenticatedRoute where
  "sample_socks_route = sample_auth_route\<lparr>allowedProtocols := [Socks5]\<rparr>"

definition sample_socks_env :: "nat SocksEnv" where
  "sample_socks_env =
     \<lparr>sv_maxHandshakeBytes = 600, sv_decode = (\<lambda>_. []),
      sv_authenticate = (\<lambda>u p n. (if u = ''ann'' \<and> p = ''pw'' then Inr sample_socks_route else Inl no_credentials, n + 1)),
      sv_budget = Inr (), sv_validateTarget = (\<lambda>_ _. Inr \<lparr>lr_status = ResolutionAvailable, lr_addresses = []\<rparr>),
      sv_establish = (\<lambda>_ _ _ n. ((Some [7], Inr ()), n + 10))\<rparr>"

definition socks_upstream :: UpstreamEndpoint where
  "socks_upstream = (sample_upstream ''c'')\<lparr>ep_username := ''ann'', ep_password := ''pw''\<rparr>"

definition sample_target :: TunnelTarget where
  "sample_target = \<lparr>tt_host = quad 10 0 0 1, tt_port = 443\<rparr>"

theorem socks5_client_meets_server_witness:
  "\<exists>sent outs. handle sample_socks_env sent 0 = (Inr TunnelEstablished, outs, 11)
     \<and> openSocks5Tunnel sample_target socks_upstream \<lparr>sc_written = [], sc_input = concat (map wire_bytes outs)\<rparr>
         = (Inr (), \<lparr>sc_written = sent, sc_input = [7]\<rparr>)"
proof -
  have ok: "encodable (ep_username socks_upstream)" "encodable (ep_password socks_upstream)"
    by (simp_all add: socks_upstream_def sample_upstream_def encodable_def ascii_def)
  have "(10 :: nat) < 256" "(0 :: nat) < 256" "(1 :: nat) < 256" by simp_all
  then have "speakable (tt_host sample_target)" unfolding speakable_def sample_target_def TunnelTarget.simps by blast
  from socks5_client_meets_server [OF ok this, where env = sample_socks_env and s = 0 and route = sample_socks_route and ?s1.0 = 1
      and validation = "\<lparr>lr_status = ResolutionAvailable, lr_addresses = []\<rparr>" and remainder = "[7]" and ?s2.0 = 11]
  show ?thesis
    by (simp add: sample_socks_env_def socks_upstream_def sample_upstream_def sample_target_def sample_socks_route_def assertProtocolAllowed_def)
qed



text \<open>
  C21. The handshake of a SOCKS5 client is bounded: what the server does, answers and reports is determined by the
  first \<open>maxHandshakeBytes\<close> bytes the client sends.
\<close>

theorem socks5_handshake_bounded: "handle env (take (sv_maxHandshakeBytes env) input) s = handle env input s"
  by (rule handle_bounded)

end
