(* ===== verification/Health_Alerts.thy ===== *)
theory Health_Alerts
  imports Health_Store Usage_Periods Validation Resolution
begin

text \<open>
  \<open>src/alerting.ts\<close>: the coordinator that turns capability snapshots into alert and recovery events, the
  adapter that delivers them to webhooks, and the configuration of the destinations. SHA-256, HMAC, the
  serialisation of an event, the parsing of JSON and of URLs and the network are parameters. Evidence that needs
  attention and the outcome of a delivery are also logged; log lines are left out.
\<close>

subsection \<open>Configuration\<close>

record HealthAlertDestination =
  dest_id :: string
  dest_url :: string
  dest_secret :: string

record HealthAlertDestinationConfig =
  dc_version :: string
  dc_destinations :: "HealthAlertDestination list"

record ParsedUrl =
  url_username :: string
  url_password :: string
  url_protocol :: string
  url_hostname :: string
  url_text :: string

definition isLocalHost :: "string \<Rightarrow> bool" where
  "isLocalHost hostname \<longleftrightarrow> hostname = ''localhost'' \<or> hostname = ''127.0.0.1'' \<or> hostname = ''::1''"

definition id_start :: "char \<Rightarrow> bool" where
  "id_start c \<longleftrightarrow> (let n = (of_char c :: nat) in 48 \<le> n \<and> n \<le> 57 \<or> 65 \<le> n \<and> n \<le> 90 \<or> 97 \<le> n \<and> n \<le> 122)"

definition destination_id_ok :: "string \<Rightarrow> bool" where
  "destination_id_ok s \<longleftrightarrow>
     s \<noteq> [] \<and> id_start (hd s) \<and> length (tl s) \<le> 63 \<and> list_all (\<lambda>c. id_start c \<or> c \<in> set ''._-'') (tl s)"

text \<open>The fields of a JSON object, the last of several equal names counting.\<close>

definition json_field :: "(string \<times> json) list \<Rightarrow> string \<Rightarrow> json option" where
  "json_field fs name = js_get (js_of_entries fs) name"

definition parse_destination ::
    "(string \<Rightarrow> ParsedUrl option) \<Rightarrow> string set \<Rightarrow> json \<Rightarrow> HealthAlertDestination result" where
  "parse_destination newUrl ids entry =
     (case entry of
        JObject fs \<Rightarrow>
          (case json_field fs ''id'' of
             Some (JString i) \<Rightarrow>
               if \<not> destination_id_ok i then Inl (throw_error ''Each health alert destination requires a valid id'')
               else if i \<in> ids then Inl (throw_error (''Duplicate health alert destination id: '' @ i))
               else (case (json_field fs ''url'', json_field fs ''secret'') of
                       (Some (JString u), Some (JString secret)) \<Rightarrow>
                         if length secret < 16
                         then Inl (throw_error (''Health alert destination '' @ i @ '' requires a URL and a secret of at least 16 characters''))
                         else (case newUrl u of
                                 None \<Rightarrow> Inl (throw_error ''Invalid URL'')
                               | Some url \<Rightarrow>
                                   if url_username url \<noteq> [] \<or> url_password url \<noteq> []
                                      \<or> (url_protocol url \<noteq> ''https:'' \<and> \<not> isLocalHost (url_hostname url))
                                   then Inl (throw_error (''Health alert destination '' @ i @ '' must use HTTPS without URL credentials''))
                                   else Inr \<lparr>dest_id = i, dest_url = url_text url, dest_secret = secret\<rparr>)
                     | _ \<Rightarrow> Inl (throw_error (''Health alert destination '' @ i @ '' requires a URL and a secret of at least 16 characters'')))
           | _ \<Rightarrow> Inl (throw_error ''Each health alert destination requires a valid id''))
      | _ \<Rightarrow> Inl (throw_error ''Each health alert destination must be an object''))"

fun parse_destinations ::
    "(string \<Rightarrow> ParsedUrl option) \<Rightarrow> string set \<Rightarrow> json list \<Rightarrow> HealthAlertDestination list result" where
  "parse_destinations newUrl ids [] = Inr []"
| "parse_destinations newUrl ids (entry # entries) =
     (case parse_destination newUrl ids entry of
        Inl e \<Rightarrow> Inl e
      | Inr d \<Rightarrow> (case parse_destinations newUrl (insert (dest_id d) ids) entries of Inl e \<Rightarrow> Inl e | Inr ds \<Rightarrow> Inr (d # ds)))"

definition parseHealthAlertDestinationConfig ::
    "(string \<Rightarrow> json option) \<Rightarrow> (string \<Rightarrow> ParsedUrl option) \<Rightarrow> string option \<Rightarrow> HealthAlertDestinationConfig result" where
  "parseHealthAlertDestinationConfig parse newUrl raw =
     (case raw of
        None \<Rightarrow> Inr \<lparr>dc_version = ''unconfigured'', dc_destinations = []\<rparr>
      | Some text \<Rightarrow>
          if trim text = [] then Inr \<lparr>dc_version = ''unconfigured'', dc_destinations = []\<rparr>
          else (case parse text of
                  None \<Rightarrow> Inl (throw_error ''HEALTH_ALERT_DESTINATIONS_JSON must be valid JSON'')
                | Some (JObject fs) \<Rightarrow>
                    (case json_field fs ''version'' of
                       Some (JString v) \<Rightarrow>
                         if trim v = [] then Inl (throw_error ''Health alert destination configuration requires a non-empty version'')
                         else (case json_field fs ''destinations'' of
                                 Some (JArray entries) \<Rightarrow>
                                   if 20 < length entries
                                   then Inl (throw_error ''Health alert destination configuration requires at most 20 destinations'')
                                   else (case parse_destinations newUrl {} entries of
                                           Inl e \<Rightarrow> Inl e
                                         | Inr ds \<Rightarrow> Inr \<lparr>dc_version = v, dc_destinations = ds\<rparr>)
                               | _ \<Rightarrow> Inl (throw_error ''Health alert destination configuration requires at most 20 destinations''))
                     | _ \<Rightarrow> Inl (throw_error ''Health alert destination configuration requires a non-empty version''))
                | Some _ \<Rightarrow> Inl (throw_error ''HEALTH_ALERT_DESTINATIONS_JSON must be an object'')))"

subsection \<open>Delivery to webhooks\<close>

record WebhookRequest =
  wr_url :: string
  wr_eventId :: string
  wr_timestamp :: string
  wr_signature :: string
  wr_body :: string

datatype FetchOutcome = Responded int | TimedOut | RequestFailed

record 's WebhookAdapter =
  wh_destinations :: "(string, HealthAlertDestination) js_map"
  wh_maxAttempts :: int
  wh_initialBackoffMs :: int
  wh_batchSize :: "nat option"
  wh_stringify :: "HealthAlertEvent \<Rightarrow> string"
  wh_hmac :: "string \<Rightarrow> string \<Rightarrow> string"
  wh_fetch :: "WebhookRequest \<Rightarrow> 's \<Rightarrow> FetchOutcome \<times> 's"

definition new_adapter :: "HealthAlertDestination list \<Rightarrow> (string, HealthAlertDestination) js_map" where
  "new_adapter destinations = js_of_entries (map (\<lambda>d. (dest_id d, d)) destinations)"

definition response_ok :: "int \<Rightarrow> bool" where
  "response_ok status \<longleftrightarrow> 200 \<le> status \<and> status \<le> 299"

definition fetch_status :: "FetchOutcome \<Rightarrow> int option" where
  "fetch_status outcome = (case outcome of Responded st \<Rightarrow> Some st | _ \<Rightarrow> None)"

definition fetch_error :: "FetchOutcome \<Rightarrow> string option" where
  "fetch_error outcome =
     (case outcome of
        Responded st \<Rightarrow> if response_ok st then None else Some (''http_'' @ show_int st)
      | TimedOut \<Rightarrow> Some ''timeout''
      | RequestFailed \<Rightarrow> Some ''request_failed'')"

definition webhook_request :: "'s WebhookAdapter \<Rightarrow> HealthAlertDestination \<Rightarrow> timestamp \<Rightarrow> HealthAlertEvent \<Rightarrow> WebhookRequest" where
  "webhook_request a destination now event =
     (let body = wh_stringify a event; timestamp = toISOString now
      in \<lparr>wr_url = dest_url destination, wr_eventId = alert_id event, wr_timestamp = timestamp,
          wr_signature = ''sha256='' @ wh_hmac a (dest_secret destination) (timestamp @ ''.'' @ body), wr_body = body\<rparr>)"

definition or_keep :: "'a option \<Rightarrow> 'a option \<Rightarrow> 'a option" where
  "or_keep new old = (case new of None \<Rightarrow> old | Some x \<Rightarrow> Some x)"

definition delivered :: "HealthAlertDelivery \<Rightarrow> timestamp \<Rightarrow> int option \<Rightarrow> HealthAlertDelivery" where
  "delivered d now st =
     d\<lparr>delivery_status := DeliveryDelivered, attemptCount := attemptCount d + 1, lastAttemptAt := Some now,
       deliveredAt := Some now, responseStatus := or_keep st (responseStatus d)\<rparr>"

definition retried :: "'s WebhookAdapter \<Rightarrow> HealthAlertDelivery \<Rightarrow> timestamp \<Rightarrow> int option \<Rightarrow> string \<Rightarrow> HealthAlertDelivery" where
  "retried a d now st error =
     (let attemptCount = attemptCount d + 1; exhausted = wh_maxAttempts a \<le> attemptCount;
          backoffMs = wh_initialBackoffMs a * 2 ^ nat (max 0 (attemptCount - 1))
      in d\<lparr>delivery_status := (if exhausted then DeliveryFailed else DeliveryPending), attemptCount := attemptCount,
           lastAttemptAt := Some now, nextAttemptAt := now + backoffMs, responseStatus := or_keep st (responseStatus d),
           delivery_error := Some error\<rparr>)"

text \<open>What the adapter sends is collected with its outcome.\<close>

record 's webhook_state =
  ws_store :: StoreState
  ws_network :: 's
  ws_sent :: "(string \<times> FetchOutcome) list"

definition deliver :: "'s WebhookAdapter \<Rightarrow> timestamp \<Rightarrow> 's webhook_state \<Rightarrow> HealthAlertDelivery \<Rightarrow> 's webhook_state" where
  "deliver a now x d =
     (case js_get (wh_destinations a) (destinationId d) of
        None \<Rightarrow>
          x\<lparr>ws_store := saveHealthAlertDelivery
              (d\<lparr>delivery_status := DeliveryFailed, attemptCount := attemptCount d + 1, lastAttemptAt := Some now,
                 delivery_error := Some ''destination_not_configured''\<rparr>) (ws_store x)\<rparr>
      | Some destination \<Rightarrow>
          (case wh_fetch a (webhook_request a destination now (delivery_event d)) (ws_network x) of
             (outcome, network) \<Rightarrow>
               x\<lparr>ws_network := network,
                 ws_sent := ws_sent x @ [(deliveryKey (alertId d) (destinationId d), outcome)],
                 ws_store := saveHealthAlertDelivery
                   (case fetch_error outcome of
                      None \<Rightarrow> delivered d now (fetch_status outcome)
                    | Some error \<Rightarrow> retried a d now (fetch_status outcome) error) (ws_store x)\<rparr>))"

definition flush :: "'s WebhookAdapter \<Rightarrow> timestamp \<Rightarrow> 's webhook_state \<Rightarrow> 's webhook_state" where
  "flush a now x =
     foldl (deliver a now) x
       (pendingHealthAlertDeliveries now (case wh_batchSize a of None \<Rightarrow> 100 | Some n \<Rightarrow> n) (ws_store x))"

subsection \<open>The coordinator\<close>

record HealthAlertCoordinatorOptions =
  al_configurationVersion :: string
  al_destinationIds :: "string list"
  al_degradedDelayMs :: int

definition eventSeverity :: "CapabilityStatus \<Rightarrow> HealthAlertSeverity" where
  "eventSeverity status = (case status of Unavailable \<Rightarrow> SevCritical | CapDegraded \<Rightarrow> SevWarning | Operational \<Rightarrow> SevInfo)"

fun capability_name :: "CapabilityName \<Rightarrow> string" where
  "capability_name AllTraffic = ''all_traffic''"
| "capability_name ManagedSessions = ''managed_sessions''"
| "capability_name StatelessTraffic = ''stateless_traffic''"
| "capability_name HealthVerification = ''health_verification''"

fun kind_name :: "HealthAlertKind \<Rightarrow> string" where
  "kind_name Alert = ''alert''"
| "kind_name Recovery = ''recovery''"

fun status_name :: "CapabilityStatus \<Rightarrow> string" where
  "status_name Operational = ''operational''"
| "status_name CapDegraded = ''degraded''"
| "status_name Unavailable = ''unavailable''"

definition dedupe_key :: "CapabilityName \<Rightarrow> HealthAlertKind \<Rightarrow> CapabilityStatus \<Rightarrow> timestamp \<Rightarrow> string" where
  "dedupe_key capability kind status episodeStartedAt =
     capability_name capability @ '':'' @ kind_name kind @ '':'' @ status_name status @ '':'' @ toISOString episodeStartedAt"

definition alert_event ::
    "(string \<Rightarrow> string) \<Rightarrow> HealthAlertCoordinatorOptions \<Rightarrow> CapabilityHealthSnapshot \<Rightarrow> CapabilityName \<Rightarrow> CapabilityStatus
     \<Rightarrow> HealthAlertKind \<Rightarrow> timestamp \<Rightarrow> CapabilityStatus option \<Rightarrow> HealthAlertEvent" where
  "alert_event hash opts snapshot capability status kind episodeStartedAt previous =
     (let key = dedupe_key capability kind status episodeStartedAt
      in \<lparr>alert_id = hash key, dedupeKey = key, alert_kind = kind, alert_capability = capability, alert_status = status,
          previousStatus = previous, alert_severity = eventSeverity status, alert_createdAt = generatedAt snapshot,
          snapshotId = snap_id snapshot, configurationVersion = al_configurationVersion opts,
          alert_geographies = filter (\<lambda>g. gh_status g \<noteq> Operational) (geographies snapshot)\<rparr>)"

definition emit_alert ::
    "(string \<Rightarrow> string) \<Rightarrow> HealthAlertCoordinatorOptions \<Rightarrow> CapabilityHealthSnapshot \<Rightarrow> CapabilityName \<Rightarrow> CapabilityStatus
     \<Rightarrow> HealthAlertKind \<Rightarrow> timestamp \<Rightarrow> CapabilityStatus option \<Rightarrow> bool store_op" where
  "emit_alert hash opts snapshot capability status kind episodeStartedAt previous =
     createHealthAlertEvent (alert_event hash opts snapshot capability status kind episodeStartedAt previous) (al_destinationIds opts)"

text \<open>The three writes of an evaluation: the episode boundary, the event, the final state.\<close>

definition observe ::
    "CapabilityHealthSnapshot \<Rightarrow> CapabilityName \<Rightarrow> CapabilityStatus \<Rightarrow> StoreState \<Rightarrow> HealthAlertState" where
  "observe snapshot capability status s =
     (let prior = getHealthAlertState capability s
      in \<lparr>as_capability = capability, observedStatus = status,
          observedSince = (case prior of
             Some p \<Rightarrow> if observedStatus p \<noteq> status then generatedAt snapshot else observedSince p
           | None \<Rightarrow> generatedAt snapshot),
          alertedStatus = Option.bind prior alertedStatus, alertedAt = Option.bind prior alertedAt,
          as_updatedAt = generatedAt snapshot\<rparr>)"

definition delaySatisfied :: "HealthAlertCoordinatorOptions \<Rightarrow> CapabilityHealthSnapshot \<Rightarrow> HealthAlertState \<Rightarrow> bool" where
  "delaySatisfied opts snapshot st \<longleftrightarrow>
     observedStatus st = Unavailable \<or> al_degradedDelayMs opts \<le> generatedAt snapshot - observedSince st"

definition notify ::
    "(string \<Rightarrow> string) \<Rightarrow> HealthAlertCoordinatorOptions \<Rightarrow> CapabilityHealthSnapshot \<Rightarrow> HealthAlertState \<Rightarrow> HealthAlertState store_op" where
  "notify hash opts snapshot st s =
     (let capability = as_capability st; status = observedStatus st
      in if status = Operational \<and> alertedStatus st \<noteq> None
         then (case emit_alert hash opts snapshot capability status Recovery (observedSince st) (alertedStatus st) s of
                 (Inl e, s) \<Rightarrow> (Inl e, s)
               | (Inr _, s) \<Rightarrow> (Inr (st\<lparr>alertedStatus := None, alertedAt := None\<rparr>), s))
         else if status \<noteq> Operational \<and> delaySatisfied opts snapshot st \<and> alertedStatus st \<noteq> Some status
         then (case emit_alert hash opts snapshot capability status Alert (observedSince st) None s of
                 (Inl e, s) \<Rightarrow> (Inl e, s)
               | (Inr _, s) \<Rightarrow> (Inr (st\<lparr>alertedStatus := Some status, alertedAt := Some (generatedAt snapshot)\<rparr>), s))
         else (Inr st, s))"

definition evaluateCapability ::
    "(string \<Rightarrow> string) \<Rightarrow> HealthAlertCoordinatorOptions \<Rightarrow> CapabilityHealthSnapshot \<Rightarrow> CapabilityName \<Rightarrow> CapabilityStatus \<Rightarrow> unit store_op" where
  "evaluateCapability hash opts snapshot capability status s =
     (let st = observe snapshot capability status s
      in case notify hash opts snapshot st (saveHealthAlertState st s) of
           (Inl e, s) \<Rightarrow> (Inl e, s)
         | (Inr st, s) \<Rightarrow> (Inr (), saveHealthAlertState st s))"

fun evaluate_all ::
    "(string \<Rightarrow> string) \<Rightarrow> HealthAlertCoordinatorOptions \<Rightarrow> CapabilityHealthSnapshot \<Rightarrow> CapabilityHealth list \<Rightarrow> unit store_op" where
  "evaluate_all hash opts snapshot [] s = (Inr (), s)"
| "evaluate_all hash opts snapshot (c # cs) s =
     (case evaluateCapability hash opts snapshot (ch_capability c) (ch_status c) s of
        (Inl e, s) \<Rightarrow> (Inl e, s)
      | (Inr _, s) \<Rightarrow> evaluate_all hash opts snapshot cs s)"

definition evaluate ::
    "(string \<Rightarrow> string) \<Rightarrow> HealthAlertCoordinatorOptions \<Rightarrow> (StoreState \<Rightarrow> StoreState) \<Rightarrow> CapabilityHealthSnapshot \<Rightarrow> unit store_op" where
  "evaluate hash opts notifier snapshot s =
     (case evaluate_all hash opts snapshot (snap_capabilities snapshot) s of
        (Inl e, s) \<Rightarrow> (Inl e, s)
      | (Inr _, s) \<Rightarrow> (Inr (), notifier s))"

text \<open>An evaluation may stop with the process, before or after any of its writes.\<close>

datatype progress = NotStarted | Observed | Emitted | Completed

definition evaluate_until ::
    "progress \<Rightarrow> (string \<Rightarrow> string) \<Rightarrow> HealthAlertCoordinatorOptions \<Rightarrow> CapabilityHealthSnapshot \<Rightarrow> CapabilityName \<Rightarrow> CapabilityStatus
     \<Rightarrow> StoreState \<Rightarrow> StoreState" where
  "evaluate_until p hash opts snapshot capability status s =
     (let st = observe snapshot capability status s; s1 = saveHealthAlertState st s
      in case p of
           NotStarted \<Rightarrow> s
         | Observed \<Rightarrow> s1
         | Emitted \<Rightarrow> snd (notify hash opts snapshot st s1)
         | Completed \<Rightarrow> snd (evaluateCapability hash opts snapshot capability status s))"

subsection \<open>Every alert is backed by its event\<close>

lemma colon_free: "CHR '':'' \<notin> set (capability_name c)" "CHR '':'' \<notin> set (kind_name k)" "CHR '':'' \<notin> set (status_name st)"
  by ((cases c; simp), (cases k; simp), (cases st; simp))

lemma name_inj:
  "capability_name c = capability_name c' \<Longrightarrow> c = c'" "kind_name k = kind_name k' \<Longrightarrow> k = k'" "status_name st = status_name st' \<Longrightarrow> st = st'"
  by ((cases c; cases c'; simp), (cases k; cases k'; simp), (cases st; cases st'; simp))

lemma split_first: "x \<notin> set a \<Longrightarrow> x \<notin> set b \<Longrightarrow> a @ x # r = b @ x # t \<Longrightarrow> a = b \<and> r = t"
proof (induction a arbitrary: b)
  case Nil
  then show ?case by (cases b) auto
next
  case (Cons y a)
  then show ?case by (cases b) auto
qed

lemma dedupe_key_inj:
  assumes "dedupe_key c k st t = dedupe_key c' k' st' t'"
  shows "c = c' \<and> k = k' \<and> st = st'"
proof -
  from assms have "capability_name c @ CHR '':'' # kind_name k @ CHR '':'' # status_name st @ CHR '':'' # toISOString t
      = capability_name c' @ CHR '':'' # kind_name k' @ CHR '':'' # status_name st' @ CHR '':'' # toISOString t'"
    by (simp add: dedupe_key_def)
  then show ?thesis using split_first [OF colon_free(1) colon_free(1)] split_first [OF colon_free(2) colon_free(2)]
    split_first [OF colon_free(3) colon_free(3)] name_inj by metis
qed

definition has_alert :: "StoreState \<Rightarrow> CapabilityName \<Rightarrow> HealthAlertKind \<Rightarrow> CapabilityStatus \<Rightarrow> bool" where
  "has_alert s c k st \<longleftrightarrow>
     (\<exists>i e. js_get (st_healthAlertEvents s) i = Some e \<and> alert_capability e = c \<and> alert_kind e = k \<and> alert_status e = st)"

definition events_ok :: "(string \<Rightarrow> string) \<Rightarrow> StoreState \<Rightarrow> bool" where
  "events_ok hash s \<longleftrightarrow>
     (\<forall>i e. js_get (st_healthAlertEvents s) i = Some e \<longrightarrow>
        alert_id e = i \<and> i = hash (dedupeKey e) \<and> js_get (st_healthAlertEventIdsByDedupeKey s) (dedupeKey e) = Some i
        \<and> (\<exists>t. dedupeKey e = dedupe_key (alert_capability e) (alert_kind e) (alert_status e) t))
     \<and> (\<forall>d i. js_get (st_healthAlertEventIdsByDedupeKey s) d = Some i \<longrightarrow>
        (\<exists>e. js_get (st_healthAlertEvents s) i = Some e \<and> dedupeKey e = d))"

definition states_ok :: "StoreState \<Rightarrow> bool" where
  "states_ok s \<longleftrightarrow>
     (\<forall>c x st. js_get (st_healthAlertStates s) c = Some x \<longrightarrow> alertedStatus x = Some st \<longrightarrow> st \<noteq> Operational \<and> has_alert s c Alert st)"

definition alerting_ok :: "(string \<Rightarrow> string) \<Rightarrow> StoreState \<Rightarrow> bool" where
  "alerting_ok hash s \<longleftrightarrow> events_ok hash s \<and> states_ok s"

lemma events_okD:
  assumes "events_ok hash s" "js_get (st_healthAlertEvents s) i = Some e"
  shows "alert_id e = i" "i = hash (dedupeKey e)" "js_get (st_healthAlertEventIdsByDedupeKey s) (dedupeKey e) = Some i"
    "\<exists>t. dedupeKey e = dedupe_key (alert_capability e) (alert_kind e) (alert_status e) t"
  using assms unfolding events_ok_def by blast+

lemma events_ok_indexed:
  assumes "events_ok hash s" "js_get (st_healthAlertEventIdsByDedupeKey s) d = Some i"
  obtains e where "js_get (st_healthAlertEvents s) i = Some e" "dedupeKey e = d"
  using assms unfolding events_ok_def by blast

text \<open>What creating an event does to a store that is in order.\<close>

definition with_event :: "HealthAlertEvent \<Rightarrow> string list \<Rightarrow> StoreState \<Rightarrow> StoreState" where
  "with_event e ds s =
     s\<lparr>st_healthAlertEvents := js_set (st_healthAlertEvents s) (alert_id e) e,
       st_healthAlertEventIdsByDedupeKey := js_set (st_healthAlertEventIdsByDedupeKey s) (dedupeKey e) (alert_id e),
       st_healthAlertDeliveries := foldl (addDelivery e) (st_healthAlertDeliveries s) ds\<rparr>"

lemma create_new:
  "\<not> js_has (st_healthAlertEventIdsByDedupeKey s) (dedupeKey e) \<Longrightarrow> createHealthAlertEvent e ds s = (Inr True, with_event e ds s)"
  by (simp add: createHealthAlertEvent_def with_event_def js_has_def Let_def)

lemma create_again:
  assumes "events_ok hash s" "js_has (st_healthAlertEventIdsByDedupeKey s) (dedupeKey e)" "alert_id e = hash (dedupeKey e)"
  obtains e' where "alert_id e' = alert_id e" "js_get (st_healthAlertEvents s) (alert_id e) = Some e'" "dedupeKey e' = dedupeKey e"
    and "createHealthAlertEvent e ds s = (Inr False, s\<lparr>st_healthAlertDeliveries := foldl (addDelivery e') (st_healthAlertDeliveries s) ds\<rparr>)"
proof -
  from assms(2) obtain i where i: "js_get (st_healthAlertEventIdsByDedupeKey s) (dedupeKey e) = Some i" by (auto simp: js_has_def)
  then obtain e' where e': "js_get (st_healthAlertEvents s) i = Some e'" "dedupeKey e' = dedupeKey e"
    using events_ok_indexed [OF assms(1)] by blast
  then have "alert_id e' = i" "i = hash (dedupeKey e)" using events_okD [OF assms(1) e'(1)] by simp_all
  then show thesis using that [of e'] i e' assms(3) by (simp add: createHealthAlertEvent_def Let_def)
qed

lemma new_event_fresh:
  assumes "inj hash" "events_ok hash s" "\<not> js_has (st_healthAlertEventIdsByDedupeKey s) (dedupeKey e)" "alert_id e = hash (dedupeKey e)"
  shows "js_get (st_healthAlertEvents s) (alert_id e) = None"
proof (rule ccontr)
  assume "js_get (st_healthAlertEvents s) (alert_id e) \<noteq> None"
  then obtain e' where "js_get (st_healthAlertEvents s) (alert_id e) = Some e'" by auto
  then have "alert_id e = hash (dedupeKey e')" "js_has (st_healthAlertEventIdsByDedupeKey s) (dedupeKey e')"
    using events_okD(2,3) [OF assms(2)] unfolding js_has_def by auto
  then show False using assms(1,3,4) by (metis injD)
qed

definition alert_wf :: "(string \<Rightarrow> string) \<Rightarrow> HealthAlertEvent \<Rightarrow> bool" where
  "alert_wf hash e \<longleftrightarrow> alert_id e = hash (dedupeKey e)
     \<and> (\<exists>t. dedupeKey e = dedupe_key (alert_capability e) (alert_kind e) (alert_status e) t)"

lemma alert_event_wf: "alert_wf hash (alert_event hash opts snapshot c st k t previous)"
  by (auto simp: alert_wf_def alert_event_def Let_def)

lemma created_events_ok:
  assumes "inj hash" "events_ok hash s" "alert_wf hash e"
  shows "events_ok hash (snd (createHealthAlertEvent e ds s))"
proof (cases "js_has (st_healthAlertEventIdsByDedupeKey s) (dedupeKey e)")
  case True
  from create_again [OF assms(2) this] assms(3) obtain e'
    where "createHealthAlertEvent e ds s = (Inr False, s\<lparr>st_healthAlertDeliveries := foldl (addDelivery e') (st_healthAlertDeliveries s) ds\<rparr>)"
    unfolding alert_wf_def by metis
  then show ?thesis using assms(2) by (simp add: events_ok_def)
next
  case False
  have fresh: "js_get (st_healthAlertEvents s) (alert_id e) = None"
    using new_event_fresh [OF assms(1,2) False] assms(3) unfolding alert_wf_def by blast
  have old: "js_get (st_healthAlertEvents s) i = Some x \<Longrightarrow> i \<noteq> alert_id e \<and> dedupeKey x \<noteq> dedupeKey e" for i x
    using events_okD(3) [OF assms(2), of i x] False fresh by (auto simp: js_has_def)
  show ?thesis unfolding create_new [OF False] snd_conv events_ok_def
  proof (intro conjI allI impI)
    fix i x
    assume x: "js_get (st_healthAlertEvents (with_event e ds s)) i = Some x"
    then have "i = alert_id e \<and> x = e \<or> i \<noteq> alert_id e \<and> js_get (st_healthAlertEvents s) i = Some x"
      by (auto simp: with_event_def split: if_splits)
    then show "alert_id x = i" "i = hash (dedupeKey x)" "js_get (st_healthAlertEventIdsByDedupeKey (with_event e ds s)) (dedupeKey x) = Some i"
        "\<exists>t. dedupeKey x = dedupe_key (alert_capability x) (alert_kind x) (alert_status x) t"
      using events_okD [OF assms(2), of i x] old [of i x] assms(3) by (auto simp: alert_wf_def with_event_def)
  next
    fix d i
    assume "js_get (st_healthAlertEventIdsByDedupeKey (with_event e ds s)) d = Some i"
    then have "d = dedupeKey e \<and> i = alert_id e \<or> js_get (st_healthAlertEventIdsByDedupeKey s) d = Some i"
      by (auto simp: with_event_def split: if_splits)
    then show "\<exists>x. js_get (st_healthAlertEvents (with_event e ds s)) i = Some x \<and> dedupeKey x = d"
    proof
      assume "js_get (st_healthAlertEventIdsByDedupeKey s) d = Some i"
      from events_ok_indexed [OF assms(2) this] obtain x where x: "js_get (st_healthAlertEvents s) i = Some x" "dedupeKey x = d" .
      with old show ?thesis by (intro exI [of _ x]) (simp add: with_event_def)
    qed (simp add: with_event_def)
  qed
qed

lemma created_keeps:
  assumes "inj hash" "events_ok hash s" "alert_wf hash e" "has_alert s c k st"
  shows "has_alert (snd (createHealthAlertEvent e ds s)) c k st"
proof (cases "js_has (st_healthAlertEventIdsByDedupeKey s) (dedupeKey e)")
  case True
  from create_again [OF assms(2) this] assms(3) obtain e'
    where "createHealthAlertEvent e ds s = (Inr False, s\<lparr>st_healthAlertDeliveries := foldl (addDelivery e') (st_healthAlertDeliveries s) ds\<rparr>)"
    unfolding alert_wf_def by metis
  then show ?thesis using assms(4) by (simp add: has_alert_def)
next
  case False
  have fresh: "js_get (st_healthAlertEvents s) (alert_id e) = None"
    using new_event_fresh [OF assms(1,2) False] assms(3) unfolding alert_wf_def by blast
  from assms(4) obtain i x where x: "js_get (st_healthAlertEvents s) i = Some x" "alert_capability x = c" "alert_kind x = k" "alert_status x = st"
    unfolding has_alert_def by blast
  with fresh have "i \<noteq> alert_id e" by auto
  with x show ?thesis unfolding has_alert_def create_new [OF False] with_event_def snd_conv
    by (intro exI [of _ i], intro exI [of _ x]) simp
qed

lemma created_has:
  assumes "events_ok hash s" "alert_wf hash e"
  shows "has_alert (snd (createHealthAlertEvent e ds s)) (alert_capability e) (alert_kind e) (alert_status e)"
proof (cases "js_has (st_healthAlertEventIdsByDedupeKey s) (dedupeKey e)")
  case True
  from create_again [OF assms(1) this] assms(2) obtain e'
    where e': "js_get (st_healthAlertEvents s) (alert_id e) = Some e'" "dedupeKey e' = dedupeKey e"
      and s': "createHealthAlertEvent e ds s = (Inr False, s\<lparr>st_healthAlertDeliveries := foldl (addDelivery e') (st_healthAlertDeliveries s) ds\<rparr>)"
    unfolding alert_wf_def by metis
  from events_okD(4) [OF assms(1) e'(1)] obtain t where "dedupeKey e' = dedupe_key (alert_capability e') (alert_kind e') (alert_status e') t" ..
  moreover from assms(2) obtain t' where "dedupeKey e = dedupe_key (alert_capability e) (alert_kind e) (alert_status e) t'"
    unfolding alert_wf_def by blast
  ultimately have "alert_capability e' = alert_capability e \<and> alert_kind e' = alert_kind e \<and> alert_status e' = alert_status e"
    using e'(2) dedupe_key_inj by metis
  then show ?thesis using e'(1) s' by (auto simp: has_alert_def)
next
  case False
  then show ?thesis by (auto simp: create_new has_alert_def with_event_def)
qed

lemma created_states: "st_healthAlertStates (snd (createHealthAlertEvent e ds s)) = st_healthAlertStates s"
  by (auto simp: createHealthAlertEvent_def Let_def split: option.splits)

lemma created_returns:
  assumes "events_ok hash s" "alert_wf hash e"
  shows "fst (createHealthAlertEvent e ds s) = Inr (\<not> js_has (st_healthAlertEventIdsByDedupeKey s) (dedupeKey e))"
proof (cases "js_has (st_healthAlertEventIdsByDedupeKey s) (dedupeKey e)")
  case True
  from create_again [OF assms(1) this] assms(2) show ?thesis unfolding alert_wf_def by (metis True fst_conv)
qed (simp add: create_new)

lemma created_count:
  assumes "events_ok hash s" "alert_wf hash e"
  shows "length (st_healthAlertEvents (snd (createHealthAlertEvent e ds s)))
      \<le> length (st_healthAlertEvents s) + (if js_has (st_healthAlertEventIdsByDedupeKey s) (dedupeKey e) then 0 else 1)"
    and "js_has (st_healthAlertEventIdsByDedupeKey (snd (createHealthAlertEvent e ds s))) d
      \<longleftrightarrow> d = dedupeKey e \<or> js_has (st_healthAlertEventIdsByDedupeKey s) d"
proof -
  have set: "length (js_set m i x) \<le> Suc (length m)" for m :: "(string, HealthAlertEvent) js_map" and i x
    by (induction m) (auto simp: js_set_def)
  let ?s' = "snd (createHealthAlertEvent e ds s)" and ?has = "js_has (st_healthAlertEventIdsByDedupeKey s) (dedupeKey e)"
  have "length (st_healthAlertEvents ?s') \<le> length (st_healthAlertEvents s) + (if ?has then 0 else 1)
      \<and> (js_has (st_healthAlertEventIdsByDedupeKey ?s') d \<longleftrightarrow> d = dedupeKey e \<or> js_has (st_healthAlertEventIdsByDedupeKey s) d)"
  proof (cases ?has)
    case True
    from create_again [OF assms(1) this] assms(2) obtain e'
      where "createHealthAlertEvent e ds s = (Inr False, s\<lparr>st_healthAlertDeliveries := foldl (addDelivery e') (st_healthAlertDeliveries s) ds\<rparr>)"
      unfolding alert_wf_def by metis
    then show ?thesis using True by auto
  next
    case False
    then show ?thesis using set by (simp add: create_new with_event_def)
  qed
  then show "length (st_healthAlertEvents ?s') \<le> length (st_healthAlertEvents s) + (if ?has then 0 else 1)"
    "js_has (st_healthAlertEventIdsByDedupeKey ?s') d \<longleftrightarrow> d = dedupeKey e \<or> js_has (st_healthAlertEventIdsByDedupeKey s) d" by blast+
qed

lemma alert_event_fields:
  "alert_capability (alert_event hash opts snapshot c st k t previous) = c" "alert_kind (alert_event hash opts snapshot c st k t previous) = k"
  "alert_status (alert_event hash opts snapshot c st k t previous) = st" "dedupeKey (alert_event hash opts snapshot c st k t previous) = dedupe_key c k st t"
  by (simp_all add: alert_event_def Let_def)

text \<open>The three cases of an evaluation, by the kind of event that falls due.\<close>

definition due_kind :: "HealthAlertCoordinatorOptions \<Rightarrow> CapabilityHealthSnapshot \<Rightarrow> HealthAlertState \<Rightarrow> HealthAlertKind option" where
  "due_kind opts snapshot st =
     (if observedStatus st = Operational then if alertedStatus st = None then None else Some Recovery
      else if delaySatisfied opts snapshot st \<and> alertedStatus st \<noteq> Some (observedStatus st) then Some Alert else None)"

definition settled_state :: "HealthAlertCoordinatorOptions \<Rightarrow> CapabilityHealthSnapshot \<Rightarrow> HealthAlertState \<Rightarrow> HealthAlertState" where
  "settled_state opts snapshot st =
     (case due_kind opts snapshot st of
        None \<Rightarrow> st
      | Some Recovery \<Rightarrow> st\<lparr>alertedStatus := None, alertedAt := None\<rparr>
      | Some Alert \<Rightarrow> st\<lparr>alertedStatus := Some (observedStatus st), alertedAt := Some (generatedAt snapshot)\<rparr>)"

definition due_event ::
    "(string \<Rightarrow> string) \<Rightarrow> HealthAlertCoordinatorOptions \<Rightarrow> CapabilityHealthSnapshot \<Rightarrow> HealthAlertState \<Rightarrow> HealthAlertEvent option" where
  "due_event hash opts snapshot st =
     map_option (\<lambda>k. alert_event hash opts snapshot (as_capability st) (observedStatus st) k (observedSince st)
        (if k = Recovery then alertedStatus st else None)) (due_kind opts snapshot st)"

definition record_due :: "string list \<Rightarrow> HealthAlertEvent option \<Rightarrow> StoreState \<Rightarrow> StoreState" where
  "record_due ds e s = (case e of None \<Rightarrow> s | Some e \<Rightarrow> snd (createHealthAlertEvent e ds s))"

lemma notify_due:
  assumes "events_ok hash s"
  shows "notify hash opts snapshot st s
     = (Inr (settled_state opts snapshot st), record_due (al_destinationIds opts) (due_event hash opts snapshot st) s)"
proof (cases "due_kind opts snapshot st")
  case None
  then show ?thesis
    by (auto simp: notify_def due_kind_def settled_state_def due_event_def record_due_def Let_def split: if_splits)
next
  case (Some k)
  let ?e = "alert_event hash opts snapshot (as_capability st) (observedStatus st) k (observedSince st) (if k = Recovery then alertedStatus st else None)"
  obtain b s' where "createHealthAlertEvent ?e (al_destinationIds opts) s = (Inr b, s')"
    using created_returns [OF assms alert_event_wf] by (metis prod.collapse)
  then show ?thesis
    using Some by (auto simp: notify_def due_kind_def settled_state_def due_event_def record_due_def emit_alert_def Let_def split: if_splits)
qed

lemma record_due_ok:
  assumes "inj hash" "events_ok hash s"
  shows "events_ok hash (record_due ds (due_event hash opts snapshot st) s)"
    and "has_alert s c k x \<Longrightarrow> has_alert (record_due ds (due_event hash opts snapshot st) s) c k x"
    and "st_healthAlertStates (record_due ds (due_event hash opts snapshot st) s) = st_healthAlertStates s"
    and "due_kind opts snapshot st = Some k' \<Longrightarrow> has_alert (record_due ds (due_event hash opts snapshot st) s) (as_capability st) k' (observedStatus st)"
  using assms(2) created_events_ok [OF assms alert_event_wf] created_keeps [OF assms alert_event_wf] created_has [OF assms(2) alert_event_wf]
  by (auto simp: record_due_def due_event_def created_states alert_event_fields split: option.splits)

lemma save_state_ok:
  "events_ok hash (saveHealthAlertState st s) = events_ok hash s" "has_alert (saveHealthAlertState st s) = has_alert s"
  "js_get (st_healthAlertStates (saveHealthAlertState st s)) c = (if c = as_capability st then Some st else js_get (st_healthAlertStates s) c)"
  by (simp_all add: saveHealthAlertState_def events_ok_def has_alert_def fun_eq_iff)

text \<open>An evaluation, interrupted or not, keeps alerting in order.\<close>

lemma evaluation_stages:
  assumes "events_ok hash s" "st = observe snapshot c status s"
  shows "evaluate_until Emitted hash opts snapshot c status s
       = record_due (al_destinationIds opts) (due_event hash opts snapshot st) (saveHealthAlertState st s)" (is "?A = ?a")
    and "evaluateCapability hash opts snapshot c status s = (Inr (), saveHealthAlertState (settled_state opts snapshot st)
           (record_due (al_destinationIds opts) (due_event hash opts snapshot st) (saveHealthAlertState st s)))"
proof -
  have "events_ok hash (saveHealthAlertState st s)" using assms(1) by (simp add: save_state_ok)
  from notify_due [OF this] show "?A = ?a"
    and "evaluateCapability hash opts snapshot c status s = (Inr (), saveHealthAlertState (settled_state opts snapshot st)
           (record_due (al_destinationIds opts) (due_event hash opts snapshot st) (saveHealthAlertState st s)))"
    by (simp_all add: evaluate_until_def evaluateCapability_def assms(2) Let_def)
qed

lemma settled_fields: "as_capability (settled_state opts snapshot st) = as_capability st" "observedStatus (settled_state opts snapshot st) = observedStatus st"
  "observedSince (settled_state opts snapshot st) = observedSince st"
  by (simp_all add: settled_state_def split: option.splits HealthAlertKind.splits)

lemma observe_alerted: "alertedStatus (observe snapshot c status s) = Some x \<longleftrightarrow>
     (\<exists>p. js_get (st_healthAlertStates s) c = Some p \<and> alertedStatus p = Some x)"
  by (auto simp: observe_def getHealthAlertState_def Let_def split: option.splits bind_splits)

lemma observe_fields: "as_capability (observe snapshot c status s) = c" "observedStatus (observe snapshot c status s) = status"
  by (simp_all add: observe_def Let_def)

lemma observed_states_ok: "states_ok s \<Longrightarrow> states_ok (saveHealthAlertState (observe snapshot c status s) s)"
  unfolding states_ok_def save_state_ok observe_fields using observe_alerted [of snapshot c status s] by (metis option.inject)

lemma settled_states_ok:
  assumes "states_ok s" "st = observe snapshot c status s0" "js_get (st_healthAlertStates s) c = Some st"
    and "\<And>k. due_kind opts snapshot st = Some k \<Longrightarrow> has_alert s c k status"
  shows "states_ok (saveHealthAlertState (settled_state opts snapshot st) s)"
proof -
  have "x \<noteq> Operational \<and> has_alert s c Alert x" if "alertedStatus (settled_state opts snapshot st) = Some x" for x
  proof (cases "due_kind opts snapshot st")
    case None
    then show ?thesis using that assms(1,3) by (auto simp: settled_state_def states_ok_def)
  next
    case (Some k)
    moreover from this assms(2) have "k = Alert \<Longrightarrow> status \<noteq> Operational" by (auto simp: due_kind_def observe_fields split: if_splits)
    ultimately show ?thesis using that assms(2,4) by (cases k) (auto simp: settled_state_def observe_fields)
  qed
  then show ?thesis
    using assms(1) unfolding states_ok_def save_state_ok settled_fields by (auto simp: assms(2) observe_fields split: if_splits)
qed

lemma evaluate_until_ok:
  assumes "inj hash" "alerting_ok hash s"
  shows "alerting_ok hash (evaluate_until p hash opts snapshot c status s)"
proof -
  let ?st = "observe snapshot c status s" and ?ds = "al_destinationIds opts"
  let ?s1 = "saveHealthAlertState ?st s"
  let ?s2 = "record_due ?ds (due_event hash opts snapshot ?st) ?s1"
  have ev: "events_ok hash s" "events_ok hash ?s1" and st: "states_ok ?s1"
    using assms(2) observed_states_ok by (simp_all add: alerting_ok_def save_state_ok)
  note due = record_due_ok [OF assms(1) ev(2), where ds = ?ds and opts = opts and snapshot = snapshot and st = ?st]
  have s2: "events_ok hash ?s2" "states_ok ?s2" using due(1) st due(2) unfolding states_ok_def due(3) by blast+
  have "states_ok (saveHealthAlertState (settled_state opts snapshot ?st) ?s2)"
  proof (rule settled_states_ok [OF s2(2) refl])
    show "js_get (st_healthAlertStates ?s2) c = Some ?st" by (simp add: due(3) save_state_ok observe_fields)
    show "has_alert ?s2 c k status" if "due_kind opts snapshot ?st = Some k" for k using due(4) [OF that] by (simp add: observe_fields)
  qed
  then show ?thesis
    using assms(2) ev st s2 evaluation_stages [OF ev(1) refl, of opts snapshot c status]
    by (cases p) (simp_all add: alerting_ok_def save_state_ok, simp_all add: evaluate_until_def Let_def save_state_ok)
qed

text \<open>One evaluation of a capability, and how far it got.\<close>

record evaluation =
  ev_progress :: progress
  ev_options :: HealthAlertCoordinatorOptions
  ev_snapshot :: CapabilityHealthSnapshot
  ev_capability :: CapabilityName
  ev_status :: CapabilityStatus

definition run_evaluation :: "(string \<Rightarrow> string) \<Rightarrow> StoreState \<Rightarrow> evaluation \<Rightarrow> StoreState" where
  "run_evaluation hash s ev = evaluate_until (ev_progress ev) hash (ev_options ev) (ev_snapshot ev) (ev_capability ev) (ev_status ev) s"

lemma evaluations_ok: "inj hash \<Longrightarrow> alerting_ok hash s \<Longrightarrow> alerting_ok hash (foldl (run_evaluation hash) s evs)"
  by (induction evs arbitrary: s) (simp_all add: run_evaluation_def evaluate_until_ok)

lemma empty_alerting_ok: "alerting_ok hash empty_store"
  by (simp add: alerting_ok_def events_ok_def states_ok_def empty_store_def)

definition episode_key :: "CapabilityName \<Rightarrow> CapabilityStatus \<Rightarrow> timestamp \<Rightarrow> string" where
  "episode_key c status t = dedupe_key c (if status = Operational then Recovery else Alert) status t"

definition in_episode :: "CapabilityName \<Rightarrow> CapabilityStatus \<Rightarrow> timestamp \<Rightarrow> StoreState \<Rightarrow> bool" where
  "in_episode c status t s \<longleftrightarrow> (\<exists>x. js_get (st_healthAlertStates s) c = Some x \<and> observedStatus x = status \<and> observedSince x = t)"

definition episode_weight :: "CapabilityName \<Rightarrow> CapabilityStatus \<Rightarrow> timestamp \<Rightarrow> StoreState \<Rightarrow> nat" where
  "episode_weight c status t s =
     length (st_healthAlertEvents s) + (if js_has (st_healthAlertEventIdsByDedupeKey s) (episode_key c status t) then 0 else 1)"

lemma record_due_weight:
  assumes "events_ok hash s" "as_capability st = c" "observedStatus st = status" "observedSince st = t"
  shows "episode_weight c status t (record_due ds (due_event hash opts snapshot st) s) \<le> episode_weight c status t s"
proof (cases "due_kind opts snapshot st")
  case None
  then show ?thesis by (simp add: due_event_def record_due_def)
next
  case (Some k)
  then have k: "dedupe_key c k status t = episode_key c status t"
    using assms(3) by (auto simp: due_kind_def episode_key_def split: if_splits)
  let ?e = "alert_event hash opts snapshot c status k t (if k = Recovery then alertedStatus st else None)"
  have key: "dedupeKey ?e = episode_key c status t" using k by (simp add: alert_event_fields)
  show ?thesis
    using created_count [OF assms(1) alert_event_wf, of opts snapshot c status k t "if k = Recovery then alertedStatus st else None" ds]
    unfolding key by (simp add: episode_weight_def due_event_def record_due_def Some assms(2-4))
qed

lemma save_state_weight: "episode_weight c status t (saveHealthAlertState st s) = episode_weight c status t s"
  by (simp add: episode_weight_def saveHealthAlertState_def)

lemma evaluation_weight:
  assumes "inj hash" "events_ok hash s" "p \<noteq> NotStarted" "t = observedSince (observe snapshot c status s)"
  shows "in_episode c status t (evaluate_until p hash opts snapshot c status s)"
    and "episode_weight c status t (evaluate_until p hash opts snapshot c status s) \<le> episode_weight c status t s"
proof -
  let ?st = "observe snapshot c status s"
  have s1: "events_ok hash (saveHealthAlertState ?st s)" using assms(2) by (simp add: save_state_ok)
  note stages = evaluation_stages [OF assms(2) refl, of opts snapshot c status]
  note due = record_due_weight [OF s1 observe_fields assms(4) [symmetric], where ds = "al_destinationIds opts" and opts = opts and snapshot = snapshot]
  note states = record_due_ok(3) [OF assms(1) s1, where ds = "al_destinationIds opts" and opts = opts and snapshot = snapshot and st = ?st]
  show "in_episode c status t (evaluate_until p hash opts snapshot c status s)"
    using assms(3,4) stages states
    by (cases p) (simp_all add: in_episode_def save_state_ok settled_fields observe_fields, simp_all add: evaluate_until_def Let_def save_state_ok settled_fields observe_fields)
  show "episode_weight c status t (evaluate_until p hash opts snapshot c status s) \<le> episode_weight c status t s"
    using assms(3) stages due
    by (cases p) (simp_all add: save_state_weight, simp_all add: evaluate_until_def Let_def save_state_weight)
qed

lemma episode_observed: "in_episode c status t s \<Longrightarrow> observedSince (observe snapshot c status s) = t"
  by (auto simp: in_episode_def observe_def getHealthAlertState_def Let_def)

lemma episode_run_weight:
  assumes "inj hash" "alerting_ok hash s" "in_episode c status t s" "list_all (\<lambda>ev. ev_capability ev = c \<and> ev_status ev = status) evs"
  shows "length (st_healthAlertEvents (foldl (run_evaluation hash) s evs)) \<le> episode_weight c status t s"
  using assms(2-)
proof (induction evs arbitrary: s)
  case Nil
  then show ?case by (simp add: episode_weight_def)
next
  case (Cons ev evs)
  let ?s' = "run_evaluation hash s ev"
  have ev: "ev_capability ev = c" "ev_status ev = status" using Cons.prems by simp_all
  have ok: "alerting_ok hash ?s'" unfolding run_evaluation_def by (rule evaluate_until_ok [OF assms(1) Cons.prems(1)])
  have "in_episode c status t ?s' \<and> episode_weight c status t ?s' \<le> episode_weight c status t s"
  proof (cases "ev_progress ev = NotStarted")
    case True
    then show ?thesis using Cons.prems by (simp add: run_evaluation_def evaluate_until_def Let_def)
  next
    case False
    show ?thesis
      using evaluation_weight [OF assms(1) _ False, where s = s and t = t and snapshot = "ev_snapshot ev" and c = c and status = status and opts = "ev_options ev"] Cons.prems(1)
        episode_observed [OF Cons.prems(2)]
      unfolding run_evaluation_def ev alerting_ok_def by simp
  qed
  then show ?case using Cons.IH [OF ok] Cons.prems(3) by fastforce
qed

lemma episode_bound:
  assumes "inj hash" "alerting_ok hash s" "list_all (\<lambda>ev. ev_capability ev = c \<and> ev_status ev = status) evs"
  shows "length (st_healthAlertEvents (foldl (run_evaluation hash) s evs)) \<le> length (st_healthAlertEvents s) + 1"
  using assms(2-)
proof (induction evs arbitrary: s)
  case (Cons ev evs)
  let ?s' = "run_evaluation hash s ev"
  have ev: "ev_capability ev = c" "ev_status ev = status" using Cons.prems by simp_all
  have ok: "alerting_ok hash ?s'" unfolding run_evaluation_def by (rule evaluate_until_ok [OF assms(1) Cons.prems(1)])
  show ?case
  proof (cases "ev_progress ev = NotStarted")
    case True
    then have "?s' = s" by (simp add: run_evaluation_def evaluate_until_def Let_def)
    then show ?thesis using Cons by simp
  next
    case False
    let ?t = "observedSince (observe (ev_snapshot ev) c status s)"
    have s': "in_episode c status ?t ?s'" "episode_weight c status ?t ?s' \<le> episode_weight c status ?t s"
      using evaluation_weight [OF assms(1) _ False refl, where s = s and snapshot = "ev_snapshot ev" and c = c and status = status and opts = "ev_options ev"] Cons.prems(1)
      unfolding run_evaluation_def ev alerting_ok_def by simp_all
    have "length (st_healthAlertEvents (foldl (run_evaluation hash) ?s' evs)) \<le> episode_weight c status ?t ?s'"
      using episode_run_weight [OF assms(1) ok s'(1)] Cons.prems(2) by simp
    then show ?thesis using s'(2) by (simp add: episode_weight_def split: if_splits)
  qed
qed simp


definition sample_alert_options :: HealthAlertCoordinatorOptions where
  "sample_alert_options = \<lparr>al_configurationVersion = ''v'', al_destinationIds = [''hook''], al_degradedDelayMs = 1000\<rparr>"

definition sample_snapshot :: "timestamp \<Rightarrow> CapabilityHealthSnapshot" where
  "sample_snapshot t = \<lparr>snap_id = ''s'', generatedAt = t, snap_capabilities = [], snap_providers = [], geographies = []\<rparr>"

definition sample_evaluation :: "progress \<Rightarrow> timestamp \<Rightarrow> CapabilityStatus \<Rightarrow> evaluation" where
  "sample_evaluation p t status =
     \<lparr>ev_progress = p, ev_options = sample_alert_options, ev_snapshot = sample_snapshot t, ev_capability = AllTraffic, ev_status = status\<rparr>"


text \<open>
  C26. An episode raises at most one event, however often it is evaluated and wherever evaluations are interrupted: while
  the status of a capability stays the same, all its evaluations together add at most one event to the history.
\<close>

theorem one_event_per_episode:
  assumes "inj hash" "s = foldl (run_evaluation hash) empty_store earlier"
    and "list_all (\<lambda>ev. ev_capability ev = c \<and> ev_status ev = status) episode"
  shows "length (st_healthAlertEvents (foldl (run_evaluation hash) s episode)) \<le> length (st_healthAlertEvents s) + 1"
proof -
  have "alerting_ok hash s" unfolding assms(2) by (rule evaluations_ok [OF assms(1) empty_alerting_ok])
  from episode_bound [OF assms(1) this assms(3)] show ?thesis .
qed

theorem one_event_per_episode_witness:
  "length (st_healthAlertEvents (foldl (run_evaluation id) empty_store
      [sample_evaluation Emitted 3 Unavailable, sample_evaluation Completed 5 Unavailable, sample_evaluation Completed 7 Unavailable])) \<le> 1"
  using one_event_per_episode [OF inj_on_id, of empty_store "[]" AllTraffic Unavailable
      "[sample_evaluation Emitted 3 Unavailable, sample_evaluation Completed 5 Unavailable, sample_evaluation Completed 7 Unavailable]"]
  by (simp add: sample_evaluation_def empty_store_def)

text \<open>
  The retry that the episode boundary allows covers an episode that goes on. When the process stops between the event and
  the final state and the capability has recovered by the next evaluation, the alert was raised but no recovery is.
\<close>

lemma lost_recovery:
  "let s = foldl (run_evaluation id) empty_store [sample_evaluation Emitted 3 Unavailable, sample_evaluation Completed 5 Operational]
   in map (\<lambda>e. (alert_kind e, alert_status e)) (js_values (st_healthAlertEvents s)) = [(Alert, Unavailable)]
      \<and> map_option alertedStatus (getHealthAlertState AllTraffic s) = Some None"
  by code_simp

subsection \<open>Deliveries end\<close>

definition posts :: "string \<Rightarrow> (string \<times> FetchOutcome) list \<Rightarrow> FetchOutcome list" where
  "posts k sent = map snd (filter (\<lambda>p. fst p = k) sent)"

definition delivery_key :: "HealthAlertDelivery \<Rightarrow> string" where
  "delivery_key d = deliveryKey (alertId d) (destinationId d)"

definition failing :: "FetchOutcome \<Rightarrow> bool" where
  "failing outcome \<longleftrightarrow> fetch_error outcome \<noteq> None"

definition delivery_ok :: "int \<Rightarrow> FetchOutcome list \<Rightarrow> HealthAlertDelivery \<Rightarrow> bool" where
  "delivery_ok limit os d \<longleftrightarrow> int (length os) \<le> attemptCount d \<and> attemptCount d \<le> limit
     \<and> (case delivery_status d of
          DeliveryPending \<Rightarrow> attemptCount d < limit \<and> list_all failing os
        | DeliveryFailed \<Rightarrow> list_all failing os
        | DeliveryDelivered \<Rightarrow> os \<noteq> [] \<and> \<not> failing (last os) \<and> list_all failing (butlast os))"

definition entry_ok :: "int \<Rightarrow> string \<Rightarrow> FetchOutcome list \<Rightarrow> HealthAlertDelivery option \<Rightarrow> bool" where
  "entry_ok limit k os entry \<longleftrightarrow> (case entry of None \<Rightarrow> os = [] | Some d \<Rightarrow> delivery_key d = k \<and> delivery_ok limit os d)"

definition webhooks_ok :: "int \<Rightarrow> 's webhook_state \<Rightarrow> bool" where
  "webhooks_ok limit x \<longleftrightarrow> js_wf (st_healthAlertDeliveries (ws_store x))
     \<and> (\<forall>k. entry_ok limit k (posts k (ws_sent x)) (js_get (st_healthAlertDeliveries (ws_store x)) k))"

lemma webhooks_ok_cong:
  "st_healthAlertDeliveries (ws_store x) = st_healthAlertDeliveries (ws_store y) \<Longrightarrow> ws_sent x = ws_sent y \<Longrightarrow>
     webhooks_ok limit x \<longleftrightarrow> webhooks_ok limit y"
  by (simp only: webhooks_ok_def)

lemma webhooks_okD:
  assumes "webhooks_ok limit x"
  shows "js_get (st_healthAlertDeliveries (ws_store x)) k = None \<Longrightarrow> posts k (ws_sent x) = []"
    and "js_get (st_healthAlertDeliveries (ws_store x)) k = Some d \<Longrightarrow> delivery_key d = k"
    and "js_get (st_healthAlertDeliveries (ws_store x)) k = Some d \<Longrightarrow> delivery_ok limit (posts k (ws_sent x)) d"
  using assms [unfolded webhooks_ok_def, THEN conjunct2, THEN spec, of k] by (simp_all add: entry_ok_def)

text \<open>One delivery: only its own entry changes, and it stays in order.\<close>

lemma deliver_entry:
  assumes "js_get (st_healthAlertDeliveries (ws_store x)) (delivery_key d) = Some d" "delivery_status d = DeliveryPending"
    and "delivery_ok (wh_maxAttempts a) (posts (delivery_key d) (ws_sent x)) d"
  obtains d' where "st_healthAlertDeliveries (ws_store (deliver a now x d)) = js_set (st_healthAlertDeliveries (ws_store x)) (delivery_key d) d'"
    "delivery_key d' = delivery_key d" "delivery_ok (wh_maxAttempts a) (posts (delivery_key d) (ws_sent (deliver a now x d))) d'"
    "\<forall>k. k \<noteq> delivery_key d \<longrightarrow> posts k (ws_sent (deliver a now x d)) = posts k (ws_sent x)"
proof (cases "js_get (wh_destinations a) (destinationId d)")
  case None
  let ?d' = "d\<lparr>delivery_status := DeliveryFailed, attemptCount := attemptCount d + 1, lastAttemptAt := Some now,
      delivery_error := Some ''destination_not_configured''\<rparr>"
  show thesis
    using None assms(2,3) that [of ?d'] by (simp add: deliver_def saveHealthAlertDelivery_def delivery_key_def delivery_ok_def)
next
  case (Some destination)
  obtain outcome n where f: "wh_fetch a (webhook_request a destination now (delivery_event d)) (ws_network x) = (outcome, n)" by (rule prod.exhaust)
  let ?d' = "case fetch_error outcome of None \<Rightarrow> delivered d now (fetch_status outcome) | Some error \<Rightarrow> retried a d now (fetch_status outcome) error"
  have sent: "ws_sent (deliver a now x d) = ws_sent x @ [(delivery_key d, outcome)]"
    and st: "st_healthAlertDeliveries (ws_store (deliver a now x d)) = js_set (st_healthAlertDeliveries (ws_store x)) (delivery_key d) ?d'"
    using Some f by (auto simp: deliver_def saveHealthAlertDelivery_def delivery_key_def delivered_def retried_def Let_def split: option.splits)
  show thesis
  proof (rule that [OF st])
    show "delivery_key ?d' = delivery_key d" by (auto simp: delivery_key_def delivered_def retried_def Let_def split: option.splits)
    show "delivery_ok (wh_maxAttempts a) (posts (delivery_key d) (ws_sent (deliver a now x d))) ?d'"
      using assms(2,3) unfolding sent
      by (auto simp: posts_def delivery_ok_def delivered_def retried_def failing_def Let_def split: option.splits)
  qed (simp add: sent posts_def)
qed

lemma deliver_ok:
  assumes "webhooks_ok (wh_maxAttempts a) x" "js_get (st_healthAlertDeliveries (ws_store x)) (delivery_key d) = Some d"
    "delivery_status d = DeliveryPending"
  shows "webhooks_ok (wh_maxAttempts a) (deliver a now x d)"
    and "k \<noteq> delivery_key d \<Longrightarrow> js_get (st_healthAlertDeliveries (ws_store (deliver a now x d))) k = js_get (st_healthAlertDeliveries (ws_store x)) k"
proof -
  from deliver_entry [OF assms(2,3) webhooks_okD(3) [OF assms(1,2)], of now] obtain d'
    where d': "st_healthAlertDeliveries (ws_store (deliver a now x d)) = js_set (st_healthAlertDeliveries (ws_store x)) (delivery_key d) d'"
      "delivery_key d' = delivery_key d" "delivery_ok (wh_maxAttempts a) (posts (delivery_key d) (ws_sent (deliver a now x d))) d'"
      "\<forall>k. k \<noteq> delivery_key d \<longrightarrow> posts k (ws_sent (deliver a now x d)) = posts k (ws_sent x)" .
  show "k \<noteq> delivery_key d \<Longrightarrow> js_get (st_healthAlertDeliveries (ws_store (deliver a now x d))) k = js_get (st_healthAlertDeliveries (ws_store x)) k"
    by (simp add: d'(1))
  show "webhooks_ok (wh_maxAttempts a) (deliver a now x d)"
    unfolding webhooks_ok_def d'(1)
  proof (intro conjI allI)
    fix k
    have "entry_ok (wh_maxAttempts a) (delivery_key d) (posts (delivery_key d) (ws_sent (deliver a now x d))) (Some d')"
      using d'(2,3) by (simp add: entry_ok_def)
    then show "entry_ok (wh_maxAttempts a) k (posts k (ws_sent (deliver a now x d))) (js_get (js_set (st_healthAlertDeliveries (ws_store x)) (delivery_key d) d') k)"
      using assms(1) d'(4) unfolding webhooks_ok_def by (cases "k = delivery_key d") simp_all
  qed (use assms(1) in \<open>simp add: webhooks_ok_def\<close>)
qed

lemma deliver_all_ok:
  assumes "webhooks_ok (wh_maxAttempts a) x" "distinct (map delivery_key ds)"
    "list_all (\<lambda>d. js_get (st_healthAlertDeliveries (ws_store x)) (delivery_key d) = Some d \<and> delivery_status d = DeliveryPending) ds"
  shows "webhooks_ok (wh_maxAttempts a) (foldl (deliver a now) x ds)"
  using assms
proof (induction ds arbitrary: x)
  case (Cons d ds)
  have d: "js_get (st_healthAlertDeliveries (ws_store x)) (delivery_key d) = Some d" "delivery_status d = DeliveryPending" using Cons.prems(3) by simp_all
  note step = deliver_ok [OF Cons.prems(1) d]
  have "list_all (\<lambda>e. js_get (st_healthAlertDeliveries (ws_store (deliver a now x d))) (delivery_key e) = Some e \<and> delivery_status e = DeliveryPending) ds"
    unfolding list_all_iff
  proof
    fix e
    assume e: "e \<in> set ds"
    then have "delivery_key e \<noteq> delivery_key d" using Cons.prems(2) by (metis distinct.simps(2) image_eqI list.map(2) list.set_map)
    from step(2) [OF this] show "js_get (st_healthAlertDeliveries (ws_store (deliver a now x d))) (delivery_key e) = Some e
        \<and> delivery_status e = DeliveryPending"
      using Cons.prems(3) e by (simp add: list_all_iff)
  qed
  then show ?case using Cons.IH [OF step(1)] Cons.prems(2) by simp
qed simp

lemma pending_entries:
  fixes now :: timestamp and n :: nat
  assumes "webhooks_ok limit x"
  defines "ds \<equiv> pendingHealthAlertDeliveries now n (ws_store x)"
  shows "distinct (map delivery_key ds)"
    and "list_all (\<lambda>d. js_get (st_healthAlertDeliveries (ws_store x)) (delivery_key d) = Some d \<and> delivery_status d = DeliveryPending) ds"
proof -
  let ?m = "st_healthAlertDeliveries (ws_store x)"
  have wf: "js_wf ?m" using assms(1) by (simp add: webhooks_ok_def)
  have key: "delivery_key d = k" if "(k, d) \<in> set ?m" for k d
    using webhooks_okD(2) [OF assms(1)] that by (simp add: js_mem_get [OF wf])
  then have "map delivery_key (js_values ?m) = js_keys ?m" by (auto simp: js_values_def js_keys_def)
  then have d: "distinct (map delivery_key (js_values ?m))" using wf by (simp add: js_wf_def js_keys_def)
  let ?f = "filter (\<lambda>d. delivery_status d = DeliveryPending \<and> nextAttemptAt d \<le> now) (js_values ?m)"
  have "distinct (map delivery_key ?f)" by (rule distinct_map_filter [OF d])
  moreover have "mset (map delivery_key (js_sort (by_key nextAttemptAt) ?f)) = mset (map delivery_key ?f)" by simp
  ultimately have "distinct (map delivery_key (js_sort (by_key nextAttemptAt) ?f))" using mset_eq_imp_distinct_iff by blast
  then show "distinct (map delivery_key ds)"
    unfolding ds_def pendingHealthAlertDeliveries_def take_map [symmetric] by (rule distinct_take)
  show "list_all (\<lambda>d. js_get ?m (delivery_key d) = Some d \<and> delivery_status d = DeliveryPending) ds"
    unfolding list_all_iff
  proof
    fix d
    assume "d \<in> set ds"
    then have "d \<in> set (js_values ?m)" "delivery_status d = DeliveryPending"
      unfolding ds_def pendingHealthAlertDeliveries_def by (auto dest: in_set_takeD)
    then show "js_get ?m (delivery_key d) = Some d \<and> delivery_status d = DeliveryPending"
      using key by (auto simp: js_values_def js_mem_get [OF wf])
  qed
qed

lemma flush_ok: "webhooks_ok (wh_maxAttempts a) x \<Longrightarrow> webhooks_ok (wh_maxAttempts a) (flush a now x)"
  unfolding flush_def by (intro deliver_all_ok pending_entries)

lemma add_deliveries_ok:
  assumes "webhooks_ok limit x" "0 < limit"
  shows "webhooks_ok limit (x\<lparr>ws_store := s\<lparr>st_healthAlertDeliveries := foldl (addDelivery e) (st_healthAlertDeliveries (ws_store x)) ds\<rparr>\<rparr>)"
  using assms(1)
proof (induction ds arbitrary: x)
  case Nil
  then show ?case by (subst webhooks_ok_cong [of _ x]) simp_all
next
  case (Cons d ds)
  let ?m = "addDelivery e (st_healthAlertDeliveries (ws_store x)) d"
  have "js_wf ?m" using Cons.prems by (simp add: webhooks_ok_def addDelivery_def)
  moreover have "entry_ok limit k (posts k (ws_sent x)) (js_get ?m k)" for k
  proof -
    have "entry_ok limit k (posts k (ws_sent x)) (js_get (st_healthAlertDeliveries (ws_store x)) k)"
      using Cons.prems unfolding webhooks_ok_def by blast
    then show ?thesis
      using assms(2)
      by (cases "js_get (st_healthAlertDeliveries (ws_store x)) k")
        (auto simp: entry_ok_def addDelivery_get pendingDelivery_def delivery_key_def delivery_ok_def)
  qed
  ultimately have "webhooks_ok limit (x\<lparr>ws_store := (ws_store x)\<lparr>st_healthAlertDeliveries := ?m\<rparr>\<rparr>)" by (simp add: webhooks_ok_def)
  from Cons.IH [OF this] show ?case by simp
qed

lemma create_ok:
  assumes "webhooks_ok limit x" "0 < limit"
  shows "webhooks_ok limit (x\<lparr>ws_store := snd (createHealthAlertEvent e ds (ws_store x))\<rparr>)"
proof -
  have "snd (createHealthAlertEvent e ds (ws_store x)) = ws_store x \<or>
      (\<exists>s e'. snd (createHealthAlertEvent e ds (ws_store x)) = s\<lparr>st_healthAlertDeliveries := foldl (addDelivery e') (st_healthAlertDeliveries (ws_store x)) ds\<rparr>)"
    by (auto simp: createHealthAlertEvent_def Let_def split: option.splits)
  then show ?thesis
    using assms add_deliveries_ok [OF assms] by auto
qed

datatype webhook_step = Flush timestamp | Raise HealthAlertEvent "string list"

fun webhook_run :: "'s WebhookAdapter \<Rightarrow> 's webhook_state \<Rightarrow> webhook_step \<Rightarrow> 's webhook_state" where
  "webhook_run a x (Flush now) = flush a now x"
| "webhook_run a x (Raise e ds) = x\<lparr>ws_store := snd (createHealthAlertEvent e ds (ws_store x))\<rparr>"

lemma webhook_run_ok:
  "webhooks_ok (wh_maxAttempts a) x \<Longrightarrow> 0 < wh_maxAttempts a \<Longrightarrow> webhooks_ok (wh_maxAttempts a) (foldl (webhook_run a) x steps)"
proof (induction steps arbitrary: x)
  case (Cons step steps)
  have "webhooks_ok (wh_maxAttempts a) (webhook_run a x step)"
    using Cons.prems flush_ok create_ok by (cases step) auto
  then show ?case using Cons.IH Cons.prems(2) by simp
qed simp


definition flaky_adapter :: "nat WebhookAdapter" where
  "flaky_adapter = \<lparr>wh_destinations = new_adapter [\<lparr>dest_id = ''hook'', dest_url = ''u'', dest_secret = ''s''\<rparr>], wh_maxAttempts = 3,
     wh_initialBackoffMs = 10, wh_batchSize = None, wh_stringify = (\<lambda>_. []), wh_hmac = (\<lambda>_ _. []),
     wh_fetch = (\<lambda>_ n. (if n = 0 then TimedOut else Responded 200, n + 1))\<rparr>"

definition flaky_steps :: "webhook_step list" where
  "flaky_steps = [Raise sample_alert [''hook''], Flush 5, Flush 7, Flush 20, Flush 100]"


lemma flaky_run:
  "ws_sent (foldl (webhook_run flaky_adapter) \<lparr>ws_store = empty_store, ws_network = 0, ws_sent = []\<rparr> flaky_steps)
     = [(''e:hook'', TimedOut), (''e:hook'', Responded 200)]"
  by code_simp

subsection \<open>Accepted configurations\<close>

lemma parse_destination_ok:
  assumes "parse_destination newUrl ids entry = Inr d"
  shows "destination_id_ok (dest_id d) \<and> dest_id d \<notin> ids \<and> 16 \<le> length (dest_secret d)
    \<and> (\<exists>u url. newUrl u = Some url \<and> dest_url d = url_text url \<and> url_username url = [] \<and> url_password url = []
         \<and> (url_protocol url = ''https:'' \<or> isLocalHost (url_hostname url)))"
  using assms unfolding parse_destination_def by (auto split: json.splits option.splits if_splits) blast+

lemma parse_destinations_ok:
  "parse_destinations newUrl ids entries = Inr ds \<Longrightarrow>
     distinct (map dest_id ds) \<and> set (map dest_id ds) \<inter> ids = {} \<and> length ds = length entries
     \<and> list_all (\<lambda>d. destination_id_ok (dest_id d) \<and> 16 \<le> length (dest_secret d)) ds"
proof (induction newUrl ids entries arbitrary: ds rule: parse_destinations.induct)
  case (2 newUrl ids entry entries)
  from "2.prems" obtain d ds' where d: "parse_destination newUrl ids entry = Inr d"
    "parse_destinations newUrl (insert (dest_id d) ids) entries = Inr ds'" "ds = d # ds'"
    by (auto split: sum.splits)
  from "2.IH" [OF d(1,2)] parse_destination_ok [OF d(1)] show ?case by (auto simp: d(3))
qed simp

text \<open>
  An accepted configuration names at most 20 destinations, with different well-formed ids and secrets of at least 16
  characters.
\<close>

theorem destination_config_wf:
  assumes "parseHealthAlertDestinationConfig parse newUrl raw = Inr config"
  shows "length (dc_destinations config) \<le> 20 \<and> distinct (map dest_id (dc_destinations config))
    \<and> list_all (\<lambda>d. destination_id_ok (dest_id d) \<and> 16 \<le> length (dest_secret d)) (dc_destinations config)"
  using assms parse_destinations_ok [of newUrl "{}"] unfolding parseHealthAlertDestinationConfig_def
  by (fastforce split: option.splits json.splits sum.splits if_splits)

end
