(* ===== verification/Health_Aggregation.thy ===== *)
theory Health_Aggregation
  imports Health_Alerts Provider_Selection Target_Security
begin

text \<open>
  \<open>src/health-aggregator.ts\<close>: capability snapshots from the providers' own health, passive signals, capacity evidence
  and synthetic validation; the validator with its cooldown; the decoding of passive signals from OTLP logs; the HTTP
  interface. The probe, the providers' health checks, random identifiers, \<open>Date.parse\<close> and the decoding of a validation
  scope are parameters. A signal keeps its time as an instant; log lines are left out.
\<close>

subsection \<open>Synthetic validation with a cooldown\<close>

record SyntheticValidationScope =
  scope_capability :: "CapabilityName option"
  scope_country :: "string option"
  scope_city :: "string option"

text \<open>
  A call returns at once, waits for the probe in flight, or starts one. When the probe ends, its \<open>finally\<close> block runs
  before the result is assigned, so the two are separate steps.
\<close>

record CooldownSyntheticValidator =
  cv_inFlight :: "SyntheticValidationScope option"
  cv_unassigned :: "SyntheticValidationResult option"
  cv_lastCompletedAt :: timestamp
  cv_lastResult :: "SyntheticValidationResult option"

definition new_validator :: CooldownSyntheticValidator where
  "new_validator = \<lparr>cv_inFlight = None, cv_unassigned = None, cv_lastCompletedAt = 0, cv_lastResult = None\<rparr>"

datatype validation_call = JoinProbe | CachedResult SyntheticValidationResult | StartProbe

definition validate_call ::
    "int \<Rightarrow> timestamp \<Rightarrow> SyntheticValidationScope \<Rightarrow> CooldownSyntheticValidator \<Rightarrow> validation_call \<times> CooldownSyntheticValidator" where
  "validate_call cooldownMs now scope v =
     (if cv_inFlight v \<noteq> None then (JoinProbe, v)
      else case cv_lastResult v of
             Some r \<Rightarrow> if now - cv_lastCompletedAt v < cooldownMs then (CachedResult r, v) else (StartProbe, v\<lparr>cv_inFlight := Some scope\<rparr>)
           | None \<Rightarrow> (StartProbe, v\<lparr>cv_inFlight := Some scope\<rparr>))"

definition probe_finished :: "timestamp \<Rightarrow> SyntheticValidationResult result \<Rightarrow> CooldownSyntheticValidator \<Rightarrow> CooldownSyntheticValidator" where
  "probe_finished now r v =
     v\<lparr>cv_inFlight := None, cv_lastCompletedAt := now, cv_unassigned := (case r of Inl _ \<Rightarrow> None | Inr x \<Rightarrow> Some x)\<rparr>"

definition assign_result :: "CooldownSyntheticValidator \<Rightarrow> CooldownSyntheticValidator" where
  "assign_result v =
     (case cv_unassigned v of None \<Rightarrow> v | Some r \<Rightarrow> v\<lparr>cv_lastResult := Some r, cv_unassigned := None\<rparr>)"

subsection \<open>Status of a capability\<close>

record CapabilityHealthAggregatorOptions =
  passiveValidationMaxAgeMs :: int
  capacityPressureMaxAgeMs :: "int option"

text \<open>The latest of the given times; ISO strings sort as their instants.\<close>

definition latestTimestamp :: "timestamp option list \<Rightarrow> timestamp option" where
  "latestTimestamp values =
     (let ts = js_sort (by_key (\<lambda>t. t)) (List.map_filter id values) in if ts = [] then None else Some (last ts))"

definition effective_state :: "ProviderId set \<Rightarrow> ProviderHealth \<Rightarrow> HealthState" where
  "effective_state pressed h = (if ph_state h = Healthy \<and> ph_provider h \<in> pressed then Degraded else ph_state h)"

definition preferredClassStatus :: "(ProviderClass \<times> ProviderHealth) list \<Rightarrow> ProviderClass \<Rightarrow> ProviderId set \<Rightarrow> CapabilityStatus" where
  "preferredClassStatus providers preferredClass pressed =
     (let preferred = filter (\<lambda>p. fst p = preferredClass) providers
      in if list_ex (\<lambda>p. effective_state pressed (snd p) = Healthy) preferred then Operational
         else if list_ex (\<lambda>p. effective_state pressed (snd p) = Degraded) preferred then CapDegraded
         else if list_ex (\<lambda>p. effective_state pressed (snd p) \<noteq> Unhealthy) providers then CapDegraded
         else Unavailable)"

definition combinedTrafficStatus :: "CapabilityStatus \<Rightarrow> CapabilityStatus \<Rightarrow> CapabilityStatus" where
  "combinedTrafficStatus managed stateless =
     (if managed = Operational \<and> stateless = Operational then Operational
      else if managed = Unavailable \<and> stateless = Unavailable then Unavailable
      else CapDegraded)"

subsection \<open>Passive signals\<close>

definition isPassiveSignal :: "PassiveHealthSignal \<Rightarrow> bool" where
  "isPassiveSignal sig \<longleftrightarrow> sig_provider sig \<noteq> [] \<and> sig_provider sig \<noteq> ''unresolved'' \<and> sig_capability sig \<noteq> HealthVerification"

definition signal_key :: "PassiveHealthSignal \<Rightarrow> string" where
  "signal_key sig =
     sig_provider sig @ '':'' @ capability_name (sig_capability sig) @ '':'' @ case_option ''*'' id (sig_country sig) @ '':'' @
     case_option ''*'' id (sig_city sig)"

record CapabilityHealthAggregator =
  ag_passiveSignals :: "(string, PassiveHealthSignal) js_map"
  ag_lastSynthetic :: "SyntheticValidationResult option"

definition new_aggregator :: CapabilityHealthAggregator where
  "new_aggregator = \<lparr>ag_passiveSignals = [], ag_lastSynthetic = None\<rparr>"

definition recordPassiveSignal :: "PassiveHealthSignal \<Rightarrow> CapabilityHealthAggregator \<Rightarrow> unit result \<times> CapabilityHealthAggregator" where
  "recordPassiveSignal sig a =
     (if \<not> isPassiveSignal sig then (Inl (throw_error ''Invalid passive health signal''), a)
      else (Inr (),
            case js_get (ag_passiveSignals a) (signal_key sig) of
              None \<Rightarrow> a\<lparr>ag_passiveSignals := js_set (ag_passiveSignals a) (signal_key sig) sig\<rparr>
            | Some existing \<Rightarrow>
                if observedAt existing < observedAt sig
                then a\<lparr>ag_passiveSignals := js_set (ag_passiveSignals a) (signal_key sig) sig\<rparr> else a))"

text \<open>The attributes of an OTLP log record.\<close>

datatype otlp_scalar = OtlpString string | OtlpNumber real | OtlpBool bool

definition otlpScalar :: "json option \<Rightarrow> otlp_scalar option" where
  "otlpScalar v =
     (case v of
        Some (JObject fs) \<Rightarrow>
          (case json_field fs ''stringValue'' of
             Some (JString s) \<Rightarrow> Some (OtlpString s)
           | _ \<Rightarrow>
          (case json_field fs ''boolValue'' of
             Some (JBool b) \<Rightarrow> Some (OtlpBool b)
           | _ \<Rightarrow>
          (case json_field fs ''intValue'' of
             Some (JString s) \<Rightarrow> Some (OtlpString s)
           | Some (JNumber n) \<Rightarrow> Some (OtlpNumber n)
           | _ \<Rightarrow>
          (case json_field fs ''doubleValue'' of
             Some (JNumber n) \<Rightarrow> Some (OtlpNumber n)
           | _ \<Rightarrow> None))))
      | _ \<Rightarrow> None)"

text \<open>Nanoseconds to milliseconds; a time no \<open>Date\<close> can hold is dropped.\<close>

definition otlpTimestamp :: "json option \<Rightarrow> timestamp option" where
  "otlpTimestamp v =
     (case v of
        Some (JString s) \<Rightarrow>
          if s = [] \<or> \<not> list_all is_digit s then None
          else let ms = int (decimal_value s) div 1000000 in if 8640000000000000 < ms then None else Some ms
      | _ \<Rightarrow> None)"

definition json_array :: "json option \<Rightarrow> json list option" where
  "json_array v = (case v of Some (JArray xs) \<Rightarrow> Some xs | _ \<Rightarrow> None)"

definition add_attribute :: "(string, otlp_scalar) js_map \<Rightarrow> json \<Rightarrow> (string, otlp_scalar) js_map" where
  "add_attribute m attribute =
     (case attribute of
        JObject fs \<Rightarrow>
          (case (json_field fs ''key'', otlpScalar (json_field fs ''value'')) of
             (Some (JString k), Some v) \<Rightarrow> js_set m k v
           | _ \<Rightarrow> m)
      | _ \<Rightarrow> m)"

definition attributes_of :: "(string \<times> json) list \<Rightarrow> (string, otlp_scalar) js_map" where
  "attributes_of logRecord =
     (case json_array (json_field logRecord ''attributes'') of None \<Rightarrow> [] | Some xs \<Rightarrow> foldl add_attribute [] xs)"

definition scalar_string :: "otlp_scalar option \<Rightarrow> string option" where
  "scalar_string v = (case v of Some (OtlpString s) \<Rightarrow> Some s | _ \<Rightarrow> None)"

definition signal_capability :: "otlp_scalar option \<Rightarrow> CapabilityName option" where
  "signal_capability v =
     (if v = Some (OtlpString ''all_traffic'') then Some AllTraffic
      else if v = Some (OtlpString ''managed_sessions'') then Some ManagedSessions
      else if v = Some (OtlpString ''stateless_traffic'') then Some StatelessTraffic
      else None)"

definition signal_outcome :: "otlp_scalar option \<Rightarrow> SignalOutcome option" where
  "signal_outcome v =
     (if v = Some (OtlpString ''success'') then Some SignalSuccess
      else if v = Some (OtlpString ''failure'') then Some SignalFailure else None)"

definition PASSIVE_HEALTH :: otlp_scalar where
  "PASSIVE_HEALTH = OtlpString ''profound.proxy.passive_health''"

definition log_signal :: "(string \<Rightarrow> timestamp option) \<Rightarrow> (string \<times> json) list \<Rightarrow> PassiveHealthSignal option result" where
  "log_signal parseDate logRecord =
     (let attributes = attributes_of logRecord; get = js_get attributes
      in if otlpScalar (json_field logRecord ''body'') \<noteq> Some PASSIVE_HEALTH \<and> get ''event.name'' \<noteq> Some PASSIVE_HEALTH then Inr None
         else case (scalar_string (get ''proxy.provider''), signal_capability (get ''proxy.capability''), signal_outcome (get ''proxy.outcome''),
                    (case get ''proxy.observed_at'' of
                       None \<Rightarrow> otlpTimestamp (json_field logRecord ''timeUnixNano'')
                     | v \<Rightarrow> Option.bind (scalar_string v) parseDate)) of
                (Some provider, Some capability, Some outcome, Some instant) \<Rightarrow>
                  if provider = [] \<or> provider = ''unresolved'' then Inl (throw_error ''invalid_passive_signal'')
                  else Inr (Some \<lparr>sig_provider = provider, sig_capability = capability, sig_outcome = outcome, observedAt = instant,
                                 sig_country = scalar_string (get ''proxy.country''), sig_city = scalar_string (get ''proxy.city'')\<rparr>)
              | _ \<Rightarrow> Inl (throw_error ''invalid_passive_signal''))"

fun log_signals :: "(string \<Rightarrow> timestamp option) \<Rightarrow> json list \<Rightarrow> PassiveHealthSignal list result" where
  "log_signals parseDate [] = Inr []"
| "log_signals parseDate (r # rs) =
     (case r of
        JObject fs \<Rightarrow>
          (case log_signal parseDate fs of
             Inl e \<Rightarrow> Inl e
           | Inr sig \<Rightarrow> (case log_signals parseDate rs of Inl e \<Rightarrow> Inl e | Inr sigs \<Rightarrow> Inr (case_option [] (\<lambda>x. [x]) sig @ sigs)))
      | _ \<Rightarrow> log_signals parseDate rs)"

definition log_records :: "json \<Rightarrow> json list" where
  "log_records scopeLog =
     (case scopeLog of
        JObject fs \<Rightarrow> (case json_array (json_field fs ''logRecords'') of None \<Rightarrow> [] | Some xs \<Rightarrow> xs)
      | _ \<Rightarrow> [])"

definition scope_logs :: "json \<Rightarrow> json list" where
  "scope_logs resourceLog =
     (case resourceLog of
        JObject fs \<Rightarrow>
          (case json_array (json_field fs ''scopeLogs'') of
             Some xs \<Rightarrow> xs
           | None \<Rightarrow> (case json_array (json_field fs ''instrumentationLibraryLogs'') of Some xs \<Rightarrow> xs | None \<Rightarrow> []))
      | _ \<Rightarrow> [])"

definition passiveSignalsFromOtlpJson :: "(string \<Rightarrow> timestamp option) \<Rightarrow> json \<Rightarrow> PassiveHealthSignal list result" where
  "passiveSignalsFromOtlpJson parseDate v =
     (case v of
        JObject fs \<Rightarrow>
          (case json_array (json_field fs ''resourceLogs'') of
             None \<Rightarrow> Inl (throw_error ''invalid_otlp_logs'')
           | Some resourceLogs \<Rightarrow> log_signals parseDate (concat (map log_records (concat (map scope_logs resourceLogs)))))
      | _ \<Rightarrow> Inl (throw_error ''invalid_otlp_logs''))"

subsection \<open>A snapshot\<close>

definition concerns :: "CapabilityName \<Rightarrow> PassiveHealthSignal \<Rightarrow> bool" where
  "concerns name sig \<longleftrightarrow> sig_capability sig = name \<or> sig_capability sig = AllTraffic"

definition previous_capability :: "CapabilityHealthSnapshot option \<Rightarrow> CapabilityName \<Rightarrow> CapabilityHealth option" where
  "previous_capability previous name = Option.bind previous (\<lambda>p. List.find (\<lambda>e. ch_capability e = name) (snap_capabilities p))"

definition validationAt ::
    "PassiveHealthSignal list \<Rightarrow> SyntheticValidationResult option \<Rightarrow> CapabilityHealthSnapshot option \<Rightarrow> CapabilityName \<Rightarrow> timestamp option" where
  "validationAt passive synthetic previous name =
     latestTimestamp (map (\<lambda>sig. Some (observedAt sig)) (filter (concerns name) passive) @
       [Option.bind synthetic (\<lambda>r. if syn_outcome r = SynSuccess then Some (syn_checkedAt r) else None),
        Option.bind (previous_capability previous name) endToEndValidatedAt])"

definition capability_health ::
    "PassiveHealthSignal list \<Rightarrow> SyntheticValidationResult option \<Rightarrow> CapabilityHealthSnapshot option \<Rightarrow> ProviderId set
     \<Rightarrow> CapabilityName \<Rightarrow> CapabilityStatus \<Rightarrow> ProviderHealth list \<Rightarrow> CapabilityHealth" where
  "capability_health passive synthetic previous pressed name statusFromProviders providers =
     (let failedPassive = list_ex (\<lambda>sig. concerns name sig \<and> sig_outcome sig = SignalFailure) passive;
          status = (if statusFromProviders = Operational \<and> (failedPassive \<or> map_option syn_outcome synthetic = Some SynProxyFailure)
                    then CapDegraded else statusFromProviders)
      in \<lparr>ch_capability = name, ch_status = status,
          providerStatusAt = latestTimestamp (map (\<lambda>h. Some (ph_checkedAt h)) providers),
          endToEndValidatedAt = validationAt passive synthetic previous name,
          ch_message = (if status = CapDegraded \<and> list_ex (\<lambda>h. ph_provider h \<in> pressed) providers
                        then Some ''Fresh capacity-pressure evidence constrained this capability'' else None)\<rparr>)"

definition canary_health :: "SyntheticValidationResult option \<Rightarrow> CapabilityHealthSnapshot option \<Rightarrow> CapabilityHealth" where
  "canary_health synthetic previous =
     (case synthetic of
        None \<Rightarrow>
          (case previous_capability previous HealthVerification of
             Some c \<Rightarrow> c
           | None \<Rightarrow> \<lparr>ch_capability = HealthVerification, ch_status = CapDegraded, providerStatusAt = None, endToEndValidatedAt = None,
                       ch_message = Some ''No synthetic validation has run''\<rparr>)
      | Some r \<Rightarrow>
          \<lparr>ch_capability = HealthVerification,
           ch_status = (if syn_outcome r = SynInconclusive then CapDegraded
                        else if syn_outcome r = SynSuccess \<and> geographyVerification r \<noteq> Some GeoMatch then CapDegraded
                        else Operational),
           providerStatusAt = None, endToEndValidatedAt = Some (syn_checkedAt r), ch_message = syn_message r\<rparr>)"

definition geography_key :: "string \<Rightarrow> string option \<Rightarrow> string" where
  "geography_key cc place = cc @ '':'' @ case_option ''*'' id place"

definition passive_geography ::
    "(string, GeographyHealth) js_map \<Rightarrow> PassiveHealthSignal \<Rightarrow> (string, GeographyHealth) js_map" where
  "passive_geography m sig =
     (case sig_country sig of
        None \<Rightarrow> m
      | Some cc \<Rightarrow>
          js_set m (geography_key cc (sig_city sig))
            \<lparr>gh_country = cc, gh_city = sig_city sig,
             gh_status = (if sig_outcome sig = SignalSuccess then Operational else CapDegraded),
             validatedAt = observedAt sig, gh_source = SourcePassive\<rparr>)"

definition synthetic_geography ::
    "SyntheticValidationResult option \<Rightarrow> (string, GeographyHealth) js_map \<Rightarrow> (string, GeographyHealth) js_map" where
  "synthetic_geography synthetic m =
     (case synthetic of
        None \<Rightarrow> m
      | Some r \<Rightarrow>
          (case expectedCountry r of
             None \<Rightarrow> m
           | Some cc \<Rightarrow>
               if geographyVerification r = Some GeoVerUnverifiable then m
               else js_set m (geography_key cc (syn_expectedCity r))
                      \<lparr>gh_country = cc, gh_city = syn_expectedCity r,
                       gh_status = (if syn_outcome r = SynSuccess \<and> geographyVerification r = Some GeoMatch then Operational else CapDegraded),
                       validatedAt = syn_checkedAt r, gh_source = SourceSynthetic\<rparr>))"

definition providersFor :: "ProviderAdapter list \<Rightarrow> ProviderHealth list \<Rightarrow> (ProviderClass \<times> ProviderHealth) list" where
  "providersFor adapters health =
     (let healthByProvider = js_of_entries (map (\<lambda>h. (ph_provider h, h)) health)
      in List.map_filter (\<lambda>p. map_option (Pair (providerClass (descriptor p))) (js_get healthByProvider (desc_id (descriptor p)))) adapters)"

definition buildSnapshot ::
    "ProviderAdapter list \<Rightarrow> string \<Rightarrow> ProviderHealth list \<Rightarrow> PassiveHealthSignal list \<Rightarrow> CapacityPressureEvidence list
     \<Rightarrow> SyntheticValidationResult option \<Rightarrow> CapabilityHealthSnapshot option \<Rightarrow> timestamp \<Rightarrow> CapabilityHealthSnapshot" where
  "buildSnapshot adapters random health passive capacityPressure synthetic previous now =
     (let providers = providersFor adapters health;
          pressed = set (map cpe_provider capacityPressure);
          capability = capability_health passive synthetic previous pressed;
          managed = capability ManagedSessions (preferredClassStatus providers DeviceBacked pressed) (map snd providers);
          stateless = capability StatelessTraffic (preferredClassStatus providers Residential pressed) (map snd providers);
          allTraffic = capability AllTraffic (combinedTrafficStatus (ch_status managed) (ch_status stateless)) health;
          prior = (case previous of
             None \<Rightarrow> [] | Some p \<Rightarrow> js_of_entries (map (\<lambda>g. (geography_key (gh_country g) (gh_city g), g)) (geographies p)))
      in \<lparr>snap_id = toISOString now @ ''-'' @ random, generatedAt = now,
          snap_capabilities = [allTraffic, managed, stateless, canary_health synthetic previous],
          snap_providers = health,
          geographies = js_values (synthetic_geography synthetic (foldl passive_geography prior passive))\<rparr>)"

subsection \<open>Refreshing\<close>

text \<open>
  \<open>health\<close> is what the health checks of all providers gave; the validator is an operation on a state of its own.
\<close>

type_synonym 'v validator = "SyntheticValidationScope \<Rightarrow> 'v \<Rightarrow> SyntheticValidationResult result \<times> 'v"

definition recent_passive :: "CapabilityHealthAggregatorOptions \<Rightarrow> timestamp \<Rightarrow> CapabilityHealthAggregator \<Rightarrow> PassiveHealthSignal list" where
  "recent_passive opts now a =
     filter (\<lambda>sig. now - observedAt sig \<le> passiveValidationMaxAgeMs opts) (js_values (ag_passiveSignals a))"

definition fresh_pressure :: "CapabilityHealthAggregatorOptions \<Rightarrow> timestamp \<Rightarrow> StoreState \<Rightarrow> CapacityPressureEvidence list" where
  "fresh_pressure opts now s =
     filter (\<lambda>e. cpe_observedAt e \<le> now)
       (listCapacityPressureEvidence
          (now - (case capacityPressureMaxAgeMs opts of None \<Rightarrow> passiveValidationMaxAgeMs opts | Some x \<Rightarrow> x)) s)"

definition conflicting :: "ProviderHealth list \<Rightarrow> PassiveHealthSignal list \<Rightarrow> bool" where
  "conflicting health passive \<longleftrightarrow>
     list_ex (\<lambda>sig. case List.find (\<lambda>h. ph_provider h = sig_provider sig) health of
                None \<Rightarrow> False
              | Some h \<Rightarrow> (ph_state h = Unhealthy) = (sig_outcome sig = SignalSuccess)) passive"

definition next_generatedAt :: "timestamp \<Rightarrow> CapabilityHealthSnapshot option \<Rightarrow> timestamp" where
  "next_generatedAt now previous = (case previous of None \<Rightarrow> now | Some p \<Rightarrow> max now (generatedAt p + 1))"

definition synthetic_phase ::
    "'v validator option \<Rightarrow> bool \<Rightarrow> SyntheticValidationScope \<Rightarrow> CapabilityHealthAggregator \<Rightarrow> 'v \<Rightarrow> unit result \<times> CapabilityHealthAggregator \<times> 'v" where
  "synthetic_phase validator wanted scope a v =
     (case validator of
        None \<Rightarrow> (Inr (), a, v)
      | Some validate \<Rightarrow>
          if \<not> wanted then (Inr (), a, v)
          else (case validate scope v of
                  (Inl e, v) \<Rightarrow> (Inl e, a, v)
                | (Inr r, v) \<Rightarrow> (Inr (), a\<lparr>ag_lastSynthetic := Some r\<rparr>, v)))"

definition refresh ::
    "CapabilityHealthAggregatorOptions \<Rightarrow> ProviderAdapter list \<Rightarrow> 'v validator option \<Rightarrow> (CapabilityHealthSnapshot \<Rightarrow> unit store_op) option
     \<Rightarrow> timestamp \<Rightarrow> string \<Rightarrow> ProviderHealth list result \<Rightarrow> bool \<Rightarrow> SyntheticValidationScope
     \<Rightarrow> CapabilityHealthAggregator \<times> StoreState \<times> 'v \<Rightarrow> CapabilityHealthSnapshot result \<times> CapabilityHealthAggregator \<times> StoreState \<times> 'v" where
  "refresh opts adapters validator alerting now random health forceSynthetic scope = (\<lambda>(a, s, v).
     case health of
       Inl e \<Rightarrow> (Inl e, a, s, v)
     | Inr hs \<Rightarrow>
         let s = foldl (\<lambda>s h. saveHealth h s) s hs;
             passive = recent_passive opts now a;
             pressure = fresh_pressure opts now s
         in case synthetic_phase validator (forceSynthetic \<or> conflicting hs passive) scope a v of
              (Inl e, a, v) \<Rightarrow> (Inl e, a, s, v)
            | (Inr _, a, v) \<Rightarrow>
                let previous = latestCapabilityHealth s;
                    snapshot = buildSnapshot adapters random hs passive pressure (ag_lastSynthetic a) previous (next_generatedAt now previous);
                    s = saveCapabilityHealth snapshot s
                in (Inr snapshot, a, (case alerting of None \<Rightarrow> s | Some evaluator \<Rightarrow> snd (evaluator snapshot s)), v))"

subsection \<open>The HTTP interface\<close>

text \<open>
  A request carries the size of its body and what parsing it as JSON gave. \<open>refresh\<close> is the aggregator's operation
  on its state.
\<close>

record HealthRequest =
  hq_method :: string
  hq_path :: string
  hq_authorization :: "string option"
  hq_bodyBytes :: nat
  hq_body :: "json result"

record HealthAggregatorServerOptions =
  ho_token :: string
  ho_maximumBodyBytes :: "nat option"

datatype health_body = LiveBody | ReadyBody bool | ErrorBody string | SnapshotBody "CapabilityHealthSnapshot option" | EmptyBody

definition readJson :: "HealthRequest \<Rightarrow> nat \<Rightarrow> json result" where
  "readJson q maximumBytes = (if maximumBytes < hq_bodyBytes q then Inl (throw_error ''request_too_large'') else hq_body q)"

definition body_limit :: "HealthAggregatorServerOptions \<Rightarrow> nat \<Rightarrow> nat" where
  "body_limit o' usual = (case ho_maximumBodyBytes o' of None \<Rightarrow> usual | Some n \<Rightarrow> n)"

fun record_all :: "PassiveHealthSignal list \<Rightarrow> CapabilityHealthAggregator \<Rightarrow> unit result \<times> CapabilityHealthAggregator" where
  "record_all [] a = (Inr (), a)"
| "record_all (sig # sigs) a =
     (case recordPassiveSignal sig a of (Inl e, a) \<Rightarrow> (Inl e, a) | (Inr _, a) \<Rightarrow> record_all sigs a)"

type_synonym 'v refresher =
  "bool \<Rightarrow> SyntheticValidationScope \<Rightarrow> CapabilityHealthAggregator \<times> StoreState \<times> 'v
   \<Rightarrow> CapabilityHealthSnapshot result \<times> CapabilityHealthAggregator \<times> StoreState \<times> 'v"

definition no_scope :: SyntheticValidationScope where
  "no_scope = \<lparr>scope_capability = None, scope_country = None, scope_city = None\<rparr>"

definition otlp_request ::
    "'v refresher \<Rightarrow> (string \<Rightarrow> timestamp option) \<Rightarrow> json \<Rightarrow> CapabilityHealthAggregator \<times> StoreState \<times> 'v
     \<Rightarrow> unit result \<times> CapabilityHealthAggregator \<times> StoreState \<times> 'v" where
  "otlp_request refresher parseDate body = (\<lambda>(a, s, v).
     case passiveSignalsFromOtlpJson parseDate body of
       Inl e \<Rightarrow> (Inl e, a, s, v)
     | Inr sigs \<Rightarrow>
         (case record_all sigs a of
            (Inl e, a) \<Rightarrow> (Inl e, a, s, v)
          | (Inr _, a) \<Rightarrow>
              if sigs = [] then (Inr (), a, s, v)
              else (case refresher False no_scope (a, s, v) of (Inl e, y) \<Rightarrow> (Inl e, y) | (Inr _, y) \<Rightarrow> (Inr (), y))))"

definition health_handle ::
    "HealthAggregatorServerOptions \<Rightarrow> 'v refresher \<Rightarrow> (string \<Rightarrow> timestamp option) \<Rightarrow> (json \<Rightarrow> SyntheticValidationScope result)
     \<Rightarrow> HealthRequest \<Rightarrow> CapabilityHealthAggregator \<times> StoreState \<times> 'v
     \<Rightarrow> (int \<times> health_body) \<times> CapabilityHealthAggregator \<times> StoreState \<times> 'v" where
  "health_handle o' refresher parseDate decodeScope q x =
     (let s = fst (snd x); latest = latestCapabilityHealth s; failed = (400, ErrorBody ''invalid_request'')
      in if hq_method q = ''GET'' \<and> hq_path q = ''/health/live'' then ((200, LiveBody), x)
         else if hq_method q = ''GET'' \<and> hq_path q = ''/health/ready''
         then ((if latest = None then 503 else 200, ReadyBody (latest \<noteq> None)), x)
         else if hq_authorization q \<noteq> Some (''Bearer '' @ ho_token o') then ((401, ErrorBody ''unauthorized''), x)
         else if hq_method q = ''GET'' \<and> hq_path q = ''/v1/status'' then ((200, SnapshotBody latest), x)
         else if hq_method q = ''POST'' \<and> hq_path q = ''/v1/passive-signals/otlp''
         then (case readJson q (body_limit o' 1048576) of
                 Inl _ \<Rightarrow> (failed, x)
               | Inr body \<Rightarrow> (case otlp_request refresher parseDate body x of (Inl _, y) \<Rightarrow> (failed, y) | (Inr _, y) \<Rightarrow> ((200, EmptyBody), y)))
         else if hq_method q = ''POST'' \<and> hq_path q = ''/v1/validate''
         then (case readJson q (body_limit o' 16384) of
                 Inl _ \<Rightarrow> (failed, x)
               | Inr body \<Rightarrow>
                   (case decodeScope body of
                      Inl _ \<Rightarrow> (failed, x)
                    | Inr scope \<Rightarrow>
                        (case refresher True scope x of (Inl _, y) \<Rightarrow> (failed, y) | (Inr snap, y) \<Rightarrow> ((200, SnapshotBody (Some snap)), y))))
         else ((404, ErrorBody ''not_found''), x))"

subsection \<open>The newest signal wins\<close>

definition newest :: "PassiveHealthSignal list \<Rightarrow> string \<Rightarrow> PassiveHealthSignal option" where
  "newest sigs k =
     foldl (\<lambda>best sig. if signal_key sig \<noteq> k \<or> \<not> isPassiveSignal sig then best
                      else case best of None \<Rightarrow> Some sig | Some b \<Rightarrow> if observedAt b < observedAt sig then Some sig else best) None sigs"

lemma record_get:
  "js_get (ag_passiveSignals (snd (recordPassiveSignal sig a))) k =
     (if signal_key sig \<noteq> k \<or> \<not> isPassiveSignal sig then js_get (ag_passiveSignals a) k
      else case js_get (ag_passiveSignals a) k of
             None \<Rightarrow> Some sig
           | Some b \<Rightarrow> if observedAt b < observedAt sig then Some sig else Some b)"
  by (auto simp: recordPassiveSignal_def split: option.splits)

lemma record_wf: "js_wf (ag_passiveSignals a) \<Longrightarrow> js_wf (ag_passiveSignals (snd (recordPassiveSignal sig a)))"
  by (auto simp: recordPassiveSignal_def split: option.splits)

definition record_signals :: "PassiveHealthSignal list \<Rightarrow> CapabilityHealthAggregator" where
  "record_signals sigs = foldl (\<lambda>a sig. snd (recordPassiveSignal sig a)) new_aggregator sigs"

lemma record_signals_get: "js_get (ag_passiveSignals (record_signals sigs)) k = newest sigs k"
proof (induction sigs rule: rev_induct)
  case Nil
  then show ?case by (simp add: record_signals_def new_aggregator_def newest_def)
next
  case (snoc sig sigs)
  then show ?case by (simp add: record_signals_def newest_def record_get split: option.splits)
qed

lemma newest_spec:
  "case newest sigs k of
     None \<Rightarrow> list_all (\<lambda>sig. \<not> (signal_key sig = k \<and> isPassiveSignal sig)) sigs
   | Some b \<Rightarrow> b \<in> set sigs \<and> signal_key b = k \<and> isPassiveSignal b
       \<and> list_all (\<lambda>sig. signal_key sig = k \<and> isPassiveSignal sig \<longrightarrow> observedAt sig \<le> observedAt b) sigs"
proof (induction sigs rule: rev_induct)
  case Nil
  then show ?case by (simp add: newest_def)
next
  case (snoc sig sigs)
  have step: "newest (sigs @ [sig]) k = (if signal_key sig \<noteq> k \<or> \<not> isPassiveSignal sig then newest sigs k
      else case newest sigs k of None \<Rightarrow> Some sig | Some b \<Rightarrow> if observedAt b < observedAt sig then Some sig else Some b)"
    by (simp add: newest_def split: option.splits)
  show ?case
  proof (cases "newest sigs k")
    case None
    with snoc show ?thesis unfolding step by (auto simp: list_all_iff)
  next
    case (Some b)
    with snoc show ?thesis unfolding step by (force simp: list_all_iff)
  qed
qed

subsection \<open>What a status means\<close>

lemma preferred_status_operational:
  "preferredClassStatus providers cls pressed = Operational \<longleftrightarrow>
     (\<exists>h. (cls, h) \<in> set providers \<and> ph_state h = Healthy \<and> ph_provider h \<notin> pressed)"
  by (force simp: preferredClassStatus_def effective_state_def list_ex_iff Let_def)

lemma preferred_status_unavailable:
  "preferredClassStatus providers cls pressed = Unavailable \<longleftrightarrow> (\<forall>p \<in> set providers. ph_state (snd p) = Unhealthy)"
proof -
  let ?e = "\<lambda>p. effective_state pressed (snd p)"
  have e: "?e p = Unhealthy \<longleftrightarrow> ph_state (snd p) = Unhealthy" for p :: "ProviderClass \<times> ProviderHealth"
    by (simp add: effective_state_def)
  show ?thesis
  proof (cases "list_ex (\<lambda>p. ?e p \<noteq> Unhealthy) providers")
    case True
    then show ?thesis using e by (auto simp: preferredClassStatus_def list_ex_iff Let_def)
  next
    case False
    then have "\<forall>p \<in> set providers. ?e p = Unhealthy" by (auto simp: list_ex_iff)
    then have "\<not> list_ex (\<lambda>p. ?e p = x) (filter (\<lambda>p. fst p = cls) providers)" if "x \<noteq> Unhealthy" for x
      using that by (auto simp: list_ex_iff)
    then show ?thesis using False e unfolding preferredClassStatus_def Let_def by (simp add: list_ex_iff)
  qed
qed

lemma providersFor_mem:
  "(cls, h) \<in> set (providersFor adapters health) \<longleftrightarrow>
     (\<exists>p \<in> set adapters. providerClass (descriptor p) = cls
        \<and> js_get (js_of_entries (map (\<lambda>h. (ph_provider h, h)) health)) (desc_id (descriptor p)) = Some h)"
  unfolding providersFor_def Let_def map_filter_def by (auto simp: image_iff)

lemma entries_get:
  assumes "distinct (map f xs)"
  shows "js_get (js_of_entries (map (\<lambda>x. (f x, x)) xs)) k = Some y \<longleftrightarrow> y \<in> set xs \<and> f y = k"
  using assms
proof (induction xs rule: rev_induct)
  case Nil
  then show ?case by (simp add: js_of_entries_def)
next
  case (snoc x xs)
  have "js_of_entries (map (\<lambda>x. (f x, x)) (xs @ [x])) = js_set (js_of_entries (map (\<lambda>x. (f x, x)) xs)) (f x) x"
    by (simp add: js_of_entries_def)
  moreover have "y \<in> set xs \<Longrightarrow> f y \<noteq> f x" using snoc.prems by (auto simp: image_iff)
  ultimately show ?case using snoc by (auto split: if_splits)
qed

definition traffic_status :: "CapabilityHealthSnapshot \<Rightarrow> CapabilityName \<Rightarrow> CapabilityStatus option" where
  "traffic_status snapshot name =
     map_option ch_status (List.find (\<lambda>c. ch_capability c = name) (snap_capabilities snapshot))"

definition preferred_class :: "CapabilityName \<Rightarrow> ProviderClass" where
  "preferred_class name = (if name = ManagedSessions then DeviceBacked else Residential)"

definition undisturbed :: "PassiveHealthSignal list \<Rightarrow> SyntheticValidationResult option \<Rightarrow> CapabilityName \<Rightarrow> bool" where
  "undisturbed passive synthetic name \<longleftrightarrow>
     \<not> list_ex (\<lambda>sig. concerns name sig \<and> sig_outcome sig = SignalFailure) passive \<and> map_option syn_outcome synthetic \<noteq> Some SynProxyFailure"

lemma capability_status:
  "ch_status (capability_health passive synthetic previous pressed name st ps) =
     (if st = Operational \<and> \<not> undisturbed passive synthetic name then CapDegraded else st)"
  "ch_capability (capability_health passive synthetic previous pressed name st ps) = name"
  by (auto simp: capability_health_def undisturbed_def Let_def)

lemma snapshot_status:
  assumes "snapshot = buildSnapshot adapters random health passive evidence synthetic previous now"
    and "pressed = set (map cpe_provider evidence)"
  shows "name \<in> {ManagedSessions, StatelessTraffic} \<Longrightarrow> traffic_status snapshot name =
      Some (let st = preferredClassStatus (providersFor adapters health) (preferred_class name) pressed
            in if st = Operational \<and> \<not> undisturbed passive synthetic name then CapDegraded else st)"
    and "traffic_status snapshot AllTraffic =
      Some (let st = combinedTrafficStatus (the (traffic_status snapshot ManagedSessions)) (the (traffic_status snapshot StatelessTraffic))
            in if st = Operational \<and> \<not> undisturbed passive synthetic AllTraffic then CapDegraded else st)"
  by (auto simp: assms traffic_status_def buildSnapshot_def capability_status preferred_class_def Let_def)

lemma own_health:
  assumes "map ph_provider health = map (\<lambda>p. desc_id (descriptor p)) adapters" "distinct (map ph_provider health)"
  shows "(cls, h) \<in> set (providersFor adapters health) \<longleftrightarrow>
      h \<in> set health \<and> (\<exists>p \<in> set adapters. desc_id (descriptor p) = ph_provider h \<and> providerClass (descriptor p) = cls)"
  unfolding providersFor_mem entries_get [OF assms(2)] by auto

lemma health_covered:
  assumes "map ph_provider health = map (\<lambda>p. desc_id (descriptor p)) adapters" "distinct (map ph_provider health)"
  shows "snd ` set (providersFor adapters health) = set health"
proof -
  have "\<exists>cls. (cls, h) \<in> set (providersFor adapters health)" if "h \<in> set health" for h
  proof -
    have "ph_provider h \<in> set (map (\<lambda>p. desc_id (descriptor p)) adapters)" using that unfolding assms(1) [symmetric] by simp
    then obtain p where "p \<in> set adapters" "desc_id (descriptor p) = ph_provider h" by auto
    then show ?thesis using that unfolding own_health [OF assms] by blast
  qed
  then show ?thesis using own_health [OF assms] by (force simp: image_iff)
qed

text \<open>
  C28. A snapshot says exactly what the evidence supports, when every provider reports its own health: sessions (or
  stateless traffic) are operational if and only if some provider of the preferred class is healthy and free of fresh
  capacity pressure, no recent passive signal for them failed and the last synthetic validation did not fail in the proxy;
  they are unavailable if and only if every provider is unhealthy, and so is all traffic. No passive signal, capacity
  evidence or synthetic result can by itself declare an outage.
\<close>

theorem capability_status_exact:
  assumes "snapshot = buildSnapshot adapters random health passive evidence synthetic previous now"
    and "map ph_provider health = map (\<lambda>p. desc_id (descriptor p)) adapters" "distinct (map ph_provider health)"
    and "name \<in> {ManagedSessions, StatelessTraffic}"
  shows "(traffic_status snapshot name = Some Operational \<longleftrightarrow>
      (\<exists>p \<in> set adapters. \<exists>h \<in> set health. desc_id (descriptor p) = ph_provider h
         \<and> providerClass (descriptor p) = preferred_class name \<and> ph_state h = Healthy \<and> ph_provider h \<notin> set (map cpe_provider evidence))
      \<and> undisturbed passive synthetic name)
    \<and> (traffic_status snapshot name = Some Unavailable \<longleftrightarrow> (\<forall>h \<in> set health. ph_state h = Unhealthy))
    \<and> (traffic_status snapshot AllTraffic = Some Unavailable \<longleftrightarrow> (\<forall>h \<in> set health. ph_state h = Unhealthy))"
proof -
  let ?ps = "providersFor adapters health" and ?pressed = "set (map cpe_provider evidence)"
  note st = snapshot_status [OF assms(1) refl]
  have unavailable: "preferredClassStatus ?ps cls ?pressed = Unavailable \<longleftrightarrow> (\<forall>h \<in> set health. ph_state h = Unhealthy)" for cls
    unfolding preferred_status_unavailable health_covered [OF assms(2,3), symmetric] by auto
  have each: "traffic_status snapshot x = Some Unavailable \<longleftrightarrow> (\<forall>h \<in> set health. ph_state h = Unhealthy)"
    if "x \<in> {ManagedSessions, StatelessTraffic}" for x
    using st(1) [OF that] unavailable [of "preferred_class x"] by (auto simp: Let_def)
  have some: "\<exists>y. traffic_status snapshot x = Some y" if "x \<in> {ManagedSessions, StatelessTraffic}" for x
    using st(1) [OF that] by blast
  have "traffic_status snapshot AllTraffic = Some Unavailable \<longleftrightarrow> (\<forall>h \<in> set health. ph_state h = Unhealthy)"
    using st(2) each [of ManagedSessions] each [of StatelessTraffic] some [of ManagedSessions] some [of StatelessTraffic]
    by (auto simp: combinedTrafficStatus_def Let_def split: if_splits)
  moreover have "traffic_status snapshot name = Some Operational \<longleftrightarrow>
      preferredClassStatus ?ps (preferred_class name) ?pressed = Operational \<and> undisturbed passive synthetic name"
    using st(1) [OF assms(4)] by (auto simp: Let_def)
  moreover have "preferredClassStatus ?ps (preferred_class name) ?pressed = Operational \<longleftrightarrow>
      (\<exists>p \<in> set adapters. \<exists>h \<in> set health. desc_id (descriptor p) = ph_provider h
         \<and> providerClass (descriptor p) = preferred_class name \<and> ph_state h = Healthy \<and> ph_provider h \<notin> ?pressed)"
    unfolding preferred_status_operational own_health [OF assms(2,3)] by blast
  ultimately show ?thesis using each [OF assms(4)] by blast
qed

subsection \<open>Snapshots advance\<close>

text \<open>What the aggregator relies on in the evaluator of alerts: it leaves the snapshots alone.\<close>

locale alert_evaluator =
  fixes evaluator :: "CapabilityHealthSnapshot \<Rightarrow> unit store_op"
  assumes keeps_snapshots: "st_capabilityHealth (snd (evaluator snapshot s)) = st_capabilityHealth s"
begin

lemma latest_kept: "latestCapabilityHealth (snd (evaluator snapshot s)) = latestCapabilityHealth s"
  by (simp add: latestCapabilityHealth_def capabilityHealthHistory_def keeps_snapshots)

end

lemma created_keeps_snapshots: "st_capabilityHealth (snd (createHealthAlertEvent e ds s)) = st_capabilityHealth s"
  by (auto simp: createHealthAlertEvent_def Let_def split: option.splits)

lemma notify_keeps_snapshots: "st_capabilityHealth (snd (notify hash opts snapshot st s)) = st_capabilityHealth s"
proof -
  have "emit_alert hash opts snapshot c k st' t p s = (r, s') \<Longrightarrow> st_capabilityHealth s' = st_capabilityHealth s" for c k st' t p r s'
    using created_keeps_snapshots unfolding emit_alert_def by (metis snd_conv)
  then show ?thesis by (auto simp: notify_def Let_def split: prod.splits sum.splits)
qed

lemma evaluateCapability_keeps_snapshots:
  "st_capabilityHealth (snd (evaluateCapability hash opts snapshot c status s)) = st_capabilityHealth s"
proof -
  let ?st = "observe snapshot c status s"
  obtain r s' where r: "notify hash opts snapshot ?st (saveHealthAlertState ?st s) = (r, s')" by (rule prod.exhaust)
  then have "st_capabilityHealth s' = st_capabilityHealth s"
    using notify_keeps_snapshots [of hash opts snapshot ?st "saveHealthAlertState ?st s"] by (simp add: saveHealthAlertState_def)
  then show ?thesis using r by (cases r) (simp_all add: evaluateCapability_def Let_def saveHealthAlertState_def)
qed

lemma evaluate_all_keeps_snapshots: "st_capabilityHealth (snd (evaluate_all hash opts snapshot cs s)) = st_capabilityHealth s"
proof (induction cs arbitrary: s)
  case (Cons c cs)
  obtain r s' where r: "evaluateCapability hash opts snapshot (ch_capability c) (ch_status c) s = (r, s')" by (rule prod.exhaust)
  then have "st_capabilityHealth s' = st_capabilityHealth s" using evaluateCapability_keeps_snapshots by (metis snd_conv)
  then show ?case using r Cons.IH by (cases r) simp_all
qed simp

lemma flush_keeps_snapshots: "st_capabilityHealth (ws_store (flush a now x)) = st_capabilityHealth (ws_store x)"
proof -
  have step: "st_capabilityHealth (ws_store (deliver a now x d)) = st_capabilityHealth (ws_store x)" for x d
    by (simp add: deliver_def saveHealthAlertDelivery_def split: option.splits prod.splits)
  have "st_capabilityHealth (ws_store (foldl (deliver a now) x ds)) = st_capabilityHealth (ws_store x)" for ds
    by (induction ds arbitrary: x) (simp_all add: step)
  then show ?thesis unfolding flush_def .
qed

text \<open>The notifier of the coordinator: the webhook adapter, if one is configured.\<close>

definition alert_notifier :: "'s WebhookAdapter option \<Rightarrow> timestamp \<Rightarrow> 's \<Rightarrow> StoreState \<Rightarrow> StoreState" where
  "alert_notifier adapter now n s =
     (case adapter of None \<Rightarrow> s | Some a \<Rightarrow> ws_store (flush a now \<lparr>ws_store = s, ws_network = n, ws_sent = []\<rparr>))"

lemma evaluate_keeps_snapshots:
  "st_capabilityHealth (snd (evaluate hash opts (alert_notifier adapter now n) snapshot s)) = st_capabilityHealth s"
proof -
  obtain r s' where r: "evaluate_all hash opts snapshot (snap_capabilities snapshot) s = (r, s')" by (rule prod.exhaust)
  then have "st_capabilityHealth s' = st_capabilityHealth s" using evaluate_all_keeps_snapshots by (metis snd_conv)
  then show ?thesis using r by (cases r) (auto simp: evaluate_def alert_notifier_def flush_keeps_snapshots split: option.splits)
qed

interpretation coordinator: alert_evaluator "evaluate hash opts (alert_notifier adapter now n)"
  for hash opts and adapter :: "'s WebhookAdapter option" and now n
  by unfold_locales (rule evaluate_keeps_snapshots)

lemma values_set: "set (js_values (js_set m k v)) \<subseteq> insert v (set (js_values m))" "v \<in> set (js_values (js_set m k v))"
  by (induction m) (auto simp: js_values_def js_set_def)

lemma latest_newest:
  assumes "latestCapabilityHealth s = Some p"
  shows "p \<in> set (js_values (st_capabilityHealth s)) \<and> (\<forall>x \<in> set (js_values (st_capabilityHealth s)). generatedAt x \<le> generatedAt p)"
proof -
  obtain ps where "js_sort (newest_first generatedAt) (js_values (st_capabilityHealth s)) = p # ps"
    using assms
    by (cases "js_sort (newest_first generatedAt) (js_values (st_capabilityHealth s))")
      (simp_all add: latestCapabilityHealth_def capabilityHealthHistory_def)
  then have sorted: "js_sort (by_key (\<lambda>x. - generatedAt x)) (js_values (st_capabilityHealth s)) = p # ps" by (simp add: newest_first_def)
  have "p \<in> set (js_values (st_capabilityHealth s))" using arg_cong [OF sorted, of set] by auto
  moreover have "by_key (\<lambda>x. - generatedAt x) p x \<le> 0" if "x \<in> set (js_values (st_capabilityHealth s))" for x
    by (rule by_key.js_sort_hd_least [OF sorted that])
  ultimately show ?thesis by (simp add: by_key_def)
qed

lemma latest_exists: "latestCapabilityHealth s = None \<longleftrightarrow> st_capabilityHealth s = []"
  by (cases "js_sort (newest_first generatedAt) (js_values (st_capabilityHealth s))")
    (auto simp: latestCapabilityHealth_def capabilityHealthHistory_def js_values_def dest: arg_cong [of _ _ set])

lemma latest_saved:
  assumes "generatedAt snapshot = next_generatedAt now (latestCapabilityHealth s)"
  shows "latestCapabilityHealth (saveCapabilityHealth snapshot s) = Some snapshot"
    and "latestCapabilityHealth s = Some p \<Longrightarrow> generatedAt p < generatedAt snapshot"
proof -
  let ?s' = "saveCapabilityHealth snapshot s"
  have vs: "set (js_values (st_capabilityHealth ?s')) \<subseteq> insert snapshot (set (js_values (st_capabilityHealth s)))"
    "snapshot \<in> set (js_values (st_capabilityHealth ?s'))"
    using values_set by (simp_all add: saveCapabilityHealth_def)
  have older: "generatedAt x < generatedAt snapshot" if "x \<in> set (js_values (st_capabilityHealth s))" for x
  proof -
    from that have "st_capabilityHealth s \<noteq> []" by (auto simp: js_values_def)
    then obtain p where p: "latestCapabilityHealth s = Some p" using latest_exists by (metis not_None_eq)
    with latest_newest [OF this] that have "generatedAt x \<le> generatedAt p" by blast
    then show ?thesis using assms p by (simp add: next_generatedAt_def)
  qed
  obtain q where q: "latestCapabilityHealth ?s' = Some q"
    using vs(2) latest_exists [of ?s'] by (auto simp: js_values_def)
  with latest_newest [OF this] vs have "q \<in> insert snapshot (set (js_values (st_capabilityHealth s)))" "generatedAt snapshot \<le> generatedAt q" by blast+
  with older have "q = snapshot" by force
  with q show "latestCapabilityHealth ?s' = Some snapshot" by simp
  show "latestCapabilityHealth s = Some p \<Longrightarrow> generatedAt p < generatedAt snapshot"
    using assms by (simp add: next_generatedAt_def)
qed

lemma save_health_snapshots: "st_capabilityHealth (foldl (\<lambda>s h. saveHealth h s) s hs) = st_capabilityHealth s"
  by (induction hs arbitrary: s) (simp_all add: saveHealth_def)

lemma latest_cong: "st_capabilityHealth s = st_capabilityHealth t \<Longrightarrow> latestCapabilityHealth s = latestCapabilityHealth t"
  by (simp add: latestCapabilityHealth_def capabilityHealthHistory_def)

lemma refresh_snapshot:
  assumes "refresh opts adapters validator alerting now random health force scope (a, s, v) = (Inr snapshot, a', s', v')"
    and "\<And>evaluator. alerting = Some evaluator \<Longrightarrow> alert_evaluator evaluator"
  shows "latestCapabilityHealth s' = Some snapshot"
    and "latestCapabilityHealth s = Some p \<Longrightarrow> generatedAt p < generatedAt snapshot"
proof -
  obtain hs where hs: "health = Inr hs" using assms(1) by (cases health) (auto simp: refresh_def)
  define s1 where "s1 = foldl (\<lambda>s h. saveHealth h s) s hs"
  have s1: "latestCapabilityHealth s1 = latestCapabilityHealth s" unfolding s1_def by (rule latest_cong) (rule save_health_snapshots)
  obtain x where x: "snapshot = buildSnapshot adapters random hs (recent_passive opts now a) (fresh_pressure opts now s1) x
        (latestCapabilityHealth s) (next_generatedAt now (latestCapabilityHealth s))"
      "s' = (case alerting of None \<Rightarrow> saveCapabilityHealth snapshot s1 | Some ev \<Rightarrow> snd (ev snapshot (saveCapabilityHealth snapshot s1)))"
    using assms(1) unfolding hs s1 [symmetric] refresh_def s1_def [symmetric]
    by (auto simp: Let_def s1_def [symmetric] split: prod.splits sum.splits)
  have "generatedAt snapshot = next_generatedAt now (latestCapabilityHealth s1)" by (simp add: x(1) buildSnapshot_def s1 Let_def)
  note saved = latest_saved [OF this]
  show "latestCapabilityHealth s' = Some snapshot"
    using saved(1) x(2) alert_evaluator.latest_kept [OF assms(2)] by (cases alerting) simp_all
  show "latestCapabilityHealth s = Some p \<Longrightarrow> generatedAt p < generatedAt snapshot"
    using saved(2) [of p] by (simp add: s1)
qed

text \<open>
  Snapshots advance: whatever the clock says, the snapshot a refresh returns is the latest one of the store
  afterwards, alerts evaluated and delivered, and is dated after the one before.
\<close>

theorem refresh_becomes_latest:
  assumes "refresh opts adapters validator (Some (evaluate hash copts (alert_notifier adapter t n))) now random health force scope (a, s, v)
      = (Inr snapshot, a', s', v')"
  shows "latestCapabilityHealth s' = Some snapshot
     \<and> (case latestCapabilityHealth s of None \<Rightarrow> True | Some p \<Rightarrow> generatedAt p < generatedAt snapshot)"
proof -
  have "alert_evaluator evaluator" if "Some (evaluate hash copts (alert_notifier adapter t n)) = Some evaluator" for evaluator
    using that coordinator.alert_evaluator_axioms [of hash copts adapter t n] by simp
  from refresh_snapshot [OF assms this] show ?thesis by (simp split: option.splits)
qed

definition sample_health :: "string \<Rightarrow> HealthState \<Rightarrow> ProviderHealth" where
  "sample_health i st = \<lparr>ph_provider = i, ph_state = st, ph_checkedAt = 1, ph_message = None\<rparr>"

definition sample_aggregator_options :: CapabilityHealthAggregatorOptions where
  "sample_aggregator_options = \<lparr>passiveValidationMaxAgeMs = 60000, capacityPressureMaxAgeMs = None\<rparr>"

definition sample_providers :: "ProviderAdapter list" where
  "sample_providers = [sample_adapter ''d'' DeviceBacked, sample_adapter ''r'' Residential]"

theorem refresh_becomes_latest_witness:
  "\<exists>snapshot a' s' v'. refresh sample_aggregator_options sample_providers (None :: unit validator option)
       (Some (evaluate id sample_alert_options (alert_notifier (Some flaky_adapter) 5 0))) 5 ''x''
       (Inr [sample_health ''d'' Unhealthy, sample_health ''r'' Healthy]) True no_scope
       (new_aggregator, saveCapabilityHealth (sample_snapshot 9) empty_store, ()) = (Inr snapshot, a', s', v')
     \<and> latestCapabilityHealth s' = Some snapshot \<and> 9 < generatedAt snapshot"
proof -
  let ?r = "refresh sample_aggregator_options sample_providers (None :: unit validator option)
       (Some (evaluate id sample_alert_options (alert_notifier (Some flaky_adapter) 5 0))) 5 ''x''
       (Inr [sample_health ''d'' Unhealthy, sample_health ''r'' Healthy]) True no_scope
       (new_aggregator, saveCapabilityHealth (sample_snapshot 9) empty_store, ())"
  obtain snapshot a' s' v' where r: "?r = (Inr snapshot, a', s', v')"
    by (simp add: refresh_def synthetic_phase_def Let_def)
  have "latestCapabilityHealth (saveCapabilityHealth (sample_snapshot 9) empty_store) = Some (sample_snapshot 9)"
    by (simp add: latestCapabilityHealth_def capabilityHealthHistory_def saveCapabilityHealth_def empty_store_def js_set_def js_values_def)
  with refresh_becomes_latest [OF r] r show ?thesis by (simp add: sample_snapshot_def)
qed

theorem capability_status_exact_witness:
  "traffic_status (buildSnapshot sample_providers ''x'' [sample_health ''d'' Healthy, sample_health ''r'' Unhealthy] [] [] None None 5) ManagedSessions
     = Some Operational"
proof -
  let ?h = "[sample_health ''d'' Healthy, sample_health ''r'' Unhealthy]"
  have own: "map ph_provider ?h = map (\<lambda>p. desc_id (descriptor p)) sample_providers" "distinct (map ph_provider ?h)"
    by (simp_all add: sample_health_def sample_providers_def sample_adapter_def)
  have "\<exists>p \<in> set sample_providers. \<exists>h \<in> set ?h. desc_id (descriptor p) = ph_provider h
      \<and> providerClass (descriptor p) = preferred_class ManagedSessions \<and> ph_state h = Healthy \<and> ph_provider h \<notin> set (map cpe_provider [])"
    by (simp add: sample_health_def sample_providers_def sample_adapter_def preferred_class_def)
  moreover have "undisturbed [] None ManagedSessions" by (simp add: undisturbed_def)
  ultimately show ?thesis
    using capability_status_exact [OF refl own, of ManagedSessions "''x''" "[]" "[]" None None 5] by blast
qed

text \<open>
  Of the passive signals with the same provider, capability and place the aggregator keeps the newest, in whatever
  order they arrive; invalid signals leave no trace.
\<close>

theorem newest_signal_kept:
  "case js_get (ag_passiveSignals (record_signals sigs)) k of
     None \<Rightarrow> list_all (\<lambda>sig. \<not> (signal_key sig = k \<and> isPassiveSignal sig)) sigs
   | Some b \<Rightarrow> b \<in> set sigs \<and> signal_key b = k \<and> isPassiveSignal b
       \<and> list_all (\<lambda>sig. if signal_key sig = k \<and> isPassiveSignal sig then observedAt sig \<le> observedAt b else True) sigs"
  using newest_spec [of k sigs] unfolding record_signals_get by (simp add: list_all_iff split: option.splits)

text \<open>
  Without the bearer token a request to the aggregator changes nothing and learns nothing but liveness and readiness.
\<close>

theorem unauthorized_health_request:
  assumes "hq_authorization q \<noteq> Some (''Bearer '' @ ho_token o')"
  shows "snd (health_handle o' refresher parseDate decodeScope q x) = x
     \<and> (\<forall>snapshot. snd (fst (health_handle o' refresher parseDate decodeScope q x)) \<noteq> SnapshotBody snapshot)"
  using assms by (simp add: health_handle_def Let_def)

text \<open>A signal dated ahead of the clock stays recent until the clock has passed it by the maximal age, and no earlier one replaces it.\<close>

lemma future_signal_stays:
  assumes "now \<le> observedAt b" "0 \<le> passiveValidationMaxAgeMs opts" "isPassiveSignal b"
    and "list_all (\<lambda>sig. observedAt sig \<le> observedAt b) sigs"
  shows "b \<in> set (recent_passive opts now (foldl (\<lambda>a sig. snd (recordPassiveSignal sig a)) (snd (recordPassiveSignal b new_aggregator)) sigs))"
proof -
  let ?a = "\<lambda>sigs. foldl (\<lambda>a sig. snd (recordPassiveSignal sig a)) (snd (recordPassiveSignal b new_aggregator)) sigs"
  have "js_get (ag_passiveSignals (?a sigs)) (signal_key b) = Some b" using assms(4)
  proof (induction sigs rule: rev_induct)
    case Nil
    then show ?case using assms(3) by (simp add: record_get new_aggregator_def)
  next
    case (snoc sig sigs)
    then show ?case by (simp add: record_get)
  qed
  then have "b \<in> set (js_values (ag_passiveSignals (?a sigs)))" by (force simp: js_values_def dest: js_get_mem)
  then show ?thesis using assms(1,2) by (simp add: recent_passive_def)
qed

end
