(* ===== verification/Forward_Proxy.thy ===== *)
theory Forward_Proxy
  imports Tunnel_Operation Upstream_Tunnel
begin

text \<open>
  \<open>src/forward-proxy.ts\<close>: the HTTP proxy of the gateway. A plain request is authenticated, its target checked, and
  sent to an upstream proxy with retries until the request is committed; what follows is a sequence of events of the
  two streams. A \<open>CONNECT\<close> is checked in the same way and handed to the tunnel operation. Base64 and URL parsing are
  parameters, logging in and the validation of targets are operations of the gateway. Spans, metrics and log lines are
  left out. Header names are those of Node, in lower case; a header is the list of its values.
\<close>

subsection \<open>Headers\<close>

type_synonym http_headers = "(string, string list) js_map"

definition first_value :: "string list option \<Rightarrow> string option" where
  "first_value v = (case v of Some (x # _) \<Rightarrow> Some x | _ \<Rightarrow> None)"

definition forwardHeaders :: "(byte list \<Rightarrow> string) \<Rightarrow> http_headers \<Rightarrow> UpstreamEndpoint \<Rightarrow> http_headers" where
  "forwardHeaders toBase64 headers upstream =
     (let result = js_delete (js_delete (js_delete headers ''proxy-authorization'') ''proxy-connection'') ''connection'';
          result = js_set result ''proxy-authorization'' [basicAuth toBase64 (ep_username upstream) (ep_password upstream)]
      in js_set result ''connection'' [''close''])"

definition PROXY_HEADERS :: "string list" where
  "PROXY_HEADERS =
     [''proxy-authenticate'', ''proxy-authorization'', ''proxy-status'', ''proxy-connection'', ''keep-alive'', ''transfer-encoding'']"

definition responseHeaders :: "http_headers \<Rightarrow> http_headers" where
  "responseHeaders headers = js_set (foldl js_delete headers PROXY_HEADERS) ''connection'' [''close'']"

definition byteLength :: "string \<Rightarrow> int" where
  "byteLength s = int (length (utf8_bytes s))"

definition headerBytes :: "http_headers \<Rightarrow> int" where
  "headerBytes headers =
     foldl (\<lambda>total (name, values). total + foldl (\<lambda>subtotal item. subtotal + byteLength (name @ '': '' @ item @ CRLF)) 0 values) 2 headers"

subsection \<open>From the request to the target\<close>

record TargetUrl =
  tu_protocol :: string
  tu_username :: string
  tu_password :: string
  tu_hostname :: string
  tu_port :: string
  tu_pathname :: string
  tu_search :: string
  tu_hash :: string
  tu_text :: string

record HttpRequest =
  rq_method :: "string option"
  rq_url :: string
  rq_headers :: http_headers

record ForwardEnv =
  fw_fromBase64 :: "string \<Rightarrow> byte list"
  fw_toBase64 :: "byte list \<Rightarrow> string"
  fw_decode :: "byte list \<Rightarrow> string"
  fw_newUrl :: "string \<Rightarrow> TargetUrl option"
  fw_authenticate :: "string \<Rightarrow> string \<Rightarrow> AuthenticatedRoute result"
  fw_budget :: "unit result"
  fw_validateTarget :: "string \<Rightarrow> int \<Rightarrow> LocalResolutionObservation result"

definition authenticate_request :: "ForwardEnv \<Rightarrow> HttpRequest \<Rightarrow> AuthenticatedRoute result" where
  "authenticate_request env q =
     (case parseBasicAuth (fw_fromBase64 env) (fw_decode env) (first_value (js_get (rq_headers q) ''proxy-authorization'')) of
        None \<Rightarrow> Inl (throw (authenticationError ''Proxy authentication required''))
      | Some (username, password) \<Rightarrow> fw_authenticate env username password)"

text \<open>The port of a URL is empty or a decimal number.\<close>

definition url_port :: "TargetUrl \<Rightarrow> int \<Rightarrow> int" where
  "url_port url usual = (if tu_port url = [] then usual else int (decimal_value (tu_port url)))"

definition request_target :: "ForwardEnv \<Rightarrow> HttpRequest \<Rightarrow> (TargetUrl \<times> int) result" where
  "request_target env q =
     (case fw_newUrl env (rq_url q) of
        None \<Rightarrow> Inl (throw_error ''Invalid URL'')
      | Some url \<Rightarrow>
          if tu_protocol url \<noteq> ''http:''
          then Inl (throw (appError ''Plain proxy requests require an absolute HTTP URL; use CONNECT for HTTPS'' InvalidTarget 400))
          else if tu_username url \<noteq> [] \<or> tu_password url \<noteq> []
          then Inl (throw (appError ''Target URLs must not contain credentials'' TargetForbidden 403))
          else Inr (url, url_port url 80))"

definition check_request :: "ForwardEnv \<Rightarrow> HttpRequest \<Rightarrow> (AuthenticatedRoute \<times> TargetUrl \<times> int \<times> LocalResolutionObservation) result" where
  "check_request env q =
     bind_result (authenticate_request env q) (\<lambda>route.
     bind_result (assertProtocolAllowed route Http) (\<lambda>_.
     bind_result (request_target env q) (\<lambda>(url, port).
     bind_result (fw_budget env) (\<lambda>_.
     bind_result (fw_validateTarget env (tu_hostname url) port) (\<lambda>validation.
     Inr (route, url, port, validation))))))"

subsection \<open>One attempt of a request\<close>

text \<open>
  The environment of an attempt is that of a tunnel: \<open>te_open\<close> is the connection to the upstream proxy, whose answer comes
  later; \<open>te_prepare\<close> is not used.
\<close>

definition http_connect :: "TunnelEnv \<Rightarrow> nat \<Rightarrow> UpstreamEndpoint \<Rightarrow> unit attempt_op" where
  "http_connect env i ep x = (case te_open env i ep of Inl e \<Rightarrow> (Inl (e, Some ep), x) | Inr _ \<Rightarrow> (Inr (), x))"

definition http_admit :: "TunnelEnv \<Rightarrow> TunnelOptions \<Rightarrow> nat \<Rightarrow> UpstreamEndpoint \<Rightarrow> unit attempt_op" where
  "http_admit env o' i ep x =
     (if te_gone env i
      then (Inl (throw (appError ''Caller disconnected during upstream establishment'' CallerCancelled 499), Some ep), x)
      else case assertNewConnectionAllowed (route_id (to_route o')) (ar_accessGrantId (to_route o'))
                  (ar_sessionId (to_route o')) (ts_store x) (ts_tracker x) of
             Inl e \<Rightarrow> (Inl (e, Some ep), x)
           | Inr _ \<Rightarrow> (Inr (), x))"

definition request_line_bytes :: "HttpRequest \<Rightarrow> TargetUrl \<Rightarrow> int" where
  "request_line_bytes q url =
     byteLength ((case rq_method q of None \<Rightarrow> ''GET'' | Some m \<Rightarrow> m) @ '' '' @ tu_text url @ '' HTTP/1.1'' @ CRLF)"

definition outbound_bytes :: "(byte list \<Rightarrow> string) \<Rightarrow> HttpRequest \<Rightarrow> TargetUrl \<Rightarrow> UpstreamEndpoint \<Rightarrow> int" where
  "outbound_bytes toBase64 q url upstream = request_line_bytes q url + headerBytes (forwardHeaders toBase64 (rq_headers q) upstream)"

definition attempt_http ::
    "ForwardEnv \<Rightarrow> TunnelEnv \<Rightarrow> TunnelOptions \<Rightarrow> HttpRequest \<Rightarrow> TargetUrl \<Rightarrow> nat \<Rightarrow> OpenTunnel attempt_op" where
  "attempt_http fw env o' q url i =
     bind_op (resolve_attempt env o' i) (\<lambda>ep.
     bind_op (http_connect env i ep) (\<lambda>_.
     bind_op (http_admit env o' i ep) (\<lambda>_.
     bind_op (track_attempt env o' i ep) (\<lambda>(h, ep).
     return_op \<lparr>ot_index = i, ot_handle = h, ot_upstream = ep,
                ot_bytesSent = outbound_bytes (fw_toBase64 fw) q url ep, ot_bytesReceived = 0\<rparr>))))"

text \<open>What follows a failure before the request is committed. The candidate is excluded only when another attempt follows.\<close>

definition drop_candidate :: "TunnelEnv \<Rightarrow> nat \<Rightarrow> exn \<Rightarrow> UpstreamEndpoint option \<Rightarrow> StoreState \<Rightarrow> UpstreamEndpoint option \<times> StoreState" where
  "drop_candidate env i e u s =
     (case u of
        None \<Rightarrow> (None, s)
      | Some ep \<Rightarrow>
          let (ep, s) = recordCandidateFailure (env_now (te_resolution env i)) ep e s; (ep, s) = release ep s
          in (Some ep, s))"

definition http_fail :: "TunnelEnv \<Rightarrow> TunnelOptions \<Rightarrow> nat \<Rightarrow> bool \<Rightarrow> exn \<Rightarrow> UpstreamEndpoint option \<Rightarrow> tunnel_state \<Rightarrow> tunnel_state" where
  "http_fail env o' i again e u x =
     (let (u', s) = drop_candidate env i e u (ts_store x);
          st = (case u' of
             Some ep \<Rightarrow> if again then exclude_candidate (ep_endpointId ep) (ts_resolution x) else ts_resolution x
           | None \<Rightarrow> ts_resolution x);
          x = x\<lparr>ts_store := s, ts_resolution := st\<rparr>;
          provider = (case or_else (map_option ep_provider u') (providerIdFromError e) of None \<Rightarrow> ''unresolved'' | Some p \<Rightarrow> p)
      in x\<lparr>ts_usage := ts_usage x @
            [attempt_record env o' i (te_completedAt env i) (if again then OutcomeRetry else OutcomeFailure) provider 0 0 u' x]\<rparr>)"

text \<open>The attempts, with the number of those that may still follow.\<close>

fun http_attempts ::
    "ForwardEnv \<Rightarrow> TunnelEnv \<Rightarrow> TunnelOptions \<Rightarrow> HttpRequest \<Rightarrow> TargetUrl \<Rightarrow> nat \<Rightarrow> nat \<Rightarrow> (exn, tunnel_state, OpenTunnel) op" where
  "http_attempts fw env o' q url n i x =
     (case (if i = 0 then Inr 0
            else beginAttemptBudget (te_startedAt env i) (to_establishmentDeadline o') (to_attemptTimeoutMs o')) of
        Inl e \<Rightarrow> (Inl e, x)
      | Inr _ \<Rightarrow>
          (case attempt_http fw env o' q url i x of
             (Inr t, x) \<Rightarrow> (Inr t, x)
           | (Inl (e, u), x) \<Rightarrow>
               (case n of
                  Suc m \<Rightarrow>
                    if \<not> te_cancelled env i \<and> isRetryableUpstreamFailure (exn_value e)
                    then http_attempts fw env o' q url m (i + 1) (http_fail env o' i True e u x)
                    else (Inl e, http_fail env o' i False e u x)
                | 0 \<Rightarrow> (Inl e, http_fail env o' i False e u x))))"

declare http_attempts.simps [simp del]

subsection \<open>After the commitment\<close>

datatype client_output = Head int http_headers | ErrorReply int AppErrorCode | DestroyResponse

record HttpExchange =
  hx_state :: tunnel_state
  hx_upstream :: UpstreamEndpoint
  hx_attemptFinished :: bool
  hx_bytesSent :: int
  hx_bytesReceived :: int
  hx_status :: "int option"
  hx_client :: "client_output list"
  hx_operation :: "bool option"

datatype http_event =
    RequestData int
  | UpstreamAnswer int http_headers
  | ResponseData int
  | ResponseFinished
  | ResponseClosed
  | UpstreamStreamBroken
  | UpstreamRequestError exn

definition start_exchange :: "tunnel_state \<Rightarrow> OpenTunnel \<Rightarrow> HttpExchange" where
  "start_exchange x t =
     \<lparr>hx_state = x, hx_upstream = ot_upstream t, hx_attemptFinished = False, hx_bytesSent = ot_bytesSent t,
      hx_bytesReceived = 0, hx_status = None, hx_client = [], hx_operation = None\<rparr>"

definition finish_attempt :: "TunnelEnv \<Rightarrow> TunnelOptions \<Rightarrow> OpenTunnel \<Rightarrow> timestamp \<Rightarrow> UsageOutcome \<Rightarrow> HttpExchange \<Rightarrow> HttpExchange" where
  "finish_attempt env o' t now outcome x =
     (if hx_attemptFinished x then x
      else let (s, tr) = finish now (ot_handle t) (ts_store (hx_state x), ts_tracker (hx_state x));
               y = (hx_state x)\<lparr>ts_store := s, ts_tracker := tr\<rparr>
           in x\<lparr>hx_attemptFinished := True,
                hx_state := y\<lparr>ts_usage := ts_usage y @
                  [attempt_record env o' (ot_index t) now outcome (ep_provider (hx_upstream x)) (hx_bytesSent x) (hx_bytesReceived x)
                     (Some (hx_upstream x)) y]\<rparr>\<rparr>)"

definition finish_operation :: "bool \<Rightarrow> HttpExchange \<Rightarrow> HttpExchange" where
  "finish_operation success x = (case hx_operation x of Some _ \<Rightarrow> x | None \<Rightarrow> x\<lparr>hx_operation := Some success\<rparr>)"

definition is_head :: "client_output \<Rightarrow> bool" where
  "is_head c = (case c of DestroyResponse \<Rightarrow> False | _ \<Rightarrow> True)"

definition headersSent :: "HttpExchange \<Rightarrow> bool" where
  "headersSent x \<longleftrightarrow> list_ex is_head (hx_client x)"

definition send_error :: "exn \<Rightarrow> HttpExchange \<Rightarrow> HttpExchange" where
  "send_error e x =
     (let (st, code) = (case exn_value e of AppErr a \<Rightarrow> (statusCode a, err_code a) | _ \<Rightarrow> (502, ProxyError))
      in x\<lparr>hx_client := hx_client x @ [if headersSent x then DestroyResponse else ErrorReply st code]\<rparr>)"

definition answer_metadata :: "http_headers \<Rightarrow> ProviderResolutionMetadata" where
  "answer_metadata headers =
     \<lparr>resolvedDestinationAddresses = Option.bind (js_get headers ''x-mock-resolved-destination'') resolvedAddressesFromHeader,
      resolverCountry = first_value (js_get headers ''x-mock-resolver-country''), md_opaqueIpId = None\<rparr>"

definition answer_ip :: "http_headers \<Rightarrow> string option" where
  "answer_ip headers = first_some (first_value (js_get headers ''x-brd-ip'')) (first_value (js_get headers ''x-mock-exit-ip''))"

definition fail_exchange :: "TunnelEnv \<Rightarrow> TunnelOptions \<Rightarrow> OpenTunnel \<Rightarrow> timestamp \<Rightarrow> exn \<Rightarrow> HttpExchange \<Rightarrow> HttpExchange" where
  "fail_exchange env o' t now e x = finish_operation False (send_error e (finish_attempt env o' t now OutcomeFailure x))"

definition upstream_answer ::
    "TunnelEnv \<Rightarrow> TunnelOptions \<Rightarrow> OpenTunnel \<Rightarrow> timestamp \<Rightarrow> int \<Rightarrow> http_headers \<Rightarrow> HttpExchange \<Rightarrow> HttpExchange" where
  "upstream_answer env o' t now status headers x =
     (let (ep, s) = recordCandidateSuccess now (hx_upstream x) (ts_store (hx_state x));
          x = x\<lparr>hx_upstream := ep, hx_state := (hx_state x)\<lparr>ts_store := s\<rparr>,
                hx_bytesReceived := hx_bytesReceived x + byteLength (''HTTP/1.1 '' @ show_int status @ CRLF) + headerBytes headers\<rparr>
      in case assertSafeProviderResolution (answer_metadata headers) of
           Inl e \<Rightarrow> fail_exchange env o' t now e x
         | Inr _ \<Rightarrow>
             let x = (case answer_ip headers of
                        None \<Rightarrow> x
                      | Some k \<Rightarrow> x\<lparr>hx_upstream := (hx_upstream x)\<lparr>assignment := (assignment (hx_upstream x))\<lparr>opaqueIpId := Some k\<rparr>\<rparr>\<rparr>)
             in if status = 407
                then fail_exchange env o' t now (throw (appError ''Upstream provider authentication failed'' UpstreamAuthenticationFailed 502)) x
                else x\<lparr>hx_status := Some status, hx_client := hx_client x @ [Head status (responseHeaders headers)]\<rparr>)"

text \<open>
  The listeners for the end of the response are in place once its head has been written; an upstream answers at most once.
\<close>

definition http_step :: "TunnelEnv \<Rightarrow> TunnelOptions \<Rightarrow> OpenTunnel \<Rightarrow> HttpExchange \<Rightarrow> timestamp \<times> http_event \<Rightarrow> HttpExchange" where
  "http_step env o' t x ev =
     (case ev of (now, event) \<Rightarrow>
      (case event of
         RequestData n \<Rightarrow> x\<lparr>hx_bytesSent := hx_bytesSent x + n\<rparr>
       | UpstreamAnswer status headers \<Rightarrow> if headersSent x then x else upstream_answer env o' t now status headers x
       | ResponseData n \<Rightarrow> (case hx_status x of None \<Rightarrow> x | Some _ \<Rightarrow> x\<lparr>hx_bytesReceived := hx_bytesReceived x + n\<rparr>)
       | ResponseFinished \<Rightarrow>
           (case hx_status x of
              None \<Rightarrow> x
            | Some st \<Rightarrow> finish_operation True (finish_attempt env o' t now (if 500 \<le> st then OutcomeHttpError else OutcomeSuccess) x))
       | ResponseClosed \<Rightarrow>
           (case hx_status x of
              None \<Rightarrow> x
            | Some _ \<Rightarrow> finish_operation False (finish_attempt env o' t now OutcomeFailure x))
       | UpstreamStreamBroken \<Rightarrow>
           (case hx_status x of
              None \<Rightarrow> x
            | Some _ \<Rightarrow> fail_exchange env o' t now (unavailable ''Upstream response stream closed early'') x)
       | UpstreamRequestError e \<Rightarrow> fail_exchange env o' t now (unavailable ''Upstream provider connection failed'') x))"

subsection \<open>The whole request\<close>

record HttpOutcome =
  ho_client :: "client_output list"
  ho_state :: tunnel_state

definition error_reply :: "exn \<Rightarrow> client_output" where
  "error_reply e = (case exn_value e of AppErr a \<Rightarrow> ErrorReply (statusCode a) (err_code a) | _ \<Rightarrow> ErrorReply 502 ProxyError)"

definition request_options ::
    "(string \<Rightarrow> int \<Rightarrow> string \<Rightarrow> UsageDestination) \<Rightarrow> string \<Rightarrow> timestamp \<Rightarrow> int \<Rightarrow> AuthenticatedRoute \<Rightarrow> TargetUrl \<Rightarrow> int \<Rightarrow> TunnelOptions" where
  "request_options destination operation deadline timeout route url port =
     \<lparr>to_route = route, to_protocol = Http, to_target = \<lparr>pt_host = tu_hostname url, pt_port = port\<rparr>,
      to_destination = destination (tu_hostname url) port (tu_pathname url), to_operationId = operation,
      to_establishmentDeadline = deadline, to_attemptTimeoutMs = timeout\<rparr>"

definition handleRequest ::
    "ForwardEnv \<Rightarrow> TunnelEnv \<Rightarrow> (string \<Rightarrow> int \<Rightarrow> string \<Rightarrow> UsageDestination) \<Rightarrow> string \<Rightarrow> timestamp \<Rightarrow> int \<Rightarrow> HttpRequest
     \<Rightarrow> (timestamp \<times> http_event) list \<Rightarrow> StoreState \<times> ActiveConnectionTracker \<times> string list \<Rightarrow> HttpOutcome" where
  "handleRequest fw env destination operation deadline timeout q events = (\<lambda>(s, tr, prepared).
     let x = \<lparr>ts_store = s, ts_tracker = tr, ts_resolution = createResolutionState, ts_prepared = prepared, ts_usage = []\<rparr>
     in case check_request fw q of
          Inl e \<Rightarrow> \<lparr>ho_client = [error_reply e], ho_state = x\<rparr>
        | Inr (route, url, port, _) \<Rightarrow>
            let o' = request_options destination operation deadline timeout route url port
            in case http_attempts fw env o' q url (max_attempts route - 1) 0 x of
                 (Inl e, y) \<Rightarrow> \<lparr>ho_client = [error_reply e], ho_state = y\<rparr>
               | (Inr t, y) \<Rightarrow>
                   let z = foldl (http_step env o' t) (start_exchange y t) events
                   in \<lparr>ho_client = hx_client z, ho_state = hx_state z\<rparr>)"

subsection \<open>CONNECT\<close>

definition parseHostPort :: "(string \<Rightarrow> TargetUrl option) \<Rightarrow> string \<Rightarrow> int \<Rightarrow> (string \<times> int) result" where
  "parseHostPort newUrl given defaultPort =
     (case newUrl (''http://'' @ given) of
        None \<Rightarrow> Inl (throw (appError ''CONNECT requires a host:port authority without credentials, path, or query'' InvalidTarget 400))
      | Some url \<Rightarrow>
          if trim given = [] \<or> tu_hostname url = [] \<or> tu_username url \<noteq> [] \<or> tu_password url \<noteq> []
             \<or> tu_pathname url \<noteq> ''/'' \<or> tu_search url \<noteq> [] \<or> tu_hash url \<noteq> []
          then Inl (throw (appError ''CONNECT requires a host:port authority without credentials, path, or query'' InvalidTarget 400))
          else let h = tu_hostname url
               in Inr (if 2 \<le> length h \<and> hd h = CHR ''['' \<and> last h = CHR '']'' then butlast (tl h) else h, url_port url defaultPort))"

datatype connect_output = ConnectEstablished | TunnelBytes "byte list" | ConnectRefused string bool

definition check_connect :: "ForwardEnv \<Rightarrow> HttpRequest \<Rightarrow> (AuthenticatedRoute \<times> TunnelTarget \<times> LocalResolutionObservation) result" where
  "check_connect env q =
     bind_result (authenticate_request env q) (\<lambda>route.
     bind_result (assertProtocolAllowed route Https) (\<lambda>_.
     bind_result (parseHostPort (fw_newUrl env) (rq_url q) 443) (\<lambda>(host, port).
     bind_result (fw_budget env) (\<lambda>_.
     bind_result (fw_validateTarget env host port) (\<lambda>validation.
     Inr (route, \<lparr>tt_host = host, tt_port = port\<rparr>, validation))))))"

definition connect_refusal :: "exn \<Rightarrow> connect_output" where
  "connect_refusal e =
     (let st = (case exn_value e of AppErr a \<Rightarrow> statusCode a | _ \<Rightarrow> 503)
      in if st = 407 then ConnectRefused ''407 Proxy Authentication Required'' True
         else if st = 403 then ConnectRefused ''403 Forbidden'' False
         else ConnectRefused ''502 Bad Gateway'' False)"

text \<open>\<open>run_tunnel\<close> is the tunnel operation, with what the upstream had already sent when the client was prepared, if it was.\<close>

definition handleConnect ::
    "ForwardEnv \<Rightarrow> (AuthenticatedRoute \<Rightarrow> TunnelTarget \<Rightarrow> LocalResolutionObservation \<Rightarrow> 's \<Rightarrow> (byte list option \<times> unit result) \<times> 's)
     \<Rightarrow> HttpRequest \<Rightarrow> 's \<Rightarrow> connect_output list \<times> 's" where
  "handleConnect env run_tunnel q s =
     (case check_connect env q of
        Inl e \<Rightarrow> ([connect_refusal e], s)
      | Inr (route, target, validation) \<Rightarrow>
          (case run_tunnel route target validation s of
             ((prepared, r), s) \<Rightarrow>
               ((case prepared of None \<Rightarrow> [] | Some remainder \<Rightarrow> ConnectEstablished # (if remainder = [] then [] else [TunnelBytes remainder])) @
                (case r of Inl e \<Rightarrow> [connect_refusal e] | Inr _ \<Rightarrow> []), s)))"

subsection \<open>Headers of one hop\<close>

lemma delete_all_get: "js_get (foldl js_delete m ks) k = (if k \<in> set ks then None else js_get m k)"
  by (induction ks arbitrary: m) auto

text \<open>
  No credential crosses the gateway: the request that goes to the provider carries the provider's credentials in the
  place of the customer's and no other header of the hop; the answer to the customer carries none of the headers by which
  the provider talks to its proxy client; all other headers pass unchanged.
\<close>

theorem hop_headers_replaced:
  "js_get (forwardHeaders toBase64 headers upstream) k =
     (if k = ''proxy-authorization'' then Some [basicAuth toBase64 (ep_username upstream) (ep_password upstream)]
      else if k = ''connection'' then Some [''close'']
      else if k = ''proxy-connection'' then None
      else js_get headers k)
   \<and> js_get (responseHeaders headers) k =
     (if k = ''connection'' then Some [''close''] else if k \<in> set PROXY_HEADERS then None else js_get headers k)"
  by (simp add: forwardHeaders_def responseHeaders_def delete_all_get Let_def)

subsection \<open>Every attempt of a request is accounted for\<close>

lemma attempt_http_usage: "keeps_usage x (snd (attempt_http fw env o' q url i x))"
  unfolding attempt_http_def
proof (intro bind_op_keeps [where R = keeps_usage])
  show "keeps_usage x (snd (resolve_attempt env o' i x))" for x
    by (auto simp: keeps_usage_def resolve_attempt_def Let_def split: prod.split sum.split option.split)
  show "keeps_usage x (snd (http_connect env i ep x))" for ep x
    by (auto simp: keeps_usage_def http_connect_def split: sum.split)
  show "keeps_usage x (snd (http_admit env o' i ep x))" for ep x
    by (auto simp: keeps_usage_def http_admit_def split: sum.split)
  show "keeps_usage x (snd (track_attempt env o' i ep x))" for ep x
    by (auto simp: keeps_usage_def track_attempt_def split: prod.split sum.split)
qed (auto simp: keeps_usage_def)

lemma attempt_http_index: "attempt_http fw env o' q url i x = (Inr t, y) \<Longrightarrow> ot_index t = i"
  unfolding attempt_http_def by (auto elim!: bind_op_InrE split: prod.splits)

lemma http_fail_account:
  "\<exists>r. ts_usage (http_fail env o' i again e u x) = ts_usage x @ [r]
     \<and> account r = attempt_account env (if again then OutcomeRetry else OutcomeFailure) i"
  by (cases u)
     (auto simp: http_fail_def drop_candidate_def Let_def account_def attempt_account_def attempt_record_def attemptUsageRecord_def split: prod.split)

definition accounted :: "TunnelEnv \<Rightarrow> nat \<Rightarrow> nat \<Rightarrow> exn + OpenTunnel \<Rightarrow> (string \<times> int \<times> UsageOutcome \<times> int) list \<Rightarrow> bool" where
  "accounted env i n r U \<longleftrightarrow>
     (case r of
        Inr t \<Rightarrow> i \<le> ot_index t \<and> ot_index t \<le> i + n \<and> U = map (attempt_account env OutcomeRetry) [i..<ot_index t]
      | Inl e \<Rightarrow> \<exists>k \<le> n. U = map (attempt_account env OutcomeRetry) [i..<i + k]
          \<or> U = map (attempt_account env OutcomeRetry) [i..<i + k] @ [attempt_account env OutcomeFailure (i + k)])"

lemma accounted_retry:
  assumes "accounted env (Suc i) n r U"
  shows "accounted env i (Suc n) r (attempt_account env OutcomeRetry i # U)"
proof (cases r)
  case (Inl e)
  with assms obtain k where k: "k \<le> n" "U = map (attempt_account env OutcomeRetry) [Suc i..<Suc i + k]
      \<or> U = map (attempt_account env OutcomeRetry) [Suc i..<Suc i + k] @ [attempt_account env OutcomeFailure (Suc i + k)]"
    by (auto simp: accounted_def)
  have "[i..<i + Suc k] = i # [Suc i..<Suc i + k]" by (simp add: upt_conv_Cons)
  with k show ?thesis unfolding accounted_def Inl sum.case by (intro exI [of _ "Suc k"]) auto
next
  case (Inr t)
  with assms show ?thesis by (auto simp: accounted_def upt_conv_Cons)
qed

text \<open>The ways a sequence of attempts goes on after its first one.\<close>

lemma http_attempts_cases:
  assumes "http_attempts fw env o' q url n i x = (r, y)"
  obtains (late) e where "r = Inl e" "y = x"
  | (opened) t where "attempt_http fw env o' q url i x = (Inr t, y)" "r = Inr t"
  | (failed) e u x1 where "attempt_http fw env o' q url i x = (Inl (e, u), x1)" "r = Inl e" "y = http_fail env o' i False e u x1"
  | (again) e u x1 m where "attempt_http fw env o' q url i x = (Inl (e, u), x1)" "n = Suc m"
      "http_attempts fw env o' q url m (i + 1) (http_fail env o' i True e u x1) = (r, y)"
proof (cases "if i = 0 then Inr 0 else beginAttemptBudget (te_startedAt env i) (to_establishmentDeadline o') (to_attemptTimeoutMs o')")
  case (Inl e)
  then show thesis using assms late [of e] by (subst (asm) http_attempts.simps) simp
next
  case (Inr d)
  obtain r1 x1 where one: "attempt_http fw env o' q url i x = (r1, x1)" by (meson surj_pair)
  show thesis
  proof (cases r1)
    case ok: (Inr t)
    then show thesis using assms Inr one opened [of t] by (subst (asm) http_attempts.simps) simp
  next
    case (Inl eu)
    obtain e u where eu: "eu = (e, u)" by (meson surj_pair)
    have run: "http_attempts fw env o' q url n i x = (case n of
        Suc m \<Rightarrow> if \<not> te_cancelled env i \<and> isRetryableUpstreamFailure (exn_value e)
                 then http_attempts fw env o' q url m (i + 1) (http_fail env o' i True e u x1)
                 else (Inl e, http_fail env o' i False e u x1)
      | 0 \<Rightarrow> (Inl e, http_fail env o' i False e u x1))"
      using Inr one Inl eu by (subst http_attempts.simps) simp
    have one': "attempt_http fw env o' q url i x = (Inl (e, u), x1)" using one Inl eu by simp
    show thesis
    proof (cases "\<exists>m. n = Suc m \<and> \<not> te_cancelled env i \<and> isRetryableUpstreamFailure (exn_value e)")
      case True
      then obtain m where m: "n = Suc m" "\<not> te_cancelled env i \<and> isRetryableUpstreamFailure (exn_value e)" by blast
      with assms run have "http_attempts fw env o' q url m (i + 1) (http_fail env o' i True e u x1) = (r, y)" by simp
      then show thesis by (rule again [OF one' m(1)])
    next
      case False
      then have "(case n of
          Suc m \<Rightarrow> if \<not> te_cancelled env i \<and> isRetryableUpstreamFailure (exn_value e)
                   then http_attempts fw env o' q url m (i + 1) (http_fail env o' i True e u x1)
                   else (Inl e, http_fail env o' i False e u x1)
        | 0 \<Rightarrow> (Inl e, http_fail env o' i False e u x1)) = (Inl e, http_fail env o' i False e u x1)"
        by (cases n) auto
      then have "(r, y) = (Inl e, http_fail env o' i False e u x1)" using assms run by (simp only:)
      then show thesis by (intro failed [OF one']) simp_all
    qed
  qed
qed

lemma http_attempts_account:
  assumes "http_attempts fw env o' q url n i x = (r, y)"
  shows "\<exists>U. ts_usage y = ts_usage x @ U \<and> accounted env i n r (map account U)"
  using assms
proof (induction n arbitrary: i x rule: less_induct)
  case (less n i x)
  have kept: "ts_usage x1 = ts_usage x" if "attempt_http fw env o' q url i x = (r1, x1)" for r1 x1
    using attempt_http_usage [of x fw env o' q url i] that by (simp add: keeps_usage_def)
  from less.prems show ?case
  proof (cases rule: http_attempts_cases)
    case (late e)
    then show ?thesis by (auto simp: accounted_def)
  next
    case (opened t)
    then show ?thesis using attempt_http_index kept by (auto simp: accounted_def)
  next
    case (failed e u x1)
    obtain a where a: "ts_usage (http_fail env o' i False e u x1) = ts_usage x1 @ [a]" "account a = attempt_account env OutcomeFailure i"
      using http_fail_account [of env o' i False e u x1] by auto
    have "accounted env i n r (map account [a])" using a(2) failed(2) by (auto simp: accounted_def intro: exI [of _ 0])
    then show ?thesis using a(1) kept [OF failed(1)] failed(3) by (intro exI [of _ "[a]"]) simp
  next
    case (again e u x1 m)
    from less.IH [OF _ again(3)] again(2) obtain U where U: "ts_usage y = ts_usage (http_fail env o' i True e u x1) @ U"
      "accounted env (Suc i) m r (map account U)" by auto
    obtain a where a: "ts_usage (http_fail env o' i True e u x1) = ts_usage x1 @ [a]" "account a = attempt_account env OutcomeRetry i"
      using http_fail_account [of env o' i True e u x1] by auto
    from accounted_retry [OF U(2)] show ?thesis
      using U(1) a again(2) kept [OF again(1)] by (intro exI [of _ "a # U"]) simp
  qed
qed

subsection \<open>The slot of a request\<close>

lemma http_connect_slot: "triple (claims T ep) (http_connect env i ep) (\<lambda>_. claims T ep) (failed_attempt T)"
  by (auto simp: triple_def http_connect_def intro: claims_failed split: sum.splits)

lemma http_admit_slot: "triple (claims T ep) (http_admit env o' i ep) (\<lambda>_. claims T ep) (failed_attempt T)"
  by (auto simp: triple_def http_admit_def intro: claims_failed split: sum.splits if_splits)

lemma attempt_http_slot:
  assumes "adapters_ok (te_resolution env i)"
  shows "triple (\<lambda>x. slot_ids (ts_store x) = T) (attempt_http fw env o' q url i) (open_tunnel T) (failed_attempt T)"
  unfolding attempt_http_def
proof (rule triple_bind [OF resolve_attempt_slot [OF assms]], rule triple_bind [OF http_connect_slot],
    rule triple_bind [OF http_admit_slot], rule triple_bind [OF track_attempt_slot])
  fix ep and a :: "FinishHandle \<times> UpstreamEndpoint"
  obtain h ep' where a: "a = (h, ep')" by (meson surj_pair)
  show "triple ((case a of (h, ep') \<Rightarrow> \<lambda>x. claims T ep' x \<and> activeLoadClaimId ep' = Some (fh_connectionId h)
        \<and> has (tr_unfinished (ts_tracker x)) h \<and> js_has (tr_connections (ts_tracker x)) (fh_connectionId h)))
      (case a of (h, ep) \<Rightarrow> return_op \<lparr>ot_index = i, ot_handle = h, ot_upstream = ep,
                ot_bytesSent = outbound_bytes (fw_toBase64 fw) q url ep, ot_bytesReceived = 0\<rparr>)
      (open_tunnel T) (failed_attempt T)"
    by (simp add: a triple_def open_tunnel_def)
qed

lemma http_fail_slot:
  assumes "failed_attempt T (e, u) x"
  shows "slot_ids (ts_store (http_fail env o' i again e u x)) = T"
proof -
  have same: "ts_store (http_fail env o' i again e u x) = ts_store (fail_attempt env o' i e u x)"
    by (cases u) (simp_all add: http_fail_def fail_attempt_def drop_candidate_def Let_def split: prod.splits)
  show ?thesis unfolding same by (rule fail_attempt_slot [OF assms])
qed

lemma http_attempts_slot:
  assumes "\<And>i. adapters_ok (te_resolution env i)" "http_attempts fw env o' q url n i x = (r, y)" "slot_ids (ts_store x) = T"
  shows "case r of Inl e \<Rightarrow> slot_ids (ts_store y) = T | Inr t \<Rightarrow> open_tunnel T t y"
  using assms(2,3)
proof (induction n arbitrary: i x rule: less_induct)
  case (less n i x)
  note slot = triple_run [OF attempt_http_slot [OF assms(1)] less.prems(2)]
  from less.prems(1) show ?case
  proof (cases rule: http_attempts_cases)
    case (late e)
    then show ?thesis using less.prems(2) by simp
  next
    case (opened t)
    then show ?thesis using slot by fastforce
  next
    case (failed e u x1)
    then show ?thesis using slot [OF failed(1)] http_fail_slot by simp
  next
    case (again e u x1 m)
    then show ?thesis using less.IH [OF _ again(3)] slot [OF again(1)] http_fail_slot by simp
  qed
qed

subsection \<open>An exchange settles once\<close>

text \<open>Before the attempt has finished the slot is held and nothing more is recorded; afterwards neither changes again.\<close>

definition exchange_ok :: "TunnelEnv \<Rightarrow> string list \<Rightarrow> UsageRecord list \<Rightarrow> OpenTunnel \<Rightarrow> HttpExchange \<Rightarrow> bool" where
  "exchange_ok env T U t x \<longleftrightarrow>
     fh_connectionId (ot_handle t) \<notin> set T \<and> length (filter is_head (hx_client x)) \<le> 1
     \<and> (hx_status x \<noteq> None \<longrightarrow> headersSent x)
     \<and> (if hx_attemptFinished x
         then slot_ids (ts_store (hx_state x)) = T
           \<and> (\<exists>r. ts_usage (hx_state x) = U @ [r] \<and> ur_id r = te_attemptId env (ot_index t) \<and> retryIndex r = int (ot_index t)
                \<and> bytesSent r \<le> hx_bytesSent x \<and> bytesReceived r \<le> hx_bytesReceived x)
         else slot_ids (ts_store (hx_state x)) = T @ [fh_connectionId (ot_handle t)] \<and> ts_usage (hx_state x) = U
           \<and> has (tr_unfinished (ts_tracker (hx_state x))) (ot_handle t))"

lemma start_exchange_ok: "open_tunnel T t y \<Longrightarrow> exchange_ok env T (ts_usage y) t (start_exchange y t)"
  by (auto simp: exchange_ok_def start_exchange_def open_tunnel_def claims_def)

lemma finish_attempt_ok:
  assumes "exchange_ok env T U t x"
  shows "exchange_ok env T U t (finish_attempt env o' t now outcome x)" "hx_attemptFinished (finish_attempt env o' t now outcome x)"
    "hx_client (finish_attempt env o' t now outcome x) = hx_client x"
proof -
  have "exchange_ok env T U t (finish_attempt env o' t now outcome x) \<and> hx_attemptFinished (finish_attempt env o' t now outcome x)
      \<and> hx_client (finish_attempt env o' t now outcome x) = hx_client x"
  proof (cases "hx_attemptFinished x")
    case True
    then show ?thesis using assms by (simp add: finish_attempt_def)
  next
    case False
    with assms have x: "slot_ids (ts_store (hx_state x)) = T @ [fh_connectionId (ot_handle t)]" "fh_connectionId (ot_handle t) \<notin> set T"
      "has (tr_unfinished (ts_tracker (hx_state x))) (ot_handle t)" "ts_usage (hx_state x) = U" by (simp_all add: exchange_ok_def)
    obtain s1 tr1 where fin: "finish now (ot_handle t) (ts_store (hx_state x), ts_tracker (hx_state x)) = (s1, tr1)" by (meson surj_pair)
    have "slot_ids s1 = T"
      using finish_slot_ids [of now "ot_handle t" "ts_store (hx_state x)" "ts_tracker (hx_state x)"] fin x filter_fresh(1) [OF x(2)] by simp
    then show ?thesis
      using assms False fin x by (simp add: finish_attempt_def exchange_ok_def headersSent_def attempt_record_def attemptUsageRecord_def Let_def)
  qed
  then show "exchange_ok env T U t (finish_attempt env o' t now outcome x)" "hx_attemptFinished (finish_attempt env o' t now outcome x)"
    "hx_client (finish_attempt env o' t now outcome x) = hx_client x" by blast+
qed

lemma finish_operation_ok: "exchange_ok env T U t (finish_operation b x) = exchange_ok env T U t x"
    "hx_attemptFinished (finish_operation b x) = hx_attemptFinished x"
  by (simp_all add: finish_operation_def exchange_ok_def headersSent_def split: option.splits)

lemma send_error_ok: "exchange_ok env T U t x \<Longrightarrow> exchange_ok env T U t (send_error e x)"
    "hx_attemptFinished (send_error e x) = hx_attemptFinished x"
proof -
  have heads: "headersSent x \<or> filter is_head (hx_client x) = []" for x by (auto simp: headersSent_def list_ex_iff filter_empty_conv)
  obtain c where c: "send_error e x = x\<lparr>hx_client := hx_client x @ [if headersSent x then DestroyResponse else c]\<rparr>" "is_head c"
    by (cases "exn_value e") (auto simp: send_error_def is_head_def Let_def intro!: that)
  show "exchange_ok env T U t x \<Longrightarrow> exchange_ok env T U t (send_error e x)"
    using heads [of x] c(2) unfolding c(1) by (auto simp: exchange_ok_def headersSent_def is_head_def)
  show "hx_attemptFinished (send_error e x) = hx_attemptFinished x" by (simp add: c(1))
qed

lemma fail_exchange_ok:
  "exchange_ok env T U t x \<Longrightarrow> exchange_ok env T U t (fail_exchange env o' t now e x) \<and> hx_attemptFinished (fail_exchange env o' t now e x)"
  unfolding fail_exchange_def finish_operation_ok send_error_ok(2)
  by (blast intro: send_error_ok(1) finish_attempt_ok)

lemma foldl_nonneg:
  assumes "\<And>y. 0 \<le> (g y :: int)"
  shows "0 \<le> k \<Longrightarrow> 0 \<le> foldl (\<lambda>total y. total + g y) k ys"
  using assms by (induction ys arbitrary: k) simp_all

lemma headerBytes_nonneg: "0 \<le> headerBytes headers"
proof -
  have line: "0 \<le> byteLength s" for s by (simp add: byteLength_def)
  have entry: "0 \<le> (case e of (name, vs) \<Rightarrow> foldl (\<lambda>subtotal item. subtotal + byteLength (name @ '': '' @ item @ CRLF)) 0 vs)"
    for e :: "string \<times> string list"
    by (cases e) (simp add: foldl_nonneg line)
  have "(\<lambda>total (name, vs). total + foldl (\<lambda>subtotal item. subtotal + byteLength (name @ '': '' @ item @ CRLF)) 0 vs)
      = (\<lambda>total e. total + (case e of (name, vs) \<Rightarrow> foldl (\<lambda>subtotal item. subtotal + byteLength (name @ '': '' @ item @ CRLF)) 0 vs))"
    by (simp add: fun_eq_iff)
  then show ?thesis unfolding headerBytes_def using foldl_nonneg [OF entry, where k = 2 and ys = headers] by simp
qed

lemma upstream_answer_ok:
  assumes "exchange_ok env T U t x" "\<not> headersSent x"
  shows "exchange_ok env T U t (upstream_answer env o' t now status headers x)"
proof -
  obtain ep s where c: "recordCandidateSuccess now (hx_upstream x) (ts_store (hx_state x)) = (ep, s)" by (meson surj_pair)
  let ?n = "byteLength (''HTTP/1.1 '' @ show_int status @ CRLF) + headerBytes headers"
  define x1 where "x1 = x\<lparr>hx_upstream := ep, hx_state := (hx_state x)\<lparr>ts_store := s\<rparr>,
      hx_bytesReceived := hx_bytesReceived x + byteLength (''HTTP/1.1 '' @ show_int status @ CRLF) + headerBytes headers\<rparr>"
  have "0 \<le> ?n" using headerBytes_nonneg by (simp add: byteLength_def)
  then have x1: "exchange_ok env T U t x1" "\<not> headersSent x1"
    using assms success_frame [OF c] by (auto simp: exchange_ok_def x1_def headersSent_def)
  have ip: "exchange_ok env T U t (x1\<lparr>hx_upstream := u\<rparr>)" "\<not> headersSent (x1\<lparr>hx_upstream := u\<rparr>)" for u
    using x1 by (simp_all add: exchange_ok_def headersSent_def)
  have head: "exchange_ok env T U t (y\<lparr>hx_status := Some status, hx_client := hx_client y @ [Head status h]\<rparr>)"
    if "exchange_ok env T U t y" "\<not> headersSent y" for y h
    using that by (auto simp: exchange_ok_def headersSent_def is_head_def list_ex_iff filter_empty_conv)
  define x2 where "x2 = (case answer_ip headers of
      None \<Rightarrow> x1 | Some k \<Rightarrow> x1\<lparr>hx_upstream := (hx_upstream x1)\<lparr>assignment := (assignment (hx_upstream x1))\<lparr>opaqueIpId := Some k\<rparr>\<rparr>\<rparr>)"
  have x2: "exchange_ok env T U t x2" "\<not> headersSent x2" using x1 ip by (auto simp: x2_def split: option.splits)
  show ?thesis
    unfolding upstream_answer_def c Let_def prod.case x1_def [symmetric] x2_def [symmetric]
    using fail_exchange_ok [OF x1(1)] fail_exchange_ok [OF x2(1)] head [OF x2] by (simp split: sum.splits)
qed

lemma http_step_ok:
  assumes "exchange_ok env T U t x" "case ev of (_, RequestData n) \<Rightarrow> 0 \<le> n | (_, ResponseData n) \<Rightarrow> 0 \<le> n | _ \<Rightarrow> True"
  shows "exchange_ok env T U t (http_step env o' t x ev)"
proof -
  obtain now event where ev: "ev = (now, event)" by (meson surj_pair)
  have bytes: "0 \<le> n \<Longrightarrow> exchange_ok env T U t (x\<lparr>hx_bytesSent := hx_bytesSent x + n\<rparr>)"
    "0 \<le> n \<Longrightarrow> exchange_ok env T U t (x\<lparr>hx_bytesReceived := hx_bytesReceived x + n\<rparr>)" for n
    using assms(1) by (auto simp: exchange_ok_def headersSent_def)
  show ?thesis
    using assms(2) assms(1) bytes fail_exchange_ok [OF assms(1)] finish_attempt_ok(1) [OF assms(1)] upstream_answer_ok [OF assms(1)]
    unfolding ev by (cases event) (simp_all add: http_step_def finish_operation_ok split: option.splits)
qed

lemma exchange_run_ok:
  assumes "exchange_ok env T U t x" "list_all (\<lambda>ev. case ev of (_, RequestData n) \<Rightarrow> 0 \<le> n | (_, ResponseData n) \<Rightarrow> 0 \<le> n | _ \<Rightarrow> True) evs"
  shows "exchange_ok env T U t (foldl (http_step env o' t) x evs)"
  using assms by (induction evs arbitrary: x) (auto intro: http_step_ok)

lemma finished_stays: "hx_attemptFinished x \<Longrightarrow> hx_attemptFinished (http_step env o' t x ev)"
  by (cases ev; cases "snd ev")
    (auto simp: http_step_def finish_attempt_def finish_operation_def send_error_def fail_exchange_def upstream_answer_def Let_def
      split: option.splits prod.splits sum.splits)

lemma finished_run: "hx_attemptFinished x \<Longrightarrow> hx_attemptFinished (foldl (http_step env o' t) x evs)"
  by (induction evs arbitrary: x) (auto intro: finished_stays)

lemma request_error_finishes:
  assumes "exchange_ok env T U t x" "(now, UpstreamRequestError e) \<in> set evs"
    "list_all (\<lambda>ev. case ev of (_, RequestData n) \<Rightarrow> 0 \<le> n | (_, ResponseData n) \<Rightarrow> 0 \<le> n | _ \<Rightarrow> True) evs"
  shows "hx_attemptFinished (foldl (http_step env o' t) x evs)"
  using assms
proof (induction evs arbitrary: x)
  case (Cons ev evs)
  show ?case
  proof (cases "ev = (now, UpstreamRequestError e)")
    case True
    then have "hx_attemptFinished (http_step env o' t x ev)" using fail_exchange_ok [OF Cons.prems(1)] by (simp add: http_step_def)
    then show ?thesis by (simp add: finished_run)
  next
    case False
    then show ?thesis using Cons.IH [OF http_step_ok [OF Cons.prems(1)]] Cons.prems(2,3) by simp
  qed
qed simp

text \<open>
  C8. A plain request holds its slot exactly while its exchange is open and is billed once: a request that is never
  committed leaves the registered tunnels as they were; a committed one holds one more until its attempt finishes, at the
  latest when the connection to the provider fails, and whatever events follow then writes exactly one record, of no
  more bytes than were counted. The customer gets at most one response head.
\<close>

theorem http_exchange_settles:
  assumes "\<forall>i. adapters_ok (te_resolution env i)" "http_attempts fw env o' q url n 0 x = (r, y)"
    and "list_all (\<lambda>ev. case ev of (_, RequestData n) \<Rightarrow> 0 \<le> n | (_, ResponseData n) \<Rightarrow> 0 \<le> n | _ \<Rightarrow> True) events"
  shows "case r of
      Inl e \<Rightarrow> slot_ids (ts_store y) = slot_ids (ts_store x)
    | Inr t \<Rightarrow>
        let z = foldl (http_step env o' t) (start_exchange y t) events
        in length (filter is_head (hx_client z)) \<le> 1
           \<and> (hx_attemptFinished z \<or> list_all (\<lambda>ev. case snd ev of UpstreamRequestError e \<Rightarrow> False | _ \<Rightarrow> True) events)
           \<and> (if hx_attemptFinished z
               then slot_ids (ts_store (hx_state z)) = slot_ids (ts_store x)
                 \<and> (\<exists>b. ts_usage (hx_state z) = ts_usage y @ [b] \<and> ur_id b = te_attemptId env (ot_index t)
                      \<and> bytesSent b \<le> hx_bytesSent z \<and> bytesReceived b \<le> hx_bytesReceived z)
               else ts_usage (hx_state z) = ts_usage y
                 \<and> slot_ids (ts_store (hx_state z)) = slot_ids (ts_store x) @ [fh_connectionId (ot_handle t)])"
proof (cases r)
  case (Inl e)
  then show ?thesis using http_attempts_slot [OF _ assms(2) refl] assms(1) by auto
next
  case (Inr t)
  let ?T = "slot_ids (ts_store x)" and ?z = "foldl (http_step env o' t) (start_exchange y t) events"
  have "open_tunnel ?T t y" using http_attempts_slot [OF _ assms(2) refl] assms(1) Inr by auto
  then have start: "exchange_ok env ?T (ts_usage y) t (start_exchange y t)" by (rule start_exchange_ok)
  have ok: "exchange_ok env ?T (ts_usage y) t ?z" by (rule exchange_run_ok [OF start assms(3)])
  have ended: "hx_attemptFinished ?z \<or> list_all (\<lambda>ev. case snd ev of UpstreamRequestError e \<Rightarrow> False | _ \<Rightarrow> True) events"
  proof (rule disjCI)
    assume quiet: "\<not> list_all (\<lambda>ev. case snd ev of UpstreamRequestError e \<Rightarrow> False | _ \<Rightarrow> True) events"
    then obtain ev where ev: "ev \<in> set events" "\<not> (case snd ev of UpstreamRequestError e \<Rightarrow> False | _ \<Rightarrow> True)"
      unfolding list_all_iff by blast
    obtain now e where "ev = (now, UpstreamRequestError e)" using ev(2) by (cases ev; cases "snd ev") simp_all
    then show "hx_attemptFinished ?z" using request_error_finishes [OF start _ assms(3)] ev(1) by blast
  qed
  show ?thesis
  proof (cases "hx_attemptFinished ?z")
    case True
    then show ?thesis using ok unfolding Inr sum.case Let_def exchange_ok_def by (simp only: if_True simp_thms) blast
  next
    case False
    then show ?thesis using ok ended unfolding Inr sum.case Let_def exchange_ok_def by (simp only: if_False simp_thms)
  qed
qed

text \<open>
  Every attempt of a plain request is recorded exactly once and in order: those before a committed attempt as retries,
  and when none is committed a last one as the failure, unless the time of the operation ended between two attempts.
\<close>

theorem http_attempts_accounted:
  "case http_attempts fw env o' q url n 0 x of
     (Inr t, y) \<Rightarrow> ot_index t \<le> n
       \<and> (\<exists>U. ts_usage y = ts_usage x @ U \<and> map account U = map (attempt_account env OutcomeRetry) [0..<ot_index t])
   | (Inl e, y) \<Rightarrow> \<exists>k U. k \<le> n \<and> ts_usage y = ts_usage x @ U
       \<and> (map account U = map (attempt_account env OutcomeRetry) [0..<k]
          \<or> map account U = map (attempt_account env OutcomeRetry) [0..<k] @ [attempt_account env OutcomeFailure k])"
proof -
  obtain r y where run: "http_attempts fw env o' q url n 0 x = (r, y)" by (meson surj_pair)
  from http_attempts_account [OF run] obtain U where U: "ts_usage y = ts_usage x @ U" "accounted env 0 n r (map account U)" by blast
  show ?thesis
  proof (cases r)
    case (Inl e)
    with U(2) obtain k where k: "k \<le> n" "map account U = map (attempt_account env OutcomeRetry) [0..<k]
        \<or> map account U = map (attempt_account env OutcomeRetry) [0..<k] @ [attempt_account env OutcomeFailure k]"
      by (auto simp: accounted_def)
    show ?thesis unfolding run Inl prod.case sum.case
      by (rule exI [of _ k], rule exI [of _ U]) (use k U(1) in simp)
  next
    case (Inr t)
    with U(2) have t: "ot_index t \<le> n" "map account U = map (attempt_account env OutcomeRetry) [0..<ot_index t]"
      by (simp_all add: accounted_def)
    show ?thesis unfolding run Inr prod.case sum.case using U(1) t by blast
  qed
qed

subsubsection \<open>A concrete request\<close>

definition sample_forward_env :: ForwardEnv where
  "sample_forward_env =
     \<lparr>fw_fromBase64 = (\<lambda>_. []), fw_toBase64 = (\<lambda>_. ''cred''), fw_decode = (\<lambda>_. []), fw_newUrl = (\<lambda>_. None),
      fw_authenticate = (\<lambda>_ _. Inr sample_auth_route), fw_budget = Inr (), fw_validateTarget = (\<lambda>_ _. Inr \<lparr>lr_status = ResolutionAvailable, lr_addresses = []\<rparr>)\<rparr>"

definition sample_request :: HttpRequest where
  "sample_request = \<lparr>rq_method = Some ''GET'', rq_url = ''http://example.com/'', rq_headers = []\<rparr>"

definition sample_url :: TargetUrl where
  "sample_url = \<lparr>tu_protocol = ''http:'', tu_username = [], tu_password = [], tu_hostname = ''example.com'', tu_port = [],
     tu_pathname = ''/'', tu_search = [], tu_hash = [], tu_text = ''http://example.com/''\<rparr>"

definition sample_start :: tunnel_state where
  "sample_start = \<lparr>ts_store = sample_store, ts_tracker = new_tracker, ts_resolution = createResolutionState, ts_prepared = [], ts_usage = []\<rparr>"

definition sample_events :: "(timestamp \<times> http_event) list" where
  "sample_events = [(1, RequestData 3), (2, UpstreamRequestError (throw_error ''reset''))]"

lemma sample_request_commits:
  "case http_attempts sample_forward_env sample_tunnel_env sample_tunnel_options sample_request sample_url 2 0 sample_start of
     (Inr t, y) \<Rightarrow> ot_index t = 0 | _ \<Rightarrow> False"
  by code_simp

theorem http_exchange_settles_witness:
  "\<exists>t y z. http_attempts sample_forward_env sample_tunnel_env sample_tunnel_options sample_request sample_url 2 0 sample_start = (Inr t, y)
     \<and> z = foldl (http_step sample_tunnel_env sample_tunnel_options t) (start_exchange y t) sample_events
     \<and> hx_attemptFinished z \<and> slot_ids (ts_store (hx_state z)) = slot_ids sample_store"
proof -
  have ok: "\<forall>i. adapters_ok (te_resolution sample_tunnel_env i)" by (simp add: sample_tunnel_env_def sample_env_ok)
  obtain t y where run: "http_attempts sample_forward_env sample_tunnel_env sample_tunnel_options sample_request sample_url 2 0 sample_start = (Inr t, y)"
    using sample_request_commits by (auto split: prod.splits sum.splits)
  have events: "list_all (\<lambda>ev. case ev of (_, RequestData n) \<Rightarrow> 0 \<le> n | (_, ResponseData n) \<Rightarrow> 0 \<le> n | _ \<Rightarrow> True) sample_events"
    "\<not> list_all (\<lambda>ev. case snd ev of UpstreamRequestError e \<Rightarrow> False | _ \<Rightarrow> True) sample_events" by (simp_all add: sample_events_def)
  from http_exchange_settles [OF ok run events(1)] events(2) run show ?thesis
    by (simp add: Let_def sample_start_def)
qed

end
