(* ===== verification/Decoding.thy ===== *)
theory Decoding
  imports Resolution Validation
begin

text \<open>
  \<open>src/decoding.ts\<close>: how the gateway reads untyped data. A value is a JSON value or \<open>undefined\<close>; every reader
  returns the value at its type or throws a \<open>TypeError\<close>. The iff-lemmas in \<open>decoded\<close> say exactly what is accepted.
  Numbers are real, so the infinities that \<open>expectNumber\<close> refuses do not occur; \<open>Date.parse\<close> and \<open>JSON.parse\<close> are
  parameters.
\<close>

named_theorems decoded \<open>what a reader accepts\<close>

declare show_nat.simps [simp del]

type_synonym unknown = "json option"

definition type_error :: "string \<Rightarrow> 'a result" where
  "type_error msg = Inl (throw_error msg)"

definition expectRecord :: "unknown \<Rightarrow> string \<Rightarrow> (string \<times> json) list result" where
  "expectRecord v ctx = (case v of Some (JObject fs) \<Rightarrow> Inr fs | _ \<Rightarrow> type_error (ctx @ '' must be an object''))"

definition expectArray :: "unknown \<Rightarrow> string \<Rightarrow> json list result" where
  "expectArray v ctx = (case v of Some (JArray xs) \<Rightarrow> Inr xs | _ \<Rightarrow> type_error (ctx @ '' must be an array''))"

definition expectString :: "unknown \<Rightarrow> string \<Rightarrow> string result" where
  "expectString v ctx = (case v of Some (JString s) \<Rightarrow> Inr s | _ \<Rightarrow> type_error (ctx @ '' must be a string''))"

definition expectNonEmptyString :: "unknown \<Rightarrow> string \<Rightarrow> string result" where
  "expectNonEmptyString v ctx =
     bind_result (expectString v ctx) (\<lambda>s. if trim s = [] then type_error (ctx @ '' must not be empty'') else Inr s)"

definition expectNumber :: "unknown \<Rightarrow> string \<Rightarrow> real result" where
  "expectNumber v ctx = (case v of Some (JNumber n) \<Rightarrow> Inr n | _ \<Rightarrow> type_error (ctx @ '' must be a finite number''))"

definition expectNonNegativeNumber :: "unknown \<Rightarrow> string \<Rightarrow> real result" where
  "expectNonNegativeNumber v ctx =
     bind_result (expectNumber v ctx) (\<lambda>n. if n < 0 then type_error (ctx @ '' must be non-negative'') else Inr n)"

definition MAX_SAFE_INTEGER :: int where
  "MAX_SAFE_INTEGER = 2 ^ 53 - 1"

definition isSafeInteger :: "real \<Rightarrow> bool" where
  "isSafeInteger n \<longleftrightarrow> of_int \<lfloor>n\<rfloor> = n \<and> \<bar>\<lfloor>n\<rfloor>\<bar> \<le> MAX_SAFE_INTEGER"

definition expectInteger :: "unknown \<Rightarrow> string \<Rightarrow> int \<Rightarrow> int \<Rightarrow> int result" where
  "expectInteger v ctx minimum maximum =
     bind_result (expectNumber v ctx) (\<lambda>n.
       if \<not> isSafeInteger n \<or> \<lfloor>n\<rfloor> < minimum \<or> maximum < \<lfloor>n\<rfloor>
       then type_error (ctx @ '' must be a safe integer from '' @ show_int minimum @ '' to '' @ show_int maximum)
       else Inr \<lfloor>n\<rfloor>)"

definition expectIsoTimestamp :: "(string \<Rightarrow> timestamp option) \<Rightarrow> (timestamp \<Rightarrow> string) \<Rightarrow> unknown \<Rightarrow> string \<Rightarrow> string result" where
  "expectIsoTimestamp parseDate toISOString v ctx =
     bind_result (expectString v ctx) (\<lambda>s.
       if map_option toISOString (parseDate s) = Some s then Inr s
       else type_error (ctx @ '' must be a canonical ISO-8601 timestamp''))"

definition expectBoolean :: "unknown \<Rightarrow> string \<Rightarrow> bool result" where
  "expectBoolean v ctx = (case v of Some (JBool b) \<Rightarrow> Inr b | _ \<Rightarrow> type_error (ctx @ '' must be a boolean''))"

definition optionally :: "(unknown \<Rightarrow> string \<Rightarrow> 'a result) \<Rightarrow> unknown \<Rightarrow> string \<Rightarrow> 'a option result" where
  "optionally read v ctx = (case v of None \<Rightarrow> Inr None | Some _ \<Rightarrow> bind_result (read v ctx) (\<lambda>x. Inr (Some x)))"

definition expectOptionalString :: "unknown \<Rightarrow> string \<Rightarrow> string option result" where
  "expectOptionalString = optionally expectString"

definition expectOptionalNonEmptyString :: "unknown \<Rightarrow> string \<Rightarrow> string option result" where
  "expectOptionalNonEmptyString = optionally expectNonEmptyString"

definition parseJson :: "(string \<Rightarrow> json option) \<Rightarrow> string \<Rightarrow> string \<Rightarrow> json result" where
  "parseJson parse s ctx = (case parse s of None \<Rightarrow> type_error (ctx @ '' is not valid JSON'') | Some v \<Rightarrow> Inr v)"

fun js_join :: "string \<Rightarrow> string list \<Rightarrow> string" where
  "js_join sep [] = []"
| "js_join sep [x] = x"
| "js_join sep (x # xs) = x @ sep @ js_join sep xs"

definition expectEnum :: "unknown \<Rightarrow> string list \<Rightarrow> string \<Rightarrow> string result" where
  "expectEnum v allowed ctx =
     (case v of
        Some (JString s) \<Rightarrow> if has allowed s then Inr s else type_error (ctx @ '' must be one of: '' @ js_join '', '' allowed)
      | _ \<Rightarrow> type_error (ctx @ '' must be one of: '' @ js_join '', '' allowed))"

subsection \<open>What is accepted\<close>

lemma bind_result_Inr_iff: "bind_result r f = Inr y \<longleftrightarrow> (\<exists>x. r = Inr x \<and> f x = Inr y)"
  by (simp add: bind_result_def split: sum.split)

lemma expectRecord_iff [decoded]: "expectRecord v ctx = Inr fs \<longleftrightarrow> v = Some (JObject fs)"
  by (auto simp: expectRecord_def type_error_def split: option.splits json.splits)

lemma expectArray_iff [decoded]: "expectArray v ctx = Inr xs \<longleftrightarrow> v = Some (JArray xs)"
  by (auto simp: expectArray_def type_error_def split: option.splits json.splits)

lemma expectString_iff [decoded]: "expectString v ctx = Inr s \<longleftrightarrow> v = Some (JString s)"
  by (auto simp: expectString_def type_error_def split: option.splits json.splits)

lemma expectNonEmptyString_iff [decoded]: "expectNonEmptyString v ctx = Inr s \<longleftrightarrow> v = Some (JString s) \<and> trim s \<noteq> []"
  by (auto simp: expectNonEmptyString_def bind_result_Inr_iff expectString_iff type_error_def)

lemma expectNumber_iff [decoded]: "expectNumber v ctx = Inr n \<longleftrightarrow> v = Some (JNumber n)"
  by (auto simp: expectNumber_def type_error_def split: option.splits json.splits)

lemma expectNonNegativeNumber_iff [decoded]: "expectNonNegativeNumber v ctx = Inr n \<longleftrightarrow> v = Some (JNumber n) \<and> 0 \<le> n"
  by (auto simp: expectNonNegativeNumber_def bind_result_def expectNumber_def type_error_def split: option.splits json.splits)

lemma expectInteger_iff [decoded]:
  "expectInteger v ctx a b = Inr n \<longleftrightarrow> v = Some (JNumber (of_int n)) \<and> \<bar>n\<bar> \<le> MAX_SAFE_INTEGER \<and> a \<le> n \<and> n \<le> b"
  by (auto simp: expectInteger_def bind_result_def expectNumber_def type_error_def isSafeInteger_def
      split: option.splits json.splits if_splits)

lemma expectBoolean_iff [decoded]: "expectBoolean v ctx = Inr b \<longleftrightarrow> v = Some (JBool b)"
  by (auto simp: expectBoolean_def type_error_def split: option.splits json.splits)

lemma expectOptionalNonEmptyString_iff [decoded]:
  "expectOptionalNonEmptyString v ctx = Inr r \<longleftrightarrow>
     (case v of None \<Rightarrow> r = None | Some j \<Rightarrow> \<exists>s. j = JString s \<and> trim s \<noteq> [] \<and> r = Some s)"
  by (auto simp: expectOptionalNonEmptyString_def optionally_def bind_result_Inr_iff expectNonEmptyString_iff split: option.split)

lemma expectOptionalString_iff [decoded]:
  "expectOptionalString v ctx = Inr r \<longleftrightarrow> (case v of None \<Rightarrow> r = None | Some j \<Rightarrow> \<exists>s. j = JString s \<and> r = Some s)"
  by (auto simp: expectOptionalString_def optionally_def bind_result_Inr_iff expectString_iff split: option.split)

lemma expectIsoTimestamp_iff [decoded]:
  "expectIsoTimestamp parseDate toISOString v ctx = Inr s \<longleftrightarrow>
     v = Some (JString s) \<and> (\<exists>t. parseDate s = Some t \<and> toISOString t = s)"
  by (auto simp: expectIsoTimestamp_def bind_result_Inr_iff expectString_iff type_error_def)

lemma expectEnum_iff [decoded]: "expectEnum v allowed ctx = Inr s \<longleftrightarrow> v = Some (JString s) \<and> has allowed s"
  by (auto simp: expectEnum_def type_error_def split: option.splits json.splits)

end
