(* ===== verification/Bright_Data.thy ===== *)
theory Bright_Data
  imports Decoding Upstream_Tunnel Resolution_Safety
begin

text \<open>
  \<open>src/providers/bright-data.ts\<close>: the adapter of the residential provider, which is steered by the user name of the
  proxy login alone. Twenty hexadecimal digits of a SHA-256 digest name the session (\<open>digest\<close>, a parameter); the
  status request and the connection test are given by their outcome.
\<close>

declare show_nat.simps [simp del]

subsection \<open>The user name\<close>

record BrightDataConfig =
  bd_host :: string
  bd_port :: int
  bd_customerId :: string
  bd_zone :: string
  bd_password :: string
  bd_statusApi :: bool

definition compact_char :: "char \<Rightarrow> bool" where
  "compact_char c \<longleftrightarrow> (let n = (of_char c :: nat) in 97 \<le> n \<and> n \<le> 122 \<or> 48 \<le> n \<and> n \<le> 57 \<or> n = 95)"

definition compact_name :: "string \<Rightarrow> string" where
  "compact_name s = filter compact_char (map to_lower s)"

definition hex_char :: "char \<Rightarrow> bool" where
  "hex_char c \<longleftrightarrow> (let n = (of_char c :: nat) in 97 \<le> n \<and> n \<le> 102 \<or> 48 \<le> n \<and> n \<le> 57)"

definition session_id_shape :: "string \<Rightarrow> bool" where
  "session_id_shape s \<longleftrightarrow> length s = 20 \<and> list_all hex_char s"

definition bd_sessionId ::
    "(string \<Rightarrow> string) \<Rightarrow> string \<Rightarrow> string \<Rightarrow> nat \<Rightarrow> SessionMode \<Rightarrow> string option \<Rightarrow> string" where
  "bd_sessionId digest rid operation candidateIndex mode handle =
     (case (mode, handle) of
        (Managed, Some h) \<Rightarrow>
          if session_id_shape h then h
          else take 20 (digest (h @ '':candidate-'' @ show_nat candidateIndex))
      | (Managed, None) \<Rightarrow> take 20 (digest (rid @ '':candidate-'' @ show_nat candidateIndex))
      | (Stateless, _) \<Rightarrow> take 20 (digest (operation @ '':candidate-'' @ show_nat candidateIndex)))"

definition labelled :: "string \<Rightarrow> string option \<Rightarrow> string list" where
  "labelled label v = (case v of None \<Rightarrow> [] | Some x \<Rightarrow> [label, x])"

definition username_fields :: "BrightDataConfig \<Rightarrow> Targeting \<Rightarrow> string \<Rightarrow> string list" where
  "username_fields config t session =
     [''brd'', ''customer'', compact_name (bd_customerId config), ''zone'', compact_name (bd_zone config)]
     @ labelled ''country'' (map_option (map to_lower) (country t))
     @ labelled ''state'' (map_option compact_name (region t))
     @ labelled ''city'' (map_option compact_name (city t))
     @ labelled ''zip'' (postalCode t)
     @ labelled ''asn'' (map_option show_int (asn t))
     @ labelled ''carrier'' (map_option compact_name (carrier t))
     @ [''session'', session]"

definition buildBrightDataUsername :: "(string \<Rightarrow> string) \<Rightarrow> BrightDataConfig \<Rightarrow> AuthenticatedRoute \<Rightarrow> ResolveOptions \<Rightarrow> string" where
  "buildBrightDataUsername digest config route options =
     join_with CHR ''-'' (username_fields config (targeting route)
       (bd_sessionId digest (route_id route) (opt_logicalOperationId options) (opt_candidateIndex options)
          (opt_sessionMode options) (opt_affinityHandle options)))"

subsection \<open>The adapter\<close>

definition BRIGHT_DATA :: ProviderDescriptor where
  "BRIGHT_DATA =
     \<lparr>desc_id = ''bright_data'', providerClass = Residential,
      capabilities =
        \<lparr>clientProtocols = [Http, Https, Socks5], upstreamProtocols = [UpHttp],
         cap_geography = [KCountry, KRegion, KCity, KPostalCode, KAsn, KCarrier], countries = None, sessions = True,
         exactCity = CityProviderGuaranteed, providerManagedReassignment = ReassignDisabled,
         providerManagedRotation = RotationDisabled, cap_rotation = [RotPerRequest, RotInterval, RotManual],
         targetPorts = AnyPublic, dns_http = ProviderConfigurable, dns_socks5 = ProviderConfigurable,
         safety_http = SafetyProviderTrusted, safety_socks5 = SafetyProviderTrusted,
         providerNetworkScope = ExternalPublicOnly, health_source = HealthProviderApiOrProbe,
         capacity_observation = ObserveProviderApiOrEvidence, provisioning = ProvisionUnsupported\<rparr>,
      pricing_version = ''2026-07-13'', pricing_model = PerGib, amountUsd = 8, costRank = 1\<rparr>"

text \<open>\<open>/-session-([a-z0-9]+)$/\<close>: the leftmost match.\<close>

definition session_char :: "char \<Rightarrow> bool" where
  "session_char c \<longleftrightarrow> (let n = (of_char c :: nat) in 97 \<le> n \<and> n \<le> 122 \<or> 48 \<le> n \<and> n \<le> 57)"

definition session_here :: "string \<Rightarrow> string option" where
  "session_here s =
     (let rest = drop 9 s in if take 9 s = ''-session-'' \<and> rest \<noteq> [] \<and> list_all session_char rest then Some rest else None)"

fun match_session :: "string \<Rightarrow> string option" where
  "match_session [] = None"
| "match_session (c # s) = (case session_here (c # s) of Some r \<Rightarrow> Some r | None \<Rightarrow> match_session s)"

definition bd_assignment :: "AuthenticatedRoute \<Rightarrow> ResolveOptions \<Rightarrow> string \<Rightarrow> string \<Rightarrow> AssignmentEvidence" where
  "bd_assignment route options candidateId session =
     \<lparr>asg_candidateId = candidateId, asg_proxySlotId = None, assignmentMode = AssignProviderGuaranteed,
      providerManagedReassignmentDisabled = True,
      changeReason = (if opt_candidateIndex options = 0 then ReasonSelection else ReasonRetry),
      asg_previousCandidateId = None, providerSessionId = Some session, peerId = Some candidateId, deviceId = None,
      egressIp = None, opaqueIpId = None, expectedCity = city (targeting route), observedCity = city (targeting route),
      verificationSource = (case city (targeting route) of None \<Rightarrow> None | Some _ \<Rightarrow> Some ''provider_guarantee'')\<rparr>"

text \<open>What an adapter returns has none of the fields that the gateway adds.\<close>

definition bare_endpoint ::
    "ProviderId \<Rightarrow> string \<Rightarrow> string \<Rightarrow> int \<Rightarrow> string \<Rightarrow> string \<Rightarrow> AssignmentEvidence \<Rightarrow> UpstreamEndpoint" where
  "bare_endpoint provider eid host port username password asg =
     \<lparr>ep_provider = provider, ep_endpointId = eid, ep_protocol = UpHttp, ep_host = host, ep_port = port,
      ep_username = username, ep_password = password, ep_proxySlotId = None, upstreamConnectionId = None,
      upstreamConnectionStartedAt = None, selectedSlotLoad = None, ep_capacityPressure = None,
      ep_capacityPressureProvider = None, ep_capacityPolicyVersion = None, activeLoadClaimId = None,
      capacityCircuitKey = None, capacityCircuitState = None, capacityCircuitReason = None,
      capacityCircuitCooldownUntil = None, ep_routingPolicyVersion = None, ep_routingScore = None,
      ep_routingScoreComponents = None, assignment = asg\<rparr>"

definition bd_resolve ::
    "(string \<Rightarrow> string) \<Rightarrow> BrightDataConfig \<Rightarrow> bool \<Rightarrow> AuthenticatedRoute \<Rightarrow> ResolveOptions \<Rightarrow> UpstreamEndpoint result" where
  "bd_resolve digest config aborted route options =
     (if aborted then Inl (attributeProvider (unavailable ''Candidate establishment was cancelled'') ''bright_data'')
      else let username = buildBrightDataUsername digest config route options;
               session = (case match_session username of None \<Rightarrow> ''unknown'' | Some x \<Rightarrow> x);
               candidateId = ''bright-data:'' @ session
           in Inr (bare_endpoint (desc_id BRIGHT_DATA) candidateId (bd_host config) (bd_port config) username (bd_password config)
                     (bd_assignment route options candidateId session)))"

text \<open>
  The outcome of the status request: it failed or its answer was not read, it was refused with a status, or a body came.
  The connection test succeeds or fails.
\<close>

datatype status_answer = NoAnswer | Refused int | Body json

definition bd_health :: "BrightDataConfig \<Rightarrow> timestamp \<Rightarrow> status_answer \<Rightarrow> bool \<Rightarrow> ProviderHealth" where
  "bd_health config checkedAt answer connects =
     (let report = (\<lambda>st msg. \<lparr>ph_provider = desc_id BRIGHT_DATA, ph_state = st, ph_checkedAt = checkedAt, ph_message = msg\<rparr>)
      in if bd_statusApi config
         then (case answer of
                 Body v \<Rightarrow>
                   (case expectRecord (Some v) ''Bright Data network-status response'' of
                      Inl _ \<Rightarrow> report Unhealthy (Some ''Bright Data network-status API is unreachable'')
                    | Inr fs \<Rightarrow>
                        if js_get (js_of_entries fs) ''status'' = Some (JBool True) then report Healthy None
                        else report Unhealthy (Some ''Bright Data reports the residential network unavailable''))
               | _ \<Rightarrow> report Unhealthy (Some ''Bright Data network-status API is unreachable''))
         else if connects then report Healthy None
         else report Unhealthy (Some ''Bright Data gateway is unreachable''))"

subsection \<open>The session in the user name\<close>

lemma session_here_later: "9 \<le> length u \<Longrightarrow> session_here (u @ CHR ''-'' # s) = None"
  by (simp add: session_here_def Let_def session_char_def)

lemma match_session_suffix:
  assumes "s \<noteq> []" "list_all session_char s"
  shows "match_session (p @ ''-session-'' @ s) = Some s"
proof (induction p)
  case Nil
  then show ?case using assms by (simp add: session_here_def)
next
  case (Cons c p)
  have "session_here ((c # p @ ''-session'') @ CHR ''-'' # s) = None" by (rule session_here_later) simp
  then show ?case using Cons by simp
qed

lemma join_last: "xs \<noteq> [] \<Longrightarrow> join_with c (xs @ [y, z]) = join_with c xs @ c # y @ c # z"
  by (induction c xs rule: join_with.induct) simp_all

lemma username_session:
  assumes "s \<noteq> []" "list_all session_char s"
  shows "match_session (join_with CHR ''-'' (username_fields config t s)) = Some s"
proof -
  define xs where "xs = butlast (butlast (username_fields config t s))"
  have xs: "username_fields config t s = xs @ [''session'', s]" "xs \<noteq> []"
    by (simp_all add: xs_def username_fields_def butlast_append)
  show ?thesis
    unfolding xs(1) join_last [OF xs(2)] using match_session_suffix [OF assms, of "join_with CHR ''-'' xs"] by simp
qed

lemma hex_session_char: "hex_char c \<Longrightarrow> session_char c"
  by (auto simp: hex_char_def session_char_def Let_def)

lemma session_shape_match: "session_id_shape s \<Longrightarrow> s \<noteq> [] \<and> list_all session_char s"
  by (auto simp: session_id_shape_def list_all_iff hex_session_char)

definition sha256_hex :: "(string \<Rightarrow> string) \<Rightarrow> bool" where
  "sha256_hex digest \<longleftrightarrow> (\<forall>x. length (digest x) = 64 \<and> list_all hex_char (digest x))"

lemma bd_sessionId_shape:
  assumes "sha256_hex digest"
  shows "session_id_shape (bd_sessionId digest rid operation i mode handle)"
proof -
  have cut: "session_id_shape (take 20 (digest x))" for x
  proof -
    from assms have "length (digest x) = 64" "list_all hex_char (digest x)" unfolding sha256_hex_def by blast+
    then show ?thesis unfolding session_id_shape_def list_all_iff using in_set_takeD by fastforce
  qed
  show ?thesis
    unfolding bd_sessionId_def by (cases mode; cases handle) (simp_all add: cut)
qed

lemma bd_resolve_session:
  assumes "sha256_hex digest" "bd_resolve digest config False route options = Inr ep"
  defines "s \<equiv> bd_sessionId digest (route_id route) (opt_logicalOperationId options) (opt_candidateIndex options)
      (opt_sessionMode options) (opt_affinityHandle options)"
  shows "affinity_handle ep = s" "ep = bare_endpoint (desc_id BRIGHT_DATA) (''bright-data:'' @ s) (bd_host config) (bd_port config)
      (join_with CHR ''-'' (username_fields config (targeting route) s)) (bd_password config)
      (bd_assignment route options (''bright-data:'' @ s) s)"
proof -
  have "session_id_shape s" unfolding s_def by (rule bd_sessionId_shape [OF assms(1)])
  then have "match_session (buildBrightDataUsername digest config route options) = Some s"
    unfolding buildBrightDataUsername_def s_def by (intro username_session) (auto dest: session_shape_match)
  then show "ep = bare_endpoint (desc_id BRIGHT_DATA) (''bright-data:'' @ s) (bd_host config) (bd_port config)
      (join_with CHR ''-'' (username_fields config (targeting route) s)) (bd_password config)
      (bd_assignment route options (''bright-data:'' @ s) s)"
    using assms(2) by (simp add: bd_resolve_def Let_def buildBrightDataUsername_def s_def)
  then show "affinity_handle ep = s" by (simp add: affinity_handle_def bare_endpoint_def bd_assignment_def)
qed

text \<open>
  A managed session keeps its exit at the provider: with the handle that the gateway stores for an endpoint of this
  adapter, every later resolution of the route, for whatever operation and on whatever attempt, gives the same endpoint
  with the same login.
\<close>

theorem bright_data_session_sticky:
  assumes "sha256_hex digest" "bd_resolve digest config False route options = Inr ep"
    and "opt_sessionMode options' = Managed" "opt_affinityHandle options' = Some (affinity_handle ep)"
  shows "bd_resolve digest config False route options' = Inr (ep\<lparr>assignment := (assignment ep)
      \<lparr>changeReason := (if opt_candidateIndex options' = 0 then ReasonSelection else ReasonRetry)\<rparr>\<rparr>)"
proof -
  note first = bd_resolve_session [OF assms(1,2)]
  obtain ep' where again: "bd_resolve digest config False route options' = Inr ep'" by (simp add: bd_resolve_def Let_def)
  have shape: "session_id_shape (affinity_handle ep)" unfolding first(1) by (rule bd_sessionId_shape [OF assms(1)])
  have "bd_sessionId digest (route_id route) (opt_logicalOperationId options') (opt_candidateIndex options')
      (opt_sessionMode options') (opt_affinityHandle options') = affinity_handle ep"
    using assms(3,4) shape by (simp add: bd_sessionId_def)
  note same = bd_resolve_session(2) [OF assms(1) again, unfolded this]
  define h where "h = affinity_handle ep"
  have ep: "ep = bare_endpoint (desc_id BRIGHT_DATA) (''bright-data:'' @ h) (bd_host config) (bd_port config)
      (join_with CHR ''-'' (username_fields config (targeting route) h)) (bd_password config)
      (bd_assignment route options (''bright-data:'' @ h) h)"
    unfolding h_def first(1) by (rule first(2))
  have "ep' = ep\<lparr>assignment := (assignment ep)
      \<lparr>changeReason := (if opt_candidateIndex options' = 0 then ReasonSelection else ReasonRetry)\<rparr>\<rparr>"
    unfolding same [folded h_def] ep by (simp add: bare_endpoint_def bd_assignment_def)
  then show ?thesis using again by simp
qed

subsection \<open>The fields of the user name\<close>

lemma validated_targeting:
  assumes "validateRouteProfile decoded uid retry = Inr p"
  shows "\<forall>c. country (targeting p) = Some c \<longrightarrow> COUNTRY_CODE c" "postalCode (targeting p) = None" "asn (targeting p) = None"
proof -
  have "(\<forall>c. country (targeting p) = Some c \<longrightarrow> COUNTRY_CODE c) \<and> postalCode (targeting p) = None \<and> asn (targeting p) = None"
    using assms
    by (auto simp: validateRouteProfile_def parseGeography_def Let_def no_targeting_def invalid_def
        elim!: bind_result_InrE split: option.splits if_splits)
  then show "\<forall>c. country (targeting p) = Some c \<longrightarrow> COUNTRY_CODE c" "postalCode (targeting p) = None" "asn (targeting p) = None"
    by blast+
qed

lemma lower_letter: "is_letter x \<Longrightarrow> to_lower x \<noteq> CHR ''-''"
proof
  assume letter: "is_letter x" and dash: "to_lower x = CHR ''-''"
  from letter have "97 \<le> (of_char (to_lower x) :: nat)"
    by (auto simp: to_lower_def is_letter_def of_char_of)
  with dash show False by simp
qed

lemma letters_no_dash: "COUNTRY_CODE c \<Longrightarrow> CHR ''-'' \<notin> set (map to_lower c)"
  using lower_letter by (force simp: COUNTRY_CODE_def list_all_iff)

lemma compact_no_dash: "CHR ''-'' \<notin> set (compact_name s)"
  by (simp add: compact_name_def compact_char_def)

text \<open>
  C39. A customer cannot smuggle anything into the login at the provider: for every profile that the control plane accepts,
  splitting the user name at its dashes gives exactly the labelled fields of the account, the targeting and the session,
  whatever characters the profile's names contain.
\<close>

theorem bright_data_fields_exact:
  assumes "sha256_hex digest" "validateRouteProfile decoded uid retry = Inr p" "targeting route = targeting p"
    and "bd_resolve digest config False route options = Inr ep"
  shows "split_on CHR ''-'' (ep_username ep) = username_fields config (targeting p) (affinity_handle ep)"
proof -
  have "CHR ''-'' \<notin> set (affinity_handle ep)"
    using bd_sessionId_shape [OF assms(1)] unfolding bd_resolve_session(1) [OF assms(1,4)]
    by (force simp: session_id_shape_def list_all_iff hex_char_def)
  then have "\<forall>f \<in> set (username_fields config (targeting p) (affinity_handle ep)). CHR ''-'' \<notin> set f"
    using validated_targeting [OF assms(2)] letters_no_dash compact_no_dash
    by (auto simp: username_fields_def labelled_def simp del: set_map split: option.splits)
  moreover define h where "h = affinity_handle ep"
  have "ep = bare_endpoint (desc_id BRIGHT_DATA) (''bright-data:'' @ h) (bd_host config) (bd_port config)
      (join_with CHR ''-'' (username_fields config (targeting route) h)) (bd_password config)
      (bd_assignment route options (''bright-data:'' @ h) h)"
    unfolding h_def bd_resolve_session(1) [OF assms(1,4)] by (rule bd_resolve_session(2) [OF assms(1,4)])
  then have "ep_username ep = join_with CHR ''-'' (username_fields config (targeting p) h)"
    by (simp add: bare_endpoint_def assms(3))
  moreover have "username_fields config (targeting p) h \<noteq> []" by (simp add: username_fields_def)
  ultimately show ?thesis using split_on_join by (metis h_def)
qed

subsubsection \<open>A concrete account\<close>

definition sample_digest :: "string \<Rightarrow> string" where
  "sample_digest x = replicate 64 CHR ''a''"

definition sample_bright :: BrightDataConfig where
  "sample_bright = \<lparr>bd_host = ''brd.example'', bd_port = 22225, bd_customerId = ''C-1'', bd_zone = ''res'', bd_password = ''pw'', bd_statusApi = False\<rparr>"

definition sample_resolve_options :: "SessionMode \<Rightarrow> string option \<Rightarrow> nat \<Rightarrow> ResolveOptions" where
  "sample_resolve_options mode handle i =
     \<lparr>opt_dataPlaneProtocol = Http, opt_target = \<lparr>pt_host = ''example.com'', pt_port = 80\<rparr>, opt_logicalOperationId = ''op'',
      opt_sessionMode = mode, opt_affinityHandle = handle, opt_candidateIndex = i, opt_excludedCandidateIds = [],
      opt_selectedCandidateId = None\<rparr>"

lemma sample_digest_hex: "sha256_hex sample_digest"
  by (simp add: sha256_hex_def sample_digest_def list_all_iff hex_char_def)

theorem bright_data_session_sticky_witness:
  "\<exists>ep. bd_resolve sample_digest sample_bright False sample_auth_route (sample_resolve_options Managed None 0) = Inr ep
     \<and> map_sum id ep_username (bd_resolve sample_digest sample_bright False sample_auth_route
          (sample_resolve_options Managed (Some (affinity_handle ep)) 2)) = Inr (ep_username ep)"
proof -
  obtain ep where ep: "bd_resolve sample_digest sample_bright False sample_auth_route (sample_resolve_options Managed None 0) = Inr ep"
    by (simp add: bd_resolve_def Let_def)
  from bright_data_session_sticky [OF sample_digest_hex ep, where options' = "sample_resolve_options Managed (Some (affinity_handle ep)) 2"] ep
  show ?thesis by (simp add: sample_resolve_options_def)
qed

theorem bright_data_fields_exact_witness:
  "\<exists>p route ep. validateRouteProfile (Inr sample_payload) ''u'' \<lparr>maxAttempts = 3\<rparr> = Inr p
     \<and> bd_resolve sample_digest sample_bright False route (sample_resolve_options Stateless None 0) = Inr ep
     \<and> split_on CHR ''-'' (ep_username ep) = username_fields sample_bright (targeting p) (affinity_handle ep)"
proof -
  have "case validateRouteProfile (Inr sample_payload) ''u'' \<lparr>maxAttempts = 3\<rparr> of Inr p \<Rightarrow> True | Inl e \<Rightarrow> False"
    by code_simp
  then obtain p where p: "validateRouteProfile (Inr sample_payload) ''u'' \<lparr>maxAttempts = 3\<rparr> = Inr p"
    by (auto split: sum.splits)
  let ?route = "sample_auth_route\<lparr>targeting := targeting p\<rparr>"
  obtain ep where ep: "bd_resolve sample_digest sample_bright False ?route (sample_resolve_options Stateless None 0) = Inr ep"
    by (simp add: bd_resolve_def Let_def)
  from bright_data_fields_exact [OF sample_digest_hex p _ ep] p ep show ?thesis by auto
qed

end
