(* ===== verification/Proxidize.thy ===== *)
theory Proxidize
  imports Bright_Data
begin

text \<open>
  \<open>src/providers/proxidize.ts\<close>: the adapter of the device-backed provider. Its slots are read from the provider's
  control API, whose answers are a parameter (\<open>fetch_answer\<close>), and kept for a few seconds. \<open>Number\<close> is modelled in
  \<open>Upstream_Tunnel\<close>, \<open>Date.parse\<close> is a parameter. At the end the catalogue of \<open>src/provider-runtime.ts\<close>.
\<close>

subsection \<open>Requests\<close>

datatype proxidize_request = GetSubscription | GetProxies string | SetRotation string string int string

datatype fetch_answer = FetchFailed | HttpAnswer int "string option" "json option"

definition providerError :: "AppError \<Rightarrow> exn" where
  "providerError e = attributeProvider (throw e) ''proxidize''"

definition js_round :: "real \<Rightarrow> int" where
  "js_round x = \<lfloor>x + 1 / 2\<rfloor>"

definition retry_after_ms :: "(string \<Rightarrow> timestamp option) \<Rightarrow> timestamp \<Rightarrow> string option \<Rightarrow> int option" where
  "retry_after_ms parseDate now v =
     (case v of
        None \<Rightarrow> None
      | Some s \<Rightarrow>
          (case js_Number s of
             Some n \<Rightarrow> if 0 \<le> n then Some (js_round (n * 1000)) else map_option (\<lambda>t. max 0 (t - now)) (parseDate s)
           | None \<Rightarrow> map_option (\<lambda>t. max 0 (t - now)) (parseDate s)))"

definition control_error :: "(string \<Rightarrow> timestamp option) \<Rightarrow> timestamp \<Rightarrow> int \<Rightarrow> string option \<Rightarrow> AppError" where
  "control_error parseDate now status retryAfter =
     (let message = ''Proxidize control API returned HTTP '' @ show_int status
      in if status = 401 \<or> status = 403 then providerAuthenticationError message
         else if status = 429 then providerRateLimitError message (retry_after_ms parseDate now retryAfter)
         else if status = 408 \<or> 500 \<le> status then providerUnavailableError message ReasonUnavailable
         else providerProtocolError message)"

text \<open>The body is \<open>None\<close> when it is no JSON.\<close>

definition px_request :: "(string \<Rightarrow> timestamp option) \<Rightarrow> timestamp \<Rightarrow> fetch_answer \<Rightarrow> unknown result" where
  "px_request parseDate now answer =
     (case answer of
        FetchFailed \<Rightarrow> Inl (providerError (providerUnavailableError ''Proxidize control API is unavailable'' ReasonUnavailable))
      | HttpAnswer status retryAfter body \<Rightarrow>
          if status < 200 \<or> 299 < status then Inl (providerError (control_error parseDate now status retryAfter))
          else if status = 204 then Inr None
          else case body of
                 None \<Rightarrow> Inl (providerError (providerProtocolError ''Proxidize control API returned malformed JSON''))
               | Some v \<Rightarrow> Inr (Some v))"

subsection \<open>Slots\<close>

record ProxidizeEndpoint =
  pxe_id :: string
  pxe_username :: string
  pxe_password :: string
  pxe_host :: string
  pxe_port :: int
  pxe_country :: string
  pxe_region :: string
  pxe_city :: "string option"
  pxe_carrier :: string
  pxe_publicKey :: string
  pxe_deviceId :: "string option"
  pxe_healthy :: bool
  pxe_egressIp :: "string option"

definition field_of :: "(string \<times> json) list \<Rightarrow> string \<Rightarrow> unknown" where
  "field_of fs name = js_get (js_of_entries fs) name"

definition read_endpoint :: "json \<Rightarrow> nat \<Rightarrow> ProxidizeEndpoint result" where
  "read_endpoint v index =
     (let ctx = ''Proxidize proxy record '' @ show_nat index; loc = (\<lambda>name. ctx @ ''.'' @ name)
      in bind_result (expectRecord (Some v) ctx) (\<lambda>fs.
         bind_result (expectOptionalNonEmptyString (field_of fs ''current_ip'') (loc ''current_ip'')) (\<lambda>currentIp.
         bind_result (expectOptionalNonEmptyString (field_of fs ''ip'') (loc ''ip'')) (\<lambda>ip.
         bind_result (expectOptionalNonEmptyString (field_of fs ''device_id'') (loc ''device_id'')) (\<lambda>device.
         bind_result (expectOptionalNonEmptyString (field_of fs ''city'') (loc ''city'')) (\<lambda>town.
         bind_result (expectOptionalString (field_of fs ''status'') (loc ''status'')) (\<lambda>status.
         bind_result (case field_of fs ''healthy'' of
                        None \<Rightarrow> Inr (status = Some ''active'')
                      | Some h \<Rightarrow> expectBoolean (Some h) (loc ''healthy'')) (\<lambda>healthy.
         bind_result (expectNonEmptyString (field_of fs ''id'') (loc ''id'')) (\<lambda>eid.
         bind_result (expectNonEmptyString (field_of fs ''username'') (loc ''username'')) (\<lambda>user.
         bind_result (expectNonEmptyString (field_of fs ''password'') (loc ''password'')) (\<lambda>password.
         bind_result (expectNonEmptyString (field_of fs ''host'') (loc ''host'')) (\<lambda>host.
         bind_result (expectInteger (field_of fs ''port'') (loc ''port'') 1 65535) (\<lambda>port.
         bind_result (expectNonEmptyString (field_of fs ''country'') (loc ''country'')) (\<lambda>land.
         bind_result (expectNonEmptyString (field_of fs ''region'') (loc ''region'')) (\<lambda>state.
         bind_result (expectNonEmptyString (field_of fs ''carrier'') (loc ''carrier'')) (\<lambda>network.
         bind_result (expectNonEmptyString (field_of fs ''public_key'') (loc ''public_key'')) (\<lambda>key.
           Inr \<lparr>pxe_id = eid, pxe_username = user, pxe_password = password, pxe_host = host, pxe_port = port,
                pxe_country = map to_upper land, pxe_region = state, pxe_city = town, pxe_carrier = network,
                pxe_publicKey = key, pxe_deviceId = device, pxe_healthy = healthy,
                pxe_egressIp = or_else currentIp ip\<rparr>)))))))))))))))))"

fun read_endpoints :: "json list \<Rightarrow> nat \<Rightarrow> ProxidizeEndpoint list result" where
  "read_endpoints [] index = Inr []"
| "read_endpoints (v # vs) index =
     bind_result (read_endpoint v index) (\<lambda>e. bind_result (read_endpoints vs (index + 1)) (\<lambda>es. Inr (e # es)))"

text \<open>\<open>data[0]\<close> of an empty array is \<open>undefined\<close>.\<close>

definition load_endpoints :: "(string \<Rightarrow> timestamp option) \<Rightarrow> timestamp \<Rightarrow> (proxidize_request \<Rightarrow> fetch_answer) \<Rightarrow> ProxidizeEndpoint list result" where
  "load_endpoints parseDate now answers =
     bind_result (px_request parseDate now (answers GetSubscription)) (\<lambda>body.
     bind_result (expectRecord body ''Proxidize subscriptions response'') (\<lambda>subscriptions.
     bind_result (expectArray (field_of subscriptions ''data'') ''Proxidize subscriptions response.data'') (\<lambda>items.
     bind_result (expectRecord (case items of [] \<Rightarrow> None | v # _ \<Rightarrow> Some v) ''Proxidize subscriptions response.data[0]'') (\<lambda>subscription.
     bind_result (expectRecord (field_of subscription ''meta_data'') ''Proxidize subscription metadata'') (\<lambda>metadata.
     bind_result (expectOptionalNonEmptyString (field_of metadata ''username'') ''Proxidize subscription username'') (\<lambda>account.
     case account of
       None \<Rightarrow> Inl (providerError (providerUnavailableError ''No Proxidize per-proxy subscription was found'' ReasonUnavailable))
     | Some user \<Rightarrow>
         bind_result (px_request parseDate now (answers (GetProxies user))) (\<lambda>body.
         bind_result (expectRecord body ''Proxidize proxies response'') (\<lambda>response.
         bind_result (expectArray (field_of response ''data'') ''Proxidize proxies response.data'') (\<lambda>vs.
         read_endpoints vs 0)))))))))"

definition provider_class :: "thrown \<Rightarrow> bool" where
  "provider_class t =
     (case t of
        AppErr a \<Rightarrow> err_class a \<in> {ClsProviderAuthentication, ClsProviderProtocol, ClsProviderRateLimit, ClsProviderUnavailable}
      | _ \<Rightarrow> False)"

definition classify_failure :: "exn \<Rightarrow> exn" where
  "classify_failure e =
     (if provider_class (exn_value e) then e
      else providerError (providerProtocolError ''Proxidize control API returned malformed data''))"

subsection \<open>The cache of slots\<close>

record ProxidizeConfig =
  px_cacheTtlMs :: "int option"
  px_exactCity :: ExactCitySupport
  px_providerAccountId :: "string option"

record ProxidizeState =
  px_cachedEndpoints :: "ProxidizeEndpoint list"
  px_cacheExpiresAt :: timestamp
  px_refreshing :: bool

definition new_proxidize :: ProxidizeState where
  "new_proxidize = \<lparr>px_cachedEndpoints = [], px_cacheExpiresAt = 0, px_refreshing = False\<rparr>"

text \<open>
  A call is answered from the cache, waits for the load in flight, or starts one; the end of the load is a step of its own.
\<close>

datatype list_call = FromCache "ProxidizeEndpoint list" | JoinLoad | StartLoad

definition list_endpoints :: "bool \<Rightarrow> timestamp \<Rightarrow> ProxidizeState \<Rightarrow> list_call \<times> ProxidizeState" where
  "list_endpoints refresh now a =
     (if \<not> refresh \<and> now < px_cacheExpiresAt a then (FromCache (px_cachedEndpoints a), a)
      else if px_refreshing a then (JoinLoad, a)
      else (StartLoad, a\<lparr>px_refreshing := True\<rparr>))"

definition load_finished :: "ProxidizeConfig \<Rightarrow> timestamp \<Rightarrow> ProxidizeEndpoint list result \<Rightarrow> ProxidizeState \<Rightarrow> ProxidizeEndpoint list result \<times> ProxidizeState" where
  "load_finished config now loaded a =
     (case loaded of
        Inl e \<Rightarrow> (Inl (classify_failure e), a\<lparr>px_refreshing := False\<rparr>)
      | Inr es \<Rightarrow>
          (Inr es, a\<lparr>px_cachedEndpoints := es, px_refreshing := False,
                     px_cacheExpiresAt := now + (case px_cacheTtlMs config of None \<Rightarrow> 5000 | Some t \<Rightarrow> t)\<rparr>))"

text \<open>One call from its start to its answer, \<open>loaded\<close> being what the load it starts or joins gives.\<close>

definition listEndpoints ::
    "ProxidizeConfig \<Rightarrow> bool \<Rightarrow> timestamp \<Rightarrow> ProxidizeEndpoint list result \<Rightarrow> ProxidizeState \<Rightarrow> ProxidizeEndpoint list result \<times> ProxidizeState" where
  "listEndpoints config refresh now loaded a =
     (case list_endpoints refresh now a of
        (FromCache es, a) \<Rightarrow> (Inr es, a)
      | (JoinLoad, a) \<Rightarrow> load_finished config now loaded a
      | (StartLoad, a) \<Rightarrow> load_finished config now loaded a)"

subsection \<open>Resolving\<close>

definition normalized :: "string \<Rightarrow> string" where
  "normalized s = filter session_char (map to_lower (trim s))"

definition wanted :: "string option \<Rightarrow> string option \<Rightarrow> bool" where
  "wanted target have = (case target of None \<Rightarrow> True | Some t \<Rightarrow> (case have of None \<Rightarrow> False | Some h \<Rightarrow> normalized h = normalized t))"

definition px_matches :: "string option \<Rightarrow> string option \<Rightarrow> string option \<Rightarrow> string option \<Rightarrow> Targeting \<Rightarrow> bool" where
  "px_matches land state town network target \<longleftrightarrow>
     (case country target of None \<Rightarrow> True | Some c \<Rightarrow> land = Some c)
     \<and> wanted (region target) state \<and> wanted (city target) town \<and> wanted (carrier target) network"

definition endpoint_matches :: "Targeting \<Rightarrow> ProxidizeEndpoint \<Rightarrow> bool" where
  "endpoint_matches target e = px_matches (Some (pxe_country e)) (Some (pxe_region e)) (pxe_city e) (Some (pxe_carrier e)) target"

definition px_candidate :: "ProxidizeEndpoint \<Rightarrow> ProviderCandidate" where
  "px_candidate e =
     \<lparr>cand_id = pxe_id e, cand_healthy = pxe_healthy e,
      cand_inventory = \<lparr>slot_proxySlotId = pxe_id e, slot_deviceId = pxe_deviceId e, slot_country = Some (pxe_country e),
        slot_region = Some (pxe_region e), slot_city = pxe_city e, slot_carrier = Some (pxe_carrier e),
        slot_healthy = pxe_healthy e, slot_egressIp = pxe_egressIp e\<rparr>\<rparr>"

definition px_candidate_matches :: "ProviderCandidate \<Rightarrow> Targeting \<Rightarrow> bool" where
  "px_candidate_matches c target =
     (let slot = cand_inventory c in px_matches (slot_country slot) (slot_region slot) (slot_city slot) (slot_carrier slot) target)"

definition PROXIDIZE :: "ProxidizeConfig \<Rightarrow> ProviderDescriptor" where
  "PROXIDIZE config =
     \<lparr>desc_id = ''proxidize'', providerClass = DeviceBacked,
      capabilities =
        \<lparr>clientProtocols = [Http, Https, Socks5], upstreamProtocols = [UpHttp],
         cap_geography = [KCountry, KRegion, KCity, KCarrier], countries = Some [''US''], sessions = True,
         exactCity = px_exactCity config, providerManagedReassignment = ReassignObservable,
         providerManagedRotation = RotationUncontrolled, cap_rotation = [RotInterval, RotManual],
         targetPorts = AnyPublic, dns_http = DnsUnverified, dns_socks5 = DnsUnverified,
         safety_http = SafetyProviderTrusted, safety_socks5 = SafetyProviderTrusted,
         providerNetworkScope = ExternalPublicOnly, health_source = HealthProviderInventory,
         capacity_observation = ObserveProviderInventory, provisioning = ProvisionOperatorOnly\<rparr>,
      pricing_version = ''2026-07-13'', pricing_model = PerDeviceMonth, amountUsd = 59, costRank = 2\<rparr>"

definition px_assignment :: "ProxidizeConfig \<Rightarrow> AuthenticatedRoute \<Rightarrow> ResolveOptions \<Rightarrow> ProxidizeEndpoint \<Rightarrow> AssignmentEvidence" where
  "px_assignment config route options e =
     \<lparr>asg_candidateId = pxe_id e, asg_proxySlotId = Some (pxe_id e),
      assignmentMode = (case px_exactCity config of
          CityProviderGuaranteed \<Rightarrow> AssignProviderGuaranteed
        | CityVerifiable \<Rightarrow> if pxe_city e = None then AssignUnverified else AssignServiceVerified
        | CityUnsupported \<Rightarrow> AssignUnverified),
      providerManagedReassignmentDisabled = False,
      changeReason = (if opt_candidateIndex options = 0 then ReasonSelection else ReasonRetry),
      asg_previousCandidateId = None, providerSessionId = Some (pxe_id e), peerId = None, deviceId = pxe_deviceId e,
      egressIp = pxe_egressIp e, opaqueIpId = None, expectedCity = city (targeting route), observedCity = pxe_city e,
      verificationSource = (case px_exactCity config of
          CityProviderGuaranteed \<Rightarrow> Some ''provider_guarantee''
        | CityVerifiable \<Rightarrow> if pxe_city e = None then None else Some ''provider_inventory''
        | CityUnsupported \<Rightarrow> None)\<rparr>"

definition px_choose :: "AuthenticatedRoute \<Rightarrow> ResolveOptions \<Rightarrow> ProxidizeEndpoint list \<Rightarrow> ProxidizeEndpoint option" where
  "px_choose route options es =
     or_else
       (case opt_selectedCandidateId options of None \<Rightarrow> None | Some k \<Rightarrow> List.find (\<lambda>e. pxe_id e = k) es)
       (List.find (\<lambda>e. pxe_healthy e \<and> \<not> has (opt_excludedCandidateIds options) (pxe_id e)
                    \<and> endpoint_matches (targeting route) e) es)"

definition px_resolve ::
    "ProxidizeConfig \<Rightarrow> ProxidizeEndpoint list result \<Rightarrow> AuthenticatedRoute \<Rightarrow> ResolveOptions \<Rightarrow> UpstreamEndpoint result" where
  "px_resolve config listed route options =
     bind_result listed (\<lambda>es.
       let none_left = providerError (providerUnavailableError ''No healthy Proxidize proxy slot matches the route policy'' ReasonUnavailable)
       in case px_choose route options es of
            None \<Rightarrow> Inl none_left
          | Some e \<Rightarrow>
              if \<not> pxe_healthy e then Inl none_left
              else Inr (bare_endpoint (desc_id (PROXIDIZE config)) (pxe_id e) (pxe_host e) (pxe_port e) (pxe_username e)
                     (pxe_password e) (px_assignment config route options e)))"

definition px_prepare ::
    "(string \<Rightarrow> timestamp option) \<Rightarrow> timestamp \<Rightarrow> (proxidize_request \<Rightarrow> fetch_answer) \<Rightarrow> ProxidizeEndpoint list result \<Rightarrow> string \<Rightarrow> bool result" where
  "px_prepare parseDate now answers listed cid =
     bind_result listed (\<lambda>es.
       case List.find (\<lambda>e. pxe_id e = cid) es of
         None \<Rightarrow> Inl (providerError (providerUnavailableError ''Mobile endpoint was not found'' ReasonUnavailable))
       | Some e \<Rightarrow>
           bind_result (px_request parseDate now (answers (SetRotation (pxe_username e) (pxe_id e) (- 1) (pxe_publicKey e)))) (\<lambda>_.
           Inr True))"

definition px_health :: "ProxidizeConfig \<Rightarrow> timestamp \<Rightarrow> ProxidizeEndpoint list result \<Rightarrow> ProviderHealth" where
  "px_health config checkedAt listed =
     (let report = (\<lambda>st msg. \<lparr>ph_provider = desc_id (PROXIDIZE config), ph_state = st, ph_checkedAt = checkedAt, ph_message = msg\<rparr>)
      in case listed of
           Inl _ \<Rightarrow> report Unhealthy (Some ''Proxidize control API is unreachable'')
         | Inr es \<Rightarrow>
             let healthy = length (filter pxe_healthy es)
             in if healthy = 0 then report Unhealthy (Some ''No healthy mobile devices'')
                else if healthy < length es
                then report Degraded (Some (show_nat (length es - healthy) @ '' mobile device(s) unhealthy''))
                else report Healthy None)"

subsection \<open>The catalogue of providers\<close>

definition bright_data_adapter :: ProviderAdapter where
  "bright_data_adapter = \<lparr>descriptor = BRIGHT_DATA, candidates = None\<rparr>"

definition proxidize_adapter :: "ProxidizeConfig \<Rightarrow> ProxidizeEndpoint list result \<Rightarrow> ProviderAdapter" where
  "proxidize_adapter config listed =
     \<lparr>descriptor = PROXIDIZE config,
      candidates = Some
        \<lparr>cs_providerAccountId = (case px_providerAccountId config of None \<Rightarrow> ''proxidize-primary'' | Some a \<Rightarrow> a),
         cs_list = (case listed of Inl e \<Rightarrow> Inl e | Inr es \<Rightarrow> Inr (map px_candidate es)),
         cs_matches = px_candidate_matches\<rparr>\<rparr>"

definition createProviderCatalog :: "ProxidizeConfig \<Rightarrow> ProxidizeEndpoint list result \<Rightarrow> ProviderAdapter list" where
  "createProviderCatalog config listed = [bright_data_adapter, proxidize_adapter config listed]"

subsection \<open>Every failure is one of the provider's\<close>

definition attributed :: "'a result \<Rightarrow> bool" where
  "attributed r \<longleftrightarrow> (\<forall>e. r = Inl e \<longrightarrow> provider_class (exn_value e) \<longrightarrow> exn_provider e = Some ''proxidize'')"

lemma attributed_bind: "attributed r \<Longrightarrow> (\<And>x. r = Inr x \<Longrightarrow> attributed (f x)) \<Longrightarrow> attributed (bind_result r f)"
  by (cases r) (simp_all add: attributed_def bind_result_def)

lemma attributed_Inr: "attributed (Inr x)"
  by (simp add: attributed_def)

lemma attributed_type_error: "attributed (type_error msg)"
  by (simp add: attributed_def type_error_def throw_error_def provider_class_def)

lemma attributed_optionally:
  assumes "attributed (read v ctx)"
  shows "attributed (optionally read v ctx)"
  using assms by (cases v) (auto simp: optionally_def attributed_Inr intro: attributed_bind)

lemma attributed_string: "attributed (expectString v ctx)"
  by (simp add: expectString_def attributed_type_error attributed_Inr split: option.split json.split)

lemma attributed_nonempty: "attributed (expectNonEmptyString v ctx)"
  unfolding expectNonEmptyString_def by (auto intro!: attributed_bind attributed_string simp: attributed_type_error attributed_Inr)

lemma attributed_boolean: "attributed (expectBoolean v ctx)"
  by (simp add: expectBoolean_def attributed_type_error attributed_Inr split: option.split json.split)

lemma attributed_integer: "attributed (expectInteger v ctx a b)"
  unfolding expectInteger_def
  by (rule attributed_bind) (simp_all add: expectNumber_def attributed_type_error attributed_Inr split: option.split json.split)

lemma attributed_containers: "attributed (expectRecord v ctx)" "attributed (expectArray v ctx)"
  by (simp_all add: expectRecord_def expectArray_def attributed_type_error attributed_Inr split: option.split json.split)

lemmas attributed_readers =
  attributed_type_error attributed_Inr attributed_string attributed_nonempty attributed_boolean attributed_integer attributed_containers
  attributed_optionally [of expectString, folded expectOptionalString_def, OF attributed_string]
  attributed_optionally [of expectNonEmptyString, folded expectOptionalNonEmptyString_def, OF attributed_nonempty]

lemma attributed_endpoint: "attributed (read_endpoint v index)"
  unfolding read_endpoint_def Let_def
  by (intro attributed_bind attributed_readers) (auto simp: attributed_readers split: option.split)

lemma attributed_endpoints: "attributed (read_endpoints vs index)"
  by (induction vs arbitrary: index) (auto intro!: attributed_bind attributed_endpoint simp: attributed_readers)

lemma providerError_provider: "exn_provider (providerError a) = Some ''proxidize''" "exn_value (providerError a) = AppErr a"
  by (simp_all add: providerError_def attributeProvider_def throw_def)

lemma attributed_providerError: "attributed (Inl (providerError a))"
  by (simp add: attributed_def providerError_provider)

lemma attributed_request: "attributed (px_request parseDate now answer)"
  by (simp add: px_request_def attributed_providerError attributed_Inr split: fetch_answer.split option.split)

lemma attributed_load: "attributed (load_endpoints parseDate now answers)"
  unfolding load_endpoints_def
  by (intro attributed_bind attributed_request attributed_readers)
    (auto intro!: attributed_bind attributed_request attributed_readers attributed_endpoints simp: attributed_providerError split: option.split)

lemma classify_failure_class:
  assumes "attributed (Inl e :: 'a result)"
  shows "provider_class (exn_value (classify_failure e)) \<and> exn_provider (classify_failure e) = Some ''proxidize''"
  using assms
  by (auto simp: classify_failure_def attributed_def providerError_provider provider_class_def providerProtocolError_def mk_error_def
      split: thrown.splits)


subsection \<open>What is chosen\<close>

lemma normalized_city: "normalized s = canonicalCity (trim s)"
  by (simp add: normalized_def canonicalCity_def session_char_def [abs_def] city_char_def [abs_def] to_lower_def [abs_def] lower_char_def [abs_def])

definition lists_slot :: "ProxidizeEndpoint list \<Rightarrow> string option \<Rightarrow> bool" where
  "lists_slot es k \<longleftrightarrow> (\<exists>e \<in> set es. k = Some (pxe_id e))"

lemma find_slot: "List.find (\<lambda>e. pxe_id e = k) es = None \<longleftrightarrow> \<not> lists_slot es (Some k)"
  by (auto simp: find_None_iff lists_slot_def)

text \<open>
  The adapter opens only healthy slots: the one the gateway has claimed if it is still listed, and otherwise one that is
  not excluded and matches the targeting of the route. It gives up only if the claimed slot is unhealthy or, without one, no
  slot is left.
\<close>

theorem proxidize_opens_healthy_slot:
  "case px_resolve config (Inr es) route options of
     Inr ep \<Rightarrow> \<exists>e \<in> set es. pxe_healthy e \<and> ep_endpointId ep = pxe_id e \<and> ep_username ep = pxe_username e
       \<and> (if lists_slot es (opt_selectedCandidateId options) then opt_selectedCandidateId options = Some (pxe_id e)
           else \<not> has (opt_excludedCandidateIds options) (pxe_id e) \<and> endpoint_matches (targeting route) e)
   | Inl _ \<Rightarrow>
       (if lists_slot es (opt_selectedCandidateId options)
        then \<exists>e \<in> set es. opt_selectedCandidateId options = Some (pxe_id e) \<and> \<not> pxe_healthy e
        else filter (\<lambda>e. pxe_healthy e \<and> \<not> has (opt_excludedCandidateIds options) (pxe_id e) \<and> endpoint_matches (targeting route) e) es = [])"
proof -
  let ?free = "\<lambda>e. pxe_healthy e \<and> \<not> has (opt_excludedCandidateIds options) (pxe_id e) \<and> endpoint_matches (targeting route) e"
  have open_slot: "px_resolve config (Inr es) route options = (case px_choose route options es of
      Some e \<Rightarrow> if pxe_healthy e then Inr (bare_endpoint (desc_id (PROXIDIZE config)) (pxe_id e) (pxe_host e) (pxe_port e)
          (pxe_username e) (pxe_password e) (px_assignment config route options e))
        else Inl (providerError (providerUnavailableError ''No healthy Proxidize proxy slot matches the route policy'' ReasonUnavailable))
    | None \<Rightarrow> Inl (providerError (providerUnavailableError ''No healthy Proxidize proxy slot matches the route policy'' ReasonUnavailable)))"
    by (simp add: px_resolve_def Let_def split: option.split)
  show ?thesis
  proof (cases "lists_slot es (opt_selectedCandidateId options)")
    case True
    then obtain k e where k: "opt_selectedCandidateId options = Some k" "List.find (\<lambda>e. pxe_id e = k) es = Some e"
      by (metis find_slot lists_slot_def not_None_eq)
    then have "e \<in> set es" "pxe_id e = k" by (auto simp: find_Some_iff)
    then show ?thesis
      unfolding open_slot using True k by (auto simp: px_choose_def or_else_def bare_endpoint_def split: option.split)
  next
    case False
    have none: "List.find (\<lambda>e. pxe_id e = k) es = None" if "opt_selectedCandidateId options = Some k" for k
      using False that find_slot [of k es] by simp
    have "px_choose route options es = List.find ?free es"
      by (cases "opt_selectedCandidateId options") (simp_all add: none px_choose_def or_else_def)
    then show ?thesis
      unfolding open_slot using False
      by (cases "List.find ?free es") (auto simp: find_None_iff find_Some_iff filter_empty_conv bare_endpoint_def)
  qed
qed

text \<open>A slot that matched a city without surrounding spaces also passes the gateway's own check of the city.\<close>

lemma matched_city_verified:
  assumes "px_exactCity config = CityVerifiable" "city (targeting route) = Some c" "endpoint_matches (targeting route) e"
    and "trim c = c" "\<And>t. pxe_city e = Some t \<Longrightarrow> trim t = t"
  shows "city_verified (bare_endpoint p i h n u w (px_assignment config route options e))"
  using assms
  by (auto simp: city_verified_def bare_endpoint_def px_assignment_def endpoint_matches_def px_matches_def wanted_def normalized_city
      split: option.splits)

text \<open>
  The claimed slot may vanish from the list between the claim and the resolution: the adapter then opens another one, which
  the gateway accounts under the slot it had claimed.
\<close>

lemma vanished_slot_replaced:
  assumes "px_resolve config (Inr es) route options = Inr ep" "opt_selectedCandidateId options = Some (sel_endpointId c)"
    and "\<not> lists_slot es (Some (sel_endpointId c))"
  shows "ep_endpointId ep \<noteq> sel_endpointId c \<and> ep_proxySlotId (describe_selection (Some c) ep) = Some (sel_endpointId c)"
proof -
  have none: "List.find (\<lambda>e. pxe_id e = sel_endpointId c) es = None" using assms(3) find_slot by blast
  obtain e where e: "px_choose route options es = Some e" "ep_endpointId ep = pxe_id e"
    using assms(1) by (auto simp: px_resolve_def Let_def bare_endpoint_def split: option.splits if_splits)
  then have "e \<in> set es" using assms(2) none by (auto simp: px_choose_def or_else_def find_Some_iff split: option.splits)
  then have "pxe_id e \<noteq> sel_endpointId c" using assms(3) by (auto simp: lists_slot_def)
  then show ?thesis using e(2) by (simp add: describe_selection_def)
qed

subsection \<open>The catalogue meets the contract of the resolution\<close>

definition uses_catalogue ::
    "ResolutionEnv \<Rightarrow> (string \<Rightarrow> string) \<Rightarrow> BrightDataConfig \<Rightarrow> ProxidizeConfig \<Rightarrow> ProxidizeEndpoint list result \<Rightarrow> bool" where
  "uses_catalogue env digest bright config listed \<longleftrightarrow>
     env_providers env = createProviderCatalog config listed
     \<and> (\<forall>route options. env_resolve env ''bright_data'' route options = bd_resolve digest bright (env_aborted env \<noteq> None) route options
          \<and> env_resolve env ''proxidize'' route options = px_resolve config listed route options)"

definition sample_proxidize :: ProxidizeConfig where
  "sample_proxidize = \<lparr>px_cacheTtlMs = None, px_exactCity = CityVerifiable, px_providerAccountId = None\<rparr>"


definition catalogue_env :: ResolutionEnv where
  "catalogue_env = sample_env\<lparr>env_providers := createProviderCatalog sample_proxidize (Inr []),
     env_resolve := (\<lambda>p route options. if p = ''bright_data'' then bd_resolve sample_digest sample_bright False route options
                                     else px_resolve sample_proxidize (Inr []) route options)\<rparr>"


end
