(* ===== verification/Dynamo_Table.thy ===== *)
theory Dynamo_Table
  imports Decoding Health_Usage_Domain "HOL-Library.Word"
begin

unbundle bit_operations_syntax

text \<open>
  The items of the table (\<open>src/dynamo-records.ts\<close>) and the programs over it. DynamoDB itself is outside the sources:
  it is a parameter, a \<open>Dynamo\<close> record of the commands the code sends, and \<open>dynamo_ok\<close> states what its documentation
  promises of them. An operation of the store is a \<^emph>\<open>program\<close> of commands, each atomic, between which other clients may
  act; \<open>run_amid\<close> runs one with given interference, \<open>run_alone\<close> without.

  An item keeps the fields the code reads or writes, at their types, so decoding an item it wrote is the identity; a time
  in a sort key is the instant itself, for ISO strings order alike. The fields of an item beside its data that repeat the data (keys, entity, creation time)
  are left out where the code only ever derives them from it.
\<close>

subsection \<open>Keys\<close>

type_synonym item_key = "string \<times> string"

definition ENTITY_INDEX :: string where
  "ENTITY_INDEX = ''EntityCreatedAt''"

definition ACCESS_GRANT_LAST_USED_WRITE_INTERVAL_MS :: int where
  "ACCESS_GRANT_LAST_USED_WRITE_INTERVAL_MS = 5 * 60000"

definition HIGH_VOLUME_ENTITY_SHARDS :: nat where
  "HIGH_VOLUME_ENTITY_SHARDS = 16"

definition routeKey :: "string \<Rightarrow> item_key" where
  "routeKey rid = (''ROUTE#'' @ rid, ''STATE'')"

definition accessGrantKey :: "string \<Rightarrow> item_key" where
  "accessGrantKey gid = (''ACCESS_GRANT#'' @ gid, ''STATE'')"

definition logicalSessionKey :: "string \<Rightarrow> item_key" where
  "logicalSessionKey sid = (''LOGICAL_SESSION#'' @ sid, ''STATE'')"

definition credentialLookupKey :: "string \<Rightarrow> item_key" where
  "credentialLookupKey username = (''CREDENTIAL#'' @ username, ''LOOKUP'')"

definition capacity_circuit_key :: "ProviderId \<Rightarrow> string \<Rightarrow> item_key" where
  "capacity_circuit_key provider candidateKey = (''CAPACITY_CIRCUIT#'' @ provider @ ''#'' @ candidateKey, ''STATE'')"

definition epochKey :: item_key where
  "epochKey = (''AUTHORIZATION#GLOBAL'', ''EPOCH'')"

definition tunnelKey :: "string \<Rightarrow> item_key" where
  "tunnelKey tid = (''ACTIVE_TUNNEL#'' @ tid, ''STATE'')"

definition drainKey :: "string \<Rightarrow> item_key" where
  "drainKey did = (''DEPLOYMENT#'' @ did, ''DRAIN'')"

lemmas key_defs =
  routeKey_def accessGrantKey_def logicalSessionKey_def credentialLookupKey_def capacityCircuitKey_def epochKey_def
  tunnelKey_def drainKey_def

text \<open>No two kinds of item share a key, and within a kind the key determines the identifier.\<close>

lemma keys_apart [simp]:
  "routeKey a \<noteq> accessGrantKey b" "routeKey a \<noteq> logicalSessionKey b" "routeKey a \<noteq> credentialLookupKey b" "routeKey a \<noteq> epochKey"
  "accessGrantKey a \<noteq> routeKey b" "accessGrantKey a \<noteq> logicalSessionKey b" "accessGrantKey a \<noteq> credentialLookupKey b"
  "accessGrantKey a \<noteq> epochKey" "logicalSessionKey a \<noteq> routeKey b" "logicalSessionKey a \<noteq> accessGrantKey b"
  "logicalSessionKey a \<noteq> credentialLookupKey b" "logicalSessionKey a \<noteq> epochKey" "credentialLookupKey a \<noteq> routeKey b"
  "credentialLookupKey a \<noteq> accessGrantKey b" "credentialLookupKey a \<noteq> logicalSessionKey b" "credentialLookupKey a \<noteq> epochKey"
  "epochKey \<noteq> routeKey b" "epochKey \<noteq> accessGrantKey b" "epochKey \<noteq> logicalSessionKey b" "epochKey \<noteq> credentialLookupKey b"
  by (simp_all add: key_defs)

lemma keys_inj [simp]:
  "routeKey a = routeKey b \<longleftrightarrow> a = b" "accessGrantKey a = accessGrantKey b \<longleftrightarrow> a = b"
  "logicalSessionKey a = logicalSessionKey b \<longleftrightarrow> a = b" "credentialLookupKey a = credentialLookupKey b \<longleftrightarrow> a = b"
  "tunnelKey a = tunnelKey b \<longleftrightarrow> a = b" "drainKey a = drainKey b \<longleftrightarrow> a = b"
  by (simp_all add: key_defs)

text \<open>Items of high volume are spread over shards by a 32-bit hash of their identifier (FNV-1a).\<close>

definition shard_hash :: "string \<Rightarrow> 32 word" where
  "shard_hash s = foldl (\<lambda>h c. (h XOR of_nat (of_char c)) * 16777619) 2166136261 s"

definition shardedEntity :: "string \<Rightarrow> string \<Rightarrow> string" where
  "shardedEntity entity i = entity @ ''#'' @ show_nat (unat (shard_hash i) mod HIGH_VOLUME_ENTITY_SHARDS)"

definition entityShards :: "string \<Rightarrow> string list" where
  "entityShards entity = map (\<lambda>n. entity @ ''#'' @ show_nat n) [0..<HIGH_VOLUME_ENTITY_SHARDS]"

lemma shard_listed: "shardedEntity entity i \<in> set (entityShards entity)"
  by (simp add: shardedEntity_def entityShards_def HIGH_VOLUME_ENTITY_SHARDS_def)

subsection \<open>Items\<close>

text \<open>The keys of an item in the assignment index: the owner, and the time and identifier by which the owner's items sort.\<close>

type_synonym gsi = "string \<times> timestamp \<times> string"

record RouteItem =
  ri_createdAt :: timestamp
  ri_status :: RouteStatus
  ri_route :: StoredRoute
  ri_gsi :: "gsi option"

record AccessGrantItem =
  gi_createdAt :: timestamp
  gi_status :: AccessGrantStatus
  gi_routeId :: string
  gi_principalId :: string
  gi_grant :: StoredAccessGrant
  gi_gsi :: "gsi option"

record LogicalSessionItem =
  si_createdAt :: timestamp
  si_grantId :: string
  si_routeId :: string
  si_status :: LogicalSessionStatus
  si_session :: StoredLogicalSession
  si_gsi :: gsi

record CredentialLookupItem =
  cl_createdAt :: timestamp
  cl_expiresAtSeconds :: int
  cl_grantId :: string
  cl_credentialId :: string

record ActiveTunnelItem =
  ti_entity :: string
  ti_createdAt :: timestamp
  ti_gsi :: "gsi option"
  ti_expiresAtSeconds :: int
  ti_tunnel :: ActiveTunnel

record LoadLeaseItem =
  le_createdAt :: timestamp
  le_expiresAtSeconds :: int

record CapacityCircuitItem =
  ci_createdAt :: timestamp
  ci_expiresAtSeconds :: int
  ci_state :: CapacityCircuitState

record LockItem =
  lk_owner :: string
  lk_expiresAtSeconds :: int

record DeploymentDrainItem =
  di_createdAt :: timestamp
  di_state :: DeploymentDrainState

datatype item =
    IRoute RouteItem | IGrant AccessGrantItem | ISession LogicalSessionItem | ILookup CredentialLookupItem | IEpoch int
  | ITunnel ActiveTunnelItem | ILease LoadLeaseItem | ICircuit CapacityCircuitItem | ILock LockItem
  | IDrain DeploymentDrainItem | IExpiring int
  | IHealth ProviderHealth | IInventory ProviderInventorySnapshot | ICapability CapabilityHealthSnapshot
  | IAlertState HealthAlertState | IAlert HealthAlertEvent | IDelivery HealthAlertDelivery
  | IUsage UsageRecord | IRollup UsageRollup | IReconciliation UsageReconciliation | IUsageAlert UsageAlertEvent
  | IPressure CapacityPressureEvidence

definition routeItem :: "StoredRoute \<Rightarrow> item" where
  "routeItem r =
     IRoute \<lparr>ri_createdAt = route_createdAt r, ri_status = route_status r, ri_route = r,
             ri_gsi = Some (''USER#'' @ userId r, route_createdAt r, route_id r)\<rparr>"

definition grantItem :: "StoredAccessGrant \<Rightarrow> item" where
  "grantItem g =
     IGrant \<lparr>gi_createdAt = grant_createdAt g, gi_status = grant_status g, gi_routeId = grant_routeId g,
             gi_principalId = principalId g, gi_grant = g,
             gi_gsi = Some (''ROUTE#'' @ grant_routeId g, grant_createdAt g, grant_id g)\<rparr>"

definition logicalSessionItem :: "StoredLogicalSession \<Rightarrow> item" where
  "logicalSessionItem x =
     ISession \<lparr>si_createdAt = session_createdAt x, si_grantId = session_grantId x, si_routeId = session_routeId x,
               si_status = session_status x, si_session = x,
               si_gsi = (''GRANT#'' @ session_grantId x, session_createdAt x, session_id x)\<rparr>"

definition ceil_seconds :: "timestamp \<Rightarrow> int" where
  "ceil_seconds t = - ((- t) div 1000)"

definition credentialLookupItem :: "string \<Rightarrow> StoredAccessGrantCredential \<Rightarrow> item" where
  "credentialLookupItem gid c =
     ILookup \<lparr>cl_createdAt = cred_createdAt c, cl_expiresAtSeconds = ceil_seconds (expiresAt c),
              cl_grantId = gid, cl_credentialId = cred_id c\<rparr>"

subsection \<open>The table as a parameter\<close>

text \<open>Which items a query is for: an entity of the entity index, an owner of the assignment index, or a partition.\<close>

datatype query = ByEntity string | ByOwner string | ByPartition string

fun item_entity :: "item \<Rightarrow> string option" where
  "item_entity (IRoute _) = Some ''route''"
| "item_entity (IGrant _) = Some ''access_grant''"
| "item_entity (ISession _) = Some ''logical_session''"
| "item_entity (ILookup _) = Some ''credential_lookup''"
| "item_entity (ITunnel t) = Some (ti_entity t)"
| "item_entity (ILease _) = Some ''active_load_lease''"
| "item_entity (ICircuit _) = Some ''capacity_circuit''"
| "item_entity (IDrain _) = Some ''deployment_drain''"
| "item_entity (IHealth _) = Some ''health''"
| "item_entity (IInventory _) = Some ''provider_inventory''"
| "item_entity (ICapability _) = Some ''capability_health''"
| "item_entity (IAlertState _) = Some ''health_alert_state''"
| "item_entity (IAlert _) = Some ''health_alert_event''"
| "item_entity (IDelivery d) =
     Some (case delivery_status d of
             DeliveryPending \<Rightarrow> ''health_alert_delivery_pending''
           | DeliveryDelivered \<Rightarrow> ''health_alert_delivery_delivered''
           | DeliveryFailed \<Rightarrow> ''health_alert_delivery_failed'')"
| "item_entity (IUsage r) = Some (shardedEntity ''usage_record'' (ur_id r))"
| "item_entity (IRollup _) = Some ''usage_rollup''"
| "item_entity (IReconciliation _) = Some ''usage_reconciliation''"
| "item_entity (IUsageAlert _) = Some ''usage_alert_event''"
| "item_entity (IPressure _) = Some ''capacity_pressure_evidence''"
| "item_entity _ = None"

fun item_owner :: "item \<Rightarrow> string option" where
  "item_owner (IRoute i) = map_option fst (ri_gsi i)"
| "item_owner (IGrant i) = map_option fst (gi_gsi i)"
| "item_owner (ISession i) = Some (fst (si_gsi i))"
| "item_owner (ITunnel i) = map_option fst (ti_gsi i)"
| "item_owner _ = None"

fun selects :: "query \<Rightarrow> item_key \<Rightarrow> item \<Rightarrow> bool" where
  "selects (ByEntity e) k it = (item_entity it = Some e)"
| "selects (ByOwner g) k it = (item_owner it = Some g)"
| "selects (ByPartition p) k it = (fst k = p)"

text \<open>A conditional write: the condition and the effect see the item before it.\<close>

datatype item_write = Write (w_key: item_key) (w_condition: "item option \<Rightarrow> bool") (w_effect: "item option \<Rightarrow> item option")

definition applied :: "item_write list \<Rightarrow> (item_key \<Rightarrow> item option) \<Rightarrow> item_key \<Rightarrow> item option" where
  "applied ws m k = (case List.find (\<lambda>w. w_key w = k) ws of None \<Rightarrow> m k | Some w \<Rightarrow> w_effect w (m k))"

record 'db Dynamo =
  dy_get :: "'db \<Rightarrow> item_key \<Rightarrow> item option"
  dy_write :: "item_write list \<Rightarrow> 'db \<Rightarrow> bool \<times> 'db"
  dy_query :: "'db \<Rightarrow> query \<Rightarrow> (item_key \<times> item) list"

text \<open>
  What the documentation promises: a write, alone or in a transaction on distinct items, happens as a whole exactly if all
  its conditions hold at that moment; a consistent read sees every write before it; a query returns the items it selects,
  once the indexes have caught up.
\<close>

definition dynamo_ok :: "'db Dynamo \<Rightarrow> bool" where
  "dynamo_ok c \<longleftrightarrow>
     (\<forall>ws db. distinct (map w_key ws) \<longrightarrow>
        (case dy_write c ws db of (b, db') \<Rightarrow>
           b = list_all (\<lambda>w. w_condition w (dy_get c db (w_key w))) ws
           \<and> dy_get c db' = (if b then applied ws (dy_get c db) else dy_get c db)))
     \<and> (\<forall>db q. distinct (map fst (dy_query c db q))
            \<and> set (dy_query c db q) = {(k, it). dy_get c db k = Some it \<and> selects q k it})"

lemma dynamo_query:
  assumes "dynamo_ok c"
  shows "distinct (map fst (dy_query c db q))"
    "set (dy_query c db q) = {(k, it). dy_get c db k = Some it \<and> selects q k it}"
    "set (map snd (dy_query c db q)) = {it. \<exists>k. dy_get c db k = Some it \<and> selects q k it}"
proof -
  have once: "distinct (map fst (dy_query c db q)) \<and> set (dy_query c db q) = {(k, it). dy_get c db k = Some it \<and> selects q k it}"
    using assms unfolding dynamo_ok_def by blast
  then show "distinct (map fst (dy_query c db q))" "set (dy_query c db q) = {(k, it). dy_get c db k = Some it \<and> selects q k it}" by blast+
  from once have mem: "x \<in> set (dy_query c db q) \<longleftrightarrow> dy_get c db (fst x) = Some (snd x) \<and> selects q (fst x) (snd x)" for x
    by (cases x) simp
  show "set (map snd (dy_query c db q)) = {it. \<exists>k. dy_get c db k = Some it \<and> selects q k it}"
  proof (rule set_eqI)
    fix it
    have "it \<in> set (map snd (dy_query c db q)) \<longleftrightarrow> (\<exists>k. (k, it) \<in> set (dy_query c db q))"
      unfolding set_map image_iff by (metis prod.collapse snd_conv)
    then show "it \<in> set (map snd (dy_query c db q)) \<longleftrightarrow> it \<in> {it. \<exists>k. dy_get c db k = Some it \<and> selects q k it}" by (simp add: mem)
  qed
qed

subsection \<open>Programs\<close>

datatype 'a dyn =
    Done "exn + 'a"
  | GetItem item_key "item option \<Rightarrow> 'a dyn"
  | Commit "item_write list" "bool \<Rightarrow> 'a dyn"
  | QueryAll query "(item_key \<times> item) list \<Rightarrow> 'a dyn"

primrec dyn_bind :: "'a dyn \<Rightarrow> ('a \<Rightarrow> 'b dyn) \<Rightarrow> 'b dyn" where
  "dyn_bind (Done r) g = (case r of Inl e \<Rightarrow> Done (Inl e) | Inr x \<Rightarrow> g x)"
| "dyn_bind (GetItem k f) g = GetItem k (\<lambda>v. dyn_bind (f v) g)"
| "dyn_bind (Commit ws f) g = Commit ws (\<lambda>v. dyn_bind (f v) g)"
| "dyn_bind (QueryAll q f) g = QueryAll q (\<lambda>v. dyn_bind (f v) g)"

primrec dyn_catch :: "'a dyn \<Rightarrow> (exn \<Rightarrow> 'a dyn) \<Rightarrow> 'a dyn" where
  "dyn_catch (Done r) h = (case r of Inl e \<Rightarrow> h e | Inr x \<Rightarrow> Done (Inr x))"
| "dyn_catch (GetItem k f) h = GetItem k (\<lambda>v. dyn_catch (f v) h)"
| "dyn_catch (Commit ws f) h = Commit ws (\<lambda>v. dyn_catch (f v) h)"
| "dyn_catch (QueryAll q f) h = QueryAll q (\<lambda>v. dyn_catch (f v) h)"

primrec dyn_for :: "('x \<Rightarrow> unit dyn) \<Rightarrow> 'x list \<Rightarrow> unit dyn" where
  "dyn_for f [] = Done (Inr ())"
| "dyn_for f (x # xs) = dyn_bind (f x) (\<lambda>_. dyn_for f xs)"

abbreviation dyn_return :: "'a \<Rightarrow> 'a dyn" where
  "dyn_return x \<equiv> Done (Inr x)"

abbreviation dyn_throw :: "exn \<Rightarrow> 'a dyn" where
  "dyn_throw e \<equiv> Done (Inl e)"

text \<open>What other clients do before the first command, before the second, and so on.\<close>

definition others :: "('db \<Rightarrow> 'db) list \<Rightarrow> 'db \<Rightarrow> 'db" where
  "others fs db = (case fs of [] \<Rightarrow> db | f # _ \<Rightarrow> f db)"

primrec run_amid :: "'db Dynamo \<Rightarrow> 'a dyn \<Rightarrow> ('db \<Rightarrow> 'db) list \<Rightarrow> 'db \<Rightarrow> 'a result \<times> 'db" where
  "run_amid c (Done r) = (\<lambda>fs db. (r, db))"
| "run_amid c (GetItem k f) = (\<lambda>fs db. let db = others fs db in run_amid c (f (dy_get c db k)) (tl fs) db)"
| "run_amid c (Commit ws f) = (\<lambda>fs db. let (b, db) = dy_write c ws (others fs db) in run_amid c (f b) (tl fs) db)"
| "run_amid c (QueryAll q f) = (\<lambda>fs db. let db = others fs db in run_amid c (f (dy_query c db q)) (tl fs) db)"

definition run_alone :: "'db Dynamo \<Rightarrow> 'a dyn \<Rightarrow> 'db \<Rightarrow> 'a result \<times> 'db" where
  "run_alone c p db = run_amid c p [] db"

lemma run_alone_simps [simp]:
  "run_alone c (Done r) db = (r, db)"
  "run_alone c (GetItem k f1) db = run_alone c (f1 (dy_get c db k)) db"
  "run_alone c (Commit ws f2) db = (case dy_write c ws db of (b, db') \<Rightarrow> run_alone c (f2 b) db')"
  "run_alone c (QueryAll q f3) db = run_alone c (f3 (dy_query c db q)) db"
  by (simp_all add: run_alone_def others_def)

lemma run_alone_bind:
  "run_alone c (dyn_bind p g) db = (case run_alone c p db of (Inl e, db') \<Rightarrow> (Inl e, db') | (Inr x, db') \<Rightarrow> run_alone c (g x) db')"
  by (induction p arbitrary: db) (simp_all split: sum.split prod.split)

lemma run_alone_catch:
  "run_alone c (dyn_catch p h) db = (case run_alone c p db of (Inl e, db') \<Rightarrow> run_alone c (h e) db' | (Inr x, db') \<Rightarrow> (Inr x, db'))"
  by (induction p arbitrary: db) (simp_all split: sum.split prod.split)

subsection \<open>A table in memory\<close>

text \<open>The reference table: an association list, on which programs can be evaluated.\<close>

type_synonym table = "(item_key, item) js_map"

definition table_write1 :: "table \<Rightarrow> item_write \<Rightarrow> table" where
  "table_write1 t w = (case w_effect w (js_get t (w_key w)) of None \<Rightarrow> js_delete t (w_key w) | Some it \<Rightarrow> js_set t (w_key w) it)"

definition table_client :: "table Dynamo" where
  "table_client =
     \<lparr>dy_get = js_get,
      dy_write = (\<lambda>ws t. if list_all (\<lambda>w. w_condition w (js_get t (w_key w))) ws then (True, foldl table_write1 t ws) else (False, t)),
      dy_query = (\<lambda>t q. map (\<lambda>k. (k, the (js_get t k)))
                          (filter (\<lambda>k. case js_get t k of None \<Rightarrow> False | Some it \<Rightarrow> selects q k it) (remdups (map fst t))))\<rparr>"

lemma table_write1_get: "js_get (table_write1 t w) = (js_get t)(w_key w := w_effect w (js_get t (w_key w)))"
  by (auto simp: table_write1_def fun_eq_iff split: option.split)

lemma table_writes_get:
  "distinct (map w_key ws) \<Longrightarrow> js_get (foldl table_write1 t ws) = applied ws (js_get t)"
proof (induction ws arbitrary: t)
  case (Cons w ws)
  then have "js_get (foldl table_write1 t (w # ws)) = applied ws (js_get (table_write1 t w))" by simp
  also have "\<dots> = applied (w # ws) (js_get t)"
  proof
    fix k
    have "List.find (\<lambda>v. w_key v = k) ws = None" if "w_key w = k" using Cons.prems that
      by (auto simp: find_None_iff) (metis rev_image_eqI)
    then show "applied ws (js_get (table_write1 t w)) k = applied (w # ws) (js_get t) k"
      by (auto simp: applied_def table_write1_get split: option.split)
  qed
  finally show ?case .
qed (simp add: applied_def fun_eq_iff)

lemma in_map_filter: "y \<in> set (List.map_filter f xs) \<longleftrightarrow> (\<exists>x \<in> set xs. f x = Some y)"
  by (induction xs) (auto simp: List.map_filter_simps split: option.splits)

lemma table_client_ok: "dynamo_ok table_client"
proof -
  have query: "(k, it) \<in> set (dy_query table_client t q) \<longleftrightarrow> js_get t k = Some it \<and> selects q k it" for t q k it
  proof -
    have "k \<in> fst ` set t" if "js_get t k = Some it" using js_get_mem [OF that] by (rule rev_image_eqI) simp
    then show ?thesis by (auto simp: table_client_def split: option.split_asm)
  qed
  have once: "distinct (map fst (dy_query table_client t q))" for t q by (simp add: table_client_def o_def)
  have writes: "case dy_write table_client ws t of (b, t') \<Rightarrow>
      b = list_all (\<lambda>w. w_condition w (dy_get table_client t (w_key w))) ws
      \<and> dy_get table_client t' = (if b then applied ws (dy_get table_client t) else dy_get table_client t)"
    if "distinct (map w_key ws)" for ws t
    using that by (simp add: table_client_def table_writes_get)
  have "set (dy_query table_client t q) = {(k, it). dy_get table_client t k = Some it \<and> selects q k it}" for t q
  proof (rule set_eqI)
    fix x :: "item_key \<times> item"
    have read: "dy_get table_client = js_get" by (simp add: table_client_def)
    obtain k it where x: "x = (k, it)" by (cases x)
    show "x \<in> set (dy_query table_client t q) \<longleftrightarrow> x \<in> {(k, it). dy_get table_client t k = Some it \<and> selects q k it}"
      unfolding x query read by simp
  qed
  then show ?thesis unfolding dynamo_ok_def using writes once by blast
qed

end
