(* ===== verification/Dynamo_Store.thy ===== *)
theory Dynamo_Store
  imports Dynamo_Table Store_Contracts
begin

text \<open>
  \<open>src/dynamo-store.ts\<close>: the store of routes, access grants and logical sessions that production uses, each operation as
  a program over the table. A refused condition is an error of the AWS client with the name the code tests for. \<open>now\<close> is
  the one reading of the clock; random salts and the digest are arguments, as in \<open>Route_Store\<close>.
\<close>

subsection \<open>Errors and the epoch\<close>

definition conditional_failed :: exn where
  "conditional_failed = throw_error ''ConditionalCheckFailedException''"

definition transaction_cancelled :: exn where
  "transaction_cancelled = throw_error ''TransactionCanceledException''"

definition not_found :: exn where
  "not_found = throw notFoundError"

text \<open>\<open>conditionalNotFound\<close>: a refused condition or transaction counts as not found.\<close>

definition conditionalNotFound :: "exn \<Rightarrow> exn" where
  "conditionalNotFound e =
     (case exn_value e of
        JsError msg _ \<Rightarrow> if msg = ''ConditionalCheckFailedException'' \<or> msg = ''TransactionCanceledException'' then not_found else e
      | _ \<Rightarrow> e)"

definition put :: "item_key \<Rightarrow> item \<Rightarrow> (item option \<Rightarrow> bool) \<Rightarrow> item_write" where
  "put k it cond = Write k cond (\<lambda>_. Some it)"

definition absent :: "item option \<Rightarrow> bool" where
  "absent v \<longleftrightarrow> v = None"

definition present :: "item option \<Rightarrow> bool" where
  "present v \<longleftrightarrow> v \<noteq> None"

definition commit_or :: "exn \<Rightarrow> item_write list \<Rightarrow> unit dyn" where
  "commit_or e ws = Commit ws (\<lambda>ok. if ok then dyn_return () else dyn_throw e)"

definition dy_getAuthorizationEpoch :: "int dyn" where
  "dy_getAuthorizationEpoch =
     GetItem epochKey (\<lambda>v. dyn_return (case v of Some (IEpoch n) \<Rightarrow> if 0 \<le> n \<and> n \<le> MAX_SAFE_INTEGER then n else 0 | _ \<Rightarrow> 0))"

text \<open>\<open>ADD\<close> counts from zero where there is no number yet.\<close>

definition dy_bumpAuthorizationEpoch :: "unit dyn" where
  "dy_bumpAuthorizationEpoch =
     commit_or conditional_failed [Write epochKey (\<lambda>_. True) (\<lambda>v. Some (IEpoch (case v of Some (IEpoch n) \<Rightarrow> n + 1 | _ \<Rightarrow> 1)))]"

definition wrong_item :: exn where
  "wrong_item = throw_error ''Expected an item of another kind''"

subsection \<open>Routes\<close>

definition dy_create :: "timestamp \<Rightarrow> string \<Rightarrow> RouteProfile \<Rightarrow> StoredRoute dyn" where
  "dy_create now rid profile =
     (let route = RouteProfile.extend profile (StoredRoute.fields rid RouteReady False now now)
      in dyn_bind (commit_or conditional_failed [put (routeKey rid) (routeItem route) absent]) (\<lambda>_.
         dyn_bind dy_bumpAuthorizationEpoch (\<lambda>_. dyn_return route)))"

definition dy_get_route :: "string \<Rightarrow> bool \<Rightarrow> StoredRoute dyn" where
  "dy_get_route rid includeRevoked =
     GetItem (routeKey rid) (\<lambda>v.
       case v of
         None \<Rightarrow> dyn_throw not_found
       | Some (IRoute i) \<Rightarrow>
           if \<not> includeRevoked \<and> route_status (ri_route i) = RouteRevoked then dyn_throw not_found else dyn_return (ri_route i)
       | Some _ \<Rightarrow> dyn_throw wrong_item)"

text \<open>The optional properties of the previous route are dropped before the profile is spread over it.\<close>

definition replace_profile :: "StoredRoute \<Rightarrow> RouteProfile \<Rightarrow> StoredRoute" where
  "replace_profile previous profile =
     previous\<lparr>rp_name := rp_name profile, customerId := customerId profile, geography := geography profile,
       rp_carrier := rp_carrier profile, providerOverride := providerOverride profile,
       allowConnectionRetry := allowConnectionRetry profile, userId := userId profile,
       allowedProtocols := allowedProtocols profile, targeting := targeting profile,
       rotation := rotation profile, shouldRetry := shouldRetry profile, retryPolicy := retryPolicy profile\<rparr>"

definition dy_update :: "timestamp \<Rightarrow> string \<Rightarrow> RouteProfile \<Rightarrow> StoredRoute dyn" where
  "dy_update now rid profile =
     dyn_bind (dy_get_route rid False) (\<lambda>previous.
     let route = (replace_profile previous profile)\<lparr>route_status := RouteReady, route_updatedAt := now\<rparr>
     in dyn_bind (commit_or conditional_failed [put (routeKey rid) (routeItem route) present]) (\<lambda>_.
        dyn_bind dy_bumpAuthorizationEpoch (\<lambda>_. dyn_return route)))"

definition dy_list :: "string option \<Rightarrow> StoredRoute list dyn" where
  "dy_list user =
     QueryAll (case user of None \<Rightarrow> ByEntity ''route'' | Some u \<Rightarrow> ByOwner (''USER#'' @ u)) (\<lambda>items.
       dyn_return (List.map_filter (\<lambda>it. case it of IRoute i \<Rightarrow> if ri_status i \<noteq> RouteRevoked then Some (ri_route i) else None | _ \<Rightarrow> None) (map snd items)))"

definition revoke_route_item :: "timestamp \<Rightarrow> bool \<Rightarrow> item option \<Rightarrow> item option" where
  "revoke_route_item now terminate v =
     (case v of
        Some (IRoute i) \<Rightarrow>
          Some (IRoute (i\<lparr>ri_status := RouteRevoked, ri_gsi := None,
            ri_route := (ri_route i)\<lparr>route_status := RouteRevoked, route_terminateActive := terminate, route_updatedAt := now\<rparr>\<rparr>))
      | _ \<Rightarrow> v)"

definition dy_revoke :: "timestamp \<Rightarrow> string \<Rightarrow> bool \<Rightarrow> unit dyn" where
  "dy_revoke now rid terminate =
     dyn_bind
       (commit_or (conditionalNotFound conditional_failed)
          [Write (routeKey rid)
             (\<lambda>v. present v \<and> (terminate \<or> (case v of Some (IRoute i) \<Rightarrow> ri_status i \<noteq> RouteRevoked | _ \<Rightarrow> True)))
             (revoke_route_item now terminate)])
       (\<lambda>_. dy_bumpAuthorizationEpoch)"

subsection \<open>Access grants\<close>

definition dy_getAccessGrant :: "string \<Rightarrow> bool \<Rightarrow> StoredAccessGrant dyn" where
  "dy_getAccessGrant gid includeRevoked =
     GetItem (accessGrantKey gid) (\<lambda>v.
       case v of
         None \<Rightarrow> dyn_throw not_found
       | Some (IGrant i) \<Rightarrow>
           if \<not> includeRevoked \<and> grant_status (gi_grant i) = GrantRevoked then dyn_throw not_found else dyn_return (gi_grant i)
       | Some _ \<Rightarrow> dyn_throw wrong_item)"

definition lookup_write :: "string \<Rightarrow> StoredAccessGrantCredential \<Rightarrow> item_write" where
  "lookup_write gid c = put (credentialLookupKey (credentialUsername (cred_id c))) (credentialLookupItem gid c) absent"

definition dy_createAccessGrant ::
    "token_hash \<Rightarrow> string \<Rightarrow> timestamp \<Rightarrow> string \<Rightarrow> string \<Rightarrow> string \<Rightarrow> string \<Rightarrow> string \<Rightarrow> SessionMode \<Rightarrow>
     string option \<Rightarrow> string option \<Rightarrow> StoredAccessGrant dyn" where
  "dy_createAccessGrant hash salt now gid rid owner cid token mode sid jid =
     dyn_bind (dy_get_route rid False) (\<lambda>_.
     let credential = createStoredCredential hash salt cid token mode now sid;
         grant = \<lparr>grant_id = gid, grant_routeId = rid, principalId = owner, grant_jobId = jid, credentials = [credential],
                  grant_status = GrantReady, grant_terminateActive = False, grant_createdAt = now, grant_updatedAt = now\<rparr>
     in dyn_bind (commit_or transaction_cancelled [put (accessGrantKey gid) (grantItem grant) absent, lookup_write gid credential])
          (\<lambda>_. dyn_return grant))"

definition not_revoked_grant :: "item option \<Rightarrow> bool" where
  "not_revoked_grant v \<longleftrightarrow> (case v of Some (IGrant i) \<Rightarrow> gi_status i \<noteq> GrantRevoked | _ \<Rightarrow> present v)"

definition save_with_credential :: "StoredAccessGrant \<Rightarrow> StoredAccessGrantCredential \<Rightarrow> StoredAccessGrant dyn" where
  "save_with_credential g c =
     dyn_catch
       (dyn_bind (commit_or transaction_cancelled [put (accessGrantKey (grant_id g)) (grantItem g) not_revoked_grant, lookup_write (grant_id g) c])
          (\<lambda>_. dyn_bind dy_bumpAuthorizationEpoch (\<lambda>_. dyn_return g)))
       (\<lambda>e. dyn_throw (conditionalNotFound e))"

definition dy_addAccessGrantCredential ::
    "token_hash \<Rightarrow> string \<Rightarrow> timestamp \<Rightarrow> string \<Rightarrow> string \<Rightarrow> string \<Rightarrow> SessionMode \<Rightarrow> string option \<Rightarrow> StoredAccessGrant dyn" where
  "dy_addAccessGrantCredential hash salt now gid cid token mode sid =
     dyn_bind (dy_getAccessGrant gid False) (\<lambda>g.
     let credential = createStoredCredential hash salt cid token mode now sid
     in save_with_credential (g\<lparr>credentials := credentials g @ [credential], grant_updatedAt := now\<rparr>) credential)"

definition dy_listAccessGrants :: "string \<Rightarrow> string option \<Rightarrow> StoredAccessGrant list dyn" where
  "dy_listAccessGrants rid owner =
     dyn_bind (dy_get_route rid False) (\<lambda>_.
     QueryAll (ByOwner (''ROUTE#'' @ rid)) (\<lambda>items.
       dyn_return (List.map_filter (\<lambda>it. case it of
           IGrant i \<Rightarrow> if (case owner of None \<Rightarrow> True | Some p \<Rightarrow> gi_principalId i = p) then Some (gi_grant i) else None
         | _ \<Rightarrow> None) (map snd items))))"

definition find_index :: "('x \<Rightarrow> bool) \<Rightarrow> 'x list \<Rightarrow> nat option" where
  "find_index P xs = (let n = length (takeWhile (\<lambda>x. \<not> P x) xs) in if n < length xs then Some n else None)"

definition touch_item :: "timestamp \<Rightarrow> nat \<Rightarrow> item option \<Rightarrow> item option" where
  "touch_item now n v =
     (case v of
        Some (IGrant i) \<Rightarrow>
          let g = gi_grant i
          in Some (IGrant (i\<lparr>gi_grant := g\<lparr>credentials := (credentials g)[n := (credentials g ! n)\<lparr>cred_lastUsedAt := Some now\<rparr>],
                                       grant_updatedAt := now\<rparr>\<rparr>))
      | _ \<Rightarrow> v)"

definition touchable :: "string \<Rightarrow> nat \<Rightarrow> item option \<Rightarrow> bool" where
  "touchable digest n v \<longleftrightarrow>
     (case v of
        Some (IGrant i) \<Rightarrow>
          gi_status i \<noteq> GrantRevoked \<and> n < length (credentials (gi_grant i)) \<and> tokenHash (credentials (gi_grant i) ! n) = digest
      | _ \<Rightarrow> False)"

definition lookup_matches ::
    "token_hash \<Rightarrow> string \<Rightarrow> string \<Rightarrow> timestamp \<Rightarrow> string \<Rightarrow> StoredAccessGrantCredential \<Rightarrow> bool" where
  "lookup_matches hash username token now cid c \<longleftrightarrow>
     cred_id c = cid \<and> credentialUsername (cred_id c) = username \<and> credentialUsable c now \<and> hash token (tokenSalt c) = tokenHash c"

text \<open>The grant and route of a looked-up credential, or nothing if one is not found.\<close>

definition dy_grant_and_route :: "string \<Rightarrow> (StoredAccessGrant \<times> StoredRoute) option dyn" where
  "dy_grant_and_route gid =
     dyn_catch (dyn_bind (dy_getAccessGrant gid False) (\<lambda>g. dyn_bind (dy_get_route (grant_routeId g) False) (\<lambda>r. dyn_return (Some (g, r)))))
       (\<lambda>e. if (case exn_value e of AppErr a \<Rightarrow> err_class a = ClsNotFound | _ \<Rightarrow> False) then dyn_return None else dyn_throw e)"

definition dy_authenticateAccessGrant :: "token_hash \<Rightarrow> timestamp \<Rightarrow> string \<Rightarrow> string \<Rightarrow> AuthenticatedAccessGrant option dyn" where
  "dy_authenticateAccessGrant hash now username token =
     GetItem (credentialLookupKey username) (\<lambda>v.
       case v of
         None \<Rightarrow> dyn_return None
       | Some (ILookup l) \<Rightarrow>
           dyn_bind (dy_grant_and_route (cl_grantId l)) (\<lambda>found.
           case found of
             None \<Rightarrow> dyn_return None
           | Some (g, r) \<Rightarrow>
               (case find_index (lookup_matches hash username token now (cl_credentialId l)) (credentials g) of
                  None \<Rightarrow> dyn_return None
                | Some n \<Rightarrow>
                    let c = credentials g ! n; touched = c\<lparr>cred_lastUsedAt := Some now\<rparr>
                    in if (case cred_lastUsedAt c of None \<Rightarrow> False | Some t \<Rightarrow> now - t < ACCESS_GRANT_LAST_USED_WRITE_INTERVAL_MS)
                       then dyn_return (Some \<lparr>auth_grant = g, auth_credential = c, auth_route = r\<rparr>)
                       else dyn_bind (commit_or conditional_failed
                                [Write (accessGrantKey (grant_id g)) (touchable (tokenHash c) n) (touch_item now n)])
                              (\<lambda>_. dyn_return (Some \<lparr>auth_grant = g\<lparr>credentials := (credentials g)[n := touched], grant_updatedAt := now\<rparr>,
                                                   auth_credential = touched, auth_route = r\<rparr>))))
       | Some _ \<Rightarrow> dyn_throw wrong_item)"

definition dy_rotateAccessGrantCredential ::
    "token_hash \<Rightarrow> string \<Rightarrow> timestamp \<Rightarrow> string \<Rightarrow> string \<Rightarrow> string \<Rightarrow> string \<Rightarrow> bool \<Rightarrow> StoredAccessGrant dyn" where
  "dy_rotateAccessGrantCredential hash salt now gid previousId cid token compromised =
     dyn_bind (dy_getAccessGrant gid False) (\<lambda>g.
     case List.find (\<lambda>c. cred_id c = previousId) (credentials g) of
       None \<Rightarrow> dyn_throw not_found
     | Some previous \<Rightarrow>
         let credential = createStoredCredential hash salt cid token (cred_sessionMode previous) now (cred_sessionId previous)
         in save_with_credential
              (g\<lparr>credentials := map (rotate_credential now previousId compromised) (credentials g) @ [credential], grant_updatedAt := now\<rparr>)
              credential)"

definition dy_revokeAccessGrantCredential :: "timestamp \<Rightarrow> string \<Rightarrow> string \<Rightarrow> unit dyn" where
  "dy_revokeAccessGrantCredential now gid cid =
     dyn_bind (dy_getAccessGrant gid True) (\<lambda>g.
     case List.find (\<lambda>c. cred_id c = cid) (credentials g) of
       None \<Rightarrow> dyn_throw not_found
     | Some c \<Rightarrow>
         if cred_status c = CredRevoked then dyn_return ()
         else let g' = g\<lparr>credentials := update_first (\<lambda>c. cred_id c = cid) (\<lambda>c. c\<lparr>cred_status := CredRevoked, revokeAt := Some now\<rparr>) (credentials g),
                         grant_updatedAt := now\<rparr>
              in dyn_bind (commit_or conditional_failed [put (accessGrantKey (grant_id g')) (grantItem g') present])
                   (\<lambda>_. dy_bumpAuthorizationEpoch))"

subsection \<open>Logical sessions\<close>

definition dy_createLogicalSession :: "StoredLogicalSession \<Rightarrow> unit dyn" where
  "dy_createLogicalSession x = commit_or conditional_failed [put (logicalSessionKey (session_id x)) (logicalSessionItem x) absent]"

definition dy_getLogicalSession :: "string \<Rightarrow> bool \<Rightarrow> StoredLogicalSession dyn" where
  "dy_getLogicalSession sid includeClosed =
     GetItem (logicalSessionKey sid) (\<lambda>v.
       case v of
         None \<Rightarrow> dyn_throw not_found
       | Some (ISession i) \<Rightarrow>
           if \<not> includeClosed \<and> session_status (si_session i) = SessionClosed then dyn_throw not_found else dyn_return (si_session i)
       | Some _ \<Rightarrow> dyn_throw wrong_item)"

definition dy_listLogicalSessions :: "string \<Rightarrow> StoredLogicalSession list dyn" where
  "dy_listLogicalSessions gid =
     QueryAll (ByOwner (''GRANT#'' @ gid)) (\<lambda>items.
       dyn_return (List.map_filter (\<lambda>it. case it of ISession i \<Rightarrow> Some (si_session i) | _ \<Rightarrow> None) (map snd items)))"

definition rebindable :: "int \<Rightarrow> item option \<Rightarrow> bool" where
  "rebindable expected v \<longleftrightarrow>
     (case v of Some (ISession i) \<Rightarrow> si_status i = SessionOpen \<and> bindingVersion (si_session i) = expected | _ \<Rightarrow> False)"

definition dy_saveLogicalSession :: "StoredLogicalSession \<Rightarrow> int \<Rightarrow> bool dyn" where
  "dy_saveLogicalSession x expected =
     Commit [put (logicalSessionKey (session_id x)) (logicalSessionItem x) (rebindable expected)] (\<lambda>ok. dyn_return ok)"

definition closed_session :: "timestamp \<Rightarrow> bool \<Rightarrow> StoredLogicalSession \<Rightarrow> StoredLogicalSession" where
  "closed_session now terminate x =
     x\<lparr>session_status := SessionClosed, session_terminateActive := (session_terminateActive x \<or> terminate),
       closedAt := (case closedAt x of None \<Rightarrow> Some now | Some t \<Rightarrow> Some t), session_updatedAt := now\<rparr>"

definition dy_closeLogicalSession :: "timestamp \<Rightarrow> bool \<Rightarrow> string \<Rightarrow> unit dyn" where
  "dy_closeLogicalSession now terminate sid =
     dyn_bind (dy_getLogicalSession sid True) (\<lambda>x.
     if session_status x = SessionClosed \<and> (\<not> terminate \<or> session_terminateActive x) then dyn_return ()
     else let closed = closed_session now terminate x
          in dyn_bind (commit_or conditional_failed [put (logicalSessionKey (session_id closed)) (logicalSessionItem closed) present])
               (\<lambda>_. dy_bumpAuthorizationEpoch))"

definition dy_closeLogicalSessions :: "timestamp \<Rightarrow> bool \<Rightarrow> string \<Rightarrow> unit dyn" where
  "dy_closeLogicalSessions now terminate gid =
     dyn_bind (dy_listLogicalSessions gid) (dyn_for (\<lambda>x. dy_closeLogicalSession now terminate (session_id x)))"

definition revoke_grant_item :: "timestamp \<Rightarrow> bool \<Rightarrow> item option \<Rightarrow> item option" where
  "revoke_grant_item now terminate v =
     (case v of
        Some (IGrant i) \<Rightarrow>
          Some (IGrant (i\<lparr>gi_status := GrantRevoked, gi_gsi := None,
            gi_grant := (gi_grant i)\<lparr>grant_status := GrantRevoked, grant_terminateActive := terminate, grant_updatedAt := now\<rparr>\<rparr>))
      | _ \<Rightarrow> v)"

definition dy_revokeAccessGrant :: "timestamp \<Rightarrow> string \<Rightarrow> bool \<Rightarrow> unit dyn" where
  "dy_revokeAccessGrant now gid terminate =
     dyn_bind (commit_or (conditionalNotFound conditional_failed) [Write (accessGrantKey gid) present (revoke_grant_item now terminate)]) (\<lambda>_.
     dyn_bind (dy_closeLogicalSessions now terminate gid) (\<lambda>_. dy_bumpAuthorizationEpoch))"

definition dy_shouldTerminateActive :: "string \<Rightarrow> string option \<Rightarrow> string option \<Rightarrow> bool dyn" where
  "dy_shouldTerminateActive rid gid sid =
     dyn_catch
       (dyn_bind (dy_get_route rid True) (\<lambda>r.
        if route_terminateActive r then dyn_return True
        else dyn_bind (case gid of None \<Rightarrow> dyn_return False | Some g \<Rightarrow> dyn_bind (dy_getAccessGrant g True) (\<lambda>g. dyn_return (grant_terminateActive g))) (\<lambda>b.
             if b then dyn_return True
             else case sid of None \<Rightarrow> dyn_return False
                  | Some i \<Rightarrow> dyn_bind (dy_getLogicalSession i True) (\<lambda>x. dyn_return (session_terminateActive x)))))
       (\<lambda>_. dyn_return False)"

end
