(* ===== verification/Dynamo_Refinement.thy ===== *)
theory Dynamo_Refinement
  imports Dynamo_Store
begin

text \<open>
  The store of \<open>src/dynamo-store.ts\<close> against the one of \<open>src/in-memory-route-store.ts\<close>, which tests and local runs use:
  run alone, every operation gives the same answer and leaves the same store, up to the times of last use (production
  writes them every five minutes only) and the binding version of closed sessions. \<open>agreed\<close> names the calls on which
  they agree; what it excludes are real differences, each shown by a lemma.
\<close>

subsection \<open>Calls and answers\<close>

datatype store_call =
    DoCreateRoute timestamp string RouteProfile
  | DoGetRoute string bool
  | DoUpdateRoute timestamp string RouteProfile
  | DoRevokeRoute timestamp string bool
  | DoCreateGrant string timestamp string string string string string SessionMode "string option" "string option"
  | DoGetGrant string bool
  | DoAddCredential string timestamp string string string SessionMode "string option"
  | DoAuthenticate timestamp string string
  | DoRotate string timestamp string string string string bool
  | DoRevokeCredential timestamp string string
  | DoRevokeGrant timestamp string bool
  | DoCreateSession StoredLogicalSession
  | DoGetSession string bool
  | DoSaveSession StoredLogicalSession int
  | DoCloseSession timestamp bool string
  | DoShouldTerminate string "string option" "string option"

definition grant_view :: "StoredAccessGrant \<Rightarrow> StoredAccessGrant" where
  "grant_view g = g\<lparr>grant_updatedAt := 0, credentials := map (\<lambda>c. c\<lparr>cred_lastUsedAt := None\<rparr>) (credentials g)\<rparr>"

definition session_view :: "StoredLogicalSession \<Rightarrow> StoredLogicalSession" where
  "session_view x = (if session_status x = SessionClosed then x\<lparr>bindingVersion := 0\<rparr> else x)"

datatype store_answer =
    AnsRoute StoredRoute
  | AnsGrant StoredAccessGrant
  | AnsLogin "(StoredAccessGrant \<times> string \<times> StoredRoute) option"
  | AnsSession StoredLogicalSession
  | AnsBool bool
  | AnsUnit

definition login_view :: "AuthenticatedAccessGrant option \<Rightarrow> store_answer" where
  "login_view a = AnsLogin (map_option (\<lambda>a. (grant_view (auth_grant a), cred_id (auth_credential a), auth_route a)) a)"

text \<open>An error shows whether it is the not-found error.\<close>

definition answer :: "('a \<Rightarrow> store_answer) \<Rightarrow> 'a result \<Rightarrow> bool + store_answer" where
  "answer view r = (case r of Inl e \<Rightarrow> Inl (exn_value e = AppErr notFoundError) | Inr x \<Rightarrow> Inr (view x))"

fun memory_call :: "token_hash \<Rightarrow> store_call \<Rightarrow> StoreState \<Rightarrow> (bool + store_answer) \<times> StoreState" where
  "memory_call hash (DoCreateRoute now rid p) s = map_prod (answer AnsRoute) id (route_create now rid p s)"
| "memory_call hash (DoGetRoute rid b) s = (answer AnsRoute (route_get rid b s), s)"
| "memory_call hash (DoUpdateRoute now rid p) s = map_prod (answer AnsRoute) id (route_update now rid p s)"
| "memory_call hash (DoRevokeRoute now rid t) s = map_prod (answer (\<lambda>_. AnsUnit)) id (route_revoke now rid t s)"
| "memory_call hash (DoCreateGrant salt now gid rid owner cid token mode sid jid) s =
     map_prod (answer (AnsGrant \<circ> grant_view)) id (createAccessGrant hash salt now gid rid owner cid token mode sid jid s)"
| "memory_call hash (DoGetGrant gid b) s = (answer (AnsGrant \<circ> grant_view) (getAccessGrant gid b s), s)"
| "memory_call hash (DoAddCredential salt now gid cid token mode sid) s =
     map_prod (answer (AnsGrant \<circ> grant_view)) id (addAccessGrantCredential hash salt now gid cid token mode sid s)"
| "memory_call hash (DoAuthenticate now username token) s = map_prod (answer login_view) id (authenticateAccessGrant hash now username token s)"
| "memory_call hash (DoRotate salt now gid previous cid token b) s =
     map_prod (answer (AnsGrant \<circ> grant_view)) id (rotateAccessGrantCredential hash salt now gid previous cid token b s)"
| "memory_call hash (DoRevokeCredential now gid cid) s = map_prod (answer (\<lambda>_. AnsUnit)) id (revokeAccessGrantCredential now gid cid s)"
| "memory_call hash (DoRevokeGrant now gid t) s = map_prod (answer (\<lambda>_. AnsUnit)) id (revokeAccessGrant now gid t s)"
| "memory_call hash (DoCreateSession x) s = map_prod (answer (\<lambda>_. AnsUnit)) id (createLogicalSession x s)"
| "memory_call hash (DoGetSession sid b) s = (answer (AnsSession \<circ> session_view) (getLogicalSession sid b s), s)"
| "memory_call hash (DoSaveSession x v) s = map_prod (\<lambda>b. Inr (AnsBool b)) id (saveLogicalSession x v s)"
| "memory_call hash (DoCloseSession now t sid) s = map_prod (answer (\<lambda>_. AnsUnit)) id (closeLogicalSession now t sid s)"
| "memory_call hash (DoShouldTerminate rid gid sid) s = (Inr (AnsBool (shouldTerminateActive rid gid sid s)), s)"

fun dynamo_call :: "'db Dynamo \<Rightarrow> token_hash \<Rightarrow> store_call \<Rightarrow> 'db \<Rightarrow> (bool + store_answer) \<times> 'db" where
  "dynamo_call c hash (DoCreateRoute now rid p) db = map_prod (answer AnsRoute) id (run_alone c (dy_create now rid p) db)"
| "dynamo_call c hash (DoGetRoute rid b) db = map_prod (answer AnsRoute) id (run_alone c (dy_get_route rid b) db)"
| "dynamo_call c hash (DoUpdateRoute now rid p) db = map_prod (answer AnsRoute) id (run_alone c (dy_update now rid p) db)"
| "dynamo_call c hash (DoRevokeRoute now rid t) db = map_prod (answer (\<lambda>_. AnsUnit)) id (run_alone c (dy_revoke now rid t) db)"
| "dynamo_call c hash (DoCreateGrant salt now gid rid owner cid token mode sid jid) db =
     map_prod (answer (AnsGrant \<circ> grant_view)) id (run_alone c (dy_createAccessGrant hash salt now gid rid owner cid token mode sid jid) db)"
| "dynamo_call c hash (DoGetGrant gid b) db = map_prod (answer (AnsGrant \<circ> grant_view)) id (run_alone c (dy_getAccessGrant gid b) db)"
| "dynamo_call c hash (DoAddCredential salt now gid cid token mode sid) db =
     map_prod (answer (AnsGrant \<circ> grant_view)) id (run_alone c (dy_addAccessGrantCredential hash salt now gid cid token mode sid) db)"
| "dynamo_call c hash (DoAuthenticate now username token) db =
     map_prod (answer login_view) id (run_alone c (dy_authenticateAccessGrant hash now username token) db)"
| "dynamo_call c hash (DoRotate salt now gid previous cid token b) db =
     map_prod (answer (AnsGrant \<circ> grant_view)) id (run_alone c (dy_rotateAccessGrantCredential hash salt now gid previous cid token b) db)"
| "dynamo_call c hash (DoRevokeCredential now gid cid) db =
     map_prod (answer (\<lambda>_. AnsUnit)) id (run_alone c (dy_revokeAccessGrantCredential now gid cid) db)"
| "dynamo_call c hash (DoRevokeGrant now gid t) db = map_prod (answer (\<lambda>_. AnsUnit)) id (run_alone c (dy_revokeAccessGrant now gid t) db)"
| "dynamo_call c hash (DoCreateSession x) db = map_prod (answer (\<lambda>_. AnsUnit)) id (run_alone c (dy_createLogicalSession x) db)"
| "dynamo_call c hash (DoGetSession sid b) db = map_prod (answer (AnsSession \<circ> session_view)) id (run_alone c (dy_getLogicalSession sid b) db)"
| "dynamo_call c hash (DoSaveSession x v) db = map_prod (answer AnsBool) id (run_alone c (dy_saveLogicalSession x v) db)"
| "dynamo_call c hash (DoCloseSession now t sid) db = map_prod (answer (\<lambda>_. AnsUnit)) id (run_alone c (dy_closeLogicalSession now t sid) db)"
| "dynamo_call c hash (DoShouldTerminate rid gid sid) db = map_prod (answer AnsBool) id (run_alone c (dy_shouldTerminateActive rid gid sid) db)"

subsection \<open>The relation\<close>

definition mirrored_route :: "item option \<Rightarrow> StoredRoute option \<Rightarrow> bool" where
  "mirrored_route v r \<longleftrightarrow>
     (case r of
        None \<Rightarrow> v = None
      | Some r \<Rightarrow> \<exists>i. v = Some (IRoute i) \<and> ri_route i = r \<and> ri_status i = route_status r
          \<and> (route_status r = RouteReady \<longrightarrow> \<not> route_terminateActive r))"

definition mirrored_grant :: "item option \<Rightarrow> StoredAccessGrant option \<Rightarrow> bool" where
  "mirrored_grant v g \<longleftrightarrow>
     (case g of
        None \<Rightarrow> v = None
      | Some g \<Rightarrow> \<exists>i. v = Some (IGrant i) \<and> grant_view (gi_grant i) = grant_view g \<and> gi_status i = grant_status g
          \<and> (grant_status g = GrantReady \<longrightarrow> \<not> grant_terminateActive g))"

definition unclosed :: "StoredLogicalSession \<Rightarrow> bool" where
  "unclosed x \<longleftrightarrow> (session_status x = SessionOpen \<longrightarrow> \<not> session_terminateActive x \<and> closedAt x = None)"

definition mirrored_session :: "item option \<Rightarrow> StoredLogicalSession option \<Rightarrow> bool" where
  "mirrored_session v x \<longleftrightarrow>
     (case x of
        None \<Rightarrow> v = None
      | Some x \<Rightarrow> \<exists>y. v = Some (logicalSessionItem y) \<and> session_view y = session_view x \<and> unclosed x)"

definition offers :: "StoredAccessGrant \<Rightarrow> string \<Rightarrow> bool" where
  "offers g u \<longleftrightarrow> u \<in> (credentialUsername \<circ> cred_id) ` set (credentials g)"

definition mirrored_lookup :: "item option \<Rightarrow> (string, StoredAccessGrant) js_map \<Rightarrow> string \<Rightarrow> bool" where
  "mirrored_lookup v grants u \<longleftrightarrow>
     (case v of
        None \<Rightarrow> \<forall>k g. js_get grants k = Some g \<longrightarrow> \<not> offers g u
      | Some v \<Rightarrow> \<exists>l. v = ILookup l \<and> u = credentialUsername (cl_credentialId l)
          \<and> (\<forall>k g. js_get grants k = Some g \<longrightarrow> (offers g u \<longleftrightarrow> k = cl_grantId l)) \<and> js_has grants (cl_grantId l))"

text \<open>Sessions live under their own keys only, so that a query by grant finds what belongs to it.\<close>

definition mirrors :: "'db Dynamo \<Rightarrow> 'db \<Rightarrow> StoreState \<Rightarrow> bool" where
  "mirrors c db s \<longleftrightarrow>
     (\<forall>k. mirrored_route (dy_get c db (routeKey k)) (js_get (st_routes s) k))
     \<and> (\<forall>k. mirrored_grant (dy_get c db (accessGrantKey k)) (js_get (st_grants s) k))
     \<and> (\<forall>k. mirrored_session (dy_get c db (logicalSessionKey k)) (js_get (st_sessions s) k))
     \<and> (\<forall>u. mirrored_lookup (dy_get c db (credentialLookupKey u)) (st_grants s) u)
     \<and> (\<forall>k i. dy_get c db k = Some (ISession i) \<longrightarrow> k = logicalSessionKey (session_id (si_session i)))"

text \<open>The calls on which the two stores agree.\<close>

definition known_credential :: "StoreState \<Rightarrow> string \<Rightarrow> bool" where
  "known_credential s cid \<longleftrightarrow> list_ex (\<lambda>g. offers g (credentialUsername cid)) (js_values (st_grants s))"

fun agreed :: "store_call \<Rightarrow> StoreState \<Rightarrow> bool" where
  "agreed (DoUpdateRoute now rid p) s =
     (case js_get (st_routes s) rid of
        None \<Rightarrow> True
      | Some r \<Rightarrow> (geography p = None \<longrightarrow> geography r = None) \<and> (rp_carrier p = None \<longrightarrow> rp_carrier r = None)
                  \<and> (providerOverride p = None \<longrightarrow> providerOverride r = None))"
| "agreed (DoCreateGrant salt now gid rid owner cid token mode sid jid) s = (\<not> known_credential s cid)"
| "agreed (DoAddCredential salt now gid cid token mode sid) s = (\<not> known_credential s cid)"
| "agreed (DoRotate salt now gid previous cid token b) s =
     (\<not> known_credential s cid
      \<and> (case js_get (st_grants s) gid of
           None \<Rightarrow> True
         | Some g \<Rightarrow> grant_status g = GrantReady \<longrightarrow> list_all (\<lambda>c. cred_id c = previous \<longrightarrow> credentialUsable c now) (credentials g)))"
| "agreed (DoRevokeGrant now gid t) s =
     ((case js_get (st_grants s) gid of None \<Rightarrow> True | Some g \<Rightarrow> grant_terminateActive g \<longrightarrow> t)
      \<and> list_all (\<lambda>x. session_grantId x = gid \<and> session_status x = SessionClosed \<and> t \<longrightarrow> session_terminateActive x) (js_values (st_sessions s)))"
| "agreed (DoCreateSession x) s = unclosed x"
| "agreed (DoSaveSession x v) s = (unclosed x)"
| "agreed (DoCloseSession now t sid) s =
     (case js_get (st_sessions s) sid of None \<Rightarrow> True | Some x \<Rightarrow> session_status x = SessionClosed \<and> t \<longrightarrow> session_terminateActive x)"
| "agreed (DoShouldTerminate rid gid sid) s =
     (js_has (st_routes s) rid \<and> (case gid of None \<Rightarrow> True | Some g \<Rightarrow> js_has (st_grants s) g))"
| "agreed _ s = True"

text \<open>What a call must keep: the same answer, and stores that agree again.\<close>

definition simulates :: "'db Dynamo \<Rightarrow> token_hash \<Rightarrow> store_call \<Rightarrow> 'db \<Rightarrow> StoreState \<Rightarrow> bool" where
  "simulates c hash call db s \<longleftrightarrow>
     fst (dynamo_call c hash call db) = fst (memory_call hash call s)
     \<and> mirrors c (snd (dynamo_call c hash call db)) (snd (memory_call hash call s))"

subsection \<open>Writing\<close>

definition wrote :: "'db Dynamo \<Rightarrow> item_write list \<Rightarrow> 'db \<Rightarrow> 'db" where
  "wrote c ws db = snd (dy_write c ws db)"

lemma wrote:
  assumes "dynamo_ok c" "distinct (map w_key ws)"
  shows "fst (dy_write c ws db) = list_all (\<lambda>w. w_condition w (dy_get c db (w_key w))) ws"
    "dy_get c (wrote c ws db) = (if list_all (\<lambda>w. w_condition w (dy_get c db (w_key w))) ws then applied ws (dy_get c db) else dy_get c db)"
proof -
  obtain b db' where w: "dy_write c ws db = (b, db')" by (meson surj_pair)
  from assms(1) have "\<forall>ws db. distinct (map w_key ws) \<longrightarrow>
      (case dy_write c ws db of (b, db') \<Rightarrow> b = list_all (\<lambda>w. w_condition w (dy_get c db (w_key w))) ws
         \<and> dy_get c db' = (if b then applied ws (dy_get c db) else dy_get c db))"
    unfolding dynamo_ok_def by (rule conjunct1)
  from spec [OF spec [OF this, of ws], of db] assms(2)
  have "b = list_all (\<lambda>w. w_condition w (dy_get c db (w_key w))) ws
      \<and> dy_get c db' = (if b then applied ws (dy_get c db) else dy_get c db)"
    by (simp add: w)
  then show "fst (dy_write c ws db) = list_all (\<lambda>w. w_condition w (dy_get c db (w_key w))) ws"
    "dy_get c (wrote c ws db) = (if list_all (\<lambda>w. w_condition w (dy_get c db (w_key w))) ws then applied ws (dy_get c db) else dy_get c db)"
    by (simp_all add: wrote_def w)
qed

lemma wrote_one:
  assumes "dynamo_ok c"
  shows "fst (dy_write c [Write k P f] db) = P (dy_get c db k)"
    "P (dy_get c db k) \<Longrightarrow> dy_get c (wrote c [Write k P f] db) = (dy_get c db)(k := f (dy_get c db k))"
    "\<not> P (dy_get c db k) \<Longrightarrow> dy_get c (wrote c [Write k P f] db) = dy_get c db"
  using wrote [OF assms, where ws = "[Write k P f]" and db = db] by (simp_all add: applied_def fun_eq_iff)

lemma wrote_two:
  assumes "dynamo_ok c" "k \<noteq> k'"
  shows "fst (dy_write c [Write k P f, Write k' P' f'] db) = (P (dy_get c db k) \<and> P' (dy_get c db k'))"
    "P (dy_get c db k) \<and> P' (dy_get c db k')
     \<Longrightarrow> dy_get c (wrote c [Write k P f, Write k' P' f'] db) = (dy_get c db)(k := f (dy_get c db k), k' := f' (dy_get c db k'))"
    "\<not> (P (dy_get c db k) \<and> P' (dy_get c db k')) \<Longrightarrow> dy_get c (wrote c [Write k P f, Write k' P' f'] db) = dy_get c db"
  using wrote [OF assms(1), where ws = "[Write k P f, Write k' P' f']" and db = db] assms(2) by (auto simp: applied_def fun_eq_iff)

lemma run_commit_or [simp]:
  "run_alone c (commit_or e ws) db = (if fst (dy_write c ws db) then Inr () else Inl e, wrote c ws db)"
  by (simp add: commit_or_def wrote_def split: prod.split)

definition bumped :: "'db Dynamo \<Rightarrow> 'db \<Rightarrow> 'db" where
  "bumped c db = snd (run_alone c dy_bumpAuthorizationEpoch db)"

lemma run_bump: "dynamo_ok c \<Longrightarrow> run_alone c dy_bumpAuthorizationEpoch db = (Inr (), bumped c db)"
  by (simp add: bumped_def dy_bumpAuthorizationEpoch_def wrote_one)

lemma bumped_get: "dynamo_ok c \<Longrightarrow> \<exists>n. dy_get c (bumped c db) = (dy_get c db)(epochKey := Some (IEpoch n))"
  by (auto simp: bumped_def dy_bumpAuthorizationEpoch_def wrote_one)

lemma mirrors_same: "mirrors c db s \<Longrightarrow> dy_get c db' = dy_get c db \<Longrightarrow> mirrors c db' s"
  by (simp add: mirrors_def)

lemma mirrors_bumped:
  assumes "dynamo_ok c" "mirrors c db s"
  shows "mirrors c (bumped c db) s"
proof -
  obtain n where "dy_get c (bumped c db) = (dy_get c db)(epochKey := Some (IEpoch n))" using bumped_get [OF assms(1)] by blast
  then show ?thesis using assms(2) by (auto simp: mirrors_def)
qed

lemma mirrors_epoch [simp]: "mirrors c db (bumpAuthorizationEpoch s) = mirrors c db s"
  by (simp add: mirrors_def)

lemma mirrors_set_route:
  assumes "mirrors c db s" "dy_get c db' = (dy_get c db)(routeKey rid := Some (IRoute i))" "mirrored_route (Some (IRoute i)) (Some r)"
  shows "mirrors c db' (s\<lparr>st_routes := js_set (st_routes s) rid r\<rparr>)"
  using assms by (auto simp: mirrors_def)

lemma mirrors_set_session:
  assumes "mirrors c db s" "dy_get c db' = (dy_get c db)(logicalSessionKey sid := Some (logicalSessionItem y))"
    and "session_id y = sid" "session_view y = session_view x" "unclosed x"
  shows "mirrors c db' (s\<lparr>st_sessions := js_set (st_sessions s) sid x\<rparr>)"
  using assms by (auto simp: mirrors_def mirrored_session_def logicalSessionItem_def)

lemma mirrored_lookup_cong:
  assumes "\<And>k. (\<exists>g. js_get grants k = Some g \<and> offers g u) = (\<exists>g. js_get grants' k = Some g \<and> offers g u)"
    and "\<And>k. js_has grants k = js_has grants' k"
  shows "mirrored_lookup v grants u = mirrored_lookup v grants' u"
proof -
  have m: "mirrored_lookup v m u = (case v of
      None \<Rightarrow> \<forall>k. \<not> (\<exists>g. js_get m k = Some g \<and> offers g u)
    | Some v \<Rightarrow> \<exists>l. v = ILookup l \<and> u = credentialUsername (cl_credentialId l)
        \<and> (\<forall>k. js_has m k \<longrightarrow> (\<exists>g. js_get m k = Some g \<and> offers g u) = (k = cl_grantId l)) \<and> js_has m (cl_grantId l))" for m
    unfolding mirrored_lookup_def js_has_def by (cases v) (simp_all, metis option.sel option.distinct(1) option.collapse)
  show ?thesis unfolding m assms ..
qed

lemma mirrors_set_grant:
  assumes "mirrors c db s" "dy_get c db' = (dy_get c db)(accessGrantKey gid := Some (IGrant i))"
    and "mirrored_grant (Some (IGrant i)) (Some g')" "js_get (st_grants s) gid = Some g" "\<And>u. offers g' u = offers g u"
  shows "mirrors c db' (s\<lparr>st_grants := js_set (st_grants s) gid g'\<rparr>)"
proof -
  have "mirrored_lookup v (js_set (st_grants s) gid g') u = mirrored_lookup v (st_grants s) u" for v u
    by (rule mirrored_lookup_cong) (simp_all add: assms(4,5) js_has_def)
  then show ?thesis using assms(1-3) by (auto simp: mirrors_def)
qed

lemma known_credential_iff:
  assumes "js_wf (st_grants s)"
  shows "known_credential s cid \<longleftrightarrow> (\<exists>k g. js_get (st_grants s) k = Some g \<and> offers g (credentialUsername cid))"
  unfolding known_credential_def list_ex_iff using js_values_get [OF assms] by blast

lemma mirrors_add_credential:
  assumes "mirrors c db s" "js_wf (st_grants s)" "\<not> known_credential s cid"
    and "dy_get c db' = (dy_get c db)(accessGrantKey gid := Some (IGrant i), credentialLookupKey (credentialUsername cid) := Some (ILookup l))"
    and "mirrored_grant (Some (IGrant i)) (Some g')" "cl_grantId l = gid" "cl_credentialId l = cid"
    and "\<And>u. offers g' u \<longleftrightarrow> u = credentialUsername cid \<or> (\<exists>g. js_get (st_grants s) gid = Some g \<and> offers g u)"
  shows "mirrors c db' (s\<lparr>st_grants := js_set (st_grants s) gid g'\<rparr>)"
proof -
  have fresh: "js_get (st_grants s) k = Some g \<Longrightarrow> \<not> offers g (credentialUsername cid)" for k g
    using assms(3) known_credential_iff [OF assms(2)] by blast
  have "mirrored_lookup (dy_get c db' (credentialLookupKey u)) (js_set (st_grants s) gid g') u" for u
  proof (cases "u = credentialUsername cid")
    case True
    then show ?thesis using assms(4,6-8) fresh by (auto simp: mirrored_lookup_def js_has_def)
  next
    case False
    then have same: "dy_get c db' (credentialLookupKey u) = dy_get c db (credentialLookupKey u)" using assms(4) by simp
    have old: "mirrored_lookup (dy_get c db (credentialLookupKey u)) (st_grants s) u" using assms(1) by (simp add: mirrors_def)
    have g': "offers g' u \<longleftrightarrow> (\<exists>g. js_get (st_grants s) gid = Some g \<and> offers g u)" using assms(8) False by simp
    show ?thesis
      unfolding same using old g' by (fastforce simp: mirrored_lookup_def js_has_def split: option.splits)
  qed
  then show ?thesis using assms(1,4,5) by (auto simp: mirrors_def)
qed

subsection \<open>Routes\<close>

lemma mirrors_routeD:
  "mirrors c db s \<Longrightarrow> js_get (st_routes s) rid = None \<Longrightarrow> dy_get c db (routeKey rid) = None"
  "mirrors c db s \<Longrightarrow> js_get (st_routes s) rid = Some r \<Longrightarrow>
   \<exists>i. dy_get c db (routeKey rid) = Some (IRoute i) \<and> ri_route i = r \<and> ri_status i = route_status r
     \<and> (route_status r = RouteReady \<longrightarrow> \<not> route_terminateActive r)"
proof -
  assume m: "mirrors c db s"
  then have "mirrored_route (dy_get c db (routeKey rid)) (js_get (st_routes s) rid)" unfolding mirrors_def by blast
  then show "js_get (st_routes s) rid = None \<Longrightarrow> dy_get c db (routeKey rid) = None"
    "js_get (st_routes s) rid = Some r \<Longrightarrow>
     \<exists>i. dy_get c db (routeKey rid) = Some (IRoute i) \<and> ri_route i = r \<and> ri_status i = route_status r
       \<and> (route_status r = RouteReady \<longrightarrow> \<not> route_terminateActive r)"
    by (simp_all add: mirrored_route_def)
qed

lemma run_get_route:
  assumes "mirrors c db s"
  shows "run_alone c (dy_get_route rid b) db = (route_get rid b s, db)"
proof (cases "js_get (st_routes s) rid")
  case None
  then show ?thesis using mirrors_routeD(1) [OF assms None] by (simp add: dy_get_route_def route_get_def not_found_def)
next
  case (Some r)
  then show ?thesis using mirrors_routeD(2) [OF assms Some] by (auto simp: dy_get_route_def route_get_def not_found_def)
qed

lemma mirrored_route_ready:
  "route_status r = RouteReady \<Longrightarrow> \<not> route_terminateActive r \<Longrightarrow> \<exists>i. routeItem r = IRoute i \<and> mirrored_route (Some (IRoute i)) (Some r)"
  by (simp add: routeItem_def mirrored_route_def)

lemma simulates_create_route:
  assumes "dynamo_ok c" "mirrors c db s"
  shows "simulates c hash (DoCreateRoute now rid p) db s"
proof -
  define r where "r = RouteProfile.extend p (StoredRoute.fields rid RouteReady False now now)"
  define w where "w = [put (routeKey rid) (routeItem r) absent]"
  have ready: "route_status r = RouteReady" "\<not> route_terminateActive r" by (simp_all add: r_def StoredRoute.defs RouteProfile.defs)
  have has: "absent (dy_get c db (routeKey rid)) \<longleftrightarrow> \<not> js_has (st_routes s) rid"
    using mirrors_routeD [OF assms(2)] by (cases "js_get (st_routes s) rid") (fastforce simp: absent_def js_has_def)+
  note one = wrote_one [OF assms(1), where k = "routeKey rid" and P = absent and f = "\<lambda>_. Some (routeItem r)" and db = db]
  have run: "run_alone c (dy_create now rid p) db =
      (if js_has (st_routes s) rid then (Inl conditional_failed, wrote c w db) else (Inr r, bumped c (wrote c w db)))"
    by (simp add: dy_create_def run_alone_bind run_bump [OF assms(1)] Let_def r_def [symmetric] w_def [symmetric])
       (simp add: w_def put_def one(1) has)
  show ?thesis
  proof (cases "js_has (st_routes s) rid")
    case True
    then have "mirrors c (wrote c w db) s"
      using one(3) has by (intro mirrors_same [OF assms(2)]) (simp add: w_def put_def)
    with True show ?thesis
      by (simp add: simulates_def run route_create_def answer_def conditional_failed_def throw_error_def)
  next
    case False
    obtain i where i: "routeItem r = IRoute i" "mirrored_route (Some (IRoute i)) (Some r)" using mirrored_route_ready [OF ready] by blast
    have "mirrors c (wrote c w db) (s\<lparr>st_routes := js_set (st_routes s) rid r\<rparr>)"
      using one(2) has False by (intro mirrors_set_route [OF assms(2) _ i(2)]) (simp add: w_def put_def i(1))
    moreover have "route_create now rid p s = (Inr r, bumpAuthorizationEpoch (s\<lparr>st_routes := js_set (st_routes s) rid r\<rparr>))"
      using False by (simp add: route_create_def r_def Let_def)
    ultimately show ?thesis
      unfolding simulates_def dynamo_call.simps memory_call.simps run using False mirrors_bumped [OF assms(1)] by simp
  qed
qed

lemma simulates_get_route:
  "mirrors c db s \<Longrightarrow> simulates c hash (DoGetRoute rid b) db s"
  by (simp add: simulates_def run_get_route)

lemma simulates_update_route:
  assumes "dynamo_ok c" "mirrors c db s" "agreed (DoUpdateRoute now rid p) s"
  shows "simulates c hash (DoUpdateRoute now rid p) db s"
proof (cases "route_get rid False s")
  case (Inl e)
  then show ?thesis
    by (simp add: simulates_def dy_update_def route_update_def run_alone_bind run_get_route [OF assms(2)] assms(2))
next
  case (Inr previous)
  define r where "r = (replace_profile previous p)\<lparr>route_status := RouteReady, route_updatedAt := now\<rparr>"
  define w where "w = [put (routeKey rid) (routeItem r) present]"
  have prev: "js_get (st_routes s) rid = Some previous" "route_status previous = RouteReady"
    using Inr by (auto simp: route_get_def split: option.splits if_splits) (metis RouteStatus.exhaust)
  obtain v where v: "dy_get c db (routeKey rid) = Some v" "\<not> route_terminateActive previous"
    using mirrors_routeD(2) [OF assms(2) prev(1)] prev(2) by blast
  have same: "spread_profile previous p = replace_profile previous p"
    using assms(3) prev(1) by (simp add: spread_profile_def replace_profile_def split: option.split)
  note one = wrote_one [OF assms(1), where k = "routeKey rid" and P = present and f = "\<lambda>_. Some (routeItem r)" and db = db]
  have run: "run_alone c (dy_update now rid p) db = (Inr r, bumped c (wrote c w db))"
    by (simp add: dy_update_def run_alone_bind run_bump [OF assms(1)] run_get_route [OF assms(2)] Inr Let_def r_def [symmetric] w_def [symmetric])
       (simp add: w_def put_def one(1) v(1) present_def)
  obtain i where i: "routeItem r = IRoute i" "mirrored_route (Some (IRoute i)) (Some r)"
    using mirrored_route_ready [of r] v(2) by (auto simp: r_def replace_profile_def)
  have "mirrors c (wrote c w db) (s\<lparr>st_routes := js_set (st_routes s) rid r\<rparr>)"
    using one(2) v(1) by (intro mirrors_set_route [OF assms(2) _ i(2)]) (simp add: w_def put_def i(1) present_def)
  moreover have "route_update now rid p s = (Inr r, bumpAuthorizationEpoch (s\<lparr>st_routes := js_set (st_routes s) rid r\<rparr>))"
    by (simp add: route_update_def Inr r_def same Let_def)
  ultimately show ?thesis
    unfolding simulates_def dynamo_call.simps memory_call.simps run using mirrors_bumped [OF assms(1)] by simp
qed

lemma simulates_revoke_route:
  assumes "dynamo_ok c" "mirrors c db s" "agreed (DoRevokeRoute now rid t) s"
  shows "simulates c hash (DoRevokeRoute now rid t) db s"
proof -
  define P where "P = (\<lambda>v. present v \<and> (t \<or> (case v of Some (IRoute i) \<Rightarrow> ri_status i \<noteq> RouteRevoked | _ \<Rightarrow> True)))"
  define w where "w = [Write (routeKey rid) P (revoke_route_item now t)]"
  note one = wrote_one [OF assms(1), where k = "routeKey rid" and P = P and f = "revoke_route_item now t" and db = db]
  have run: "run_alone c (dy_revoke now rid t) db =
      (if P (dy_get c db (routeKey rid)) then (Inr (), bumped c (wrote c w db)) else (Inl not_found, wrote c w db))"
    by (simp add: dy_revoke_def run_alone_bind run_bump [OF assms(1)] P_def [symmetric] w_def [symmetric])
       (simp add: w_def one(1) conditionalNotFound_def conditional_failed_def throw_error_def not_found_def)
  have refused: ?thesis if "\<not> P (dy_get c db (routeKey rid))" "route_revoke now rid t s = (Inl (throw notFoundError), s)"
  proof -
    have "mirrors c (wrote c w db) s" using one(3) that(1) by (intro mirrors_same [OF assms(2)]) (simp add: w_def)
    with that show ?thesis by (simp add: simulates_def run not_found_def)
  qed
  show ?thesis
  proof (cases "js_get (st_routes s) rid")
    case None
    then show ?thesis using mirrors_routeD(1) [OF assms(2)] by (intro refused) (simp_all add: P_def present_def route_revoke_def)
  next
    case (Some r)
    then obtain i where i: "dy_get c db (routeKey rid) = Some (IRoute i)" "ri_route i = r" "ri_status i = route_status r"
      using mirrors_routeD(2) [OF assms(2) Some] by blast
    show ?thesis
    proof (cases "route_status r = RouteRevoked \<and> \<not> t")
      case True
      then show ?thesis using i Some by (intro refused) (simp_all add: P_def present_def route_revoke_def)
    next
      case False
      then have P: "P (dy_get c db (routeKey rid))" using i by (auto simp: P_def present_def)
      define r' where "r' = r\<lparr>route_status := RouteRevoked, route_terminateActive := (t \<or> route_terminateActive r), route_updatedAt := now\<rparr>"
      have t: "(t \<or> route_terminateActive r) = t"
        using False Some mirrors_routeD(2) [OF assms(2) Some] by (cases "route_status r") auto
      obtain i' where i': "revoke_route_item now t (Some (IRoute i)) = Some (IRoute i')" "mirrored_route (Some (IRoute i')) (Some r')"
        by (simp add: revoke_route_item_def mirrored_route_def r'_def i(2) t)
      have "mirrors c (wrote c w db) (s\<lparr>st_routes := js_set (st_routes s) rid r'\<rparr>)"
        using one(2) P by (intro mirrors_set_route [OF assms(2) _ i'(2)]) (simp add: w_def i'(1) i(1))
      moreover have "route_revoke now rid t s = (Inr (), bumpAuthorizationEpoch (s\<lparr>st_routes := js_set (st_routes s) rid r'\<rparr>))"
        using False Some by (simp add: route_revoke_def r'_def)
      ultimately show ?thesis
        unfolding simulates_def dynamo_call.simps memory_call.simps run using P mirrors_bumped [OF assms(1)] by simp
    qed
  qed
qed

subsection \<open>Grants\<close>

definition cred_view :: "StoredAccessGrantCredential \<Rightarrow> StoredAccessGrantCredential" where
  "cred_view c = c\<lparr>cred_lastUsedAt := None\<rparr>"

lemma cred_view_simps [simp]:
  "cred_id (cred_view c) = cred_id c" "cred_status (cred_view c) = cred_status c" "tokenHash (cred_view c) = tokenHash c"
  "tokenSalt (cred_view c) = tokenSalt c" "credentialUsable (cred_view c) now = credentialUsable c now"
  "cred_sessionMode (cred_view c) = cred_sessionMode c" "cred_sessionId (cred_view c) = cred_sessionId c"
  "cred_view (rotate_credential now p b c) = rotate_credential now p b (cred_view c)"
  "cred_view (createStoredCredential hash salt cid token mode now sid) = createStoredCredential hash salt cid token mode now sid"
  by (simp_all add: cred_view_def credentialUsable_def rotate_credential_def createStoredCredential_def)

lemma grant_view_alt: "grant_view g = g\<lparr>grant_updatedAt := 0, credentials := map cred_view (credentials g)\<rparr>"
  by (simp add: grant_view_def cred_view_def)

lemma grant_view_fields:
  assumes "grant_view g = grant_view h"
  shows "grant_id g = grant_id h" "grant_routeId g = grant_routeId h" "grant_status g = grant_status h"
    "grant_terminateActive g = grant_terminateActive h" "map cred_view (credentials g) = map cred_view (credentials h)"
proof -
  have "f (grant_view g) = f (grant_view h)" for f :: "StoredAccessGrant \<Rightarrow> 'x" using assms by simp
  from this [of grant_id] this [of grant_routeId] this [of grant_status] this [of grant_terminateActive] this [of credentials]
  show "grant_id g = grant_id h" "grant_routeId g = grant_routeId h" "grant_status g = grant_status h"
    "grant_terminateActive g = grant_terminateActive h" "map cred_view (credentials g) = map cred_view (credentials h)"
    by (simp_all add: grant_view_alt)
qed

lemma grant_view_update:
  assumes "grant_view g = grant_view h" "map cred_view cs = map cred_view ds"
  shows "grant_view (g\<lparr>credentials := cs, grant_updatedAt := t\<rparr>) = grant_view (h\<lparr>credentials := ds, grant_updatedAt := t'\<rparr>)"
proof -
  have "grant_view (g\<lparr>credentials := cs, grant_updatedAt := t\<rparr>) = (grant_view g)\<lparr>credentials := map cred_view cs\<rparr>" for g cs t
    by (simp add: grant_view_alt)
  then show ?thesis using assms by simp
qed

lemma offers_view: "grant_view g = grant_view h \<Longrightarrow> offers g u = offers h u"
proof -
  assume v: "grant_view g = grant_view h"
  have "offers g u \<longleftrightarrow> u \<in> (credentialUsername \<circ> cred_id) ` set (map cred_view (credentials g))" for g
    by (auto simp: offers_def image_image)
  then show ?thesis by (simp only: grant_view_fields(5) [OF v])
qed

lemma find_view:
  assumes "map cred_view cs = map cred_view ds" "\<And>c. P (cred_view c) = P c"
  shows "map_option cred_view (List.find P cs) = map_option cred_view (List.find P ds)"
proof -
  have "map_option cred_view (List.find P xs) = List.find P (map cred_view xs)" for xs
    by (induction xs) (simp_all add: assms(2))
  then show ?thesis using assms(1) by simp
qed

lemma update_first_view:
  assumes "map cred_view cs = map cred_view ds" "\<And>c. P (cred_view c) = P c" "\<And>c. cred_view (f c) = f (cred_view c)"
  shows "map cred_view (update_first P f cs) = map cred_view (update_first P f ds)"
proof -
  have "map cred_view (update_first P f xs) = update_first P f (map cred_view xs)" for xs
    by (induction xs) (simp_all add: assms(2,3))
  then show ?thesis using assms(1) by simp
qed

lemma map_view:
  assumes "map cred_view cs = map cred_view ds" "\<And>c. cred_view (f c) = f (cred_view c)"
  shows "map cred_view (map f cs) = map cred_view (map f ds)"
proof -
  have "map cred_view (map f xs) = map f (map cred_view xs)" for xs by (simp add: assms(2))
  then show ?thesis using assms(1) by metis
qed

lemma mirrors_grantD:
  "mirrors c db s \<Longrightarrow> js_get (st_grants s) gid = None \<Longrightarrow> dy_get c db (accessGrantKey gid) = None"
  "mirrors c db s \<Longrightarrow> js_get (st_grants s) gid = Some g \<Longrightarrow>
   \<exists>i. dy_get c db (accessGrantKey gid) = Some (IGrant i) \<and> grant_view (gi_grant i) = grant_view g \<and> gi_status i = grant_status g
     \<and> (grant_status g = GrantReady \<longrightarrow> \<not> grant_terminateActive g)"
proof -
  assume m: "mirrors c db s"
  then have "mirrored_grant (dy_get c db (accessGrantKey gid)) (js_get (st_grants s) gid)" unfolding mirrors_def by blast
  then show "js_get (st_grants s) gid = None \<Longrightarrow> dy_get c db (accessGrantKey gid) = None"
    "js_get (st_grants s) gid = Some g \<Longrightarrow>
     \<exists>i. dy_get c db (accessGrantKey gid) = Some (IGrant i) \<and> grant_view (gi_grant i) = grant_view g \<and> gi_status i = grant_status g
       \<and> (grant_status g = GrantReady \<longrightarrow> \<not> grant_terminateActive g)"
    by (simp_all add: mirrored_grant_def)
qed

text \<open>Reading a grant: both stores fail the same way, or both have it.\<close>

lemma run_get_grant:
  assumes "mirrors c db s"
  shows "getAccessGrant gid b s = Inl e \<Longrightarrow> e = not_found \<and> run_alone c (dy_getAccessGrant gid b) db = (Inl not_found, db)"
    "getAccessGrant gid b s = Inr g \<Longrightarrow>
     \<exists>i. dy_get c db (accessGrantKey gid) = Some (IGrant i) \<and> gi_status i = grant_status g \<and> grant_view (gi_grant i) = grant_view g
       \<and> run_alone c (dy_getAccessGrant gid b) db = (Inr (gi_grant i), db) \<and> js_get (st_grants s) gid = Some g
       \<and> (\<not> b \<longrightarrow> grant_status g = GrantReady) \<and> (grant_status g = GrantReady \<longrightarrow> \<not> grant_terminateActive g)"
proof -
  show "e = not_found \<and> run_alone c (dy_getAccessGrant gid b) db = (Inl not_found, db)" if e: "getAccessGrant gid b s = Inl e"
  proof (cases "js_get (st_grants s) gid")
    case None
    then show ?thesis using e mirrors_grantD(1) [OF assms None] by (simp add: getAccessGrant_def dy_getAccessGrant_def not_found_def)
  next
    case (Some h)
    obtain i where i: "dy_get c db (accessGrantKey gid) = Some (IGrant i)" "grant_view (gi_grant i) = grant_view h"
      using mirrors_grantD(2) [OF assms Some] by blast
    from e Some grant_view_fields(3) [OF i(2)] i(1) show ?thesis
      by (simp add: getAccessGrant_def dy_getAccessGrant_def not_found_def split: if_splits)
  qed
  show "\<exists>i. dy_get c db (accessGrantKey gid) = Some (IGrant i) \<and> gi_status i = grant_status g \<and> grant_view (gi_grant i) = grant_view g
       \<and> run_alone c (dy_getAccessGrant gid b) db = (Inr (gi_grant i), db) \<and> js_get (st_grants s) gid = Some g
       \<and> (\<not> b \<longrightarrow> grant_status g = GrantReady) \<and> (grant_status g = GrantReady \<longrightarrow> \<not> grant_terminateActive g)"
    if g: "getAccessGrant gid b s = Inr g"
  proof -
    have get: "js_get (st_grants s) gid = Some g" "b \<or> grant_status g \<noteq> GrantRevoked"
      using g by (simp_all add: getAccessGrant_def split: option.splits if_splits)
    obtain i where i: "dy_get c db (accessGrantKey gid) = Some (IGrant i)" "grant_view (gi_grant i) = grant_view g" "gi_status i = grant_status g"
        "grant_status g = GrantReady \<longrightarrow> \<not> grant_terminateActive g"
      using mirrors_grantD(2) [OF assms get(1)] by blast
    have "run_alone c (dy_getAccessGrant gid b) db = (Inr (gi_grant i), db)"
      using get(2) grant_view_fields(3) [OF i(2)] i(1) by (auto simp: dy_getAccessGrant_def)
    with i get show ?thesis by (cases "grant_status g") auto
  qed
qed

lemma simulates_get_grant:
  assumes "mirrors c db s"
  shows "simulates c hash (DoGetGrant gid b) db s"
proof (cases "getAccessGrant gid b s")
  case (Inl e)
  then show ?thesis using run_get_grant(1) [OF assms Inl] assms by (simp add: simulates_def answer_def)
next
  case (Inr g)
  then show ?thesis using run_get_grant(2) [OF assms Inr] assms by (auto simp: simulates_def answer_def)
qed

text \<open>A fresh credential has no lookup item, and is written together with its grant.\<close>

lemma lookup_absent:
  assumes "mirrors c db s" "js_wf (st_grants s)" "\<not> known_credential s cid"
  shows "dy_get c db (credentialLookupKey (credentialUsername cid)) = None"
proof (cases "dy_get c db (credentialLookupKey (credentialUsername cid))")
  case (Some v)
  have "mirrored_lookup (dy_get c db (credentialLookupKey (credentialUsername cid))) (st_grants s) (credentialUsername cid)"
    using assms(1) by (simp add: mirrors_def)
  then have "\<exists>k. js_has (st_grants s) k \<and> (\<forall>g. js_get (st_grants s) k = Some g \<longrightarrow> offers g (credentialUsername cid))"
    unfolding Some mirrored_lookup_def by auto
  then obtain k where "js_has (st_grants s) k" and k: "\<forall>g. js_get (st_grants s) k = Some g \<longrightarrow> offers g (credentialUsername cid)"
    by (elim exE conjE)
  then obtain g where "js_get (st_grants s) k = Some g" by (auto simp: js_has_def)
  with k assms(3) show ?thesis using known_credential_iff [OF assms(2)] by blast
qed

lemma wrote_grant_and_lookup:
  assumes "dynamo_ok c" "mirrors c db s" "js_wf (st_grants s)" "\<not> known_credential s (cred_id n)"
    and "P (dy_get c db (accessGrantKey gid))"
    and ws: "ws = [put (accessGrantKey gid) (grantItem g) P, lookup_write gid n]"
    and view: "grant_view g = grant_view h" and ready: "grant_status h = GrantReady" "\<not> grant_terminateActive h"
    and offers: "\<And>u. offers h u \<longleftrightarrow> u = credentialUsername (cred_id n) \<or> (\<exists>g. js_get (st_grants s) gid = Some g \<and> offers g u)"
  shows "fst (dy_write c ws db)" "mirrors c (wrote c ws db) (s\<lparr>st_grants := js_set (st_grants s) gid h\<rparr>)"
proof -
  define lk where "lk = credentialLookupKey (credentialUsername (cred_id n))"
  have ne: "accessGrantKey gid \<noteq> lk" by (simp add: lk_def)
  have ws': "ws = [Write (accessGrantKey gid) P (\<lambda>_. Some (grantItem g)), Write lk absent (\<lambda>_. Some (credentialLookupItem gid n))]"
    by (simp add: ws put_def lookup_write_def lk_def)
  have conds: "P (dy_get c db (accessGrantKey gid)) \<and> absent (dy_get c db lk)"
    using assms(5) lookup_absent [OF assms(2-4)] by (simp add: absent_def lk_def)
  note two = wrote_two [OF assms(1) ne, where P = P and f = "\<lambda>_. Some (grantItem g)" and P' = absent and f' = "\<lambda>_. Some (credentialLookupItem gid n)" and db = db]
  show "fst (dy_write c ws db)" using two(1) conds by (simp add: ws')
  obtain i where i: "grantItem g = IGrant i" "mirrored_grant (Some (IGrant i)) (Some h)"
    using view ready grant_view_fields(3) [OF view] by (simp add: grantItem_def mirrored_grant_def)
  obtain l where l: "credentialLookupItem gid n = ILookup l" "cl_grantId l = gid" "cl_credentialId l = cred_id n"
    by (simp add: credentialLookupItem_def)
  have "dy_get c (wrote c ws db) = (dy_get c db)(accessGrantKey gid := Some (IGrant i), lk := Some (ILookup l))"
    using two(2) [OF conds] by (simp add: ws' i(1) l(1))
  from mirrors_add_credential [OF assms(2-4) this [unfolded lk_def] i(2) l(2,3) offers]
  show "mirrors c (wrote c ws db) (s\<lparr>st_grants := js_set (st_grants s) gid h\<rparr>)" .
qed

lemma simulates_create_grant:
  assumes "dynamo_ok c" "mirrors c db s" "js_wf (st_grants s)" "agreed (DoCreateGrant salt now gid rid owner cid token mode sid jid) s"
  shows "simulates c hash (DoCreateGrant salt now gid rid owner cid token mode sid jid) db s"
proof (cases "route_get rid False s")
  case (Inl e)
  then show ?thesis
    by (simp add: simulates_def dy_createAccessGrant_def createAccessGrant_def run_alone_bind run_get_route [OF assms(2)] assms(2) answer_def)
next
  case (Inr r)
  define n where "n = createStoredCredential hash salt cid token mode now sid"
  define g where "g = \<lparr>grant_id = gid, grant_routeId = rid, principalId = owner, grant_jobId = jid, credentials = [n],
                  grant_status = GrantReady, grant_terminateActive = False, grant_createdAt = now, grant_updatedAt = now\<rparr>"
  define ws where "ws = [put (accessGrantKey gid) (grantItem g) absent, lookup_write gid n]"
  have n: "cred_id n = cid" by (simp add: n_def createStoredCredential_def)
  have fresh: "\<not> known_credential s (cred_id n)" using assms(4) by (simp add: n)
  have run: "run_alone c (dy_createAccessGrant hash salt now gid rid owner cid token mode sid jid) db =
      (if fst (dy_write c ws db) then Inr g else Inl transaction_cancelled, wrote c ws db)"
    by (simp add: dy_createAccessGrant_def run_alone_bind run_get_route [OF assms(2)] Inr Let_def n_def [symmetric] g_def [symmetric] ws_def [symmetric])
  show ?thesis
  proof (cases "js_get (st_grants s) gid")
    case None
    have ok: "absent (dy_get c db (accessGrantKey gid))" using mirrors_grantD(1) [OF assms(2) None] by (simp add: absent_def)
    have "offers g u \<longleftrightarrow> u = credentialUsername (cred_id n) \<or> (\<exists>g. js_get (st_grants s) gid = Some g \<and> offers g u)" for u
      by (simp add: None g_def offers_def)
    from wrote_grant_and_lookup [OF assms(1-3) fresh ok ws_def refl _ _ this]
    have "fst (dy_write c ws db)" "mirrors c (wrote c ws db) (s\<lparr>st_grants := js_set (st_grants s) gid g\<rparr>)"
      by (simp_all add: g_def)
    moreover have "createAccessGrant hash salt now gid rid owner cid token mode sid jid s = (Inr g, s\<lparr>st_grants := js_set (st_grants s) gid g\<rparr>)"
      by (simp add: createAccessGrant_def Inr js_has_def None Let_def g_def n_def)
    ultimately show ?thesis unfolding simulates_def dynamo_call.simps memory_call.simps run by (simp add: answer_def)
  next
    case (Some h)
    have "\<not> absent (dy_get c db (accessGrantKey gid))" using mirrors_grantD(2) [OF assms(2) Some] by (auto simp: absent_def)
    then have "\<not> fst (dy_write c ws db)" "dy_get c (wrote c ws db) = dy_get c db"
      using wrote_two(1,3) [OF assms(1) keys_apart(7), where P = absent] by (simp_all add: ws_def put_def lookup_write_def)
    with mirrors_same [OF assms(2)] Some show ?thesis
      by (simp add: simulates_def run createAccessGrant_def Inr js_has_def answer_def transaction_cancelled_def throw_error_def)
  qed
qed

text \<open>Saving a grant with one more credential, as adding and rotating do.\<close>

lemma run_save:
  assumes "dynamo_ok c" "mirrors c db s" "store_inv s" "js_get (st_grants s) gid = Some h0" "\<not> known_credential s (cred_id n)"
    and view: "grant_view g = grant_view h" and id: "grant_id g = gid" and ready: "grant_status h0 = GrantReady" "grant_status h = GrantReady"
    and "grant_terminateActive h = grant_terminateActive h0"
    and offers: "\<And>u. offers h u \<longleftrightarrow> u = credentialUsername (cred_id n) \<or> offers h0 u"
  shows "\<exists>db'. run_alone c (save_with_credential g n) db = (Inr g, db')
    \<and> mirrors c db' (bumpAuthorizationEpoch (s\<lparr>st_grants := js_set (st_grants s) gid h\<rparr>))"
proof -
  define ws where "ws = [put (accessGrantKey gid) (grantItem g) not_revoked_grant, lookup_write gid n]"
  have wf: "js_wf (st_grants s)" using assms(3) by (simp add: store_inv_def keyed_def)
  obtain i where i: "dy_get c db (accessGrantKey gid) = Some (IGrant i)" "gi_status i = grant_status h0" "\<not> grant_terminateActive h0"
    using mirrors_grantD(2) [OF assms(2,4)] ready(1) by blast
  have ok: "not_revoked_grant (dy_get c db (accessGrantKey gid))" by (simp add: not_revoked_grant_def i ready(1))
  have calm: "\<not> grant_terminateActive h" using assms(10) i(3) by simp
  have off: "offers h u \<longleftrightarrow> u = credentialUsername (cred_id n) \<or> (\<exists>g. js_get (st_grants s) gid = Some g \<and> offers g u)" for u
    by (simp add: offers assms(4))
  note wrote = wrote_grant_and_lookup [OF assms(1,2) wf assms(5) ok ws_def view ready(2) calm off]
  have "run_alone c (save_with_credential g n) db = (Inr g, bumped c (wrote c ws db))"
    by (simp add: save_with_credential_def run_alone_catch run_alone_bind run_bump [OF assms(1)] id ws_def [symmetric] wrote(1))
  moreover have "mirrors c (bumped c (wrote c ws db)) (bumpAuthorizationEpoch (s\<lparr>st_grants := js_set (st_grants s) gid h\<rparr>))"
    using mirrors_bumped [OF assms(1) wrote(2)] by simp
  ultimately show ?thesis by blast
qed

lemma new_cred_id [simp]: "cred_id (createStoredCredential hash salt cid token mode now sid) = cid"
  by (simp add: createStoredCredential_def)

lemma offers_append:
  "offers (g\<lparr>credentials := cs @ [n], grant_updatedAt := t\<rparr>) u \<longleftrightarrow>
   u = credentialUsername (cred_id n) \<or> u \<in> (credentialUsername \<circ> cred_id) ` set cs"
  by (auto simp: offers_def)

lemma simulates_add_credential:
  assumes "dynamo_ok c" "mirrors c db s" "store_inv s" "agreed (DoAddCredential salt now gid cid token mode sid) s"
  shows "simulates c hash (DoAddCredential salt now gid cid token mode sid) db s"
proof (cases "getAccessGrant gid False s")
  case (Inl e)
  with run_get_grant(1) [OF assms(2) Inl] show ?thesis
    by (simp add: simulates_def dy_addAccessGrantCredential_def addAccessGrantCredential_def run_alone_bind assms(2) answer_def)
next
  case (Inr h0)
  define n where "n = createStoredCredential hash salt cid token mode now sid"
  define h where "h = h0\<lparr>credentials := credentials h0 @ [n], grant_updatedAt := now\<rparr>"
  obtain g0 where view: "grant_view g0 = grant_view h0" and get: "run_alone c (dy_getAccessGrant gid False) db = (Inr g0, db)"
      "js_get (st_grants s) gid = Some h0" "grant_status h0 = GrantReady"
    using run_get_grant(2) [OF assms(2) Inr] by blast
  define g where "g = g0\<lparr>credentials := credentials g0 @ [n], grant_updatedAt := now\<rparr>"
  have view': "grant_view g = grant_view h"
    unfolding g_def h_def by (rule grant_view_update [OF view]) (simp add: grant_view_fields(5) [OF view])
  have id: "grant_id g = gid"
    using store_inv_grant [OF assms(3) get(2)] grant_view_fields(1) [OF view] by (simp add: g_def)
  have "\<exists>db'. run_alone c (save_with_credential g n) db = (Inr g, db')
    \<and> mirrors c db' (bumpAuthorizationEpoch (s\<lparr>st_grants := js_set (st_grants s) gid h\<rparr>))"
    by (rule run_save [OF assms(1-3) get(2) _ view' id get(3)])
       (use assms(4) in \<open>simp_all add: n_def h_def get(3) offers_append offers_def [of h0]\<close>)
  then obtain db' where db': "run_alone c (save_with_credential g n) db = (Inr g, db')"
      "mirrors c db' (bumpAuthorizationEpoch (s\<lparr>st_grants := js_set (st_grants s) gid h\<rparr>))" by blast
  have "run_alone c (dy_addAccessGrantCredential hash salt now gid cid token mode sid) db = (Inr g, db')"
    by (simp add: dy_addAccessGrantCredential_def run_alone_bind get(1) Let_def n_def [symmetric] g_def [symmetric] db'(1))
  moreover have "addAccessGrantCredential hash salt now gid cid token mode sid s =
      (Inr h, bumpAuthorizationEpoch (s\<lparr>st_grants := js_set (st_grants s) gid h\<rparr>))"
    by (simp add: addAccessGrantCredential_def Inr Let_def n_def h_def)
  ultimately show ?thesis
    unfolding simulates_def dynamo_call.simps memory_call.simps using db'(2) view' by (simp add: answer_def)
qed

text \<open>A credential found in one store is found in the other.\<close>

lemma found_view:
  assumes "grant_view g = grant_view h" "\<And>c. P (cred_view c) = P c"
  shows "List.find P (credentials h) = None \<Longrightarrow> List.find P (credentials g) = None"
    "List.find P (credentials h) = Some d \<Longrightarrow> \<exists>c. List.find P (credentials g) = Some c \<and> cred_view c = cred_view d"
  using find_view [OF grant_view_fields(5) [OF assms(1)], of P, OF assms(2)] by simp_all

lemma offers_rotated:
  "(credentialUsername \<circ> cred_id) ` set (map (rotate_credential now p b) cs) = (credentialUsername \<circ> cred_id) ` set cs"
proof -
  have "cred_id (rotate_credential now p b x) = cred_id x" for x by (simp add: rotate_credential_def)
  then show ?thesis by (simp add: image_image)
qed

lemma simulates_rotate:
  assumes "dynamo_ok c" "mirrors c db s" "store_inv s" "agreed (DoRotate salt now gid previous cid token b) s"
  shows "simulates c hash (DoRotate salt now gid previous cid token b) db s"
proof (cases "getAccessGrant gid False s")
  case (Inl e)
  then have "rotateAccessGrantCredential hash salt now gid previous cid token b s = (Inl (throw notFoundError), s)"
    by (simp add: rotateAccessGrantCredential_def getAccessGrant_def split: option.splits if_splits)
  with run_get_grant(1) [OF assms(2) Inl] show ?thesis
    by (simp add: simulates_def dy_rotateAccessGrantCredential_def run_alone_bind assms(2) answer_def not_found_def)
next
  case (Inr h0)
  obtain g0 where view: "grant_view g0 = grant_view h0" and get: "run_alone c (dy_getAccessGrant gid False) db = (Inr g0, db)"
      "js_get (st_grants s) gid = Some h0" "grant_status h0 = GrantReady"
    using run_get_grant(2) [OF assms(2) Inr] by blast
  show ?thesis
  proof (cases "List.find (\<lambda>c. cred_id c = previous) (credentials h0)")
    case None
    then have "List.find (\<lambda>c. cred_id c = previous) (credentials g0) = None"
      by (rule found_view(1) [OF view, rotated]) simp
    with None show ?thesis
      by (simp add: simulates_def dy_rotateAccessGrantCredential_def rotateAccessGrantCredential_def run_alone_bind get assms(2) answer_def not_found_def)
  next
    case (Some d)
    then obtain p where p: "List.find (\<lambda>c. cred_id c = previous) (credentials g0) = Some p" "cred_view p = cred_view d"
      using found_view(2) [OF view, of "\<lambda>c. cred_id c = previous"] by auto
    have same: "cred_sessionMode p = cred_sessionMode d" "cred_sessionId p = cred_sessionId d"
      using arg_cong [OF p(2), of cred_sessionMode] arg_cong [OF p(2), of cred_sessionId] by simp_all
    have usable: "credentialUsable d now"
      using Some assms(4) get(2,3) by (auto simp: find_Some_iff list_all_iff)
    define n where "n = createStoredCredential hash salt cid token (cred_sessionMode d) now (cred_sessionId d)"
    define h where "h = h0\<lparr>credentials := map (rotate_credential now previous b) (credentials h0) @ [n], grant_updatedAt := now\<rparr>"
    define g where "g = g0\<lparr>credentials := map (rotate_credential now previous b) (credentials g0) @ [n], grant_updatedAt := now\<rparr>"
    have "map cred_view (map (rotate_credential now previous b) (credentials g0)) = map cred_view (map (rotate_credential now previous b) (credentials h0))"
      by (rule map_view [OF grant_view_fields(5) [OF view]]) simp
    then have view': "grant_view g = grant_view h"
      unfolding g_def h_def by (intro grant_view_update [OF view]) (simp del: map_map)
    have id: "grant_id g = gid"
      using store_inv_grant [OF assms(3) get(2)] grant_view_fields(1) [OF view] by (simp add: g_def)
    have offers: "offers h u \<longleftrightarrow> u = credentialUsername (cred_id n) \<or> offers h0 u" for u
      unfolding h_def offers_append offers_rotated by (simp add: offers_def)
    have "\<exists>db'. run_alone c (save_with_credential g n) db = (Inr g, db')
      \<and> mirrors c db' (bumpAuthorizationEpoch (s\<lparr>st_grants := js_set (st_grants s) gid h\<rparr>))"
      by (rule run_save [OF assms(1-3) get(2) _ view' id get(3) _ _ offers])
         (use assms(4) in \<open>simp_all add: n_def h_def get(3)\<close>)
    then obtain db' where db': "run_alone c (save_with_credential g n) db = (Inr g, db')"
        "mirrors c db' (bumpAuthorizationEpoch (s\<lparr>st_grants := js_set (st_grants s) gid h\<rparr>))" by blast
    have "run_alone c (dy_rotateAccessGrantCredential hash salt now gid previous cid token b) db = (Inr g, db')"
      by (simp add: dy_rotateAccessGrantCredential_def run_alone_bind get(1) p(1) same Let_def n_def [symmetric] g_def [symmetric] db'(1))
    moreover have "rotateAccessGrantCredential hash salt now gid previous cid token b s =
        (Inr h, bumpAuthorizationEpoch (s\<lparr>st_grants := js_set (st_grants s) gid h\<rparr>))"
      by (simp add: rotateAccessGrantCredential_def get(2,3) Some usable Let_def n_def h_def)
    ultimately show ?thesis
      unfolding simulates_def dynamo_call.simps memory_call.simps using db'(2) view' by (simp add: answer_def)
  qed
qed

text \<open>Writing a grant that offers the same credentials.\<close>

lemma wrote_grant:
  assumes "dynamo_ok c" "mirrors c db s" "js_get (st_grants s) gid = Some h0" "P (dy_get c db (accessGrantKey gid))"
    and "f (dy_get c db (accessGrantKey gid)) = Some (IGrant i)" "mirrored_grant (Some (IGrant i)) (Some h)" "\<And>u. offers h u = offers h0 u"
  shows "fst (dy_write c [Write (accessGrantKey gid) P f] db)"
    "mirrors c (wrote c [Write (accessGrantKey gid) P f] db) (s\<lparr>st_grants := js_set (st_grants s) gid h\<rparr>)"
  using wrote_one [OF assms(1), where k = "accessGrantKey gid" and P = P and f = f and db = db] assms(4,5)
  by (simp, intro mirrors_set_grant [OF assms(2) _ assms(6,3,7)]) simp

lemma offers_update_first:
  assumes "\<And>c. cred_id (f c) = cred_id c"
  shows "offers (g\<lparr>credentials := update_first P f (credentials g), grant_updatedAt := t\<rparr>) u = offers g u"
proof -
  have "offers g u \<longleftrightarrow> u \<in> credentialUsername ` set (map cred_id (credentials g))" for g by (simp add: offers_def image_image)
  then show ?thesis by (simp add: update_first_map_eq [of cred_id f, OF assms] del: set_map)
qed

lemma simulates_revoke_credential:
  assumes "dynamo_ok c" "mirrors c db s" "store_inv s"
  shows "simulates c hash (DoRevokeCredential now gid cid) db s"
proof (cases "getAccessGrant gid True s")
  case (Inl e)
  then have "revokeAccessGrantCredential now gid cid s = (Inl (throw notFoundError), s)"
    by (simp add: revokeAccessGrantCredential_def getAccessGrant_def split: option.splits)
  with run_get_grant(1) [OF assms(2) Inl] show ?thesis
    by (simp add: simulates_def dy_revokeAccessGrantCredential_def run_alone_bind assms(2) answer_def not_found_def)
next
  case (Inr h0)
  obtain i where item: "dy_get c db (accessGrantKey gid) = Some (IGrant i)" "gi_status i = grant_status h0"
      and view: "grant_view (gi_grant i) = grant_view h0"
      and get: "run_alone c (dy_getAccessGrant gid True) db = (Inr (gi_grant i), db)" "js_get (st_grants s) gid = Some h0"
      and calm: "grant_status h0 = GrantReady \<longrightarrow> \<not> grant_terminateActive h0"
    using run_get_grant(2) [OF assms(2) Inr] by blast
  show ?thesis
  proof (cases "List.find (\<lambda>c. cred_id c = cid) (credentials h0)")
    case None
    then have "List.find (\<lambda>c. cred_id c = cid) (credentials (gi_grant i)) = None"
      by (rule found_view(1) [OF view, rotated]) simp
    with None show ?thesis
      by (simp add: simulates_def dy_revokeAccessGrantCredential_def revokeAccessGrantCredential_def run_alone_bind get assms(2) answer_def not_found_def)
  next
    case (Some d)
    then obtain p where p: "List.find (\<lambda>c. cred_id c = cid) (credentials (gi_grant i)) = Some p" "cred_view p = cred_view d"
      using found_view(2) [OF view, of "\<lambda>c. cred_id c = cid"] by auto
    have status: "cred_status p = cred_status d" using arg_cong [OF p(2), of cred_status] by simp
    define F where "F = (\<lambda>c :: StoredAccessGrantCredential. c\<lparr>cred_status := CredRevoked, revokeAt := Some now\<rparr>)"
    have F: "cred_view (F c) = F (cred_view c)" "cred_id (F c) = cred_id c" for c by (simp_all add: F_def cred_view_def)
    define h where "h = h0\<lparr>credentials := update_first (\<lambda>c. cred_id c = cid) F (credentials h0), grant_updatedAt := now\<rparr>"
    define g where "g = (gi_grant i)\<lparr>credentials := update_first (\<lambda>c. cred_id c = cid) F (credentials (gi_grant i)), grant_updatedAt := now\<rparr>"
    have view': "grant_view g = grant_view h"
      unfolding g_def h_def
      by (rule grant_view_update [OF view], rule update_first_view [OF grant_view_fields(5) [OF view]]) (simp_all add: F)
    have id: "grant_id g = gid"
      using store_inv_grant [OF assms(3) get(2)] grant_view_fields(1) [OF view] by (simp add: g_def)
    obtain j where j: "grantItem g = IGrant j" "mirrored_grant (Some (IGrant j)) (Some h)"
      using view' grant_view_fields(3) [OF view'] calm by (simp add: grantItem_def mirrored_grant_def h_def)
    have offers: "offers h u = offers h0 u" for u unfolding h_def by (rule offers_update_first) (simp add: F)
    have "present (dy_get c db (accessGrantKey gid))" by (simp add: present_def item)
    note wrote = wrote_grant [where P = present and f = "\<lambda>_. Some (grantItem g)", OF assms(1,2) get(2) this _ j(2) offers, simplified, OF j(1)]
    show ?thesis
    proof (cases "cred_status d = CredRevoked")
      case True
      with status show ?thesis
        by (simp add: simulates_def dy_revokeAccessGrantCredential_def revokeAccessGrantCredential_def run_alone_bind get p(1) Some assms(2) answer_def)
    next
      case False
      define ws where "ws = [put (accessGrantKey gid) (grantItem g) present]"
      have "run_alone c (dy_revokeAccessGrantCredential now gid cid) db = (Inr (), bumped c (wrote c ws db))"
        using False status wrote(1)
        by (simp add: dy_revokeAccessGrantCredential_def run_alone_bind get(1) p(1) run_bump [OF assms(1)] Let_def F_def [symmetric] g_def [symmetric] id
              ws_def put_def j(1))
      moreover have "mirrors c (bumped c (wrote c ws db)) (s\<lparr>st_grants := js_set (st_grants s) gid h\<rparr>)"
        using wrote(2) by (simp add: ws_def put_def j(1) mirrors_bumped [OF assms(1)])
      moreover have "revokeAccessGrantCredential now gid cid s = (Inr (), bumpAuthorizationEpoch (s\<lparr>st_grants := js_set (st_grants s) gid h\<rparr>))"
        using False by (simp add: revokeAccessGrantCredential_def get(2) Some h_def F_def)
      ultimately show ?thesis unfolding simulates_def dynamo_call.simps memory_call.simps by simp
    qed
  qed
qed

subsection \<open>Sessions\<close>

lemma session_view_fields:
  assumes "session_view y = session_view x"
  shows "session_id y = session_id x" "session_status y = session_status x" "session_grantId y = session_grantId x"
    "session_terminateActive y = session_terminateActive x" "closedAt y = closedAt x"
    "session_status x = SessionOpen \<Longrightarrow> y = x"
proof -
  have "f (session_view y) = f (session_view x)" for f :: "StoredLogicalSession \<Rightarrow> 'x" using assms by simp
  from this [of session_id] this [of session_status] this [of session_grantId] this [of session_terminateActive] this [of closedAt]
  show "session_id y = session_id x" and st: "session_status y = session_status x" and "session_grantId y = session_grantId x"
    "session_terminateActive y = session_terminateActive x" "closedAt y = closedAt x"
    by (simp_all add: session_view_def split: if_splits)
  show "y = x" if "session_status x = SessionOpen" using assms st that by (simp add: session_view_def)
qed

lemma mirrors_sessionD:
  "mirrors c db s \<Longrightarrow> js_get (st_sessions s) sid = None \<Longrightarrow> dy_get c db (logicalSessionKey sid) = None"
  "mirrors c db s \<Longrightarrow> js_get (st_sessions s) sid = Some x \<Longrightarrow>
   \<exists>y. dy_get c db (logicalSessionKey sid) = Some (logicalSessionItem y) \<and> session_view y = session_view x \<and> unclosed x"
proof -
  assume m: "mirrors c db s"
  then have "mirrored_session (dy_get c db (logicalSessionKey sid)) (js_get (st_sessions s) sid)" unfolding mirrors_def by blast
  then show "js_get (st_sessions s) sid = None \<Longrightarrow> dy_get c db (logicalSessionKey sid) = None"
    "js_get (st_sessions s) sid = Some x \<Longrightarrow>
     \<exists>y. dy_get c db (logicalSessionKey sid) = Some (logicalSessionItem y) \<and> session_view y = session_view x \<and> unclosed x"
    by (simp_all add: mirrored_session_def)
qed

lemma run_get_session:
  assumes "mirrors c db s"
  shows "getLogicalSession sid b s = Inl e \<Longrightarrow> e = not_found \<and> run_alone c (dy_getLogicalSession sid b) db = (Inl not_found, db)"
    "getLogicalSession sid b s = Inr x \<Longrightarrow>
     \<exists>y. dy_get c db (logicalSessionKey sid) = Some (logicalSessionItem y) \<and> session_view y = session_view x \<and> unclosed x
       \<and> js_get (st_sessions s) sid = Some x \<and> run_alone c (dy_getLogicalSession sid b) db = (Inr y, db)"
proof -
  show "e = not_found \<and> run_alone c (dy_getLogicalSession sid b) db = (Inl not_found, db)" if e: "getLogicalSession sid b s = Inl e"
  proof (cases "js_get (st_sessions s) sid")
    case None
    then show ?thesis using e mirrors_sessionD(1) [OF assms None] by (simp add: getLogicalSession_def dy_getLogicalSession_def not_found_def)
  next
    case (Some x)
    obtain y where y: "dy_get c db (logicalSessionKey sid) = Some (logicalSessionItem y)" "session_view y = session_view x"
      using mirrors_sessionD(2) [OF assms Some] by blast
    from e Some session_view_fields(2) [OF y(2)] y(1) show ?thesis
      by (simp add: getLogicalSession_def dy_getLogicalSession_def not_found_def logicalSessionItem_def split: if_splits)
  qed
  show "\<exists>y. dy_get c db (logicalSessionKey sid) = Some (logicalSessionItem y) \<and> session_view y = session_view x \<and> unclosed x
       \<and> js_get (st_sessions s) sid = Some x \<and> run_alone c (dy_getLogicalSession sid b) db = (Inr y, db)"
    if x: "getLogicalSession sid b s = Inr x"
  proof -
    have get: "js_get (st_sessions s) sid = Some x" "b \<or> session_status x \<noteq> SessionClosed"
      using x by (simp_all add: getLogicalSession_def split: option.splits if_splits)
    obtain y where y: "dy_get c db (logicalSessionKey sid) = Some (logicalSessionItem y)" "session_view y = session_view x" "unclosed x"
      using mirrors_sessionD(2) [OF assms get(1)] by blast
    have "run_alone c (dy_getLogicalSession sid b) db = (Inr y, db)"
      using get(2) session_view_fields(2) [OF y(2)] y(1) by (auto simp: dy_getLogicalSession_def logicalSessionItem_def)
    with y get(1) show ?thesis by blast
  qed
qed

lemma simulates_get_session:
  assumes "mirrors c db s"
  shows "simulates c hash (DoGetSession sid b) db s"
proof (cases "getLogicalSession sid b s")
  case (Inl e)
  then show ?thesis using run_get_session(1) [OF assms Inl] assms by (simp add: simulates_def answer_def)
next
  case (Inr x)
  then show ?thesis using run_get_session(2) [OF assms Inr] assms by (auto simp: simulates_def answer_def)
qed

text \<open>Writing a session.\<close>

lemma wrote_session:
  assumes "dynamo_ok c" "mirrors c db s" "session_id y = sid" "session_view y = session_view x" "unclosed x"
    and "P (dy_get c db (logicalSessionKey sid))"
  shows "fst (dy_write c [put (logicalSessionKey sid) (logicalSessionItem y) P] db)"
    "mirrors c (wrote c [put (logicalSessionKey sid) (logicalSessionItem y) P] db) (s\<lparr>st_sessions := js_set (st_sessions s) sid x\<rparr>)"
  using wrote_one [OF assms(1), where k = "logicalSessionKey sid" and P = P and f = "\<lambda>_. Some (logicalSessionItem y)" and db = db] assms(6)
  by (simp add: put_def, intro mirrors_set_session [OF assms(2) _ assms(3-5)]) (simp add: put_def)

lemma refused_session:
  assumes "dynamo_ok c" "mirrors c db s" "\<not> P (dy_get c db (logicalSessionKey sid))"
  shows "\<not> fst (dy_write c [put (logicalSessionKey sid) it P] db)" "mirrors c (wrote c [put (logicalSessionKey sid) it P] db) s"
  using wrote_one [OF assms(1), where k = "logicalSessionKey sid" and P = P and f = "\<lambda>_. Some it" and db = db] assms(3)
  by (simp add: put_def, intro mirrors_same [OF assms(2)]) (simp add: put_def)

lemma simulates_create_session:
  assumes "dynamo_ok c" "mirrors c db s" "agreed (DoCreateSession x) s"
  shows "simulates c hash (DoCreateSession x) db s"
proof (cases "js_get (st_sessions s) (session_id x)")
  case None
  have "absent (dy_get c db (logicalSessionKey (session_id x)))" using mirrors_sessionD(1) [OF assms(2) None] by (simp add: absent_def)
  from wrote_session [where P = absent and y = x and x = x, OF assms(1,2) refl refl _ this] assms(3) None show ?thesis
    by (simp add: simulates_def dy_createLogicalSession_def createLogicalSession_def js_has_def)
next
  case (Some z)
  have "\<not> absent (dy_get c db (logicalSessionKey (session_id x)))" using mirrors_sessionD(2) [OF assms(2) Some] by (auto simp: absent_def)
  from refused_session [OF assms(1,2), where P = absent, OF this] Some show ?thesis
    by (simp add: simulates_def dy_createLogicalSession_def createLogicalSession_def js_has_def answer_def conditional_failed_def throw_error_def)
qed

lemma simulates_save_session:
  assumes "dynamo_ok c" "mirrors c db s" "agreed (DoSaveSession x v) s"
  shows "simulates c hash (DoSaveSession x v) db s"
proof -
  define ws where "ws = [put (logicalSessionKey (session_id x)) (logicalSessionItem x) (rebindable v)]"
  have run: "run_alone c (dy_saveLogicalSession x v) db = (Inr (fst (dy_write c ws db)), wrote c ws db)"
    by (simp add: dy_saveLogicalSession_def ws_def wrote_def split: prod.split)
  have cond: "rebindable v (dy_get c db (logicalSessionKey (session_id x))) \<longleftrightarrow> fst (saveLogicalSession x v s)"
    (is "?cond \<longleftrightarrow> _")
  proof (cases "js_get (st_sessions s) (session_id x)")
    case None
    then show ?thesis using mirrors_sessionD(1) [OF assms(2) None] by (simp add: rebindable_def saveLogicalSession_def)
  next
    case (Some z)
    then obtain y where y: "dy_get c db (logicalSessionKey (session_id x)) = Some (logicalSessionItem y)" "session_view y = session_view z"
      using mirrors_sessionD(2) [OF assms(2) Some] by blast
    from session_view_fields(2,6) [OF y(2)] Some y(1) show ?thesis
      by (cases "session_status z") (simp_all add: rebindable_def saveLogicalSession_def logicalSessionItem_def)
  qed
  show ?thesis
  proof (cases ?cond)
    case True
    from cond True have "saveLogicalSession x v s = (True, s\<lparr>st_sessions := js_set (st_sessions s) (session_id x) x\<rparr>)"
      by (cases "js_get (st_sessions s) (session_id x)") (simp_all add: saveLogicalSession_def split: if_splits)
    with wrote_session [where P = "rebindable v" and y = x and x = x, OF assms(1,2) refl refl _ True] assms(3) show ?thesis
      by (simp add: simulates_def run ws_def answer_def)
  next
    case False
    from cond False have "saveLogicalSession x v s = (False, s)"
      by (cases "js_get (st_sessions s) (session_id x)") (simp_all add: saveLogicalSession_def split: if_splits)
    with refused_session [where P = "rebindable v", OF assms(1,2) False] show ?thesis
      by (simp add: simulates_def run ws_def answer_def)
  qed
qed

lemma closed_view:
  assumes "session_view y = session_view x" "session_status x = SessionOpen" "unclosed x"
  shows "session_view (closed_session now t y) =
    session_view (x\<lparr>session_status := SessionClosed, session_terminateActive := t, closedAt := Some now, session_updatedAt := now,
                    bindingVersion := bindingVersion x + 1\<rparr>)"
    "session_id (closed_session now t y) = session_id x"
proof -
  have y: "y = x" by (rule session_view_fields(6) [OF assms(1,2)])
  have x: "\<not> session_terminateActive x" "closedAt x = None" using assms(2,3) by (simp_all add: unclosed_def)
  show "session_view (closed_session now t y) =
    session_view (x\<lparr>session_status := SessionClosed, session_terminateActive := t, closedAt := Some now, session_updatedAt := now,
                    bindingVersion := bindingVersion x + 1\<rparr>)"
    "session_id (closed_session now t y) = session_id x"
    unfolding y closed_session_def session_view_def by (simp_all add: x)
qed

text \<open>Closing a session; \<open>may_close\<close> excludes the order to terminate a session already closed without one.\<close>

definition may_close :: "bool \<Rightarrow> StoredLogicalSession \<Rightarrow> bool" where
  "may_close t x \<longleftrightarrow> (session_status x = SessionClosed \<and> t \<longrightarrow> session_terminateActive x)"

lemma run_close:
  assumes "dynamo_ok c" "mirrors c db s" "store_inv s" "js_get (st_sessions s) sid = Some x" "may_close t x"
  shows "\<exists>db'. run_alone c (dy_closeLogicalSession now t sid) db = (Inr (), db')
    \<and> fst (closeLogicalSession now t sid s) = Inr () \<and> mirrors c db' (snd (closeLogicalSession now t sid s))"
proof -
  have got: "getLogicalSession sid True s = Inr x" by (simp add: getLogicalSession_def assms(4))
  obtain y where y: "dy_get c db (logicalSessionKey sid) = Some (logicalSessionItem y)" "session_view y = session_view x" "unclosed x"
      and get: "run_alone c (dy_getLogicalSession sid True) db = (Inr y, db)"
    using run_get_session(2) [OF assms(2) got] by blast
  have id: "session_id x = sid" using assms(3,4) by (simp add: store_inv_def keyed_def)
  show ?thesis
  proof (cases "session_status x")
    case SessionClosed
    then have "session_status y = SessionClosed \<and> (\<not> t \<or> session_terminateActive y)"
      using session_view_fields(2,4) [OF y(2)] assms(5) by (auto simp: may_close_def)
    with SessionClosed assms(2) show ?thesis
      by (simp add: dy_closeLogicalSession_def closeLogicalSession_def run_alone_bind get got)
  next
    case SessionOpen
    define z where "z = closed_session now t y"
    define x' where "x' = x\<lparr>session_status := SessionClosed, session_terminateActive := t, closedAt := Some now, session_updatedAt := now,
                    bindingVersion := bindingVersion x + 1\<rparr>"
    have z: "session_view z = session_view x'" "session_id z = sid"
      using closed_view [OF y(2) SessionOpen y(3)] id by (simp_all add: z_def x'_def)
    have open_y: "session_status y = SessionOpen" using session_view_fields(2) [OF y(2)] SessionOpen by simp
    have unclosed: "unclosed x'" by (simp add: unclosed_def x'_def)
    have here: "present (dy_get c db (logicalSessionKey sid))" by (simp add: present_def y(1))
    define ws where "ws = [put (logicalSessionKey sid) (logicalSessionItem z) present]"
    note wrote = wrote_session [where P = present and y = z and x = x', OF assms(1,2) z(2,1) unclosed here, folded ws_def]
    have "run_alone c (dy_closeLogicalSession now t sid) db = (Inr (), bumped c (wrote c ws db))"
      by (simp add: dy_closeLogicalSession_def run_alone_bind get open_y run_bump [OF assms(1)] Let_def z_def [symmetric] z(2) ws_def [symmetric] wrote(1))
    moreover have "closeLogicalSession now t sid s = (Inr (), bumpAuthorizationEpoch (s\<lparr>st_sessions := js_set (st_sessions s) sid x'\<rparr>))"
      by (simp add: closeLogicalSession_def got SessionOpen x'_def)
    ultimately show ?thesis using mirrors_bumped [OF assms(1) wrote(2)] by simp
  qed
qed

lemma simulates_close_session:
  assumes "dynamo_ok c" "mirrors c db s" "store_inv s" "agreed (DoCloseSession now t sid) s"
  shows "simulates c hash (DoCloseSession now t sid) db s"
proof (cases "js_get (st_sessions s) sid")
  case None
  then have "getLogicalSession sid True s = Inl (throw notFoundError)" by (simp add: getLogicalSession_def)
  with run_get_session(1) [OF assms(2) this] show ?thesis
    by (simp add: simulates_def dy_closeLogicalSession_def closeLogicalSession_def run_alone_bind assms(2) answer_def not_found_def)
next
  case (Some x)
  then have "may_close t x" using assms(4) by (simp add: may_close_def)
  from run_close [OF assms(1-3) Some this, of now] show ?thesis by (auto simp: simulates_def answer_def)
qed

lemma simulates_should_terminate:
  assumes "mirrors c db s" "agreed (DoShouldTerminate rid gid sid) s"
  shows "simulates c hash (DoShouldTerminate rid gid sid) db s"
proof -
  obtain r where r: "js_get (st_routes s) rid = Some r" using assms(2) by (auto simp: js_has_def)
  have route: "run_alone c (dy_get_route rid True) db = (Inr r, db)" by (simp add: run_get_route [OF assms(1)] route_get_def r)
  have grant: "\<exists>h g. getAccessGrant k True s = Inr g \<and> js_get (st_grants s) k = Some g
      \<and> run_alone c (dy_getAccessGrant k True) db = (Inr h, db) \<and> grant_terminateActive h = grant_terminateActive g" if gid: "gid = Some k" for k
  proof -
    obtain g where g: "js_get (st_grants s) k = Some g" using assms(2) gid by (auto simp: js_has_def)
    then have got: "getAccessGrant k True s = Inr g" by (simp add: getAccessGrant_def)
    show ?thesis using run_get_grant(2) [OF assms(1) got] grant_view_fields(4) got by blast
  qed
  have session: "run_alone c (dyn_catch (dyn_bind (dy_getLogicalSession i True) (\<lambda>x. dyn_return (session_terminateActive x))) (\<lambda>_. dyn_return False)) db
      = (Inr (case js_get (st_sessions s) i of None \<Rightarrow> False | Some x \<Rightarrow> session_terminateActive x), db)" for i
  proof (cases "js_get (st_sessions s) i")
    case None
    then have "getLogicalSession i True s = Inl (throw notFoundError)" by (simp add: getLogicalSession_def)
    from run_get_session(1) [OF assms(1) this] None show ?thesis by (simp add: run_alone_catch run_alone_bind)
  next
    case (Some x)
    then have "getLogicalSession i True s = Inr x" by (simp add: getLogicalSession_def)
    then obtain y where "run_alone c (dy_getLogicalSession i True) db = (Inr y, db)" "session_view y = session_view x"
      using run_get_session(2) [OF assms(1)] by blast
    with session_view_fields(4) [OF this(2)] Some show ?thesis by (simp add: run_alone_catch run_alone_bind)
  qed
  have "run_alone c (dy_shouldTerminateActive rid gid sid) db = (Inr (shouldTerminateActive rid gid sid s), db)"
  proof (cases "route_terminateActive r")
    case True
    then show ?thesis by (simp add: dy_shouldTerminateActive_def shouldTerminateActive_def run_alone_catch run_alone_bind route r)
  next
    case False
    show ?thesis
    proof (cases gid)
      case None
      then show ?thesis using False session
        by (cases sid) (simp_all add: dy_shouldTerminateActive_def shouldTerminateActive_def run_alone_catch run_alone_bind route r)
    next
      case (Some k)
      obtain g h where "js_get (st_grants s) k = Some g" "run_alone c (dy_getAccessGrant k True) db = (Inr h, db)"
          "grant_terminateActive h = grant_terminateActive g"
        using grant [OF Some] by blast
      then show ?thesis using False Some session
        by (cases "grant_terminateActive g"; cases sid)
           (simp_all add: dy_shouldTerminateActive_def shouldTerminateActive_def run_alone_catch run_alone_bind route r)
    qed
  qed
  then show ?thesis using assms(1) by (simp add: simulates_def answer_def)
qed

end
