(* ===== verification/Dynamo_Simulation.thy ===== *)
theory Dynamo_Simulation
  imports Dynamo_Refinement
begin

text \<open>
  The two operations of the store that touch several items, authentication and the revocation of a grant, and the
  refinement itself.
\<close>

subsection \<open>Authentication\<close>

lemma find_index_find:
  "find_index P xs = None \<Longrightarrow> List.find P xs = None"
  "find_index P xs = Some n \<Longrightarrow> n < length xs \<and> List.find P xs = Some (xs ! n) \<and> update_first P f xs = xs[n := f (xs ! n)]"
proof -
  have step: "find_index P (x # xs) = (if P x then Some 0 else map_option Suc (find_index P xs))" for x xs
    by (simp add: find_index_def Let_def)
  show "List.find P xs = None" if "find_index P xs = None"
    using that by (induction xs) (simp_all add: step split: if_splits)
  show "n < length xs \<and> List.find P xs = Some (xs ! n) \<and> update_first P f xs = xs[n := f (xs ! n)]" if "find_index P xs = Some n"
    using that
  proof (induction xs arbitrary: n)
    case Nil
    then show ?case by (simp add: find_index_def)
  next
    case (Cons x xs)
    then show ?case by (auto simp: step split: if_splits)
  qed
qed

lemma grant_offers_offers: "grant_offers u g \<longleftrightarrow> grant_status g = GrantReady \<and> offers g u"
  by (cases "grant_status g") (auto simp: grant_offers_def offers_def list_ex_iff image_iff eq_commute)

text \<open>The grant that offers a username is the one its lookup item names.\<close>

lemma memory_grant:
  assumes "mirrors c db s" "store_inv s"
  shows "dy_get c db (credentialLookupKey u) = None \<Longrightarrow> List.find (\<lambda>(k, g). grant_offers u g) (st_grants s) = None"
    "dy_get c db (credentialLookupKey u) = Some v \<Longrightarrow>
     \<exists>l g. v = ILookup l \<and> u = credentialUsername (cl_credentialId l) \<and> js_get (st_grants s) (cl_grantId l) = Some g
       \<and> List.find (\<lambda>(k, g). grant_offers u g) (st_grants s) = (if grant_status g = GrantReady then Some (cl_grantId l, g) else None)"
proof -
  have wf: "js_wf (st_grants s)" using assms(2) by (simp add: store_inv_def keyed_def)
  have look: "mirrored_lookup (dy_get c db (credentialLookupKey u)) (st_grants s) u" using assms(1) by (simp add: mirrors_def)
  have mem: "(k, g) \<in> set (st_grants s) \<longleftrightarrow> js_get (st_grants s) k = Some g" for k g by (rule js_mem_get [OF wf])
  show "List.find (\<lambda>(k, g). grant_offers u g) (st_grants s) = None" if "dy_get c db (credentialLookupKey u) = None"
    using look that by (auto simp: find_None_iff mirrored_lookup_def grant_offers_offers mem)
  assume v: "dy_get c db (credentialLookupKey u) = Some v"
  then obtain l where l: "v = ILookup l" "u = credentialUsername (cl_credentialId l)" "js_has (st_grants s) (cl_grantId l)"
      "\<forall>k g. js_get (st_grants s) k = Some g \<longrightarrow> (offers g u \<longleftrightarrow> k = cl_grantId l)"
    using look unfolding mirrored_lookup_def by auto
  then obtain g where g: "js_get (st_grants s) (cl_grantId l) = Some g" by (auto simp: js_has_def)
  have only: "(case e of (k, g) \<Rightarrow> grant_offers u g) \<longleftrightarrow> e = (cl_grantId l, g) \<and> grant_status g = GrantReady" if "e \<in> set (st_grants s)" for e
  proof -
    obtain k h where e: "e = (k, h)" by (cases e)
    then have h: "js_get (st_grants s) k = Some h" using that mem by simp
    then have "offers h u \<longleftrightarrow> k = cl_grantId l" using l(4) by simp
    then show ?thesis using h g by (cases "k = cl_grantId l") (simp_all add: e grant_offers_offers)
  qed
  have "List.find (\<lambda>(k, g). grant_offers u g) (st_grants s) = (if grant_status g = GrantReady then Some (cl_grantId l, g) else None)"
  proof (cases "grant_status g = GrantReady")
    case True
    have "(cl_grantId l, g) \<in> set (st_grants s)" by (simp add: mem g)
    then have "List.find (\<lambda>(k, g). grant_offers u g) (st_grants s) \<noteq> None"
      using only True unfolding find_None_iff by blast
    then obtain e where e: "List.find (\<lambda>(k, g). grant_offers u g) (st_grants s) = Some e" by blast
    then have "e \<in> set (st_grants s)" "case e of (k, g) \<Rightarrow> grant_offers u g" unfolding find_Some_iff by (metis nth_mem)+
    with only e True show ?thesis by simp
  next
    case False
    then show ?thesis using only unfolding if_not_P [OF False] find_None_iff by blast
  qed
  with l g show "\<exists>l g. v = ILookup l \<and> u = credentialUsername (cl_credentialId l) \<and> js_get (st_grants s) (cl_grantId l) = Some g
       \<and> List.find (\<lambda>(k, g). grant_offers u g) (st_grants s) = (if grant_status g = GrantReady then Some (cl_grantId l, g) else None)"
    by blast
qed

lemma absent_error: "(case exn_value (throw notFoundError) of AppErr a \<Rightarrow> err_class a = ClsNotFound | _ \<Rightarrow> False)"
  by (simp add: throw_def notFoundError_def mk_error_def)

definition touch_credential :: "timestamp \<Rightarrow> StoredAccessGrantCredential \<Rightarrow> StoredAccessGrantCredential" where
  "touch_credential now c = c\<lparr>cred_lastUsedAt := Some now\<rparr>"

lemma touch_view: "cred_view (touch_credential now c) = cred_view c" "cred_id (touch_credential now c) = cred_id c"
  by (simp_all add: touch_credential_def cred_view_def)

lemma touched_views:
  "map cred_view (update_first P (touch_credential now) cs) = map cred_view cs"
  "map cred_view (cs[n := touch_credential now (cs ! n)]) = map cred_view cs"
proof -
  show "map cred_view (update_first P (touch_credential now) cs) = map cred_view cs" by (rule update_first_map_eq) (rule touch_view)
  show "map cred_view (cs[n := touch_credential now (cs ! n)]) = map cred_view cs"
    by (cases "n < length cs") (simp_all add: map_update touch_view list_update_same_conv list_update_beyond)
qed

lemma grant_view_touched:
  "map cred_view cs = map cred_view (credentials g) \<Longrightarrow> grant_view (g\<lparr>credentials := cs, grant_updatedAt := t\<rparr>) = grant_view g"
  by (simp add: grant_view_alt)

lemma lookup_matches_eq:
  "lookup_matches hash (credentialUsername cid) token now cid c = credential_matches hash (credentialUsername cid) token now c"
  by (auto simp: lookup_matches_def credential_matches_def)

lemma credential_matches_view [simp]: "credential_matches hash u token now (cred_view c) = credential_matches hash u token now c"
  by (simp add: credential_matches_def)

lemma simulates_authenticate:
  assumes "dynamo_ok c" "mirrors c db s" "store_inv s"
  shows "simulates c hash (DoAuthenticate now u token) db s"
proof -
  let ?M = "credential_matches hash u token now"
  let ?run = "run_alone c (dy_authenticateAccessGrant hash now u token) db"
  have no: ?thesis if "?run = (Inr None, db)" "authenticateAccessGrant hash now u token s = (Inr None, s)"
    using that assms(2) by (simp add: simulates_def answer_def login_view_def)
  note memory = memory_grant [OF assms(2,3), of u]
  show ?thesis
  proof (cases "dy_get c db (credentialLookupKey u)")
    case None
    then show ?thesis using memory(1) by (intro no) (simp_all add: dy_authenticateAccessGrant_def authenticateAccessGrant_def)
  next
    case (Some v)
    note dyk = Some
    from Some obtain l h where l: "v = ILookup l" "u = credentialUsername (cl_credentialId l)" and h: "js_get (st_grants s) (cl_grantId l) = Some h"
        and find: "List.find (\<lambda>(k, g). grant_offers u g) (st_grants s) = (if grant_status h = GrantReady then Some (cl_grantId l, h) else None)"
      using memory(2) by blast
    have matches: "lookup_matches hash u token now (cl_credentialId l) = ?M" by (rule ext) (simp add: l(2) lookup_matches_eq)
    show ?thesis
    proof (cases "grant_status h = GrantReady")
      case False
      then have got: "getAccessGrant (cl_grantId l) False s = Inl (throw notFoundError)"
        using h by (cases "grant_status h") (simp_all add: getAccessGrant_def)
      from run_get_grant(1) [OF assms(2) got] have "?run = (Inr None, db)"
        by (simp add: dy_authenticateAccessGrant_def Some l(1) dy_grant_and_route_def run_alone_bind run_alone_catch not_found_def absent_error)
      then show ?thesis using find False by (intro no) (simp_all add: authenticateAccessGrant_def)
    next
      case True
      then have got: "getAccessGrant (cl_grantId l) False s = Inr h" using h by (simp add: getAccessGrant_def)
      obtain i where i: "dy_get c db (accessGrantKey (cl_grantId l)) = Some (IGrant i)" "gi_status i = grant_status h"
          "grant_view (gi_grant i) = grant_view h" "run_alone c (dy_getAccessGrant (cl_grantId l) False) db = (Inr (gi_grant i), db)"
          "\<not> grant_terminateActive h"
        using run_get_grant(2) [OF assms(2) got] True by blast
      have fields: "grant_routeId (gi_grant i) = grant_routeId h" "grant_id (gi_grant i) = cl_grantId l"
        using grant_view_fields(1,2) [OF i(3)] store_inv_grant [OF assms(3) h] by simp_all
      show ?thesis
      proof (cases "route_get (grant_routeId h) False s")
        case (Inl e)
        then have e: "e = throw notFoundError" and none: "authenticateAccessGrant hash now u token s = (Inr None, s)"
          using find True by (auto simp: authenticateAccessGrant_def route_get_def split: option.splits if_splits)
        have "?run = (Inr None, db)"
          by (simp add: dy_authenticateAccessGrant_def Some l(1) dy_grant_and_route_def run_alone_bind run_alone_catch i(4)
              run_get_route [OF assms(2)] fields Inl e absent_error)
        then show ?thesis using none by (rule no)
      next
        case (Inr r)
        then have r: "js_get (st_routes s) (grant_routeId h) = Some r" "route_status r \<noteq> RouteRevoked"
          by (auto simp: route_get_def split: option.splits if_splits)
        show ?thesis
        proof (cases "find_index ?M (credentials (gi_grant i))")
          case None
          have "List.find ?M (credentials h) = None"
            using find_view [OF grant_view_fields(5) [OF i(3)], of ?M] find_index_find(1) [OF None] by simp
          then have "authenticateAccessGrant hash now u token s = (Inr None, s)"
            using find True r by (simp add: authenticateAccessGrant_def)
          moreover have "?run = (Inr None, db)"
            by (simp add: dy_authenticateAccessGrant_def Some l(1) dy_grant_and_route_def run_alone_bind run_alone_catch i(4)
                run_get_route [OF assms(2)] fields Inr matches None)
          ultimately show ?thesis by (intro no)
        next
          case (Some n)
          define p where "p = credentials (gi_grant i) ! n"
          define h' where "h' = h\<lparr>credentials := update_first ?M (touch_credential now) (credentials h), grant_updatedAt := now\<rparr>"
          define g' where "g' = (gi_grant i)\<lparr>credentials := (credentials (gi_grant i))[n := touch_credential now p], grant_updatedAt := now\<rparr>"
          have p: "n < length (credentials (gi_grant i))" "List.find ?M (credentials (gi_grant i)) = Some p"
            using find_index_find(2) [OF Some, of id] by (simp_all add: p_def)
          then obtain d where d: "List.find ?M (credentials h) = Some d" "cred_view p = cred_view d"
            using find_view [OF grant_view_fields(5) [OF i(3)], of ?M] by (cases "List.find ?M (credentials h)") auto
          have id: "cred_id p = cred_id d" using arg_cong [OF d(2), of cred_id] by simp
          have views: "grant_view h' = grant_view h" "grant_view g' = grant_view h"
            unfolding h'_def g'_def p_def using i(3) by (simp_all add: grant_view_touched touched_views)
          have memory: "authenticateAccessGrant hash now u token s =
              (Inr (Some \<lparr>auth_grant = h', auth_credential = touch_credential now d, auth_route = r\<rparr>),
               s\<lparr>st_grants := js_set (st_grants s) (cl_grantId l) h'\<rparr>)"
            using find True r d(1) by (simp add: authenticateAccessGrant_def Let_def h'_def touch_credential_def [abs_def])
          have offers: "offers h' w = offers h w" for w by (rule offers_view) (rule views)
          have calm: "grant_status h' = GrantReady" "\<not> grant_terminateActive h'" using True i(5) by (simp_all add: h'_def)
          show ?thesis
          proof (cases "case cred_lastUsedAt p of None \<Rightarrow> False | Some t \<Rightarrow> now - t < ACCESS_GRANT_LAST_USED_WRITE_INTERVAL_MS")
            case recent: True
            have "?run = (Inr (Some \<lparr>auth_grant = gi_grant i, auth_credential = p, auth_route = r\<rparr>), db)"
              using recent
              by (simp add: dy_authenticateAccessGrant_def dyk l(1) dy_grant_and_route_def run_alone_bind run_alone_catch i(4)
                  run_get_route [OF assms(2)] fields Inr matches Some p_def [symmetric] Let_def)
            moreover have "mirrors c db (s\<lparr>st_grants := js_set (st_grants s) (cl_grantId l) h'\<rparr>)"
              by (rule mirrors_set_grant [OF assms(2) _ _ h offers, where i = i])
                 (simp_all add: i(1) fun_upd_idem mirrored_grant_def i(2,3) views(1) True calm)
            ultimately show ?thesis
              by (simp add: simulates_def memory answer_def login_view_def views i(3) id touch_view)
          next
            case False
            define ws where "ws = [Write (accessGrantKey (cl_grantId l)) (touchable (tokenHash p) n) (touch_item now n)]"
            have "touchable (tokenHash p) n (dy_get c db (accessGrantKey (cl_grantId l)))"
              using p(1) True i(2) by (simp add: touchable_def i(1) p_def)
            moreover have "touch_item now n (dy_get c db (accessGrantKey (cl_grantId l))) = Some (IGrant (i\<lparr>gi_grant := g'\<rparr>))"
              by (simp add: touch_item_def i(1) g'_def p_def touch_credential_def Let_def)
            moreover have "mirrored_grant (Some (IGrant (i\<lparr>gi_grant := g'\<rparr>))) (Some h')"
              using views calm i(2) True by (simp add: mirrored_grant_def)
            ultimately have wrote: "fst (dy_write c ws db)" "mirrors c (wrote c ws db) (s\<lparr>st_grants := js_set (st_grants s) (cl_grantId l) h'\<rparr>)"
              unfolding ws_def by (blast intro: wrote_grant [OF assms(1,2) h _ _ _ offers])+
            have "?run = (Inr (Some \<lparr>auth_grant = g', auth_credential = touch_credential now p, auth_route = r\<rparr>), wrote c ws db)"
              using False wrote(1)
              by (simp add: dy_authenticateAccessGrant_def dyk l(1) dy_grant_and_route_def run_alone_bind run_alone_catch i(4)
                  run_get_route [OF assms(2)] fields Inr matches Some p_def [symmetric] Let_def ws_def g'_def touch_credential_def)
            then show ?thesis
              using wrote(2) by (simp add: simulates_def memory answer_def login_view_def views id touch_view)
          qed
        qed
      qed
    qed
  qed
qed

subsection \<open>Revoking a grant\<close>

text \<open>Closing sessions in memory, one after another, changes each of them once, in whatever order.\<close>

definition shut :: "timestamp \<Rightarrow> bool \<Rightarrow> StoredLogicalSession \<Rightarrow> StoredLogicalSession" where
  "shut now t x =
     (if session_status x = SessionClosed then x
      else x\<lparr>session_status := SessionClosed, session_terminateActive := t, closedAt := Some now, session_updatedAt := now,
             bindingVersion := bindingVersion x + 1\<rparr>)"

lemma shut_shut [simp]: "shut now t (shut now t x) = shut now t x"
  by (simp add: shut_def)

lemma may_close_shut [simp]: "may_close t x \<Longrightarrow> may_close t (shut now t x)"
  by (simp add: shut_def may_close_def)

lemma close_get:
  "js_get (st_sessions (snd (closeLogicalSession now t sid s))) k =
   (if k = sid then map_option (shut now t) (js_get (st_sessions s) k) else js_get (st_sessions s) k)"
  by (cases "js_get (st_sessions s) sid") (simp_all add: closeLogicalSession_def getLogicalSession_def shut_def)

lemma for_each_close:
  assumes "\<And>x. has xs x \<Longrightarrow> js_has (st_sessions s) (session_id x)"
  shows "fst (for_each_op (\<lambda>x. closeLogicalSession now t (session_id x)) xs s) = Inr ()"
    and "js_get (st_sessions (snd (for_each_op (\<lambda>x. closeLogicalSession now t (session_id x)) xs s))) k =
         (if k \<in> session_id ` set xs then map_option (shut now t) (js_get (st_sessions s) k) else js_get (st_sessions s) k)"
proof -
  have "fst (for_each_op (\<lambda>x. closeLogicalSession now t (session_id x)) xs s) = Inr () \<and>
    js_get (st_sessions (snd (for_each_op (\<lambda>x. closeLogicalSession now t (session_id x)) xs s))) k =
         (if k \<in> session_id ` set xs then map_option (shut now t) (js_get (st_sessions s) k) else js_get (st_sessions s) k)"
    using assms
  proof (induction xs arbitrary: s)
    case (Cons x xs)
    obtain s1 where s1: "closeLogicalSession now t (session_id x) s = (Inr (), s1)"
      using closeLogicalSession_ok [of s "session_id x" now t] Cons.prems [of x] by (cases "closeLogicalSession now t (session_id x) s") auto
    have "js_has (st_sessions s1) (session_id y)" if "has xs y" for y
      using closeLogicalSession_has [of now t "session_id x" s "session_id y"] Cons.prems [of y] s1 that by simp
    from Cons.IH [OF this] s1 close_get [of now t "session_id x" s k] show ?case
      by (auto simp: option.map_comp o_def option.map_ident_strong)
  qed simp
  then show "fst (for_each_op (\<lambda>x. closeLogicalSession now t (session_id x)) xs s) = Inr ()"
    "js_get (st_sessions (snd (for_each_op (\<lambda>x. closeLogicalSession now t (session_id x)) xs s))) k =
         (if k \<in> session_id ` set xs then map_option (shut now t) (js_get (st_sessions s) k) else js_get (st_sessions s) k)"
    by blast+
qed

lemma run_closes:
  assumes "dynamo_ok c" "mirrors c db s" "store_inv s"
    and "\<And>x. has xs x \<Longrightarrow> \<exists>z. js_get (st_sessions s) (session_id x) = Some z \<and> may_close t z"
  shows "\<exists>db'. run_alone c (dyn_for (\<lambda>x. dy_closeLogicalSession now t (session_id x)) xs) db = (Inr (), db')
    \<and> mirrors c db' (snd (for_each_op (\<lambda>x. closeLogicalSession now t (session_id x)) xs s))"
  using assms(2-)
proof (induction xs arbitrary: db s)
  case (Cons x xs)
  obtain z where z: "js_get (st_sessions s) (session_id x) = Some z" "may_close t z" using Cons.prems(3) [of x] by auto
  define s1 where "s1 = snd (closeLogicalSession now t (session_id x) s)"
  obtain db1 where db1: "run_alone c (dy_closeLogicalSession now t (session_id x)) db = (Inr (), db1)"
      "fst (closeLogicalSession now t (session_id x) s) = Inr ()" "mirrors c db1 s1"
    using run_close [OF assms(1) Cons.prems(1,2) z, of now] s1_def by blast
  have inv: "store_inv s1" unfolding s1_def by (rule closeLogicalSession_inv [OF Cons.prems(2)])
  have rest: "\<exists>z. js_get (st_sessions s1) (session_id y) = Some z \<and> may_close t z" if "has xs y" for y
  proof -
    have "has (x # xs) y" using that by simp
    then obtain w where "js_get (st_sessions s) (session_id y) = Some w" "may_close t w" using Cons.prems(3) [of y] by blast
    then show ?thesis by (cases "session_id y = session_id x") (simp_all add: s1_def close_get)
  qed
  have memory: "for_each_op (\<lambda>x. closeLogicalSession now t (session_id x)) (x # xs) s
      = for_each_op (\<lambda>x. closeLogicalSession now t (session_id x)) xs s1"
    using db1(2) by (cases "closeLogicalSession now t (session_id x) s") (simp add: s1_def)
  from Cons.IH [OF db1(3) inv rest] show ?case
    unfolding memory by (simp add: run_alone_bind db1(1))
qed simp

lemma close_all_frame: "same_outside_sessions s (snd (for_each_op (\<lambda>x. closeLogicalSession now t (session_id x)) xs s))"
proof (rule for_each_op_preserves [where P = "same_outside_sessions s"])
  fix x s'
  assume "same_outside_sessions s s'"
  then show "same_outside_sessions s (snd (closeLogicalSession now t (session_id x) s'))"
    using closeLogicalSession_frame [where now = now and t = t and sid = "session_id x" and s = s']
    unfolding same_outside_sessions_def by simp
qed (simp add: same_outside_sessions_def)

lemma mirrors_ext:
  assumes "mirrors c db s" "st_routes s' = st_routes s" "st_grants s' = st_grants s"
    "\<And>k. js_get (st_sessions s') k = js_get (st_sessions s) k"
  shows "mirrors c db s'"
  using assms by (simp add: mirrors_def)

text \<open>The sessions of a grant, as the two stores list them.\<close>

lemma listed_sessions:
  assumes "dynamo_ok c" "mirrors c db s" "store_inv s"
  obtains xs where "run_alone c (dy_listLogicalSessions gid) db = (Inr xs, db)"
    "session_id ` set xs = {sid. \<exists>x. js_get (st_sessions s) sid = Some x \<and> session_grantId x = gid}"
proof
  let ?items = "map snd (dy_query c db (ByOwner (''GRANT#'' @ gid)))"
  define xs where "xs = List.map_filter (\<lambda>it. case it of ISession i \<Rightarrow> Some (si_session i) | _ \<Rightarrow> None) ?items"
  show "run_alone c (dy_listLogicalSessions gid) db = (Inr xs, db)" by (simp add: dy_listLogicalSessions_def xs_def)
  have items: "set ?items = {it. \<exists>k. dy_get c db k = Some it \<and> item_owner it = Some (''GRANT#'' @ gid)}"
    unfolding dynamo_query(3) [OF assms(1)] by simp
  have item: "\<exists>x. js_get (st_sessions s) (session_id (si_session i)) = Some x \<and> session_grantId x = gid"
    if here: "dy_get c db k = Some (ISession i)" and owned: "fst (si_gsi i) = ''GRANT#'' @ gid" for k i
  proof -
    have k: "k = logicalSessionKey (session_id (si_session i))" using assms(2) here unfolding mirrors_def by blast
    then obtain x where x: "js_get (st_sessions s) (session_id (si_session i)) = Some x"
      using here mirrors_sessionD(1) [OF assms(2), of "session_id (si_session i)"] by (cases "js_get (st_sessions s) (session_id (si_session i))") auto
    obtain y where y: "ISession i = logicalSessionItem y" "session_view y = session_view x"
      using mirrors_sessionD(2) [OF assms(2) x] here k by auto
    with owned session_view_fields(3) [OF y(2)] show ?thesis using x by (simp add: logicalSessionItem_def)
  qed
  have listed: "\<exists>i k. dy_get c db k = Some (ISession i) \<and> fst (si_gsi i) = ''GRANT#'' @ gid \<and> session_id (si_session i) = sid"
    if x: "js_get (st_sessions s) sid = Some x" "session_grantId x = gid" for sid x
  proof -
    obtain y where y: "dy_get c db (logicalSessionKey sid) = Some (logicalSessionItem y)" "session_view y = session_view x"
      using mirrors_sessionD(2) [OF assms(2) x(1)] by blast
    have "session_id x = sid" using assms(3) x(1) by (simp add: store_inv_def keyed_def)
    with y(1) session_view_fields(1,3) [OF y(2)] x(2) show ?thesis unfolding logicalSessionItem_def by fastforce
  qed
  have mem: "x \<in> set xs \<longleftrightarrow> (\<exists>i k. dy_get c db k = Some (ISession i) \<and> fst (si_gsi i) = ''GRANT#'' @ gid \<and> x = si_session i)" for x
  proof -
    have "x \<in> set xs \<longleftrightarrow> (\<exists>it \<in> set ?items. \<exists>i. it = ISession i \<and> x = si_session i)"
      unfolding xs_def in_map_filter by (intro bex_cong refl) (auto split: item.split)
    moreover have "ISession i \<in> set ?items \<longleftrightarrow> (\<exists>k. dy_get c db k = Some (ISession i) \<and> fst (si_gsi i) = ''GRANT#'' @ gid)" for i
      unfolding items by simp
    ultimately show ?thesis by blast
  qed
  show "session_id ` set xs = {sid. \<exists>x. js_get (st_sessions s) sid = Some x \<and> session_grantId x = gid}"
  proof (intro set_eqI iffI)
    fix sid assume "sid \<in> session_id ` set xs"
    then show "sid \<in> {sid. \<exists>x. js_get (st_sessions s) sid = Some x \<and> session_grantId x = gid}" using item unfolding image_iff Bex_def mem by blast
  next
    fix sid assume "sid \<in> {sid. \<exists>x. js_get (st_sessions s) sid = Some x \<and> session_grantId x = gid}"
    then show "sid \<in> session_id ` set xs" using listed unfolding image_iff Bex_def mem by blast
  qed
qed

lemma simulates_revoke_grant:
  assumes "dynamo_ok c" "mirrors c db s" "store_inv s" "agreed (DoRevokeGrant now gid t) s"
  shows "simulates c hash (DoRevokeGrant now gid t) db s"
proof (cases "js_get (st_grants s) gid")
  case None
  define ws where "ws = [Write (accessGrantKey gid) present (revoke_grant_item now t)]"
  have absent: "\<not> present (dy_get c db (accessGrantKey gid))" using mirrors_grantD(1) [OF assms(2) None] by (simp add: present_def)
  note one = wrote_one [OF assms(1), where k = "accessGrantKey gid" and P = present and f = "revoke_grant_item now t" and db = db]
  have "mirrors c (wrote c ws db) s" using one(3) absent by (intro mirrors_same [OF assms(2)]) (simp add: ws_def)
  moreover have "run_alone c (dy_revokeAccessGrant now gid t) db = (Inl not_found, wrote c ws db)"
    using one(1) absent
    by (simp add: dy_revokeAccessGrant_def run_alone_bind ws_def conditionalNotFound_def conditional_failed_def throw_error_def)
  ultimately show ?thesis by (simp add: simulates_def revokeAccessGrant_def None answer_def not_found_def)
next
  case (Some g)
  define g' where "g' = g\<lparr>grant_status := GrantRevoked, grant_terminateActive := (t \<or> grant_terminateActive g), grant_updatedAt := now\<rparr>"
  define s1 where "s1 = s\<lparr>st_grants := js_set (st_grants s) gid g'\<rparr>"
  define ws where "ws = [Write (accessGrantKey gid) present (revoke_grant_item now t)]"
  obtain i where i: "dy_get c db (accessGrantKey gid) = Some (IGrant i)" "grant_view (gi_grant i) = grant_view g"
    using mirrors_grantD(2) [OF assms(2) Some] by blast
  have t: "(t \<or> grant_terminateActive g) = t" using assms(4) Some by auto
  define j where "j = i\<lparr>gi_status := GrantRevoked, gi_gsi := None,
     gi_grant := (gi_grant i)\<lparr>grant_status := GrantRevoked, grant_terminateActive := t, grant_updatedAt := now\<rparr>\<rparr>"
  have j: "revoke_grant_item now t (Some (IGrant i)) = Some (IGrant j)" by (simp add: revoke_grant_item_def j_def)
  have view: "grant_view (gi_grant j) = grant_view g'"
  proof -
    have "grant_view (g\<lparr>grant_status := GrantRevoked, grant_terminateActive := t, grant_updatedAt := now\<rparr>)
        = (grant_view g)\<lparr>grant_status := GrantRevoked, grant_terminateActive := t\<rparr>" for g
      by (simp add: grant_view_def)
    with i(2) show ?thesis by (simp add: j_def g'_def t)
  qed
  then have mirrored: "mirrored_grant (Some (IGrant j)) (Some g')" by (simp add: mirrored_grant_def j_def g'_def)
  have offers: "offers g' u = offers g u" for u by (simp add: offers_def g'_def)
  have wrote: "fst (dy_write c ws db)" "mirrors c (wrote c ws db) s1"
    unfolding ws_def s1_def
    by (rule wrote_grant [OF assms(1,2) Some _ _ mirrored offers]; simp add: i(1) present_def j)+
  note g = store_inv_grant [OF assms(3) Some]
  have inv: "store_inv s1" unfolding s1_def
    by (rule store_inv_set_grant [OF assms(3)]) (use g in \<open>simp_all add: g'_def\<close>)
  obtain xs where xs: "run_alone c (dy_listLogicalSessions gid) (wrote c ws db) = (Inr xs, wrote c ws db)"
      "session_id ` set xs = {sid. \<exists>x. js_get (st_sessions s1) sid = Some x \<and> session_grantId x = gid}"
    using listed_sessions [OF assms(1) wrote(2) inv] by blast
  have closable: "\<exists>z. js_get (st_sessions s1) (session_id x) = Some z \<and> may_close t z" if listed: "has xs x" for x
  proof -
    have "session_id x \<in> {sid. \<exists>x. js_get (st_sessions s1) sid = Some x \<and> session_grantId x = gid}"
      unfolding xs(2) [symmetric] using listed by blast
    then obtain z where z: "js_get (st_sessions s) (session_id x) = Some z" "session_grantId z = gid"
      by (auto simp: s1_def)
    then have "z \<in> set (js_values (st_sessions s))" using assms(3) js_values_get [of "st_sessions s"] by (auto simp: store_inv_def keyed_def)
    with z assms(4) show ?thesis by (auto simp: s1_def may_close_def list_all_iff)
  qed
  let ?close = "\<lambda>xs. for_each_op (\<lambda>x. closeLogicalSession now t (session_id x)) xs s1"
  obtain db' where db': "run_alone c (dyn_for (\<lambda>x. dy_closeLogicalSession now t (session_id x)) xs) (wrote c ws db) = (Inr (), db')"
      "mirrors c db' (snd (?close xs))"
    using run_closes [OF assms(1) wrote(2) inv closable] by blast
  define ys where "ys = listLogicalSessions gid s1"
  have in_values: "x \<in> set (js_values (st_sessions s1)) \<longleftrightarrow> js_get (st_sessions s1) (session_id x) = Some x" for x
    using inv js_values_get [of "st_sessions s1"] by (auto simp: store_inv_def keyed_def)
  have keyed: "session_id x = k" if "js_get (st_sessions s1) k = Some x" for k x
    using inv that by (simp add: store_inv_def keyed_def)
  have ys: "session_id ` set ys = session_id ` set xs"
    unfolding xs(2) ys_def listLogicalSessions_def by (auto simp: in_values dest: keyed)
  have has_xs: "js_has (st_sessions s1) (session_id x)" if "has xs x" for x using closable [OF that] by (auto simp: js_has_def)
  have has_ys: "js_has (st_sessions s1) (session_id y)" if "has ys y" for y
  proof -
    have "session_id y \<in> session_id ` set xs" using that ys by blast
    then show ?thesis using has_xs by auto
  qed
  have "mirrors c db' (snd (?close ys))"
  proof (rule mirrors_ext [OF db'(2)])
    show "st_routes (snd (?close ys)) = st_routes (snd (?close xs))" "st_grants (snd (?close ys)) = st_grants (snd (?close xs))"
      using close_all_frame [where s = s1 and xs = ys and now = now and t = t] close_all_frame [where s = s1 and xs = xs and now = now and t = t] by (simp_all add: same_outside_sessions_def)
    show "js_get (st_sessions (snd (?close ys))) k = js_get (st_sessions (snd (?close xs))) k" for k
      using for_each_close(2) [where xs = ys and s = s1 and now = now and t = t and k = k] for_each_close(2) [where xs = xs and s = s1 and now = now and t = t and k = k] has_xs has_ys ys by simp
  qed
  moreover have "revokeAccessGrant now gid t s = (Inr (), bumpAuthorizationEpoch (snd (?close ys)))"
    using for_each_close(1) [where xs = ys and s = s1 and now = now and t = t] has_ys
    by (cases "?close ys") (simp add: revokeAccessGrant_def Some Let_def g'_def [symmetric] s1_def [symmetric] closeLogicalSessions_def ys_def [symmetric])
  moreover have "run_alone c (dy_revokeAccessGrant now gid t) db = (Inr (), bumped c db')"
    by (simp add: dy_revokeAccessGrant_def run_alone_bind ws_def [symmetric] wrote(1) dy_closeLogicalSessions_def xs(1) db'(1) run_bump [OF assms(1)])
  ultimately show ?thesis
    unfolding simulates_def dynamo_call.simps memory_call.simps using mirrors_bumped [OF assms(1)] by simp
qed

subsection \<open>The refinement\<close>

lemma simulation:
  assumes "dynamo_ok c" "mirrors c db s" "store_inv s" "agreed call s"
  shows "simulates c hash call db s"
proof -
  have wf: "js_wf (st_grants s)" using assms(3) by (simp add: store_inv_def keyed_def)
  show ?thesis
    using assms(4)
    by (cases call)
       (blast intro: simulates_create_route simulates_get_route simulates_update_route simulates_revoke_route simulates_create_grant [OF assms(1,2) wf]
          simulates_get_grant simulates_add_credential simulates_authenticate simulates_rotate simulates_revoke_credential simulates_revoke_grant
          simulates_create_session simulates_get_session simulates_save_session simulates_close_session simulates_should_terminate assms)+
qed

lemma memory_call_inv: "store_inv s \<Longrightarrow> store_inv (snd (memory_call hash call s))"
  by (cases call) (simp_all add: store_op_invs)

primrec memory_answers :: "token_hash \<Rightarrow> store_call list \<Rightarrow> StoreState \<Rightarrow> (bool + store_answer) list" where
  "memory_answers hash [] s = []"
| "memory_answers hash (call # calls) s = (case memory_call hash call s of (a, s') \<Rightarrow> a # memory_answers hash calls s')"

primrec dynamo_answers :: "'db Dynamo \<Rightarrow> token_hash \<Rightarrow> store_call list \<Rightarrow> 'db \<Rightarrow> (bool + store_answer) list" where
  "dynamo_answers c hash [] db = []"
| "dynamo_answers c hash (call # calls) db = (case dynamo_call c hash call db of (a, db') \<Rightarrow> a # dynamo_answers c hash calls db')"

primrec all_agreed :: "token_hash \<Rightarrow> store_call list \<Rightarrow> StoreState \<Rightarrow> bool" where
  "all_agreed hash [] s = True"
| "all_agreed hash (call # calls) s = (agreed call s \<and> all_agreed hash calls (snd (memory_call hash call s)))"

lemma same_answers:
  assumes "dynamo_ok c" "mirrors c db s" "store_inv s" "all_agreed hash calls s"
  shows "dynamo_answers c hash calls db = memory_answers hash calls s"
  using assms(2-)
proof (induction calls arbitrary: db s)
  case (Cons call calls)
  have "simulates c hash call db s" using Cons.prems by (intro simulation [OF assms(1)]) simp_all
  moreover have "store_inv (snd (memory_call hash call s))" by (rule memory_call_inv [OF Cons.prems(2)])
  ultimately show ?case
    using Cons.IH [of "snd (dynamo_call c hash call db)" "snd (memory_call hash call s)"] Cons.prems(3)
    by (simp add: simulates_def case_prod_unfold)
qed simp

lemma mirrors_fresh: "dy_get c db = (\<lambda>_. None) \<Longrightarrow> mirrors c db empty_store"
  by (simp add: mirrors_def empty_store_def mirrored_route_def mirrored_grant_def mirrored_session_def mirrored_lookup_def)


definition sample_calls :: "store_call list" where
  "sample_calls =
     [DoCreateRoute 0 ''r'' sample_profile,
      DoCreateGrant ''salt'' 0 ''g'' ''r'' ''owner'' ''c1'' ''secret'' Managed None None,
      DoAuthenticate 1 (credentialUsername ''c1'') ''secret'',
      DoRotate ''pepper'' 2 ''g'' ''c1'' ''c2'' ''next'' True,
      DoAuthenticate 3 (credentialUsername ''c1'') ''secret'',
      DoAuthenticate 3 (credentialUsername ''c2'') ''next'',
      DoRevokeGrant 4 ''g'' True,
      DoShouldTerminate ''r'' (Some ''g'') None,
      DoGetGrant ''g'' False]"


end
