(* ===== verification/Dynamo_Races.thy ===== *)
theory Dynamo_Races
  imports Dynamo_Simulation
begin

text \<open>
  The store under concurrency: each command is atomic, and other clients act between the commands of an operation. What the
  conditional writes of \<open>src/dynamo-store.ts\<close> rule out, and the interleavings they let through.
\<close>

lemma amid_get_route:
  assumes "dy_get c (f db) (routeKey rid) = Some (IRoute i)" "route_status (ri_route i) = RouteReady"
  shows "run_amid c (dyn_bind (dy_get_route rid False) k) (f # fs) db = run_amid c (k (ri_route i)) fs (f db)"
  by (simp add: dy_get_route_def others_def assms)

lemma amid_get_grant:
  assumes "dy_get c (f db) (accessGrantKey gid) = Some (IGrant i)" "b \<or> grant_status (gi_grant i) = GrantReady"
  shows "run_amid c (dyn_bind (dy_getAccessGrant gid b) k) (f # fs) db = run_amid c (k (gi_grant i)) fs (f db)"
  using assms(2) by (auto simp: dy_getAccessGrant_def others_def assms(1))

text \<open>With one more client acting before the next command, the rest of a program that starts with a write.\<close>

lemma amid_commit_or:
  "run_amid c (dyn_bind (commit_or e ws) k) [f] db =
   (if fst (dy_write c ws (f db)) then run_alone c (k ()) (wrote c ws (f db)) else (Inl e, wrote c ws (f db)))"
  by (simp add: commit_or_def others_def wrote_def run_alone_def split: prod.split)

lemma amid_save:
  "run_amid c (save_with_credential g n) [f] db = run_alone c (save_with_credential g n) (f db)"
  by (simp add: save_with_credential_def commit_or_def others_def run_alone_def split: prod.split)

subsection \<open>A revoked grant gains no credential\<close>

lemma save_refused:
  assumes "dynamo_ok c" "\<not> not_revoked_grant (dy_get c db (accessGrantKey (grant_id g)))"
  shows "fst (run_alone c (save_with_credential g n) db) = Inl not_found"
    "dy_get c (snd (run_alone c (save_with_credential g n) db)) = dy_get c db"
proof -
  define ws where "ws = [put (accessGrantKey (grant_id g)) (grantItem g) not_revoked_grant, lookup_write (grant_id g) n]"
  have "\<not> fst (dy_write c ws db)" "dy_get c (wrote c ws db) = dy_get c db"
    using wrote_two(1,3) [OF assms(1) keys_apart(7), where P = not_revoked_grant] assms(2)
    by (simp_all add: ws_def put_def lookup_write_def)
  then show "fst (run_alone c (save_with_credential g n) db) = Inl not_found"
    "dy_get c (snd (run_alone c (save_with_credential g n) db)) = dy_get c db"
    by (simp_all add: save_with_credential_def run_alone_catch run_alone_bind ws_def [symmetric] conditionalNotFound_def
        transaction_cancelled_def throw_error_def)
qed

text \<open>
  C14. Safety of \<open>addAccessGrantCredential\<close> under races: whatever other clients do before it reads the grant and between its
  read and its write, if the grant is revoked by the time it writes, it fails with not found and writes nothing.
\<close>

theorem revoked_grant_gains_no_credential:
  assumes "dynamo_ok c"
    and "dy_get c (before db) (accessGrantKey gid) = Some (IGrant i)" "grant_id (gi_grant i) = gid"
    and "dy_get c (between (before db)) (accessGrantKey gid) = Some (IGrant j)" "gi_status j = GrantRevoked"
  shows "let (r, db') = run_amid c (dy_addAccessGrantCredential hash salt now gid cid token mode sid) [before, between] db
         in r = Inl not_found
            \<and> dy_get c db' = (if grant_status (gi_grant i) = GrantReady then dy_get c (between (before db)) else dy_get c (before db))"
proof (cases "grant_status (gi_grant i) = GrantReady")
  case True
  define n where "n = createStoredCredential hash salt cid token mode now sid"
  define g where "g = (gi_grant i)\<lparr>credentials := credentials (gi_grant i) @ [n], grant_updatedAt := now\<rparr>"
  have "\<not> not_revoked_grant (dy_get c (between (before db)) (accessGrantKey (grant_id g)))"
    using assms(3-5) by (simp add: g_def not_revoked_grant_def)
  note refused = save_refused [OF assms(1) this]
  have "run_amid c (dy_addAccessGrantCredential hash salt now gid cid token mode sid) [before, between] db
      = run_alone c (save_with_credential g n) (between (before db))"
    by (simp add: dy_addAccessGrantCredential_def amid_get_grant [where f = before, OF assms(2)] True Let_def
        n_def [symmetric] g_def [symmetric] amid_save)
  with refused True show ?thesis by (simp add: case_prod_unfold)
next
  case False
  then have "grant_status (gi_grant i) = GrantRevoked" by (cases "grant_status (gi_grant i)") simp_all
  then show ?thesis by (simp add: dy_addAccessGrantCredential_def dy_getAccessGrant_def others_def assms(2))
qed

definition sample_table :: table where
  "sample_table =
     snd (dynamo_call table_client sample_hash (DoCreateGrant ''salt'' 0 ''g'' ''r'' ''owner'' ''c1'' ''secret'' Managed None None)
       (snd (dynamo_call table_client sample_hash (DoCreateRoute 0 ''r'' sample_profile) [])))"

abbreviation sample_revoke :: "table \<Rightarrow> table" where
  "sample_revoke db \<equiv> snd (dynamo_call table_client sample_hash (DoRevokeGrant 5 ''g'' True) db)"

text \<open>The grant is revoked between the read and the write of a client that adds a credential.\<close>

theorem revoked_grant_gains_no_credential_witness:
  "fst (run_amid table_client (dy_addAccessGrantCredential sample_hash ''pepper'' 6 ''g'' ''c2'' ''next'' Managed None)
          [id, sample_revoke] sample_table) = Inl not_found"
proof -
  obtain i where i: "dy_get table_client (id sample_table) (accessGrantKey ''g'') = Some (IGrant i)" "grant_id (gi_grant i) = ''g''"
  proof -
    have "(case dy_get table_client (id sample_table) (accessGrantKey ''g'') of Some (IGrant i) \<Rightarrow> grant_id (gi_grant i) = ''g'' | _ \<Rightarrow> False)"
      by code_simp
    then show thesis using that by (auto split: option.splits item.splits)
  qed
  obtain j where j: "dy_get table_client (sample_revoke (id sample_table)) (accessGrantKey ''g'') = Some (IGrant j)" "gi_status j = GrantRevoked"
  proof -
    have "(case dy_get table_client (sample_revoke (id sample_table)) (accessGrantKey ''g'') of Some (IGrant j) \<Rightarrow> gi_status j = GrantRevoked | _ \<Rightarrow> False)"
      by code_simp
    then show thesis using that by (auto split: option.splits item.splits)
  qed
  from revoked_grant_gains_no_credential [where before = id and between = sample_revoke and db = sample_table, OF table_client_ok i j] show ?thesis by (auto simp: Let_def case_prod_unfold)
qed

subsection \<open>A binding version is spent once\<close>

lemma run_save_session:
  assumes "dynamo_ok c"
  shows "fst (run_alone c (dy_saveLogicalSession x v) db) = Inr (rebindable v (dy_get c db (logicalSessionKey (session_id x))))"
    "rebindable v (dy_get c db (logicalSessionKey (session_id x))) \<Longrightarrow>
     dy_get c (snd (run_alone c (dy_saveLogicalSession x v) db)) (logicalSessionKey (session_id x)) = Some (logicalSessionItem x)"
  using wrote_one [OF assms, where k = "logicalSessionKey (session_id x)" and P = "rebindable v" and db = db]
  by (simp_all add: dy_saveLogicalSession_def put_def wrote_def case_prod_unfold)

lemma binding_version_spent_once:
  assumes "dynamo_ok c" "session_id y = session_id x" "bindingVersion x \<noteq> v"
    and "fst (run_alone c (dy_saveLogicalSession x v) db) = Inr True"
  shows "fst (run_alone c (dy_saveLogicalSession y v) (snd (run_alone c (dy_saveLogicalSession x v) db))) = Inr False"
proof -
  have "rebindable v (dy_get c db (logicalSessionKey (session_id x)))" using assms(4) by (simp add: run_save_session(1) [OF assms(1)])
  note saved = run_save_session(2) [OF assms(1) this]
  show ?thesis
    unfolding run_save_session(1) [OF assms(1)] assms(2) saved using assms(3) by (simp add: rebindable_def logicalSessionItem_def)
qed

subsection \<open>Lost updates\<close>

text \<open>
  The replacement of a route and the revocation of a credential write back what they read, on the sole condition that the
  item exists: a revocation that happens in between is undone.
\<close>

lemma update_undoes_revocation:
  fixes later :: timestamp and terminate :: bool
  assumes "dynamo_ok c" "dy_get c db (routeKey rid) = Some (IRoute i)" "route_status (ri_route i) = RouteReady"
  defines "revoke \<equiv> \<lambda>db. snd (run_alone c (dy_revoke later rid terminate) db)"
  shows "\<exists>j. dy_get c (snd (run_amid c (dy_update now rid p) [id, revoke] db)) (routeKey rid) = Some (IRoute j) \<and> ri_status j = RouteReady"
proof -
  define r where "r = (replace_profile (ri_route i) p)\<lparr>route_status := RouteReady, route_updatedAt := now\<rparr>"
  define ws where "ws = [put (routeKey rid) (routeItem r) present]"
  define db1 where "db1 = revoke db"
  have kept: "present (dy_get c db1 (routeKey rid))"
  proof -
    define P where "P = (\<lambda>v. present v \<and> (terminate \<or> (case v of Some (IRoute i) \<Rightarrow> ri_status i \<noteq> RouteRevoked | _ \<Rightarrow> True)))"
    define vs where "vs = [Write (routeKey rid) P (revoke_route_item later terminate)]"
    have "db1 = bumped c (wrote c vs db) \<or> db1 = wrote c vs db"
      by (simp add: db1_def revoke_def dy_revoke_def run_alone_bind run_bump [OF assms(1)] P_def [symmetric] vs_def [symmetric])
    moreover have "present (dy_get c (wrote c vs db) (routeKey rid))"
      using wrote_one [OF assms(1), where k = "routeKey rid" and P = P and f = "revoke_route_item later terminate" and db = db] assms(2)
      by (cases "P (dy_get c db (routeKey rid))") (simp_all add: vs_def present_def revoke_route_item_def)
    ultimately show ?thesis using bumped_get [OF assms(1), of "wrote c vs db"] by auto
  qed
  note one = wrote_one [OF assms(1), where k = "routeKey rid" and P = present and f = "\<lambda>_. Some (routeItem r)" and db = db1]
  have "run_amid c (dy_update now rid p) [id, revoke] db = (Inr r, bumped c (wrote c ws db1))"
    using one(1) kept
    by (simp add: dy_update_def amid_get_route [where f = id, simplified, OF assms(2,3)] Let_def r_def [symmetric] ws_def [symmetric] amid_commit_or
        db1_def [symmetric] run_alone_bind run_bump [OF assms(1)])
       (simp add: ws_def put_def)
  moreover obtain n where "dy_get c (bumped c (wrote c ws db1)) = (dy_get c (wrote c ws db1))(epochKey := Some (IEpoch n))"
    using bumped_get [OF assms(1)] by blast
  ultimately show ?thesis using one(2) [OF kept] by (simp add: ws_def put_def routeItem_def r_def)
qed

text \<open>A credential's revocation that has read the grant before it was revoked makes it ready again.\<close>

lemma credential_revocation_undoes_grant_revocation:
  "let revoke = sample_revoke;
       db = snd (run_amid table_client (dy_revokeAccessGrantCredential 6 ''g'' ''c1'') [id, revoke] sample_table)
   in case dy_get table_client (revoke sample_table) (accessGrantKey ''g'') of
        Some (IGrant i) \<Rightarrow> gi_status i = GrantRevoked
          \<and> (case dy_get table_client db (accessGrantKey ''g'') of Some (IGrant j) \<Rightarrow> gi_status j = GrantReady | _ \<Rightarrow> False)
      | _ \<Rightarrow> False"
  by code_simp

text \<open>A second revocation without termination takes back the order to terminate.\<close>

lemma second_revocation_clears_order:
  "let once = sample_revoke sample_table;
       twice = snd (dynamo_call table_client sample_hash (DoRevokeGrant 7 ''g'' False) once)
   in fst (dynamo_call table_client sample_hash (DoShouldTerminate ''r'' (Some ''g'') None) once) = Inr (AnsBool True)
      \<and> fst (dynamo_call table_client sample_hash (DoShouldTerminate ''r'' (Some ''g'') None) twice) = Inr (AnsBool False)"
  by code_simp

text \<open>Rotating an already revoked credential issues a new one.\<close>

lemma revoked_credential_rotates:
  "let db = snd (dynamo_call table_client sample_hash (DoRevokeCredential 1 ''g'' ''c1'') sample_table);
       s = snd (memory_call sample_hash (DoCreateGrant ''salt'' 0 ''g'' ''r'' ''owner'' ''c1'' ''secret'' Managed None None)
             (snd (memory_call sample_hash (DoCreateRoute 0 ''r'' sample_profile) empty_store)));
       s = snd (memory_call sample_hash (DoRevokeCredential 1 ''g'' ''c1'') s);
       again = DoRotate ''pepper'' 2 ''g'' ''c1'' ''c2'' ''next'' False
   in (case fst (dynamo_call table_client sample_hash again db) of Inr (AnsGrant g) \<Rightarrow> map cred_id (credentials g) = [''c1'', ''c2''] | _ \<Rightarrow> False)
      \<and> fst (memory_call sample_hash again s) = Inl True"
  by code_simp

end
