(* ===== verification/Dynamo_Runtime.thy ===== *)
theory Dynamo_Runtime
  imports Dynamo_Races Deployment_Drain
begin

text \<open>
  \<open>src/dynamo-runtime-state-repository.ts\<close>: active tunnels with their load leases, capacity circuits under a lock, and
  deployment drains, as programs over the table. A tunnel is counted through leases, one per provider, endpoint and session
  it loads, written and removed in the tunnel's own transactions.
\<close>

subsection \<open>Tunnels and their leases\<close>

definition activeLoadLeaseKeys :: "ActiveTunnel \<Rightarrow> item_key list" where
  "activeLoadLeaseKeys t =
     [(''ACTIVE_LOAD#PROVIDER#'' @ tun_provider t, tun_id t)]
     @ (case tun_endpointId t of None \<Rightarrow> [] | Some e \<Rightarrow> [(''ACTIVE_LOAD#ENDPOINT#'' @ tun_provider t @ ''#'' @ e, tun_id t)])
     @ (case tun_sessionId t of None \<Rightarrow> [] | Some i \<Rightarrow> [(''ACTIVE_LOAD#SESSION#'' @ i, tun_id t)])"

definition activeTunnelItem :: "ActiveTunnel \<Rightarrow> ActiveTunnelItem" where
  "activeTunnelItem t =
     \<lparr>ti_entity = shardedEntity ''active_tunnel'' (tun_id t), ti_createdAt = startedAt t,
      ti_gsi = Some (''DEPLOYMENT#'' @ deploymentId t, startedAt t, tun_id t),
      ti_expiresAtSeconds = ceil_seconds (tun_expiresAt t), ti_tunnel = t\<rparr>"

definition lease_item :: "ActiveTunnel \<Rightarrow> item" where
  "lease_item t = ILease \<lparr>le_createdAt = startedAt t, le_expiresAtSeconds = ceil_seconds (tun_expiresAt t)\<rparr>"

definition dy_registerActiveTunnel :: "ActiveTunnel \<Rightarrow> unit dyn" where
  "dy_registerActiveTunnel t =
     commit_or transaction_cancelled
       (put (tunnelKey (tun_id t)) (ITunnel (activeTunnelItem t)) absent # map (\<lambda>k. put k (lease_item t) absent) (activeLoadLeaseKeys t))"

definition beat_item :: "timestamp \<Rightarrow> timestamp \<Rightarrow> item option \<Rightarrow> item option" where
  "beat_item beaten expires v =
     (case v of
        Some (ITunnel i) \<Rightarrow> Some (ITunnel (i\<lparr>ti_expiresAtSeconds := ceil_seconds expires,
          ti_tunnel := (ti_tunnel i)\<lparr>lastHeartbeatAt := beaten, tun_expiresAt := expires\<rparr>\<rparr>))
      | _ \<Rightarrow> v)"

definition set_lease_ttl :: "int \<Rightarrow> item option \<Rightarrow> item option" where
  "set_lease_ttl ttl v = (case v of Some (ILease l) \<Rightarrow> Some (ILease (l\<lparr>le_expiresAtSeconds := ttl\<rparr>)) | _ \<Rightarrow> v)"

text \<open>A heartbeat whose transaction is refused, because the tunnel is gone or being removed, is ignored.\<close>

definition dy_heartbeatActiveTunnel :: "string \<Rightarrow> timestamp \<Rightarrow> timestamp \<Rightarrow> unit dyn" where
  "dy_heartbeatActiveTunnel tid beaten expires =
     GetItem (tunnelKey tid) (\<lambda>v.
       case v of
         None \<Rightarrow> dyn_return ()
       | Some (ITunnel i) \<Rightarrow>
           Commit (Write (tunnelKey tid) present (beat_item beaten expires)
                   # map (\<lambda>k. Write k present (set_lease_ttl (ceil_seconds expires))) (activeLoadLeaseKeys (ti_tunnel i)))
             (\<lambda>_. dyn_return ())
       | Some _ \<Rightarrow> dyn_throw wrong_item)"

text \<open>Removing hides the tunnel from its deployment and lets it expire; an \<open>Update\<close> creates the item if it has vanished meanwhile.\<close>

definition expire_item :: "timestamp \<Rightarrow> item option \<Rightarrow> item option" where
  "expire_item now v =
     (case v of
        Some (ITunnel i) \<Rightarrow> Some (ITunnel (i\<lparr>ti_gsi := None, ti_expiresAtSeconds := now div 1000 - 1\<rparr>))
      | None \<Rightarrow> Some (IExpiring (now div 1000 - 1))
      | _ \<Rightarrow> v)"

definition dy_removeActiveTunnel :: "timestamp \<Rightarrow> string \<Rightarrow> unit dyn" where
  "dy_removeActiveTunnel now tid =
     GetItem (tunnelKey tid) (\<lambda>v.
       case v of
         None \<Rightarrow> dyn_return ()
       | Some (ITunnel i) \<Rightarrow>
           commit_or transaction_cancelled
             (Write (tunnelKey tid) (\<lambda>_. True) (expire_item now)
              # map (\<lambda>k. Write k (\<lambda>_. True) (\<lambda>_. None)) (activeLoadLeaseKeys (ti_tunnel i)))
       | Some _ \<Rightarrow> dyn_throw wrong_item)"

fun item_ttl :: "item \<Rightarrow> int option" where
  "item_ttl (ILookup l) = Some (cl_expiresAtSeconds l)"
| "item_ttl (ITunnel i) = Some (ti_expiresAtSeconds i)"
| "item_ttl (ILease l) = Some (le_expiresAtSeconds l)"
| "item_ttl (ICircuit i) = Some (ci_expiresAtSeconds i)"
| "item_ttl (ILock l) = Some (lk_expiresAtSeconds l)"
| "item_ttl (IExpiring n) = Some n"
| "item_ttl _ = None"

definition countActiveLoad :: "timestamp \<Rightarrow> string \<Rightarrow> nat dyn" where
  "countActiveLoad now pk =
     QueryAll (ByPartition pk) (\<lambda>items.
       dyn_return (length (filter (\<lambda>(k, it). case item_ttl it of None \<Rightarrow> False | Some ttl \<Rightarrow> now div 1000 < ttl) items)))"

primrec dyn_map :: "('x \<Rightarrow> 'y dyn) \<Rightarrow> 'x list \<Rightarrow> 'y list dyn" where
  "dyn_map f [] = dyn_return []"
| "dyn_map f (x # xs) = dyn_bind (f x) (\<lambda>y. dyn_bind (dyn_map f xs) (\<lambda>ys. dyn_return (y # ys)))"

definition dy_getActiveConnectionCounts ::
    "timestamp \<Rightarrow> ProviderId list \<Rightarrow> string list \<Rightarrow> string list \<Rightarrow>
     ((ProviderId, nat) js_map \<times> (string, nat) js_map \<times> (string, nat) js_map) dyn" where
  "dy_getActiveConnectionCounts now providers endpointIds sessionIds =
     (let endpoint_pk = (\<lambda>e. case providers of [p] \<Rightarrow> ''ACTIVE_LOAD#ENDPOINT#'' @ p @ ''#'' @ e | _ \<Rightarrow> ''ACTIVE_LOAD#ENDPOINT#'' @ e);
          counted = (\<lambda>pk x. dyn_bind (countActiveLoad now (pk x)) (\<lambda>n. dyn_return (x, n)))
      in dyn_bind (dyn_map (counted (\<lambda>p. ''ACTIVE_LOAD#PROVIDER#'' @ p)) providers) (\<lambda>pc.
         dyn_bind (dyn_map (counted endpoint_pk) endpointIds) (\<lambda>ec.
         dyn_bind (dyn_map (counted (\<lambda>i. ''ACTIVE_LOAD#SESSION#'' @ i)) sessionIds) (\<lambda>sc.
           dyn_return (js_of_entries pc, js_of_entries ec, js_of_entries sc)))))"

definition dy_claimActiveTunnelSlot ::
    "timestamp \<Rightarrow> ProviderId \<Rightarrow> string list \<Rightarrow> ((string, nat) js_map \<Rightarrow> string result) \<Rightarrow> (string \<Rightarrow> ActiveTunnel) \<Rightarrow>
     (ActiveTunnel \<times> nat) dyn" where
  "dy_claimActiveTunnelSlot now provider endpointIds selectEndpoint createTunnel =
     (if endpointIds = [] then dyn_throw (throw_error ''no_slot_endpointIds'')
      else dyn_bind (dy_getActiveConnectionCounts now [provider] endpointIds []) (\<lambda>counts.
           let loads = fst (snd counts)
           in case selectEndpoint loads of
                Inl e \<Rightarrow> dyn_throw e
              | Inr endpointId \<Rightarrow>
                  if \<not> has endpointIds endpointId then dyn_throw (throw_error ''invalid_slot_selection'')
                  else let t = createTunnel endpointId
                       in dyn_bind (dy_registerActiveTunnel t) (\<lambda>_.
                            dyn_return (t, (case js_get loads endpointId of None \<Rightarrow> 0 | Some n \<Rightarrow> n) + 1))))"

definition tunnels_of :: "timestamp \<Rightarrow> (item_key \<times> item) list \<Rightarrow> ActiveTunnel list" where
  "tunnels_of now items =
     List.map_filter (\<lambda>(k, it). case it of ITunnel i \<Rightarrow> if now < tun_expiresAt (ti_tunnel i) then Some (ti_tunnel i) else None | _ \<Rightarrow> None) items"

definition dy_listActiveTunnels :: "timestamp \<Rightarrow> string \<Rightarrow> ActiveTunnel list dyn" where
  "dy_listActiveTunnels now did = QueryAll (ByOwner (''DEPLOYMENT#'' @ did)) (\<lambda>items. dyn_return (tunnels_of now items))"

definition dy_listAllActiveTunnels :: "timestamp \<Rightarrow> ActiveTunnel list dyn" where
  "dy_listAllActiveTunnels now =
     dyn_bind (dyn_map (\<lambda>e. QueryAll (ByEntity e) dyn_return) (entityShards ''active_tunnel''))
       (\<lambda>shards. dyn_return (tunnels_of now (concat shards)))"

subsection \<open>Circuits under a lock\<close>

primrec dyn_finally :: "'a dyn \<Rightarrow> unit dyn \<Rightarrow> 'a dyn" where
  "dyn_finally (Done r) q = dyn_bind q (\<lambda>_. Done r)"
| "dyn_finally (GetItem k f) q = GetItem k (\<lambda>v. dyn_finally (f v) q)"
| "dyn_finally (Commit ws f) q = Commit ws (\<lambda>v. dyn_finally (f v) q)"
| "dyn_finally (QueryAll k f) q = QueryAll k (\<lambda>v. dyn_finally (f v) q)"

definition circuitLockKey :: "ProviderId \<Rightarrow> string \<Rightarrow> item_key" where
  "circuitLockKey provider candidateKey = (fst (capacity_circuit_key provider candidateKey), ''LOCK'')"

definition lock_free :: "timestamp \<Rightarrow> item option \<Rightarrow> bool" where
  "lock_free now v \<longleftrightarrow>
     (case v of None \<Rightarrow> True | Some it \<Rightarrow> (case item_ttl it of None \<Rightarrow> False | Some ttl \<Rightarrow> ttl < now div 1000))"

text \<open>
  The loop that takes the lock, over the readings of the clock at its attempts, 25 ms and more apart. \<open>still_waiting\<close> marks
  readings used up before the deadline.
\<close>

definition still_waiting :: exn where
  "still_waiting = throw_error ''still waiting for the lock''"

primrec take_lock :: "item_key \<Rightarrow> string \<Rightarrow> timestamp \<Rightarrow> timestamp list \<Rightarrow> unit dyn" where
  "take_lock key owner deadline [] = dyn_throw still_waiting"
| "take_lock key owner deadline (now # later) =
     Commit [put key (ILock \<lparr>lk_owner = owner, lk_expiresAtSeconds = now div 1000 + 10\<rparr>) (lock_free now)] (\<lambda>ok.
       if ok then dyn_return () else if deadline \<le> now then dyn_throw conditional_failed else take_lock key owner deadline later)"

definition release_lock :: "item_key \<Rightarrow> string \<Rightarrow> unit dyn" where
  "release_lock key owner =
     Commit [Write key (\<lambda>v. case v of Some (ILock l) \<Rightarrow> lk_owner l = owner | _ \<Rightarrow> False) (\<lambda>_. None)] (\<lambda>_. dyn_return ())"

definition withCapacityCircuitLock :: "timestamp \<Rightarrow> timestamp list \<Rightarrow> string \<Rightarrow> ProviderId \<Rightarrow> string \<Rightarrow> 'a dyn \<Rightarrow> 'a dyn" where
  "withCapacityCircuitLock start readings owner provider candidateKey action =
     (let key = circuitLockKey provider candidateKey
      in dyn_bind (take_lock key owner (start + 5000) readings) (\<lambda>_. dyn_finally action (release_lock key owner)))"

definition dy_getCapacityCircuit :: "ProviderId \<Rightarrow> string \<Rightarrow> timestamp \<Rightarrow> CapacityCircuitState option dyn" where
  "dy_getCapacityCircuit provider candidateKey now =
     GetItem (capacity_circuit_key provider candidateKey) (\<lambda>v.
       case v of
         None \<Rightarrow> dyn_return None
       | Some (ICircuit i) \<Rightarrow>
           if now < circ_expiresAt (ci_state i) then dyn_return (Some (ci_state i))
           else Commit [Write (capacity_circuit_key provider candidateKey) (\<lambda>_. True) (\<lambda>_. None)] (\<lambda>_. dyn_return None)
       | Some _ \<Rightarrow> dyn_throw wrong_item)"

definition saveCapacityCircuit :: "CapacityCircuitState \<Rightarrow> unit dyn" where
  "saveCapacityCircuit st =
     commit_or conditional_failed
       [put (capacity_circuit_key (circ_provider st) (circ_candidateKey st))
          (ICircuit \<lparr>ci_createdAt = circ_updatedAt st, ci_expiresAtSeconds = ceil_seconds (circ_expiresAt st), ci_state = st\<rparr>) (\<lambda>_. True)]"

definition claim_circuit :: "ProviderId \<Rightarrow> string \<Rightarrow> timestamp \<Rightarrow> (bool \<times> CapacityCircuitState option) dyn" where
  "claim_circuit provider candidateKey now =
     dyn_bind (dy_getCapacityCircuit provider candidateKey now) (\<lambda>previous.
     let claim = claimCapacityCircuitProbe previous now ROUTING_POLICY
     in case snd claim of
          None \<Rightarrow> dyn_return claim
        | Some st \<Rightarrow>
            if fst claim \<and> Some st \<noteq> previous then dyn_bind (saveCapacityCircuit st) (\<lambda>_. dyn_return claim) else dyn_return claim)"

definition dy_claimCapacityCircuit ::
    "timestamp \<Rightarrow> timestamp list \<Rightarrow> string \<Rightarrow> ProviderId \<Rightarrow> string \<Rightarrow> timestamp \<Rightarrow> (bool \<times> CapacityCircuitState option) dyn" where
  "dy_claimCapacityCircuit start readings owner provider candidateKey now =
     withCapacityCircuitLock start readings owner provider candidateKey (claim_circuit provider candidateKey now)"

definition record_circuit :: "ProviderId \<Rightarrow> string \<Rightarrow> CapacityCircuitReason \<Rightarrow> timestamp \<Rightarrow> CapacityCircuitState dyn" where
  "record_circuit provider candidateKey reason now =
     dyn_bind (dy_getCapacityCircuit provider candidateKey now) (\<lambda>previous.
     let st = recordCapacityCircuitFailure previous provider candidateKey reason now ROUTING_POLICY
     in dyn_bind (saveCapacityCircuit st) (\<lambda>_. dyn_return st))"

definition dy_recordCapacityCircuitFailure ::
    "timestamp \<Rightarrow> timestamp list \<Rightarrow> string \<Rightarrow> ProviderId \<Rightarrow> string \<Rightarrow> CapacityCircuitReason \<Rightarrow> timestamp \<Rightarrow> CapacityCircuitState dyn" where
  "dy_recordCapacityCircuitFailure start readings owner provider candidateKey reason now =
     withCapacityCircuitLock start readings owner provider candidateKey (record_circuit provider candidateKey reason now)"

definition dy_resetCapacityCircuit :: "ProviderId \<Rightarrow> string \<Rightarrow> unit dyn" where
  "dy_resetCapacityCircuit provider candidateKey =
     commit_or conditional_failed [Write (capacity_circuit_key provider candidateKey) (\<lambda>_. True) (\<lambda>_. None)]"

definition dy_listCapacityCircuits :: "timestamp \<Rightarrow> CapacityCircuitState list dyn" where
  "dy_listCapacityCircuits now =
     QueryAll (ByEntity ''capacity_circuit'') (\<lambda>items. dyn_return (List.map_filter (\<lambda>(k, it).
       case it of ICircuit i \<Rightarrow> if now < circ_expiresAt (ci_state i) then Some (ci_state i) else None | _ \<Rightarrow> None) items))"

subsection \<open>Drains\<close>

definition dy_getDeploymentDrain :: "string \<Rightarrow> DeploymentDrainState option dyn" where
  "dy_getDeploymentDrain did =
     GetItem (drainKey did) (\<lambda>v. case v of None \<Rightarrow> dyn_return None | Some (IDrain i) \<Rightarrow> dyn_return (Some (di_state i)) | Some _ \<Rightarrow> dyn_throw wrong_item)"

definition dy_saveDeploymentDrain :: "DeploymentDrainState \<Rightarrow> unit dyn" where
  "dy_saveDeploymentDrain d =
     commit_or conditional_failed [put (drainKey (drain_deploymentId d)) (IDrain \<lparr>di_createdAt = drain_startedAt d, di_state = d\<rparr>) (\<lambda>_. True)]"

definition dy_shouldTerminateDeployment :: "string \<Rightarrow> bool dyn" where
  "dy_shouldTerminateDeployment did =
     dyn_bind (dy_getDeploymentDrain did) (\<lambda>d. dyn_return (case d of None \<Rightarrow> False | Some d \<Rightarrow> terminateRemaining d))"

end
