(* ===== verification/Dynamo_Loads.thy ===== *)
theory Dynamo_Loads
  imports Dynamo_Runtime
begin

text \<open>
  What the runtime-state repository of production counts: after any sequence of registrations, heartbeats and removals the
  leases are exactly those of the tunnels the in-memory store holds, so the loads by which slots are chosen agree.
\<close>

subsection \<open>The relation\<close>

definition leased :: "ActiveTunnel option \<Rightarrow> string \<Rightarrow> item option" where
  "leased v pk =
     (case v of None \<Rightarrow> None | Some t \<Rightarrow> if (pk, tun_id t) \<in> set (activeLoadLeaseKeys t) then Some (lease_item t) else None)"

definition is_load :: "string \<Rightarrow> bool" where
  "is_load pk \<longleftrightarrow> take 12 pk = ''ACTIVE_LOAD#''"

definition tunnel_stored :: "item option \<Rightarrow> ActiveTunnel option \<Rightarrow> bool" where
  "tunnel_stored v m \<longleftrightarrow>
     (case m of
        Some t \<Rightarrow> \<exists>i. v = Some (ITunnel i) \<and> ti_tunnel i = t
      | None \<Rightarrow> (case v of None \<Rightarrow> True | Some (ITunnel i) \<Rightarrow> ti_gsi i = None | _ \<Rightarrow> False))"

definition loads_match :: "'db Dynamo \<Rightarrow> 'db \<Rightarrow> (string \<Rightarrow> ActiveTunnel option) \<Rightarrow> bool" where
  "loads_match c db m \<longleftrightarrow>
     (\<forall>tid. case m tid of None \<Rightarrow> True | Some t \<Rightarrow> tun_id t = tid)
     \<and> (\<forall>tid. tunnel_stored (dy_get c db (tunnelKey tid)) (m tid))
     \<and> (\<forall>pk tid. is_load pk \<longrightarrow> dy_get c db (pk, tid) = leased (m tid) pk)
     \<and> (\<forall>tid i. dy_get c db (tunnelKey tid) = Some (ITunnel i) \<longrightarrow> tun_id (ti_tunnel i) = tid)"

lemma lease_keys_load: "(pk, i) \<in> set (activeLoadLeaseKeys t) \<Longrightarrow> is_load pk \<and> i = tun_id t"
  by (auto simp: activeLoadLeaseKeys_def is_load_def split: option.splits)

lemma tunnel_key_not_load [simp]: "\<not> is_load (fst (tunnelKey tid))"
  by (simp add: is_load_def tunnelKey_def)

lemma lease_keys_distinct: "distinct (activeLoadLeaseKeys t)"
  by (simp add: activeLoadLeaseKeys_def split: option.split)

lemma tunnel_key_no_lease: "tunnelKey tid \<notin> set (activeLoadLeaseKeys t)"
  using lease_keys_load [of "fst (tunnelKey tid)" "snd (tunnelKey tid)" t] by (metis prod.collapse tunnel_key_not_load)

text \<open>The transactions on a tunnel and its leases: the tunnel's item and all lease items change together.\<close>

definition tunnel_writes ::
    "string \<Rightarrow> (item option \<Rightarrow> bool) \<Rightarrow> (item option \<Rightarrow> item option) \<Rightarrow> ActiveTunnel \<Rightarrow> (item option \<Rightarrow> bool) \<Rightarrow>
     (item option \<Rightarrow> item option) \<Rightarrow> item_write list" where
  "tunnel_writes tid P f t Q g = Write (tunnelKey tid) P f # map (\<lambda>k. Write k Q g) (activeLoadLeaseKeys t)"

lemma wrote_tunnel:
  assumes "dynamo_ok c"
  shows "fst (dy_write c (tunnel_writes tid P f t Q g) db) \<longleftrightarrow>
      P (dy_get c db (tunnelKey tid)) \<and> list_all (\<lambda>k. Q (dy_get c db k)) (activeLoadLeaseKeys t)" (is ?fst)
    "fst (dy_write c (tunnel_writes tid P f t Q g) db) \<Longrightarrow> dy_get c (wrote c (tunnel_writes tid P f t Q g) db) k =
       (if k = tunnelKey tid then f (dy_get c db k) else if k \<in> set (activeLoadLeaseKeys t) then g (dy_get c db k) else dy_get c db k)"
    "\<not> fst (dy_write c (tunnel_writes tid P f t Q g) db) \<Longrightarrow> dy_get c (wrote c (tunnel_writes tid P f t Q g) db) = dy_get c db"
proof -
  let ?ws = "tunnel_writes tid P f t Q g"
  have distinct: "distinct (map w_key ?ws)"
    using lease_keys_distinct [of t] tunnel_key_no_lease [of tid t] by (simp add: tunnel_writes_def o_def)
  note wrote = wrote [OF assms(1) distinct, of db]
  show ?fst unfolding wrote(1) by (simp add: tunnel_writes_def list_all_iff)
  show "dy_get c (wrote c ?ws db) = dy_get c db" if "\<not> fst (dy_write c ?ws db)" using that wrote by simp
  assume "fst (dy_write c ?ws db)"
  then have applied: "dy_get c (wrote c ?ws db) k = applied ?ws (dy_get c db) k" using wrote by simp
  have find: "List.find (\<lambda>w. w_key w = k) (map (\<lambda>k. Write k Q g) ks) = (if k \<in> set ks then Some (Write k Q g) else None)" for ks
    by (induction ks) auto
  show "dy_get c (wrote c ?ws db) k =
       (if k = tunnelKey tid then f (dy_get c db k) else if k \<in> set (activeLoadLeaseKeys t) then g (dy_get c db k) else dy_get c db k)"
    unfolding applied by (auto simp: applied_def tunnel_writes_def find)
qed

text \<open>A transaction on one tunnel keeps the relation, with the tunnel's new state.\<close>

lemma loads_match_write:
  assumes "loads_match c db m" "tun_id t = tid"
    and "\<And>k. dy_get c db' k = (if k = tunnelKey tid then v
              else if k \<in> set (activeLoadLeaseKeys t) then map_option lease_item t' else dy_get c db k)"
    and "case t' of None \<Rightarrow> True | Some x \<Rightarrow> activeLoadLeaseKeys x = activeLoadLeaseKeys t \<and> tun_id x = tid"
    and "case m tid of None \<Rightarrow> True | Some x \<Rightarrow> activeLoadLeaseKeys x = activeLoadLeaseKeys t"
    and "tunnel_stored v t'" "\<And>i. v = Some (ITunnel i) \<Longrightarrow> tun_id (ti_tunnel i) = tid"
  shows "loads_match c db' (m(tid := t'))"
proof -
  have old: "case m x of None \<Rightarrow> True | Some t \<Rightarrow> tun_id t = x" "tunnel_stored (dy_get c db (tunnelKey x)) (m x)"
      "is_load pk \<Longrightarrow> dy_get c db (pk, x) = leased (m x) pk"
      "dy_get c db (tunnelKey x) = Some (ITunnel i) \<Longrightarrow> tun_id (ti_tunnel i) = x" for x pk i
    using assms(1) unfolding loads_match_def by blast+
  have leases: "(pk, x) \<in> set (activeLoadLeaseKeys t) \<Longrightarrow> x = tid" for pk x using lease_keys_load [of pk x t] assms(2) by simp
  have "dy_get c db' (pk, x) = leased ((m(tid := t')) x) pk" if pk: "is_load pk" for pk x
  proof -
    have ne: "(pk, x) \<noteq> tunnelKey y" for y using pk tunnel_key_not_load [of y] by (cases "tunnelKey y") auto
    show ?thesis
    proof (cases "x = tid")
      case False
      then have "(pk, x) \<notin> set (activeLoadLeaseKeys t)" using leases by blast
      then show ?thesis using assms(3) ne old(3) [OF pk] False by simp
    next
      case True
      have "leased (m tid) pk = None" if "(pk, tid) \<notin> set (activeLoadLeaseKeys t)"
        using assms(5) old(1) [of tid] that by (cases "m tid") (simp_all add: leased_def)
      then show ?thesis
        using assms(3) ne old(3) [OF pk, of tid] assms(4) True by (cases t') (auto simp: leased_def)
    qed
  qed
  moreover have "tunnelKey x \<notin> set (activeLoadLeaseKeys t)" for x by (rule tunnel_key_no_lease)
  ultimately show ?thesis
    unfolding loads_match_def using old assms(3,4,6,7) by (auto split: option.splits)
qed

subsection \<open>Registering, beating, removing\<close>

lemma dy_registerActiveTunnel_alt:
  "dy_registerActiveTunnel t = commit_or transaction_cancelled
     (tunnel_writes (tun_id t) absent (\<lambda>_. Some (ITunnel (activeTunnelItem t))) t absent (\<lambda>_. Some (lease_item t)))"
  by (simp add: dy_registerActiveTunnel_def tunnel_writes_def put_def)

lemma loads_matchD:
  assumes "loads_match c db m"
  shows "m tid = Some t \<Longrightarrow> tun_id t = tid \<and> (\<exists>i. dy_get c db (tunnelKey tid) = Some (ITunnel i) \<and> ti_tunnel i = t)"
    "m tid = None \<Longrightarrow> dy_get c db (tunnelKey tid) = None
       \<or> (\<exists>i. dy_get c db (tunnelKey tid) = Some (ITunnel i) \<and> ti_gsi i = None \<and> tun_id (ti_tunnel i) = tid)"
    "k \<in> set (activeLoadLeaseKeys t) \<Longrightarrow> dy_get c db k = leased (m (tun_id t)) (fst k)"
proof -
  have old: "case m tid of None \<Rightarrow> True | Some t \<Rightarrow> tun_id t = tid" "tunnel_stored (dy_get c db (tunnelKey tid)) (m tid)"
      "\<And>i. dy_get c db (tunnelKey tid) = Some (ITunnel i) \<Longrightarrow> tun_id (ti_tunnel i) = tid"
    using assms unfolding loads_match_def by blast+
  show "tun_id t = tid \<and> (\<exists>i. dy_get c db (tunnelKey tid) = Some (ITunnel i) \<and> ti_tunnel i = t)" if "m tid = Some t"
    using old(1,2) that by (simp add: tunnel_stored_def)
  show "dy_get c db (tunnelKey tid) = None
       \<or> (\<exists>i. dy_get c db (tunnelKey tid) = Some (ITunnel i) \<and> ti_gsi i = None \<and> tun_id (ti_tunnel i) = tid)" if "m tid = None"
    using old(2,3) that by (auto simp: tunnel_stored_def split: option.splits item.splits)
  show "dy_get c db k = leased (m (tun_id t)) (fst k)" if "k \<in> set (activeLoadLeaseKeys t)"
    using assms lease_keys_load [of "fst k" "snd k" t] that unfolding loads_match_def by (cases k) auto
qed

lemma run_register:
  assumes "dynamo_ok c" "loads_match c db m"
  shows "dy_get c db (tunnelKey (tun_id t)) = None \<Longrightarrow>
      \<exists>db'. run_alone c (dy_registerActiveTunnel t) db = (Inr (), db') \<and> loads_match c db' (m(tun_id t := Some t))
        \<and> (\<forall>x. x \<noteq> tun_id t \<longrightarrow> dy_get c db' (tunnelKey x) = dy_get c db (tunnelKey x))"
    "dy_get c db (tunnelKey (tun_id t)) \<noteq> None \<Longrightarrow>
      \<exists>db'. run_alone c (dy_registerActiveTunnel t) db = (Inl transaction_cancelled, db') \<and> dy_get c db' = dy_get c db"
proof -
  let ?ws = "tunnel_writes (tun_id t) absent (\<lambda>_. Some (ITunnel (activeTunnelItem t))) t absent (\<lambda>_. Some (lease_item t))"
  note wrote = wrote_tunnel [OF assms(1), where tid = "tun_id t" and P = absent and f = "\<lambda>_. Some (ITunnel (activeTunnelItem t))"
      and t = t and Q = absent and g = "\<lambda>_. Some (lease_item t)" and db = db]
  show "\<exists>db'. run_alone c (dy_registerActiveTunnel t) db = (Inr (), db') \<and> loads_match c db' (m(tun_id t := Some t))
        \<and> (\<forall>x. x \<noteq> tun_id t \<longrightarrow> dy_get c db' (tunnelKey x) = dy_get c db (tunnelKey x))"
    if free: "dy_get c db (tunnelKey (tun_id t)) = None"
  proof -
    have none: "m (tun_id t) = None" using loads_matchD(1) [OF assms(2), of "tun_id t"] free by (cases "m (tun_id t)") auto
    have "list_all (\<lambda>k. absent (dy_get c db k)) (activeLoadLeaseKeys t)"
      using loads_matchD(3) [OF assms(2)] none by (simp add: list_all_iff absent_def leased_def)
    then have ok: "fst (dy_write c ?ws db)" using wrote(1) free by (simp add: absent_def)
    have get: "dy_get c (wrote c ?ws db) k = (if k = tunnelKey (tun_id t) then Some (ITunnel (activeTunnelItem t))
        else if k \<in> set (activeLoadLeaseKeys t) then map_option lease_item (Some t) else dy_get c db k)" for k
      using wrote(2) [OF ok, of k] by simp
    have "loads_match c (wrote c ?ws db) (m(tun_id t := Some t))"
      by (rule loads_match_write [OF assms(2) refl get]) (simp_all add: none tunnel_stored_def activeTunnelItem_def)
    moreover have "dy_get c (wrote c ?ws db) (tunnelKey x) = dy_get c db (tunnelKey x)" if "x \<noteq> tun_id t" for x
      using wrote(2) [OF ok] that tunnel_key_no_lease [of x t] by simp
    ultimately show ?thesis using ok by (simp add: dy_registerActiveTunnel_alt)
  qed
  show "\<exists>db'. run_alone c (dy_registerActiveTunnel t) db = (Inl transaction_cancelled, db') \<and> dy_get c db' = dy_get c db"
    if "dy_get c db (tunnelKey (tun_id t)) \<noteq> None"
    using wrote(1,3) that by (simp add: dy_registerActiveTunnel_alt absent_def)
qed

lemma lease_keys_beat [simp]: "activeLoadLeaseKeys (t\<lparr>lastHeartbeatAt := b, tun_expiresAt := e\<rparr>) = activeLoadLeaseKeys t"
  by (simp add: activeLoadLeaseKeys_def split: option.split)

lemma run_heartbeat:
  assumes "dynamo_ok c" "loads_match c db m"
  shows "\<exists>db'. run_alone c (dy_heartbeatActiveTunnel tid b e) db = (Inr (), db')
      \<and> loads_match c db' (m(tid := map_option (\<lambda>t. t\<lparr>lastHeartbeatAt := b, tun_expiresAt := e\<rparr>) (m tid)))
      \<and> (\<forall>x. (dy_get c db' (tunnelKey x) = None) = (dy_get c db (tunnelKey x) = None))"
proof (cases "dy_get c db (tunnelKey tid)")
  case None
  then have "m tid = None" using loads_matchD(1) [OF assms(2), of tid] by (cases "m tid") auto
  then have "m(tid := map_option (\<lambda>t. t\<lparr>lastHeartbeatAt := b, tun_expiresAt := e\<rparr>) (m tid)) = m" by auto
  then show ?thesis using None assms(2) by (simp add: dy_heartbeatActiveTunnel_def)
next
  case (Some v)
  obtain i where i: "v = ITunnel i" "tun_id (ti_tunnel i) = tid"
    using loads_matchD(1,2) [OF assms(2), of tid] Some by (cases "m tid") auto
  define t where "t = ti_tunnel i"
  define t' where "t' = t\<lparr>lastHeartbeatAt := b, tun_expiresAt := e\<rparr>"
  define ws where "ws = tunnel_writes tid present (beat_item b e) t present (set_lease_ttl (ceil_seconds e))"
  note wrote = wrote_tunnel [OF assms(1), where tid = tid and P = present and f = "beat_item b e"
      and t = t and Q = present and g = "set_lease_ttl (ceil_seconds e)" and db = db, folded ws_def]
  have run: "run_alone c (dy_heartbeatActiveTunnel tid b e) db = (Inr (), wrote c ws db)"
    by (simp add: dy_heartbeatActiveTunnel_def Some i(1) ws_def tunnel_writes_def t_def wrote_def split: prod.split)
  have id: "tun_id t = tid" by (simp add: t_def i)
  show ?thesis
  proof (cases "m tid")
    case None
    have "\<not> fst (dy_write c ws db)"
    proof -
      have first: "hd (activeLoadLeaseKeys t) \<in> set (activeLoadLeaseKeys t)" by (simp add: activeLoadLeaseKeys_def)
      moreover have "dy_get c db (hd (activeLoadLeaseKeys t)) = None"
        using loads_matchD(3) [OF assms(2) first] None by (simp add: id leased_def)
      ultimately show ?thesis unfolding wrote(1) list_all_iff present_def by blast
    qed
    then have same: "dy_get c (wrote c ws db) = dy_get c db" by (rule wrote(3))
    have "loads_match c (wrote c ws db) m" using assms(2) unfolding loads_match_def same .
    moreover have "m(tid := map_option (\<lambda>t. t\<lparr>lastHeartbeatAt := b, tun_expiresAt := e\<rparr>) (m tid)) = m" using None by auto
    ultimately show ?thesis using run same by simp
  next
    case (Some u)
    then have u: "u = t" using loads_matchD(1) [OF assms(2) Some] \<open>dy_get c db (tunnelKey tid) = Some v\<close> i by (auto simp: t_def)
    have lease: "dy_get c db k = Some (lease_item t)" if "k \<in> set (activeLoadLeaseKeys t)" for k
      using loads_matchD(3) [OF assms(2) that] that lease_keys_load [of "fst k" "snd k" t] Some u by (cases k) (auto simp: id leased_def)
    then have ok: "fst (dy_write c ws db)"
      unfolding wrote(1) list_all_iff using \<open>dy_get c db (tunnelKey tid) = Some v\<close> by (simp add: present_def)
    have get: "dy_get c (wrote c ws db) k = (if k = tunnelKey tid then beat_item b e (Some v)
        else if k \<in> set (activeLoadLeaseKeys t) then map_option lease_item (Some t') else dy_get c db k)" for k
      using wrote(2) [OF ok, of k] lease [of k] \<open>dy_get c db (tunnelKey tid) = Some v\<close>
      by (auto simp: set_lease_ttl_def lease_item_def t'_def)
    have "loads_match c (wrote c ws db) (m(tid := Some t'))"
      by (rule loads_match_write [OF assms(2) id get])
         (simp_all add: Some u t'_def id tunnel_stored_def beat_item_def i(1) t_def [symmetric])
    moreover have "(dy_get c (wrote c ws db) (tunnelKey x) = None) = (dy_get c db (tunnelKey x) = None)" for x
      using get [of "tunnelKey x"] tunnel_key_no_lease [of x t] \<open>dy_get c db (tunnelKey tid) = Some v\<close> by (auto simp: beat_item_def i(1))
    ultimately show ?thesis using run Some by (simp add: u t'_def)
  qed
qed

lemma run_remove:
  assumes "dynamo_ok c" "loads_match c db m"
  shows "\<exists>db'. run_alone c (dy_removeActiveTunnel now tid) db = (Inr (), db') \<and> loads_match c db' (m(tid := None))
      \<and> (\<forall>x. (dy_get c db' (tunnelKey x) = None) = (dy_get c db (tunnelKey x) = None))"
proof (cases "dy_get c db (tunnelKey tid)")
  case None
  then have "m tid = None" using loads_matchD(1) [OF assms(2), of tid] by (cases "m tid") auto
  then have "m(tid := None) = m" by auto
  then show ?thesis using None assms(2) by (simp add: dy_removeActiveTunnel_def)
next
  case (Some v)
  obtain i where i: "v = ITunnel i" "tun_id (ti_tunnel i) = tid"
    using loads_matchD(1,2) [OF assms(2), of tid] Some by (cases "m tid") auto
  define t where "t = ti_tunnel i"
  have id: "tun_id t = tid" by (simp add: t_def i)
  define ws where "ws = tunnel_writes tid (\<lambda>_. True) (expire_item now) t (\<lambda>_. True) (\<lambda>_. None)"
  note wrote = wrote_tunnel [OF assms(1), where tid = tid and P = "\<lambda>_. True" and f = "expire_item now"
      and t = t and Q = "\<lambda>_. True" and g = "\<lambda>_. None" and db = db, folded ws_def]
  have ok: "fst (dy_write c ws db)" unfolding wrote(1) by (simp add: list_all_iff)
  have run: "run_alone c (dy_removeActiveTunnel now tid) db = (Inr (), wrote c ws db)"
    using ok by (simp add: dy_removeActiveTunnel_def Some i(1) ws_def tunnel_writes_def t_def)
  have get: "dy_get c (wrote c ws db) k = (if k = tunnelKey tid then expire_item now (Some v)
      else if k \<in> set (activeLoadLeaseKeys t) then map_option lease_item None else dy_get c db k)" for k
    using wrote(2) [OF ok, of k] Some by auto
  have keys: "case m tid of None \<Rightarrow> True | Some x \<Rightarrow> activeLoadLeaseKeys x = activeLoadLeaseKeys t"
    using loads_matchD(1) [OF assms(2), of tid] Some i by (auto simp: t_def split: option.split)
  have "loads_match c (wrote c ws db) (m(tid := None))"
    by (rule loads_match_write [OF assms(2) id get _ keys]) (simp_all add: tunnel_stored_def expire_item_def i)
  moreover have "(dy_get c (wrote c ws db) (tunnelKey x) = None) = (dy_get c db (tunnelKey x) = None)" for x
    using get [of "tunnelKey x"] tunnel_key_no_lease [of x t] Some by (auto simp: expire_item_def i(1))
  ultimately show ?thesis using run by blast
qed

subsection \<open>Counting\<close>

text \<open>A lease counts until the second its tunnel expires in is over: every live tunnel counts, and none that expired a second ago.\<close>

definition lease_live :: "timestamp \<Rightarrow> ActiveTunnel \<Rightarrow> bool" where
  "lease_live now t \<longleftrightarrow> now div 1000 < ceil_seconds (tun_expiresAt t)"

lemma lease_live_bounds:
  "now < tun_expiresAt t \<Longrightarrow> lease_live now t"
  "lease_live now t \<Longrightarrow> now < tun_expiresAt t + 1000"
  by (simp_all add: lease_live_def ceil_seconds_def)

lemma run_count:
  assumes "dynamo_ok c" "loads_match c db m" "is_load pk"
  shows "run_alone c (countActiveLoad now pk) db =
    (Inr (card {tid. \<exists>t. m tid = Some t \<and> (pk, tid) \<in> set (activeLoadLeaseKeys t) \<and> lease_live now t}), db)"
proof -
  let ?P = "\<lambda>(k, it). case item_ttl it of None \<Rightarrow> False | Some ttl \<Rightarrow> now div 1000 < ttl"
  let ?items = "filter ?P (dy_query c db (ByPartition pk))"
  let ?A = "{tid. \<exists>t. m tid = Some t \<and> (pk, tid) \<in> set (activeLoadLeaseKeys t) \<and> lease_live now t}"
  have leases: "dy_get c db (pk, tid) = leased (m tid) pk" "case m tid of None \<Rightarrow> True | Some t \<Rightarrow> tun_id t = tid" for tid
    using assms(2,3) unfolding loads_match_def by blast+
  have entry: "(k, it) \<in> set ?items \<longleftrightarrow> dy_get c db k = Some it \<and> fst k = pk \<and> ?P (k, it)" for k it
    unfolding set_filter dynamo_query(2) [OF assms(1)] by simp
  have "fst ` set ?items = Pair pk ` ?A"
  proof (intro set_eqI iffI)
    fix k assume "k \<in> fst ` set ?items"
    then obtain x where x: "k = fst x" "x \<in> set ?items" by (rule imageE)
    define it where "it = snd x"
    have "(k, it) \<in> set ?items" unfolding x(1) it_def prod.collapse by (rule x(2))
    then have it: "dy_get c db (pk, snd k) = Some it" "k = (pk, snd k)" "?P (k, it)" unfolding entry by (cases k; simp)+
    then obtain t where t: "m (snd k) = Some t" "(pk, tun_id t) \<in> set (activeLoadLeaseKeys t)" "it = lease_item t"
      using leases(1) [of "snd k"] by (auto simp: leased_def split: option.splits if_splits)
    with it(3) leases(2) [of "snd k"] have "snd k \<in> ?A" by (auto simp: lease_item_def lease_live_def)
    with it(2) show "k \<in> Pair pk ` ?A" by blast
  next
    fix k assume "k \<in> Pair pk ` ?A"
    then obtain tid t where t: "k = (pk, tid)" "m tid = Some t" "(pk, tid) \<in> set (activeLoadLeaseKeys t)" "lease_live now t" by blast
    with leases [of tid] have "dy_get c db k = Some (lease_item t)" by (simp add: leased_def)
    with t have "(k, lease_item t) \<in> set ?items" unfolding entry by (simp add: lease_item_def lease_live_def)
    then show "k \<in> fst ` set ?items" by (rule rev_image_eqI) simp
  qed
  moreover have "distinct (map fst ?items)" by (rule distinct_map_filter) (rule dynamo_query(1) [OF assms(1)])
  then have "length ?items = card (fst ` set ?items)" using distinct_card [of "map fst ?items"] by simp
  moreover have "card (Pair pk ` ?A) = card ?A" by (rule card_image) (simp add: inj_on_def)
  ultimately show ?thesis by (simp add: countActiveLoad_def)
qed

text \<open>The same number, counted over the tunnels of the in-memory store.\<close>

lemma count_values:
  assumes "keyed tun_id ts"
  shows "card {tid. \<exists>t. js_get ts tid = Some t \<and> Q tid t} = length (filter (\<lambda>t. Q (tun_id t) t) (js_values ts))"
proof -
  have ids: "map tun_id (js_values ts) = js_keys ts"
  proof -
    have "tun_id v = k" if "(k, v) \<in> set ts" for k v using keyed_entry [OF assms that] by simp
    then show ?thesis unfolding js_values_def js_keys_def by (auto simp: case_prod_unfold)
  qed
  have "distinct (map tun_id (js_values ts))" using assms unfolding ids by (simp add: keyed_def js_wf_def js_keys_def)
  then have "distinct (map tun_id (filter (\<lambda>t. Q (tun_id t) t) (js_values ts)))" by (rule distinct_map_filter)
  from distinct_card [OF this]
  have "length (filter (\<lambda>t. Q (tun_id t) t) (js_values ts)) = card (tun_id ` {t \<in> set (js_values ts). Q (tun_id t) t})" by simp
  moreover have "tun_id ` {t \<in> set (js_values ts). Q (tun_id t) t} = {tid. \<exists>t. js_get ts tid = Some t \<and> Q tid t}"
  proof (intro set_eqI iffI)
    fix i assume "i \<in> tun_id ` {t \<in> set (js_values ts). Q (tun_id t) t}"
    then show "i \<in> {tid. \<exists>t. js_get ts tid = Some t \<and> Q tid t}" using keyed_values [OF assms] by blast
  next
    fix i assume "i \<in> {tid. \<exists>t. js_get ts tid = Some t \<and> Q tid t}"
    then obtain t where t: "js_get ts i = Some t" "Q i t" by blast
    then have "t \<in> set (js_values ts)" "tun_id t = i" using assms js_values_get [of ts] by (auto simp: keyed_def)
    with t(2) show "i \<in> tun_id ` {t \<in> set (js_values ts). Q (tun_id t) t}" by blast
  qed
  ultimately show ?thesis by simp
qed

datatype tunnel_call = TRegister ActiveTunnel | THeartbeat string timestamp timestamp | TRemove timestamp string

fun tunnel_memory :: "tunnel_call list \<Rightarrow> StoreState \<Rightarrow> StoreState" where
  "tunnel_memory [] s = s"
| "tunnel_memory (TRegister t # calls) s = tunnel_memory calls (snd (registerActiveTunnel t s))"
| "tunnel_memory (THeartbeat tid b e # calls) s = tunnel_memory calls (heartbeatActiveTunnel tid b e s)"
| "tunnel_memory (TRemove now tid # calls) s = tunnel_memory calls (removeActiveTunnel tid s)"

fun tunnel_dynamo :: "'db Dynamo \<Rightarrow> tunnel_call list \<Rightarrow> 'db \<Rightarrow> 'db" where
  "tunnel_dynamo c [] db = db"
| "tunnel_dynamo c (TRegister t # calls) db = tunnel_dynamo c calls (snd (run_alone c (dy_registerActiveTunnel t) db))"
| "tunnel_dynamo c (THeartbeat tid b e # calls) db = tunnel_dynamo c calls (snd (run_alone c (dy_heartbeatActiveTunnel tid b e) db))"
| "tunnel_dynamo c (TRemove now tid # calls) db = tunnel_dynamo c calls (snd (run_alone c (dy_removeActiveTunnel now tid) db))"

fun registered_ids :: "tunnel_call list \<Rightarrow> string list" where
  "registered_ids [] = []"
| "registered_ids (TRegister t # calls) = tun_id t # registered_ids calls"
| "registered_ids (_ # calls) = registered_ids calls"

lemma tunnels_follow:
  assumes "dynamo_ok c" "loads_match c db (js_get (st_tunnels s))" "keyed tun_id (st_tunnels s)" "distinct (registered_ids calls)"
    and "\<And>i. has (registered_ids calls) i \<Longrightarrow> dy_get c db (tunnelKey i) = None"
  shows "loads_match c (tunnel_dynamo c calls db) (js_get (st_tunnels (tunnel_memory calls s)))
    \<and> keyed tun_id (st_tunnels (tunnel_memory calls s))"
  using assms(2-)
proof (induction calls arbitrary: db s)
  case (Cons call calls)
  show ?case
  proof (cases call)
    case (TRegister t)
    have free: "dy_get c db (tunnelKey (tun_id t)) = None" using Cons.prems(4) [of "tun_id t"] TRegister by simp
    obtain db1 where db1: "run_alone c (dy_registerActiveTunnel t) db = (Inr (), db1)"
        "loads_match c db1 ((js_get (st_tunnels s))(tun_id t := Some t))"
        "\<forall>x. x \<noteq> tun_id t \<longrightarrow> dy_get c db1 (tunnelKey x) = dy_get c db (tunnelKey x)"
      using run_register(1) [OF assms(1) Cons.prems(1) free] by blast
    have "js_get (st_tunnels s) (tun_id t) = None"
      using loads_matchD(1) [OF Cons.prems(1), of "tun_id t"] free by (cases "js_get (st_tunnels s) (tun_id t)") auto
    then have s1: "snd (registerActiveTunnel t s) = s\<lparr>st_tunnels := js_set (st_tunnels s) (tun_id t) t\<rparr>"
      by (simp add: registerActiveTunnel_def js_has_def)
    have same: "(js_get (st_tunnels s))(tun_id t := Some t) = js_get (st_tunnels (s\<lparr>st_tunnels := js_set (st_tunnels s) (tun_id t) t\<rparr>))"
      by (simp add: fun_eq_iff)
    have fresh: "dy_get c db1 (tunnelKey i) = None" if i: "has (registered_ids calls) i" for i
    proof -
      have "i \<noteq> tun_id t" using i Cons.prems(3) TRegister by auto
      moreover have "dy_get c db (tunnelKey i) = None" using i Cons.prems(4) [of i] TRegister by simp
      ultimately show ?thesis using db1(3) by simp
    qed
    have "keyed tun_id (st_tunnels (s\<lparr>st_tunnels := js_set (st_tunnels s) (tun_id t) t\<rparr>))" using Cons.prems(2) by (simp add: keyed_set)
    from Cons.IH [OF db1(2) [unfolded same] this _ fresh] show ?thesis
      using Cons.prems(3) TRegister by (simp add: db1(1) s1)
  next
    case (THeartbeat tid b e)
    obtain db1 where db1: "run_alone c (dy_heartbeatActiveTunnel tid b e) db = (Inr (), db1)"
        "loads_match c db1 ((js_get (st_tunnels s))(tid := map_option (\<lambda>t. t\<lparr>lastHeartbeatAt := b, tun_expiresAt := e\<rparr>) (js_get (st_tunnels s) tid)))"
        "\<forall>x. (dy_get c db1 (tunnelKey x) = None) = (dy_get c db (tunnelKey x) = None)"
      using run_heartbeat [OF assms(1) Cons.prems(1)] by blast
    have same: "(js_get (st_tunnels s))(tid := map_option (\<lambda>t. t\<lparr>lastHeartbeatAt := b, tun_expiresAt := e\<rparr>) (js_get (st_tunnels s) tid))
        = js_get (st_tunnels (heartbeatActiveTunnel tid b e s))"
      by (cases "js_get (st_tunnels s) tid") (simp_all add: heartbeatActiveTunnel_def fun_eq_iff)
    have "keyed tun_id (st_tunnels (heartbeatActiveTunnel tid b e s))"
      using Cons.prems(2) keyed_get [OF Cons.prems(2), of tid] by (auto simp: heartbeatActiveTunnel_def intro!: keyed_set split: option.split)
    from Cons.IH [OF db1(2) [unfolded same] this] show ?thesis
      using Cons.prems(3,4) THeartbeat db1(3) by (simp add: db1(1))
  next
    case (TRemove now tid)
    obtain db1 where db1: "run_alone c (dy_removeActiveTunnel now tid) db = (Inr (), db1)"
        "loads_match c db1 ((js_get (st_tunnels s))(tid := None))"
        "\<forall>x. (dy_get c db1 (tunnelKey x) = None) = (dy_get c db (tunnelKey x) = None)"
      using run_remove [OF assms(1) Cons.prems(1)] by blast
    have same: "(js_get (st_tunnels s))(tid := None) = js_get (st_tunnels (removeActiveTunnel tid s))"
      by (simp add: removeActiveTunnel_def fun_eq_iff)
    have "keyed tun_id (st_tunnels (removeActiveTunnel tid s))" using Cons.prems(2) by (simp add: removeActiveTunnel_def keyed_delete)
    from Cons.IH [OF db1(2) [unfolded same] this] show ?thesis
      using Cons.prems(3,4) TRemove db1(3) by (simp add: db1(1))
  qed
qed simp

lemma run_dyn_map:
  "(\<And>x. has xs x \<Longrightarrow> run_alone c (f x) db = (Inr (g x), db)) \<Longrightarrow> run_alone c (dyn_map f xs) db = (Inr (map g xs), db)"
  by (induction xs) (simp_all add: run_alone_bind)

lemma loads_match_fresh: "dy_get c db = (\<lambda>_. None) \<Longrightarrow> loads_match c db (js_get (st_tunnels empty_store))"
  by (simp add: loads_match_def empty_store_def tunnel_stored_def leased_def)

lemma lease_key_simps:
  "(''ACTIVE_LOAD#PROVIDER#'' @ p, tun_id t) \<in> set (activeLoadLeaseKeys t) \<longleftrightarrow> tun_provider t = p"
  "(''ACTIVE_LOAD#ENDPOINT#'' @ p @ ''#'' @ e, tun_id t) \<in> set (activeLoadLeaseKeys t) \<longleftrightarrow>
   (case tun_endpointId t of None \<Rightarrow> False | Some e' \<Rightarrow> tun_provider t @ ''#'' @ e' = p @ ''#'' @ e)"
  "(''ACTIVE_LOAD#SESSION#'' @ i, tun_id t) \<in> set (activeLoadLeaseKeys t) \<longleftrightarrow> tun_sessionId t = Some i"
  by (auto simp: activeLoadLeaseKeys_def split: option.split)


definition sample_tunnel_calls :: "tunnel_call list" where
  "sample_tunnel_calls =
     (let t = sample_tunnel\<lparr>tun_provider := ''p'', tun_endpointId := Some ''e'', tun_expiresAt := 60000\<rparr>
      in [TRegister (t\<lparr>tun_id := ''a''\<rparr>), TRegister (t\<lparr>tun_id := ''b''\<rparr>), TRegister (t\<lparr>tun_id := ''c'', tun_endpointId := None\<rparr>),
          THeartbeat ''a'' 50000 120000, TRemove 55000 ''b'', THeartbeat ''b'' 56000 120000])"


end
