(* ===== verification/Dynamo_Circuits.thy ===== *)
theory Dynamo_Circuits
  imports Dynamo_Loads
begin

text \<open>
  The lock under which production changes a capacity circuit, and what is stored under it.
\<close>

subsection \<open>The lock\<close>

definition lock_held :: "'db Dynamo \<Rightarrow> item_key \<Rightarrow> string \<Rightarrow> int \<Rightarrow> 'db \<Rightarrow> bool" where
  "lock_held c key owner until db \<longleftrightarrow>
     (case dy_get c db key of Some (ILock l) \<Rightarrow> lk_owner l \<noteq> owner \<and> until \<le> lk_expiresAtSeconds l | _ \<Rightarrow> False)"

lemma run_amid_bind_throw:
  "fst (run_amid c p fs db) = Inl e \<Longrightarrow> run_amid c (dyn_bind p g) fs db = (Inl e, snd (run_amid c p fs db))"
  by (induction p arbitrary: fs db) (auto simp: Let_def split: sum.splits prod.splits)

lemma held_not_taken:
  assumes "dynamo_ok c" "list_all (\<lambda>now. now div 1000 \<le> until) readings" "lock_held c key owner until db"
    and "list_all (\<lambda>f. \<forall>db. lock_held c key owner until db \<longrightarrow> lock_held c key owner until (f db)) fs"
  shows "fst (run_amid c (take_lock key owner deadline readings) fs db)
    = Inl (if list_ex (\<lambda>now. deadline \<le> now) readings then conditional_failed else still_waiting)"
  using assms(2-)
proof (induction readings arbitrary: fs db)
  case (Cons now readings)
  have held: "lock_held c key owner until (others fs db)" using Cons.prems(2,3) by (cases fs) (simp_all add: others_def)
  let ?w = "put key (ILock \<lparr>lk_owner = owner, lk_expiresAtSeconds = now div 1000 + 10\<rparr>) (lock_free now)"
  have busy: "\<not> lock_free now (dy_get c (others fs db) key)"
    using held Cons.prems(1) by (auto simp: lock_held_def lock_free_def split: option.splits item.splits)
  define db1 where "db1 = snd (dy_write c [?w] (others fs db))"
  have "\<not> fst (dy_write c [?w] (others fs db))" "dy_get c db1 = dy_get c (others fs db)"
    using wrote_one(1,3) [OF assms(1), where k = key and P = "lock_free now" and db = "others fs db"] busy
    by (simp_all add: put_def wrote_def db1_def)
  then have db1: "dy_write c [?w] (others fs db) = (False, db1)" "dy_get c db1 = dy_get c (others fs db)"
    by (simp_all add: prod_eq_iff db1_def)
  have "lock_held c key owner until db1" using held db1(2) by (simp add: lock_held_def)
  moreover have "list_all (\<lambda>f. \<forall>db. lock_held c key owner until db \<longrightarrow> lock_held c key owner until (f db)) (tl fs)"
    using Cons.prems(3) by (cases fs) simp_all
  ultimately have "fst (run_amid c (take_lock key owner deadline readings) (tl fs) db1)
    = Inl (if list_ex (\<lambda>now. deadline \<le> now) readings then conditional_failed else still_waiting)"
    using Cons.IH [of db1 "tl fs"] Cons.prems(1) by simp
  then show ?case by (simp add: db1(1))
qed simp

text \<open>
  C17. Mutual exclusion on a circuit: as long as others keep a lock that has not run out at any of the attempts, whatever else
  they do, the guarded action does not run at all: only attempts at the lock reach the table, and once an attempt is made
  five seconds after the start the call fails.
\<close>

theorem circuit_lock_excludes:
  assumes "dynamo_ok c" "list_all (\<lambda>now. now div 1000 \<le> until) readings" "list_ex (\<lambda>now. start + 5000 \<le> now) readings"
    and "lock_held c (circuitLockKey provider candidateKey) owner until db"
    and "list_all (\<lambda>f. \<forall>db. lock_held c (circuitLockKey provider candidateKey) owner until db
                          \<longrightarrow> lock_held c (circuitLockKey provider candidateKey) owner until (f db)) fs"
  shows "run_amid c (withCapacityCircuitLock start readings owner provider candidateKey action) fs db
    = (Inl conditional_failed, snd (run_amid c (take_lock (circuitLockKey provider candidateKey) owner (start + 5000) readings) fs db))"
proof -
  have "fst (run_amid c (take_lock (circuitLockKey provider candidateKey) owner (start + 5000) readings) fs db) = Inl conditional_failed"
    using held_not_taken [OF assms(1,2,4,5), of "start + 5000"] assms(3) by simp
  then show ?thesis unfolding withCapacityCircuitLock_def Let_def by (rule run_amid_bind_throw)
qed

definition sample_locked :: table where
  "sample_locked = snd (run_alone table_client (take_lock (circuitLockKey ''p'' ''k'') ''other'' 5000 [4000]) [])"

abbreviation sample_blocked :: "CapacityCircuitState result \<times> table" where
  "sample_blocked \<equiv>
     run_amid table_client (dy_recordCapacityCircuitFailure 2000 [2000, 4500, 7000] ''me'' ''p'' ''k'' CapacityFailure 2000) [] sample_locked"

theorem circuit_lock_excludes_witness:
  "fst sample_blocked = Inl conditional_failed \<and> js_get (snd sample_blocked) (capacity_circuit_key ''p'' ''k'') = None"
proof -
  have held: "lock_held table_client (circuitLockKey ''p'' ''k'') ''me'' 14 sample_locked" by code_simp
  have attempts: "list_all (\<lambda>now. now div 1000 \<le> (14 :: int)) [2000, 4500, 7000]" "list_ex (\<lambda>now. 2000 + 5000 \<le> now) [2000, 4500, 7000 :: int]"
    by simp_all
  have none: "js_get (snd (run_amid table_client (take_lock (circuitLockKey ''p'' ''k'') ''me'' (2000 + 5000) [2000, 4500, 7000]) [] sample_locked))
      (capacity_circuit_key ''p'' ''k'') = None" by code_simp
  have nobody: "list_all P ([] :: (table \<Rightarrow> table) list)" for P by simp
  note excluded = circuit_lock_excludes [OF table_client_ok attempts held nobody, of "record_circuit ''p'' ''k'' CapacityFailure 2000",
      folded dy_recordCapacityCircuitFailure_def]
  show ?thesis unfolding excluded fst_conv snd_conv using none by blast
qed

subsection \<open>What happens under the lock\<close>

lemma run_finally:
  "run_alone c (dyn_finally p q) db =
   (case run_alone c p db of (r, db') \<Rightarrow> (case run_alone c q db' of (Inl e, db'') \<Rightarrow> (Inl e, db'') | (Inr _, db'') \<Rightarrow> (r, db'')))"
  by (induction p arbitrary: db) (simp_all add: run_alone_bind split: sum.split prod.split)

text \<open>A free lock is taken at once, and released whatever the action ends in.\<close>

lemma lock_released:
  assumes "dynamo_ok c" "lock_free now (dy_get c db (circuitLockKey p k))"
    and "\<And>db. dy_get c (snd (run_alone c action db)) (circuitLockKey p k) = dy_get c db (circuitLockKey p k)"
  shows "\<exists>db1. dy_get c db1 = (dy_get c db)(circuitLockKey p k := Some (ILock \<lparr>lk_owner = owner, lk_expiresAtSeconds = now div 1000 + 10\<rparr>))
    \<and> fst (run_alone c (withCapacityCircuitLock start (now # later) owner p k action) db) = fst (run_alone c action db1)
    \<and> dy_get c (snd (run_alone c (withCapacityCircuitLock start (now # later) owner p k action) db))
      = (dy_get c (snd (run_alone c action db1)))(circuitLockKey p k := None)"
proof -
  let ?key = "circuitLockKey p k"
  let ?l = "ILock \<lparr>lk_owner = owner, lk_expiresAtSeconds = now div 1000 + 10\<rparr>"
  define db1 where "db1 = wrote c [put ?key ?l (lock_free now)] db"
  note take = wrote_one [OF assms(1), where k = ?key and P = "lock_free now" and f = "\<lambda>_. Some ?l" and db = db]
  have taken: "run_alone c (take_lock ?key owner (start + 5000) (now # later)) db = (Inr (), db1)"
    using take(1) assms(2) by (simp add: db1_def put_def wrote_def case_prod_unfold)
  have get1: "dy_get c db1 = (dy_get c db)(?key := Some ?l)" using take(2) [OF assms(2)] by (simp add: db1_def put_def)
  obtain r db2 where act: "run_alone c action db1 = (r, db2)" by (cases "run_alone c action db1")
  have mine: "dy_get c db2 ?key = Some ?l" using assms(3) [of db1] get1 act by simp
  note free = wrote_one [OF assms(1), where k = ?key and P = "\<lambda>v. case v of Some (ILock l) \<Rightarrow> lk_owner l = owner | _ \<Rightarrow> False"
      and f = "\<lambda>_. None" and db = db2]
  have "run_alone c (release_lock ?key owner) db2 = (Inr (), wrote c [Write ?key (\<lambda>v. case v of Some (ILock l) \<Rightarrow> lk_owner l = owner | _ \<Rightarrow> False) (\<lambda>_. None)] db2)"
    by (simp add: release_lock_def wrote_def split: prod.split)
  then have "run_alone c (withCapacityCircuitLock start (now # later) owner p k action) db
      = (r, wrote c [Write ?key (\<lambda>v. case v of Some (ILock l) \<Rightarrow> lk_owner l = owner | _ \<Rightarrow> False) (\<lambda>_. None)] db2)"
    using taken act by (simp add: withCapacityCircuitLock_def Let_def run_alone_bind run_finally del: take_lock.simps)
  with free(2) mine get1 act show ?thesis by (intro exI [of _ db1]) simp
qed

lemma run_get_circuit:
  assumes "dynamo_ok c"
  shows "dy_get c db (capacity_circuit_key p k) = None \<Longrightarrow> run_alone c (dy_getCapacityCircuit p k now) db = (Inr None, db)"
    "dy_get c db (capacity_circuit_key p k) = Some (ICircuit i) \<Longrightarrow> now < circ_expiresAt (ci_state i)
     \<Longrightarrow> run_alone c (dy_getCapacityCircuit p k now) db = (Inr (Some (ci_state i)), db)"
    "dy_get c db (capacity_circuit_key p k) = Some (ICircuit i) \<Longrightarrow> \<not> now < circ_expiresAt (ci_state i)
     \<Longrightarrow> \<exists>db'. run_alone c (dy_getCapacityCircuit p k now) db = (Inr None, db') \<and> dy_get c db' = (dy_get c db)(capacity_circuit_key p k := None)"
  using wrote_one [OF assms, where k = "capacity_circuit_key p k" and P = "\<lambda>_. True" and f = "\<lambda>_. None" and db = db]
  by (simp_all add: dy_getCapacityCircuit_def wrote_def case_prod_unfold)

lemma run_save_circuit:
  assumes "dynamo_ok c" "circ_provider st = p" "circ_candidateKey st = k"
  shows "\<exists>db' i. run_alone c (saveCapacityCircuit st) db = (Inr (), db') \<and> ci_state i = st
    \<and> dy_get c db' = (dy_get c db)(capacity_circuit_key p k := Some (ICircuit i))"
  using wrote_one [OF assms(1), where k = "capacity_circuit_key p k" and P = "\<lambda>_. True" and db = db] assms(2,3)
  by (auto simp: saveCapacityCircuit_def put_def
      intro: exI [where x = "\<lparr>ci_createdAt = circ_updatedAt st, ci_expiresAtSeconds = ceil_seconds (circ_expiresAt st), ci_state = st\<rparr>"])

text \<open>
  The circuit stored for a key, expired ones apart; a failure counts on from it. In memory an expired circuit counts on too,
  until something looks it up.
\<close>

definition live_circuit :: "'db Dynamo \<Rightarrow> 'db \<Rightarrow> ProviderId \<Rightarrow> string \<Rightarrow> timestamp \<Rightarrow> CapacityCircuitState option" where
  "live_circuit c db p k now =
     (case dy_get c db (capacity_circuit_key p k) of
        Some (ICircuit i) \<Rightarrow> if now < circ_expiresAt (ci_state i) then Some (ci_state i) else None
      | _ \<Rightarrow> None)"

lemma run_record_circuit:
  fixes reason :: CapacityCircuitReason and now :: timestamp
  assumes "dynamo_ok c" "case dy_get c db (capacity_circuit_key p k) of None \<Rightarrow> True | Some it \<Rightarrow> \<exists>i. it = ICircuit i"
  defines "st \<equiv> recordCapacityCircuitFailure (live_circuit c db p k now) p k reason now ROUTING_POLICY"
  shows "\<exists>db' i. run_alone c (record_circuit p k reason now) db = (Inr st, db') \<and> ci_state i = st
    \<and> dy_get c db' = (dy_get c db)(capacity_circuit_key p k := Some (ICircuit i))"
proof -
  obtain db1 where db1: "run_alone c (dy_getCapacityCircuit p k now) db = (Inr (live_circuit c db p k now), db1)"
      "(dy_get c db1)(capacity_circuit_key p k := v) = (dy_get c db)(capacity_circuit_key p k := v)" for v
  proof (cases "dy_get c db (capacity_circuit_key p k)")
    case None
    with run_get_circuit(1) [OF assms(1) None] that [of db] show thesis by (simp add: live_circuit_def)
  next
    case (Some it)
    then obtain i where i: "dy_get c db (capacity_circuit_key p k) = Some (ICircuit i)" using assms(2) by auto
    show thesis
    proof (cases "now < circ_expiresAt (ci_state i)")
      case True
      with run_get_circuit(2) [OF assms(1) i True] that [of db] i show thesis by (simp add: live_circuit_def)
    next
      case False
      obtain db' where db': "run_alone c (dy_getCapacityCircuit p k now) db = (Inr None, db')"
          "dy_get c db' = (dy_get c db)(capacity_circuit_key p k := None)"
        using run_get_circuit(3) [OF assms(1) i False] by blast
      have "(dy_get c db')(capacity_circuit_key p k := v) = (dy_get c db)(capacity_circuit_key p k := v)" for v by (simp add: db'(2))
      with db'(1) that [of db'] i False show thesis by (simp add: live_circuit_def)
    qed
  qed
  have key: "circ_provider st = p" "circ_candidateKey st = k" by (simp_all add: st_def recordCapacityCircuitFailure_def Let_def)
  obtain db' i where db': "run_alone c (saveCapacityCircuit st) db1 = (Inr (), db')" "ci_state i = st"
      "dy_get c db' = (dy_get c db1)(capacity_circuit_key p k := Some (ICircuit i))"
    using run_save_circuit [OF assms(1) key] by blast
  have "run_alone c (record_circuit p k reason now) db = (Inr st, db')"
    by (simp add: record_circuit_def run_alone_bind db1(1) Let_def st_def [symmetric] db'(1))
  with db'(2,3) db1(2) show ?thesis by auto
qed

lemma expired_circuit_counts_in_memory:
  "let day = 24 * 60 * 60000; late = day + 1;
       s = snd (store_recordCapacityCircuitFailure ''p'' ''k'' CapacityFailure 0 empty_store);
       db = snd (run_alone table_client (record_circuit ''p'' ''k'' CapacityFailure 0) [])
   in consecutiveFailures (fst (store_recordCapacityCircuitFailure ''p'' ''k'' CapacityFailure late s)) = 2
      \<and> (case fst (run_alone table_client (record_circuit ''p'' ''k'' CapacityFailure late) db) of Inr st \<Rightarrow> consecutiveFailures st = 1 | _ \<Rightarrow> False)"
  by code_simp

text \<open>A removed tunnel keeps its place in the entity index and its own expiry, so the list of all active tunnels still has it.\<close>

lemma removed_tunnel_still_listed:
  assumes "dynamo_ok c" "dy_get c db (tunnelKey tid) = Some (ITunnel i)" "has (entityShards ''active_tunnel'') (ti_entity i)"
    and "later < tun_expiresAt (ti_tunnel i)"
  shows "\<exists>ts. fst (run_alone c (dy_listAllActiveTunnels later) (snd (run_alone c (dy_removeActiveTunnel now tid) db))) = Inr ts
    \<and> has ts (ti_tunnel i)"
proof -
  define ws where "ws = tunnel_writes tid (\<lambda>_. True) (expire_item now) (ti_tunnel i) (\<lambda>_. True) (\<lambda>_. None)"
  define db' where "db' = wrote c ws db"
  note wrote = wrote_tunnel [OF assms(1), where tid = tid and P = "\<lambda>_. True" and f = "expire_item now"
      and t = "ti_tunnel i" and Q = "\<lambda>_. True" and g = "\<lambda>_. None" and db = db, folded ws_def]
  have ok: "fst (dy_write c ws db)" unfolding wrote(1) by (simp add: list_all_iff)
  have removed: "snd (run_alone c (dy_removeActiveTunnel now tid) db) = db'"
    by (simp add: dy_removeActiveTunnel_def assms(2) db'_def ws_def tunnel_writes_def)
  define i' where "i' = i\<lparr>ti_gsi := None, ti_expiresAtSeconds := now div 1000 - 1\<rparr>"
  have item: "dy_get c db' (tunnelKey tid) = Some (ITunnel i')" "ti_entity i' = ti_entity i" "ti_tunnel i' = ti_tunnel i"
    using wrote(2) [OF ok, of "tunnelKey tid"] by (simp_all add: db'_def assms(2) expire_item_def i'_def)
  define shards where "shards = map (\<lambda>e. dy_query c db' (ByEntity e)) (entityShards ''active_tunnel'')"
  have "run_alone c (dyn_map (\<lambda>e. QueryAll (ByEntity e) dyn_return) (entityShards ''active_tunnel'')) db' = (Inr shards, db')"
    unfolding shards_def by (rule run_dyn_map) simp
  then have run: "fst (run_alone c (dy_listAllActiveTunnels later) db') = Inr (tunnels_of later (concat shards))"
    by (simp add: dy_listAllActiveTunnels_def run_alone_bind)
  have "has (dy_query c db' (ByEntity (ti_entity i))) (tunnelKey tid, ITunnel i')"
    unfolding dynamo_query(2) [OF assms(1)] by (simp add: item)
  then have "has (concat shards) (tunnelKey tid, ITunnel i')" using assms(3) by (auto simp: shards_def)
  then have "has (tunnels_of later (concat shards)) (ti_tunnel i)"
    unfolding tunnels_of_def in_map_filter by (rule rev_bexI) (simp add: item assms(4))
  with run removed show ?thesis by simp
qed

end
