(* ===== verification/Dynamo_Usage.thy ===== *)
theory Dynamo_Usage
  imports Dynamo_Circuits Usage_Rollup Health_Store
begin

text \<open>
  \<open>src/dynamo-usage-repository.ts\<close> and \<open>src/dynamo-health-repository.ts\<close>: usage records, rollups, reconciliations and
  alerts, and the state of health, as items. A query in the order of a sort key gives the selected items sorted by it; a
  limited one their beginning.
\<close>

subsection \<open>Usage records\<close>

definition usageKey :: "string \<Rightarrow> item_key" where
  "usageKey i = (''USAGE#'' @ i, ''RECORD'')"

text \<open>A write that must create its item, and whether it did.\<close>

definition create_item :: "item_key \<Rightarrow> item \<Rightarrow> bool dyn" where
  "create_item k it = Commit [put k it absent] dyn_return"

definition save_item :: "item_key \<Rightarrow> item \<Rightarrow> unit dyn" where
  "save_item k it = commit_or conditional_failed [put k it (\<lambda>_. True)]"

definition dy_recordUsage :: "UsageRecord \<Rightarrow> bool dyn" where
  "dy_recordUsage r = create_item (usageKey (ur_id r)) (IUsage r)"

text \<open>The items of a query as the values they hold, in the order of a sort key.\<close>

definition ordered :: "(item \<Rightarrow> 'a option) \<Rightarrow> 'a comparator \<Rightarrow> (item_key \<times> item) list \<Rightarrow> 'a list" where
  "ordered pick cmp items = js_sort cmp (List.map_filter (\<lambda>e. pick (snd e)) items)"

fun usage_of :: "item \<Rightarrow> UsageRecord option" where
  "usage_of (IUsage r) = Some r"
| "usage_of _ = None"

definition usage_order :: "bool \<Rightarrow> UsageRecord comparator" where
  "usage_order newestFirst = (if newestFirst then newest_first completedAt else by_key completedAt)"

definition perShardLimit :: "nat \<Rightarrow> nat" where
  "perShardLimit limit = max 1 ((limit + HIGH_VOLUME_ENTITY_SHARDS - 1) div HIGH_VOLUME_ENTITY_SHARDS * 2)"

definition take_opt :: "nat option \<Rightarrow> 'a list \<Rightarrow> 'a list" where
  "take_opt limit xs = (case limit of None \<Rightarrow> xs | Some n \<Rightarrow> take n xs)"

definition usage_shard :: "timestamp \<Rightarrow> timestamp \<Rightarrow> nat option \<Rightarrow> bool \<Rightarrow> string \<Rightarrow> UsageRecord list dyn" where
  "usage_shard since to limit newestFirst entity =
     QueryAll (ByEntity entity) (\<lambda>items. dyn_return (take_opt (map_option perShardLimit limit)
       (filter (\<lambda>r. since \<le> completedAt r \<and> completedAt r \<le> to) (ordered usage_of (usage_order newestFirst) items))))"

definition dy_listUsageRecords :: "timestamp \<Rightarrow> timestamp \<Rightarrow> nat option \<Rightarrow> bool \<Rightarrow> UsageRecord list dyn" where
  "dy_listUsageRecords since to limit newestFirst =
     dyn_bind (dyn_map (usage_shard since to limit newestFirst) (entityShards ''usage_record'')) (\<lambda>shards.
       dyn_return (take_opt limit (js_sort (usage_order newestFirst)
         (filter (\<lambda>r. since \<le> completedAt r \<and> completedAt r < to) (concat shards)))))"

subsection \<open>Rollups, reconciliations, alerts, evidence\<close>

definition rollupKey :: "UsageRollup \<Rightarrow> item_key" where
  "rollupKey r = (''USAGE_ROLLUP#'' @ interval_name (ro_interval r), ro_id r)"

definition dy_saveUsageRollup :: "UsageRollup \<Rightarrow> unit dyn" where
  "dy_saveUsageRollup r = save_item (rollupKey r) (IRollup r)"

definition string_le :: "string \<Rightarrow> string \<Rightarrow> bool" where
  "string_le a b \<longleftrightarrow> code_unit_compare a b \<le> 0"

text \<open>The range of identifiers ends with everything that begins with the end of the period.\<close>

definition dy_listUsageRollups :: "timestamp \<Rightarrow> timestamp \<Rightarrow> UsageInterval \<Rightarrow> UsageRollup list dyn" where
  "dy_listUsageRollups since to interval =
     QueryAll (ByPartition (''USAGE_ROLLUP#'' @ interval_name interval)) (\<lambda>items.
       dyn_return (ordered (\<lambda>it. case it of IRollup r \<Rightarrow> Some r | _ \<Rightarrow> None) (\<lambda>a b. code_unit_compare (ro_id a) (ro_id b))
         (filter (\<lambda>(k, it). string_le (toISOString since) (snd k) \<and> string_le (snd k) (toISOString to @ ''~'')) items)))"

definition dy_saveUsageReconciliation :: "UsageReconciliation \<Rightarrow> bool dyn" where
  "dy_saveUsageReconciliation r = create_item (''USAGE_RECONCILIATION#'' @ rec_id r, ''RECORD'') (IReconciliation r)"

definition dy_listUsageReconciliations :: "timestamp \<Rightarrow> timestamp \<Rightarrow> UsageReconciliation list dyn" where
  "dy_listUsageReconciliations since to =
     QueryAll (ByEntity ''usage_reconciliation'') (\<lambda>items.
       dyn_return (filter (\<lambda>r. since \<le> rec_periodStartedAt r \<and> rec_periodStartedAt r < to)
         (ordered (\<lambda>it. case it of IReconciliation r \<Rightarrow> Some r | _ \<Rightarrow> None) (by_key rec_periodStartedAt) items)))"

definition dy_saveUsageAlertEvent :: "UsageAlertEvent \<Rightarrow> bool dyn" where
  "dy_saveUsageAlertEvent e = create_item (''USAGE_ALERT#'' @ ua_id e, ''EVENT'') (IUsageAlert e)"

definition dy_listUsageAlertEvents :: "timestamp \<Rightarrow> timestamp \<Rightarrow> UsageAlertEvent list dyn" where
  "dy_listUsageAlertEvents since to =
     QueryAll (ByEntity ''usage_alert_event'') (\<lambda>items.
       dyn_return (filter (\<lambda>e. since \<le> ua_periodStartedAt e \<and> ua_periodStartedAt e < to)
         (ordered (\<lambda>it. case it of IUsageAlert e \<Rightarrow> Some e | _ \<Rightarrow> None) (by_key ua_periodStartedAt) items)))"

definition dy_saveCapacityPressureEvidence :: "CapacityPressureEvidence \<Rightarrow> unit dyn" where
  "dy_saveCapacityPressureEvidence e = save_item (''CAPACITY_PRESSURE#'' @ cpe_id e, ''EVIDENCE'') (IPressure e)"

definition dy_listCapacityPressureEvidence :: "timestamp \<Rightarrow> CapacityPressureEvidence list dyn" where
  "dy_listCapacityPressureEvidence observedAfter =
     QueryAll (ByEntity ''capacity_pressure_evidence'') (\<lambda>items.
       dyn_return (filter (\<lambda>e. observedAfter \<le> cpe_observedAt e)
         (ordered (\<lambda>it. case it of IPressure e \<Rightarrow> Some e | _ \<Rightarrow> None) (by_key cpe_observedAt) items)))"

subsection \<open>The ledger of usage records\<close>

definition ledger :: "'db Dynamo \<Rightarrow> 'db \<Rightarrow> (string, UsageRecord) js_map \<Rightarrow> bool" where
  "ledger c db recs \<longleftrightarrow>
     (\<forall>i. dy_get c db (usageKey i) = map_option IUsage (js_get recs i))
     \<and> (\<forall>k r. dy_get c db k = Some (IUsage r) \<longrightarrow> k = usageKey (ur_id r))
     \<and> keyed ur_id recs"

lemma usageKey_inj [simp]: "usageKey a = usageKey b \<longleftrightarrow> a = b"
  by (simp add: usageKey_def)

lemma run_create_item:
  assumes "dynamo_ok c"
  shows "\<exists>db'. run_alone c (create_item k it) db = (Inr (dy_get c db k = None), db')
    \<and> dy_get c db' = (if dy_get c db k = None then (dy_get c db)(k := Some it) else dy_get c db)"
proof -
  note one = wrote_one [OF assms, where k = k and P = absent and f = "\<lambda>_. Some it" and db = db]
  have "run_alone c (create_item k it) db = (Inr (dy_get c db k = None), wrote c [put k it absent] db)"
    using one(1) by (simp add: create_item_def put_def wrote_def absent_def case_prod_unfold)
  moreover have "dy_get c (wrote c [put k it absent] db) = (if dy_get c db k = None then (dy_get c db)(k := Some it) else dy_get c db)"
    using one(2,3) by (simp add: put_def absent_def)
  ultimately show ?thesis by blast
qed

lemma run_record:
  assumes "dynamo_ok c" "ledger c db (st_usageRecords s)"
  shows "\<exists>db'. run_alone c (dy_recordUsage r) db = (Inr (fst (recordUsage r s)), db')
    \<and> ledger c db' (st_usageRecords (snd (recordUsage r s)))"
proof -
  have get: "dy_get c db (usageKey i) = map_option IUsage (js_get (st_usageRecords s) i)" for i
    using assms(2) by (simp add: ledger_def)
  obtain db' where db': "run_alone c (dy_recordUsage r) db = (Inr (dy_get c db (usageKey (ur_id r)) = None), db')"
      "dy_get c db' = (if dy_get c db (usageKey (ur_id r)) = None then (dy_get c db)(usageKey (ur_id r) := Some (IUsage r)) else dy_get c db)"
    using run_create_item [OF assms(1)] unfolding dy_recordUsage_def by blast
  have new: "dy_get c db (usageKey (ur_id r)) = None \<longleftrightarrow> \<not> js_has (st_usageRecords s) (ur_id r)" by (simp add: get js_has_def)
  have "ledger c db' (st_usageRecords (snd (recordUsage r s)))"
  proof (cases "js_has (st_usageRecords s) (ur_id r)")
    case True
    then show ?thesis using assms(2) db'(2) new by (simp add: recordUsage_def ledger_def)
  next
    case False
    then show ?thesis using assms(2) db'(2) new by (auto simp: recordUsage_def ledger_def)
  qed
  moreover have "fst (recordUsage r s) \<longleftrightarrow> \<not> js_has (st_usageRecords s) (ur_id r)" by (simp add: recordUsage_def)
  ultimately show ?thesis using db'(1) new by auto
qed

primrec memory_record :: "UsageRecord list \<Rightarrow> StoreState \<Rightarrow> bool list \<times> StoreState" where
  "memory_record [] s = ([], s)"
| "memory_record (r # rs) s = (case recordUsage r s of (b, s1) \<Rightarrow> case memory_record rs s1 of (bs, s2) \<Rightarrow> (b # bs, s2))"

primrec dynamo_record :: "'db Dynamo \<Rightarrow> UsageRecord list \<Rightarrow> 'db \<Rightarrow> bool result list \<times> 'db" where
  "dynamo_record c [] db = ([], db)"
| "dynamo_record c (r # rs) db =
     (case run_alone c (dy_recordUsage r) db of (b, db1) \<Rightarrow> case dynamo_record c rs db1 of (bs, db2) \<Rightarrow> (b # bs, db2))"

lemma record_all:
  assumes "dynamo_ok c" "ledger c db (st_usageRecords s)"
  shows "fst (dynamo_record c rs db) = map Inr (fst (memory_record rs s))
    \<and> ledger c (snd (dynamo_record c rs db)) (st_usageRecords (snd (memory_record rs s)))"
  using assms(2)
proof (induction rs arbitrary: db s)
  case (Cons r rs)
  obtain db1 where db1: "run_alone c (dy_recordUsage r) db = (Inr (fst (recordUsage r s)), db1)"
      "ledger c db1 (st_usageRecords (snd (recordUsage r s)))"
    using run_record [OF assms(1) Cons.prems] by blast
  from Cons.IH [OF db1(2)] show ?case by (simp add: db1(1) case_prod_unfold)
qed simp

subsection \<open>Listing the ledger\<close>

lemma usage_shards_distinct: "distinct (entityShards ''usage_record'')"
  by code_simp

lemma distinct_map_filter_inj:
  assumes "distinct xs" "\<And>x y z. x \<in> set xs \<Longrightarrow> y \<in> set xs \<Longrightarrow> f x = Some z \<Longrightarrow> f y = Some z \<Longrightarrow> x = y"
  shows "distinct (List.map_filter f xs)"
  using assms
proof (induction xs)
  case Nil
  then show ?case by (simp add: List.map_filter_simps)
next
  case (Cons x xs)
  have tail: "distinct (List.map_filter f xs)" using Cons.prems by (intro Cons.IH) auto
  show ?case
  proof (cases "f x")
    case None
    then show ?thesis using tail by (simp add: List.map_filter_simps)
  next
    case (Some z)
    have "z \<notin> set (List.map_filter f xs)"
    proof
      assume "z \<in> set (List.map_filter f xs)"
      then obtain y where "y \<in> set xs" "f y = Some z" unfolding in_map_filter by blast
      with Cons.prems(2) [of x y z] Some Cons.prems(1) show False by auto
    qed
    then show ?thesis using tail Some by (simp add: List.map_filter_simps)
  qed
qed

lemma shard_records:
  assumes "dynamo_ok c" "ledger c db recs"
  defines "xs \<equiv> \<lambda>e. List.map_filter (\<lambda>e. usage_of (snd e)) (dy_query c db (ByEntity e))"
  shows "distinct (xs e)" "r \<in> set (xs e) \<longleftrightarrow> js_get recs (ur_id r) = Some r \<and> shardedEntity ''usage_record'' (ur_id r) = e"
proof -
  have item: "usage_of it = Some r \<longleftrightarrow> it = IUsage r" for it r by (cases it) auto
  have entry: "(k, it) \<in> set (dy_query c db (ByEntity e)) \<longleftrightarrow> dy_get c db k = Some it \<and> item_entity it = Some e" for k it
    unfolding dynamo_query(2) [OF assms(1)] by simp
  have keyed: "dy_get c db k = Some (IUsage r) \<Longrightarrow> k = usageKey (ur_id r)" for k r using assms(2) unfolding ledger_def by blast
  show "distinct (xs e)"
    unfolding xs_def
  proof (rule distinct_map_filter_inj)
    show "distinct (dy_query c db (ByEntity e))" using dynamo_query(1) [OF assms(1), of db "ByEntity e"] by (simp add: distinct_map)
    fix x y r
    assume xy: "x \<in> set (dy_query c db (ByEntity e))" "y \<in> set (dy_query c db (ByEntity e))" "usage_of (snd x) = Some r" "usage_of (snd y) = Some r"
    have "snd x = IUsage r" "snd y = IUsage r" using xy(3,4) item by simp_all
    moreover have "fst z = usageKey (ur_id r)" if "z \<in> set (dy_query c db (ByEntity e))" "snd z = IUsage r" for z
    proof -
      have "(fst z, IUsage r) \<in> set (dy_query c db (ByEntity e))" using that by (metis prod.collapse)
      then show ?thesis unfolding entry using keyed by blast
    qed
    then have "fst x = usageKey (ur_id r)" "fst y = usageKey (ur_id r)" using xy(1,2) calculation by blast+
    ultimately show "x = y" by (simp add: prod_eq_iff)
  qed
  have "r \<in> set (xs e) \<longleftrightarrow> (\<exists>k. (k, IUsage r) \<in> set (dy_query c db (ByEntity e)))"
    unfolding xs_def in_map_filter Bex_def by (metis item prod.collapse snd_conv)
  also have "\<dots> \<longleftrightarrow> dy_get c db (usageKey (ur_id r)) = Some (IUsage r) \<and> shardedEntity ''usage_record'' (ur_id r) = e"
    unfolding entry item_entity.simps option.inject using keyed by blast
  also have "\<dots> \<longleftrightarrow> js_get recs (ur_id r) = Some r \<and> shardedEntity ''usage_record'' (ur_id r) = e"
    using assms(2) by (auto simp: ledger_def)
  finally show "r \<in> set (xs e) \<longleftrightarrow> js_get recs (ur_id r) = Some r \<and> shardedEntity ''usage_record'' (ur_id r) = e" .
qed

lemma distinct_concat_map:
  assumes "distinct es" "\<And>e. distinct (f e)" "\<And>e e' x. x \<in> set (f e) \<Longrightarrow> x \<in> set (f e') \<Longrightarrow> e = e'"
  shows "distinct (concat (map f es))"
  using assms(1)
proof (induction es)
  case (Cons e es)
  have "set (f e) \<inter> set (concat (map f es)) = {}"
  proof (rule ccontr)
    assume "set (f e) \<inter> set (concat (map f es)) \<noteq> {}"
    then obtain x e' where "x \<in> set (f e)" "e' \<in> set es" "x \<in> set (f e')" by auto
    with assms(3) [of x e e'] Cons.prems show False by auto
  qed
  then show ?case using Cons assms(2) by simp
qed simp

lemma run_list_records:
  assumes "dynamo_ok c" "ledger c db (st_usageRecords s)"
  shows "\<exists>rs. run_alone c (dy_listUsageRecords since to None newest) db = (Inr rs, db)
    \<and> mset rs = mset (listUsageRecords since to None newest s)"
proof -
  let ?recs = "st_usageRecords s"
  define xs where "xs = (\<lambda>e. List.map_filter (\<lambda>e. usage_of (snd e)) (dy_query c db (ByEntity e)))"
  define shard where "shard = (\<lambda>e. filter (\<lambda>r. since \<le> completedAt r \<and> completedAt r \<le> to) (js_sort (usage_order newest) (xs e)))"
  define rs where "rs = js_sort (usage_order newest)
    (filter (\<lambda>r. since \<le> completedAt r \<and> completedAt r < to) (concat (map shard (entityShards ''usage_record''))))"
  have records: "distinct (xs e)" "r \<in> set (xs e) \<longleftrightarrow> js_get ?recs (ur_id r) = Some r \<and> shardedEntity ''usage_record'' (ur_id r) = e" for e r
    using shard_records(1) [OF assms, of e] shard_records(2) [OF assms, of r e] unfolding xs_def by blast+
  have "run_alone c (dyn_map (usage_shard since to None newest) (entityShards ''usage_record'')) db = (Inr (map shard (entityShards ''usage_record'')), db)"
    by (rule run_dyn_map) (simp add: usage_shard_def shard_def xs_def take_opt_def ordered_def)
  then have run: "run_alone c (dy_listUsageRecords since to None newest) db = (Inr rs, db)"
    by (simp add: dy_listUsageRecords_def run_alone_bind rs_def take_opt_def)
  have mem: "r \<in> set (shard e) \<longleftrightarrow> js_get ?recs (ur_id r) = Some r \<and> shardedEntity ''usage_record'' (ur_id r) = e
      \<and> since \<le> completedAt r \<and> completedAt r \<le> to" for r e
    using records(2) [of r e] by (auto simp: shard_def)
  have keyed: "keyed ur_id ?recs" using assms(2) by (simp add: ledger_def)
  have listed: "r \<in> set (js_values ?recs) \<longleftrightarrow> js_get ?recs (ur_id r) = Some r" for r
    using keyed js_values_get [of ?recs] keyed_values [OF keyed] by (auto simp: keyed_def)
  have "distinct (concat (map shard (entityShards ''usage_record'')))"
    by (rule distinct_concat_map [OF usage_shards_distinct]) (simp add: shard_def records(1), simp add: mem)
  then have "distinct rs" by (simp add: rs_def)
  moreover have "distinct (js_values ?recs)"
  proof -
    have "map ur_id (js_values ?recs) = js_keys ?recs"
      unfolding js_values_def js_keys_def using keyed_entry [OF keyed] by (auto simp: case_prod_unfold)
    then show ?thesis using keyed by (metis distinct_map keyed_def js_wf_def js_keys_def)
  qed
  then have "distinct (listUsageRecords since to None newest s)" by (simp add: listUsageRecords_def Let_def)
  moreover have "set rs = set (listUsageRecords since to None newest s)"
    by (auto simp: rs_def listUsageRecords_def Let_def listed mem) (metis shard_listed)
  ultimately show ?thesis using run by (auto simp: set_eq_iff_mset_eq_distinct)
qed


text \<open>A range of rollups that ends with a period holds that period's rollup too; the in-memory repository leaves it out.\<close>

lemma rollup_range_reaches_past_end:
  assumes "dynamo_ok c" "dy_get c db (rollupKey r) = Some (IRollup r)" "ro_id r = rollup_id to (ro_interval r) g v"
    and "string_le (toISOString since) (ro_id r)" "ro_periodStartedAt r = to"
  shows "\<exists>rs. fst (run_alone c (dy_listUsageRollups since to (ro_interval r)) db) = Inr rs \<and> has rs r"
    "\<not> has (listUsageRollups since to (ro_interval r) s) r"
proof -
  let ?q = "ByPartition (''USAGE_ROLLUP#'' @ interval_name (ro_interval r))"
  have lex: "lex_compare (xs @ ys) (xs @ zs) = lex_compare ys zs" for xs ys zs :: "int list" by (induction xs) simp_all
  have above: "string_le (ro_id r) (toISOString to @ ''~'')"
    unfolding assms(3) rollup_id_def string_le_def by (simp add: code_unit_compare_def lex)
  have "has (dy_query c db ?q) (rollupKey r, IRollup r)"
    unfolding dynamo_query(2) [OF assms(1)] using assms(2) by (simp add: rollupKey_def)
  then have "has (filter (\<lambda>(k, it). string_le (toISOString since) (snd k) \<and> string_le (snd k) (toISOString to @ ''~'')) (dy_query c db ?q))
      (rollupKey r, IRollup r)"
    using assms(4) above by (simp add: rollupKey_def)
  then have "has (ordered (\<lambda>it. case it of IRollup r \<Rightarrow> Some r | _ \<Rightarrow> None) (\<lambda>a b. code_unit_compare (ro_id a) (ro_id b))
      (filter (\<lambda>(k, it). string_le (toISOString since) (snd k) \<and> string_le (snd k) (toISOString to @ ''~'')) (dy_query c db ?q))) r"
    unfolding ordered_def set_js_sort in_map_filter by (rule rev_bexI) simp
  then show "\<exists>rs. fst (run_alone c (dy_listUsageRollups since to (ro_interval r)) db) = Inr rs \<and> has rs r"
    by (simp add: dy_listUsageRollups_def)
  show "\<not> has (listUsageRollups since to (ro_interval r) s) r" by (simp add: listUsageRollups_def assms(5))
qed

definition sample_ledger :: "UsageRecord list" where
  "sample_ledger = [sample_usage, sample_usage\<lparr>bytesSent := 9\<rparr>, sample_usage\<lparr>ur_id := ''b'', completedAt := 500\<rparr>]"


end
