(* ===== verification/Dynamo_Health.thy ===== *)
theory Dynamo_Health
  imports Dynamo_Usage Health_Alerts
begin

text \<open>
  \<open>src/dynamo-health-repository.ts\<close>: provider health and inventory, capability snapshots, and alerts with their deliveries.
\<close>

subsection \<open>Provider health and inventory\<close>

definition dy_saveHealth :: "ProviderHealth \<Rightarrow> unit dyn" where
  "dy_saveHealth h = save_item (''HEALTH#'' @ ph_provider h, ''STATE'') (IHealth h)"

definition dy_listHealth :: "ProviderHealth list dyn" where
  "dy_listHealth =
     QueryAll (ByEntity ''health'') (\<lambda>items. dyn_return
       (ordered (\<lambda>it. case it of IHealth h \<Rightarrow> Some h | _ \<Rightarrow> None) (\<lambda>a b. code_unit_compare (ph_provider a) (ph_provider b)) items))"

definition inventoryKey :: "ProviderId \<Rightarrow> item_key" where
  "inventoryKey provider = (''PROVIDER_INVENTORY#'' @ provider, ''LATEST'')"

definition dy_saveProviderInventory :: "ProviderInventorySnapshot \<Rightarrow> unit dyn" where
  "dy_saveProviderInventory snapshot = save_item (inventoryKey (inv_provider snapshot)) (IInventory snapshot)"

definition dy_latestProviderInventory :: "ProviderId \<Rightarrow> ProviderInventorySnapshot option dyn" where
  "dy_latestProviderInventory provider =
     GetItem (inventoryKey provider) (\<lambda>v.
       case v of None \<Rightarrow> dyn_return None | Some (IInventory s) \<Rightarrow> dyn_return (Some s) | Some _ \<Rightarrow> dyn_throw wrong_item)"

definition dy_listProviderInventories :: "string comparator \<Rightarrow> ProviderInventorySnapshot list dyn" where
  "dy_listProviderInventories lc =
     QueryAll (ByEntity ''provider_inventory'') (\<lambda>items. dyn_return (js_sort (\<lambda>a b. lc (inv_provider a) (inv_provider b))
       (ordered (\<lambda>it. case it of IInventory s \<Rightarrow> Some s | _ \<Rightarrow> None) (by_key capturedAt) items)))"

subsection \<open>Capability health\<close>

definition capabilityHealthKey :: "CapabilityHealthSnapshot \<Rightarrow> item_key" where
  "capabilityHealthKey snapshot = (''CAPABILITY_HEALTH#GLOBAL'', toISOString (generatedAt snapshot))"

definition dy_saveCapabilityHealth :: "CapabilityHealthSnapshot \<Rightarrow> unit dyn" where
  "dy_saveCapabilityHealth snapshot = save_item (capabilityHealthKey snapshot) (ICapability snapshot)"

definition dy_capabilityHealthHistory :: "nat \<Rightarrow> CapabilityHealthSnapshot list dyn" where
  "dy_capabilityHealthHistory limit =
     QueryAll (ByPartition ''CAPABILITY_HEALTH#GLOBAL'') (\<lambda>items. dyn_return (take limit
       (ordered (\<lambda>it. case it of ICapability s \<Rightarrow> Some s | _ \<Rightarrow> None) (newest_first generatedAt) items)))"

definition dy_latestCapabilityHealth :: "CapabilityHealthSnapshot option dyn" where
  "dy_latestCapabilityHealth =
     dyn_bind (dy_capabilityHealthHistory 1) (\<lambda>xs. dyn_return (case xs of [] \<Rightarrow> None | x # _ \<Rightarrow> Some x))"

subsection \<open>Alerts\<close>

definition alertStateKey :: "CapabilityName \<Rightarrow> item_key" where
  "alertStateKey capability = (''HEALTH_ALERT_STATE#GLOBAL'', capability_name capability)"

definition dy_getHealthAlertState :: "CapabilityName \<Rightarrow> HealthAlertState option dyn" where
  "dy_getHealthAlertState capability =
     GetItem (alertStateKey capability) (\<lambda>v.
       case v of None \<Rightarrow> dyn_return None | Some (IAlertState s) \<Rightarrow> dyn_return (Some s) | Some _ \<Rightarrow> dyn_throw wrong_item)"

definition dy_saveHealthAlertState :: "HealthAlertState \<Rightarrow> unit dyn" where
  "dy_saveHealthAlertState s = save_item (alertStateKey (as_capability s)) (IAlertState s)"

definition alertKey :: "string \<Rightarrow> item_key" where
  "alertKey dedupe = (''HEALTH_ALERT_EVENT#'' @ dedupe, ''EVENT'')"

definition deliveryItemKey :: "string \<Rightarrow> string \<Rightarrow> item_key" where
  "deliveryItemKey alert destination = (''HEALTH_ALERT_DELIVERY#'' @ alert, destination)"

definition create_delivery :: "HealthAlertEvent \<Rightarrow> string \<Rightarrow> unit dyn" where
  "create_delivery e destination =
     Commit [put (deliveryItemKey (alert_id e) destination) (IDelivery (pendingDelivery e destination)) absent] (\<lambda>_. dyn_return ())"

text \<open>Who writes the event first has created it; everyone makes sure of the deliveries of the event that is stored.\<close>

definition dy_createHealthAlertEvent :: "HealthAlertEvent \<Rightarrow> string list \<Rightarrow> bool dyn" where
  "dy_createHealthAlertEvent e destinationIds =
     dyn_bind
       (Commit [put (alertKey (dedupeKey e)) (IAlert e) absent] (\<lambda>created.
          if created then dyn_return (True, e)
          else GetItem (alertKey (dedupeKey e)) (\<lambda>v.
            case v of
              None \<Rightarrow> dyn_throw (throw_error ''Health alert deduplication state is missing'')
            | Some (IAlert persisted) \<Rightarrow> dyn_return (False, persisted)
            | Some _ \<Rightarrow> dyn_throw wrong_item)))
       (\<lambda>(created, persisted). dyn_bind (dyn_for (create_delivery persisted) destinationIds) (\<lambda>_. dyn_return created))"

definition dy_pendingHealthAlertDeliveries :: "timestamp \<Rightarrow> nat \<Rightarrow> HealthAlertDelivery list dyn" where
  "dy_pendingHealthAlertDeliveries dueBefore limit =
     QueryAll (ByEntity ''health_alert_delivery_pending'') (\<lambda>items. dyn_return (take limit
       (filter (\<lambda>d. nextAttemptAt d \<le> dueBefore)
         (ordered (\<lambda>it. case it of IDelivery d \<Rightarrow> Some d | _ \<Rightarrow> None) (by_key nextAttemptAt) items))))"

definition dy_saveHealthAlertDelivery :: "HealthAlertDelivery \<Rightarrow> unit dyn" where
  "dy_saveHealthAlertDelivery d = save_item (deliveryItemKey (alertId d) (destinationId d)) (IDelivery d)"

definition dy_healthAlertHistory :: "nat \<Rightarrow> HealthAlertEvent list dyn" where
  "dy_healthAlertHistory limit =
     QueryAll (ByEntity ''health_alert_event'') (\<lambda>items. dyn_return (take limit
       (ordered (\<lambda>it. case it of IAlert e \<Rightarrow> Some e | _ \<Rightarrow> None) (newest_first alert_createdAt) items)))"

subsection \<open>An alert is created once\<close>

lemma alert_keys [simp]:
  "alertKey a = alertKey b \<longleftrightarrow> a = b" "deliveryItemKey a d = deliveryItemKey a' d' \<longleftrightarrow> a = a' \<and> d = d'"
  "deliveryItemKey a d \<noteq> alertKey b" "alertKey b \<noteq> deliveryItemKey a d"
  by (auto simp: alertKey_def deliveryItemKey_def)

lemma run_create_deliveries:
  assumes "dynamo_ok c"
  shows "\<exists>db'. run_alone c (dyn_for (create_delivery e) ds) db = (Inr (), db')
    \<and> (\<forall>k. dy_get c db' k = (case dy_get c db k of Some it \<Rightarrow> Some it
          | None \<Rightarrow> if k \<in> deliveryItemKey (alert_id e) ` set ds then Some (IDelivery (pendingDelivery e (snd k))) else None))"
proof (induction ds arbitrary: db)
  case Nil
  then show ?case by (simp split: option.split)
next
  case (Cons d ds)
  let ?k = "deliveryItemKey (alert_id e) d" and ?it = "IDelivery (pendingDelivery e d)"
  define db1 where "db1 = wrote c [put ?k ?it absent] db"
  have first: "run_alone c (create_delivery e d) db = (Inr (), db1)"
    by (simp add: create_delivery_def db1_def wrote_def case_prod_unfold)
  have get1: "dy_get c db1 = (if dy_get c db ?k = None then (dy_get c db)(?k := Some ?it) else dy_get c db)"
    using wrote_one [OF assms, where k = ?k and P = absent and f = "\<lambda>_. Some ?it" and db = db] by (simp add: db1_def put_def absent_def)
  obtain db' where db': "run_alone c (dyn_for (create_delivery e) ds) db1 = (Inr (), db')"
      "\<forall>k. dy_get c db' k = (case dy_get c db1 k of Some it \<Rightarrow> Some it
          | None \<Rightarrow> if k \<in> deliveryItemKey (alert_id e) ` set ds then Some (IDelivery (pendingDelivery e (snd k))) else None)"
    using Cons.IH by blast
  have "dy_get c db' k = (case dy_get c db k of Some it \<Rightarrow> Some it
          | None \<Rightarrow> if k \<in> deliveryItemKey (alert_id e) ` set (d # ds) then Some (IDelivery (pendingDelivery e (snd k))) else None)" for k
  proof (cases "k = ?k")
    case True
    have "snd ?k = d" by (simp add: deliveryItemKey_def)
    with True spec [OF db'(2), of k] show ?thesis by (cases "dy_get c db ?k") (simp_all add: get1)
  next
    case False
    with spec [OF db'(2), of k] show ?thesis by (simp add: get1)
  qed
  then show ?case using db'(1) by (simp add: run_alone_bind first)
qed

text \<open>
  Creating an alert reports creation exactly if its dedupe key was free; the first event under a key stays, and whatever the
  outcome every destination has a delivery of the stored event. A delivery that exists is left alone.
\<close>

lemma run_create_alert:
  assumes "dynamo_ok c" "case dy_get c db (alertKey (dedupeKey e)) of None \<Rightarrow> True | Some it \<Rightarrow> \<exists>x. it = IAlert x"
  defines "stored \<equiv> case dy_get c db (alertKey (dedupeKey e)) of Some (IAlert x) \<Rightarrow> x | _ \<Rightarrow> e"
  shows "\<exists>db'. run_alone c (dy_createHealthAlertEvent e ds) db = (Inr (dy_get c db (alertKey (dedupeKey e)) = None), db')
    \<and> dy_get c db' (alertKey (dedupeKey e)) = Some (IAlert stored)
    \<and> (\<forall>d \<in> set ds. dy_get c db' (deliveryItemKey (alert_id stored) d) =
         (case dy_get c db (deliveryItemKey (alert_id stored) d) of Some it \<Rightarrow> Some it | None \<Rightarrow> Some (IDelivery (pendingDelivery stored d))))"
proof -
  let ?k = "alertKey (dedupeKey e)"
  define db1 where "db1 = wrote c [put ?k (IAlert e) absent] db"
  note one = wrote_one [OF assms(1), where k = ?k and P = absent and f = "\<lambda>_. Some (IAlert e)" and db = db]
  have get1: "dy_get c db1 = (if dy_get c db ?k = None then (dy_get c db)(?k := Some (IAlert e)) else dy_get c db)"
    using one(2,3) by (simp add: db1_def put_def absent_def)
  have head: "run_alone c (Commit [put ?k (IAlert e) absent] (\<lambda>created.
          if created then dyn_return (True, e)
          else GetItem ?k (\<lambda>v.
            case v of
              None \<Rightarrow> dyn_throw (throw_error ''Health alert deduplication state is missing'')
            | Some (IAlert persisted) \<Rightarrow> dyn_return (False, persisted)
            | Some _ \<Rightarrow> dyn_throw wrong_item))) db = (Inr (dy_get c db ?k = None, stored), db1)"
  proof (cases "dy_get c db ?k")
    case None
    then show ?thesis using one(1) by (simp add: stored_def db1_def put_def wrote_def absent_def case_prod_unfold)
  next
    case (Some it)
    then obtain x where x: "it = IAlert x" using assms(2) by auto
    have "dy_get c db1 ?k = Some (IAlert x)" using get1 Some x by simp
    then show ?thesis using one(1) Some x by (simp add: stored_def db1_def put_def wrote_def absent_def case_prod_unfold)
  qed
  have stored1: "dy_get c db1 ?k = Some (IAlert stored)" using get1 assms(2) by (auto simp: stored_def split: option.splits)
  obtain db' where db': "run_alone c (dyn_for (create_delivery stored) ds) db1 = (Inr (), db')"
      "\<forall>k. dy_get c db' k = (case dy_get c db1 k of Some it \<Rightarrow> Some it
          | None \<Rightarrow> if k \<in> deliveryItemKey (alert_id stored) ` set ds then Some (IDelivery (pendingDelivery stored (snd k))) else None)"
    using run_create_deliveries [OF assms(1)] by blast
  have same: "dy_get c db1 (deliveryItemKey a d) = dy_get c db (deliveryItemKey a d)" for a d by (simp add: get1)
  have "run_alone c (dy_createHealthAlertEvent e ds) db = (Inr (dy_get c db ?k = None), db')"
    unfolding dy_createHealthAlertEvent_def run_alone_bind head by (simp add: run_alone_bind db'(1))
  moreover have "dy_get c db' ?k = Some (IAlert stored)" using spec [OF db'(2), of ?k] stored1 by simp
  moreover have "dy_get c db' (deliveryItemKey (alert_id stored) d) =
      (case dy_get c db (deliveryItemKey (alert_id stored) d) of Some it \<Rightarrow> Some it | None \<Rightarrow> Some (IDelivery (pendingDelivery stored d)))"
    if "d \<in> set ds" for d
  proof -
    have "snd (deliveryItemKey (alert_id stored) d) = d" by (simp add: deliveryItemKey_def)
    with spec [OF db'(2), of "deliveryItemKey (alert_id stored) d"] that same show ?thesis by (simp split: option.split)
  qed
  ultimately show ?thesis by blast
qed

end
