(* ===== verification/Spec2Isabelle.thy ===== *)
theory Spec2Isabelle
  imports Store_Contracts Health_Store Candidate_Ranker Deployment_Drain Capacity_Planning Tunnel_Operation Usage_Worker Socks_Proxy Health_Aggregation
    Forward_Proxy Proxidize Dynamo_Health
begin

text \<open>
  A verification development of the proxy router under \<open>src/\<close>: a gateway that lets customers reach the
  internet through the upstream proxies of several providers. Customers own \<^emph>\<open>routes\<close> (what may be
  reached and how), issue \<^emph>\<open>access grants\<close> for them, and hand the grants' \<^emph>\<open>credentials\<close> to their
  clients. A client authenticates at a gateway task, the gateway \<^emph>\<open>resolves\<close> an upstream endpoint,
  tracks the connection and records its usage. Gateways and the control plane share one store.

  \<^bold>\<open>Theories and sources.\<close>

  \<^item> \<open>Prelude\<close>: JavaScript's insertion-ordered maps as lists of pairs (\<open>js_map\<close>, \<open>js_get\<close>, \<open>js_set\<close>),
    its stable sort (\<open>js_sort\<close>) on comparators, and operations that may throw (\<open>op\<close>, \<open>bind_op\<close>,
    \<open>for_each_op\<close>) as functions from a state to an error or a value and the new state.
  \<^item> \<open>Routing_Domain\<close>, \<open>Health_Usage_Domain\<close> (\<open>domain/*.ts\<close>), \<open>Errors\<close> (\<open>errors.ts\<close>), \<open>Service_Policies\<close>
    (\<open>service-policies.ts\<close>, \<open>release-policy.ts\<close>): records, enumerations, errors as values, constants.
  \<^item> \<open>Capacity_Circuit\<close> (\<open>capacity-circuit.ts\<close>): the circuit breaker of a provider or slot. It opens
    exactly when it should, its half-open probe is exclusive, and it always recovers.
  \<^item> \<open>Credentials\<close> (\<open>store.ts\<close>), \<open>Route_Store\<close> and \<open>Health_Store\<close> (\<open>in-memory-route-store.ts\<close>,
    \<open>in-memory-usage-repository.ts\<close>): every operation of the store on the record \<open>StoreState\<close>.
    \<open>Store_Invariants\<close> gathers the operations into commands and proves the well-formedness \<open>store_inv\<close>
    kept by each; \<open>Revocation\<close> proves that withdrawal is final under every run of commands;
    \<open>Store_Contracts\<close> gives what creating, rotating and revoking, sessions, tunnels and counts do.
  \<^item> \<open>Provider_Selection\<close>, \<open>Routing_Score\<close>, \<open>Candidate_Ranker\<close> (\<open>provider-selection.ts\<close>,
    \<open>routing-policy.ts\<close>, \<open>routing-candidate-ranker.ts\<close>, \<open>routing-resolution.ts\<close>): which providers fit a
    request and in which order they are tried. Scores are real numbers.
  \<^item> \<open>Capacity_Planning\<close> (\<open>capacity-policy.ts\<close>), \<open>Deployment_Drain\<close> (\<open>deployment-coordinator.ts\<close>,
    \<open>release-policy.ts\<close>), \<open>Target_Security\<close> (\<open>target-security.ts\<close>).
  \<^item> \<open>Validation\<close> (\<open>validation.ts\<close>, \<open>route-profile-schema.ts\<close>), \<open>Access_Grants\<close>
    (\<open>access-grant-service.ts\<close>, \<open>route-administration.ts\<close>): the control plane on behalf of a principal,
    with the isolation of principals and the completeness of deletion.
  \<^item> \<open>Authentication\<close>, \<open>Resolution\<close>, \<open>Route_Service\<close> (\<open>route-service.ts\<close>) and \<open>Connection_Tracker\<close>
    (\<open>active-connection-tracker.ts\<close>): the gateway task. \<open>Authentication\<close> models one gateway among others
    as a step relation and proves that withdrawal takes effect within a second; \<open>Connection_Tracker\<close>
    that cutting reaches exactly the connections meant; \<open>Resolution_Safety\<close> that a resolution ends,
    stays within its budget and holds a slot exactly when it returns an endpoint; \<open>Route_Service\<close>
    composes them, shows that every call refines the abstract gateway and that emergency revocation
    acts at once.
  \<^item> \<open>Destination\<close> (\<open>destination-resolution.ts\<close>, \<open>usage-destination.ts\<close>) and \<open>Tunnel_Operation\<close>
    (\<open>tunnel-operation.ts\<close>, \<open>proxy-attempt-accounting.ts\<close>, \<open>establishment-budget.ts\<close>): the operation of a
    client from the first attempt to the end of its tunnel. A tunnel holds its slot exactly while it
    is open, every attempt is accounted for once, and no identifier of a path is recorded.
  \<^item> \<open>Upstream_Tunnel\<close> (\<open>upstream-tunnel.ts\<close>, \<open>net-utils.ts\<close>) and \<open>Socks_Proxy\<close> (\<open>socks5-proxy.ts\<close>): both
    protocols by which the gateway opens a tunnel at a provider, and the SOCKS5 server it offers, down
    to the bytes; the client and the server of the gateway understand each other, and no input makes
    the server open a tunnel without a login.
  \<^item> \<open>Forward_Proxy\<close> (\<open>forward-proxy.ts\<close>): a plain request from its checks through its attempts to the
    end of its exchange, which is a list of events of the two streams; \<open>CONNECT\<close> around the tunnel
    operation.
  \<^item> \<open>Decoding\<close> (\<open>decoding.ts\<close>), \<open>Bright_Data\<close> and \<open>Proxidize\<close> (\<open>providers/*.ts\<close>,
    \<open>provider-runtime.ts\<close>): how the providers' answers are read and how each adapter chooses and describes
    an endpoint; both meet the contract \<open>adapters_ok\<close> of the resolution.
  \<^item> \<open>Usage_Windows\<close>, \<open>Usage_Cost\<close>, \<open>Usage_Periods\<close>, \<open>Usage_Rollup\<close>, \<open>Usage_Conservation\<close>
    (\<open>usage-accounting-core.ts\<close>) and \<open>Usage_Worker\<close> (\<open>usage-accounting-worker.ts\<close>): durations and peaks of
    windows, prices, calendar periods, rollups by customer or provider, capacity pressure and
    reconciliation. Bytes are counted in exactly one period, and costs of the groups add up.
  \<^item> \<open>Health_Alerts\<close> (\<open>alerting.ts\<close>): the state machine of alerts with every point at which an evaluation
    can be interrupted, and the delivery of webhooks; \<open>Health_Aggregation\<close> (\<open>health-aggregator.ts\<close>): the
    health of providers and capabilities as one snapshot, which the alerts are evaluated on.

  \<^bold>\<open>Interfaces.\<close> The locales \<open>store_invariant\<close> (\<open>Store_Invariants\<close>), \<open>store_evolution\<close> (\<open>Revocation\<close>),
  \<open>write_once\<close> (\<open>Health_Store\<close>), \<open>connection_index\<close> (\<open>Connection_Tracker\<close>), \<open>alert_evaluator\<close>
  (\<open>Health_Aggregation\<close>) and the comparators' laws
  (\<open>Prelude\<close>, \<open>Provider_Selection\<close>) state what one component relies on; each is interpreted on the
  model's own operations next to them.

  \<^bold>\<open>Modelling decisions.\<close> Timestamps are milliseconds (\<open>int\<close>); the ISO strings of the source order
  alike. Random identifiers, tokens, salts, SHA-256, string collation, DNS and the clock are arguments.
  A store operation is atomic, as in the single-threaded in-memory store, and a service operation
  reads the clock once; where the code awaits between steps and the interleaving matters, the steps
  are separate (\<open>authenticate_probe\<close> and \<open>authenticate_answer\<close>, the rebinding of a session in
  \<open>resolve\<close>). A thrown value is \<open>exn\<close>, with the provider and assignment that the code attaches to it.
  Log lines and telemetry are left out. Strings are lists of 8-bit characters.

  \<^bold>\<open>Bounds and fuel.\<close> The only recursion with fuel is \<open>resolve_rounds\<close>; \<open>resolve\<close> gives it three rounds,
  and \<open>resolve_terminates\<close> proves that they suffice in every state. \<open>period_starts\<close> is total because
  \<open>nextPeriod\<close> is later than its argument. All other loops are structural, on the list they run over
  or on the number of attempts left.

  \<^bold>\<open>Hypotheses on code outside the sources.\<close> SHA-256 has no collision among the inputs at hand, decoding
  base64 inverts encoding, and the provider adapters answer as their interface says (\<open>adapters_ok\<close>).
  Each appears by name in the theorems that use it, with a witness that instantiates it.

  \<^bold>\<open>Not modelled.\<close> The DynamoDB store (conditional writes of a service outside the sources), the sockets
  under the proxies, the adapters' HTTP calls, the HTTP control API and its schema library, rendering,
  canaries, configuration and telemetry, simulators.
\<close>

end
